(* ===== verification/Go_Prelude.thy ===== *)
theory Go_Prelude
  imports Main "HOL-Library.Word"
begin

text \<open>
  Shared ground of the development: the Go integer types as words, byte slices, the
  error and panic outcomes of a Go call, the state-passing combinators in which the
  operations are written, and little-endian encoding as \<open>encoding/binary\<close> does it.

  \<^item> \<open>goerr\<close>: sentinel errors (\<open>io.EOF\<close>, \<open>vfs.ErrNotExist\<close>, \<open>fs.ErrNotExist\<close>, \<dots>), \<open>fmt.Errorf\<close> values named
    by their format string, and \<open>Wrapf\<close> for the \<open>%w\<close> wrappers.
  \<^item> \<open>'a res\<close>: a call returns a value, returns an error, or panics.
  \<^item> \<open>bslice\<close> is \<open>b[i:j]\<close> inside its bounds, \<open>copy_at\<close> is \<open>copy(dst[off:], src)\<close>.
  \<^item> \<open>le_bytes\<close>, \<open>le_val\<close>: the little-endian image of a word and back.
\<close>

unbundle bit_operations_syntax

named_theorems go_simps \<open>unfolding rules of the Go combinators\<close>
named_theorems bytes_simps \<open>lengths and selections of byte strings\<close>

type_synonym u8 = "8 word"
type_synonym u16 = "16 word"
type_synonym u32 = "32 word"
type_synonym u64 = "64 word"
type_synonym bytes = "8 word list"

section \<open>Outcomes of a Go call\<close>

datatype goerr =
    EOF
  | ErrNotExist
  | ErrAttrNotExist
  | ErrNoSpace
  | Fs_ErrNotExist
  | Errorf string
  | Wrapf string goerr

primrec errors_Is :: "goerr \<Rightarrow> goerr \<Rightarrow> bool" where
  "errors_Is EOF t = (t = EOF)"
| "errors_Is ErrNotExist t = (t = ErrNotExist)"
| "errors_Is ErrAttrNotExist t = (t = ErrAttrNotExist)"
| "errors_Is ErrNoSpace t = (t = ErrNoSpace)"
| "errors_Is Fs_ErrNotExist t = (t = Fs_ErrNotExist)"
| "errors_Is (Errorf m) t = (t = Errorf m)"
| "errors_Is (Wrapf m e) t = (t = Wrapf m e \<or> errors_Is e t)"

datatype 'a res = Ok 'a | Err goerr | Panic

definition bindR :: "'a res \<Rightarrow> ('a \<Rightarrow> 'b res) \<Rightarrow> 'b res" where
  "bindR r f = (case r of Ok x \<Rightarrow> f x | Err e \<Rightarrow> Err e | Panic \<Rightarrow> Panic)"

definition wrapR :: "string \<Rightarrow> 'a res \<Rightarrow> 'a res" where
  "wrapR m r = (case r of Ok x \<Rightarrow> Ok x | Err e \<Rightarrow> Err (Wrapf m e) | Panic \<Rightarrow> Panic)"

definition mapR :: "('a \<Rightarrow> 'b) \<Rightarrow> 'a res \<Rightarrow> 'b res" where
  "mapR f r = (case r of Ok x \<Rightarrow> Ok (f x) | Err e \<Rightarrow> Err e | Panic \<Rightarrow> Panic)"

type_synonym ('s, 'a) op = "'s \<Rightarrow> 'a res \<times> 's"

definition ret :: "'a \<Rightarrow> ('s, 'a) op" where
  "ret x s = (Ok x, s)"

definition failw :: "goerr \<Rightarrow> ('s, 'a) op" where
  "failw e s = (Err e, s)"

definition panic :: "('s, 'a) op" where
  "panic s = (Panic, s)"

definition liftR :: "'a res \<Rightarrow> ('s, 'a) op" where
  "liftR r s = (r, s)"

definition andThen :: "('s, 'a) op \<Rightarrow> ('a \<Rightarrow> ('s, 'b) op) \<Rightarrow> ('s, 'b) op" where
  "andThen m f s =
     (case m s of (r, s') \<Rightarrow>
        (case r of Ok x \<Rightarrow> f x s' | Err e \<Rightarrow> (Err e, s') | Panic \<Rightarrow> (Panic, s')))"

definition wrapErr :: "string \<Rightarrow> ('s, 'a) op \<Rightarrow> ('s, 'a) op" where
  "wrapErr m f s = (case f s of (r, s') \<Rightarrow> (wrapR m r, s'))"

text \<open>\<open>if err == nil\<close> on a call whose error is tested and dropped: the outcome becomes
  a value of its own; only a panic still unwinds.\<close>

definition attempt :: "('s, 'a) op \<Rightarrow> ('s, 'a option) op" where
  "attempt f s =
     (case f s of (r, s') \<Rightarrow>
        (case r of Ok x \<Rightarrow> (Ok (Some x), s') | Err e \<Rightarrow> (Ok None, s') | Panic \<Rightarrow> (Panic, s')))"

definition getS :: "('s \<Rightarrow> 'a) \<Rightarrow> ('s, 'a) op" where
  "getS f s = (Ok (f s), s)"

definition modS :: "('s \<Rightarrow> 's) \<Rightarrow> ('s, unit) op" where
  "modS f s = (Ok (), f s)"

lemmas res_simps [simp, go_simps] = bindR_def wrapR_def mapR_def
lemmas op_simps [simp, go_simps] =
  ret_def failw_def panic_def liftR_def getS_def modS_def

lemma andThen_Ok [simp]: "m s = (Ok x, s') \<Longrightarrow> andThen m f s = f x s'"
  by (simp add: andThen_def)

lemma andThen_Err [simp]: "m s = (Err e, s') \<Longrightarrow> andThen m f s = (Err e, s')"
  by (simp add: andThen_def)

lemma andThen_Panic [simp]: "m s = (Panic, s') \<Longrightarrow> andThen m f s = (Panic, s')"
  by (simp add: andThen_def)

lemma wrapErr_eq [simp]: "f s = (r, s') \<Longrightarrow> wrapErr m f s = (wrapR m r, s')"
  by (simp add: wrapErr_def del: wrapR_def)

lemma andThen_OkE:
  assumes "andThen m f s = (Ok y, s'')"
  obtains x s' where "m s = (Ok x, s')" and "f x s' = (Ok y, s'')"
  using assms by (auto simp: andThen_def split: prod.splits res.splits)

lemma wrapErr_OkD: "wrapErr m f s = (Ok y, s') \<Longrightarrow> f s = (Ok y, s')"
  by (auto simp: wrapErr_def split: prod.splits res.splits)

lemma attempt_Ok [simp]: "f s = (Ok x, s') \<Longrightarrow> attempt f s = (Ok (Some x), s')"
  by (simp add: attempt_def)

lemma attempt_Err [simp]: "f s = (Err e, s') \<Longrightarrow> attempt f s = (Ok None, s')"
  by (simp add: attempt_def)

lemma attempt_Panic [simp]: "f s = (Panic, s') \<Longrightarrow> attempt f s = (Panic, s')"
  by (simp add: attempt_def)

section \<open>Integer conversions\<close>

text \<open>\<open>int64(x)\<close> of a \<open>uint64\<close>; Go's \<open>int\<close> is 64 bits wide on the targets of the
  program. Signed arithmetic is on \<open>int\<close> with the wrap-around of \<open>int64\<close> written out.\<close>

definition i64 :: "int \<Rightarrow> int" where
  "i64 x = sint (word_of_int x :: u64)"

definition u64i :: "int \<Rightarrow> u64" where
  "u64i x = word_of_int x"

lemma i64_id [simp]: "- (2 ^ 63) \<le> x \<Longrightarrow> x < 2 ^ 63 \<Longrightarrow> i64 x = x"
  unfolding i64_def by (subst sint_sbintrunc') (simp add: signed_take_bit_int_eq_self)

lemma sint_u64_small: "unat (w :: u64) < 2 ^ 63 \<Longrightarrow> sint w = int (unat w)"
proof -
  assume "unat w < 2 ^ 63"
  then have less: "uint w < 2 ^ 63"
    by (metis of_nat_less_iff of_nat_numeral of_nat_power uint_nat)
  have "sint w = signed_take_bit 63 (uint w)"
    by (simp add: sint_uint)
  also have "\<dots> = uint w"
    by (rule signed_take_bit_int_eq_self) (use less uint_ge_0 [of w] in linarith)+
  finally show ?thesis by simp
qed

lemma unat_mult_u64: "unat a * unat b < 2 ^ 64 \<Longrightarrow> unat (a * b :: u64) = unat a * unat b"
  by (simp add: unat_word_ariths)

lemma unat_add_u64: "unat a + unat b < 2 ^ 64 \<Longrightarrow> unat (a + b :: u64) = unat a + unat b"
  by (simp add: unat_word_ariths)

lemma unat_ucast_up [simp]:
  "LENGTH('a) \<le> LENGTH('b) \<Longrightarrow> unat (ucast (w :: 'a::len word) :: 'b::len word) = unat w"
proof -
  assume "LENGTH('a) \<le> LENGTH('b)"
  then have "unat w < 2 ^ LENGTH('b)"
    using unsigned_less [of w, where ?'a = nat] by (meson less_le_trans one_le_numeral power_increasing)
  then show ?thesis by (simp add: unsigned_ucast_eq take_bit_nat_eq_self)
qed

lemma unat_bounds:
  "unat (a :: u8) < 2 ^ 8" "unat (b :: u16) < 2 ^ 16" "unat (c :: u32) < 2 ^ 32" "unat (d :: u64) < 2 ^ 64"
  using unsigned_less [of a, where ?'a = nat] unsigned_less [of b, where ?'a = nat]
    unsigned_less [of c, where ?'a = nat] unsigned_less [of d, where ?'a = nat] by simp_all

section \<open>Byte slices\<close>

definition bslice :: "nat \<Rightarrow> nat \<Rightarrow> 'a list \<Rightarrow> 'a list" where
  "bslice i j xs = take (j - i) (drop i xs)"

definition goslice :: "nat \<Rightarrow> nat \<Rightarrow> 'a list \<Rightarrow> 'a list res" where
  "goslice i j xs = (if i \<le> j \<and> j \<le> length xs then Ok (bslice i j xs) else Panic)"

definition copy_at :: "nat \<Rightarrow> 'a list \<Rightarrow> 'a list \<Rightarrow> 'a list" where
  "copy_at off src dst =
     take off dst @ take (length dst - off) src @ drop (off + length src) dst"

definition zeros :: "nat \<Rightarrow> bytes" where
  "zeros n = replicate n 0"

lemma length_zeros [simp, bytes_simps]: "length (zeros n) = n"
  by (simp add: zeros_def)

lemma nth_zeros [simp]: "i < n \<Longrightarrow> zeros n ! i = 0"
  by (simp add: zeros_def)

lemma length_slice [simp, bytes_simps]: "j \<le> length xs \<Longrightarrow> length (bslice i j xs) = j - i"
  by (simp add: bslice_def)

lemma nth_slice [simp]: "k < j - i \<Longrightarrow> j \<le> length xs \<Longrightarrow> bslice i j xs ! k = xs ! (i + k)"
  by (simp add: bslice_def)

lemma slice_skip [bytes_simps]:
  "length a \<le> i \<Longrightarrow> bslice i j (a @ b) = bslice (i - length a) (j - length a) b"
  by (simp add: bslice_def)

lemma slice_hit [bytes_simps]: "length a = n \<Longrightarrow> bslice 0 n (a @ b) = a"
  by (simp add: bslice_def)

lemma slice_all [bytes_simps]: "length a = n \<Longrightarrow> bslice 0 n a = a"
  by (simp add: bslice_def)

lemma slice_inside: "j \<le> length a \<Longrightarrow> bslice i j (a @ b) = bslice i j a"
  by (simp add: bslice_def)

lemma slice_join [bytes_simps]:
  "i \<le> j \<Longrightarrow> j \<le> k \<Longrightarrow> bslice i j xs @ bslice j k xs = bslice i k xs"
proof -
  assume "i \<le> j" and "j \<le> k"
  then obtain a b where "j = i + a" and "k = i + a + b"
    by (metis le_Suc_ex)
  then show ?thesis
    by (simp add: bslice_def take_add drop_drop add.commute)
qed

lemma slice_join_append [bytes_simps]:
  "i \<le> j \<Longrightarrow> j \<le> k \<Longrightarrow> bslice i j xs @ bslice j k xs @ r = bslice i k xs @ r"
  by (simp add: slice_join flip: append_assoc)

lemma slice_from_0: "bslice 0 n xs = take n xs"
  by (simp add: bslice_def)

lemma slice_drop: "bslice i j (drop k xs) = bslice (k + i) (k + j) xs"
  by (simp add: bslice_def add.commute)

lemma length_copy_at [simp, bytes_simps]:
  "off \<le> length dst \<Longrightarrow> length (copy_at off src dst) = length dst"
  by (simp add: copy_at_def)

lemma nth_copy_at:
  "off \<le> length dst \<Longrightarrow> i < length dst \<Longrightarrow>
   copy_at off src dst ! i = (if off \<le> i \<and> i < off + length src then src ! (i - off) else dst ! i)"
  by (auto simp: copy_at_def nth_append min_def)

lemma slice_copy_at_same:
  "off + length src \<le> length dst \<Longrightarrow> bslice off (off + length src) (copy_at off src dst) = src"
  by (simp add: bslice_def copy_at_def)

lemma slice_copy_at_other:
  assumes "off + length src \<le> length dst" and "j \<le> length dst"
    and "j \<le> off \<or> off + length src \<le> i"
  shows "bslice i j (copy_at off src dst) = bslice i j dst"
  using assms by (intro nth_equalityI) (auto simp: nth_copy_at)

lemma copy_at_slice_self:
  "off + n \<le> length dst \<Longrightarrow> copy_at off (bslice off (off + n) dst) dst = dst"
  by (rule nth_equalityI) (auto simp: nth_copy_at)

lemma copy_at_twice:
  "length p = length q \<Longrightarrow> off + length q \<le> length dst \<Longrightarrow>
   copy_at off p (copy_at off q dst) = copy_at off p dst"
  by (rule nth_equalityI) (auto simp: nth_copy_at)

lemma slice_nth_eq_iff:
  "j \<le> length xs \<Longrightarrow> j \<le> length ys \<Longrightarrow>
   bslice i j xs = bslice i j ys \<longleftrightarrow> (\<forall>k. i \<le> k \<longrightarrow> k < j \<longrightarrow> xs ! k = ys ! k)"
proof
  assume len: "j \<le> length xs" "j \<le> length ys" and eq: "bslice i j xs = bslice i j ys"
  show "\<forall>k. i \<le> k \<longrightarrow> k < j \<longrightarrow> xs ! k = ys ! k"
  proof (intro allI impI)
    fix k assume "i \<le> k" "k < j"
    with len nth_slice [of "k - i" j i xs] nth_slice [of "k - i" j i ys] eq
    show "xs ! k = ys ! k" by simp
  qed
qed (auto intro!: nth_equalityI)

section \<open>Little-endian integers\<close>

primrec le_bytes :: "nat \<Rightarrow> 'a::len word \<Rightarrow> bytes" where
  "le_bytes 0 w = []"
| "le_bytes (Suc n) w = ucast w # le_bytes n (drop_bit 8 w)"

primrec le_val :: "bytes \<Rightarrow> 'a::len word" where
  "le_val [] = 0"
| "le_val (b # bs) = ucast b OR push_bit 8 (le_val bs)"

definition put16 :: "u16 \<Rightarrow> bytes" where "put16 = le_bytes 2"
definition put32 :: "u32 \<Rightarrow> bytes" where "put32 = le_bytes 4"
definition put64 :: "u64 \<Rightarrow> bytes" where "put64 = le_bytes 8"

definition get16 :: "nat \<Rightarrow> bytes \<Rightarrow> u16" where "get16 i bs = le_val (bslice i (i + 2) bs)"
definition get32 :: "nat \<Rightarrow> bytes \<Rightarrow> u32" where "get32 i bs = le_val (bslice i (i + 4) bs)"
definition get64 :: "nat \<Rightarrow> bytes \<Rightarrow> u64" where "get64 i bs = le_val (bslice i (i + 8) bs)"

lemma length_le_bytes [simp]: "length (le_bytes n w) = n"
  by (induction n arbitrary: w) auto

lemma length_puts [simp, bytes_simps]:
  "length (put16 a) = 2" "length (put32 b) = 4" "length (put64 c) = 8"
  by (simp_all add: put16_def put32_def put64_def)

lemma le_val_le_bytes: "le_val (le_bytes n (w :: 'a::len word)) = take_bit (8 * n) w"
proof (induction n arbitrary: w)
  case (Suc n)
  have "ucast (ucast w :: u8) OR push_bit 8 (take_bit (8 * n) (drop_bit 8 w)) =
        take_bit (8 + 8 * n) w"
    by (rule bit_word_eqI) (auto simp: bit_simps)
  with Suc show ?case by simp
qed simp

lemma le_bytes_take_bit: "8 * k \<le> m \<Longrightarrow> le_bytes k (take_bit m (v :: 'a::len word)) = le_bytes k v"
proof (induction k arbitrary: m v)
  case (Suc k)
  have "drop_bit 8 (take_bit m v) = take_bit (m - 8) (drop_bit 8 v)"
    by (rule bit_word_eqI) (use Suc.prems in \<open>auto simp: bit_simps\<close>)
  moreover have "ucast (take_bit m v) = (ucast v :: u8)"
    by (rule bit_word_eqI) (use Suc.prems in \<open>auto simp: bit_simps\<close>)
  ultimately show ?case using Suc by simp
qed simp

lemma le_bytes_le_val:
  "length bs = n \<Longrightarrow> 8 * n \<le> LENGTH('a) \<Longrightarrow> le_bytes n (le_val bs :: 'a::len word) = bs"
proof (induction bs arbitrary: n)
  case (Cons b bs)
  then obtain k where k: "n = Suc k" "length bs = k" "8 * k \<le> LENGTH('a) - 8" "8 * k \<le> LENGTH('a)"
    by (cases n) auto
  have 1: "ucast (ucast b OR push_bit 8 (le_val bs) :: 'a word) = b"
    using Cons.prems by (intro bit_word_eqI) (auto simp: bit_simps)
  have 2: "drop_bit 8 (ucast b OR push_bit 8 (le_val bs) :: 'a word) =
           take_bit (LENGTH('a) - 8) (le_val bs)"
    using Cons.prems by (intro bit_word_eqI) (auto simp: bit_simps dest: bit_imp_le_length)
  show ?case
    unfolding k(1) le_val.simps le_bytes.simps 1 2 le_bytes_take_bit [OF k(3)]
    using Cons.IH [OF k(2,4)] by simp
qed simp

lemma le_val_puts [simp]:
  "le_val (put16 a) = a" "le_val (put32 b) = b" "le_val (put64 c) = c"
  by (simp_all add: put16_def put32_def put64_def le_val_le_bytes take_bit_word_eq_self)

lemma put_get [bytes_simps]:
  "i + 2 \<le> length bs \<Longrightarrow> put16 (get16 i bs) = bslice i (i + 2) bs"
  "i + 4 \<le> length bs \<Longrightarrow> put32 (get32 i bs) = bslice i (i + 4) bs"
  "i + 8 \<le> length bs \<Longrightarrow> put64 (get64 i bs) = bslice i (i + 8) bs"
  by (simp_all add: put16_def put32_def put64_def get16_def get32_def get64_def le_bytes_le_val)

lemma get_hit [bytes_simps]:
  "get16 0 (put16 a @ r) = a" "get32 0 (put32 b @ r) = b" "get64 0 (put64 c @ r) = c"
  by (simp_all add: get16_def get32_def get64_def slice_hit)

lemma get_hit_all [bytes_simps]:
  "get16 0 (put16 a) = a" "get32 0 (put32 b) = b" "get64 0 (put64 c) = c"
  by (simp_all add: get16_def get32_def get64_def slice_all)

lemma slice_skip_len:
  "length a \<le> i \<Longrightarrow> bslice i (i + n) (a @ b) = bslice (i - length a) (i - length a + n) b"
  by (simp add: bslice_def)

lemma get_skip [bytes_simps]:
  "length a \<le> i \<Longrightarrow> get16 i (a @ b) = get16 (i - length a) b"
  "length a \<le> i \<Longrightarrow> get32 i (a @ b) = get32 (i - length a) b"
  "length a \<le> i \<Longrightarrow> get64 i (a @ b) = get64 (i - length a) b"
  by (simp_all only: get16_def get32_def get64_def slice_skip_len)

lemma slice_Cons [bytes_simps]: "0 < i \<Longrightarrow> bslice i j (x # xs) = bslice (i - 1) (j - 1) xs"
  by (cases i) (simp_all add: bslice_def)

lemma get_Cons [bytes_simps]:
  "0 < i \<Longrightarrow> get16 i (x # xs) = get16 (i - 1) xs"
  "0 < i \<Longrightarrow> get32 i (x # xs) = get32 (i - 1) xs"
  "0 < i \<Longrightarrow> get64 i (x # xs) = get64 (i - 1) xs"
  using get_skip [of "[x]" i xs] by (simp_all add: Suc_le_eq)

lemma nth_skip [bytes_simps]: "length a \<le> i \<Longrightarrow> (a @ b) ! i = b ! (i - length a)"
  by (simp add: nth_append)

lemma nth_slice_single [bytes_simps]: "i < length xs \<Longrightarrow> [xs ! i] = bslice i (Suc i) xs"
  by (simp add: bslice_def take_Suc_conv_app_nth hd_drop_conv_nth take_Suc)

end
