(* ===== verification/Os_File.thy ===== *)
theory Os_File
  imports Go_Prelude
begin

text \<open>
  The part of Go's \<open>os.File\<close> the program uses, and the \<open>ReadWriterAt\<close> contract.

  \<^item> \<open>osfile\<close>: contents, the offset that \<open>Write\<close> advances, and the byte positions where
    the medium fails to read or to write. \<open>ReadAt\<close> returns the bytes read and an error
    when they are fewer than asked for; \<open>WriteAt\<close> past the end extends the file with
    zeros; \<open>Truncate\<close> changes the size and leaves the offset where it is.
  \<^item> locale \<open>rw_device\<close>: what the ext4 engine relies on when it calls \<open>ReadAt\<close> and
    \<open>WriteAt\<close> inside the device: exact transfer, no error, nothing else changed. A
    transfer of no bytes is outside the contract (\<open>PartitionReader\<close> refuses one at its end).
\<close>

type_synonym rres = "bytes \<times> goerr option"
type_synonym wres = "nat \<times> goerr option"

record osfile =
  f_data :: bytes
  f_pos :: nat
  f_badr :: "nat list"
  f_badw :: "nat list"

definition good_len :: "nat list \<Rightarrow> nat \<Rightarrow> nat \<Rightarrow> nat" where
  "good_len bad off n = length (takeWhile (\<lambda>i. i \<notin> set bad) [off..<off + n])"

definition fwrite_at :: "bytes \<Rightarrow> bytes \<Rightarrow> nat \<Rightarrow> bytes" where
  "fwrite_at data p off =
     (if p = [] then data
      else take off (data @ zeros (off - length data)) @ p @ drop (off + length p) data)"

definition file_ReadAt :: "osfile \<Rightarrow> nat \<Rightarrow> int \<Rightarrow> rres" where
  "file_ReadAt f n off =
     (if off < 0 then ([], Some (Errorf ''readat: negative offset''))
      else let o1 = nat off;
               avail = min n (length (f_data f) - o1);
               g = good_len (f_badr f) o1 avail
           in (bslice o1 (o1 + g) (f_data f),
               if g < avail then Some (Errorf ''input/output error'')
               else if avail < n then Some EOF else None))"

definition file_WriteAt :: "osfile \<Rightarrow> bytes \<Rightarrow> int \<Rightarrow> wres \<times> osfile" where
  "file_WriteAt f p off =
     (if off < 0 then ((0, Some (Errorf ''writeat: negative offset'')), f)
      else let o1 = nat off; g = good_len (f_badw f) o1 (length p)
           in ((g, if g < length p then Some (Errorf ''input/output error'') else None),
               f\<lparr>f_data := fwrite_at (f_data f) (take g p) o1\<rparr>))"

definition file_Write :: "osfile \<Rightarrow> bytes \<Rightarrow> wres \<times> osfile" where
  "file_Write f p =
     (case file_WriteAt f p (int (f_pos f)) of ((n, err), f') \<Rightarrow>
        ((n, err), f'\<lparr>f_pos := f_pos f + n\<rparr>))"

definition file_Truncate :: "osfile \<Rightarrow> nat \<Rightarrow> osfile" where
  "file_Truncate f n = f\<lparr>f_data := take n (f_data f @ zeros (n - length (f_data f)))\<rparr>"

lemma good_len_all: "(\<And>i. off \<le> i \<Longrightarrow> i < off + n \<Longrightarrow> i \<notin> set bad) \<Longrightarrow> good_len bad off n = n"
proof -
  assume "\<And>i. off \<le> i \<Longrightarrow> i < off + n \<Longrightarrow> i \<notin> set bad"
  then have "takeWhile (\<lambda>i. i \<notin> set bad) [off..<off + n] = [off..<off + n]"
    by (intro takeWhile_eq_all_conv [THEN iffD2]) auto
  then show ?thesis unfolding good_len_def by (simp only: length_upt)
qed

lemma good_len_Nil [simp]: "good_len [] off n = n"
  by (simp add: good_len_all)

lemma good_len_0 [simp]: "good_len bad off 0 = 0"
  by (simp add: good_len_def)

lemma good_len_le: "good_len bad off n \<le> n"
  using length_takeWhile_le [of "\<lambda>i. i \<notin> set bad" "[off..<off + n]"]
  by (simp add: good_len_def)

lemma fwrite_at_inside:
  "off + length p \<le> length data \<Longrightarrow> fwrite_at data p off = copy_at off p data"
  by (auto simp: fwrite_at_def copy_at_def)

lemma fwrite_at_end: "fwrite_at data p (length data) = data @ p"
  by (simp add: fwrite_at_def)

lemma file_Write_end:
  assumes "f_badw f = []" and "f_pos f = length (f_data f)"
  shows "file_Write f p =
    ((length p, None), f\<lparr>f_data := f_data f @ p, f_pos := f_pos f + length p\<rparr>)"
  using assms fwrite_at_end [of "f_data f" p]
  by (simp add: file_Write_def file_WriteAt_def Let_def)

section \<open>The contract of a block device\<close>

locale rw_device =
  fixes rd :: "'d \<Rightarrow> nat \<Rightarrow> int \<Rightarrow> rres \<times> 'd"
    and wr :: "'d \<Rightarrow> bytes \<Rightarrow> int \<Rightarrow> wres \<times> 'd"
    and content :: "'d \<Rightarrow> bytes"
    and ok :: "'d \<Rightarrow> bool"
  assumes size_bound: "ok d \<Longrightarrow> length (content d) < 2 ^ 62"
    and rd_law: "ok d \<Longrightarrow> 0 < n \<Longrightarrow> off + n \<le> length (content d) \<Longrightarrow>
      \<exists>d'. rd d n (int off) = ((bslice off (off + n) (content d), None), d') \<and>
           ok d' \<and> content d' = content d"
    and wr_law: "ok d \<Longrightarrow> p \<noteq> [] \<Longrightarrow> off + length p \<le> length (content d) \<Longrightarrow>
      \<exists>d'. wr d p (int off) = ((length p, None), d') \<and>
           ok d' \<and> content d' = copy_at off p (content d)"
begin

lemma rd_obtain:
  assumes "ok d" and "0 < n" and "off + n \<le> length (content d)"
  obtains d' where "rd d n (int off) = ((bslice off (off + n) (content d), None), d')"
    and "ok d'" and "content d' = content d"
  using rd_law [OF assms] by blast

lemma wr_obtain:
  assumes "ok d" and "p \<noteq> []" and "off + length p \<le> length (content d)"
  obtains d' where "wr d p (int off) = ((length p, None), d')"
    and "ok d'" and "content d' = copy_at off p (content d)"
    and "length (content d') = length (content d)"
  using wr_law [OF assms] assms(3) by fastforce

text \<open>What was written is read back, and a read elsewhere is unaffected.\<close>

lemma read_after_write:
  assumes "ok d" and "p \<noteq> []" and "off + length p \<le> length (content d)"
  shows "\<exists>d1 d2. wr d p (int off) = ((length p, None), d1) \<and>
                 rd d1 (length p) (int off) = ((p, None), d2) \<and> ok d2"
proof -
  obtain d1 where w: "wr d p (int off) = ((length p, None), d1)" "ok d1"
      "content d1 = copy_at off p (content d)" "length (content d1) = length (content d)"
    using assms by (rule wr_obtain)
  obtain d2 where "rd d1 (length p) (int off) =
      ((bslice off (off + length p) (content d1), None), d2)" "ok d2"
    using rd_obtain [of d1 "length p" off] assms w by (metis length_greater_0_conv)
  with w assms show ?thesis by (auto simp: slice_copy_at_same)
qed

lemma read_disjoint_write:
  assumes "ok d" and "p \<noteq> []" and "off + length p \<le> length (content d)"
    and "0 < n" and "i + n \<le> length (content d)" and "i + n \<le> off \<or> off + length p \<le> i"
  shows "\<exists>d1 d2. wr d p (int off) = ((length p, None), d1) \<and>
                 rd d1 n (int i) = ((bslice i (i + n) (content d), None), d2) \<and> ok d2"
proof -
  obtain d1 where w: "wr d p (int off) = ((length p, None), d1)" "ok d1"
      "content d1 = copy_at off p (content d)" "length (content d1) = length (content d)"
    using assms(1-3) by (rule wr_obtain)
  obtain d2 where "rd d1 n (int i) = ((bslice i (i + n) (content d1), None), d2)" "ok d2"
    using rd_obtain [of d1 n i] assms w by metis
  with w assms show ?thesis by (auto simp: slice_copy_at_other)
qed

end

text \<open>A file without bad positions satisfies the contract.\<close>

definition file_ok :: "osfile \<Rightarrow> bool" where
  "file_ok f \<longleftrightarrow> f_badr f = [] \<and> f_badw f = [] \<and> length (f_data f) < 2 ^ 62"

interpretation os_file: rw_device
  "\<lambda>f n off. (file_ReadAt f n off, f)" file_WriteAt f_data file_ok
proof unfold_locales
  fix d :: osfile and p :: bytes and off :: nat
  assume "file_ok d" "p \<noteq> []" "off + length p \<le> length (f_data d)"
  then show "\<exists>d'. file_WriteAt d p (int off) = ((length p, None), d') \<and>
           file_ok d' \<and> f_data d' = copy_at off p (f_data d)"
    by (auto simp: file_WriteAt_def file_ok_def fwrite_at_inside)
qed (auto simp: file_ReadAt_def file_ok_def)

end
