(* ===== verification/Block_Layer.thy ===== *)
theory Block_Layer
  imports Os_File
begin

text \<open>
  \<open>block/aligned.go\<close> and the reader of \<open>block/device.go\<close>: the wrappers that round every
  request outward to sectors and that translate and clamp it to one partition. They are
  written over the \<open>ReadAt\<close> and \<open>WriteAt\<close> of the device they wrap (the Go interface
  \<open>ReadWriterAt\<close>); inside \<open>rw_device\<close> both are shown to satisfy the contract again.

  Offsets are \<open>int64\<close>. A slice expression with a negative bound panics in Go; at this
  level the panic is the error \<open>slice_panic\<close>.
\<close>

definition godiv :: "int \<Rightarrow> int \<Rightarrow> int" where
  "godiv a b = sgn a * sgn b * (\<bar>a\<bar> div \<bar>b\<bar>)"

lemma godiv_nat [simp]: "godiv (int a) (int b) = int (a div b)"
  by (auto simp: godiv_def zdiv_int sgn_if)

definition slice_panic :: goerr where
  "slice_panic = Errorf ''runtime error: slice bounds out of range''"

definition NewAlignedReaderAt_ok :: "int \<Rightarrow> bool" where
  "NewAlignedReaderAt_ok sectorSize \<longleftrightarrow>
     \<not> (sectorSize \<le> 0 \<or> and sectorSize (sectorSize - 1) \<noteq> 0)"

definition align_down :: "int \<Rightarrow> int \<Rightarrow> int" where
  "align_down ss off = godiv off ss * ss"

definition align_up :: "int \<Rightarrow> int \<Rightarrow> int" where
  "align_up ss endo = godiv (endo + ss - 1) ss * ss"

definition AlignedReaderAt_ReadAt ::
  "(nat \<Rightarrow> int \<Rightarrow> rres \<times> 'd) \<Rightarrow> int \<Rightarrow> 'd \<Rightarrow> nat \<Rightarrow> int \<Rightarrow> rres \<times> 'd" where
  "AlignedReaderAt_ReadAt rd ss d n off =
     (if n = 0 then (([], None), d)
      else
        let alignedStart = align_down ss off;
            endo = off + int n;
            alignedEnd = align_up ss endo;
            alignedLen = alignedEnd - alignedStart
        in if alignedStart = off \<and> alignedLen = int n then rd n off
           else
             (case rd (nat alignedLen) alignedStart of ((tmp, err), d') \<Rightarrow>
                let skip = off - alignedStart;
                    usable = min (max (int (length tmp) - skip) 0) (int n)
                in if skip < 0 then (([], Some slice_panic), d')
                   else ((bslice (nat skip) (nat (skip + usable)) tmp,
                          if usable = int n then None
                          else if err \<noteq> None then err else Some EOF), d')))"

definition AlignedReaderAt_WriteAt ::
  "(nat \<Rightarrow> int \<Rightarrow> rres \<times> 'd) \<Rightarrow> ('d \<Rightarrow> bytes \<Rightarrow> int \<Rightarrow> wres \<times> 'd) \<Rightarrow> int \<Rightarrow> 'd \<Rightarrow> bytes \<Rightarrow> int \<Rightarrow>
   wres \<times> 'd" where
  "AlignedReaderAt_WriteAt rd wr ss d p off =
     (if p = [] then ((0, None), d)
      else
        let alignedStart = align_down ss off;
            endo = off + int (length p);
            alignedEnd = align_up ss endo;
            alignedLen = alignedEnd - alignedStart
        in if alignedStart = off \<and> alignedLen = int (length p) then wr d p off
           else
             (case rd (nat alignedLen) alignedStart of ((buf, err), d') \<Rightarrow>
                if err \<noteq> None \<and> err \<noteq> Some EOF
                then ((0, Some (Wrapf ''disk: aligned WriteAt read-modify failed'' (the err))), d')
                else
                  let tmp = buf @ zeros (nat alignedLen - length buf);
                      skip = off - alignedStart
                  in if skip < 0 then ((0, Some slice_panic), d')
                     else
                       (case wr d' (copy_at (nat skip) p tmp) alignedStart of ((_, err2), d'') \<Rightarrow>
                          if err2 \<noteq> None then ((0, err2), d'') else ((length p, None), d''))))"

definition PartitionReader_ReadAt ::
  "(nat \<Rightarrow> int \<Rightarrow> rres \<times> 'd) \<Rightarrow> int \<Rightarrow> int \<Rightarrow> 'd \<Rightarrow> nat \<Rightarrow> int \<Rightarrow> rres \<times> 'd" where
  "PartitionReader_ReadAt rd startOffset psize d n off =
     (if off < 0 then (([], Some (Errorf ''disk: negative read offset'')), d)
      else if off \<ge> psize
      then (([], Some (Errorf ''disk: read offset is beyond partition end'')), d)
      else let maxRead = psize - off;
               n' = (if int n > maxRead then nat maxRead else n)
           in rd n' (i64 (startOffset + off)))"

definition PartitionReader_WriteAt ::
  "('d \<Rightarrow> bytes \<Rightarrow> int \<Rightarrow> wres \<times> 'd) \<Rightarrow> int \<Rightarrow> int \<Rightarrow> 'd \<Rightarrow> bytes \<Rightarrow> int \<Rightarrow> wres \<times> 'd" where
  "PartitionReader_WriteAt wr startOffset psize d p off =
     (if off < 0 then ((0, Some (Errorf ''disk: negative write offset'')), d)
      else if off \<ge> psize
      then ((0, Some (Errorf ''disk: write offset is beyond partition end'')), d)
      else let maxWrite = psize - off;
               p' = (if int (length p) > maxWrite then take (nat maxWrite) p else p)
           in wr d p' (i64 (startOffset + off)))"

section \<open>Sector rounding\<close>

lemma round_down_le: "off div ss * ss \<le> (off::nat)"
  by simp

lemma round_up_ge: "0 < ss \<Longrightarrow> (e::nat) \<le> (e + ss - 1) div ss * ss"
proof -
  assume "0 < ss"
  have "(e + ss - 1) mod ss < ss"
    using \<open>0 < ss\<close> by simp
  moreover have "(e + ss - 1) div ss * ss + (e + ss - 1) mod ss = e + ss - 1"
    by (rule div_mult_mod_eq)
  ultimately show ?thesis using \<open>0 < ss\<close> by linarith
qed

lemma round_up_le: "0 < ss \<Longrightarrow> ss dvd L \<Longrightarrow> e \<le> (L::nat) \<Longrightarrow> (e + ss - 1) div ss * ss \<le> L"
proof -
  assume ss: "0 < ss" "ss dvd L" "e \<le> L"
  then obtain k where k: "L = ss * k" by blast
  have "(e + ss - 1) div ss \<le> (ss * k + (ss - 1)) div ss"
    using ss k by (intro div_le_mono) simp
  also have "\<dots> = k" using ss(1) by (subst div_mult_self4) auto
  finally show ?thesis using k by (simp add: mult.commute)
qed

lemma align_down_nat [simp]: "align_down (int ss) (int off) = int (off div ss * ss)"
  by (simp add: align_down_def)

lemma align_up_nat [simp]:
  "0 < ss \<Longrightarrow> align_up (int ss) (int off + int n) = int ((off + n + ss - 1) div ss * ss)"
proof -
  assume "0 < ss"
  then have "int off + int n + int ss - 1 = int (off + n + ss - 1)" by simp
  then show ?thesis unfolding align_up_def by (simp only: godiv_nat of_nat_mult)
qed

lemma bslice_bslice:
  "j \<le> l - k \<Longrightarrow> l \<le> length xs \<Longrightarrow> k \<le> l \<Longrightarrow> bslice i j (bslice k l xs) = bslice (k + i) (k + j) xs"
  by (rule nth_equalityI) (simp_all add: add.assoc)

lemma copy_at_aligned:
  fixes xs :: "'a list"
  assumes "a \<le> off" and "off + length p \<le> e" and "e \<le> length xs"
  shows "copy_at a (copy_at (off - a) p (bslice a e xs)) xs = copy_at off p xs"
  using assms by (intro nth_equalityI) (auto simp: nth_copy_at)

context rw_device
begin

lemma aligned_rd_law:
  assumes ok: "ok d" and ss: "0 < ss" "ss dvd length (content d)"
    and n: "0 < n" "off + n \<le> length (content d)"
  shows "\<exists>d'. AlignedReaderAt_ReadAt (rd d) (int ss) d n (int off) =
           ((bslice off (off + n) (content d), None), d') \<and> ok d' \<and> content d' = content d"
proof -
  define a where "a = off div ss * ss"
  define e where "e = (off + n + ss - 1) div ss * ss"
  have ae: "a \<le> off" "off + n \<le> e" "e \<le> length (content d)"
    using round_down_le round_up_ge [OF ss(1)] round_up_le [OF ss n(2)] by (auto simp: a_def e_def)
  have al: "align_down (int ss) (int off) = int a" "align_up (int ss) (int off + int n) = int e"
    using ss(1) by (simp_all add: a_def e_def)
  show ?thesis
  proof (cases "a = off \<and> e - a = n")
    case True
    then have "a = off" "e = off + n" using n by linarith+
    then show ?thesis
      using rd_law [OF ok n] n(1) unfolding AlignedReaderAt_ReadAt_def al Let_def
      by (simp only:) simp
  next
    case False
    obtain d' where d': "rd d (e - a) (int a) = ((bslice a e (content d), None), d')"
      "ok d'" "content d' = content d"
      using rd_obtain [OF ok, of "e - a" a] ae n by auto
    have neq: "\<not> (int a = int off \<and> int e - int a = int n)"
      using False ae by linarith
    have sk: "int off - int a = int (off - a)" "int e - int a = int (e - a)"
      using ae by linarith+
    have us: "min (max (int (e - a) - int (off - a)) 0) (int n) = int n"
      using ae by linarith
    have "bslice (off - a) (off - a + n) (bslice a e (content d)) = bslice off (off + n) (content d)"
      using ae by (subst bslice_bslice) auto
    moreover have "length (bslice a e (content d)) = e - a"
      using ae by simp
    ultimately show ?thesis
      using d' n(1) neq unfolding AlignedReaderAt_ReadAt_def al Let_def
      by (simp only: sk nat_int if_False) (simp add: us flip: of_nat_add)
  qed
qed

lemma aligned_wr_law:
  assumes ok: "ok d" and ss: "0 < ss" "ss dvd length (content d)"
    and p: "p \<noteq> []" "off + length p \<le> length (content d)"
  shows "\<exists>d'. AlignedReaderAt_WriteAt (rd d) wr (int ss) d p (int off) =
           ((length p, None), d') \<and> ok d' \<and> content d' = copy_at off p (content d)"
proof -
  define a where "a = off div ss * ss"
  define e where "e = (off + length p + ss - 1) div ss * ss"
  have ae: "a \<le> off" "off + length p \<le> e" "e \<le> length (content d)"
    using round_down_le round_up_ge [OF ss(1)] round_up_le [OF ss p(2)] by (auto simp: a_def e_def)
  have al: "align_down (int ss) (int off) = int a"
    "align_up (int ss) (int off + int (length p)) = int e"
    using ss(1) by (simp_all add: a_def e_def)
  have pos: "0 < length p" using p by simp
  show ?thesis
  proof (cases "a = off \<and> e - a = length p")
    case True
    then have "a = off" "e = off + length p" using pos by linarith+
    then show ?thesis
      using wr_law [OF ok p] p(1) unfolding AlignedReaderAt_WriteAt_def al Let_def
      by (simp only:) simp
  next
    case False
    obtain d' where d': "rd d (e - a) (int a) = ((bslice a e (content d), None), d')"
      "ok d'" "content d' = content d"
      using rd_obtain [OF ok, of "e - a" a] ae pos by auto
    let ?q = "copy_at (off - a) p (bslice a e (content d))"
    have lq: "length ?q = e - a" using ae by simp
    then have "0 < length ?q" using ae pos by linarith
    then have nq: "?q \<noteq> []" by (rule length_greater_0_conv [THEN iffD1])
    obtain d'' where d'': "wr d' ?q (int a) = ((length ?q, None), d'')" "ok d''"
      "content d'' = copy_at a ?q (content d')"
      using wr_obtain [OF d'(2) nq, of a] ae lq d'(3) by auto
    have neq: "\<not> (int a = int off \<and> int e - int a = int (length p))"
      using False ae by linarith
    have sk: "int off - int a = int (off - a)" "int e - int a = int (e - a)"
      using ae by linarith+
    have lb: "length (bslice a e (content d)) = e - a" using ae by simp
    show ?thesis
      using d' d'' p(1) neq copy_at_aligned [OF ae]
      unfolding AlignedReaderAt_WriteAt_def al Let_def
      by (simp only: sk nat_int if_False) (simp add: lb zeros_def)
  qed
qed

lemma partition_rd_law:
  assumes "ok d" and "st + sz \<le> length (content d)"
    and "0 < n" and "off + n \<le> length (bslice st (st + sz) (content d))"
  shows "\<exists>d'. PartitionReader_ReadAt (rd d) (int st) (int sz) d n (int off) =
           ((bslice off (off + n) (bslice st (st + sz) (content d)), None), d') \<and>
           ok d' \<and> content d' = content d"
proof -
  have le: "off + n \<le> sz" using assms by simp
  have i64: "i64 (int st + int off) = int (st + off)"
    using assms(2) le size_bound [OF assms(1)] by simp
  show ?thesis
    using rd_law [OF assms(1,3), of "st + off"] assms(2,3) le
    by (auto simp: PartitionReader_ReadAt_def i64 bslice_bslice add.assoc)
qed

lemma partition_wr_law:
  assumes "ok d" and "st + sz \<le> length (content d)"
    and "p \<noteq> []" and "off + length p \<le> length (bslice st (st + sz) (content d))"
  shows "\<exists>d'. PartitionReader_WriteAt wr (int st) (int sz) d p (int off) = ((length p, None), d') \<and>
           ok d' \<and> content d' = copy_at (st + off) p (content d)"
proof -
  have le: "off + length p \<le> sz" "0 < length p" using assms by simp_all
  then have lt: "off < sz" by linarith
  have i64: "i64 (int st + int off) = int (st + off)"
    using assms(2) le size_bound [OF assms(1)] by simp
  show ?thesis
    using wr_law [OF assms(1,3), of "st + off"] assms(2) le lt
    by (simp add: PartitionReader_WriteAt_def i64)
qed

end

lemma bslice_copy_at_inner:
  "st + sz \<le> length xs \<Longrightarrow> off + length p \<le> sz \<Longrightarrow>
   bslice st (st + sz) (copy_at (st + off) p xs) = copy_at off p (bslice st (st + sz) xs)"
  by (rule nth_equalityI) (auto simp: nth_copy_at)

end
