(* ===== verification/Tx_Device.thy ===== *)
theory Tx_Device
  imports Block_Layer "HOL-Library.AList" "HOL-Library.Multiset"
begin

text \<open>
  The write buffer of \<open>vfs/journal_writer.go\<close>: \<open>TxDevice\<close> keeps the blocks a transaction
  has written in the map \<open>dirty\<close> and lays them over what it reads from the device below.
  The map is an association list, so that the order in which Go ranges over it is part
  of the state and every statement holds for every order.

  \<open>tx_content\<close> is the content a transaction sees. Inside \<open>rw_device\<close> the two operations
  are shown to read from and write to exactly that content while the device below keeps
  its own: this is what makes a rollback (dropping the buffer) free.
\<close>

type_synonym dirty_map = "(u64 \<times> bytes) list"

definition maxVal :: "int \<Rightarrow> int \<Rightarrow> int" where
  "maxVal a b = (if a > b then a else b)"

definition minVal :: "int \<Rightarrow> int \<Rightarrow> int" where
  "minVal a b = (if a < b then a else b)"

definition div_panic :: goerr where
  "div_panic = Errorf ''runtime error: integer divide by zero''"

definition tx_overlay_block :: "int \<Rightarrow> int \<Rightarrow> u64 \<times> bytes \<Rightarrow> bytes \<Rightarrow> bytes" where
  "tx_overlay_block blockSize off blk p =
     (case blk of (blockNum, blockData) \<Rightarrow>
        let readEnd = off + int (length p);
            blockStart = i64 (sint blockNum * blockSize);
            blockEnd = i64 (blockStart + blockSize);
            overlapStart = maxVal off blockStart;
            overlapEnd = minVal readEnd blockEnd
        in if overlapStart < overlapEnd
           then let pStart = overlapStart - off;
                    bStart = overlapStart - blockStart
                in copy_at (nat pStart)
                     (bslice (nat bStart) (nat (bStart + (overlapEnd - overlapStart))) blockData) p
           else p)"

definition TxDevice_ReadAt ::
  "(nat \<Rightarrow> int \<Rightarrow> rres \<times> 'd) \<Rightarrow> int \<Rightarrow> dirty_map \<Rightarrow> nat \<Rightarrow> int \<Rightarrow> rres \<times> 'd" where
  "TxDevice_ReadAt rd blockSize dirty n off =
     (case rd n off of ((p, err), d') \<Rightarrow>
        if err \<noteq> None \<and> err \<noteq> Some EOF then ((p, err), d')
        else ((fold (tx_overlay_block blockSize off) dirty p, err), d'))"

definition tx_write_block ::
  "('d \<Rightarrow> nat \<Rightarrow> int \<Rightarrow> rres \<times> 'd) \<Rightarrow> int \<Rightarrow> bytes \<Rightarrow> int \<Rightarrow> u64 \<Rightarrow> 'd \<times> dirty_map \<Rightarrow>
   goerr option \<times> ('d \<times> dirty_map)" where
  "tx_write_block rd blockSize p off blockNum st =
     (case st of (d, dirty) \<Rightarrow>
        let writeEnd = off + int (length p);
            blockStart = i64 (sint blockNum * blockSize);
            blockEnd = i64 (blockStart + blockSize);
            overlapStart = maxVal off blockStart;
            overlapEnd = minVal writeEnd blockEnd;
            pStart = overlapStart - off;
            bStart = overlapStart - blockStart;
            patch = copy_at (nat bStart)
                      (bslice (nat pStart) (nat (pStart + (overlapEnd - overlapStart))) p)
        in case map_of dirty blockNum of
             Some blockData \<Rightarrow> (None, (d, AList.update blockNum (patch blockData) dirty))
           | None \<Rightarrow>
               (case rd d (nat blockSize) blockStart of ((buf, err), d') \<Rightarrow>
                  if err \<noteq> None \<and> err \<noteq> Some EOF then (err, (d', dirty))
                  else (None, (d', AList.update blockNum
                                 (patch (buf @ zeros (nat blockSize - length buf))) dirty))))"

fun tx_write_loop ::
  "('d \<Rightarrow> nat \<Rightarrow> int \<Rightarrow> rres \<times> 'd) \<Rightarrow> int \<Rightarrow> bytes \<Rightarrow> int \<Rightarrow> u64 list \<Rightarrow> 'd \<times> dirty_map \<Rightarrow>
   goerr option \<times> ('d \<times> dirty_map)" where
  "tx_write_loop rd blockSize p off [] st = (None, st)"
| "tx_write_loop rd blockSize p off (b # bl) st =
     (case tx_write_block rd blockSize p off b st of
        (None, st') \<Rightarrow> tx_write_loop rd blockSize p off bl st'
      | (Some e, st') \<Rightarrow> (Some e, st'))"

definition TxDevice_WriteAt ::
  "('d \<Rightarrow> nat \<Rightarrow> int \<Rightarrow> rres \<times> 'd) \<Rightarrow> int \<Rightarrow> bytes \<Rightarrow> int \<Rightarrow> 'd \<times> dirty_map \<Rightarrow>
   wres \<times> ('d \<times> dirty_map)" where
  "TxDevice_WriteAt rd blockSize p off st =
     (if p = [] then ((0, None), st)
      else if blockSize = 0 then ((0, Some div_panic), st)
      else
        let writeEnd = off + int (length p);
            startBlock = u64i (godiv off blockSize);
            endBlock = u64i (godiv (writeEnd - 1) blockSize)
        in case tx_write_loop rd blockSize p off
                  (map word_of_nat [unat startBlock..<Suc (unat endBlock)]) st of
             (None, st') \<Rightarrow> ((length p, None), st')
           | (Some e, st') \<Rightarrow> ((0, Some e), st'))"

text \<open>The order of an association list with distinct keys does not matter.\<close>

lemma map_of_order:
  assumes "distinct (map fst xs)" and "mset ys = mset xs"
  shows "map_of (rev ys) = map_of xs"
proof -
  have "mset (rev ys) = mset xs" using assms(2) by simp
  then have "distinct (map fst (rev ys))" "set (rev ys) = set xs"
    using assms by (metis mset_map mset_eq_imp_distinct_iff, metis mset_eq_setD)
  with assms(1) show ?thesis by (metis map_of_inject_set)
qed

section \<open>What a transaction sees\<close>

definition tx_content :: "nat \<Rightarrow> dirty_map \<Rightarrow> bytes \<Rightarrow> bytes" where
  "tx_content bs dirty base =
     map (\<lambda>i. case map_of dirty (word_of_nat (i div bs)) of
                Some blk \<Rightarrow> blk ! (i mod bs) | None \<Rightarrow> base ! i) [0..<length base]"

definition tx_ok :: "nat \<Rightarrow> dirty_map \<Rightarrow> nat \<Rightarrow> bool" where
  "tx_ok bs dirty L \<longleftrightarrow>
     0 < bs \<and> bs dvd L \<and> L < 2 ^ 62 \<and> distinct (map fst dirty) \<and>
     (\<forall>(b, blk) \<in> set dirty. length blk = bs \<and> (unat b + 1) * bs \<le> L)"

lemma length_tx_content [simp]: "length (tx_content bs dirty base) = length base"
  by (simp add: tx_content_def)

lemma nth_tx_content:
  "i < length base \<Longrightarrow> tx_content bs dirty base ! i =
     (case map_of dirty (word_of_nat (i div bs)) of Some blk \<Rightarrow> blk ! (i mod bs) | None \<Rightarrow> base ! i)"
  by (auto simp: tx_content_def split: option.split)

lemma tx_content_Nil [simp]: "tx_content bs [] base = base"
  by (simp add: tx_content_def map_nth)

lemma word_of_nat_eq_u64: "n < 2 ^ 64 \<Longrightarrow> word_of_nat n = (b :: u64) \<longleftrightarrow> n = unat b"
proof
  assume "n < 2 ^ 64" and "word_of_nat n = b"
  then show "n = unat b" by (auto simp: unat_of_nat take_bit_nat_eq_self)
qed simp

lemma div_eq_iff_range:
  "0 < bs \<Longrightarrow> (i::nat) div bs = b \<longleftrightarrow> b * bs \<le> i \<and> i < b * bs + bs"
proof
  assume "0 < bs" "i div bs = b"
  then show "b * bs \<le> i \<and> i < b * bs + bs"
    using dividend_less_times_div [of bs i] by (auto simp: mult.commute)
next
  assume "0 < bs" "b * bs \<le> i \<and> i < b * bs + bs"
  then show "i div bs = b" by (intro div_nat_eqI) (auto simp: mult.commute)
qed

lemma mod_eq_range: "(b::nat) * bs \<le> i \<Longrightarrow> i < b * bs + bs \<Longrightarrow> i mod bs = i - b * bs"
  by (metis add_diff_cancel_left' div_eq_iff_range div_mult_mod_eq less_add_same_cancel1 le_less_trans)

lemma block_fits: "bs dvd L \<Longrightarrow> m * bs < L \<Longrightarrow> (m + 1) * bs \<le> (L::nat)"
proof -
  assume "bs dvd L" "m * bs < L"
  then obtain k where "L = k * bs" by (auto simp: dvd_def mult.commute)
  with \<open>m * bs < L\<close> have "m < k" by (metis mult_less_cancel2)
  then show ?thesis unfolding \<open>L = k * bs\<close> by (intro mult_le_mono1) simp
qed

lemma MaxMin_nat [simp]:
  "maxVal (int a) (int b) = int (max a b)" "minVal (int a) (int b) = int (min a b)"
  by (auto simp: maxVal_def minVal_def)

lemma block_range_i64:
  fixes b :: u64
  assumes "0 < bs" and "(unat b + 1) * bs \<le> L" and "L < 2 ^ 62"
  shows "i64 (sint b * int bs) = int (unat b * bs)"
    and "i64 (int (unat b * bs) + int bs) = int (unat b * bs + bs)"
proof -
  have le: "unat b \<le> unat b * bs" using assms(1) by simp
  have bd: "unat b * bs + bs < 2 ^ 62" using assms by (simp add: algebra_simps)
  moreover have "(2::nat) ^ 62 < 2 ^ 63" by simp
  ultimately have "unat b < 2 ^ 63" using le by linarith
  then have "sint b = int (unat b)" by (rule sint_u64_small)
  then have "sint b * int bs = int (unat b * bs)" by simp
  moreover have "i64 (int k) = int k" if "k < 2 ^ 62" for k
    by (rule i64_id) (use that in simp_all)
  ultimately show "i64 (sint b * int bs) = int (unat b * bs)"
    and "i64 (int (unat b * bs) + int bs) = int (unat b * bs + bs)"
    using bd by (simp_all only: flip: of_nat_add)
qed

lemma tx_overlay_block_nat:
  fixes b :: u64
  assumes "0 < bs" and "(unat b + 1) * bs \<le> L" and "L < 2 ^ 62"
  shows "tx_overlay_block (int bs) (int off) (b, blk) p =
    (let os = max off (unat b * bs); oe = min (off + length p) (unat b * bs + bs)
     in if os < oe then copy_at (os - off) (bslice (os - unat b * bs) (oe - unat b * bs) blk) p else p)"
proof -
  have "nat (int (max off (unat b * bs)) - int off) = max off (unat b * bs) - off"
    and "nat (int (max off (unat b * bs)) - int (unat b * bs)) = max off (unat b * bs) - unat b * bs"
    by linarith+
  moreover have "nat (int x - int y + (int z - int x)) = z - y" for x y z by linarith
  ultimately show ?thesis
    unfolding tx_overlay_block_def Let_def prod.case block_range_i64 [OF assms]
    by (simp only: MaxMin_nat of_nat_less_iff flip: of_nat_add)
qed

lemma length_tx_overlay_block:
  assumes "0 < bs" and "(unat b + 1) * bs \<le> L" and "L < 2 ^ 62"
  shows "length (tx_overlay_block (int bs) (int off) (b, blk) p) = length p"
proof -
  have "max off (unat b * bs) < min (off + length p) (unat b * bs + bs) \<Longrightarrow>
        max off (unat b * bs) - off \<le> length p" by linarith
  then show ?thesis unfolding tx_overlay_block_nat [OF assms] Let_def by simp
qed

lemma nth_tx_overlay_block:
  assumes bs: "0 < bs" "length blk = bs" and b: "(unat b + 1) * bs \<le> L" "L < 2 ^ 62" and k: "k < length p"
  shows "tx_overlay_block (int bs) (int off) (b, blk) p ! k =
    (if (off + k) div bs = unat b then blk ! ((off + k) mod bs) else p ! k)"
proof -
  define S where "S = unat b * bs"
  define os where "os = max off S"
  define oe where "oe = min (off + length p) (S + bs)"
  have eq: "tx_overlay_block (int bs) (int off) (b, blk) p =
      (if os < oe then copy_at (os - off) (bslice (os - S) (oe - S) blk) p else p)"
    unfolding tx_overlay_block_nat [OF bs(1) b] Let_def os_def oe_def S_def ..
  have dv: "(off + k) div bs = unat b \<longleftrightarrow> S \<le> off + k \<and> off + k < S + bs"
    unfolding S_def by (rule div_eq_iff_range [OF bs(1)])
  show ?thesis
  proof (cases "os < oe")
    case True
    have le: "oe - S \<le> length blk" "os - off \<le> length p" "S \<le> os"
      using bs True unfolding os_def oe_def by linarith+
    have len: "length (bslice (os - S) (oe - S) blk) = oe - os"
      using le True by (subst length_slice) linarith+
    have rng: "os - off \<le> k \<and> k < os - off + (oe - os) \<longleftrightarrow> S \<le> off + k \<and> off + k < S + bs"
      using k True unfolding os_def oe_def by linarith
    have hit: "bslice (os - S) (oe - S) blk ! (k - (os - off)) = blk ! ((off + k) mod bs)"
      if "S \<le> off + k" "off + k < S + bs"
    proof -
      have o: "S \<le> os" "off \<le> os" "os \<le> off + k" "off + k < oe"
        using that k by (auto simp: os_def oe_def)
      have c1: "os - S + (k - (os - off)) = off + k - S" using o by linarith
      have c2: "k - (os - off) < (oe - S) - (os - S)" using o by linarith
      have "(off + k) mod bs = off + k - S"
        using that unfolding S_def by (rule mod_eq_range)
      then show ?thesis by (simp only: nth_slice [OF c2 le(1)] c1)
    qed
    have "tx_overlay_block (int bs) (int off) (b, blk) p ! k =
       (if os - off \<le> k \<and> k < os - off + (oe - os)
        then bslice (os - S) (oe - S) blk ! (k - (os - off)) else p ! k)"
      using True k le(2) by (simp add: eq nth_copy_at len)
    then show ?thesis using hit by (simp only: rng dv) simp
  next
    case False
    then have "\<not> (S \<le> off + k \<and> off + k < S + bs)"
      using k unfolding os_def oe_def by linarith
    with False show ?thesis by (auto simp: eq dv)
  qed
qed

lemma length_tx_overlay:
  "0 < bs \<Longrightarrow> L < 2 ^ 62 \<Longrightarrow> \<forall>(b, blk) \<in> set dirty. length blk = bs \<and> (unat b + 1) * bs \<le> L \<Longrightarrow>
   length (fold (tx_overlay_block (int bs) (int off)) dirty p) = length p"
  by (induction dirty arbitrary: p) (auto simp: length_tx_overlay_block)

lemma nth_tx_overlay:
  assumes "tx_ok bs dirty L" and "k < length p" and "off + length p \<le> L"
  shows "fold (tx_overlay_block (int bs) (int off)) dirty p ! k =
    (case map_of dirty (word_of_nat ((off + k) div bs)) of
       Some blk \<Rightarrow> blk ! ((off + k) mod bs) | None \<Rightarrow> p ! k)"
  using assms
proof (induction dirty arbitrary: p)
  case (Cons x dirty)
  obtain b blk where x: "x = (b, blk)" by fastforce
  have bs: "0 < bs" "L < 2 ^ 62" "length blk = bs" "(unat b + 1) * bs \<le> L" "tx_ok bs dirty L"
    "b \<notin> fst ` set dirty"
    using Cons.prems(1) unfolding x tx_ok_def by auto
  let ?p = "tx_overlay_block (int bs) (int off) (b, blk) p"
  have len: "length ?p = length p"
    by (rule length_tx_overlay_block [OF bs(1,4,2)])
  have "(off + k) div bs \<le> off + k" by simp
  also have "off + k < 2 ^ 64" using Cons.prems(2,3) bs(2) by simp
  finally have "(off + k) div bs < 2 ^ 64" .
  then have key: "word_of_nat ((off + k) div bs) = b \<longleftrightarrow> (off + k) div bs = unat b"
    by (rule word_of_nat_eq_u64)
  have none: "map_of dirty b = None" using bs(6) by (simp add: map_of_eq_None_iff)
  show ?case
    using Cons.IH [of ?p] nth_tx_overlay_block [OF bs(1,3,4,2) Cons.prems(2), of off] Cons.prems bs(5)
    by (auto simp: x len key none split: option.split)
qed simp

lemma tx_ok_range:
  "tx_ok bs dirty L \<Longrightarrow> 0 < bs \<and> bs dvd L \<and> L < 2 ^ 62"
  by (simp add: tx_ok_def)

lemma set_AList_update: "x \<in> set (AList.update k v al) \<Longrightarrow> x = (k, v) \<or> x \<in> set al"
  by (induction al) (auto split: if_splits)

lemma tx_ok_update:
  "length blk = bs \<Longrightarrow> tx_ok bs dirty L \<Longrightarrow> (unat b + 1) * bs \<le> L \<Longrightarrow>
   tx_ok bs (AList.update b blk dirty) L"
  unfolding tx_ok_def by (auto simp: distinct_update dest!: set_AList_update)

context rw_device
begin

lemma tx_rd_law:
  assumes ok: "ok d" and tx: "tx_ok bs dirty (length (content d))"
    and n: "0 < n" "off + n \<le> length (tx_content bs dirty (content d))"
  shows "\<exists>d'. TxDevice_ReadAt (rd d) (int bs) dirty n (int off) =
           ((bslice off (off + n) (tx_content bs dirty (content d)), None), d') \<and>
           ok d' \<and> content d' = content d"
proof -
  have n': "off + n \<le> length (content d)" using n by simp
  obtain d' where d': "rd d n (int off) = ((bslice off (off + n) (content d), None), d')"
    "ok d'" "content d' = content d"
    using rd_obtain [OF ok n(1) n'] by blast
  let ?p = "bslice off (off + n) (content d)"
  have "fold (tx_overlay_block (int bs) (int off)) dirty ?p =
        bslice off (off + n) (tx_content bs dirty (content d))"
  proof (rule nth_equalityI)
    show len: "length (fold (tx_overlay_block (int bs) (int off)) dirty ?p) =
          length (bslice off (off + n) (tx_content bs dirty (content d)))"
      using tx n' length_tx_overlay [of bs "length (content d)" dirty off ?p]
      by (simp add: tx_ok_def)
    fix k assume "k < length (fold (tx_overlay_block (int bs) (int off)) dirty ?p)"
    then have k: "k < n" using len n' by simp
    then show "fold (tx_overlay_block (int bs) (int off)) dirty ?p ! k =
        bslice off (off + n) (tx_content bs dirty (content d)) ! k"
      using nth_tx_overlay [OF tx, of k ?p off] n' by (simp add: nth_tx_content split: option.split)
  qed
  with d' show ?thesis by (simp add: TxDevice_ReadAt_def)
qed

lemma tx_write_block_law:
  assumes ok: "ok d" and tx: "tx_ok bs dirty (length (content d))"
    and b: "(unat b + 1) * bs \<le> length (content d)"
    and p: "p \<noteq> []" "off + length p \<le> length (content d)"
    and ov: "off < unat b * bs + bs" "unat b * bs < off + length p"
  shows "\<exists>d' dirty'. tx_write_block rd (int bs) p (int off) b (d, dirty) = (None, (d', dirty')) \<and>
           ok d' \<and> content d' = content d \<and> tx_ok bs dirty' (length (content d)) \<and>
           (\<forall>i < length (content d). tx_content bs dirty' (content d) ! i =
              (if i div bs = unat b \<and> off \<le> i \<and> i < off + length p then p ! (i - off)
               else tx_content bs dirty (content d) ! i))"
proof -
  define S where "S = unat b * bs"
  define os where "os = max off S"
  define oe where "oe = min (off + length p) (S + bs)"
  define blk where "blk = bslice S (S + bs) (tx_content bs dirty (content d))"
  define blk' where "blk' = copy_at (os - S) (bslice (os - off) (oe - off) p) blk"
  define dirty' where "dirty' = AList.update b blk' dirty"
  note rng = tx_ok_range [OF tx]
  have S: "S + bs \<le> length (content d)" using b by (simp add: S_def)
  have lblk: "length blk = bs" using S by (simp add: blk_def)
  have o: "S \<le> os" "off \<le> os" "os < oe" "oe \<le> S + bs" "oe \<le> off + length p"
    using ov p(1) rng by (auto simp: os_def oe_def S_def)
  obtain d' where step: "tx_write_block rd (int bs) p (int off) b (d, dirty) = (None, (d', dirty'))"
    and d': "ok d'" "content d' = content d"
  proof -
    have patch: "copy_at (nat (int os - int S)) (bslice (nat (int os - int off))
        (nat (int os - int off + (int oe - int os))) p) blk = blk'"
      using o by (simp add: blk'_def nat_diff_distrib')
    have num: "i64 (sint b * int bs) = int S" "i64 (int S + int bs) = int (S + bs)"
      using block_range_i64 [of bs b "length (content d)"] rng b by (simp_all add: S_def)
    have mm: "maxVal (int off) (int S) = int os" "minVal (int off + int (length p)) (int (S + bs)) = int oe"
      by (simp_all only: os_def oe_def MaxMin_nat flip: of_nat_add)
    show ?thesis
    proof (cases "map_of dirty b")
      case (Some blk0)
      then have in_set: "(b, blk0) \<in> set dirty" by (rule map_of_SomeD)
      then have l0: "length blk0 = bs" using tx by (auto simp: tx_ok_def)
      have "blk = blk0"
      proof (rule nth_equalityI)
        fix j assume "j < length blk"
        then have j: "j < bs" using lblk by simp
        have "(S + j) div bs = unat b" "(S + j) mod bs = j" using j by (simp_all add: S_def)
        then show "blk ! j = blk0 ! j" using j S Some by (simp add: blk_def nth_tx_content)
      qed (simp add: l0 lblk)
      with patch have "tx_write_block rd (int bs) p (int off) b (d, dirty) = (None, (d, dirty'))"
        unfolding tx_write_block_def Let_def prod.case num mm Some option.case dirty'_def by simp
      then show ?thesis using that [of d] ok by simp
    next
      case None
      obtain d1 where d1: "rd d bs (int S) = ((bslice S (S + bs) (content d), None), d1)"
        "ok d1" "content d1 = content d"
        using rd_obtain [OF ok, of bs S] S rng by blast
      have "blk = bslice S (S + bs) (content d)"
      proof (rule nth_equalityI)
        fix j assume "j < length blk"
        then have j: "j < bs" using lblk by simp
        have "(S + j) div bs = unat b" using j by (simp add: S_def)
        then show "blk ! j = bslice S (S + bs) (content d) ! j"
          using j S None by (simp add: blk_def nth_tx_content)
      qed (use S lblk in simp)
      with patch S have "tx_write_block rd (int bs) p (int off) b (d, dirty) = (None, (d1, dirty'))"
        unfolding tx_write_block_def Let_def prod.case num mm None option.case dirty'_def nat_int d1(1)
        by (simp add: zeros_def)
      then show ?thesis using that [of d1] d1 by simp
    qed
  qed
  have look: "map_of dirty' = (map_of dirty)(b \<mapsto> blk')" by (simp add: dirty'_def update_conv')
  have lp: "length (bslice (os - off) (oe - off) p) = oe - os"
    using o by (subst length_slice) linarith+
  have "length blk' = bs" using o lblk by (simp add: blk'_def)
  then have tx': "tx_ok bs dirty' (length (content d))"
    using tx b unfolding dirty'_def by (rule tx_ok_update)
  have "tx_content bs dirty' (content d) ! i =
      (if i div bs = unat b \<and> off \<le> i \<and> i < off + length p then p ! (i - off)
       else tx_content bs dirty (content d) ! i)" if i: "i < length (content d)" for i
  proof (cases "i div bs = unat b")
    case True
    then have iS: "S \<le> i" "i < S + bs" "i mod bs = i - S"
      using div_eq_iff_range [of bs i "unat b"] mod_eq_range [of "unat b" bs i] rng
      by (simp_all add: S_def)
    have "tx_content bs dirty' (content d) ! i = blk' ! (i - S)"
      using True i iS by (simp add: nth_tx_content look)
    also have "\<dots> = (if os \<le> i \<and> i < oe then p ! (i - off) else blk ! (i - S))"
    proof -
      have c: "os - S \<le> i - S \<and> i - S < os - S + (oe - os) \<longleftrightarrow> os \<le> i \<and> i < oe"
        using iS o by linarith
      have hit: "bslice (os - off) (oe - off) p ! (i - os) = p ! (i - off)" if "os \<le> i" "i < oe"
        using that o by simp
      have "i - S - (os - S) = i - os" using o(1) by simp
      moreover have "os - S \<le> length blk" "i - S < length blk" using lblk o iS by linarith+
      ultimately show ?thesis
        using hit unfolding blk'_def by (simp only: nth_copy_at lp c) simp
    qed
    also have "blk ! (i - S) = tx_content bs dirty (content d) ! i"
      using iS S by (simp add: blk_def)
    also have "os \<le> i \<and> i < oe \<longleftrightarrow> off \<le> i \<and> i < off + length p"
      using iS by (auto simp: os_def oe_def)
    finally show ?thesis using True by simp
  next
    case False
    have "i div bs \<le> i" by simp
    also have "i < 2 ^ 64" using i rng by simp
    finally have "word_of_nat (i div bs) \<noteq> b"
      using False by (simp add: word_of_nat_eq_u64)
    with False i show ?thesis by (simp add: nth_tx_content look)
  qed
  with step d' tx' show ?thesis by blast
qed

lemma tx_write_loop_law:
  assumes "ok d" and "tx_ok bs dirty (length (content d))"
    and "p \<noteq> []" and "off + length p \<le> length (content d)"
    and "off div bs \<le> m" and "m \<le> Suc ((off + length p - 1) div bs)"
  shows "\<exists>d' dirty'. tx_write_loop rd (int bs) p (int off)
             (map word_of_nat [m..<Suc ((off + length p - 1) div bs)]) (d, dirty) = (None, (d', dirty')) \<and>
           ok d' \<and> content d' = content d \<and> tx_ok bs dirty' (length (content d)) \<and>
           (\<forall>i < length (content d). tx_content bs dirty' (content d) ! i =
              (if m \<le> i div bs \<and> off \<le> i \<and> i < off + length p then p ! (i - off)
               else tx_content bs dirty (content d) ! i))"
  using assms
proof (induction "Suc ((off + length p - 1) div bs) - m" arbitrary: m d dirty)
  case 0
  let ?e = "(off + length p - 1) div bs"
  have m: "m = Suc ?e" using 0 by linarith
  have "\<not> (m \<le> i div bs \<and> off \<le> i \<and> i < off + length p)" for i
  proof
    assume i: "m \<le> i div bs \<and> off \<le> i \<and> i < off + length p"
    then have "i div bs \<le> ?e" by (intro div_le_mono) linarith
    then show False using m i by linarith
  qed
  then show ?case using 0 m by auto
next
  case (Suc k)
  let ?e = "(off + length p - 1) div bs" and ?L = "length (content d)" and ?b = "word_of_nat m :: u64"
  have m: "m \<le> ?e" using Suc.hyps(2) by linarith
  note rng = tx_ok_range [OF Suc.prems(2)]
  have pos: "0 < length p" using Suc.prems(3) by simp
  have "off < off div bs * bs + bs"
    using rng dividend_less_times_div [of bs off] by (simp add: mult.commute)
  moreover have "off div bs * bs \<le> m * bs" using Suc.prems(5) by (rule mult_le_mono1)
  ultimately have lo: "off < m * bs + bs" by linarith
  have hi: "m * bs < off + length p"
    using m pos mult_le_mono1 [of m ?e bs] div_times_less_eq_dividend [of "off + length p - 1" bs] by linarith
  have Sm: "(m + 1) * bs \<le> ?L"
    using hi Suc.prems(4) rng by (intro block_fits) auto
  have "m \<le> m * bs" using rng by simp
  also have "\<dots> < 2 ^ 64" using Sm rng by simp
  finally have ub: "unat ?b = m" by (simp add: unat_of_nat take_bit_nat_eq_self)
  obtain d1 dirty1 where s1: "tx_write_block rd (int bs) p (int off) ?b (d, dirty) = (None, (d1, dirty1))"
      "ok d1" "content d1 = content d" "tx_ok bs dirty1 ?L"
    and c1: "\<And>i. i < ?L \<Longrightarrow> tx_content bs dirty1 (content d) ! i =
        (if i div bs = m \<and> off \<le> i \<and> i < off + length p then p ! (i - off)
         else tx_content bs dirty (content d) ! i)"
    using tx_write_block_law [OF Suc.prems(1,2), of ?b p off] Sm lo hi Suc.prems(3,4) unfolding ub by blast
  obtain d2 dirty2 where s2: "tx_write_loop rd (int bs) p (int off)
        (map word_of_nat [Suc m..<Suc ?e]) (d1, dirty1) = (None, (d2, dirty2))"
      "ok d2" "content d2 = content d" "tx_ok bs dirty2 ?L"
    and c2: "\<And>i. i < ?L \<Longrightarrow> tx_content bs dirty2 (content d) ! i =
        (if Suc m \<le> i div bs \<and> off \<le> i \<and> i < off + length p then p ! (i - off)
         else tx_content bs dirty1 (content d) ! i)"
  proof -
    have "k = Suc ?e - Suc m" "off div bs \<le> Suc m" "Suc m \<le> Suc ?e"
      using Suc.hyps(2) Suc.prems(5) m by linarith+
    from Suc.hyps(1) [OF this(1) s1(2) _ Suc.prems(3) _ this(2,3), of dirty1] that show thesis
      using s1(4) Suc.prems(4) unfolding s1(3) by blast
  qed
  have "[m..<Suc ?e] = m # [Suc m..<Suc ?e]" using m by (simp add: upt_conv_Cons)
  then have "tx_write_loop rd (int bs) p (int off) (map word_of_nat [m..<Suc ?e]) (d, dirty) =
        (None, (d2, dirty2))"
    using s1(1) s2(1) by simp
  moreover have "tx_content bs dirty2 (content d) ! i =
      (if m \<le> i div bs \<and> off \<le> i \<and> i < off + length p then p ! (i - off)
       else tx_content bs dirty (content d) ! i)" if "i < ?L" for i
    using c1 [OF that] c2 [OF that] by auto
  ultimately show ?case using s2 by blast
qed

lemma tx_wr_law:
  assumes "ok d" and tx: "tx_ok bs dirty (length (content d))"
    and p: "p \<noteq> []" "off + length p \<le> length (content d)"
  shows "\<exists>d' dirty'. TxDevice_WriteAt rd (int bs) p (int off) (d, dirty) = ((length p, None), (d', dirty')) \<and>
           ok d' \<and> content d' = content d \<and> tx_ok bs dirty' (length (content d)) \<and>
           tx_content bs dirty' (content d) = copy_at off p (tx_content bs dirty (content d))"
proof -
  let ?s = "off div bs" and ?e = "(off + length p - 1) div bs"
  note rng = tx_ok_range [OF tx]
  have pos: "0 < length p" using p by simp
  have "?e \<le> off + length p" "?s \<le> off" by (auto intro: le_trans [OF div_le_dividend])
  moreover have "off + length p < 2 ^ 64" using p(2) rng by simp
  ultimately have "?s < 2 ^ 64" "?e < 2 ^ 64" by linarith+
  then have ub: "unat (u64i (int ?s)) = ?s" "unat (u64i (int ?e)) = ?e"
    unfolding u64i_def by (simp_all add: unat_of_nat take_bit_nat_eq_self del: of_nat_div)
  have blk: "godiv (int off) (int bs) = int ?s" "godiv (int off + int (length p) - 1) (int bs) = int ?e"
    using godiv_nat [of "off + length p - 1" bs] pos by (simp_all add: of_nat_diff)
  have "?s \<le> ?e" by (rule div_le_mono) (use pos in linarith)
  then have "?s \<le> Suc ?e" by simp
  then obtain d' dirty' where r: "tx_write_loop rd (int bs) p (int off)
        (map word_of_nat [?s..<Suc ?e]) (d, dirty) = (None, (d', dirty'))"
      "ok d'" "content d' = content d" "tx_ok bs dirty' (length (content d))"
    and c: "\<And>i. i < length (content d) \<Longrightarrow> tx_content bs dirty' (content d) ! i =
        (if ?s \<le> i div bs \<and> off \<le> i \<and> i < off + length p then p ! (i - off)
         else tx_content bs dirty (content d) ! i)"
    using tx_write_loop_law [OF assms(1) tx p, of ?s] by auto
  have "TxDevice_WriteAt rd (int bs) p (int off) (d, dirty) = ((length p, None), (d', dirty'))"
    using p(1) rng r(1) unfolding TxDevice_WriteAt_def Let_def blk ub by simp
  moreover have "tx_content bs dirty' (content d) = copy_at off p (tx_content bs dirty (content d))"
    using p(2) c by (intro nth_equalityI) (auto simp: nth_copy_at div_le_mono)
  ultimately show ?thesis using r by blast
qed

end

end
