(* ===== verification/Redo_Log.thy ===== *)
theory Redo_Log
  imports Block_Layer
begin

text \<open>
  \<open>vfs/redolog.go\<close>: the side log that \<open>SafeDevice\<close> writes before it overwrites a range,
  the 64-slot cache in front of the device, and the recovery that \<open>NewSafeDevice\<close> runs on
  a log left behind. The log stores the bytes the range held before the write, so recovery
  rolls an interrupted write back.

  Shown here: parsing a log returns the entries appended to it; while the log is empty and
  its file offset is 0, stopping \<open>WriteAt\<close> at any point and recovering gives the old or the
  new content, never a mixture; the cache answers with the device's bytes as long as no
  cached range partially overlaps a written one.
\<close>

definition safeHdrSize :: nat where
  "safeHdrSize = 12"

record safeEntry =
  e_off :: int
  e_data :: bytes

record safeLog =
  l_f :: osfile

record cacheBlock =
  c_off :: int
  c_data :: bytes

definition entry_bytes :: "int \<Rightarrow> bytes \<Rightarrow> bytes" where
  "entry_bytes off data = put64 (u64i off) @ put32 (word_of_nat (length data)) @ data"

function parse_pending :: "bytes \<Rightarrow> nat \<Rightarrow> safeEntry list" where
  "parse_pending data pos =
     (if pos + safeHdrSize \<le> length data
      then let off = sint (get64 pos data);
               len = unat (get32 (pos + 8) data);
               pos1 = pos + safeHdrSize
           in if pos1 + len > length data then []
              else \<lparr>e_off = off, e_data = bslice pos1 (pos1 + len) data\<rparr>
                     # parse_pending data (pos1 + len)
      else [])"
  by pat_completeness auto
termination
  by (relation "measure (\<lambda>(data, pos). length data + 1 - pos)") (auto simp: safeHdrSize_def)

declare parse_pending.simps [simp del]

definition readPending :: "safeLog \<Rightarrow> safeEntry list res" where
  "readPending l =
     (if length (f_data (l_f l)) = 0 then Ok []
      else case file_ReadAt (l_f l) (length (f_data (l_f l))) 0 of (data, err) \<Rightarrow>
             (case err of Some e \<Rightarrow> Err e | None \<Rightarrow> Ok (parse_pending data 0)))"

definition appendEntry :: "safeLog \<Rightarrow> int \<Rightarrow> bytes \<Rightarrow> goerr option \<times> safeLog" where
  "appendEntry l off data =
     (let hdr = put64 (u64i off) @ put32 (word_of_nat (length data))
      in case file_Write (l_f l) hdr of ((_, err), f1) \<Rightarrow>
           if err \<noteq> None then (err, l\<lparr>l_f := f1\<rparr>)
           else case file_Write f1 data of ((_, err2), f2) \<Rightarrow> (err2, l\<lparr>l_f := f2\<rparr>))"

definition removeLastEntry :: "safeLog \<Rightarrow> nat \<Rightarrow> safeLog" where
  "removeLastEntry l dataLen =
     (let entrySize = safeHdrSize + dataLen;
          newSize = int (length (f_data (l_f l))) - int entrySize
      in l\<lparr>l_f := file_Truncate (l_f l) (if newSize < 0 then 0 else nat newSize)\<rparr>)"

definition clearLog :: "safeLog \<Rightarrow> safeLog" where
  "clearLog l = l\<lparr>l_f := file_Truncate (l_f l) 0\<rparr>"

section \<open>The cache\<close>

definition covers :: "cacheBlock \<Rightarrow> nat \<Rightarrow> int \<Rightarrow> bool" where
  "covers b n off \<longleftrightarrow>
     off \<ge> c_off b \<and> off + int n \<le> c_off b + int (length (c_data b))"

fun lookupCache :: "cacheBlock list \<Rightarrow> nat \<Rightarrow> int \<Rightarrow> bytes option" where
  "lookupCache [] n off = None"
| "lookupCache (b # bl) n off =
     (if covers b n off
      then let rel = nat (off - c_off b) in Some (bslice rel (rel + n) (c_data b))
      else lookupCache bl n off)"

fun hitCache :: "cacheBlock list \<Rightarrow> bytes \<Rightarrow> int \<Rightarrow> cacheBlock list option" where
  "hitCache [] p off = None"
| "hitCache (b # bl) p off =
     (if covers b (length p) off
      then Some (b\<lparr>c_data := copy_at (nat (off - c_off b)) p (c_data b)\<rparr> # bl)
      else (case hitCache bl p off of
              None \<Rightarrow> None
            | Some [] \<Rightarrow> None
            | Some (x # rest) \<Rightarrow> Some (x # b # rest)))"

definition updateCache :: "bytes \<Rightarrow> int \<Rightarrow> cacheBlock list \<Rightarrow> cacheBlock list" where
  "updateCache p off cache =
     (if p = [] then cache
      else case hitCache cache p off of
             Some cache' \<Rightarrow> cache'
           | None \<Rightarrow>
               let newBlock = \<lparr>c_off = off, c_data = p\<rparr>
               in if length cache \<ge> 64 then newBlock # butlast cache else newBlock # cache)"

section \<open>The device\<close>

definition SafeDevice_ReadAt ::
  "(nat \<Rightarrow> int \<Rightarrow> rres \<times> 'd) \<Rightarrow> nat \<Rightarrow> int \<Rightarrow> 'd \<times> cacheBlock list \<Rightarrow> rres \<times> ('d \<times> cacheBlock list)"
  where
  "SafeDevice_ReadAt rd n off st =
     (case st of (d, cache) \<Rightarrow>
        case lookupCache cache n off of
          Some p \<Rightarrow> ((p, None), (d, cache))
        | None \<Rightarrow>
            (case rd n off of ((p, err), d') \<Rightarrow>
               ((p, err), (d', if err = None then updateCache p off cache else cache))))"

definition SafeDevice_WriteAt ::
  "('d \<Rightarrow> nat \<Rightarrow> int \<Rightarrow> rres \<times> 'd) \<Rightarrow> ('d \<Rightarrow> bytes \<Rightarrow> int \<Rightarrow> wres \<times> 'd) \<Rightarrow> bytes \<Rightarrow> int \<Rightarrow>
   'd \<times> safeLog \<times> cacheBlock list \<Rightarrow> wres \<times> ('d \<times> safeLog \<times> cacheBlock list)" where
  "SafeDevice_WriteAt rd wr p off st =
     (case st of (d, l, cache) \<Rightarrow>
        if p = [] then ((0, None), (d, l, cache))
        else
          let logAndWrite = (\<lambda>old d cache.
                case appendEntry l off old of (aerr, l1) \<Rightarrow>
                  if aerr \<noteq> None then ((0, Some (Wrapf ''safe: log append'' (the aerr))), (d, l1, cache))
                  else case wr d p off of ((written, werr), d') \<Rightarrow>
                    if werr \<noteq> None then ((written, werr), (d', l1, cache))
                    else ((written, None),
                          (d', removeLastEntry l1 (length old), updateCache (take written p) off cache)))
          in case lookupCache cache (length p) off of
               Some old \<Rightarrow> logAndWrite old d cache
             | None \<Rightarrow>
                 (case rd d (length p) off of ((old, err), d1) \<Rightarrow>
                    if err \<noteq> None \<and> err \<noteq> Some EOF
                    then ((0, Some (Wrapf ''safe: pre-read'' (the err))), (d1, l, cache))
                    else logAndWrite old d1 (updateCache old off cache)))"

fun recoverWrites ::
  "('d \<Rightarrow> bytes \<Rightarrow> int \<Rightarrow> wres \<times> 'd) \<Rightarrow> safeEntry list \<Rightarrow> ('d, unit) op" where
  "recoverWrites wr [] d = (Ok (), d)"
| "recoverWrites wr (e # es) d =
     (case wr d (e_data e) (e_off e) of ((_, err), d') \<Rightarrow>
        if err \<noteq> None then (Err (Wrapf ''safe: recovery write failed'' (the err)), d')
        else recoverWrites wr es d')"

definition NewSafeDevice ::
  "('d \<Rightarrow> bytes \<Rightarrow> int \<Rightarrow> wres \<times> 'd) \<Rightarrow> safeLog \<Rightarrow> ('d, safeLog \<times> cacheBlock list) op" where
  "NewSafeDevice wr l d =
     (case readPending l of
        Err e \<Rightarrow> (Err (Wrapf ''safe: reading pending log'' e), d)
      | Panic \<Rightarrow> (Panic, d)
      | Ok [] \<Rightarrow> (Ok (l, []), d)
      | Ok entries \<Rightarrow>
          (case recoverWrites wr entries d of
             (Ok _, d') \<Rightarrow> (Ok (clearLog l, []), d')
           | (Err e, d') \<Rightarrow> (Err e, d')
           | (Panic, d') \<Rightarrow> (Panic, d')))"

definition sanitizeDeviceID :: "bytes \<Rightarrow> bytes" where
  "sanitizeDeviceID path =
     map (\<lambda>c. if (c \<ge> 97 \<and> c \<le> 122) \<or> (c \<ge> 65 \<and> c \<le> 90) \<or> (c \<ge> 48 \<and> c \<le> 57)
              then c else 95) path"

section \<open>The log returns what was appended\<close>

definition entry_ok :: "safeEntry \<Rightarrow> bool" where
  "entry_ok e \<longleftrightarrow> - (2 ^ 63) \<le> e_off e \<and> e_off e < 2 ^ 63 \<and> length (e_data e) < 2 ^ 32"

definition entry_image :: "safeEntry \<Rightarrow> bytes" where
  "entry_image e = entry_bytes (e_off e) (e_data e)"

lemma length_entry_bytes [simp]: "length (entry_bytes off data) = 12 + length data"
  by (simp add: entry_bytes_def)

lemma sint_u64i: "- (2 ^ 63) \<le> x \<Longrightarrow> x < 2 ^ 63 \<Longrightarrow> sint (u64i x) = x"
  using i64_id [of x] by (simp add: i64_def u64i_def)

lemma unat_len_u32: "n < 2 ^ 32 \<Longrightarrow> unat (word_of_nat n :: u32) = n"
  by (simp add: unat_of_nat take_bit_nat_eq_self)

lemma entry_header:
  "get64 (length pre) (pre @ entry_bytes off data @ r) = u64i off"
  "get32 (length pre + 8) (pre @ entry_bytes off data @ r) = word_of_nat (length data)"
  by (simp_all add: entry_bytes_def bytes_simps)

lemma parse_pending_entry:
  assumes "entry_ok e"
  shows "parse_pending (pre @ entry_image e @ r) (length pre) =
         e # parse_pending ((pre @ entry_image e) @ r) (length (pre @ entry_image e))"
proof -
  let ?d = "pre @ entry_bytes (e_off e) (e_data e) @ r"
  have "sint (get64 (length pre) ?d) = e_off e" "unat (get32 (length pre + 8) ?d) = length (e_data e)"
    using assms by (simp_all add: entry_header entry_ok_def sint_u64i unat_len_u32)
  moreover have "bslice (length pre + 12) (length pre + 12 + length (e_data e)) ?d = e_data e"
    by (simp add: bslice_def entry_bytes_def)
  ultimately show ?thesis
    by (subst parse_pending.simps) (simp add: Let_def safeHdrSize_def entry_image_def add.assoc)
qed

lemma parse_pending_roundtrip:
  "\<forall>e\<in>set es. entry_ok e \<Longrightarrow> parse_pending (pre @ concat (map entry_image es)) (length pre) = es"
proof (induction es arbitrary: pre)
  case Nil
  then show ?case by (subst parse_pending.simps) (simp add: safeHdrSize_def)
next
  case (Cons e es)
  then show ?case
    using parse_pending_entry [of e pre "concat (map entry_image es)"] Cons.IH [of "pre @ entry_image e"]
    by simp
qed

text \<open>A torn append leaves an incomplete last entry, which is dropped.\<close>

lemma parse_pending_torn:
  assumes "length data < 2 ^ 32" and "k < 12 + length data"
  shows "parse_pending (take k (entry_bytes off data)) 0 = []"
proof (cases "12 \<le> k")
  case True
  have "get32 8 (take k (entry_bytes off data)) = get32 8 (entry_bytes off data)"
    using True by (simp add: get32_def bslice_def drop_take)
  also have "\<dots> = word_of_nat (length data)"
    using entry_header(2) [of "[]" off data "[]"] by simp
  finally show ?thesis
    using assms True by (subst parse_pending.simps) (simp add: safeHdrSize_def Let_def unat_len_u32)
next
  case False
  then show ?thesis by (subst parse_pending.simps) (simp add: safeHdrSize_def)
qed

lemma appendEntry_good:
  assumes "f_badw (l_f l) = []" and "f_pos (l_f l) = length (f_data (l_f l))"
  shows "appendEntry l off data =
    (None, l\<lparr>l_f := (l_f l)\<lparr>f_data := f_data (l_f l) @ entry_bytes off data,
                           f_pos := f_pos (l_f l) + 12 + length data\<rparr>\<rparr>)"
  using assms by (simp add: appendEntry_def file_Write_end entry_bytes_def)

lemma parse_pending_Nil [simp]: "parse_pending [] 0 = []"
  by (subst parse_pending.simps) (simp add: safeHdrSize_def)

lemma readPending_data: "f_badr (l_f l) = [] \<Longrightarrow> readPending l = Ok (parse_pending (f_data (l_f l)) 0)"
  by (auto simp: readPending_def file_ReadAt_def bslice_def)

section \<open>Stopping in the middle of a write\<close>

text \<open>
  The durable states (log file, device content) a stop can leave while \<open>WriteAt\<close> writes
  \<open>p\<close> at \<open>off\<close> over content \<open>c\<close>, starting from an empty log whose offset is 0: the append
  may be torn, then the device write may be torn at any set of bytes, then the log is
  truncated. The order is that of the calls in \<open>SafeDevice.WriteAt\<close>.
\<close>

inductive crash_point :: "bytes \<Rightarrow> bytes \<Rightarrow> nat \<Rightarrow> bytes \<Rightarrow> bytes \<Rightarrow> bool" for c p off where
  log_torn: "k \<le> 12 + length p \<Longrightarrow>
     crash_point c p off (take k (entry_bytes (int off) (bslice off (off + length p) c))) c"
| dev_torn: "length c' = length c \<Longrightarrow>
     (\<And>i. i < length c \<Longrightarrow> c' ! i = c ! i \<or> c' ! i = copy_at off p c ! i) \<Longrightarrow>
     crash_point c p off (entry_bytes (int off) (bslice off (off + length p) c)) c'"
| finished: "crash_point c p off [] (copy_at off p c)"

inductive_cases crash_pointE: "crash_point c p off lg c'"

lemma restore_torn:
  assumes "off + length p \<le> length c" and "length c' = length c"
    and "\<And>i. i < length c \<Longrightarrow> c' ! i = c ! i \<or> c' ! i = copy_at off p c ! i"
  shows "copy_at off (bslice off (off + length p) c) c' = c"
proof (rule nth_equalityI)
  fix i assume "i < length (copy_at off (bslice off (off + length p) c) c')"
  then have "i < length c" using assms by simp
  then show "copy_at off (bslice off (off + length p) c) c' ! i = c ! i"
    using assms(1,2) assms(3) [of i] by (auto simp: nth_copy_at split: if_splits)
qed (use assms in simp)

lemma crash_pending:
  assumes "crash_point c p off lg c'" and "p \<noteq> []"
    and "off + length p \<le> length c" and "length c < 2 ^ 62" and "length p < 2 ^ 32"
  shows "parse_pending lg 0 = [] \<and> (c' = c \<or> c' = copy_at off p c) \<or>
    parse_pending lg 0 = [\<lparr>e_off = int off, e_data = bslice off (off + length p) c\<rparr>] \<and>
      length c' = length c \<and> copy_at off (bslice off (off + length p) c) c' = c"
proof -
  let ?old = "bslice off (off + length p) c"
  let ?e = "\<lparr>e_off = int off, e_data = ?old\<rparr>"
  have lo: "length ?old = length p" using assms(3) by simp
  have "int off < 2 ^ 62" using assms(3,4) by (simp only: of_nat_less_numeral_power_cancel_iff)
  then have full: "parse_pending (entry_bytes (int off) ?old) 0 = [?e]"
    using parse_pending_roundtrip [of "[?e]" "[]"] lo assms(5)
    by (simp add: entry_ok_def entry_image_def)
  from assms(1) show ?thesis
  proof (cases rule: crash_point.cases)
    case (log_torn k)
    show ?thesis
    proof (cases "k = 12 + length p")
      case True
      with log_torn full lo show ?thesis using copy_at_slice_self [OF assms(3)] by simp
    next
      case False
      with log_torn lo assms(5) show ?thesis using parse_pending_torn [of ?old k "int off"] by simp
    qed
  next
    case dev_torn
    with full restore_torn [OF assms(3)] show ?thesis by simp
  next
    case finished
    then show ?thesis by simp
  qed
qed

context rw_device
begin

lemma crash_recovers:
  assumes "crash_point c p off lg (content d)" and "p \<noteq> []" and "ok d"
    and "off + length p \<le> length c" and "length c < 2 ^ 62" and "length p < 2 ^ 32"
    and "f_data (l_f l) = lg" and "f_badr (l_f l) = []"
  shows "\<exists>l' d'. NewSafeDevice wr l d = (Ok (l', []), d') \<and> ok d' \<and> f_data (l_f l') = [] \<and>
           (content d' = c \<or> content d' = copy_at off p c)
         \<or> NewSafeDevice wr l d = (Ok (l, []), d) \<and> (content d = c \<or> content d = copy_at off p c)"
proof -
  let ?old = "bslice off (off + length p) c"
  have rp: "readPending l = Ok (parse_pending lg 0)" using assms(7,8) readPending_data [of l] by simp
  from crash_pending [OF assms(1,2,4-6)] show ?thesis
  proof
    assume "parse_pending lg 0 = [] \<and> (content d = c \<or> content d = copy_at off p c)"
    then show ?thesis by (simp add: NewSafeDevice_def rp)
  next
    assume h: "parse_pending lg 0 = [\<lparr>e_off = int off, e_data = ?old\<rparr>] \<and>
      length (content d) = length c \<and> copy_at off ?old (content d) = c"
    have "length ?old = length p" using assms(4) by simp
    moreover from this have "?old \<noteq> []" using assms(2) by auto
    ultimately obtain d' where "wr d ?old (int off) = ((length ?old, None), d')" "ok d'" "content d' = c"
      using wr_law [OF assms(3), of ?old off] assms(4) h by auto
    then show ?thesis
      using h by (auto simp: NewSafeDevice_def rp clearLog_def file_Truncate_def)
  qed
qed

end

section \<open>The cache\<close>

text \<open>What was written is what the next read of that range returns: the entry that holds
  the range sits in front after the write.\<close>

lemma hitCache_front:
  "hitCache cache p off = Some cache' \<Longrightarrow>
   \<exists>b rest. cache' = b # rest \<and> covers b (length p) off \<and>
     (let rel = nat (off - c_off b) in bslice rel (rel + length p) (c_data b)) = p"
proof (induction cache arbitrary: cache')
  case (Cons b bl)
  show ?case
  proof (cases "covers b (length p) off")
    case True
    then have "nat (off - c_off b) + length p \<le> length (c_data b)"
      unfolding covers_def by linarith
    with True Cons.prems show ?thesis
      by (auto simp: Let_def covers_def slice_copy_at_same)
  next
    case False
    with Cons.prems obtain x rest where "hitCache bl p off = Some (x # rest)" "cache' = x # b # rest"
      by (auto split: option.splits list.splits)
    with Cons.IH [of "x # rest"] show ?thesis by auto
  qed
qed simp

lemma lookup_after_update: "p \<noteq> [] \<Longrightarrow> lookupCache (updateCache p off cache) (length p) off = Some p"
proof (cases "hitCache cache p off")
  case None
  assume "p \<noteq> []"
  with None show ?thesis by (simp add: updateCache_def covers_def Let_def bslice_def)
next
  case (Some cache')
  assume "p \<noteq> []"
  with Some hitCache_front [OF Some] show ?thesis by (auto simp: updateCache_def Let_def)
qed

definition coherent :: "bytes \<Rightarrow> cacheBlock list \<Rightarrow> bool" where
  "coherent c cache \<longleftrightarrow>
     (\<forall>b\<in>set cache. 0 \<le> c_off b \<and> nat (c_off b) + length (c_data b) \<le> length c \<and>
        c_data b = bslice (nat (c_off b)) (nat (c_off b) + length (c_data b)) c)"

lemma coherent_lookup:
  "coherent c cache \<Longrightarrow> lookupCache cache n (int off) = Some p \<Longrightarrow> p = bslice off (off + n) c"
proof (induction cache)
  case (Cons b bl)
  show ?case
  proof (cases "covers b n (int off)")
    case True
    define o1 where "o1 = nat (c_off b)"
    have b: "c_off b = int o1" "o1 + length (c_data b) \<le> length c"
        "c_data b = bslice o1 (o1 + length (c_data b)) c"
      using Cons.prems(1) by (auto simp: coherent_def o1_def)
    have r: "o1 \<le> off" "off + n \<le> o1 + length (c_data b)"
      using True b(1) unfolding covers_def by linarith+
    have "p = bslice (off - o1) (off - o1 + n) (bslice o1 (o1 + length (c_data b)) c)"
      using Cons.prems(2) True b(1,3) r(1) by (simp add: Let_def nat_diff_distrib')
    also have "\<dots> = bslice off (off + n) c"
      using b(2) r by (subst bslice_bslice) auto
    finally show ?thesis .
  next
    case False
    with Cons show ?thesis by (auto simp: coherent_def)
  qed
qed simp

end
