(* ===== verification/Device.thy ===== *)
theory Device
  imports Tx_Device Redo_Log
begin

text \<open>
  The \<open>ReadWriterAt\<close> values the program builds, as one datatype: an open file, and the
  four wrappers around another device. \<open>dev_ReadAt\<close> and \<open>dev_WriteAt\<close> dispatch on the
  dynamic type as a Go interface call does.

  \<open>content\<close> is the byte string a device stands for and \<open>dev_ok\<close> when it keeps the contract
  \<open>rw_device\<close>. The file system theories rest on the interpretation \<open>dv\<close> at the end.
  A \<open>SafeDevice\<close> does not keep the contract for arbitrary ranges (its cache can go
  stale, see \<open>safe_stale_read\<close>), so it is not \<open>dev_ok\<close>.
\<close>

datatype dev =
    FileDev osfile
  | AlignedDev dev int
  | PartDev dev int int
  | SafeDev dev safeLog "cacheBlock list"
  | TxDev dev u64 dirty_map

primrec dev_ReadAt :: "dev \<Rightarrow> nat \<Rightarrow> int \<Rightarrow> rres \<times> dev" where
  "dev_ReadAt (FileDev f) = (\<lambda>n off. (file_ReadAt f n off, FileDev f))"
| "dev_ReadAt (AlignedDev d ss) = (\<lambda>n off.
     case AlignedReaderAt_ReadAt (dev_ReadAt d) ss d n off of (r, d') \<Rightarrow> (r, AlignedDev d' ss))"
| "dev_ReadAt (PartDev d st sz) = (\<lambda>n off.
     case PartitionReader_ReadAt (dev_ReadAt d) st sz d n off of (r, d') \<Rightarrow> (r, PartDev d' st sz))"
| "dev_ReadAt (SafeDev d l cache) = (\<lambda>n off.
     case SafeDevice_ReadAt (dev_ReadAt d) n off (d, cache) of
       (r, (d', cache')) \<Rightarrow> (r, SafeDev d' l cache'))"
| "dev_ReadAt (TxDev d bs dirty) = (\<lambda>n off.
     case TxDevice_ReadAt (dev_ReadAt d) (sint bs) dirty n off of (r, d') \<Rightarrow> (r, TxDev d' bs dirty))"

primrec dev_depth :: "dev \<Rightarrow> nat" where
  "dev_depth (FileDev f) = 0"
| "dev_depth (AlignedDev d ss) = Suc (dev_depth d)"
| "dev_depth (PartDev d st sz) = Suc (dev_depth d)"
| "dev_depth (SafeDev d l cache) = Suc (dev_depth d)"
| "dev_depth (TxDev d bs dirty) = Suc (dev_depth d)"

lemma dev_ReadAt_depth: "dev_ReadAt d n off = (r, d') \<Longrightarrow> dev_depth d' = dev_depth d"
proof (induction d arbitrary: n off r d')
  case (AlignedDev d ss)
  then show ?case
    by (fastforce simp: AlignedReaderAt_ReadAt_def Let_def split: prod.splits if_splits)
next
  case (PartDev d st sz)
  then show ?case
    by (cases r) (auto simp: PartitionReader_ReadAt_def Let_def split: prod.splits if_splits)
next
  case (SafeDev d l cache)
  then show ?case
    by (fastforce simp: SafeDevice_ReadAt_def split: prod.splits option.splits)
next
  case (TxDev d bs dirty)
  then show ?case
    by (fastforce simp: TxDevice_ReadAt_def split: prod.splits if_splits)
qed simp

lemma AlignedReaderAt_WriteAt_cong [fundef_cong]:
  assumes "rd = rd'" "ss = ss'" "d = d'" "p = p'" "off = off'"
    and "\<And>n o1 r d1 q o2. rd' n o1 = (r, d1) \<or> d1 = d' \<Longrightarrow> wr d1 q o2 = wr' d1 q o2"
  shows "AlignedReaderAt_WriteAt rd wr ss d p off = AlignedReaderAt_WriteAt rd' wr' ss' d' p' off'"
proof -
  let ?a = "align_down ss off"
  obtain buf err d1 where r: "rd (nat (align_up ss (off + int (length p)) - ?a)) ?a = ((buf, err), d1)"
    by (metis prod.exhaust)
  have eq: "wr d q o2 = wr' d q o2" "wr d1 q o2 = wr' d1 q o2" for q o2
    using assms(6) [of _ _ _ d] assms(6) [OF disjI1, of _ _ "(buf, err)" d1] r assms(1,3) by auto
  then show ?thesis
    unfolding AlignedReaderAt_WriteAt_def Let_def assms(1-5) [symmetric] r prod.case eq by simp
qed

lemma PartitionReader_WriteAt_cong [fundef_cong]:
  assumes "st = st'" "sz = sz'" "d = d'" "p = p'" "off = off'"
    and "\<And>q o2. wr d' q o2 = wr' d' q o2"
  shows "PartitionReader_WriteAt wr st sz d p off = PartitionReader_WriteAt wr' st' sz' d' p' off'"
  unfolding PartitionReader_WriteAt_def Let_def using assms by auto

lemma SafeDevice_WriteAt_cong [fundef_cong]:
  assumes "rd = rd'" "p = p'" "off = off'" "s = s'"
    and "\<And>n o1 r d1 q o2. rd' (fst s') n o1 = (r, d1) \<or> d1 = fst s' \<Longrightarrow> wr d1 q o2 = wr' d1 q o2"
  shows "SafeDevice_WriteAt rd wr p off s = SafeDevice_WriteAt rd' wr' p' off' s'"
proof -
  obtain d l cache where s: "s = (d, l, cache)" by (metis prod.exhaust)
  obtain old err d1 where r: "rd d (length p) off = ((old, err), d1)"
    by (metis prod.exhaust)
  have eq: "wr d q o2 = wr' d q o2" "wr d1 q o2 = wr' d1 q o2" for q o2
    using assms(5) [of _ _ _ d] assms(5) [OF disjI1, of _ _ "(old, err)" d1] r assms(1,4) s by auto
  show ?thesis
    unfolding SafeDevice_WriteAt_def Let_def assms(1-4) [symmetric] s prod.case r eq ..
qed

function dev_WriteAt :: "dev \<Rightarrow> bytes \<Rightarrow> int \<Rightarrow> wres \<times> dev" where
  "dev_WriteAt (FileDev f) p off = (case file_WriteAt f p off of (r, f') \<Rightarrow> (r, FileDev f'))"
| "dev_WriteAt (AlignedDev d ss) p off =
     (case AlignedReaderAt_WriteAt (dev_ReadAt d) (\<lambda>d1. dev_WriteAt d1) ss d p off of
        (r, d') \<Rightarrow> (r, AlignedDev d' ss))"
| "dev_WriteAt (PartDev d st sz) p off =
     (case PartitionReader_WriteAt (\<lambda>d1. dev_WriteAt d1) st sz d p off of
        (r, d') \<Rightarrow> (r, PartDev d' st sz))"
| "dev_WriteAt (SafeDev d l cache) p off =
     (case SafeDevice_WriteAt dev_ReadAt (\<lambda>d1. dev_WriteAt d1) p off (d, l, cache) of
        (r, (d', l', cache')) \<Rightarrow> (r, SafeDev d' l' cache'))"
| "dev_WriteAt (TxDev d bs dirty) p off =
     (case TxDevice_WriteAt dev_ReadAt (sint bs) p off (d, dirty) of
        (r, (d', dirty')) \<Rightarrow> (r, TxDev d' bs dirty'))"
  by pat_completeness auto
termination
  by (relation "measure (\<lambda>(d, p, off). dev_depth d)") (auto dest: dev_ReadAt_depth)

section \<open>The contract\<close>

primrec content :: "dev \<Rightarrow> bytes" where
  "content (FileDev f) = f_data f"
| "content (AlignedDev d ss) = content d"
| "content (PartDev d st sz) = bslice (nat st) (nat st + nat sz) (content d)"
| "content (SafeDev d l cache) = content d"
| "content (TxDev d bs dirty) = tx_content (unat bs) dirty (content d)"

primrec dev_ok :: "dev \<Rightarrow> bool" where
  "dev_ok (FileDev f) = file_ok f"
| "dev_ok (AlignedDev d ss) = (dev_ok d \<and> 0 < ss \<and> nat ss dvd length (content d))"
| "dev_ok (PartDev d st sz) = (dev_ok d \<and> 0 \<le> st \<and> 0 \<le> sz \<and> nat st + nat sz \<le> length (content d))"
| "dev_ok (SafeDev d l cache) = False"
| "dev_ok (TxDev d bs dirty) =
     (dev_ok d \<and> unat bs < 2 ^ 62 \<and> tx_ok (unat bs) dirty (length (content d)))"

lemma dev_ok_size: "dev_ok d \<Longrightarrow> length (content d) < 2 ^ 62"
  by (induction d) (auto simp: file_ok_def tx_ok_def bslice_def)

lemma sint_bs: "unat (bs :: u64) < 2 ^ 62 \<Longrightarrow> sint bs = int (unat bs)"
  by (rule sint_u64_small) simp

text \<open>One wrapper on top of devices that keep the contract keeps it again.\<close>

lemma dev_rd_step:
  assumes "rw_device dev_ReadAt dev_WriteAt content (\<lambda>d. dev_ok d \<and> dev_depth d < k)"
    and "dev_ok d" and "dev_depth d < Suc k" and "0 < n" and "off + n \<le> length (content d)"
  shows "\<exists>d'. dev_ReadAt d n (int off) = ((bslice off (off + n) (content d), None), d') \<and>
           (dev_ok d' \<and> dev_depth d' < Suc k) \<and> content d' = content d"
  using assms(2-5)
proof (cases d)
  case (FileDev f)
  then show ?thesis using assms os_file.rd_law [of f n off] by auto
next
  case (AlignedDev d0 ss)
  then show ?thesis
    using assms rw_device.aligned_rd_law [OF assms(1), of d0 "nat ss" n off] by auto
next
  case (PartDev d0 st sz)
  then show ?thesis
    using assms rw_device.partition_rd_law [OF assms(1), of d0 "nat st" "nat sz" n off] by auto
next
  case (TxDev d0 bs dirty)
  then show ?thesis
    using assms sint_bs [of bs] rw_device.tx_rd_law [OF assms(1), of d0 "unat bs" dirty n off] by auto
qed auto

lemma dev_wr_step:
  assumes "rw_device dev_ReadAt dev_WriteAt content (\<lambda>d. dev_ok d \<and> dev_depth d < k)"
    and "dev_ok d" and "dev_depth d < Suc k" and "p \<noteq> []" and "off + length p \<le> length (content d)"
  shows "\<exists>d'. dev_WriteAt d p (int off) = ((length p, None), d') \<and>
           (dev_ok d' \<and> dev_depth d' < Suc k) \<and> content d' = copy_at off p (content d)"
  using assms(2-5)
proof (cases d)
  case (FileDev f)
  then show ?thesis using assms os_file.wr_law [of f p off] by auto
next
  case (AlignedDev d0 ss)
  then show ?thesis
    using assms rw_device.aligned_wr_law [OF assms(1), of d0 "nat ss" p off] by auto
next
  case (PartDev d0 st sz)
  have "bslice (nat st) (nat st + nat sz) (copy_at (nat st + off) p (content d0)) =
        copy_at off p (bslice (nat st) (nat st + nat sz) (content d0))"
    using assms PartDev by (intro bslice_copy_at_inner) auto
  with PartDev show ?thesis
    using assms rw_device.partition_wr_law [OF assms(1), of d0 "nat st" "nat sz" p off] by auto
next
  case (TxDev d0 bs dirty)
  then show ?thesis
    using assms sint_bs [of bs] rw_device.tx_wr_law [OF assms(1), of d0 "unat bs" dirty p off] by auto
qed auto

lemma rw_device_depth:
  "rw_device dev_ReadAt dev_WriteAt content (\<lambda>d. dev_ok d \<and> dev_depth d < k)"
proof (induction k)
  case 0
  show ?case by unfold_locales auto
next
  case (Suc k)
  show ?case
    by unfold_locales (use dev_rd_step [OF Suc] dev_wr_step [OF Suc] dev_ok_size in auto)
qed

interpretation dv: rw_device dev_ReadAt dev_WriteAt content dev_ok
proof unfold_locales
  fix d n off assume "dev_ok d" "0 < n" "off + n \<le> length (content d)"
  then show "\<exists>d'. dev_ReadAt d n (int off) = ((bslice off (off + n) (content d), None), d') \<and>
      dev_ok d' \<and> content d' = content d"
    using rw_device.rd_law [OF rw_device_depth [of "Suc (dev_depth d)"], of d n off] by auto
next
  fix d off and p :: bytes assume "dev_ok d" "p \<noteq> []" "off + length p \<le> length (content d)"
  then show "\<exists>d'. dev_WriteAt d p (int off) = ((length p, None), d') \<and>
      dev_ok d' \<and> content d' = copy_at off p (content d)"
    using rw_device.wr_law [OF rw_device_depth [of "Suc (dev_depth d)"], of d p off] by auto
qed (rule dev_ok_size)

end
