(* ===== verification/Device_Props.thy ===== *)
theory Device_Props
  imports Device
begin

text \<open>
  The properties of the device stack: isolation of partitions, transparency of the aligning
  wrapper, buffering by the transaction device, and the guarantees and limits of the
  write-ahead log of the safe device.
\<close>

text \<open>A closed file content and a closed empty log, at which the properties are instantiated.\<close>

definition mem_file :: "bytes \<Rightarrow> osfile" where
  "mem_file b = \<lparr>f_data = b, f_pos = 0, f_badr = [], f_badw = []\<rparr>"

definition empty_log :: safeLog where
  "empty_log = \<lparr>l_f = mem_file []\<rparr>"

text \<open>A sequence of writes to a device, in order.\<close>

fun dev_writes :: "(nat \<times> bytes) list \<Rightarrow> dev \<Rightarrow> dev" where
  "dev_writes [] d = d"
| "dev_writes ((off, p) # ws) d = dev_writes ws (snd (dev_WriteAt d p (int off)))"

lemma replicate_numeral: "replicate (numeral k) x = x # replicate (pred_numeral k) x"
  by (simp add: numeral_eq_Suc)

lemma dev_write_empty:
  "dev_ok d \<Longrightarrow> \<exists>r d'. dev_WriteAt d [] off = (r, d') \<and> dev_ok d' \<and> content d' = content d"
proof (induction d arbitrary: off)
  case (FileDev f)
  then show ?case
    by (auto simp: file_WriteAt_def Let_def fwrite_at_def file_ok_def)
next
  case (PartDev d st sz)
  then obtain r d' where "dev_WriteAt d [] (i64 (st + off)) = (r, d')" "dev_ok d'" "content d' = content d"
    by fastforce
  with PartDev.prems show ?case by (auto simp: PartitionReader_WriteAt_def Let_def)
qed (auto simp: AlignedReaderAt_WriteAt_def TxDevice_WriteAt_def)

text \<open>A write through a partition reader changes no byte of the disk outside the
  partition, whatever the offset and the length of the buffer.\<close>

theorem partition_write_isolated:
  assumes "dev_ok (PartDev d st sz)"
    and "dev_WriteAt (PartDev d st sz) p off = (r, d2)"
  shows "\<exists>d'. d2 = PartDev d' st sz \<and> length (content d') = length (content d) \<and>
    (\<forall>i < length (content d). i < nat st \<or> nat st + nat sz \<le> i \<longrightarrow> content d' ! i = content d ! i)"
proof -
  have ok: "dev_ok d" "0 \<le> st" "0 \<le> sz" "nat st + nat sz \<le> length (content d)"
    using assms(1) by auto
  note bound = dev_ok_size [OF ok(1)]
  consider (refused) "off < 0 \<or> off \<ge> sz" | (inside) "0 \<le> off" "off < sz" by linarith
  then show ?thesis
  proof cases
    case refused
    then show ?thesis using assms(2) by (auto simp: PartitionReader_WriteAt_def split: if_splits)
  next
    case inside
    define q where "q = (if int (length p) > sz - off then take (nat (sz - off)) p else p)"
    have "i64 (st + off) = st + off" using ok inside bound by (intro i64_id) auto
    then have i64: "i64 (st + off) = int (nat st + nat off)" using ok inside by simp
    have "dev_WriteAt (PartDev d st sz) p off =
        (case dev_WriteAt d q (i64 (st + off)) of (r, d') \<Rightarrow> (r, PartDev d' st sz))"
      using inside by (simp add: PartitionReader_WriteAt_def Let_def q_def)
    then obtain r' d' where w: "dev_WriteAt d q (int (nat st + nat off)) = (r', d')" "d2 = PartDev d' st sz"
      using assms(2) unfolding i64 by (metis (no_types, lifting) case_prod_conv prod.exhaust prod.inject)
    have fit: "nat off + length q \<le> nat sz" using inside by (auto simp: q_def min_def)
    show ?thesis
    proof (cases "q = []")
      case True
      then show ?thesis using dev_write_empty [OF ok(1), of "int (nat st + nat off)"] w by auto
    next
      case False
      then have "content d' = copy_at (nat st + nat off) q (content d)"
        using dv.wr_law [OF ok(1), of q "nat st + nat off"] w(1) fit ok(4) by auto
      with w(2) fit ok(4) show ?thesis by (auto simp: nth_copy_at)
    qed
  qed
qed

text \<open>Reading and writing through the sector-aligning wrapper has the effect of the
  same request on the device below.\<close>

theorem aligned_transparent:
  assumes "dev_ok (AlignedDev d ss)" and "0 < n" and "off + n \<le> length (content d)"
    and "length p = n"
  shows "fst (dev_ReadAt (AlignedDev d ss) n (int off)) = fst (dev_ReadAt d n (int off)) \<and>
    fst (dev_WriteAt (AlignedDev d ss) p (int off)) = fst (dev_WriteAt d p (int off)) \<and>
    content (snd (dev_WriteAt (AlignedDev d ss) p (int off))) = content (snd (dev_WriteAt d p (int off)))"
proof -
  have p: "p \<noteq> []" "off + length p \<le> length (content d)" using assms by auto
  have d: "dev_ok d" using assms(1) by simp
  show ?thesis
    using dv.rd_law [OF assms(1,2), of off] dv.rd_law [OF d assms(2,3)]
      dv.wr_law [OF assms(1) p(1), of off] dv.wr_law [OF d p] assms(3) p by auto
qed

text \<open>C9: writes made inside a transaction are seen by reads through the transaction and
  leave the device below as it was, so that dropping the buffer undoes all of them.\<close>

theorem tx_buffered:
  assumes "dev_ok (TxDev d bs dirty)"
    and "\<forall>(off, p) \<in> set ws. p \<noteq> [] \<and> off + length p \<le> length (content d)"
  shows "\<exists>d' dirty'. dev_writes ws (TxDev d bs dirty) = TxDev d' bs dirty' \<and>
    dev_ok (TxDev d' bs dirty') \<and> content d' = content d \<and>
    content (TxDev d' bs dirty') = fold (\<lambda>(off, p). copy_at off p) ws (content (TxDev d bs dirty))"
  using assms
proof (induction ws arbitrary: d dirty)
  case (Cons w ws)
  obtain off p where w: "w = (off, p)" by fastforce
  have p: "p \<noteq> []" "off + length p \<le> length (content d)" using Cons.prems(2) w by auto
  have ok: "dev_ok d" "tx_ok (unat bs) dirty (length (content d))" "sint bs = int (unat bs)"
    using Cons.prems(1) sint_bs [of bs] by auto
  obtain d1 dirty1 where s: "dev_WriteAt (TxDev d bs dirty) p (int off) = ((length p, None), TxDev d1 bs dirty1)"
      "dev_ok d1" "content d1 = content d" "tx_ok (unat bs) dirty1 (length (content d))"
      "tx_content (unat bs) dirty1 (content d) = copy_at off p (tx_content (unat bs) dirty (content d))"
    using dv.tx_wr_law [OF ok(1,2) p] ok(3) by auto
  show ?case
    using Cons.IH [of d1 dirty1] Cons.prems s by (auto simp: w)
qed auto

theorem partition_write_isolated_witness:
  "dev_ok (PartDev (FileDev (mem_file [1, 2, 3, 4, 5])) 1 3) \<and>
   dev_WriteAt (PartDev (FileDev (mem_file [1, 2, 3, 4, 5])) 1 3) [9, 9, 9, 9] 1 =
     ((2, None), PartDev (FileDev (mem_file [1, 2, 9, 9, 5])) 1 3) \<and>
   [1, 2, 9, 9, 5] ! 4 = (5::u8)"
  using partition_write_isolated [of "FileDev (mem_file [1, 2, 3, 4, 5])" 1 3 "[9, 9, 9, 9]" 1 "(2, None)"
    "PartDev (FileDev (mem_file [1, 2, 9, 9, 5])) 1 3"]
  by (simp add: mem_file_def file_ok_def PartitionReader_WriteAt_def file_WriteAt_def fwrite_at_def zeros_def)


context rw_device
begin

lemma safe_wr_law:
  assumes "ok d" and co: "coherent (content d) cache" and p: "p \<noteq> []" "off + length p \<le> length (content d)"
    and l: "f_data (l_f l) = []" "f_pos (l_f l) = 0" "f_badw (l_f l) = []"
  shows "\<exists>l1 d' cache'.
    appendEntry l (int off) (bslice off (off + length p) (content d)) = (None, l1) \<and>
    f_data (l_f l1) = entry_bytes (int off) (bslice off (off + length p) (content d)) \<and>
    SafeDevice_WriteAt rd wr p (int off) (d, l, cache) =
      ((length p, None), (d', removeLastEntry l1 (length p), cache')) \<and>
    ok d' \<and> content d' = copy_at off p (content d) \<and>
    f_data (l_f (removeLastEntry l1 (length p))) = [] \<and>
    lookupCache cache' (length p) (int off) = Some p"
proof -
  let ?old = "bslice off (off + length p) (content d)"
  define l1 where "l1 = snd (appendEntry l (int off) ?old)"
  have lo: "length ?old = length p" using p by simp
  have ap: "appendEntry l (int off) ?old = (None, l1)"
    "f_data (l_f l1) = entry_bytes (int off) ?old"
    using l appendEntry_good [of l "int off" ?old] by (simp_all add: l1_def)
  have rm: "f_data (l_f (removeLastEntry l1 (length p))) = []"
    using lo by (simp add: removeLastEntry_def ap(2) file_Truncate_def safeHdrSize_def Let_def zeros_def)
  have run: "\<exists>d'. wr d1 p (int off) = ((length p, None), d') \<and> ok d' \<and> content d' = copy_at off p (content d)"
    if "ok d1" "content d1 = content d" for d1
    using wr_law [OF that(1) p(1), of off] that p(2) by simp
  show ?thesis
  proof (cases "lookupCache cache (length p) (int off)")
    case (Some old)
    then have "old = ?old" by (rule coherent_lookup [OF co])
    with Some ap run [OF assms(1)] p(1) rm lo show ?thesis
      by (auto simp: SafeDevice_WriteAt_def Let_def lookup_after_update)
  next
    case None
    obtain d1 where "rd d (length p) (int off) = ((?old, None), d1)" "ok d1" "content d1 = content d"
      using rd_law [OF assms(1) _ p(2)] p(1) by auto
    with None ap run [of d1] p(1) rm lo show ?thesis
      by (auto simp: SafeDevice_WriteAt_def Let_def lookup_after_update)
  qed
qed

end

text \<open>The safe device logs the old bytes of a range before it writes it, ends with an
  empty log, and returns the written bytes when the range is read again.\<close>

theorem safe_write_logged:
  assumes "dev_ok d" and "coherent (content d) cache" and "p \<noteq> []"
    and "off + length p \<le> length (content d)"
    and "f_data (l_f l) = []" and "f_pos (l_f l) = 0" and "f_badw (l_f l) = []"
  shows "\<exists>l1 d' l' cache'.
    appendEntry l (int off) (bslice off (off + length p) (content d)) = (None, l1) \<and>
    f_data (l_f l1) = entry_bytes (int off) (bslice off (off + length p) (content d)) \<and>
    dev_WriteAt (SafeDev d l cache) p (int off) = ((length p, None), SafeDev d' l' cache') \<and>
    content d' = copy_at off p (content d) \<and> f_data (l_f l') = [] \<and>
    fst (dev_ReadAt (SafeDev d' l' cache') (length p) (int off)) = (p, None)"
  using dv.safe_wr_law [OF assms] by (fastforce simp: SafeDevice_ReadAt_def)


lemma put32_eval: "put32 w = [ucast w, ucast (drop_bit 8 w), ucast (drop_bit 16 w), ucast (drop_bit 24 w)]"
  by (simp add: put32_def numeral_eq_Suc drop_bit_drop_bit)

lemma put64_eval: "put64 w = [ucast w, ucast (drop_bit 8 w), ucast (drop_bit 16 w), ucast (drop_bit 24 w),
   ucast (drop_bit 32 w), ucast (drop_bit 40 w), ucast (drop_bit 48 w), ucast (drop_bit 56 w)]"
  by (simp add: put64_def numeral_eq_Suc drop_bit_drop_bit)

lemmas run_simps = mem_file_def empty_log_def SafeDevice_ReadAt_def SafeDevice_WriteAt_def
  file_ReadAt_def file_WriteAt_def file_Write_def file_Truncate_def fwrite_at_def appendEntry_def
  removeLastEntry_def updateCache_def covers_def safeHdrSize_def copy_at_def bslice_def zeros_def Let_def

text \<open>A read of a range that a later write overlapped without covering is answered
  from the stale cache entry: the bytes returned are not those of the device.\<close>

theorem safe_stale_read:
  "\<exists>d1 d2 d3.
     dev_ReadAt (SafeDev (FileDev (mem_file [1, 2, 3, 4])) empty_log []) 3 0 = (([1, 2, 3], None), d1) \<and>
     dev_WriteAt d1 [9, 9] 2 = ((2, None), d2) \<and> content d2 = [1, 2, 9, 9] \<and>
     dev_ReadAt d2 3 0 = (([1, 2, 3], None), d3)"
  by (simp add: run_simps put64_eval put32_eval u64i_def)


text \<open>A completed write leaves the log file's offset behind its truncated end, so the
  next entry is appended after a hole of zeros and is not found again: a second write that
  stops half way is not rolled back.\<close>

theorem safe_log_offset_lost:
  "\<exists>d1 l1 c1 l2 l3 d2.
     dev_WriteAt (SafeDev (FileDev (mem_file [1, 2, 3, 4, 5, 6, 7, 8])) empty_log []) [9, 9, 9, 9] 0 =
       ((4, None), SafeDev d1 l1 c1) \<and>
     content d1 = [9, 9, 9, 9, 5, 6, 7, 8] \<and>
     appendEntry l1 4 [5, 6, 7, 8] = (None, l2) \<and>
     NewSafeDevice dev_WriteAt l2 (FileDev (mem_file [9, 9, 9, 9, 7, 6, 7, 8])) = (Ok (l3, []), d2) \<and>
     content d2 = [9, 9, 9, 9, 7, 6, 7, 8]"
  by (simp add: run_simps put64_eval put32_eval u64i_def replicate_numeral
      NewSafeDevice_def readPending_def parse_pending.simps get64_def get32_def clearLog_def)

theorem aligned_transparent_witness:
  "dev_ok (AlignedDev (FileDev (mem_file [1, 2, 3, 4])) 2) \<and>
   content (snd (dev_WriteAt (AlignedDev (FileDev (mem_file [1, 2, 3, 4])) 2) [7, 8] 1)) = [1, 7, 8, 4]"
  using aligned_transparent [of "FileDev (mem_file [1, 2, 3, 4])" 2 2 1 "[7, 8]"]
  by (simp add: mem_file_def file_ok_def file_WriteAt_def fwrite_at_def zeros_def Let_def)

theorem tx_buffered_witness:
  "dev_ok (TxDev (FileDev (mem_file [1, 2, 3, 4])) 2 []) \<and>
   (\<exists>d' dirty'. dev_writes [(1, [7, 8])] (TxDev (FileDev (mem_file [1, 2, 3, 4])) 2 []) = TxDev d' 2 dirty' \<and>
     content d' = [1, 2, 3, 4] \<and> content (TxDev d' 2 dirty') = [1, 7, 8, 4])"
proof -
  have "dev_ok (TxDev (FileDev (mem_file [1, 2, 3, 4])) 2 [])"
    by (simp add: mem_file_def file_ok_def tx_ok_def)
  moreover have "copy_at 1 [7, 8] [1, 2, 3, 4] = [1, 7, 8, 4 :: u8]" by (simp add: copy_at_def)
  ultimately show ?thesis
    using tx_buffered [of "FileDev (mem_file [1, 2, 3, 4])" 2 "[]" "[(1, [7, 8])]"]
    by (auto simp: mem_file_def)
qed

theorem safe_write_logged_witness:
  "\<exists>d' l' cache'. dev_WriteAt (SafeDev (FileDev (mem_file [1, 2, 3, 4])) empty_log []) [7, 8] 1 =
     ((2, None), SafeDev d' l' cache') \<and> content d' = [1, 7, 8, 4] \<and>
     fst (dev_ReadAt (SafeDev d' l' cache') 2 1) = ([7, 8], None)"
proof -
  have c: "copy_at 1 [7, 8] [1, 2, 3, 4] = [1, 7, 8, 4 :: u8]" by (simp add: copy_at_def)
  have h: "dev_ok (FileDev (mem_file [1, 2, 3, 4]))" "f_data (l_f empty_log) = []"
      "f_pos (l_f empty_log) = 0" "f_badw (l_f empty_log) = []" "content (FileDev (mem_file b)) = b" for b
    by (simp_all add: mem_file_def empty_log_def file_ok_def)
  have co: "coherent (content (FileDev (mem_file [1, 2, 3, 4]))) []" by (simp add: coherent_def)
  from safe_write_logged [OF h(1) co _ _ h(2-4), of "[7, 8]" 1] show ?thesis
    unfolding h(5) c by (auto simp: numeral_2_eq_2)
qed


end
