(* ===== verification/Dev_IO.thy ===== *)
theory Dev_IO
  imports Device
begin

text \<open>
  The two idioms in which the program uses a \<open>ReadWriterAt\<close>:
  \<open>buf := make([]byte, n); if _, err := dev.ReadAt(buf, off); err != nil { return err }\<close> and
  \<open>if _, err := dev.WriteAt(buf, off); err != nil { return err }\<close>, as state-passing operations
  on the device. Both ignore the byte count: a short read without an error leaves the rest
  of the fresh buffer zero. A panic inside a wrapper unwinds.

  On a device that keeps the contract a read changes nothing, so the laws are equations and
  the file system proofs rewrite with them.
\<close>

definition io_err :: "goerr \<Rightarrow> 'a res" where
  "io_err e = (if e = slice_panic \<or> e = div_panic then Panic else Err e)"

definition readBuf :: "nat \<Rightarrow> int \<Rightarrow> (dev, bytes) op" where
  "readBuf n off d =
     (case dev_ReadAt d n off of ((b, err), d') \<Rightarrow>
        (case err of Some e \<Rightarrow> io_err e | None \<Rightarrow> Ok (b @ zeros (n - length b)), d'))"

definition writeBuf :: "bytes \<Rightarrow> int \<Rightarrow> (dev, unit) op" where
  "writeBuf p off d =
     (case dev_WriteAt d p off of ((_, err), d') \<Rightarrow>
        (case err of Some e \<Rightarrow> io_err e | None \<Rightarrow> Ok (), d'))"

text \<open>The device after an in-range write.\<close>

definition dev_put :: "dev \<Rightarrow> nat \<Rightarrow> bytes \<Rightarrow> dev" where
  "dev_put d off p = snd (dev_WriteAt d p (int off))"

lemma dev_ReadAt_same: "dev_ok d \<Longrightarrow> snd (dev_ReadAt d n off) = d"
proof (induction d arbitrary: n off)
  case (AlignedDev d ss)
  then have "snd (dev_ReadAt d n off) = d" for n off by simp
  then show ?case
    by (auto simp: AlignedReaderAt_ReadAt_def Let_def split: prod.splits if_splits) (metis snd_conv)+
next
  case (PartDev d st sz)
  then have "snd (dev_ReadAt d n off) = d" for n off by simp
  then show ?case
    by (auto simp: PartitionReader_ReadAt_def Let_def split: prod.splits if_splits) (metis snd_conv)+
next
  case (TxDev d bs dirty)
  then have "snd (dev_ReadAt d n off) = d" for n off by simp
  then show ?case
    by (auto simp: TxDevice_ReadAt_def Let_def split: prod.splits if_splits) (metis snd_conv)+
qed auto

lemma readBuf_ok [simp]:
  assumes "dev_ok d" and "0 < n" and "off + n \<le> length (content d)"
  shows "readBuf n (int off) d = (Ok (bslice off (off + n) (content d)), d)"
proof -
  obtain d' where "dev_ReadAt d n (int off) = ((bslice off (off + n) (content d), None), d')"
    using dv.rd_law [OF assms] by blast
  moreover from this have "d' = d" using dev_ReadAt_same [OF assms(1), of n "int off"] by simp
  ultimately show ?thesis using assms(3) by (simp add: readBuf_def zeros_def)
qed

lemma writeBuf_ok:
  assumes "dev_ok d" and "p \<noteq> []" and "off + length p \<le> length (content d)"
  shows writeBuf_put [simp]: "writeBuf p (int off) d = (Ok (), dev_put d off p)"
    and dev_put_ok [simp]: "dev_ok (dev_put d off p)"
    and content_dev_put [simp]: "content (dev_put d off p) = copy_at off p (content d)"
proof -
  obtain d' where "dev_WriteAt d p (int off) = ((length p, None), d')" "dev_ok d'"
      "content d' = copy_at off p (content d)"
    using dv.wr_law [OF assms] by blast
  then show "writeBuf p (int off) d = (Ok (), dev_put d off p)" "dev_ok (dev_put d off p)"
    "content (dev_put d off p) = copy_at off p (content d)"
    by (simp_all add: writeBuf_def dev_put_def)
qed

text \<open>A read never returns more than the buffer holds, whatever the device.\<close>

lemma length_overlay_block: "length (tx_overlay_block bs off blk p) = length p"
  by (auto simp: tx_overlay_block_def Let_def maxVal_def minVal_def split: prod.splits)

lemma length_tx_overlays: "length (fold (tx_overlay_block bs off) dirty p) = length p"
  by (induction dirty arbitrary: p) (simp_all add: length_overlay_block)

lemma lookupCache_length: "lookupCache cache n off = Some p \<Longrightarrow> length p \<le> n"
  by (induction cache) (auto simp: bslice_def split: if_splits)

lemma dev_ReadAt_length: "length (fst (fst (dev_ReadAt d n off))) \<le> n"
proof (induction d arbitrary: n off)
  case (FileDev f)
  show ?case
    using good_len_le [of "f_badr f" "nat off" "min n (length (f_data f) - nat off)"]
    by (simp add: file_ReadAt_def Let_def bslice_def)
next
  case (AlignedDev d ss)
  obtain tmp err d' where r: "dev_ReadAt d (nat (align_up ss (off + int n) - align_down ss off))
      (align_down ss off) = ((tmp, err), d')"
    by (metis prod.exhaust)
  have "nat (k + min u (int n)) - nat k \<le> n" for k u by linarith
  then have "length (bslice (nat k) (nat (k + min u (int n))) tmp) \<le> n" for k u
    by (metis bslice_def length_take min.coboundedI2)
  with AlignedDev [of n off] show ?case
    unfolding dev_ReadAt.simps AlignedReaderAt_ReadAt_def Let_def r prod.case
    by (auto split: prod.split)
next
  case (PartDev d st sz)
  define k where "k = (if int n > sz - off then nat (sz - off) else n)"
  have "length (fst (fst (dev_ReadAt d k (i64 (st + off))))) \<le> k" by (rule PartDev.IH)
  moreover have "k \<le> n" by (auto simp: k_def)
  ultimately show ?case
    by (auto simp: PartitionReader_ReadAt_def Let_def k_def split: prod.splits)
next
  case (SafeDev d l cache)
  have "length (fst (fst (dev_ReadAt d n off))) \<le> n" by (rule SafeDev.IH)
  then show ?case
    by (auto simp: SafeDevice_ReadAt_def dest: lookupCache_length split: prod.splits option.splits)
next
  case (TxDev d bs dirty)
  have "length (fst (fst (dev_ReadAt d n off))) \<le> n" by (rule TxDev.IH)
  then show ?case
    by (auto simp: TxDevice_ReadAt_def length_tx_overlays split: prod.splits)
qed

lemma readBuf_length: "readBuf n off d = (Ok b, d') \<Longrightarrow> length b = n"
  using dev_ReadAt_length [of d n off]
  by (auto simp: readBuf_def io_err_def split: prod.splits option.splits if_splits)

end
