(* ===== verification/Struct_Codec.thy ===== *)
theory Struct_Codec
  imports Go_Prelude
begin

text \<open>
  The contract of a fixed-size on-disk struct. \<open>binary.Write\<close> emits the fields in
  declaration order, little-endian; \<open>binary.Read\<close> needs exactly \<open>sz\<close> bytes from its
  reader and fails on fewer (\<open>io.ErrUnexpectedEOF\<close>). Every struct the program stores
  (partition entries, superblock, group descriptor, inode, extent nodes) interprets the
  locale \<open>codec\<close> in its own theory, and the table lemmas below are proved once here.
\<close>

text \<open>Arrays of 32-bit integers inside a struct.\<close>

definition put32s :: "u32 list \<Rightarrow> bytes" where
  "put32s ws = concat (map put32 ws)"

definition get32s :: "nat \<Rightarrow> nat \<Rightarrow> bytes \<Rightarrow> u32 list" where
  "get32s off n b = map (\<lambda>i. get32 (off + 4 * i) b) [0..<n]"

lemma length_put32s [bytes_simps]: "length (put32s ws) = 4 * length ws"
  by (induction ws) (simp_all add: put32s_def)

lemma get32s_skip [bytes_simps]: "length a \<le> i \<Longrightarrow> get32s i n (a @ b) = get32s (i - length a) n b"
  unfolding get32s_def by (rule map_cong [OF refl]) (simp add: get_skip)

lemma get32s_Cons [bytes_simps]: "0 < i \<Longrightarrow> get32s i n (a # b) = get32s (i - 1) n b"
  using get32s_skip [of "[a]" i n b] by simp

lemma get32s_hit [bytes_simps]: "length ws = n \<Longrightarrow> get32s 0 n (put32s ws @ r) = ws"
proof (induction ws arbitrary: n)
  case (Cons w ws)
  then show ?case
    by (auto simp: get32s_def put32s_def upt_conv_Cons get_hit get_skip comp_def simp del: upt_Suc
        simp flip: map_Suc_upt)
qed (simp add: get32s_def put32s_def)

lemma put32s_get32s [bytes_simps]: "i + 4 * n \<le> length b \<Longrightarrow> put32s (get32s i n b) = bslice i (i + 4 * n) b"
proof (induction n)
  case (Suc n)
  then show ?case
    by (simp add: put32s_def get32s_def put_get slice_join add.commute add.left_commute)
qed (simp add: put32s_def get32s_def bslice_def)

definition binary_Read :: "nat \<Rightarrow> (bytes \<Rightarrow> 'a) \<Rightarrow> bytes \<Rightarrow> 'a res" where
  "binary_Read sz dec buf =
     (if length buf < sz then Err (Errorf ''unexpected EOF'') else Ok (dec buf))"

locale codec =
  fixes enc :: "'a \<Rightarrow> bytes"
    and dec :: "bytes \<Rightarrow> 'a"
    and sz :: nat
    and wf :: "'a \<Rightarrow> bool"
  assumes enc_len: "wf x \<Longrightarrow> length (enc x) = sz"
    and dec_enc: "wf x \<Longrightarrow> dec (enc x @ r) = x"
    and dec_wf: "sz \<le> length bs \<Longrightarrow> wf (dec bs)"
    and enc_dec: "sz \<le> length bs \<Longrightarrow> enc (dec bs) = take sz bs"
    and sz_pos: "0 < sz"
begin

lemma dec_enc_all: "wf x \<Longrightarrow> dec (enc x) = x"
  using dec_enc [of x "[]"] by simp

lemma dec_take: "sz \<le> length bs \<Longrightarrow> dec (take sz bs) = dec bs"
  using enc_dec [of bs] dec_enc_all [of "dec bs"] dec_wf [of bs] by simp

lemma dec_take_ge: "sz \<le> n \<Longrightarrow> sz \<le> length bs \<Longrightarrow> dec (take n bs) = dec bs"
  using dec_take [of bs] dec_take [of "take n bs"] by (simp add: min_def)

lemma dec_append: "sz \<le> length bs \<Longrightarrow> dec (bs @ r) = dec bs"
  using dec_take [of "bs @ r"] dec_take [of bs] by simp

lemma enc_inj: "wf x \<Longrightarrow> wf y \<Longrightarrow> enc x = enc y \<Longrightarrow> x = y"
  using dec_enc_all by metis

lemma binary_Read_enc: "wf x \<Longrightarrow> binary_Read sz dec (enc x @ r) = Ok x"
  by (simp add: binary_Read_def enc_len dec_enc)

lemma binary_Read_short: "length buf < sz \<Longrightarrow> binary_Read sz dec buf = Err (Errorf ''unexpected EOF'')"
  by (simp add: binary_Read_def)

lemma binary_Read_ok: "sz \<le> length buf \<Longrightarrow> binary_Read sz dec buf = Ok (dec buf)"
  by (simp add: binary_Read_def)

lemma dec_copy_at:
  "wf x \<Longrightarrow> off + sz \<le> length b \<Longrightarrow> dec (drop off (copy_at off (enc x) b)) = x"
  by (simp add: copy_at_def enc_len dec_enc)

lemma dec_copy_at_other:
  assumes "wf x" and "off + sz \<le> length b" and "i + sz \<le> length b" and "i + sz \<le> off \<or> off + sz \<le> i"
  shows "dec (drop i (copy_at off (enc x) b)) = dec (drop i b)"
proof -
  have "take sz (drop i (copy_at off (enc x) b)) = take sz (drop i b)"
    using slice_copy_at_other [of off "enc x" b "i + sz" i] assms
    by (simp add: bslice_def enc_len)
  then show ?thesis
    using dec_take [of "drop i (copy_at off (enc x) b)"] dec_take [of "drop i b"] assms
    by (simp add: enc_len)
qed

lemma length_table: "\<forall>x\<in>set xs. wf x \<Longrightarrow> length (concat (map enc xs)) = length xs * sz"
  by (induction xs) (auto simp: enc_len)

lemma dec_table_nth:
  "\<forall>x\<in>set xs. wf x \<Longrightarrow> i < length xs \<Longrightarrow> dec (drop (i * sz) (concat (map enc xs) @ r)) = xs ! i"
proof (induction xs arbitrary: i)
  case (Cons x xs)
  then show ?case
    by (cases i) (auto simp: enc_len dec_enc)
qed simp

lemma dec_table:
  "\<forall>x\<in>set xs. wf x \<Longrightarrow> map (\<lambda>i. dec (drop (i * sz) (concat (map enc xs) @ r))) [0..<length xs] = xs"
  by (rule nth_equalityI) (auto simp: dec_table_nth simp del: drop_append)

end

end
