(* ===== verification/Partitions.thy ===== *)
theory Partitions
  imports Dev_IO Struct_Codec
begin

text \<open>
  \<open>block/device.go\<close>, \<open>block/mbr.go\<close>, \<open>block/gpt.go\<close>: the partition table readers. The three
  on-disk structs interpret \<open>codec\<close> (their encoders describe the layout and are used to
  state what a disk holds). \<open>parseMBR\<close>, \<open>parseGPT\<close> and \<open>ProbePartitions\<close> are operations on the
  disk. A partition name is its list of Unicode code points.
\<close>

section \<open>Types\<close>

datatype PartitionScheme = SchemeUnknown | SchemeGPT | SchemeMBR

datatype PartitionType =
    TypeUnknown | TypeLinuxData | TypeLinuxSwap | TypeLinuxLVM | TypeEFISystem
  | TypeMicrosoftData | TypeBIOSBoot

primrec PartitionScheme_String :: "PartitionScheme \<Rightarrow> string" where
  "PartitionScheme_String SchemeGPT = ''GPT''"
| "PartitionScheme_String SchemeMBR = ''MBR''"
| "PartitionScheme_String SchemeUnknown = ''Unknown''"

primrec PartitionType_String :: "PartitionType \<Rightarrow> string" where
  "PartitionType_String TypeLinuxData = ''Linux filesystem''"
| "PartitionType_String TypeLinuxSwap = ''Linux swap''"
| "PartitionType_String TypeLinuxLVM = ''Linux LVM''"
| "PartitionType_String TypeEFISystem = ''EFI System''"
| "PartitionType_String TypeMicrosoftData = ''Microsoft basic data''"
| "PartitionType_String TypeBIOSBoot = ''BIOS boot''"
| "PartitionType_String TypeUnknown = ''Unknown''"

definition DefaultSectorSize :: u64 where
  "DefaultSectorSize = 512"

record Partition =
  p_Number :: nat
  p_Type :: PartitionType
  p_Name :: "nat list"
  p_Scheme :: PartitionScheme
  p_StartLBA :: u64
  p_EndLBA :: u64
  p_SectorSize :: u64
  p_RawTypeGUID :: bytes
  p_RawTypeByte :: u8

definition StartOffset :: "Partition \<Rightarrow> int" where
  "StartOffset p = sint (p_StartLBA p * p_SectorSize p)"

definition ByteSize :: "Partition \<Rightarrow> int" where
  "ByteSize p = sint ((p_EndLBA p - p_StartLBA p + 1) * p_SectorSize p)"

text \<open>A sector size that is not a power of two leaves the disk unwrapped.\<close>

definition NewPartitionReader :: "dev \<Rightarrow> Partition \<Rightarrow> dev" where
  "NewPartitionReader disk p =
     (let sectorSize = (if sint (p_SectorSize p) = 0 then sint DefaultSectorSize else sint (p_SectorSize p))
      in if NewAlignedReaderAt_ok sectorSize
         then PartDev (AlignedDev disk sectorSize) (StartOffset p) (ByteSize p)
         else PartDev disk (StartOffset p) (ByteSize p))"

section \<open>MBR\<close>

record mbrEntry =
  mbr_Status :: u8
  mbr_CHSFirst :: bytes
  mbr_Type :: u8
  mbr_CHSLast :: bytes
  mbr_StartLBA :: u32
  mbr_SectorCount :: u32

definition mbrEntry_bytes :: "mbrEntry \<Rightarrow> bytes" where
  "mbrEntry_bytes e = [mbr_Status e] @ mbr_CHSFirst e @ [mbr_Type e] @ mbr_CHSLast e @
     put32 (mbr_StartLBA e) @ put32 (mbr_SectorCount e)"

definition mbrEntry_decode :: "bytes \<Rightarrow> mbrEntry" where
  "mbrEntry_decode b = \<lparr>mbr_Status = b ! 0, mbr_CHSFirst = bslice 1 4 b, mbr_Type = b ! 4,
     mbr_CHSLast = bslice 5 8 b, mbr_StartLBA = get32 8 b, mbr_SectorCount = get32 12 b\<rparr>"

definition mbrEntry_wf :: "mbrEntry \<Rightarrow> bool" where
  "mbrEntry_wf e \<longleftrightarrow> length (mbr_CHSFirst e) = 3 \<and> length (mbr_CHSLast e) = 3"

definition mbrTableOffset :: nat where "mbrTableOffset = 0x1BE"
definition mbrSignatureOffset :: nat where "mbrSignatureOffset = 0x1FE"
definition mbrSignature :: bytes where "mbrSignature = [0x55, 0xAA]"
definition mbrTypeEmpty :: u8 where "mbrTypeEmpty = 0x00"
definition mbrTypeLinux :: u8 where "mbrTypeLinux = 0x83"
definition mbrTypeLinuxSwap :: u8 where "mbrTypeLinuxSwap = 0x82"
definition mbrTypeLinuxLVM :: u8 where "mbrTypeLinuxLVM = 0x8E"
definition mbrTypeEFI :: u8 where "mbrTypeEFI = 0xEF"
definition mbrTypeGPTProtective :: u8 where "mbrTypeGPTProtective = 0xEE"
definition mbrTypeExtended :: u8 where "mbrTypeExtended = 0x05"
definition mbrTypeExtendedLBA :: u8 where "mbrTypeExtendedLBA = 0x0F"
definition mbrTypeFAT32LBA :: u8 where "mbrTypeFAT32LBA = 0x0C"
definition mbrTypeNTFS :: u8 where "mbrTypeNTFS = 0x07"

lemmas mbr_consts = mbrTableOffset_def mbrSignatureOffset_def mbrSignature_def mbrTypeEmpty_def
  mbrTypeLinux_def mbrTypeLinuxSwap_def mbrTypeLinuxLVM_def mbrTypeEFI_def mbrTypeGPTProtective_def
  mbrTypeExtended_def mbrTypeExtendedLBA_def mbrTypeFAT32LBA_def mbrTypeNTFS_def

definition classifyMBRType :: "u8 \<Rightarrow> PartitionType" where
  "classifyMBRType t =
     (if t = mbrTypeLinux then TypeLinuxData
      else if t = mbrTypeLinuxSwap then TypeLinuxSwap
      else if t = mbrTypeLinuxLVM then TypeLinuxLVM
      else if t = mbrTypeEFI then TypeEFISystem
      else if t = mbrTypeFAT32LBA \<or> t = mbrTypeNTFS then TypeMicrosoftData
      else TypeUnknown)"

text \<open>\<open>fmt.Sprintf("Partition %d", n)\<close> for the one-digit slot numbers.\<close>

definition mbr_name :: "nat \<Rightarrow> nat list" where
  "mbr_name n = map of_char ''Partition '' @ [48 + n]"

definition mbr_partition :: "nat \<Rightarrow> mbrEntry \<Rightarrow> Partition" where
  "mbr_partition i e =
     \<lparr>p_Number = i + 1, p_Type = classifyMBRType (mbr_Type e), p_Name = mbr_name (i + 1),
      p_Scheme = SchemeMBR, p_StartLBA = ucast (mbr_StartLBA e),
      p_EndLBA = ucast (mbr_StartLBA e) + ucast (mbr_SectorCount e) - 1,
      p_SectorSize = DefaultSectorSize, p_RawTypeGUID = zeros 16, p_RawTypeByte = mbr_Type e\<rparr>"

text \<open>The loop over the four slots, with the partitions found so far and the flag for a
  protective entry.\<close>

fun mbr_loop :: "bytes \<Rightarrow> nat list \<Rightarrow> Partition list \<Rightarrow> bool \<Rightarrow> (Partition list \<times> bool) res" where
  "mbr_loop sector [] partitions hasGPTProtective = Ok (partitions, hasGPTProtective)"
| "mbr_loop sector (i # is) partitions hasGPTProtective =
     (let offset = mbrTableOffset + i * 16
      in bindR (goslice offset (offset + 16) sector) (\<lambda>buf.
         bindR (wrapR ''mbr: failed to decode entry'' (binary_Read 16 mbrEntry_decode buf)) (\<lambda>e.
           if mbr_Type e = mbrTypeEmpty \<or> mbr_SectorCount e = 0
           then mbr_loop sector is partitions hasGPTProtective
           else if mbr_Type e = mbrTypeGPTProtective then mbr_loop sector is partitions True
           else if mbr_Type e = mbrTypeExtended \<or> mbr_Type e = mbrTypeExtendedLBA
           then mbr_loop sector is partitions hasGPTProtective
           else mbr_loop sector is (partitions @ [mbr_partition i e]) hasGPTProtective)))"

definition parseMBR :: "(dev, Partition list) op" where
  "parseMBR =
     andThen (wrapErr ''mbr: failed to read first sector'' (readBuf 512 0)) (\<lambda>sector.
       if [sector ! mbrSignatureOffset, sector ! (mbrSignatureOffset + 1)] \<noteq> mbrSignature
       then failw (Errorf ''mbr: invalid boot signature (expected 0x55AA)'')
       else andThen (liftR (mbr_loop sector [0..<4] [] False)) (\<lambda>(partitions, hasGPTProtective).
         if partitions = [] \<and> hasGPTProtective
         then failw (Errorf ''mbr: disk has GPT protective MBR; GPT header may be corrupt'')
         else ret partitions))"

section \<open>GPT\<close>

definition gptHeaderOffset :: int where "gptHeaderOffset = 512"
definition gptSignature :: bytes where
  "gptSignature = [0x45, 0x46, 0x49, 0x20, 0x50, 0x41, 0x52, 0x54]"

record gptHeader =
  gpt_Signature :: bytes
  gpt_Revision :: u32
  gpt_HeaderSize :: u32
  gpt_HeaderCRC32 :: u32
  gpt_Reserved :: u32
  gpt_MyLBA :: u64
  gpt_AlternateLBA :: u64
  gpt_FirstUsableLBA :: u64
  gpt_LastUsableLBA :: u64
  gpt_DiskGUID :: bytes
  gpt_PartitionEntryLBA :: u64
  gpt_NumPartitionEntries :: u32
  gpt_PartitionEntrySize :: u32
  gpt_PartitionArrayCRC32 :: u32

record gptEntry =
  ge_TypeGUID :: bytes
  ge_UniqueGUID :: bytes
  ge_StartLBA :: u64
  ge_EndLBA :: u64
  ge_Attributes :: u64
  ge_Name :: bytes

definition gptHeader_bytes :: "gptHeader \<Rightarrow> bytes" where
  "gptHeader_bytes h = gpt_Signature h @ put32 (gpt_Revision h) @ put32 (gpt_HeaderSize h) @
     put32 (gpt_HeaderCRC32 h) @ put32 (gpt_Reserved h) @ put64 (gpt_MyLBA h) @
     put64 (gpt_AlternateLBA h) @ put64 (gpt_FirstUsableLBA h) @ put64 (gpt_LastUsableLBA h) @
     gpt_DiskGUID h @ put64 (gpt_PartitionEntryLBA h) @ put32 (gpt_NumPartitionEntries h) @
     put32 (gpt_PartitionEntrySize h) @ put32 (gpt_PartitionArrayCRC32 h)"

definition gptHeader_decode :: "bytes \<Rightarrow> gptHeader" where
  "gptHeader_decode b = \<lparr>gpt_Signature = bslice 0 8 b, gpt_Revision = get32 8 b,
     gpt_HeaderSize = get32 12 b, gpt_HeaderCRC32 = get32 16 b, gpt_Reserved = get32 20 b,
     gpt_MyLBA = get64 24 b, gpt_AlternateLBA = get64 32 b, gpt_FirstUsableLBA = get64 40 b,
     gpt_LastUsableLBA = get64 48 b, gpt_DiskGUID = bslice 56 72 b,
     gpt_PartitionEntryLBA = get64 72 b, gpt_NumPartitionEntries = get32 80 b,
     gpt_PartitionEntrySize = get32 84 b, gpt_PartitionArrayCRC32 = get32 88 b\<rparr>"

definition gptHeader_wf :: "gptHeader \<Rightarrow> bool" where
  "gptHeader_wf h \<longleftrightarrow> length (gpt_Signature h) = 8 \<and> length (gpt_DiskGUID h) = 16"

definition gptEntry_bytes :: "gptEntry \<Rightarrow> bytes" where
  "gptEntry_bytes e = ge_TypeGUID e @ ge_UniqueGUID e @ put64 (ge_StartLBA e) @ put64 (ge_EndLBA e) @
     put64 (ge_Attributes e) @ ge_Name e"

definition gptEntry_decode :: "bytes \<Rightarrow> gptEntry" where
  "gptEntry_decode b = \<lparr>ge_TypeGUID = bslice 0 16 b, ge_UniqueGUID = bslice 16 32 b,
     ge_StartLBA = get64 32 b, ge_EndLBA = get64 40 b, ge_Attributes = get64 48 b,
     ge_Name = bslice 56 128 b\<rparr>"

definition gptEntry_wf :: "gptEntry \<Rightarrow> bool" where
  "gptEntry_wf e \<longleftrightarrow> length (ge_TypeGUID e) = 16 \<and> length (ge_UniqueGUID e) = 16 \<and> length (ge_Name e) = 72"

definition gptTypeLinuxData :: bytes where
  "gptTypeLinuxData = [0xAF, 0x3D, 0xC6, 0x0F, 0x83, 0x84, 0x72, 0x47,
     0x8E, 0x79, 0x3D, 0x69, 0xD8, 0x47, 0x7D, 0xE4]"
definition gptTypeLinuxSwap :: bytes where
  "gptTypeLinuxSwap = [0x6D, 0xFD, 0x57, 0x06, 0xAB, 0xA4, 0xC4, 0x43,
     0x84, 0xE5, 0x09, 0x33, 0xC8, 0x4B, 0x4F, 0x4F]"
definition gptTypeLinuxLVM :: bytes where
  "gptTypeLinuxLVM = [0x79, 0xD3, 0xD6, 0xE6, 0x07, 0xF5, 0xC2, 0x44,
     0xA2, 0x3C, 0x23, 0x8F, 0x2A, 0x3D, 0xF9, 0x28]"
definition gptTypeEFI :: bytes where
  "gptTypeEFI = [0x28, 0x73, 0x2A, 0xC1, 0x1F, 0xF8, 0xD2, 0x11,
     0xBA, 0x4B, 0x00, 0xA0, 0xC9, 0x3E, 0xC9, 0x3B]"
definition gptTypeMicrosoftData :: bytes where
  "gptTypeMicrosoftData = [0xA2, 0xA0, 0xD0, 0xEB, 0xE5, 0xB9, 0x33, 0x44,
     0x87, 0xC0, 0x68, 0xB6, 0xB7, 0x26, 0x99, 0xC7]"
definition gptTypeBIOSBoot :: bytes where
  "gptTypeBIOSBoot = [0x48, 0x61, 0x68, 0x21, 0x49, 0x64, 0x6F, 0x6E,
     0x74, 0x4E, 0x65, 0x65, 0x64, 0x45, 0x46, 0x49]"
definition gptTypeUnused :: bytes where
  "gptTypeUnused = zeros 16"

definition classifyGPTType :: "bytes \<Rightarrow> PartitionType" where
  "classifyGPTType guid =
     (if guid = gptTypeLinuxData then TypeLinuxData
      else if guid = gptTypeLinuxSwap then TypeLinuxSwap
      else if guid = gptTypeLinuxLVM then TypeLinuxLVM
      else if guid = gptTypeEFI then TypeEFISystem
      else if guid = gptTypeMicrosoftData then TypeMicrosoftData
      else if guid = gptTypeBIOSBoot then TypeBIOSBoot
      else TypeUnknown)"

text \<open>\<open>unicode/utf16.Decode\<close>: surrogate pairs are joined, a lone surrogate becomes U+FFFD.\<close>

definition is_surr :: "u16 \<Rightarrow> bool" where
  "is_surr r \<longleftrightarrow> 0xD800 \<le> r \<and> r < 0xE000"

fun utf16_Decode :: "u16 list \<Rightarrow> nat list" where
  "utf16_Decode [] = []"
| "utf16_Decode [r] = [if is_surr r then 0xFFFD else unat r]"
| "utf16_Decode (r # r2 # s) =
     (if \<not> is_surr r then unat r # utf16_Decode (r2 # s)
      else if r < 0xDC00 \<and> 0xDC00 \<le> r2 \<and> r2 < 0xE000
      then ((unat r - 0xD800) * 1024 + (unat r2 - 0xDC00) + 0x10000) # utf16_Decode s
      else 0xFFFD # utf16_Decode (r2 # s))"

definition decodeGPTName :: "bytes \<Rightarrow> nat list" where
  "decodeGPTName raw =
     (let u16s = map (\<lambda>i. get16 (i * 2) raw) [0..<length raw div 2]
      in utf16_Decode (takeWhile (\<lambda>c. c \<noteq> 0) u16s))"

definition gpt_partition :: "nat \<Rightarrow> gptEntry \<Rightarrow> Partition" where
  "gpt_partition i e =
     \<lparr>p_Number = i + 1, p_Type = classifyGPTType (ge_TypeGUID e), p_Name = decodeGPTName (ge_Name e),
      p_Scheme = SchemeGPT, p_StartLBA = ge_StartLBA e, p_EndLBA = ge_EndLBA e,
      p_SectorSize = DefaultSectorSize, p_RawTypeGUID = ge_TypeGUID e, p_RawTypeByte = 0\<rparr>"

text \<open>The loop over the entries. \<open>entryBuf[:128]\<close> re-slices up to the capacity of the array
  buffer, so it only panics where fewer than 128 bytes of the whole array are left.\<close>

fun gpt_loop :: "bytes \<Rightarrow> nat \<Rightarrow> nat list \<Rightarrow> Partition list res" where
  "gpt_loop arrayBuf entrySize [] = Ok []"
| "gpt_loop arrayBuf entrySize (i # is) =
     bindR (goslice (i * entrySize) (i * entrySize + entrySize) arrayBuf) (\<lambda>_.
     bindR (goslice (i * entrySize) (i * entrySize + 128) arrayBuf) (\<lambda>entryBuf.
     bindR (wrapR ''gpt: failed to decode entry'' (binary_Read 128 gptEntry_decode entryBuf)) (\<lambda>e.
     bindR (gpt_loop arrayBuf entrySize is) (\<lambda>rest.
       Ok (if ge_TypeGUID e = gptTypeUnused then rest else gpt_partition i e # rest)))))"

definition parseGPT :: "(dev, Partition list) op" where
  "parseGPT =
     andThen (wrapErr ''gpt: failed to read header'' (readBuf 512 gptHeaderOffset)) (\<lambda>hdrBuf.
     andThen (liftR (wrapR ''gpt: failed to decode header'' (binary_Read 92 gptHeader_decode hdrBuf))) (\<lambda>hdr.
       if gpt_Signature hdr \<noteq> gptSignature
       then failw (Errorf ''gpt: invalid signature (not a GPT disk)'')
       else
         let arrayOffset = i64 (sint (gpt_PartitionEntryLBA hdr) * sint DefaultSectorSize);
             entrySize = unat (gpt_PartitionEntrySize hdr);
             totalArrayBytes = i64 (int (unat (gpt_NumPartitionEntries hdr)) * int entrySize)
         in if totalArrayBytes < 0 then panic
            else andThen (wrapErr ''gpt: failed to read partition array''
                   (readBuf (nat totalArrayBytes) arrayOffset)) (\<lambda>arrayBuf.
                 liftR (gpt_loop arrayBuf entrySize [0..<unat (gpt_NumPartitionEntries hdr)]))))"

text \<open>GPT first, then MBR; the errors of the two parsers are dropped.\<close>

definition ProbePartitions :: "(dev, PartitionScheme \<times> Partition list) op" where
  "ProbePartitions =
     andThen (attempt parseGPT) (\<lambda>gpt.
       case gpt of Some parts \<Rightarrow> ret (SchemeGPT, parts)
       | None \<Rightarrow>
           andThen (attempt parseMBR) (\<lambda>mbr.
             case mbr of Some parts \<Rightarrow> ret (SchemeMBR, parts)
             | None \<Rightarrow> failw (Errorf ''disk: no recognisable partition table (tried GPT and MBR)'')))"

section \<open>The layouts\<close>

interpretation mbrEntry: codec mbrEntry_bytes mbrEntry_decode 16 mbrEntry_wf
proof unfold_locales
  fix bs :: bytes assume "16 \<le> length bs"
  moreover from this have "bs \<noteq> []" by auto
  ultimately show "mbrEntry_bytes (mbrEntry_decode bs) = take 16 bs"
    by (simp add: mbrEntry_bytes_def mbrEntry_decode_def bytes_simps flip: slice_from_0 append_Cons)
qed (auto simp: mbrEntry_bytes_def mbrEntry_decode_def mbrEntry_wf_def bytes_simps)

interpretation gptHeader: codec gptHeader_bytes gptHeader_decode 92 gptHeader_wf
  by unfold_locales
    (auto simp: gptHeader_bytes_def gptHeader_decode_def gptHeader_wf_def bytes_simps simp flip: slice_from_0)

interpretation gptEntry: codec gptEntry_bytes gptEntry_decode 128 gptEntry_wf
  by unfold_locales
    (auto simp: gptEntry_bytes_def gptEntry_decode_def gptEntry_wf_def bytes_simps simp flip: slice_from_0)

section \<open>MBR listing\<close>

definition mbr_listed :: "mbrEntry \<Rightarrow> bool" where
  "mbr_listed e \<longleftrightarrow> mbr_SectorCount e \<noteq> 0 \<and>
     mbr_Type e \<notin> {mbrTypeEmpty, mbrTypeGPTProtective, mbrTypeExtended, mbrTypeExtendedLBA}"

definition mbr_protective :: "mbrEntry \<Rightarrow> bool" where
  "mbr_protective e \<longleftrightarrow> mbr_SectorCount e \<noteq> 0 \<and> mbr_Type e = mbrTypeGPTProtective"

lemma mbr_loop_eq:
  assumes "length sector = 512" and "\<forall>i \<in> set is. i < 4"
  shows "mbr_loop sector is ps g =
    (let ent = (\<lambda>i. mbrEntry_decode (drop (446 + i * 16) sector))
     in Ok (ps @ [mbr_partition i (ent i). i \<leftarrow> is, mbr_listed (ent i)],
            g \<or> (\<exists>i \<in> set is. mbr_protective (ent i))))"
  using assms(2)
proof (induction "is" arbitrary: ps g)
  case (Cons i "is")
  have "bslice (446 + i * 16) (446 + i * 16 + 16) sector = take 16 (drop (446 + i * 16) sector)"
    by (simp add: bslice_def)
  moreover have "mbrEntry_decode (take 16 (drop (446 + i * 16) sector)) =
      mbrEntry_decode (drop (446 + i * 16) sector)"
    using Cons.prems assms(1) by (intro mbrEntry.dec_take) auto
  ultimately have "binary_Read 16 mbrEntry_decode (bslice (446 + i * 16) (446 + i * 16 + 16) sector) =
      Ok (mbrEntry_decode (drop (446 + i * 16) sector))"
    using Cons.prems assms(1) by (auto simp: binary_Read_def min_def)
  moreover have "mbrTypeGPTProtective \<noteq> mbrTypeEmpty" "mbrTypeGPTProtective \<noteq> mbrTypeExtended"
      "mbrTypeGPTProtective \<noteq> mbrTypeExtendedLBA"
    by (simp_all add: mbr_consts)
  ultimately show ?case
    using Cons assms(1) by (auto simp: goslice_def mbrTableOffset_def Let_def mbr_listed_def mbr_protective_def)
qed simp

lemma sector_entry:
  assumes "\<forall>e \<in> set es. mbrEntry_wf e" and "bslice 446 510 sector = concat (map mbrEntry_bytes es)"
    and "i < length es" and "510 \<le> length sector"
  shows "mbrEntry_decode (drop (446 + i * 16) sector) = es ! i"
proof -
  have len: "length es = 4"
    using arg_cong [OF assms(2), of length] mbrEntry.length_table [OF assms(1)] assms(4) by simp
  have "drop 446 sector = concat (map mbrEntry_bytes es) @ drop 510 sector"
    unfolding assms(2) [symmetric] using append_take_drop_id [of 64 "drop 446 sector"]
    by (simp add: bslice_def)
  then show ?thesis
    using mbrEntry.dec_table_nth [OF assms(1,3), of "drop 510 sector"]
    by (metis add.commute drop_drop)
qed

text \<open>Reading the table of an MBR disk returns one partition for every slot that holds a
  usable primary entry, in slot order and numbered by slot; a table with only a GPT
  protective entry is an error. The disk is not changed.\<close>

theorem parseMBR_table:
  assumes "dev_ok d" and "512 \<le> length (content d)" and "bslice 510 512 (content d) = mbrSignature"
    and "\<forall>e \<in> set es. mbrEntry_wf e" and "length es = 4"
    and "bslice 446 510 (content d) = concat (map mbrEntry_bytes es)"
  shows "parseMBR d =
    (let parts = [mbr_partition i (es ! i). i \<leftarrow> [0..<4], mbr_listed (es ! i)]
     in if parts = [] \<and> (\<exists>e \<in> set es. mbr_protective e)
        then Err (Errorf ''mbr: disk has GPT protective MBR; GPT header may be corrupt'')
        else Ok parts, d)"
proof -
  let ?s = "bslice 0 512 (content d)"
  have rd: "readBuf 512 0 d = (Ok ?s, d)" using readBuf_ok [OF assms(1), of 512 0] assms(2) by simp
  have len: "length ?s = 512" using assms(2) by simp
  have sig: "[?s ! mbrSignatureOffset, ?s ! (mbrSignatureOffset + 1)] = mbrSignature"
    using assms(2,3) by (simp add: mbr_consts bslice_def take_Suc_conv_app_nth numeral_2_eq_2 hd_drop_conv_nth take_Suc drop_Suc nth_tl)
  have tab: "bslice 446 510 ?s = concat (map mbrEntry_bytes es)"
    using assms(2,6) by (simp add: bslice_def drop_take)
  have ent: "mbrEntry_decode (drop (446 + i * 16) ?s) = es ! i" if "i < 4" for i
    using sector_entry [OF assms(4) tab, of i] that assms(5) len by simp
  have loop: "mbr_loop ?s [0..<4] [] False =
      Ok ([mbr_partition i (es ! i). i \<leftarrow> [0..<4], mbr_listed (es ! i)], \<exists>e \<in> set es. mbr_protective e)"
    unfolding mbr_loop_eq [OF len, of "[0..<4]", simplified] Let_def
    using ent assms(5) by (auto simp: Bex_def in_set_conv_nth intro!: arg_cong [of _ _ concat])
  show ?thesis
    using rd sig loop by (simp add: parseMBR_def Let_def)
qed

section \<open>GPT listing\<close>

lemma gpt_loop_eq:
  assumes "128 \<le> es" and "\<forall>i \<in> set is. i * es + es \<le> length arr"
  shows "gpt_loop arr es is =
    Ok [gpt_partition i (gptEntry_decode (drop (i * es) arr)). i \<leftarrow> is,
        ge_TypeGUID (gptEntry_decode (drop (i * es) arr)) \<noteq> gptTypeUnused]"
  using assms(2)
proof (induction "is")
  case (Cons i "is")
  have "gptEntry_decode (bslice (i * es) (i * es + 128) arr) = gptEntry_decode (drop (i * es) arr)"
    unfolding bslice_def using Cons.prems assms(1) gptEntry.dec_take [of "drop (i * es) arr"] by fastforce
  moreover have "\<not> length (bslice (i * es) (i * es + 128) arr) < 128"
    using Cons.prems assms(1) by simp
  ultimately show ?case
    using Cons assms(1) by (auto simp: goslice_def binary_Read_def)
qed simp

lemma gpt_loop_panics:
  assumes "i \<in> set is" and "length arr < i * es + 128"
  shows "gpt_loop arr es is = Panic"
  using assms(1)
proof (induction "is")
  case (Cons j "is")
  have "binary_Read 128 gptEntry_decode (bslice a (a + 128) arr) = Ok (gptEntry_decode (bslice a (a + 128) arr))"
    if "a + 128 \<le> length arr" for a using that by (simp add: binary_Read_def)
  with Cons assms(2) show ?case
    by (cases "j = i") (auto simp: goslice_def)
qed simp

text \<open>The header a disk carries, and where the entry array it names lies.\<close>

definition gpt_disk :: "bytes \<Rightarrow> gptHeader \<Rightarrow> bool" where
  "gpt_disk c h \<longleftrightarrow> 1024 \<le> length c \<and> gptHeader_wf h \<and> gpt_Signature h = gptSignature \<and>
     bslice 512 (512 + 92) c = gptHeader_bytes h \<and>
     0 < unat (gpt_NumPartitionEntries h) * unat (gpt_PartitionEntrySize h) \<and>
     unat (gpt_PartitionEntryLBA h) * 512 +
       unat (gpt_NumPartitionEntries h) * unat (gpt_PartitionEntrySize h) \<le> length c"

lemma parseGPT_array:
  assumes "dev_ok d" and "gpt_disk (content d) h"
  shows "parseGPT d =
    (let n = unat (gpt_NumPartitionEntries h); es = unat (gpt_PartitionEntrySize h);
         off = unat (gpt_PartitionEntryLBA h) * 512
     in (gpt_loop (bslice off (off + n * es) (content d)) es [0..<n], d))"
proof -
  define n where "n = unat (gpt_NumPartitionEntries h)"
  define es where "es = unat (gpt_PartitionEntrySize h)"
  define off where "off = unat (gpt_PartitionEntryLBA h) * 512"
  note h = assms(2) [unfolded gpt_disk_def, folded n_def es_def off_def]
  note sz = dev_ok_size [OF assms(1)]
  have "readBuf 512 (int 512) d = (Ok (bslice 512 (512 + 512) (content d)), d)"
    using h by (intro readBuf_ok [OF assms(1)]) auto
  then have rd: "readBuf 512 gptHeaderOffset d = (Ok (bslice 512 1024 (content d)), d)"
    by (simp add: gptHeaderOffset_def)
  have "take 92 (bslice 512 1024 (content d)) = gptHeader_bytes h"
    using h by (simp add: bslice_def)
  then have "gptHeader_decode (bslice 512 1024 (content d)) = h"
    using h gptHeader.dec_take [of "bslice 512 1024 (content d)"] by (simp add: gptHeader.dec_enc_all)
  then have dec: "binary_Read 92 gptHeader_decode (bslice 512 1024 (content d)) = Ok h"
    using h by (simp add: binary_Read_def)
  define l where "l = unat (gpt_PartitionEntryLBA h)"
  have l: "off = l * 512" by (simp add: off_def l_def)
  have "sint (gpt_PartitionEntryLBA h) = int l"
    unfolding l_def by (rule sint_u64_small) (use h sz in \<open>simp add: off_def\<close>)
  then have o1: "i64 (sint (gpt_PartitionEntryLBA h) * sint DefaultSectorSize) = int off"
    using h sz by (intro i64_id [THEN trans]) (auto simp: DefaultSectorSize_def l)
  have o2: "i64 (int n * int es) = int (n * es)"
    using h sz by (intro i64_id [THEN trans]) (auto simp flip: of_nat_mult)
  have arr: "readBuf (n * es) (int off) d = (Ok (bslice off (off + n * es) (content d)), d)"
    using h by (intro readBuf_ok [OF assms(1)]) auto
  show ?thesis
    using rd dec h arr
    by (simp add: parseGPT_def Let_def o1 o2 flip: n_def es_def off_def del: of_nat_mult)
qed

text \<open>Reading the table of a GPT disk returns one partition for every entry whose type
  GUID is not the unused one, in table order, decoded from the entry array that the header
  names, for any entry size of at least 128 bytes.\<close>

theorem parseGPT_table:
  assumes "dev_ok d" and "gpt_disk (content d) h" and "128 \<le> unat (gpt_PartitionEntrySize h)"
  shows "parseGPT d =
    (let entry = (\<lambda>i. gptEntry_decode (drop (unat (gpt_PartitionEntryLBA h) * 512 +
                        i * unat (gpt_PartitionEntrySize h)) (content d)))
     in Ok [gpt_partition i (entry i). i \<leftarrow> [0..<unat (gpt_NumPartitionEntries h)],
            ge_TypeGUID (entry i) \<noteq> gptTypeUnused], d)"
proof -
  define n where "n = unat (gpt_NumPartitionEntries h)"
  define es where "es = unat (gpt_PartitionEntrySize h)"
  define off where "off = unat (gpt_PartitionEntryLBA h) * 512"
  let ?arr = "bslice off (off + n * es) (content d)"
  have le: "off + n * es \<le> length (content d)" and es: "128 \<le> es"
    using assms by (auto simp: gpt_disk_def n_def es_def off_def)
  have fit: "i * es + es \<le> n * es" if "i < n" for i
    using mult_le_mono1 [of "Suc i" n es] that by simp
  have "gptEntry_decode (drop (i * es) ?arr) = gptEntry_decode (drop (off + i * es) (content d))" if "i < n" for i
  proof -
    have "drop (i * es) ?arr = take (n * es - i * es) (drop (off + i * es) (content d))"
      by (simp add: bslice_def drop_take add.commute)
    moreover have "128 \<le> n * es - i * es" using fit [OF that] es by simp
    moreover have "n * es - i * es \<le> length (drop (off + i * es) (content d))" using le by simp
    ultimately show ?thesis by (simp add: gptEntry.dec_take_ge)
  qed
  then show ?thesis
    unfolding parseGPT_array [OF assms(1,2)] Let_def n_def [symmetric] es_def [symmetric] off_def [symmetric]
    using gpt_loop_eq [OF es, of "[0..<n]" ?arr] fit le
    by (auto intro!: arg_cong [of _ _ concat])
qed

text \<open>A GPT header that announces entries shorter than 128 bytes makes the reader panic
  (\<open>entryBuf[:128]\<close> runs past the array), so probing such a disk stops the program.\<close>

theorem parseGPT_short_entries_panic:
  assumes "dev_ok d" and "gpt_disk (content d) h" and "unat (gpt_PartitionEntrySize h) < 128"
  shows "parseGPT d = (Panic, d) \<and> ProbePartitions d = (Panic, d)"
proof -
  define n where "n = unat (gpt_NumPartitionEntries h)"
  define es where "es = unat (gpt_PartitionEntrySize h)"
  define off where "off = unat (gpt_PartitionEntryLBA h) * 512"
  have g: "0 < n" "off + n * es \<le> length (content d)" "es < 128"
    using assms by (auto simp: gpt_disk_def n_def es_def off_def)
  have "n * es = (n - 1) * es + es" using g(1) by (cases n) auto
  then have "gpt_loop (bslice off (off + n * es) (content d)) es [0..<n] = Panic"
    using g by (intro gpt_loop_panics [of "n - 1"]) auto
  then have "parseGPT d = (Panic, d)"
    by (simp add: parseGPT_array [OF assms(1,2)] Let_def n_def es_def off_def)
  then show ?thesis by (simp add: ProbePartitions_def)
qed

section \<open>Opening a partition\<close>

text \<open>A listed MBR partition opens as a device that shows exactly the sectors of its
  table entry and keeps the device contract, whenever those sectors lie on the disk; the
  byte offset and size never wrap around.\<close>

theorem mbr_partition_device:
  assumes "dev_ok d" and "512 dvd length (content d)" and "mbr_SectorCount e \<noteq> 0"
    and "(unat (mbr_StartLBA e) + unat (mbr_SectorCount e)) * 512 \<le> length (content d)"
  shows "StartOffset (mbr_partition i e) = int (unat (mbr_StartLBA e) * 512) \<and>
    ByteSize (mbr_partition i e) = int (unat (mbr_SectorCount e) * 512) \<and>
    dev_ok (NewPartitionReader d (mbr_partition i e)) \<and>
    content (NewPartitionReader d (mbr_partition i e)) =
      bslice (unat (mbr_StartLBA e) * 512)
        ((unat (mbr_StartLBA e) + unat (mbr_SectorCount e)) * 512) (content d)"
proof -
  let ?s = "ucast (mbr_StartLBA e) :: u64" and ?c = "ucast (mbr_SectorCount e) :: u64"
  have b: "unat ?s < 2 ^ 32" "unat ?c < 2 ^ 32"
    using unat_bounds(3) [of "mbr_StartLBA e"] unat_bounds(3) [of "mbr_SectorCount e"] by simp_all
  have u: "unat ?s = unat (mbr_StartLBA e)" "unat ?c = unat (mbr_SectorCount e)"
    by simp_all
  have so: "StartOffset (mbr_partition i e) = int (unat (mbr_StartLBA e) * 512)"
    using b by (simp add: StartOffset_def mbr_partition_def DefaultSectorSize_def sint_u64_small unat_mult_u64 u)
  have "?s + ?c - 1 - ?s + 1 = ?c" by simp
  then have bz: "ByteSize (mbr_partition i e) = int (unat (mbr_SectorCount e) * 512)"
    using b by (simp add: ByteSize_def mbr_partition_def DefaultSectorSize_def sint_u64_small unat_mult_u64 u
      del: add_diff_cancel_left' diff_add_cancel)
  have "NewAlignedReaderAt_ok 512" by (simp add: NewAlignedReaderAt_ok_def)
  then have np: "NewPartitionReader d (mbr_partition i e) = PartDev (AlignedDev d 512)
      (int (unat (mbr_StartLBA e) * 512)) (int (unat (mbr_SectorCount e) * 512))"
    unfolding NewPartitionReader_def so bz
    by (simp add: mbr_partition_def DefaultSectorSize_def Let_def)
  have "nat (int (a * 512)) = a * 512" for a by simp
  then show ?thesis
    using so bz assms by (simp add: np nat_mult_distrib nat_add_distrib algebra_simps)
qed

section \<open>Concrete disks\<close>

definition mbr_example :: mbrEntry where
  "mbr_example = \<lparr>mbr_Status = 0x80, mbr_CHSFirst = [0, 0, 0], mbr_Type = 0x83, mbr_CHSLast = [0, 0, 0],
     mbr_StartLBA = 1, mbr_SectorCount = 1\<rparr>"

definition mbr_unused :: mbrEntry where
  "mbr_unused = mbrEntry_decode (zeros 16)"

definition mbr_disk :: dev where
  "mbr_disk = FileDev \<lparr>f_data = zeros 446 @ concat (map mbrEntry_bytes [mbr_example, mbr_unused, mbr_example, mbr_unused]) @
     mbrSignature @ zeros 512, f_pos = 0, f_badr = [], f_badw = []\<rparr>"

definition gpt_header_example :: "u32 \<Rightarrow> gptHeader" where
  "gpt_header_example es = \<lparr>gpt_Signature = gptSignature, gpt_Revision = 0, gpt_HeaderSize = 92,
     gpt_HeaderCRC32 = 0, gpt_Reserved = 0, gpt_MyLBA = 1, gpt_AlternateLBA = 0, gpt_FirstUsableLBA = 3,
     gpt_LastUsableLBA = 3, gpt_DiskGUID = zeros 16, gpt_PartitionEntryLBA = 2,
     gpt_NumPartitionEntries = 2, gpt_PartitionEntrySize = es, gpt_PartitionArrayCRC32 = 0\<rparr>"

definition gpt_disk_example :: "u32 \<Rightarrow> dev" where
  "gpt_disk_example es = FileDev \<lparr>f_data = zeros 512 @ gptHeader_bytes (gpt_header_example es) @ zeros 932,
     f_pos = 0, f_badr = [], f_badw = []\<rparr>"

lemma mbr_example_wf: "mbrEntry_wf mbr_example" "mbrEntry_wf mbr_unused"
  by (simp_all add: mbrEntry_wf_def mbr_example_def mbr_unused_def mbrEntry_decode_def)

lemma mbr_disk_table:
  "dev_ok mbr_disk" "length (content mbr_disk) = 1024" "bslice 510 512 (content mbr_disk) = mbrSignature"
  "bslice 446 510 (content mbr_disk) =
     concat (map mbrEntry_bytes [mbr_example, mbr_unused, mbr_example, mbr_unused])"
proof -
  have len: "length (concat (map mbrEntry_bytes [mbr_example, mbr_unused, mbr_example, mbr_unused])) = 64"
    "length mbrSignature = 2"
    by (simp_all add: mbrEntry.enc_len mbr_example_wf mbrSignature_def)
  show "dev_ok mbr_disk" "length (content mbr_disk) = 1024"
    "bslice 510 512 (content mbr_disk) = mbrSignature"
    "bslice 446 510 (content mbr_disk) =
       concat (map mbrEntry_bytes [mbr_example, mbr_unused, mbr_example, mbr_unused])"
    using len by (simp_all add: mbr_disk_def file_ok_def bslice_def)
qed

lemma gpt_disk_example_ok:
  assumes "0 < unat es" "unat es \<le> 128"
  shows "dev_ok (gpt_disk_example es)" "gpt_disk (content (gpt_disk_example es)) (gpt_header_example es)"
proof -
  have wf: "gptHeader_wf (gpt_header_example es)"
    by (simp add: gptHeader_wf_def gpt_header_example_def gptSignature_def)
  note len = gptHeader.enc_len [OF wf]
  show "dev_ok (gpt_disk_example es)" using len by (simp add: gpt_disk_example_def file_ok_def)
  have "bslice 512 604 (content (gpt_disk_example es)) = gptHeader_bytes (gpt_header_example es)"
    "length (content (gpt_disk_example es)) = 1536"
    using len by (simp_all add: gpt_disk_example_def bslice_def)
  then show "gpt_disk (content (gpt_disk_example es)) (gpt_header_example es)"
    using wf assms by (simp add: gpt_disk_def) (simp add: gpt_header_example_def)
qed

theorem parseMBR_table_witness:
  "parseMBR mbr_disk = (Ok [mbr_partition 0 mbr_example, mbr_partition 2 mbr_example], mbr_disk)"
proof -
  have "mbr_listed mbr_example" "\<not> mbr_listed mbr_unused"
    by (simp_all add: mbr_listed_def mbr_example_def mbr_unused_def mbr_consts mbrEntry_decode_def)
  moreover have "[0..<4] = [0, 1, 2, 3]" by (simp add: upt_rec)
  ultimately show ?thesis
    using parseMBR_table [OF mbr_disk_table(1) _ mbr_disk_table(3) _ _ mbr_disk_table(4)]
    by (simp add: mbr_disk_table(2) mbr_example_wf Let_def)
qed

theorem parseGPT_table_witness:
  "parseGPT (gpt_disk_example 128) =
     (Ok [gpt_partition i (gptEntry_decode (drop (1024 + i * 128) (content (gpt_disk_example 128)))).
          i \<leftarrow> [0..<2],
          ge_TypeGUID (gptEntry_decode (drop (1024 + i * 128) (content (gpt_disk_example 128)))) \<noteq> gptTypeUnused],
      gpt_disk_example 128)"
  using parseGPT_table [OF gpt_disk_example_ok [of 128]] by (simp add: gpt_header_example_def)

theorem parseGPT_short_entries_panic_witness:
  "fst (parseGPT (gpt_disk_example 64)) = Panic \<and> fst (ProbePartitions (gpt_disk_example 64)) = Panic"
  using parseGPT_short_entries_panic [OF gpt_disk_example_ok [of 64]] by (simp add: gpt_header_example_def)

theorem mbr_partition_device_witness:
  "dev_ok (NewPartitionReader mbr_disk (mbr_partition 0 mbr_example)) \<and>
   content (NewPartitionReader mbr_disk (mbr_partition 0 mbr_example)) = bslice 512 1024 (content mbr_disk)"
proof -
  have "unat (mbr_StartLBA mbr_example) = 1" "unat (mbr_SectorCount mbr_example) = 1"
    "mbr_SectorCount mbr_example \<noteq> 0"
    by (simp_all add: mbr_example_def)
  then show ?thesis
    using mbr_partition_device [OF mbr_disk_table(1), of mbr_example 0] by (simp add: mbr_disk_table(2))
qed

end
