(* ===== verification/Super.thy ===== *)
theory Super
  imports Struct_Codec
begin

text \<open>
  \<open>vfs/super.go\<close>: the ext4 superblock. The record has the fields of the Go struct in order;
  \<open>superblock_bytes\<close> and \<open>superblock_decode\<close> are its 1024-byte image (\<open>binary.Write\<close>,
  \<open>binary.Read\<close>). The accessors compute the geometry the file system works with; division by
  a zero \<open>S_blocks_per_group\<close> panics, as in Go.
\<close>

record SuperBlock =
  S_inodes_count :: u32
  S_blocks_count_lo :: u32
  S_r_blocks_count_lo :: u32
  S_free_blocks_count_lo :: u32
  S_free_inodes_count :: u32
  S_first_data_block :: u32
  S_log_block_size :: u32
  S_log_cluster_size :: u32
  S_blocks_per_group :: u32
  S_clusters_per_group :: u32
  S_inodes_per_group :: u32
  S_mtime :: u32
  S_wtime :: u32
  S_mnt_count :: u16
  S_max_mnt_count :: u16
  S_magic :: u16
  S_state :: u16
  S_errors :: u16
  S_minor_rev_level :: u16
  S_lastcheck :: u32
  S_checkinterval :: u32
  S_creator_os :: u32
  S_rev_level :: u32
  S_def_resuid :: u16
  S_def_resgid :: u16
  S_first_ino :: u32
  S_inode_size :: u16
  S_block_group_nr :: u16
  S_feature_compat :: u32
  S_feature_incompat :: u32
  S_feature_ro_compat :: u32
  S_uuid :: bytes
  S_volume_name :: bytes
  S_last_mounted :: bytes
  S_algorithm_usage_bitmap :: u32
  S_prealloc_blocks :: u8
  S_prealloc_dir_blocks :: u8
  S_reserved_gdt_blocks :: u16
  S_journal_uuid :: bytes
  S_journal_inum :: u32
  S_journal_dev :: u32
  S_last_orphan :: u32
  S_hash_seed :: "u32 list"
  S_def_hash_version :: u8
  S_jnl_backup_type :: u8
  S_desc_size :: u16
  S_default_mount_opts :: u32
  S_first_meta_bg :: u32
  S_mkfs_time :: u32
  S_jnl_blocks :: "u32 list"
  S_blocks_count_hi :: u32
  S_r_blocks_count_hi :: u32
  S_free_blocks_count_hi :: u32
  S_min_extra_isize :: u16
  S_want_extra_isize :: u16
  S_flags :: u32
  S_raid_stride :: u16
  S_mmp_interval :: u16
  S_mmp_block :: u64
  S_raid_stripe_width :: u32
  S_log_groups_per_flex :: u8
  S_checksum_type :: u8
  S_encryption_level :: u8
  S_reserved_pad :: u8
  S_kbytes_written :: u64
  S_snapshot_inum :: u32
  S_snapshot_id :: u32
  S_snapshot_r_blocks_count :: u64
  S_snapshot_list :: u32
  S_error_count :: u32
  S_first_error_time :: u32
  S_first_error_ino :: u32
  S_first_error_block :: u64
  S_first_error_func :: bytes
  S_first_error_line :: u32
  S_last_error_time :: u32
  S_last_error_ino :: u32
  S_last_error_line :: u32
  S_last_error_block :: u64
  S_last_error_func :: bytes
  S_mount_opts :: bytes
  S_usr_quota_inum :: u32
  S_grp_quota_inum :: u32
  S_overhead_blocks :: u32
  S_backup_bgs :: "u32 list"
  S_encrypt_algos :: bytes
  S_encrypt_pw_salt :: bytes
  S_lpf_ino :: u32
  S_prj_quota_inum :: u32
  S_checksum_seed :: u32
  S_wtime_hi :: u8
  S_mtime_hi :: u8
  S_mkfs_time_hi :: u8
  S_lastcheck_hi :: u8
  S_first_error_time_hi :: u8
  S_last_error_time_hi :: u8
  S_first_error_errcode :: u8
  S_last_error_errcode :: u8
  S_encoding :: u16
  S_encoding_flags :: u16
  S_orphan_file_inum :: u32
  S_reserved :: "u32 list"
  S_checksum :: u32

definition superblock_bytes :: "SuperBlock \<Rightarrow> bytes" where
  "superblock_bytes sb =
     put32 (S_inodes_count sb) @ put32 (S_blocks_count_lo sb) @ put32 (S_r_blocks_count_lo sb) @
     put32 (S_free_blocks_count_lo sb) @ put32 (S_free_inodes_count sb) @
     put32 (S_first_data_block sb) @ put32 (S_log_block_size sb) @
     put32 (S_log_cluster_size sb) @ put32 (S_blocks_per_group sb) @
     put32 (S_clusters_per_group sb) @ put32 (S_inodes_per_group sb) @ put32 (S_mtime sb) @
     put32 (S_wtime sb) @ put16 (S_mnt_count sb) @ put16 (S_max_mnt_count sb) @
     put16 (S_magic sb) @ put16 (S_state sb) @ put16 (S_errors sb) @
     put16 (S_minor_rev_level sb) @ put32 (S_lastcheck sb) @ put32 (S_checkinterval sb) @
     put32 (S_creator_os sb) @ put32 (S_rev_level sb) @ put16 (S_def_resuid sb) @
     put16 (S_def_resgid sb) @ put32 (S_first_ino sb) @ put16 (S_inode_size sb) @
     put16 (S_block_group_nr sb) @ put32 (S_feature_compat sb) @ put32 (S_feature_incompat sb) @
     put32 (S_feature_ro_compat sb) @ S_uuid sb @ S_volume_name sb @ S_last_mounted sb @
     put32 (S_algorithm_usage_bitmap sb) @ [S_prealloc_blocks sb] @ [S_prealloc_dir_blocks sb] @
     put16 (S_reserved_gdt_blocks sb) @ S_journal_uuid sb @ put32 (S_journal_inum sb) @
     put32 (S_journal_dev sb) @ put32 (S_last_orphan sb) @ put32s (S_hash_seed sb) @
     [S_def_hash_version sb] @ [S_jnl_backup_type sb] @ put16 (S_desc_size sb) @
     put32 (S_default_mount_opts sb) @ put32 (S_first_meta_bg sb) @ put32 (S_mkfs_time sb) @
     put32s (S_jnl_blocks sb) @ put32 (S_blocks_count_hi sb) @ put32 (S_r_blocks_count_hi sb) @
     put32 (S_free_blocks_count_hi sb) @ put16 (S_min_extra_isize sb) @
     put16 (S_want_extra_isize sb) @ put32 (S_flags sb) @ put16 (S_raid_stride sb) @
     put16 (S_mmp_interval sb) @ put64 (S_mmp_block sb) @ put32 (S_raid_stripe_width sb) @
     [S_log_groups_per_flex sb] @ [S_checksum_type sb] @ [S_encryption_level sb] @
     [S_reserved_pad sb] @ put64 (S_kbytes_written sb) @ put32 (S_snapshot_inum sb) @
     put32 (S_snapshot_id sb) @ put64 (S_snapshot_r_blocks_count sb) @
     put32 (S_snapshot_list sb) @ put32 (S_error_count sb) @ put32 (S_first_error_time sb) @
     put32 (S_first_error_ino sb) @ put64 (S_first_error_block sb) @ S_first_error_func sb @
     put32 (S_first_error_line sb) @ put32 (S_last_error_time sb) @ put32 (S_last_error_ino sb) @
     put32 (S_last_error_line sb) @ put64 (S_last_error_block sb) @ S_last_error_func sb @
     S_mount_opts sb @ put32 (S_usr_quota_inum sb) @ put32 (S_grp_quota_inum sb) @
     put32 (S_overhead_blocks sb) @ put32s (S_backup_bgs sb) @ S_encrypt_algos sb @
     S_encrypt_pw_salt sb @ put32 (S_lpf_ino sb) @ put32 (S_prj_quota_inum sb) @
     put32 (S_checksum_seed sb) @ [S_wtime_hi sb] @ [S_mtime_hi sb] @ [S_mkfs_time_hi sb] @
     [S_lastcheck_hi sb] @ [S_first_error_time_hi sb] @ [S_last_error_time_hi sb] @
     [S_first_error_errcode sb] @ [S_last_error_errcode sb] @ put16 (S_encoding sb) @
     put16 (S_encoding_flags sb) @ put32 (S_orphan_file_inum sb) @ put32s (S_reserved sb) @
     put32 (S_checksum sb)"

definition superblock_decode :: "bytes \<Rightarrow> SuperBlock" where
  "superblock_decode b = \<lparr>
     S_inodes_count = get32 0 b, S_blocks_count_lo = get32 4 b, S_r_blocks_count_lo = get32 8 b,
     S_free_blocks_count_lo = get32 12 b, S_free_inodes_count = get32 16 b,
     S_first_data_block = get32 20 b, S_log_block_size = get32 24 b,
     S_log_cluster_size = get32 28 b, S_blocks_per_group = get32 32 b,
     S_clusters_per_group = get32 36 b, S_inodes_per_group = get32 40 b, S_mtime = get32 44 b,
     S_wtime = get32 48 b, S_mnt_count = get16 52 b, S_max_mnt_count = get16 54 b,
     S_magic = get16 56 b, S_state = get16 58 b, S_errors = get16 60 b,
     S_minor_rev_level = get16 62 b, S_lastcheck = get32 64 b, S_checkinterval = get32 68 b,
     S_creator_os = get32 72 b, S_rev_level = get32 76 b, S_def_resuid = get16 80 b,
     S_def_resgid = get16 82 b, S_first_ino = get32 84 b, S_inode_size = get16 88 b,
     S_block_group_nr = get16 90 b, S_feature_compat = get32 92 b,
     S_feature_incompat = get32 96 b, S_feature_ro_compat = get32 100 b,
     S_uuid = bslice 104 120 b, S_volume_name = bslice 120 136 b,
     S_last_mounted = bslice 136 200 b, S_algorithm_usage_bitmap = get32 200 b,
     S_prealloc_blocks = b ! 204, S_prealloc_dir_blocks = b ! 205,
     S_reserved_gdt_blocks = get16 206 b, S_journal_uuid = bslice 208 224 b,
     S_journal_inum = get32 224 b, S_journal_dev = get32 228 b, S_last_orphan = get32 232 b,
     S_hash_seed = get32s 236 4 b, S_def_hash_version = b ! 252, S_jnl_backup_type = b ! 253,
     S_desc_size = get16 254 b, S_default_mount_opts = get32 256 b,
     S_first_meta_bg = get32 260 b, S_mkfs_time = get32 264 b, S_jnl_blocks = get32s 268 17 b,
     S_blocks_count_hi = get32 336 b, S_r_blocks_count_hi = get32 340 b,
     S_free_blocks_count_hi = get32 344 b, S_min_extra_isize = get16 348 b,
     S_want_extra_isize = get16 350 b, S_flags = get32 352 b, S_raid_stride = get16 356 b,
     S_mmp_interval = get16 358 b, S_mmp_block = get64 360 b, S_raid_stripe_width = get32 368 b,
     S_log_groups_per_flex = b ! 372, S_checksum_type = b ! 373, S_encryption_level = b ! 374,
     S_reserved_pad = b ! 375, S_kbytes_written = get64 376 b, S_snapshot_inum = get32 384 b,
     S_snapshot_id = get32 388 b, S_snapshot_r_blocks_count = get64 392 b,
     S_snapshot_list = get32 400 b, S_error_count = get32 404 b,
     S_first_error_time = get32 408 b, S_first_error_ino = get32 412 b,
     S_first_error_block = get64 416 b, S_first_error_func = bslice 424 456 b,
     S_first_error_line = get32 456 b, S_last_error_time = get32 460 b,
     S_last_error_ino = get32 464 b, S_last_error_line = get32 468 b,
     S_last_error_block = get64 472 b, S_last_error_func = bslice 480 512 b,
     S_mount_opts = bslice 512 576 b, S_usr_quota_inum = get32 576 b,
     S_grp_quota_inum = get32 580 b, S_overhead_blocks = get32 584 b,
     S_backup_bgs = get32s 588 2 b, S_encrypt_algos = bslice 596 600 b,
     S_encrypt_pw_salt = bslice 600 616 b, S_lpf_ino = get32 616 b,
     S_prj_quota_inum = get32 620 b, S_checksum_seed = get32 624 b, S_wtime_hi = b ! 628,
     S_mtime_hi = b ! 629, S_mkfs_time_hi = b ! 630, S_lastcheck_hi = b ! 631,
     S_first_error_time_hi = b ! 632, S_last_error_time_hi = b ! 633,
     S_first_error_errcode = b ! 634, S_last_error_errcode = b ! 635, S_encoding = get16 636 b,
     S_encoding_flags = get16 638 b, S_orphan_file_inum = get32 640 b,
     S_reserved = get32s 644 94 b, S_checksum = get32 1020 b\<rparr>"

definition superblock_wf :: "SuperBlock \<Rightarrow> bool" where
  "superblock_wf sb \<longleftrightarrow>
     length (S_uuid sb) = 16 \<and> length (S_volume_name sb) = 16 \<and>
     length (S_last_mounted sb) = 64 \<and> length (S_journal_uuid sb) = 16 \<and>
     length (S_hash_seed sb) = 4 \<and> length (S_jnl_blocks sb) = 17 \<and>
     length (S_first_error_func sb) = 32 \<and> length (S_last_error_func sb) = 32 \<and>
     length (S_mount_opts sb) = 64 \<and> length (S_backup_bgs sb) = 2 \<and>
     length (S_encrypt_algos sb) = 4 \<and> length (S_encrypt_pw_salt sb) = 16 \<and>
     length (S_reserved sb) = 94"

definition SUPERBLOCK_OFFSET :: nat where "SUPERBLOCK_OFFSET = 1024"
definition MAGIC_NUMBER :: u16 where "MAGIC_NUMBER = 0xEF53"
definition SUPERBLOCK_STATE_CLEAN :: u16 where "SUPERBLOCK_STATE_CLEAN = 0x0001"
definition SUPERBLOCK_STATE_ERRORS :: u16 where "SUPERBLOCK_STATE_ERRORS = 0x0002"

definition decodeSuperBlock :: "bytes \<Rightarrow> SuperBlock res" where
  "decodeSuperBlock data =
     bindR (wrapR ''failed to parse superblock binary data'' (binary_Read 1024 superblock_decode data)) (\<lambda>sb.
       if S_magic sb \<noteq> MAGIC_NUMBER then Err (Errorf ''invalid ext4 magic number'') else Ok sb)"

definition sb_BlockSize :: "SuperBlock \<Rightarrow> u64" where
  "sb_BlockSize sb = push_bit (unat (S_log_block_size sb)) 1024"

definition sb_InodeSize :: "SuperBlock \<Rightarrow> u16" where
  "sb_InodeSize sb = (if S_rev_level sb > 0 then S_inode_size sb else 128)"

definition BlockGroupCount :: "SuperBlock \<Rightarrow> u32 res" where
  "BlockGroupCount sb =
     (if S_blocks_per_group sb = 0 then Panic
      else let groups = S_blocks_count_lo sb div S_blocks_per_group sb
           in Ok (if S_blocks_count_lo sb mod S_blocks_per_group sb \<noteq> 0 then groups + 1 else groups))"

definition GroupDescriptorSize :: "SuperBlock \<Rightarrow> u16" where
  "GroupDescriptorSize sb = (if S_desc_size sb \<noteq> 0 then S_desc_size sb else 32)"

section \<open>The layout\<close>

lemma superblock_len: "superblock_wf sb \<Longrightarrow> length (superblock_bytes sb) = 1024"
  by (simp add: superblock_bytes_def superblock_wf_def bytes_simps)

lemma superblock_dec_enc: "superblock_wf sb \<Longrightarrow> superblock_decode (superblock_bytes sb @ r) = sb"
  by (simp add: superblock_bytes_def superblock_decode_def superblock_wf_def bytes_simps)

lemma superblock_enc_dec: "1024 \<le> length bs \<Longrightarrow> superblock_bytes (superblock_decode bs) = take 1024 bs"
  by (simp add: superblock_bytes_def superblock_decode_def bytes_simps flip: slice_from_0)

lemma superblock_dec_wf: "1024 \<le> length bs \<Longrightarrow> superblock_wf (superblock_decode bs)"
  by (simp add: superblock_decode_def superblock_wf_def get32s_def)

interpretation superblock: codec superblock_bytes superblock_decode 1024 superblock_wf
  by unfold_locales
    (simp_all add: superblock_len superblock_dec_enc superblock_enc_dec superblock_dec_wf)

text \<open>Updates of the counters and of the state keep a superblock well formed.\<close>

lemma superblock_wf_update [simp]:
  "superblock_wf (sb\<lparr>S_free_blocks_count_lo := a\<rparr>) = superblock_wf sb"
  "superblock_wf (sb\<lparr>S_free_inodes_count := a\<rparr>) = superblock_wf sb"
  "superblock_wf (sb\<lparr>S_state := b\<rparr>) = superblock_wf sb"
  "superblock_wf (sb\<lparr>S_last_orphan := a\<rparr>) = superblock_wf sb"
  by (simp_all add: superblock_wf_def)

lemma sb_geometry_update [simp]:
  "sb_BlockSize (sb\<lparr>S_free_blocks_count_lo := a\<rparr>) = sb_BlockSize sb"
  "sb_BlockSize (sb\<lparr>S_free_inodes_count := a\<rparr>) = sb_BlockSize sb"
  "GroupDescriptorSize (sb\<lparr>S_free_blocks_count_lo := a\<rparr>) = GroupDescriptorSize sb"
  "GroupDescriptorSize (sb\<lparr>S_free_inodes_count := a\<rparr>) = GroupDescriptorSize sb"
  by (simp_all add: sb_BlockSize_def GroupDescriptorSize_def)

end
