(* ===== verification/Fs_State.thy ===== *)
theory Fs_State
  imports Super Dev_IO
begin

text \<open>
  \<open>vfs/core.go\<close> (state), \<open>vfs/super.go\<close>, \<open>vfs/bgdesc.go\<close> and the superblock and descriptor
  writers of \<open>vfs/allocate.go\<close> and \<open>vfs/reclaim.go\<close>. A \<open>FileSystem\<close> keeps the device, the
  superblock once it is read, the group descriptors in memory, the geometry and the
  directory cache. Operations are \<open>(FileSystem, 'a) op\<close>; a nil \<open>fs.sb\<close> panics where the code
  dereferences it. The mutex \<open>txMu\<close> is not part of the model (operations run one at a time).
\<close>

section \<open>Group descriptors\<close>

record GroupDescriptor =
  BG_block_bitmap_lo :: u32
  BG_inode_bitmap_lo :: u32
  BG_inode_table_lo :: u32
  BG_free_blocks_count_lo :: u16
  BG_free_inodes_count_lo :: u16
  BG_used_dirs_count_lo :: u16
  BG_flags :: u16
  BG_exclude_bitmap_lo :: u32
  BG_block_bitmap_csum_lo :: u16
  BG_inode_bitmap_csum_lo :: u16
  BG_itable_unused_lo :: u16
  BG_checksum :: u16
  BG_block_bitmap_hi :: u32
  BG_inode_bitmap_hi :: u32
  BG_inode_table_hi :: u32
  BG_free_blocks_count_hi :: u16
  BG_free_inodes_count_hi :: u16
  BG_used_dirs_count_hi :: u16
  BG_itable_unused_hi :: u16
  BG_exclude_bitmap_hi :: u32
  BG_block_bitmap_csum_hi :: u16
  BG_inode_bitmap_csum_hi :: u16
  BG_reserved :: u32

definition gd_bytes :: "GroupDescriptor \<Rightarrow> bytes" where
  "gd_bytes g = put32 (BG_block_bitmap_lo g) @ put32 (BG_inode_bitmap_lo g) @
     put32 (BG_inode_table_lo g) @ put16 (BG_free_blocks_count_lo g) @
     put16 (BG_free_inodes_count_lo g) @ put16 (BG_used_dirs_count_lo g) @ put16 (BG_flags g) @
     put32 (BG_exclude_bitmap_lo g) @ put16 (BG_block_bitmap_csum_lo g) @
     put16 (BG_inode_bitmap_csum_lo g) @ put16 (BG_itable_unused_lo g) @ put16 (BG_checksum g) @
     put32 (BG_block_bitmap_hi g) @ put32 (BG_inode_bitmap_hi g) @ put32 (BG_inode_table_hi g) @
     put16 (BG_free_blocks_count_hi g) @ put16 (BG_free_inodes_count_hi g) @
     put16 (BG_used_dirs_count_hi g) @ put16 (BG_itable_unused_hi g) @
     put32 (BG_exclude_bitmap_hi g) @ put16 (BG_block_bitmap_csum_hi g) @
     put16 (BG_inode_bitmap_csum_hi g) @ put32 (BG_reserved g)"

definition gd_decode :: "bytes \<Rightarrow> GroupDescriptor" where
  "gd_decode b = \<lparr>BG_block_bitmap_lo = get32 0 b, BG_inode_bitmap_lo = get32 4 b,
     BG_inode_table_lo = get32 8 b, BG_free_blocks_count_lo = get16 12 b,
     BG_free_inodes_count_lo = get16 14 b, BG_used_dirs_count_lo = get16 16 b, BG_flags = get16 18 b,
     BG_exclude_bitmap_lo = get32 20 b, BG_block_bitmap_csum_lo = get16 24 b,
     BG_inode_bitmap_csum_lo = get16 26 b, BG_itable_unused_lo = get16 28 b, BG_checksum = get16 30 b,
     BG_block_bitmap_hi = get32 32 b, BG_inode_bitmap_hi = get32 36 b, BG_inode_table_hi = get32 40 b,
     BG_free_blocks_count_hi = get16 44 b, BG_free_inodes_count_hi = get16 46 b,
     BG_used_dirs_count_hi = get16 48 b, BG_itable_unused_hi = get16 50 b,
     BG_exclude_bitmap_hi = get32 52 b, BG_block_bitmap_csum_hi = get16 56 b,
     BG_inode_bitmap_csum_hi = get16 58 b, BG_reserved = get32 60 b\<rparr>"

interpretation gd: codec gd_bytes gd_decode 64 "\<lambda>_. True"
  by unfold_locales
    (simp_all add: gd_bytes_def gd_decode_def bytes_simps flip: slice_from_0)

lemma length_gd_bytes [simp]: "length (gd_bytes g) = 64"
  using gd.enc_len by simp

section \<open>The file system state\<close>

record DirEntry2 =
  de_Inode :: u32
  de_RecLen :: u16
  de_NameLen :: u8
  de_FileType :: u8
  de_Name :: bytes

record FileSystem =
  fs_dev :: dev
  fs_sb :: "SuperBlock option"
  fs_Bgds :: "GroupDescriptor list"
  fs_BlockSize :: u64
  fs_InodeSize :: u16
  fs_GroupCount :: u32
  fs_DescSize :: u16
  fs_dirCache :: "bytes \<Rightarrow> DirEntry2 list option"

type_synonym 'a fsop = "(FileSystem, 'a) op"

definition NewFileSystem :: "dev \<Rightarrow> FileSystem" where
  "NewFileSystem device = \<lparr>fs_dev = device, fs_sb = None, fs_Bgds = [], fs_BlockSize = 0, fs_InodeSize = 0,
     fs_GroupCount = 0, fs_DescSize = 0, fs_dirCache = (\<lambda>_. None)\<rparr>"

definition fs_read :: "nat \<Rightarrow> int \<Rightarrow> bytes fsop" where
  "fs_read n off s = (case readBuf n off (fs_dev s) of (r, d) \<Rightarrow> (r, s\<lparr>fs_dev := d\<rparr>))"

definition fs_write :: "bytes \<Rightarrow> int \<Rightarrow> unit fsop" where
  "fs_write p off s = (case writeBuf p off (fs_dev s) of (r, d) \<Rightarrow> (r, s\<lparr>fs_dev := d\<rparr>))"

text \<open>\<open>int64(block*fs.BlockSize)\<close>, and the block read and write it is used for.\<close>

definition block_off :: "FileSystem \<Rightarrow> u64 \<Rightarrow> int" where
  "block_off s b = sint (b * fs_BlockSize s)"

definition read_block :: "u64 \<Rightarrow> bytes fsop" where
  "read_block b s = fs_read (unat (fs_BlockSize s)) (block_off s b) s"

definition write_block :: "bytes \<Rightarrow> u64 \<Rightarrow> unit fsop" where
  "write_block buf b s = fs_write buf (block_off s b) s"

definition deref_sb :: "SuperBlock fsop" where
  "deref_sb s = (case fs_sb s of Some sb \<Rightarrow> (Ok sb, s) | None \<Rightarrow> (Panic, s))"

definition Superblock :: "SuperBlock fsop" where
  "Superblock s = (case fs_sb s of None \<Rightarrow> (Err (Errorf ''superblock not read yet - call ReadSuperBlock first''), s)
                   | Some sb \<Rightarrow> (Ok sb, s))"

definition ReadSuperBlock :: "SuperBlock fsop" where
  "ReadSuperBlock =
     andThen (wrapErr ''failed to read superblock from device'' (fs_read 1024 (int SUPERBLOCK_OFFSET))) (\<lambda>buf.
     andThen (liftR (decodeSuperBlock buf)) (\<lambda>sb.
     andThen (modS (\<lambda>s. s\<lparr>fs_BlockSize := sb_BlockSize sb, fs_InodeSize := sb_InodeSize sb\<rparr>)) (\<lambda>_.
     andThen (liftR (BlockGroupCount sb)) (\<lambda>gc.
     andThen (modS (\<lambda>s. s\<lparr>fs_GroupCount := gc, fs_DescSize := GroupDescriptorSize sb, fs_sb := Some sb\<rparr>)) (\<lambda>_.
       ret sb)))))"

definition descTableStart :: "SuperBlock \<Rightarrow> u64" where
  "descTableStart sb = (if sb_BlockSize sb = 1024 then 2048 else sb_BlockSize sb)"

definition ReadGroupDescriptor :: "u32 \<Rightarrow> GroupDescriptor fsop" where
  "ReadGroupDescriptor groupNum s =
     (case fs_sb s of
        None \<Rightarrow> (Err (Errorf ''failed to read superblock''), s)
      | Some sb \<Rightarrow>
          andThen (liftR (BlockGroupCount sb)) (\<lambda>gc.
            if groupNum \<ge> gc then failw (Errorf ''group number out of range'')
            else
              let descSize = GroupDescriptorSize sb;
                  descOffset = descTableStart sb + ucast groupNum * ucast descSize
              in if descOffset > 0x7FFFFFFFFFFFFFFF then failw (Errorf ''descriptor offset overflows int64'')
                 else
                   andThen (wrapErr ''failed to read group descriptor''
                             (fs_read (unat descSize) (sint descOffset))) (\<lambda>buf.
                     liftR (wrapR ''failed to decode group descriptor'' (binary_Read 64 gd_decode buf)))) s)"

fun read_descriptors :: "u32 list \<Rightarrow> unit fsop" where
  "read_descriptors [] = ret ()"
| "read_descriptors (i # is) =
     andThen (ReadGroupDescriptor i) (\<lambda>gd.
     andThen (modS (\<lambda>s. s\<lparr>fs_Bgds := fs_Bgds s @ [gd]\<rparr>)) (\<lambda>_. read_descriptors is))"

definition ReadGroupDescriptors :: "unit fsop" where
  "ReadGroupDescriptors s =
     (case fs_sb s of
        None \<Rightarrow> (Err (Errorf ''superblock not read yet''), s)
      | Some sb \<Rightarrow>
          andThen (liftR (BlockGroupCount sb)) (\<lambda>gc. read_descriptors (map word_of_nat [0..<unat gc])) s)"

definition WriteGroupDescriptor :: "u32 \<Rightarrow> GroupDescriptor \<Rightarrow> unit fsop" where
  "WriteGroupDescriptor groupNum bgd =
     andThen deref_sb (\<lambda>sb.
       let descSize = GroupDescriptorSize sb;
           descOffset = i64 (sint (descTableStart sb) + int (unat groupNum) * int (unat descSize));
           raw = (if length (gd_bytes bgd) > unat descSize then take (unat descSize) (gd_bytes bgd)
                  else gd_bytes bgd)
       in wrapErr ''WriteGroupDescriptor: failed to write descriptor'' (fs_write raw descOffset))"

text \<open>A failed superblock write is only logged.\<close>

definition writeSuperBlock :: "unit fsop" where
  "writeSuperBlock s =
     (case fs_sb s of
        None \<Rightarrow> (Ok (), s)
      | Some sb \<Rightarrow>
          andThen (attempt (fs_write (take 1024 (superblock_bytes sb)) (int SUPERBLOCK_OFFSET))) (\<lambda>_. ret ()) s)"

definition updateSuperblockFreeBlocks :: "int \<Rightarrow> unit fsop" where
  "updateSuperblockFreeBlocks delta =
     andThen deref_sb (\<lambda>sb.
       let total = int (unat (S_free_blocks_count_lo sb)) + delta;
           total = (if total < 0 then 0 else total)
       in andThen (modS (\<lambda>s. s\<lparr>fs_sb := Some (sb\<lparr>S_free_blocks_count_lo := word_of_int total\<rparr>)\<rparr>)) (\<lambda>_.
          writeSuperBlock))"

definition updateSuperblockFreeInodes :: "int \<Rightarrow> unit fsop" where
  "updateSuperblockFreeInodes delta =
     andThen deref_sb (\<lambda>sb.
       let total = int (unat (S_free_inodes_count sb)) + delta;
           total = (if total < 0 then 0 else total)
       in andThen (modS (\<lambda>s. s\<lparr>fs_sb := Some (sb\<lparr>S_free_inodes_count := word_of_int total\<rparr>)\<rparr>)) (\<lambda>_.
          writeSuperBlock))"

definition ClearSuperblockErrors :: "unit fsop" where
  "ClearSuperblockErrors s =
     (case fs_sb s of
        None \<Rightarrow> (Ok (), s)
      | Some sb \<Rightarrow>
          andThen (modS (\<lambda>s. s\<lparr>fs_sb := Some (sb\<lparr>S_state := SUPERBLOCK_STATE_CLEAN\<rparr>)\<rparr>)) (\<lambda>_. writeSuperBlock) s)"

section \<open>Access to the disk\<close>

abbreviation disk :: "FileSystem \<Rightarrow> bytes" where
  "disk s \<equiv> content (fs_dev s)"

abbreviation bsz :: "FileSystem \<Rightarrow> nat" where
  "bsz s \<equiv> unat (fs_BlockSize s)"

definition poke :: "FileSystem \<Rightarrow> nat \<Rightarrow> bytes \<Rightarrow> FileSystem" where
  "poke s off p = s\<lparr>fs_dev := dev_put (fs_dev s) off p\<rparr>"

lemma poke_fields [simp]:
  "fs_sb (poke s off p) = fs_sb s" "fs_Bgds (poke s off p) = fs_Bgds s"
  "fs_BlockSize (poke s off p) = fs_BlockSize s" "fs_InodeSize (poke s off p) = fs_InodeSize s"
  "fs_GroupCount (poke s off p) = fs_GroupCount s" "fs_DescSize (poke s off p) = fs_DescSize s"
  "fs_dirCache (poke s off p) = fs_dirCache s"
  by (simp_all add: poke_def)

lemma poke_ok:
  assumes "dev_ok (fs_dev s)" and "p \<noteq> []" and "off + length p \<le> length (disk s)"
  shows dev_ok_poke [simp]: "dev_ok (fs_dev (poke s off p))"
    and disk_poke [simp]: "disk (poke s off p) = copy_at off p (disk s)"
  using assms by (simp_all add: poke_def)

lemma fs_read_ok [simp]:
  "dev_ok (fs_dev s) \<Longrightarrow> 0 < n \<Longrightarrow> off + n \<le> length (disk s) \<Longrightarrow>
   fs_read n (int off) s = (Ok (bslice off (off + n) (disk s)), s)"
  by (simp add: fs_read_def)

lemma fs_write_ok [simp]:
  "dev_ok (fs_dev s) \<Longrightarrow> p \<noteq> [] \<Longrightarrow> off + length p \<le> length (disk s) \<Longrightarrow>
   fs_write p (int off) s = (Ok (), poke s off p)"
  by (simp add: fs_write_def poke_def)

lemma fs_read_length: "fs_read n off s = (Ok b, s') \<Longrightarrow> length b = n"
  by (auto simp: fs_read_def split: prod.splits dest: readBuf_length)

text \<open>The bytes of a block, and the blocks that lie on the device.\<close>

definition blk :: "FileSystem \<Rightarrow> u64 \<Rightarrow> bytes" where
  "blk s b = bslice (unat b * bsz s) (unat b * bsz s + bsz s) (disk s)"

definition block_in :: "FileSystem \<Rightarrow> u64 \<Rightarrow> bool" where
  "block_in s b \<longleftrightarrow> unat b * bsz s + bsz s \<le> length (disk s)"

definition fs_ok :: "FileSystem \<Rightarrow> bool" where
  "fs_ok s \<longleftrightarrow> dev_ok (fs_dev s) \<and> 1024 \<le> bsz s \<and> bsz s \<le> 65536"

definition put_block :: "FileSystem \<Rightarrow> u64 \<Rightarrow> bytes \<Rightarrow> FileSystem" where
  "put_block s b p = poke s (unat b * bsz s) p"

lemma put_block_fields [simp]:
  "fs_sb (put_block s b p) = fs_sb s" "fs_Bgds (put_block s b p) = fs_Bgds s"
  "fs_BlockSize (put_block s b p) = fs_BlockSize s" "fs_InodeSize (put_block s b p) = fs_InodeSize s"
  "fs_GroupCount (put_block s b p) = fs_GroupCount s" "fs_DescSize (put_block s b p) = fs_DescSize s"
  "fs_dirCache (put_block s b p) = fs_dirCache s"
  by (simp_all add: put_block_def)

lemma block_off_in:
  assumes "fs_ok s" and "block_in s b"
  shows "block_off s b = int (unat b * bsz s)"
proof -
  have le: "unat b * bsz s < 2 ^ 62"
    using assms dev_ok_size [of "fs_dev s"] by (simp add: fs_ok_def block_in_def)
  then have "unat (b * fs_BlockSize s) = unat b * bsz s"
    by (intro unat_mult_u64) simp
  with le show ?thesis by (simp add: block_off_def sint_u64_small)
qed

lemma length_blk [simp]: "block_in s b \<Longrightarrow> length (blk s b) = bsz s"
  by (simp add: blk_def block_in_def)

lemma read_block_ok [simp]:
  "fs_ok s \<Longrightarrow> block_in s b \<Longrightarrow> read_block b s = (Ok (blk s b), s)"
  using fs_read_ok [of s "bsz s" "unat b * bsz s"] block_off_in [of s b]
  by (simp add: read_block_def blk_def fs_ok_def block_in_def del: fs_read_ok)

lemma write_block_ok [simp]:
  assumes "fs_ok s" and "block_in s b" and "length p = bsz s"
  shows "write_block p b s = (Ok (), put_block s b p)"
proof -
  have "p \<noteq> []" using assms by (auto simp: fs_ok_def)
  then show ?thesis
    using assms fs_write_ok [of s p "unat b * bsz s"] block_off_in [of s b]
    by (simp add: write_block_def put_block_def fs_ok_def block_in_def del: fs_write_ok)
qed

lemma put_block_ok:
  assumes "fs_ok s" and "block_in s b" and "length p = bsz s"
  shows put_block_fs_ok [simp]: "fs_ok (put_block s b p)"
    and disk_put_block [simp]: "disk (put_block s b p) = copy_at (unat b * bsz s) p (disk s)"
    and block_in_put_block [simp]: "block_in (put_block s b p) c = block_in s c"
proof -
  have "p \<noteq> []" using assms by (auto simp: fs_ok_def)
  then show "fs_ok (put_block s b p)" "disk (put_block s b p) = copy_at (unat b * bsz s) p (disk s)"
    "block_in (put_block s b p) c = block_in s c"
    using assms by (auto simp: fs_ok_def block_in_def put_block_def)
qed

lemma block_ranges_disjoint: "b \<noteq> c \<Longrightarrow> c * n + n \<le> b * n \<or> b * n + n \<le> c * (n :: nat)"
proof (cases "b < c")
  case True
  then show ?thesis using mult_le_mono1 [of "Suc b" c n] by simp
next
  case False
  assume "b \<noteq> c"
  with False show ?thesis using mult_le_mono1 [of "Suc c" b n] by simp
qed

lemma blk_put_block:
  assumes "fs_ok s" and "block_in s b" and "length p = bsz s" and "block_in s c"
  shows "blk (put_block s b p) c = (if c = b then p else blk s c)"
proof (cases "c = b")
  case True
  then show ?thesis
    using assms slice_copy_at_same [of "unat b * bsz s" p "disk s"] by (simp add: blk_def block_in_def)
next
  case False
  then have "unat b \<noteq> unat c" by (metis word_unat_eq_iff)
  then show ?thesis
    using False assms slice_copy_at_other [of "unat b * bsz s" p "disk s" "unat c * bsz s + bsz s" "unat c * bsz s"]
      block_ranges_disjoint [of "unat b" "unat c" "bsz s"]
    by (auto simp: blk_def block_in_def)
qed

section \<open>Mounting\<close>

lemma ReadSuperBlock_disk:
  assumes "dev_ok (fs_dev s)" and "2048 \<le> length (disk s)" and "superblock_wf sb"
    and "bslice 1024 2048 (disk s) = superblock_bytes sb" and "S_magic sb = MAGIC_NUMBER"
    and "BlockGroupCount sb = Ok gc"
  shows "ReadSuperBlock s = (Ok sb, s\<lparr>fs_BlockSize := sb_BlockSize sb, fs_InodeSize := sb_InodeSize sb,
    fs_GroupCount := gc, fs_DescSize := GroupDescriptorSize sb, fs_sb := Some sb\<rparr>)"
proof -
  have "fs_read 1024 (int SUPERBLOCK_OFFSET) s = (Ok (superblock_bytes sb), s)"
    using fs_read_ok [OF assms(1), of 1024 1024] assms(2,4) by (simp add: SUPERBLOCK_OFFSET_def)
  moreover have "decodeSuperBlock (superblock_bytes sb) = Ok sb"
    using superblock.binary_Read_enc [OF assms(3), of "[]"] assms(5) by (simp add: decodeSuperBlock_def)
  ultimately show ?thesis using assms(6) by (simp add: ReadSuperBlock_def)
qed

text \<open>The position of a descriptor, and when the descriptor table lies on the device.\<close>

definition desc_pos :: "SuperBlock \<Rightarrow> nat \<Rightarrow> nat" where
  "desc_pos sb g = unat (descTableStart sb) + g * unat (GroupDescriptorSize sb)"

lemma ReadGroupDescriptor_disk:
  assumes "dev_ok (fs_dev s)" and "fs_sb s = Some sb" and "BlockGroupCount sb = Ok gc" and "g < gc"
    and "desc_pos sb (unat g) + unat (GroupDescriptorSize sb) \<le> length (disk s)"
  shows "ReadGroupDescriptor g s =
    (if unat (GroupDescriptorSize sb) < 64
     then Err (Wrapf ''failed to decode group descriptor'' (Errorf ''unexpected EOF''))
     else Ok (gd_decode (drop (desc_pos sb (unat g)) (disk s))), s)"
proof -
  let ?ds = "GroupDescriptorSize sb" and ?off = "descTableStart sb + ucast g * ucast (GroupDescriptorSize sb) :: u64"
  have pos: "0 < unat ?ds" by (auto simp: GroupDescriptorSize_def unat_gt_0)
  have lt: "desc_pos sb (unat g) < 2 ^ 62" using assms(5) pos dev_ok_size [OF assms(1)] by linarith
  have "unat (ucast g * ucast ?ds :: u64) = unat g * unat ?ds"
    using unat_mult_u64 [of "ucast g" "ucast ?ds"] lt by (simp add: desc_pos_def)
  then have off: "unat ?off = desc_pos sb (unat g)"
    using unat_add_u64 [of "descTableStart sb" "ucast g * ucast ?ds"] lt by (simp add: desc_pos_def)
  then have "\<not> ?off > 0x7FFFFFFFFFFFFFFF" using lt by (simp add: word_less_nat_alt)
  moreover have "sint ?off = int (desc_pos sb (unat g))" using off lt by (simp add: sint_u64_small)
  moreover have "fs_read (unat ?ds) (int (desc_pos sb (unat g))) s =
      (Ok (bslice (desc_pos sb (unat g)) (desc_pos sb (unat g) + unat ?ds) (disk s)), s)"
    using fs_read_ok [OF assms(1) pos assms(5)] .
  moreover have "gd_decode (bslice (desc_pos sb (unat g)) (desc_pos sb (unat g) + unat ?ds) (disk s)) =
      gd_decode (drop (desc_pos sb (unat g)) (disk s))" if "64 \<le> unat ?ds"
    unfolding bslice_def using that assms(5) by (simp add: gd.dec_take_ge)
  ultimately show ?thesis
    using assms(2-5) by (simp add: ReadGroupDescriptor_def Let_def binary_Read_def not_le)
qed

lemma read_descriptors_disk:
  assumes "dev_ok (fs_dev s)" and "fs_sb s = Some sb" and "BlockGroupCount sb = Ok gc"
    and "64 \<le> unat (GroupDescriptorSize sb)"
    and "\<forall>g \<in> set gs. g < gc \<and> desc_pos sb (unat g) + unat (GroupDescriptorSize sb) \<le> length (disk s)"
  shows "read_descriptors gs s =
    (Ok (), s\<lparr>fs_Bgds := fs_Bgds s @ map (\<lambda>g. gd_decode (drop (desc_pos sb (unat g)) (disk s))) gs\<rparr>)"
  using assms
proof (induction gs arbitrary: s)
  case (Cons g gs)
  then show ?case
    using ReadGroupDescriptor_disk [of s sb gc g] by simp
qed simp

text \<open>A disk that holds a given file system: its superblock and its descriptor table.\<close>

definition holds_fs :: "FileSystem \<Rightarrow> SuperBlock \<Rightarrow> u32 \<Rightarrow> bool" where
  "holds_fs s sb gc \<longleftrightarrow> dev_ok (fs_dev s) \<and> superblock_wf sb \<and> S_magic sb = MAGIC_NUMBER \<and>
     bslice 1024 2048 (disk s) = superblock_bytes sb \<and> 2048 \<le> length (disk s) \<and>
     BlockGroupCount sb = Ok gc \<and> 0 < gc \<and>
     desc_pos sb (unat gc) \<le> length (disk s)"

lemma holds_fs_desc: "holds_fs s sb gc \<Longrightarrow> g < unat gc \<Longrightarrow>
  desc_pos sb g + unat (GroupDescriptorSize sb) \<le> length (disk s)"
proof -
  assume h: "holds_fs s sb gc" and "g < unat gc"
  then have "Suc g * unat (GroupDescriptorSize sb) \<le> unat gc * unat (GroupDescriptorSize sb)"
    by (intro mult_le_mono1) simp
  then have "desc_pos sb g + unat (GroupDescriptorSize sb) \<le> desc_pos sb (unat gc)"
    by (simp add: desc_pos_def)
  with h show ?thesis by (auto simp: holds_fs_def)
qed

lemma mount_law:
  assumes "holds_fs (NewFileSystem d) sb gc" and "64 \<le> unat (GroupDescriptorSize sb)"
  shows "andThen ReadSuperBlock (\<lambda>_. ReadGroupDescriptors) (NewFileSystem d) =
    (Ok (), \<lparr>fs_dev = d, fs_sb = Some sb,
       fs_Bgds = map (\<lambda>g. gd_decode (drop (desc_pos sb g) (content d))) [0..<unat gc],
       fs_BlockSize = sb_BlockSize sb, fs_InodeSize = sb_InodeSize sb, fs_GroupCount = gc,
       fs_DescSize = GroupDescriptorSize sb, fs_dirCache = (\<lambda>_. None)\<rparr>)"
proof -
  define s where "s = \<lparr>fs_dev = d, fs_sb = Some sb, fs_Bgds = [], fs_BlockSize = sb_BlockSize sb,
    fs_InodeSize = sb_InodeSize sb, fs_GroupCount = gc, fs_DescSize = GroupDescriptorSize sb,
    fs_dirCache = (\<lambda>_. None)\<rparr>"
  note h = assms(1) [unfolded holds_fs_def]
  have 1: "ReadSuperBlock (NewFileSystem d) = (Ok sb, s)"
    using ReadSuperBlock_disk [of "NewFileSystem d" sb gc] h by (simp add: s_def NewFileSystem_def)
  have u: "unat (word_of_nat i :: u32) = i" if "i < unat gc" for i
    using that unat_bounds(3) [of gc] by (simp add: unat_of_nat)
  have "read_descriptors (map word_of_nat [0..<unat gc]) s =
    (Ok (), s\<lparr>fs_Bgds := fs_Bgds s @
       map (\<lambda>g. gd_decode (drop (desc_pos sb (unat (g :: u32))) (disk s))) (map word_of_nat [0..<unat gc])\<rparr>)"
    using h assms u holds_fs_desc [OF assms(1)]
    by - (rule read_descriptors_disk [where gc = gc]; auto simp: s_def NewFileSystem_def word_less_nat_alt)
  then have "ReadGroupDescriptors s = (Ok (), s\<lparr>fs_Bgds :=
      map (\<lambda>g. gd_decode (drop (desc_pos sb g) (content d))) [0..<unat gc]\<rparr>)"
    using h u by (simp add: ReadGroupDescriptors_def s_def comp_def)
  with 1 show ?thesis by (simp add: s_def)
qed

text \<open>Mounting reads the superblock from byte 1024 and one descriptor for every block
  group from the table after it, and sets the geometry from the superblock, for descriptors
  of at least 64 bytes.\<close>

theorem mount_reads_geometry:
  assumes "holds_fs (NewFileSystem d) sb gc" and "64 \<le> unat (GroupDescriptorSize sb)"
  shows "andThen ReadSuperBlock (\<lambda>_. ReadGroupDescriptors) (NewFileSystem d) =
    (Ok (), \<lparr>fs_dev = d, fs_sb = Some sb,
       fs_Bgds = map (\<lambda>g. gd_decode (drop (desc_pos sb g) (content d))) [0..<unat gc],
       fs_BlockSize = sb_BlockSize sb, fs_InodeSize = sb_InodeSize sb, fs_GroupCount = gc,
       fs_DescSize = GroupDescriptorSize sb, fs_dirCache = (\<lambda>_. None)\<rparr>)"
  using assms by (rule mount_law)

text \<open>A file system whose descriptors are shorter than 64 bytes cannot be mounted: the
  decoder wants 64 bytes from a buffer of the descriptor's size, so already the first
  descriptor is an error. This holds for every file system without the 64-bit feature
  (descriptor size 0, read as 32).\<close>

theorem mount_short_descriptors:
  assumes "holds_fs (NewFileSystem d) sb gc" and "unat (GroupDescriptorSize sb) < 64"
  shows "fst (andThen ReadSuperBlock (\<lambda>_. ReadGroupDescriptors) (NewFileSystem d)) =
    Err (Wrapf ''failed to decode group descriptor'' (Errorf ''unexpected EOF''))"
proof -
  define s where "s = \<lparr>fs_dev = d, fs_sb = Some sb, fs_Bgds = [], fs_BlockSize = sb_BlockSize sb,
    fs_InodeSize = sb_InodeSize sb, fs_GroupCount = gc, fs_DescSize = GroupDescriptorSize sb,
    fs_dirCache = (\<lambda>_. None)\<rparr>"
  note h = assms(1) [unfolded holds_fs_def]
  have 1: "ReadSuperBlock (NewFileSystem d) = (Ok sb, s)"
    using ReadSuperBlock_disk [of "NewFileSystem d" sb gc] h by (simp add: s_def NewFileSystem_def)
  have "unat (0 :: u32) < unat gc" using h by (simp add: word_less_nat_alt)
  then have "ReadGroupDescriptor 0 s =
      (Err (Wrapf ''failed to decode group descriptor'' (Errorf ''unexpected EOF'')), s)"
    using ReadGroupDescriptor_disk [of s sb gc 0] h assms(2) holds_fs_desc [OF assms(1), of 0]
    by (simp add: s_def NewFileSystem_def)
  moreover have "[0..<unat gc] = 0 # [1..<unat gc]"
    using h by (simp add: word_less_nat_alt upt_conv_Cons)
  ultimately have "fst (ReadGroupDescriptors s) =
      Err (Wrapf ''failed to decode group descriptor'' (Errorf ''unexpected EOF''))"
    using h by (simp add: ReadGroupDescriptors_def s_def)
  with 1 show ?thesis by simp
qed

section \<open>A concrete file system\<close>

text \<open>Sixteen blocks of 1024 bytes in one group: superblock in block 1, descriptor in block 2,
  bitmaps in blocks 3 and 4 (bits of blocks and inodes that do not exist are set), sixteen inodes of 256 bytes in blocks 5 to 8.\<close>

definition example_sb :: "u16 \<Rightarrow> SuperBlock" where
  "example_sb ds = (superblock_decode (zeros 1024))\<lparr>S_magic := MAGIC_NUMBER, S_inodes_count := 16,
     S_blocks_count_lo := 16, S_free_blocks_count_lo := 7, S_free_inodes_count := 5,
     S_first_data_block := 1, S_blocks_per_group := 8192,
     S_inodes_per_group := 16, S_rev_level := 1, S_inode_size := 256, S_desc_size := ds\<rparr>"

definition example_gd :: GroupDescriptor where
  "example_gd = (gd_decode (zeros 64))\<lparr>BG_block_bitmap_lo := 3, BG_inode_bitmap_lo := 4,
     BG_inode_table_lo := 5, BG_free_blocks_count_lo := 7, BG_free_inodes_count_lo := 5\<rparr>"

definition ones :: "nat \<Rightarrow> bytes" where
  "ones n = replicate n 0xFF"

lemma length_ones [simp]: "length (ones n) = n"
  by (simp add: ones_def)

definition example_image :: "u16 \<Rightarrow> bytes" where
  "example_image ds = zeros 1024 @ superblock_bytes (example_sb ds) @ gd_bytes example_gd @ zeros 960 @
     ([0xFF, 0x01] @ ones 1022) @ ([0xFF, 0x07] @ ones 1022) @ zeros 11264"

definition example_dev :: "u16 \<Rightarrow> dev" where
  "example_dev ds = FileDev \<lparr>f_data = example_image ds, f_pos = 0, f_badr = [], f_badw = []\<rparr>"

lemma get_zeros [simp]:
  "i + 2 \<le> n \<Longrightarrow> get16 i (zeros n) = 0" "i + 4 \<le> n \<Longrightarrow> get32 i (zeros n) = 0"
  "i + 8 \<le> n \<Longrightarrow> get64 i (zeros n) = 0"
  by (simp_all add: get16_def get32_def get64_def bslice_def zeros_def min_def numeral_eq_Suc)

lemma example_sb_wf: "superblock_wf (example_sb ds)"
  using superblock_dec_wf [of "zeros 1024"] by (simp add: example_sb_def superblock_wf_def)

lemma example_sb_geometry:
  "sb_BlockSize (example_sb ds) = 1024" "BlockGroupCount (example_sb ds) = Ok 1"
  "S_magic (example_sb ds) = MAGIC_NUMBER" "sb_InodeSize (example_sb ds) = 256"
  "descTableStart (example_sb ds) = 2048" "GroupDescriptorSize (example_sb ds) = (if ds \<noteq> 0 then ds else 32)"
  by (simp_all add: example_sb_def sb_BlockSize_def BlockGroupCount_def superblock_decode_def
      sb_InodeSize_def descTableStart_def GroupDescriptorSize_def)

lemma example_image_layout:
  "length (example_image ds) = 16384" "bslice 1024 2048 (example_image ds) = superblock_bytes (example_sb ds)"
  "drop 2048 (example_image ds) = gd_bytes example_gd @ zeros 960 @ ([0xFF, 0x01] @ ones 1022) @
     ([0xFF, 0x07] @ ones 1022) @ zeros 11264"
  using superblock_len [OF example_sb_wf, of ds]
  by (simp_all add: example_image_def bslice_def)

lemma example_holds_fs: "unat ds \<le> 64 \<Longrightarrow> holds_fs (NewFileSystem (example_dev ds)) (example_sb ds) 1"
  using example_image_layout [of ds]
  by (simp add: holds_fs_def NewFileSystem_def example_dev_def file_ok_def example_sb_wf
      example_sb_geometry desc_pos_def)

theorem mount_reads_geometry_witness:
  "\<exists>s. andThen ReadSuperBlock (\<lambda>_. ReadGroupDescriptors) (NewFileSystem (example_dev 64)) = (Ok (), s) \<and>
     fs_sb s = Some (example_sb 64) \<and> fs_Bgds s = [example_gd] \<and> fs_BlockSize s = 1024 \<and> fs_GroupCount s = 1"
  using mount_reads_geometry [OF example_holds_fs [of 64]] example_image_layout(3) [of 64]
  by (simp add: example_sb_geometry desc_pos_def example_dev_def gd.dec_enc)

theorem mount_short_descriptors_witness:
  "fst (andThen ReadSuperBlock (\<lambda>_. ReadGroupDescriptors) (NewFileSystem (example_dev 0))) =
    Err (Wrapf ''failed to decode group descriptor'' (Errorf ''unexpected EOF''))"
  using mount_short_descriptors [OF example_holds_fs [of 0]] by (simp add: example_sb_geometry)

end
