(* ===== verification/Inodes.thy ===== *)
theory Inodes
  imports Fs_State
begin

text \<open>
  \<open>vfs/inodes.go\<close> and \<open>WriteInode\<close> of \<open>vfs/allocate.go\<close>: the 160-byte inode struct, its place in
  the inode table of its group, and reading and writing it. A Go \<open>*Inode\<close> that a callee
  mutates is part of the state of that call (type \<open>'a iop\<close>), so that changes made before an
  error are kept.
\<close>

record Inode =
  I_mode :: u16
  I_uid :: u16
  I_size_lo :: u32
  I_atime :: u32
  I_ctime :: u32
  I_mtime :: u32
  I_dtime :: u32
  I_gid :: u16
  I_links_count :: u16
  I_blocks_lo :: u32
  I_flags :: u32
  L_i_version :: u32
  I_block :: bytes
  I_generation :: u32
  I_file_acl_lo :: u32
  I_size_high :: u32
  I_obso_faddr :: u32
  L_i_blocks_high :: u16
  L_i_file_acl_high :: u16
  L_i_uid_high :: u16
  L_i_gid_high :: u16
  L_i_checksum_lo :: u16
  L_i_reserved :: u16
  I_extra_isize :: u16
  I_checksum_hi :: u16
  I_ctime_extra :: u32
  I_mtime_extra :: u32
  I_atime_extra :: u32
  I_crtime :: u32
  I_crtime_extra :: u32
  I_version_hi :: u32
  I_projid :: u32

definition inode_bytes :: "Inode \<Rightarrow> bytes" where
  "inode_bytes i =
     put16 (I_mode i) @ put16 (I_uid i) @ put32 (I_size_lo i) @ put32 (I_atime i) @
     put32 (I_ctime i) @ put32 (I_mtime i) @ put32 (I_dtime i) @ put16 (I_gid i) @
     put16 (I_links_count i) @ put32 (I_blocks_lo i) @ put32 (I_flags i) @
     put32 (L_i_version i) @ I_block i @ put32 (I_generation i) @ put32 (I_file_acl_lo i) @
     put32 (I_size_high i) @ put32 (I_obso_faddr i) @ put16 (L_i_blocks_high i) @
     put16 (L_i_file_acl_high i) @ put16 (L_i_uid_high i) @ put16 (L_i_gid_high i) @
     put16 (L_i_checksum_lo i) @ put16 (L_i_reserved i) @ put16 (I_extra_isize i) @
     put16 (I_checksum_hi i) @ put32 (I_ctime_extra i) @ put32 (I_mtime_extra i) @
     put32 (I_atime_extra i) @ put32 (I_crtime i) @ put32 (I_crtime_extra i) @
     put32 (I_version_hi i) @ put32 (I_projid i)"

definition inode_decode :: "bytes \<Rightarrow> Inode" where
  "inode_decode b = \<lparr>
     I_mode = get16 0 b, I_uid = get16 2 b, I_size_lo = get32 4 b, I_atime = get32 8 b,
     I_ctime = get32 12 b, I_mtime = get32 16 b, I_dtime = get32 20 b, I_gid = get16 24 b,
     I_links_count = get16 26 b, I_blocks_lo = get32 28 b, I_flags = get32 32 b,
     L_i_version = get32 36 b, I_block = bslice 40 100 b, I_generation = get32 100 b,
     I_file_acl_lo = get32 104 b, I_size_high = get32 108 b, I_obso_faddr = get32 112 b,
     L_i_blocks_high = get16 116 b, L_i_file_acl_high = get16 118 b, L_i_uid_high = get16 120 b,
     L_i_gid_high = get16 122 b, L_i_checksum_lo = get16 124 b, L_i_reserved = get16 126 b,
     I_extra_isize = get16 128 b, I_checksum_hi = get16 130 b, I_ctime_extra = get32 132 b,
     I_mtime_extra = get32 136 b, I_atime_extra = get32 140 b, I_crtime = get32 144 b,
     I_crtime_extra = get32 148 b, I_version_hi = get32 152 b, I_projid = get32 156 b\<rparr>"

definition inode_wf :: "Inode \<Rightarrow> bool" where
  "inode_wf i \<longleftrightarrow> length (I_block i) = 60"

interpretation inode: codec inode_bytes inode_decode 160 inode_wf
  by unfold_locales
    (simp_all add: inode_bytes_def inode_decode_def inode_wf_def bytes_simps flip: slice_from_0 numeral_2_eq_2)

type_synonym 'a iop = "(FileSystem \<times> Inode, 'a) op"

definition onFs :: "'a fsop \<Rightarrow> (FileSystem \<times> 'i, 'a) op" where
  "onFs m s = (case s of (f, i) \<Rightarrow> (case m f of (r, f') \<Rightarrow> (r, (f', i))))"

definition modI :: "(Inode \<Rightarrow> Inode) \<Rightarrow> unit iop" where
  "modI g s = (case s of (f, i) \<Rightarrow> (Ok (), (f, g i)))"

lemma onFs_eq [simp]: "m f = (r, f') \<Longrightarrow> onFs m (f, i) = (r, (f', i))"
  by (simp add: onFs_def)

lemma modI_eq [simp]: "modI g (f, i) = (Ok (), (f, g i))"
  by (simp add: modI_def)

definition RootInodeNum :: u32 where "RootInodeNum = 2"
definition S_IFDIR :: u16 where "S_IFDIR = 0x4000"
definition S_IFREG :: u16 where "S_IFREG = 0x8000"
definition S_IFLNK :: u16 where "S_IFLNK = 0xA000"
definition ifmt :: u16 where "ifmt = 0xF000"
definition EXT4_INDEX_FL :: u32 where "EXT4_INDEX_FL = 0x1000"
definition EXT4_EXTENTS_FL :: u32 where "EXT4_EXTENTS_FL = 0x80000"

definition IsDir :: "Inode \<Rightarrow> bool" where "IsDir i \<longleftrightarrow> I_mode i AND ifmt = S_IFDIR"
definition IsRegular :: "Inode \<Rightarrow> bool" where "IsRegular i \<longleftrightarrow> I_mode i AND ifmt = S_IFREG"
definition IsSymlink :: "Inode \<Rightarrow> bool" where "IsSymlink i \<longleftrightarrow> I_mode i AND ifmt = S_IFLNK"

definition inode_Size :: "Inode \<Rightarrow> u64" where
  "inode_Size i = (if IsDir i then ucast (I_size_lo i)
                   else push_bit 32 (ucast (I_size_high i)) OR ucast (I_size_lo i))"

definition UsesExtents :: "Inode \<Rightarrow> bool" where
  "UsesExtents i \<longleftrightarrow> I_flags i AND EXT4_EXTENTS_FL \<noteq> 0"

section \<open>Place of an inode\<close>

text \<open>\<open>lo | hi << 32\<close> when the descriptors are longer than 32 bytes.\<close>

definition gd_addr :: "FileSystem \<Rightarrow> u32 \<Rightarrow> u32 \<Rightarrow> u64" where
  "gd_addr s lo hi = (if fs_DescSize s > 32 then ucast lo OR push_bit 32 (ucast hi) else ucast lo)"

definition bgd_at :: "u32 \<Rightarrow> GroupDescriptor fsop" where
  "bgd_at g s = (if unat g < length (fs_Bgds s) then (Ok (fs_Bgds s ! unat g), s) else (Panic, s))"

text \<open>Group and index of an inode number; a zero \<open>S_inodes_per_group\<close> panics.\<close>

definition inode_slot :: "u32 \<Rightarrow> (u32 \<times> u32) fsop" where
  "inode_slot inodeNum =
     andThen deref_sb (\<lambda>sb.
       if S_inodes_per_group sb = 0 then panic
       else ret ((inodeNum - 1) div S_inodes_per_group sb, (inodeNum - 1) mod S_inodes_per_group sb))"

definition ReadInode :: "u32 \<Rightarrow> Inode fsop" where
  "ReadInode inodeNum =
     (if inodeNum < 1 then failw (Errorf ''invalid inode number (inodes start at 1)'')
      else
        andThen (inode_slot inodeNum) (\<lambda>(groupIndex, localInodeIndex).
        andThen (getS fs_GroupCount) (\<lambda>gc.
          if groupIndex \<ge> gc then failw (Errorf ''inode belongs to a group we do not have'')
          else
            andThen (bgd_at groupIndex) (\<lambda>bgd.
              if BG_inode_table_lo bgd = 0 then failw (Errorf ''inode table not found in group'')
              else
                andThen (getS id) (\<lambda>fs.
                  let tableBlock = gd_addr fs (BG_inode_table_lo bgd) (BG_inode_table_hi bgd);
                      offset = tableBlock * fs_BlockSize fs + ucast localInodeIndex * ucast (fs_InodeSize fs)
                  in if offset > 0x7FFFFFFFFFFFFFFF then failw (Errorf ''inode offset overflows int64'')
                     else
                       andThen (wrapErr ''failed to read inode'' (fs_read (unat (fs_InodeSize fs)) (sint offset))) (\<lambda>buf.
                         liftR (wrapR ''failed to decode inode'' (binary_Read 160 inode_decode buf))))))))"

definition ReadRootInode :: "Inode fsop" where
  "ReadRootInode = ReadInode RootInodeNum"

definition WriteInode :: "u32 \<Rightarrow> Inode \<Rightarrow> unit fsop" where
  "WriteInode inodeNum inode =
     (if inodeNum < 1 then failw (Errorf ''WriteInode: invalid inode number'')
      else
        andThen (inode_slot inodeNum) (\<lambda>(groupIndex, localInodeIndex).
        andThen (getS fs_GroupCount) (\<lambda>gc.
          if groupIndex \<ge> gc then failw (Errorf ''WriteInode: inode group out of range'')
          else
            andThen (bgd_at groupIndex) (\<lambda>bgd.
            andThen (getS id) (\<lambda>fs.
              let tableBlock = gd_addr fs (BG_inode_table_lo bgd) (BG_inode_table_hi bgd);
                  offset = i64 (block_off fs tableBlock + int (unat localInodeIndex) * int (unat (fs_InodeSize fs)))
              in andThen (wrapErr ''WriteInode: failed to read current inode data''
                           (fs_read (unat (fs_InodeSize fs)) offset)) (\<lambda>raw.
                   let inodeBytes = take (unat (fs_InodeSize fs)) (inode_bytes inode)
                   in wrapErr ''WriteInode: failed to write inode''
                        (fs_write (copy_at 0 inodeBytes raw) offset)))))))"

section \<open>Reading and writing inodes\<close>

lemma lt_one_word: "(w :: 'a::len word) < 1 \<longleftrightarrow> w = 0"
  using word_gt_0_no word_less_nat_alt [of w 1] by (auto simp: unat_eq_0)

definition inode_group :: "FileSystem \<Rightarrow> u32 \<Rightarrow> nat" where
  "inode_group s n = unat ((n - 1) div S_inodes_per_group (the (fs_sb s)))"

definition inode_index :: "FileSystem \<Rightarrow> u32 \<Rightarrow> nat" where
  "inode_index s n = unat ((n - 1) mod S_inodes_per_group (the (fs_sb s)))"

definition inode_table :: "FileSystem \<Rightarrow> nat \<Rightarrow> u64" where
  "inode_table s g = gd_addr s (BG_inode_table_lo (fs_Bgds s ! g)) (BG_inode_table_hi (fs_Bgds s ! g))"

definition inode_pos :: "FileSystem \<Rightarrow> u32 \<Rightarrow> nat" where
  "inode_pos s n = unat (inode_table s (inode_group s n)) * bsz s + inode_index s n * unat (fs_InodeSize s)"

text \<open>An inode number of the file system whose slot lies on the device.\<close>

definition inode_valid :: "FileSystem \<Rightarrow> u32 \<Rightarrow> bool" where
  "inode_valid s n \<longleftrightarrow> n \<noteq> 0 \<and> fs_sb s \<noteq> None \<and> S_inodes_per_group (the (fs_sb s)) \<noteq> 0 \<and>
     inode_group s n < unat (fs_GroupCount s) \<and> inode_group s n < length (fs_Bgds s) \<and>
     BG_inode_table_lo (fs_Bgds s ! inode_group s n) \<noteq> 0 \<and>
     inode_pos s n + unat (fs_InodeSize s) \<le> length (disk s)"

definition inode_at :: "FileSystem \<Rightarrow> u32 \<Rightarrow> Inode" where
  "inode_at s n = inode_decode (drop (inode_pos s n) (disk s))"

lemma inode_slot_valid:
  assumes "inode_valid s n"
  shows "inode_slot n s = (Ok ((n - 1) div S_inodes_per_group (the (fs_sb s)),
    (n - 1) mod S_inodes_per_group (the (fs_sb s))), s)"
  using assms by (auto simp: inode_valid_def inode_slot_def deref_sb_def)

lemma inode_offset:
  assumes "dev_ok (fs_dev s)" and "inode_valid s n" and "0 < unat (fs_InodeSize s)"
  defines "l \<equiv> (n - 1) mod S_inodes_per_group (the (fs_sb s))"
    and "t \<equiv> inode_table s (inode_group s n)"
  shows "unat (t * fs_BlockSize s + ucast l * ucast (fs_InodeSize s)) = inode_pos s n"
    and "i64 (block_off s t + int (unat l) * int (unat (fs_InodeSize s))) = int (inode_pos s n)"
    and "inode_pos s n < 2 ^ 62"
proof -
  have pos: "inode_pos s n = unat t * bsz s + unat l * unat (fs_InodeSize s)"
    by (simp add: inode_pos_def inode_index_def l_def t_def)
  show lt: "inode_pos s n < 2 ^ 62"
    using assms(2,3) dev_ok_size [OF assms(1)] by (simp add: inode_valid_def)
  have a: "unat (t * fs_BlockSize s) = unat t * bsz s"
    using lt pos by (intro unat_mult_u64) simp
  have b: "unat (ucast l * ucast (fs_InodeSize s) :: u64) = unat l * unat (fs_InodeSize s)"
    using unat_mult_u64 [of "ucast l" "ucast (fs_InodeSize s)"] lt pos by simp
  show "unat (t * fs_BlockSize s + ucast l * ucast (fs_InodeSize s)) = inode_pos s n"
    using a b lt pos by (subst unat_add_u64) simp_all
  have "block_off s t = int (unat t * bsz s)"
    unfolding block_off_def a [symmetric] using a lt pos by (intro sint_u64_small) simp
  then have "block_off s t + int (unat l) * int (unat (fs_InodeSize s)) = int (inode_pos s n)"
    unfolding pos by (simp only: of_nat_add of_nat_mult)
  moreover have "i64 (int (inode_pos s n)) = int (inode_pos s n)"
    using lt by (intro i64_id) simp_all
  ultimately show "i64 (block_off s t + int (unat l) * int (unat (fs_InodeSize s))) = int (inode_pos s n)"
    by simp
qed

lemma ReadInode_valid:
  assumes "dev_ok (fs_dev s)" and "inode_valid s n" and "0 < unat (fs_InodeSize s)"
  shows "ReadInode n s =
    (if unat (fs_InodeSize s) < 160 then Err (Wrapf ''failed to decode inode'' (Errorf ''unexpected EOF''))
     else Ok (inode_at s n), s)"
proof -
  let ?off = "inode_table s (inode_group s n) * fs_BlockSize s +
    ucast ((n - 1) mod S_inodes_per_group (the (fs_sb s))) * ucast (fs_InodeSize s)"
  note o = inode_offset [OF assms]
  have s: "sint ?off = int (inode_pos s n)" "\<not> ?off > 0x7FFFFFFFFFFFFFFF"
    using o by (simp_all add: sint_u64_small word_less_nat_alt)
  have rd: "fs_read (unat (fs_InodeSize s)) (int (inode_pos s n)) s =
      (Ok (bslice (inode_pos s n) (inode_pos s n + unat (fs_InodeSize s)) (disk s)), s)"
    using assms by (intro fs_read_ok) (auto simp: inode_valid_def)
  have g: "\<not> (n - 1) div S_inodes_per_group (the (fs_sb s)) \<ge> fs_GroupCount s"
    using assms(2) by (simp add: inode_valid_def inode_group_def word_le_nat_alt)
  have b: "bgd_at ((n - 1) div S_inodes_per_group (the (fs_sb s))) s = (Ok (fs_Bgds s ! inode_group s n), s)"
    using assms(2) by (simp add: inode_valid_def inode_group_def bgd_at_def)
  have dec: "inode_decode (bslice (inode_pos s n) (inode_pos s n + unat (fs_InodeSize s)) (disk s)) = inode_at s n"
    if "160 \<le> unat (fs_InodeSize s)"
    using assms(2) that inode.dec_take_ge [of "unat (fs_InodeSize s)" "drop (inode_pos s n) (disk s)"]
    by (auto simp: bslice_def inode_at_def inode_valid_def)
  have "n \<noteq> 0" "BG_inode_table_lo (fs_Bgds s ! inode_group s n) \<noteq> 0"
    using assms(2) by (auto simp: inode_valid_def)
  then show ?thesis
    using g b s rd dec inode_slot_valid [OF assms(2)] assms(2)
    by (auto simp: ReadInode_def Let_def inode_table_def [symmetric] binary_Read_def inode_valid_def
        not_less lt_one_word)
qed

lemma WriteInode_valid:
  assumes "dev_ok (fs_dev s)" and "inode_valid s n" and "160 \<le> unat (fs_InodeSize s)" and "inode_wf i"
  shows "WriteInode n i s = (Ok (), poke s (inode_pos s n)
    (copy_at 0 (inode_bytes i) (bslice (inode_pos s n) (inode_pos s n + unat (fs_InodeSize s)) (disk s))))"
proof -
  have pos: "0 < unat (fs_InodeSize s)" using assms(3) by linarith
  let ?raw = "bslice (inode_pos s n) (inode_pos s n + unat (fs_InodeSize s)) (disk s)"
  note o = inode_offset [OF assms(1,2) pos]
  have le: "inode_pos s n + unat (fs_InodeSize s) \<le> length (disk s)"
    using assms(2) by (simp add: inode_valid_def)
  have rd: "fs_read (unat (fs_InodeSize s)) (int (inode_pos s n)) s = (Ok ?raw, s)"
    using assms pos le by (intro fs_read_ok) auto
  have len: "length (copy_at 0 (inode_bytes i) ?raw) = unat (fs_InodeSize s)" using le by simp
  have wr: "fs_write (copy_at 0 (inode_bytes i) ?raw) (int (inode_pos s n)) s =
      (Ok (), poke s (inode_pos s n) (copy_at 0 (inode_bytes i) ?raw))"
    using assms(1) pos le len by (intro fs_write_ok) (auto simp flip: length_greater_0_conv)
  have g: "\<not> (n - 1) div S_inodes_per_group (the (fs_sb s)) \<ge> fs_GroupCount s"
    using assms(2) by (simp add: inode_valid_def inode_group_def word_le_nat_alt)
  have b: "bgd_at ((n - 1) div S_inodes_per_group (the (fs_sb s))) s = (Ok (fs_Bgds s ! inode_group s n), s)"
    using assms(2) by (simp add: inode_valid_def inode_group_def bgd_at_def)
  have t: "take (unat (fs_InodeSize s)) (inode_bytes i) = inode_bytes i"
    using assms(3,4) inode.enc_len by simp
  have "\<not> n < 1" using assms(2) by (simp add: inode_valid_def lt_one_word)
  then show ?thesis
    using g b rd wr o(2) inode_slot_valid [OF assms(2)]
    by (simp add: WriteInode_def Let_def inode_table_def [symmetric] t)
qed

text \<open>The inode tables of different groups do not overlap.\<close>

definition inode_tables_disjoint :: "FileSystem \<Rightarrow> bool" where
  "inode_tables_disjoint s \<longleftrightarrow>
     (\<forall>g < length (fs_Bgds s). \<forall>h < length (fs_Bgds s). g \<noteq> h \<longrightarrow>
        (let n = unat (S_inodes_per_group (the (fs_sb s))) * unat (fs_InodeSize s);
             a = unat (inode_table s g) * bsz s; b = unat (inode_table s h) * bsz s
         in a + n \<le> b \<or> b + n \<le> a))"

lemma inode_slots_disjoint:
  assumes "inode_tables_disjoint s" and "inode_valid s n" and "inode_valid s m" and "n \<noteq> m"
  shows "inode_pos s m + unat (fs_InodeSize s) \<le> inode_pos s n \<or>
         inode_pos s n + unat (fs_InodeSize s) \<le> inode_pos s m"
proof -
  let ?k = "S_inodes_per_group (the (fs_sb s))" and ?z = "unat (fs_InodeSize s)"
  have k: "0 < unat ?k" using assms(2) by (simp add: inode_valid_def unat_gt_0)
  have idx: "inode_index s x * ?z + ?z \<le> unat ?k * ?z" for x
  proof -
    have "Suc (inode_index s x) \<le> unat ?k"
      using k by (simp add: inode_index_def unat_mod Suc_le_eq)
    then show ?thesis using mult_le_mono1 [of "Suc (inode_index s x)" "unat ?k" ?z] by simp
  qed
  show ?thesis
  proof (cases "inode_group s n = inode_group s m")
    case True
    have "inode_index s n \<noteq> inode_index s m"
    proof
      assume "inode_index s n = inode_index s m"
      with True have "unat (n - 1) = unat (m - 1)"
        by (metis inode_group_def inode_index_def div_mult_mod_eq unat_div unat_mod)
      then show False using assms(4) by (simp add: word_unat_eq_iff [symmetric])
    qed
    with block_ranges_disjoint [of "inode_index s n" "inode_index s m" ?z] True
    show ?thesis by (auto simp: inode_pos_def)
  next
    case False
    have v: "inode_group s n < length (fs_Bgds s)" "inode_group s m < length (fs_Bgds s)"
      using assms(2,3) by (auto simp: inode_valid_def)
    from assms(1) [unfolded inode_tables_disjoint_def Let_def, rule_format, OF v False]
    show ?thesis using idx [of n] idx [of m] by (auto simp: inode_pos_def)
  qed
qed

lemma inode_valid_poke:
  assumes "dev_ok (fs_dev s)" and "p \<noteq> []" and "off + length p \<le> length (disk s)"
  shows "inode_pos (poke s off p) m = inode_pos s m" "inode_valid (poke s off p) m = inode_valid s m"
proof -
  have "inode_group (poke s off p) m = inode_group s m" "inode_index (poke s off p) m = inode_index s m"
    "inode_table (poke s off p) g = inode_table s g" for g
    by (simp_all add: inode_group_def inode_index_def inode_table_def gd_addr_def)
  with assms show "inode_pos (poke s off p) m = inode_pos s m" "inode_valid (poke s off p) m = inode_valid s m"
    by (simp_all add: inode_pos_def inode_valid_def)
qed

lemma write_read_law:
  assumes "dev_ok (fs_dev s)" and "160 \<le> unat (fs_InodeSize s)" and "inode_tables_disjoint s"
    and "inode_valid s n" and "inode_wf i"
  shows "\<exists>s'. WriteInode n i s = (Ok (), s') \<and> ReadInode n s' = (Ok i, s') \<and>
    (\<forall>m. inode_valid s m \<and> m \<noteq> n \<longrightarrow> fst (ReadInode m s') = fst (ReadInode m s)) \<and>
    bslice (inode_pos s n + 160) (inode_pos s n + unat (fs_InodeSize s)) (disk s') =
    bslice (inode_pos s n + 160) (inode_pos s n + unat (fs_InodeSize s)) (disk s)"
proof -
  define z where "z = unat (fs_InodeSize s)"
  define pos where "pos = inode_pos s n"
  define p where "p = copy_at 0 (inode_bytes i) (bslice pos (pos + z) (disk s))"
  define s' where "s' = poke s pos p"
  have z: "160 \<le> z" "0 < z" "pos + z \<le> length (disk s)"
    using assms(2,4) by (auto simp: z_def pos_def inode_valid_def)
  have lp: "length p = z" using z by (simp add: p_def)
  then have pp: "p \<noteq> []" "pos + length p \<le> length (disk s)" using z by auto
  note v = inode_valid_poke [OF assms(1) pp, folded s'_def]
  have d: "disk s' = copy_at pos p (disk s)" "dev_ok (fs_dev s')" "fs_InodeSize s' = fs_InodeSize s"
    using poke_ok [OF assms(1) pp] by (simp_all add: s'_def)
  have eq: "copy_at pos p (disk s) = copy_at pos (inode_bytes i) (disk s)"
    using z lp inode.enc_len [OF assms(5)]
    by (intro nth_equalityI) (auto simp: nth_copy_at p_def)
  have w: "WriteInode n i s = (Ok (), s')"
    using WriteInode_valid [OF assms(1,4,2,5)] by (simp add: s'_def p_def z_def pos_def)
  have "inode_at s' n = i"
    using z inode.dec_copy_at [OF assms(5), of pos "disk s"] v by (simp add: inode_at_def d eq flip: pos_def)
  then have r: "ReadInode n s' = (Ok i, s')"
    using ReadInode_valid [of s' n] d v assms(2,4) by simp
  have other: "fst (ReadInode m s') = fst (ReadInode m s)" if m: "inode_valid s m" "m \<noteq> n" for m
  proof -
    have "inode_pos s m + z \<le> pos \<or> pos + z \<le> inode_pos s m"
      using inode_slots_disjoint [OF assms(3,4) m(1)] m(2) by (auto simp: z_def pos_def)
    moreover have "inode_pos s m + z \<le> length (disk s)" using m(1) by (simp add: inode_valid_def z_def)
    ultimately have "inode_at s' m = inode_at s m"
      using inode.dec_copy_at_other [OF assms(5), of pos "disk s" "inode_pos s m"] z v
      by (auto simp: inode_at_def d eq)
    then show ?thesis
      using ReadInode_valid [of s' m] ReadInode_valid [OF assms(1) m(1)] d v m assms(2) by simp
  qed
  have "bslice (pos + 160) (pos + z) (disk s') = bslice (pos + 160) (pos + z) (disk s)"
    unfolding d eq using z inode.enc_len [OF assms(5)] by (intro slice_copy_at_other) auto
  with w r other show ?thesis by (auto simp: z_def pos_def)
qed

text \<open>C6: an inode that is written is read back as it was written, and every other inode of
  the file system still reads as before; the bytes of the slot behind the struct are kept.\<close>

theorem write_read_inode:
  assumes "dev_ok (fs_dev s)" and "160 \<le> unat (fs_InodeSize s)" and "inode_tables_disjoint s"
    and "inode_valid s n" and "inode_wf i"
  shows "\<exists>s'. WriteInode n i s = (Ok (), s') \<and> ReadInode n s' = (Ok i, s') \<and>
    (\<forall>m. inode_valid s m \<and> m \<noteq> n \<longrightarrow> fst (ReadInode m s') = fst (ReadInode m s)) \<and>
    bslice (inode_pos s n + 160) (inode_pos s n + unat (fs_InodeSize s)) (disk s') =
    bslice (inode_pos s n + 160) (inode_pos s n + unat (fs_InodeSize s)) (disk s)"
  using assms by (rule write_read_law)

text \<open>With inodes of fewer than 160 bytes (128, the size of revision 0 and of small file
  systems) no inode can be read: the decoder wants 160 bytes from a buffer of the inode's size.\<close>

theorem short_inodes_unreadable:
  assumes "dev_ok (fs_dev s)" and "inode_valid s n" and "0 < unat (fs_InodeSize s)"
    and "unat (fs_InodeSize s) < 160"
  shows "ReadInode n s = (Err (Wrapf ''failed to decode inode'' (Errorf ''unexpected EOF'')), s)"
  using ReadInode_valid [OF assms(1-3)] assms(4) by simp

section \<open>A mounted example\<close>

definition example_fs :: "u16 \<Rightarrow> FileSystem" where
  "example_fs isz = \<lparr>fs_dev = example_dev 64, fs_sb = Some (example_sb 64), fs_Bgds = [example_gd],
     fs_BlockSize = 1024, fs_InodeSize = isz, fs_GroupCount = 1, fs_DescSize = 64,
     fs_dirCache = (\<lambda>_. None)\<rparr>"

lemma example_fs_sel [simp]:
  "fs_sb (example_fs isz) = Some (example_sb 64)" "fs_Bgds (example_fs isz) = [example_gd]"
  "fs_BlockSize (example_fs isz) = 1024" "fs_InodeSize (example_fs isz) = isz"
  "fs_GroupCount (example_fs isz) = 1" "fs_DescSize (example_fs isz) = 64"
  "fs_dirCache (example_fs isz) key = None"
  by (simp_all add: example_fs_def)

definition example_inode :: Inode where
  "example_inode = (inode_decode (zeros 160))\<lparr>I_mode := S_IFREG OR 0x1A4, I_links_count := 1\<rparr>"

lemma example_inode_wf: "inode_wf example_inode"
  using inode.dec_wf [of "zeros 160"] by (simp add: example_inode_def inode_wf_def)

lemma example_fs_dev: "dev_ok (fs_dev (example_fs isz))" "length (disk (example_fs isz)) = 16384"
  using example_image_layout(1) [of 64] by (simp_all add: example_fs_def example_dev_def file_ok_def)

lemma example_inode_valid: "unat isz \<le> 256 \<Longrightarrow> inode_valid (example_fs isz) 12"
proof -
  assume "unat isz \<le> 256"
  have ipg: "S_inodes_per_group (example_sb 64) = 16" by (simp add: example_sb_def)
  have g: "inode_group (example_fs isz) 12 = 0" "inode_index (example_fs isz) 12 = 11"
    by (simp_all add: inode_group_def inode_index_def example_fs_def ipg unat_div unat_mod)
  moreover have "unat (inode_table (example_fs isz) 0) = 5"
    by (simp add: inode_table_def gd_addr_def example_fs_def example_gd_def gd_decode_def)
  ultimately have "inode_pos (example_fs isz) 12 = 5120 + 11 * unat isz"
    by (simp add: inode_pos_def)
  then show ?thesis
    using \<open>unat isz \<le> 256\<close> g ipg example_fs_dev(2) [of isz]
    by (simp add: inode_valid_def example_gd_def)
qed

theorem write_read_inode_witness:
  "\<exists>s'. WriteInode 12 example_inode (example_fs 256) = (Ok (), s') \<and> ReadInode 12 s' = (Ok example_inode, s')"
proof -
  have "inode_tables_disjoint (example_fs 256)"
    by (simp add: inode_tables_disjoint_def example_fs_def)
  then show ?thesis
    using write_read_inode [OF example_fs_dev(1) _ _ example_inode_valid example_inode_wf, of 256]
    by (auto simp: example_fs_def)
qed

theorem short_inodes_unreadable_witness:
  "fst (ReadInode 12 (example_fs 128)) = Err (Wrapf ''failed to decode inode'' (Errorf ''unexpected EOF''))"
  using short_inodes_unreadable [OF example_fs_dev(1) example_inode_valid, of 128]
  by (simp add: example_fs_def)

end
