(* ===== verification/Extent_Tree.thy ===== *)
theory Extent_Tree
  imports Inodes
begin

text \<open>
  \<open>vfs/extents.go\<close> and \<open>findPhysicalBlock\<close> of \<open>vfs/writer.go\<close>: the extent tree of an inode. The
  three on-disk structs interpret \<open>codec\<close>. \<open>parseExtentNode\<close> recurses into child blocks without
  a depth limit; its first argument bounds the nesting of calls, and running out of it is
  the stack overflow that ends the Go program. An on-disk depth field is 16 bits wide, so
  every tree whose depth fields decrease fits into \<open>max_depth\<close> calls.

  \<open>ext_tree\<close> says which extents a node stands for; \<open>ReadExtents\<close> computes them.
\<close>

section \<open>Structs\<close>

record ExtentHeader =
  EH_magic :: u16
  EH_entries :: u16
  EH_max :: u16
  EH_depth :: u16
  EH_generation :: u32

record Extent =
  EE_block :: u32
  EE_len :: u16
  EE_start_hi :: u16
  EE_start_lo :: u32

record ExtentIdx =
  EI_block :: u32
  EI_leaf_lo :: u32
  EI_leaf_hi :: u16
  EI_unused :: u16

definition EXT4_EXT_MAGIC :: u16 where "EXT4_EXT_MAGIC = 0xF30A"
definition extentHeaderSize :: nat where "extentHeaderSize = 12"
definition extentEntrySize :: nat where "extentEntrySize = 12"

lemmas extent_sizes [simp] = extentHeaderSize_def extentEntrySize_def

definition header_bytes :: "ExtentHeader \<Rightarrow> bytes" where
  "header_bytes h = put16 (EH_magic h) @ put16 (EH_entries h) @ put16 (EH_max h) @ put16 (EH_depth h) @
     put32 (EH_generation h)"

definition header_decode :: "bytes \<Rightarrow> ExtentHeader" where
  "header_decode b = \<lparr>EH_magic = get16 0 b, EH_entries = get16 2 b, EH_max = get16 4 b, EH_depth = get16 6 b,
     EH_generation = get32 8 b\<rparr>"

definition extent_bytes :: "Extent \<Rightarrow> bytes" where
  "extent_bytes e = put32 (EE_block e) @ put16 (EE_len e) @ put16 (EE_start_hi e) @ put32 (EE_start_lo e)"

definition extent_decode :: "bytes \<Rightarrow> Extent" where
  "extent_decode b = \<lparr>EE_block = get32 0 b, EE_len = get16 4 b, EE_start_hi = get16 6 b, EE_start_lo = get32 8 b\<rparr>"

definition idx_bytes :: "ExtentIdx \<Rightarrow> bytes" where
  "idx_bytes e = put32 (EI_block e) @ put32 (EI_leaf_lo e) @ put16 (EI_leaf_hi e) @ put16 (EI_unused e)"

definition idx_decode :: "bytes \<Rightarrow> ExtentIdx" where
  "idx_decode b = \<lparr>EI_block = get32 0 b, EI_leaf_lo = get32 4 b, EI_leaf_hi = get16 8 b, EI_unused = get16 10 b\<rparr>"

interpretation header: codec header_bytes header_decode 12 "\<lambda>_. True"
  by unfold_locales
    (simp_all add: header_bytes_def header_decode_def bytes_simps flip: slice_from_0 numeral_2_eq_2)

interpretation extent: codec extent_bytes extent_decode 12 "\<lambda>_. True"
  by unfold_locales
    (simp_all add: extent_bytes_def extent_decode_def bytes_simps flip: slice_from_0 numeral_2_eq_2)

interpretation idx: codec idx_bytes idx_decode 12 "\<lambda>_. True"
  by unfold_locales
    (simp_all add: idx_bytes_def idx_decode_def bytes_simps flip: slice_from_0 numeral_2_eq_2)

lemma length_ext_bytes [simp]: "length (header_bytes h) = 12" "length (extent_bytes e) = 12" "length (idx_bytes x) = 12"
  using header.enc_len extent.enc_len idx.enc_len by simp_all

definition ext_start :: "Extent \<Rightarrow> u64" where
  "ext_start e = push_bit 32 (ucast (EE_start_hi e)) OR ucast (EE_start_lo e)"

definition ext_uninit :: "Extent \<Rightarrow> bool" where
  "ext_uninit e \<longleftrightarrow> EE_len e AND 0x8000 \<noteq> 0"

definition ext_count :: "Extent \<Rightarrow> u64" where
  "ext_count e = ucast (EE_len e AND 0x7FFF)"

definition idx_leaf :: "ExtentIdx \<Rightarrow> u64" where
  "idx_leaf x = push_bit 32 (ucast (EI_leaf_hi x)) OR ucast (EI_leaf_lo x)"

section \<open>Reading the tree\<close>

fun leaf_loop :: "bytes \<Rightarrow> nat list \<Rightarrow> Extent list res" where
  "leaf_loop data [] = Ok []"
| "leaf_loop data (i # is) =
     (let offset = i * extentEntrySize
      in if offset + extentEntrySize > length data then Err (Errorf ''extent entry extends beyond leaf node data'')
         else bindR (goslice offset (offset + extentEntrySize) data) (\<lambda>b.
              bindR (wrapR ''failed to decode extent entry'' (binary_Read 12 extent_decode b)) (\<lambda>ext.
              bindR (leaf_loop data is) (\<lambda>rest. Ok (ext # rest)))))"

definition parseLeafEntries :: "bytes \<Rightarrow> u16 \<Rightarrow> Extent list res" where
  "parseLeafEntries data cnt = leaf_loop data [0..<unat cnt]"

fun children_loop :: "(bytes \<Rightarrow> Extent list fsop) \<Rightarrow> bytes \<Rightarrow> nat list \<Rightarrow> Extent list fsop" where
  "children_loop parse data [] = ret []"
| "children_loop parse data (i # is) =
     (let entryOffset = extentHeaderSize + i * extentEntrySize
      in if entryOffset + extentEntrySize > length data
         then failw (Errorf ''extent index extends beyond node data'')
         else
           andThen (liftR (goslice entryOffset (entryOffset + extentEntrySize) data)) (\<lambda>b.
           andThen (liftR (wrapR ''failed to decode extent index'' (binary_Read 12 idx_decode b))) (\<lambda>idx.
           andThen (wrapErr ''failed to read extent index block'' (read_block (idx_leaf idx))) (\<lambda>childBuf.
           andThen (wrapErr ''failed to parse child extent node'' (parse childBuf)) (\<lambda>childExtents.
           andThen (children_loop parse data is) (\<lambda>rest. ret (childExtents @ rest)))))))"

primrec parseExtentNode :: "nat \<Rightarrow> bytes \<Rightarrow> Extent list fsop" where
  "parseExtentNode 0 = (\<lambda>data. panic)"
| "parseExtentNode (Suc depth) = (\<lambda>data.
     if length data < extentHeaderSize then failw (Errorf ''extent node too small'')
     else
       andThen (liftR (wrapR ''failed to decode extent header''
                  (binary_Read 12 header_decode (take extentHeaderSize data)))) (\<lambda>hdr.
         if EH_magic hdr \<noteq> EXT4_EXT_MAGIC then failw (Errorf ''bad extent magic'')
         else if EH_depth hdr = 0 then liftR (parseLeafEntries (drop extentHeaderSize data) (EH_entries hdr))
         else children_loop (parseExtentNode depth) data [0..<unat (EH_entries hdr)]))"

definition max_depth :: nat where "max_depth = 65537"

definition ReadExtents :: "Inode \<Rightarrow> Extent list fsop" where
  "ReadExtents inode =
     (if \<not> UsesExtents inode
      then failw (Errorf ''inode uses legacy indirect block addressing; indirect block scheme is not yet supported'')
      else parseExtentNode max_depth (I_block inode))"

fun findPhysicalBlock :: "Extent list \<Rightarrow> u32 \<Rightarrow> u64 option" where
  "findPhysicalBlock [] logicalBlock = None"
| "findPhysicalBlock (ext # exts) logicalBlock =
     (if ext_uninit ext then findPhysicalBlock exts logicalBlock
      else if logicalBlock \<ge> EE_block ext \<and> logicalBlock < EE_block ext + ucast (ext_count ext)
      then Some (ext_start ext + ucast (logicalBlock - EE_block ext))
      else findPhysicalBlock exts logicalBlock)"

section \<open>What a node stands for\<close>

text \<open>\<open>ext_tree s data h exts\<close>: the node in \<open>data\<close> is the root of a tree of height \<open>h\<close> with the
  extents \<open>exts\<close>, its children in blocks of the disk.\<close>

inductive ext_tree :: "FileSystem \<Rightarrow> bytes \<Rightarrow> nat \<Rightarrow> Extent list \<Rightarrow> bool"
  and ext_children :: "FileSystem \<Rightarrow> bytes \<Rightarrow> nat list \<Rightarrow> nat \<Rightarrow> Extent list \<Rightarrow> bool" for s where
  leaf: "12 \<le> length data \<Longrightarrow> EH_magic (header_decode data) = EXT4_EXT_MAGIC \<Longrightarrow>
     EH_depth (header_decode data) = 0 \<Longrightarrow> 12 + 12 * unat (EH_entries (header_decode data)) \<le> length data \<Longrightarrow>
     exts = map (\<lambda>i. extent_decode (drop (12 + i * 12) data)) [0..<unat (EH_entries (header_decode data))] \<Longrightarrow>
     ext_tree s data h exts"
| node: "12 \<le> length data \<Longrightarrow> EH_magic (header_decode data) = EXT4_EXT_MAGIC \<Longrightarrow>
     EH_depth (header_decode data) \<noteq> 0 \<Longrightarrow>
     ext_children s data [0..<unat (EH_entries (header_decode data))] h exts \<Longrightarrow>
     ext_tree s data (Suc h) exts"
| none: "ext_children s data [] h []"
| child: "12 + i * 12 + 12 \<le> length data \<Longrightarrow>
     block_in s (idx_leaf (idx_decode (drop (12 + i * 12) data))) \<Longrightarrow>
     ext_tree s (blk s (idx_leaf (idx_decode (drop (12 + i * 12) data)))) h e1 \<Longrightarrow>
     ext_children s data is h e2 \<Longrightarrow> ext_children s data (i # is) h (e1 @ e2)"

inductive_cases ext_treeE: "ext_tree s data h exts"
inductive_cases ext_childrenE: "ext_children s data is h exts"

lemma leaf_loop_ok:
  "\<forall>i \<in> set is. i * 12 + 12 \<le> length data \<Longrightarrow>
   leaf_loop data is = Ok (map (\<lambda>i. extent_decode (drop (i * 12) data)) is)"
proof (induction "is")
  case (Cons i "is")
  have "extent_decode (bslice (i * 12) (i * 12 + 12) data) = extent_decode (drop (i * 12) data)"
    using Cons.prems extent.dec_take [of "drop (i * 12) data"] by (auto simp: bslice_def)
  with Cons show ?case by (auto simp: Let_def goslice_def binary_Read_def)
qed simp

lemma header_take: "12 \<le> length data \<Longrightarrow> header_decode (take 12 data) = header_decode data"
  using header.dec_take by simp

lemma parse_sound:
  assumes "fs_ok s"
  shows "ext_tree s data h exts \<Longrightarrow> h < d \<Longrightarrow> parseExtentNode d data s = (Ok exts, s)"
    and "ext_children s data is h exts \<Longrightarrow> h < d \<Longrightarrow> children_loop (parseExtentNode d) data is s = (Ok exts, s)"
proof (induction arbitrary: d and d rule: ext_tree_ext_children.inducts)
  case (leaf data exts h)
  then obtain d' where d: "d = Suc d'" by (cases d) auto
  let ?n = "unat (EH_entries (header_decode data))"
  have "leaf_loop (drop 12 data) [0..<?n] =
      Ok (map (\<lambda>i. extent_decode (drop (i * 12) (drop 12 data))) [0..<?n])"
    using leaf by (intro leaf_loop_ok) auto
  then show ?case
    using leaf by (simp add: d binary_Read_def header_take parseLeafEntries_def add.commute)
next
  case (node data h exts)
  then obtain d' where d: "d = Suc d'" by (cases d) auto
  show ?case using node by (simp add: d binary_Read_def header_take)
next
  case (child i data h e1 "is" e2)
  let ?b = "idx_leaf (idx_decode (drop (12 + i * 12) data))"
  have "idx_decode (bslice (12 + i * 12) (12 + i * 12 + 12) data) = idx_decode (drop (12 + i * 12) data)"
    using child.hyps idx.dec_take [of "drop (12 + i * 12) data"] by (simp add: bslice_def)
  then show ?case
    using child assms by (simp add: Let_def goslice_def binary_Read_def)
qed simp

text \<open>C7: \<open>ReadExtents\<close> returns exactly the extents of the inode's tree, in order, for every
  tree of height below the bound (depth fields are 16 bits wide); the disk is not changed.\<close>

theorem ReadExtents_tree:
  assumes "fs_ok s" and "UsesExtents i" and "ext_tree s (I_block i) h exts" and "h \<le> 65536"
  shows "ReadExtents i s = (Ok exts, s)"
  using parse_sound(1) [OF assms(1,3), of max_depth] assms(2,4) by (simp add: ReadExtents_def max_depth_def)

lemma parse_cycle:
  assumes "fs_ok s" and "block_in s b" and "EH_magic (header_decode (blk s b)) = EXT4_EXT_MAGIC"
    and "EH_depth (header_decode (blk s b)) \<noteq> 0" and "EH_entries (header_decode (blk s b)) \<noteq> 0"
    and "idx_leaf (idx_decode (drop 12 (blk s b))) = b"
  shows "parseExtentNode d (blk s b) s = (Panic, s)"
proof (induction d)
  case (Suc d)
  let ?n = "unat (EH_entries (header_decode (blk s b)))"
  have len: "24 \<le> length (blk s b)" using assms(1,2) by (simp add: fs_ok_def)
  have "0 < ?n" using assms(5) by (simp add: unat_gt_0)
  then have up: "[0..<?n] = 0 # [1..<?n]" by (simp add: upt_conv_Cons)
  have "idx_decode (bslice 12 24 (blk s b)) = idx_decode (drop 12 (blk s b))"
    using len idx.dec_take [of "drop 12 (blk s b)"] by (auto simp: bslice_def)
  then have "children_loop (parseExtentNode d) (blk s b) [0..<?n] s = (Panic, s)"
    unfolding up using len assms Suc by (simp add: Let_def goslice_def binary_Read_def)
  then show ?case using len assms by (simp add: binary_Read_def header_take)
qed simp

text \<open>The parser follows child pointers without looking for cycles and without comparing
  depth fields: an index block that names itself as its first child makes it recurse until
  the stack is exhausted, whatever the bound.\<close>

theorem extent_cycle_overflows:
  assumes "fs_ok s" and "block_in s b" and "blk s b = header_bytes hdr @ idx_bytes x @ r"
    and "EH_magic hdr = EXT4_EXT_MAGIC" and "EH_depth hdr \<noteq> 0" and "EH_entries hdr \<noteq> 0" and "idx_leaf x = b"
  shows "parseExtentNode d (blk s b) s = (Panic, s)"
proof (rule parse_cycle [OF assms(1,2)])
  have h: "header_decode (blk s b) = hdr" using assms(3) header.dec_enc by simp
  show "EH_magic (header_decode (blk s b)) = EXT4_EXT_MAGIC" "EH_depth (header_decode (blk s b)) \<noteq> 0"
    "EH_entries (header_decode (blk s b)) \<noteq> 0"
    using h assms by simp_all
  show "idx_leaf (idx_decode (drop 12 (blk s b))) = b"
    using assms(3,7) idx.dec_enc by simp
qed

section \<open>Mapping logical blocks\<close>

lemma findPhysicalBlock_Some:
  "findPhysicalBlock exts l = Some p \<Longrightarrow>
   \<exists>e \<in> set exts. \<not> ext_uninit e \<and> EE_block e \<le> l \<and> l < EE_block e + ucast (ext_count e) \<and>
     p = ext_start e + ucast (l - EE_block e)"
  by (induction exts) (auto split: if_splits)

lemma ext_count_less: "unat (ext_count e) < 2 ^ 15"
proof -
  have "EE_len e AND 0x7FFF = take_bit 15 (EE_len e)"
    by (simp add: take_bit_eq_mask mask_eq_exp_minus_1)
  moreover have "unat (take_bit 15 (EE_len e)) < 2 ^ 15"
    using take_bit_nat_less_exp [of 15 "unat (EE_len e)"] by (simp add: unsigned_take_bit_eq)
  ultimately show ?thesis by (simp add: ext_count_def)
qed

section \<open>Examples\<close>

definition leaf_header :: "u16 \<Rightarrow> ExtentHeader" where
  "leaf_header n = \<lparr>EH_magic = EXT4_EXT_MAGIC, EH_entries = n, EH_max = 4, EH_depth = 0, EH_generation = 0\<rparr>"

definition example_extent :: Extent where
  "example_extent = \<lparr>EE_block = 0, EE_len = 2, EE_start_hi = 0, EE_start_lo = 9\<rparr>"

definition example_file :: Inode where
  "example_file = example_inode\<lparr>I_flags := EXT4_EXTENTS_FL,
     I_block := header_bytes (leaf_header 1) @ extent_bytes example_extent @ zeros 36\<rparr>"

definition cyclic_idx :: ExtentIdx where
  "cyclic_idx = \<lparr>EI_block = 0, EI_leaf_lo = 9, EI_leaf_hi = 0, EI_unused = 0\<rparr>"

definition cyclic_block :: bytes where
  "cyclic_block = header_bytes ((leaf_header 1)\<lparr>EH_depth := 1\<rparr>) @ idx_bytes cyclic_idx @ zeros 1000"

lemma example_fs_ok: "fs_ok (example_fs isz)"
  using example_fs_dev by (simp add: fs_ok_def)

lemma example_file_tree: "ext_tree s (I_block example_file) 0 [example_extent]"
proof (rule ext_tree_ext_children.leaf)
  let ?d = "I_block example_file"
  have h: "header_decode ?d = leaf_header 1" by (simp add: example_file_def header.dec_enc)
  show "12 \<le> length ?d" by (simp add: example_file_def)
  show "EH_magic (header_decode ?d) = EXT4_EXT_MAGIC" "EH_depth (header_decode ?d) = 0"
    "12 + 12 * unat (EH_entries (header_decode ?d)) \<le> length ?d"
    unfolding h by (simp_all add: leaf_header_def example_file_def)
  show "[example_extent] = map (\<lambda>i. extent_decode (drop (12 + i * 12) ?d)) [0..<unat (EH_entries (header_decode ?d))]"
    unfolding h by (simp add: leaf_header_def) (simp add: example_file_def extent.dec_enc)
qed

theorem ReadExtents_tree_witness: "ReadExtents example_file (example_fs 256) = (Ok [example_extent], example_fs 256)"
  using ReadExtents_tree [OF example_fs_ok _ example_file_tree, of 256]
  by (simp add: example_file_def UsesExtents_def EXT4_EXTENTS_FL_def)

theorem extent_cycle_overflows_witness:
  "fst (parseExtentNode max_depth (blk (put_block (example_fs 256) 9 cyclic_block) 9)
     (put_block (example_fs 256) 9 cyclic_block)) = Panic"
proof -
  let ?s = "put_block (example_fs 256) 9 cyclic_block"
  have b: "block_in (example_fs 256) 9" "length cyclic_block = bsz (example_fs 256)"
    using example_fs_dev(2) [of 256] by (simp_all add: block_in_def cyclic_block_def)
  have blk: "blk ?s 9 = cyclic_block"
    using blk_put_block [OF example_fs_ok b b(1)] by simp
  have "parseExtentNode max_depth (blk ?s 9) ?s = (Panic, ?s)"
    using b put_block_ok [OF example_fs_ok b]
    by (intro extent_cycle_overflows [where x = cyclic_idx and hdr = "(leaf_header 1)\<lparr>EH_depth := 1\<rparr>" and r = "zeros 1000"])
       (simp_all add: blk, simp_all add: cyclic_block_def leaf_header_def cyclic_idx_def idx_leaf_def)
  then show ?thesis by simp
qed

end
