(* ===== verification/Allocation.thy ===== *)
theory Allocation
  imports Inodes
begin

text \<open>
  \<open>AllocateBlock\<close> and \<open>AllocateInode\<close> of \<open>vfs/allocate.go\<close>, \<open>FreeBlock\<close> and \<open>FreeInode\<close> of
  \<open>vfs/reclaim.go\<close>. The two allocators share their scan of a bitmap (\<open>scan_bitmap\<close>), the
  change of one bit, and the bookkeeping of descriptor and superblock. The facts on single
  bits at the end serve the correctness theory \<open>Bitmap_Pool\<close>.
\<close>

section \<open>Bitmaps\<close>

fun scan_bits :: "u8 \<Rightarrow> nat list \<Rightarrow> nat option" where
  "scan_bits b [] = None"
| "scan_bits b (i # is) = (if b AND push_bit i 1 = 0 then Some i else scan_bits b is)"

text \<open>Bytes in order; a byte of \<open>0xFF\<close> is skipped; in the first byte only bits from
  \<open>startBit % 8\<close> on are tried.\<close>

fun scan_bytes :: "bytes \<Rightarrow> nat \<Rightarrow> nat list \<Rightarrow> (nat \<times> nat) option" where
  "scan_bytes bitmap startBit [] = None"
| "scan_bytes bitmap startBit (j # js) =
     (if bitmap ! j = 0xFF then scan_bytes bitmap startBit js
      else
        let minBit = (if j = startBit div 8 then startBit mod 8 else 0)
        in case scan_bits (bitmap ! j) [minBit..<8] of
             Some i \<Rightarrow> Some (j, i)
           | None \<Rightarrow> scan_bytes bitmap startBit js)"

definition scan_bitmap :: "bytes \<Rightarrow> nat \<Rightarrow> (nat \<times> nat) option" where
  "scan_bitmap bitmap startBit = scan_bytes bitmap startBit [startBit div 8..<length bitmap]"

definition bitmap_set :: "bytes \<Rightarrow> nat \<Rightarrow> nat \<Rightarrow> bytes" where
  "bitmap_set bitmap byteIdx i = bitmap[byteIdx := bitmap ! byteIdx OR push_bit i 1]"

definition bitmap_clear :: "bytes \<Rightarrow> nat \<Rightarrow> nat \<Rightarrow> bytes" where
  "bitmap_clear bitmap byteIdx i = bitmap[byteIdx := bitmap ! byteIdx AND NOT (push_bit i 1)]"

section \<open>Blocks\<close>

definition upd_bgd :: "u32 \<Rightarrow> (GroupDescriptor \<Rightarrow> GroupDescriptor) \<Rightarrow> FileSystem \<Rightarrow> FileSystem" where
  "upd_bgd g f s = s\<lparr>fs_Bgds := (fs_Bgds s)[unat g := f (fs_Bgds s ! unat g)]\<rparr>"

definition group_free_blocks :: "FileSystem \<Rightarrow> GroupDescriptor \<Rightarrow> u64" where
  "group_free_blocks s bgd =
     (if fs_DescSize s > 32 then ucast (BG_free_blocks_count_lo bgd) OR push_bit 16 (ucast (BG_free_blocks_count_hi bgd))
      else ucast (BG_free_blocks_count_lo bgd))"

fun alloc_block_loop :: "u64 \<Rightarrow> u32 list \<Rightarrow> u64 fsop" where
  "alloc_block_loop blocksPerGroup [] = failw (Errorf ''AllocateBlock: no free blocks available'')"
| "alloc_block_loop blocksPerGroup (g # gs) =
     andThen (bgd_at g) (\<lambda>bgd.
     andThen (getS id) (\<lambda>fs.
       if group_free_blocks fs bgd = 0 then alloc_block_loop blocksPerGroup gs
       else
         let bitmapBlock = gd_addr fs (BG_block_bitmap_lo bgd) (BG_block_bitmap_hi bgd)
         in andThen (wrapErr ''AllocateBlock: failed to read block bitmap'' (read_block bitmapBlock)) (\<lambda>bitmap.
              case scan_bitmap bitmap 0 of
                None \<Rightarrow> alloc_block_loop blocksPerGroup gs
              | Some (byteIdx, bitIdx) \<Rightarrow>
                  andThen (wrapErr ''AllocateBlock: failed to write block bitmap''
                            (write_block (bitmap_set bitmap byteIdx bitIdx) bitmapBlock)) (\<lambda>_.
                  let bgd' = bgd\<lparr>BG_free_blocks_count_lo := BG_free_blocks_count_lo bgd - 1\<rparr>
                  in andThen (modS (upd_bgd g (\<lambda>_. bgd'))) (\<lambda>_.
                     andThen (wrapErr ''AllocateBlock'' (WriteGroupDescriptor g bgd')) (\<lambda>_.
                     andThen (updateSuperblockFreeBlocks (- 1)) (\<lambda>_.
                       ret (ucast g * blocksPerGroup + word_of_nat byteIdx * 8 + word_of_nat bitIdx))))))))"

definition AllocateBlock :: "u64 fsop" where
  "AllocateBlock =
     andThen deref_sb (\<lambda>sb.
     andThen (getS fs_GroupCount) (\<lambda>gc.
       alloc_block_loop (ucast (S_blocks_per_group sb)) (map word_of_nat [0..<unat gc])))"

definition FreeBlock :: "u64 \<Rightarrow> unit fsop" where
  "FreeBlock blockNum =
     andThen deref_sb (\<lambda>sb.
       let blocksPerGroup = ucast (S_blocks_per_group sb) :: u64
       in if blocksPerGroup = 0 then panic
          else
            let groupIdx = ucast (blockNum div blocksPerGroup) :: u32;
                localIndex = blockNum mod blocksPerGroup
            in andThen (getS id) (\<lambda>fs.
               if groupIdx \<ge> fs_GroupCount fs then failw (Errorf ''FreeBlock: block group out of range'')
               else
                 andThen (bgd_at groupIdx) (\<lambda>bgd.
                   let bitmapBlock = gd_addr fs (BG_block_bitmap_lo bgd) (BG_block_bitmap_hi bgd)
                   in andThen (wrapErr ''FreeBlock: failed to read block bitmap'' (read_block bitmapBlock)) (\<lambda>bitmap.
                        let byteIdx = unat (localIndex div 8); bitIdx = unat (localIndex mod 8)
                        in if byteIdx \<ge> length bitmap then panic
                           else if bitmap ! byteIdx AND push_bit bitIdx 1 = 0
                           then failw (Errorf ''FreeBlock: block is already free'')
                           else
                             andThen (wrapErr ''FreeBlock: failed to write block bitmap''
                                       (write_block (bitmap_clear bitmap byteIdx bitIdx) bitmapBlock)) (\<lambda>_.
                             let bgd' = bgd\<lparr>BG_free_blocks_count_lo := BG_free_blocks_count_lo bgd + 1\<rparr>
                             in andThen (modS (upd_bgd groupIdx (\<lambda>_. bgd'))) (\<lambda>_.
                                andThen (wrapErr ''FreeBlock'' (WriteGroupDescriptor groupIdx bgd')) (\<lambda>_.
                                  updateSuperblockFreeBlocks 1)))))))"

section \<open>Inodes\<close>

definition group_free_inodes :: "FileSystem \<Rightarrow> GroupDescriptor \<Rightarrow> u64" where
  "group_free_inodes s bgd =
     (if fs_DescSize s > 32 then ucast (BG_free_inodes_count_lo bgd) OR push_bit 16 (ucast (BG_free_inodes_count_hi bgd))
      else ucast (BG_free_inodes_count_lo bgd))"

text \<open>In group 0 the scan starts at bit 11, behind the reserved inodes.\<close>

definition inode_start_bit :: "u32 \<Rightarrow> nat" where
  "inode_start_bit g = (if g = 0 then 11 else 0)"

fun alloc_inode_loop :: "u64 \<Rightarrow> u32 list \<Rightarrow> u32 fsop" where
  "alloc_inode_loop inodesPerGroup [] = failw (Errorf ''AllocateInode: no free inodes available'')"
| "alloc_inode_loop inodesPerGroup (g # gs) =
     andThen (bgd_at g) (\<lambda>bgd.
     andThen (getS id) (\<lambda>fs.
       if group_free_inodes fs bgd = 0 then alloc_inode_loop inodesPerGroup gs
       else
         let bitmapBlock = gd_addr fs (BG_inode_bitmap_lo bgd) (BG_inode_bitmap_hi bgd)
         in andThen (wrapErr ''AllocateInode: failed to read inode bitmap'' (read_block bitmapBlock)) (\<lambda>bitmap.
              case scan_bitmap bitmap (inode_start_bit g) of
                None \<Rightarrow> alloc_inode_loop inodesPerGroup gs
              | Some (byteIdx, bitIdx) \<Rightarrow>
                  andThen (wrapErr ''AllocateInode: failed to write bitmap''
                            (write_block (bitmap_set bitmap byteIdx bitIdx) bitmapBlock)) (\<lambda>_.
                  let bgd' = bgd\<lparr>BG_free_inodes_count_lo := BG_free_inodes_count_lo bgd - 1\<rparr>
                  in andThen (modS (upd_bgd g (\<lambda>_. bgd'))) (\<lambda>_.
                     andThen (wrapErr ''AllocateInode'' (WriteGroupDescriptor g bgd')) (\<lambda>_.
                     andThen (updateSuperblockFreeInodes (- 1)) (\<lambda>_.
                       ret (ucast (ucast g * inodesPerGroup + word_of_nat byteIdx * 8 + word_of_nat bitIdx + 1 :: u64)))))))))"

definition AllocateInode :: "u32 fsop" where
  "AllocateInode =
     andThen deref_sb (\<lambda>sb.
     andThen (getS fs_GroupCount) (\<lambda>gc.
       alloc_inode_loop (ucast (S_inodes_per_group sb)) (map word_of_nat [0..<unat gc])))"

definition FreeInode :: "u32 \<Rightarrow> unit fsop" where
  "FreeInode inodeNum =
     (if inodeNum < 1 then failw (Errorf ''FreeInode: invalid inode number'')
      else
        andThen deref_sb (\<lambda>sb.
          let inodesPerGroup = ucast (S_inodes_per_group sb) :: u64
          in if inodesPerGroup = 0 then panic
             else
               let groupIdx = ucast ((ucast inodeNum - 1) div inodesPerGroup) :: u32;
                   localIndex = (ucast inodeNum - 1) mod inodesPerGroup
               in andThen (getS id) (\<lambda>fs.
                  if groupIdx \<ge> fs_GroupCount fs then failw (Errorf ''FreeInode: inode group out of range'')
                  else
                    andThen (bgd_at groupIdx) (\<lambda>bgd.
                      let bitmapBlock = gd_addr fs (BG_inode_bitmap_lo bgd) (BG_inode_bitmap_hi bgd)
                      in andThen (wrapErr ''FreeInode: failed to read inode bitmap'' (read_block bitmapBlock)) (\<lambda>bitmap.
                           let byteIdx = unat (localIndex div 8); bitIdx = unat (localIndex mod 8)
                           in if byteIdx \<ge> length bitmap then panic
                              else if bitmap ! byteIdx AND push_bit bitIdx 1 = 0
                              then failw (Errorf ''FreeInode: inode is already free'')
                              else
                                andThen (wrapErr ''FreeInode: failed to write inode bitmap''
                                          (write_block (bitmap_clear bitmap byteIdx bitIdx) bitmapBlock)) (\<lambda>_.
                                let bgd' = bgd\<lparr>BG_free_inodes_count_lo := BG_free_inodes_count_lo bgd + 1\<rparr>
                                in andThen (modS (upd_bgd groupIdx (\<lambda>_. bgd'))) (\<lambda>_.
                                   andThen (wrapErr ''FreeInode'' (WriteGroupDescriptor groupIdx bgd')) (\<lambda>_.
                                     updateSuperblockFreeInodes 1))))))))"

section \<open>Bits of a bitmap\<close>

definition bit_at :: "bytes \<Rightarrow> nat \<Rightarrow> bool" where
  "bit_at bm k = bit (bm ! (k div 8)) (k mod 8)"

lemma and_bit_eq_0 [simp]: "(b :: u8) AND 2 ^ i = 0 \<longleftrightarrow> \<not> bit b i"
  by (rule and_exp_eq_0_iff_not_bit)

lemma byte_of_bit: "a * 8 \<le> k \<Longrightarrow> k < Suc a * 8 \<Longrightarrow> k div 8 = a"
  by (rule div_nat_eqI) (simp_all add: mult.commute)

lemma bit_position: "k div 8 = j \<Longrightarrow> k = j * 8 + i \<longleftrightarrow> k mod 8 = (i :: nat)"
  by (rule iffI; use div_mult_mod_eq [of k 8] in linarith)

lemma bit_position_less: "k div 8 = j \<Longrightarrow> k < j * 8 + i \<longleftrightarrow> k mod 8 < (i :: nat)"
  by (rule iffI; use div_mult_mod_eq [of k 8] in linarith)

lemma first_bit_le:
  assumes "k div 8 = a" and "st \<le> k"
  shows "(if a = st div 8 then st mod 8 else 0) \<le> k mod (8 :: nat)"
proof (cases "a = st div 8")
  case True
  then have "st mod 8 \<le> k mod 8"
    using assms div_mult_mod_eq [of k 8] div_mult_mod_eq [of st 8] by linarith
  with True show ?thesis by simp
qed simp

lemma bit_FF: "i < 8 \<Longrightarrow> bit (0xFF :: u8) i"
proof -
  assume "i < 8"
  moreover have "(0xFF :: u8) = mask 8" by (simp add: mask_eq_exp_minus_1)
  ultimately show ?thesis by (simp only: bit_mask_iff possible_bit_word) simp
qed

lemma scan_bits_Some:
  "m \<le> 8 \<Longrightarrow> scan_bits b [m..<8] = Some i \<Longrightarrow> m \<le> i \<and> i < 8 \<and> \<not> bit b i \<and> (\<forall>k. m \<le> k \<and> k < i \<longrightarrow> bit b k)"
proof (induction "8 - m" arbitrary: m)
  case (Suc n)
  then have up: "[m..<8] = m # [Suc m..<8]" by (simp add: upt_conv_Cons)
  show ?case
  proof (cases "bit b m")
    case True
    then have "scan_bits b [Suc m..<8] = Some i" using Suc.prems by (simp add: up)
    then have "Suc m \<le> i \<and> i < 8 \<and> \<not> bit b i \<and> (\<forall>k. Suc m \<le> k \<and> k < i \<longrightarrow> bit b k)"
      using Suc by (intro Suc.hyps) auto
    with True show ?thesis by (metis Suc_leD Suc_leI le_neq_implies_less)
  next
    case False
    with Suc.prems Suc.hyps(2) show ?thesis by (auto simp: up)
  qed
qed simp

lemma scan_bits_None: "scan_bits b is = None \<Longrightarrow> \<forall>i\<in>set is. i < 8 \<Longrightarrow> \<forall>i\<in>set is. bit b i"
  by (induction "is") (auto split: if_splits)

lemma scan_bytes_Some:
  assumes "scan_bytes bm st [a..<n] = Some (j, i)" and "st div 8 \<le> a"
  shows "a \<le> j \<and> j < n \<and> i < 8 \<and> st \<le> j * 8 + i \<and> \<not> bit_at bm (j * 8 + i) \<and>
    (\<forall>k. max st (a * 8) \<le> k \<and> k < j * 8 + i \<longrightarrow> bit_at bm k)"
  using assms
proof (induction "n - a" arbitrary: a)
  case (Suc m)
  define mb where "mb = (if a = st div 8 then st mod 8 else 0)"
  have up: "[a..<n] = a # [Suc a..<n]" using Suc.hyps by (simp add: upt_conv_Cons)
  have mb: "mb < 8" "st \<le> a * 8 + mb" using Suc.prems(2) by (auto simp: mb_def)
  have full: "bit_at bm k" if "max st (a * 8) \<le> k" "k < Suc a * 8"
    and all: "\<forall>i. mb \<le> i \<and> i < 8 \<longrightarrow> bit (bm ! a) i" for k
  proof -
    have "k div 8 = a" using that by (intro byte_of_bit) auto
    moreover have "mb \<le> k mod 8" unfolding mb_def using that calculation by (intro first_bit_le) auto
    ultimately show ?thesis using all by (simp add: bit_at_def)
  qed
  have rest: ?case if "scan_bytes bm st [Suc a..<n] = Some (j, i)" "\<forall>i. mb \<le> i \<and> i < 8 \<longrightarrow> bit (bm ! a) i"
  proof -
    have ih: "Suc a \<le> j \<and> j < n \<and> i < 8 \<and> st \<le> j * 8 + i \<and> \<not> bit_at bm (j * 8 + i) \<and>
      (\<forall>k. max st (Suc a * 8) \<le> k \<and> k < j * 8 + i \<longrightarrow> bit_at bm k)"
      using Suc that by (intro Suc.hyps) auto
    then have "bit_at bm k" if "max st (a * 8) \<le> k" "k < j * 8 + i" for k
      using full [of k] that \<open>\<forall>i. mb \<le> i \<and> i < 8 \<longrightarrow> bit (bm ! a) i\<close> by (cases "k < Suc a * 8") auto
    with ih show ?thesis by auto
  qed
  show ?case
  proof (cases "scan_bits (bm ! a) [mb..<8]")
    case None
    then have "\<forall>i. mb \<le> i \<and> i < 8 \<longrightarrow> bit (bm ! a) i" using scan_bits_None [OF None] by auto
    moreover have "scan_bytes bm st [Suc a..<n] = Some (j, i)"
      using Suc.prems None by (simp add: up Let_def flip: mb_def split: if_splits)
    ultimately show ?thesis using rest by blast
  next
    case (Some i')
    show ?thesis
    proof (cases "bm ! a = 0xFF")
      case True
      then show ?thesis using Suc.prems rest bit_FF by (simp add: up)
    next
      case False
      then have eq: "j = a" "i' = i" using Suc.prems Some by (auto simp: up Let_def simp flip: mb_def)
      have sb: "mb \<le> i" "i < 8" "\<not> bit (bm ! a) i" "\<forall>k. mb \<le> k \<and> k < i \<longrightarrow> bit (bm ! a) k"
        using scan_bits_Some [of mb "bm ! a" i'] Some mb eq by auto
      have "bit_at bm k" if "max st (a * 8) \<le> k" "k < a * 8 + i" for k
      proof -
        have "k div 8 = a" using that sb by (intro byte_of_bit) auto
        moreover have "mb \<le> k mod 8" unfolding mb_def using that calculation by (intro first_bit_le) auto
        moreover have "k mod 8 < i" using that calculation(1) by (simp add: bit_position_less)
        ultimately show ?thesis using sb by (simp add: bit_at_def)
      qed
      with eq sb mb up Suc.hyps show ?thesis by (auto simp: bit_at_def)
    qed
  qed
qed simp

lemma scan_bytes_None:
  assumes "scan_bytes bm st [a..<n] = None" and "st div 8 \<le> a" and "max st (a * 8) \<le> k" and "k < n * 8"
  shows "bit_at bm k"
  using assms
proof (induction "n - a" arbitrary: a)
  case (Suc m)
  define mb where "mb = (if a = st div 8 then st mod 8 else 0)"
  have up: "[a..<n] = a # [Suc a..<n]" using Suc.hyps by (simp add: upt_conv_Cons)
  have rest: "scan_bytes bm st [Suc a..<n] = None" and
    all: "\<forall>i. mb \<le> i \<and> i < 8 \<longrightarrow> bit (bm ! a) i"
    using Suc.prems(1) scan_bits_None [of "bm ! a" "[mb..<8]"] bit_FF
    by (auto simp: up Let_def simp flip: mb_def split: if_splits option.splits)
  show ?case
  proof (cases "k < Suc a * 8")
    case True
    then have "k div 8 = a" using Suc.prems by (intro byte_of_bit) auto
    moreover have "mb \<le> k mod 8" unfolding mb_def using Suc.prems calculation by (intro first_bit_le) auto
    ultimately show ?thesis using all by (simp add: bit_at_def)
  next
    case False
    then have "max st (Suc a * 8) \<le> k" using Suc.prems by auto
    then show ?thesis using Suc.hyps Suc.prems rest by (intro Suc.hyps(1) [of "Suc a"]) auto
  qed
qed auto

lemma scan_bitmap_Some:
  assumes "scan_bitmap bm st = Some (j, i)"
  shows "j < length bm" "i < 8" "st \<le> j * 8 + i" "\<not> bit_at bm (j * 8 + i)"
    "\<And>k. st \<le> k \<Longrightarrow> k < j * 8 + i \<Longrightarrow> bit_at bm k"
proof -
  have "max st (st div 8 * 8) = st" by (rule max.absorb1) simp
  then show "j < length bm" "i < 8" "st \<le> j * 8 + i" "\<not> bit_at bm (j * 8 + i)"
    "\<And>k. st \<le> k \<Longrightarrow> k < j * 8 + i \<Longrightarrow> bit_at bm k"
    using scan_bytes_Some [OF assms [unfolded scan_bitmap_def]] by auto
qed

lemma scan_bitmap_None:
  assumes "scan_bitmap bm st = None" and "st \<le> k" and "k < 8 * length bm"
  shows "bit_at bm k"
proof -
  have "max st (st div 8 * 8) = st" by (rule max.absorb1) simp
  then show ?thesis
    using scan_bytes_None [OF assms(1) [unfolded scan_bitmap_def], of k] assms(2,3) by simp
qed

lemma bit_at_set:
  assumes "j < length bm" and "i < 8" and "k < 8 * length bm"
  shows "bit_at (bitmap_set bm j i) k \<longleftrightarrow> k = j * 8 + i \<or> bit_at bm k"
proof (cases "k div 8 = j")
  case True
  note pos = bit_position [OF True]
  from True assms show ?thesis unfolding pos by (auto simp: bit_at_def bitmap_set_def bit_simps)
next
  case False
  then show ?thesis using assms by (auto simp: bit_at_def bitmap_set_def nth_list_update)
qed

lemma bit_at_clear:
  assumes "j < length bm" and "i < 8" and "k < 8 * length bm"
  shows "bit_at (bitmap_clear bm j i) k \<longleftrightarrow> k \<noteq> j * 8 + i \<and> bit_at bm k"
proof (cases "k div 8 = j")
  case True
  note pos = bit_position [OF True]
  from True assms show ?thesis unfolding pos by (auto simp: bit_at_def bitmap_clear_def bit_simps)
next
  case False
  then show ?thesis using assms by (auto simp: bit_at_def bitmap_clear_def nth_list_update)
qed

lemma length_bitmap [simp]: "length (bitmap_set bm j i) = length bm" "length (bitmap_clear bm j i) = length bm"
  by (simp_all add: bitmap_set_def bitmap_clear_def)

lemma bitmap_clear_set: "i < 8 \<Longrightarrow> j < length bm \<Longrightarrow> \<not> bit_at bm (j * 8 + i) \<Longrightarrow>
  bitmap_clear (bitmap_set bm j i) j i = bm"
proof -
  assume a: "i < 8" "j < length bm" "\<not> bit_at bm (j * 8 + i)"
  then have "\<not> bit (bm ! j) i" by (simp add: bit_at_def)
  then have "(bm ! j OR push_bit i 1) AND NOT (push_bit i 1) = bm ! j"
    by (intro bit_eqI) (auto simp: bit_simps)
  with a show ?thesis by (simp add: bitmap_clear_def bitmap_set_def)
qed

end
