(* ===== verification/Extent_Insert.thy ===== *)
theory Extent_Insert
  imports Extent_Tree Allocation
begin

text \<open>
  The writers of the extent tree: \<open>AppendExtent\<close> and its helpers (\<open>vfs/allocate.go\<close>),
  \<open>FreeExtents\<close> and \<open>TruncateInode\<close> (\<open>vfs/reclaim.go\<close>), and the creation of inodes. They
  change the inode they are given, so they run on a file system and an inode (\<open>'a iop\<close>);
  \<open>now\<close> is the result of \<open>uint32(time.Now().Unix())\<close>. A path is kept deepest block first. The
  slice \<open>pathIndexes\<close> of the code is never read and is left out. The \<open>binary.Read\<close> calls whose
  errors are returned read exactly one struct's bytes and cannot fail.
\<close>

section \<open>Nodes as byte buffers\<close>

definition new_header :: "u16 \<Rightarrow> u16 \<Rightarrow> u16 \<Rightarrow> ExtentHeader" where
  "new_header entries maxe depth = \<lparr>EH_magic = EXT4_EXT_MAGIC, EH_entries = entries, EH_max = maxe,
     EH_depth = depth, EH_generation = 0\<rparr>"

definition entries_per_block :: "FileSystem \<Rightarrow> u16" where
  "entries_per_block fs = ucast ((fs_BlockSize fs - 12) div 12)"

fun read_entries :: "(bytes \<Rightarrow> 'a) \<Rightarrow> bytes \<Rightarrow> nat list \<Rightarrow> 'a list res" where
  "read_entries dec data [] = Ok []"
| "read_entries dec data (i # is) =
     (let off = extentHeaderSize + i * extentEntrySize
      in bindR (goslice off (off + extentEntrySize) data) (\<lambda>b.
         bindR (read_entries dec data is) (\<lambda>rest. Ok (dec b # rest))))"

fun put_entries :: "nat \<Rightarrow> bytes list \<Rightarrow> bytes \<Rightarrow> bytes res" where
  "put_entries i [] buf = Ok buf"
| "put_entries i (e # es) buf =
     (let off = extentHeaderSize + i * extentEntrySize
      in if off > length buf then Panic else put_entries (Suc i) es (copy_at off e buf))"

definition header_buf :: "ExtentHeader \<Rightarrow> nat \<Rightarrow> bytes res" where
  "header_buf hdr n = (if n < extentHeaderSize then Panic else Ok (copy_at 0 (header_bytes hdr) (zeros n)))"

definition node_buf :: "ExtentHeader \<Rightarrow> bytes list \<Rightarrow> nat \<Rightarrow> bytes res" where
  "node_buf hdr es n = bindR (header_buf hdr n) (put_entries 0 es)"

text \<open>The test for merging a new extent into the last one, and the merged extent.\<close>

definition mergeable :: "Extent \<Rightarrow> Extent \<Rightarrow> bool" where
  "mergeable lastExt newExt \<longleftrightarrow>
     EE_start_hi lastExt = EE_start_hi newExt \<and>
     (ucast (EE_block lastExt) + ext_count lastExt :: u64) = ucast (EE_block newExt) \<and>
     (ucast (EE_start_lo lastExt) + ext_count lastExt :: u64) = ucast (EE_start_lo newExt) \<and>
     \<not> ext_uninit lastExt \<and> \<not> ext_uninit newExt \<and>
     ext_count lastExt + ext_count newExt \<le> 0x7FFF"

definition merge_ext :: "Extent \<Rightarrow> Extent \<Rightarrow> Extent" where
  "merge_ext lastExt newExt =
     lastExt\<lparr>EE_len := (EE_len lastExt AND 0x8000) OR ucast (ext_count lastExt + ext_count newExt)\<rparr>"

text \<open>The common body of \<open>appendExtentToLeaf\<close> and \<open>appendExtentToLeafBlock\<close>: merge or append.\<close>

definition leaf_append :: "bytes \<Rightarrow> ExtentHeader \<Rightarrow> Extent \<Rightarrow> bytes res" where
  "leaf_append data hdr newExt =
     (let entries = EH_entries hdr;
          lastOff = extentHeaderSize + unat (entries - 1) * extentEntrySize
      in bindR (if entries > 0
                then bindR (goslice lastOff (lastOff + extentEntrySize) data) (\<lambda>b.
                       let lastExt = extent_decode b
                       in Ok (if mergeable lastExt newExt
                              then Some (copy_at lastOff (extent_bytes (merge_ext lastExt newExt)) data)
                              else None))
                else Ok None) (\<lambda>merged.
           case merged of
             Some data' \<Rightarrow> Ok data'
           | None \<Rightarrow>
               bindR (put_entries (unat entries) [extent_bytes newExt] data) (\<lambda>data'.
                 Ok (copy_at 0 (header_bytes (hdr\<lparr>EH_entries := entries + 1\<rparr>)) data'))))"

section \<open>Appending an extent\<close>

definition appendExtentToLeaf :: "u32 \<Rightarrow> ExtentHeader \<Rightarrow> Extent \<Rightarrow> unit iop" where
  "appendExtentToLeaf now hdr newExt =
     andThen (getS (\<lambda>s. I_block (snd s))) (\<lambda>data.
     andThen (liftR (leaf_append data hdr newExt)) (\<lambda>data'.
       modI (\<lambda>i. i\<lparr>I_block := data', I_mtime := now\<rparr>)))"

definition block_idx :: "u32 \<Rightarrow> u64 \<Rightarrow> ExtentIdx" where
  "block_idx first b = \<lparr>EI_block = first, EI_leaf_lo = ucast b, EI_leaf_hi = ucast (drop_bit 32 b), EI_unused = 0\<rparr>"

definition splitRootLeafAndAppend :: "u32 \<Rightarrow> ExtentHeader \<Rightarrow> Extent \<Rightarrow> unit iop" where
  "splitRootLeafAndAppend now hdr newExt =
     andThen (wrapErr ''splitRootLeaf: failed to allocate leaf block'' (onFs AllocateBlock)) (\<lambda>leafBlock.
     andThen (getS id) (\<lambda>(fs, inode).
     andThen (liftR (read_entries extent_decode (I_block inode) [0..<unat (EH_entries hdr)])) (\<lambda>extents.
       let childHdr = new_header (word_of_nat (length extents)) (entries_per_block fs) 0
       in andThen (liftR (node_buf childHdr (map extent_bytes extents) (bsz fs))) (\<lambda>buf1.
          let buf2 = copy_at 0 (header_bytes (childHdr\<lparr>EH_entries := EH_entries childHdr + 1\<rparr>)) buf1
          in andThen (liftR (put_entries (unat (EH_entries childHdr)) [extent_bytes newExt] buf2)) (\<lambda>childBuf.
             andThen (wrapErr ''splitRootLeaf: failed to write child leaf block''
                       (onFs (write_block childBuf leafBlock))) (\<lambda>_.
             case extents of
               [] \<Rightarrow> panic
             | e0 # _ \<Rightarrow>
                 let root = copy_at extentHeaderSize (idx_bytes (block_idx (EE_block e0) leafBlock))
                              (copy_at 0 (header_bytes (new_header 1 4 1)) (zeros (length (I_block inode))))
                 in modI (\<lambda>i. i\<lparr>I_block := root, I_mtime := now\<rparr>)))))))"

text \<open>The descent along the last entries. A chain of index blocks that never reaches depth 0
  makes the loop (and its path) grow without end; running out of the bound stands for that.\<close>

primrec descend :: "nat \<Rightarrow> ExtentHeader \<Rightarrow> bytes \<Rightarrow> u64 \<Rightarrow> u64 list \<Rightarrow>
    (ExtentHeader \<times> bytes \<times> u64 \<times> u64 list) fsop" where
  "descend 0 = (\<lambda>currHdr currData currBlock path. panic)"
| "descend (Suc n) = (\<lambda>currHdr currData currBlock path.
     if EH_depth currHdr = 0 then ret (currHdr, currData, currBlock, path)
     else if EH_entries currHdr = 0 then failw (Errorf ''appendExtentToTree: empty index node'')
     else
       let off = extentHeaderSize + unat (EH_entries currHdr - 1) * extentEntrySize
       in andThen (liftR (goslice off (off + extentEntrySize) currData)) (\<lambda>b.
          let childBlock = idx_leaf (idx_decode b)
          in andThen (read_block childBlock) (\<lambda>childBuf.
             andThen (liftR (goslice 0 extentHeaderSize childBuf)) (\<lambda>h.
               descend n (header_decode h) childBuf childBlock (childBlock # path)))))"

definition appendExtentToLeafBlock :: "u64 \<Rightarrow> bytes \<Rightarrow> ExtentHeader \<Rightarrow> Extent \<Rightarrow> unit fsop" where
  "appendExtentToLeafBlock blockNum buf hdr newExt =
     andThen (liftR (leaf_append buf hdr newExt)) (\<lambda>buf'. write_block buf' blockNum)"

text \<open>Insertion before the first entry whose key is not smaller.\<close>

definition insert_by :: "('a \<Rightarrow> u32) \<Rightarrow> 'a \<Rightarrow> 'a list \<Rightarrow> 'a list" where
  "insert_by key x xs =
     (let k = length (takeWhile (\<lambda>y. key y < key x) xs) in take k xs @ [x] @ drop k xs)"

fun insertIdxIntoParent :: "u64 list \<Rightarrow> ExtentIdx \<Rightarrow> unit iop" where
  "insertIdxIntoParent [] idx =
     andThen (onFs AllocateBlock) (\<lambda>rootBlock.
     andThen (getS id) (\<lambda>(fs, inode).
       let data = I_block inode;
           hdr = header_decode data;
           cnt = unat (EH_entries hdr);
           childHdr = new_header (EH_entries hdr) (entries_per_block fs) (EH_depth hdr)
       in andThen (liftR (header_buf childHdr (bsz fs))) (\<lambda>b0.
          andThen (liftR (goslice extentHeaderSize (extentHeaderSize + cnt * extentEntrySize) data)) (\<lambda>ents.
          let b2 = copy_at 0 (header_bytes (childHdr\<lparr>EH_entries := EH_entries childHdr + 1\<rparr>))
                     (copy_at extentHeaderSize ents b0)
          in andThen (liftR (put_entries cnt [idx_bytes idx] b2)) (\<lambda>childBuf.
             andThen (onFs (write_block childBuf rootBlock)) (\<lambda>_.
             andThen (liftR (goslice extentHeaderSize (extentHeaderSize + extentEntrySize) childBuf)) (\<lambda>b.
               let d1 = copy_at 0 (header_bytes (new_header 1 4 (EH_depth hdr + 1))) data;
                   d2 = copy_at extentHeaderSize (idx_bytes (block_idx (EI_block (idx_decode b)) rootBlock)) d1
               in modI (\<lambda>i. i\<lparr>I_block := d2\<rparr>))))))))"
| "insertIdxIntoParent (parentBlock # path) idx =
     andThen (onFs (read_block parentBlock)) (\<lambda>parentBuf.
     andThen (liftR (goslice 0 extentHeaderSize parentBuf)) (\<lambda>h.
       let pHdr = header_decode h
       in andThen (liftR (read_entries idx_decode parentBuf [0..<unat (EH_entries pHdr)])) (\<lambda>idxs.
          let newIdxs = insert_by EI_block idx idxs
          in if length newIdxs \<le> unat (EH_max pHdr)
             then
               andThen (liftR (put_entries 0 (map idx_bytes newIdxs)
                  (copy_at 0 (header_bytes (pHdr\<lparr>EH_entries := word_of_nat (length newIdxs)\<rparr>)) parentBuf))) (\<lambda>buf.
                 onFs (write_block buf parentBlock))
             else
               andThen (onFs AllocateBlock) (\<lambda>newParentBlock.
               andThen (getS (\<lambda>s. bsz (fst s))) (\<lambda>n.
                 let mid = length newIdxs div 2;
                     leftIdxs = take mid newIdxs;
                     rightIdxs = drop mid newIdxs
                 in andThen (liftR (node_buf (new_header (word_of_nat (length leftIdxs)) (EH_max pHdr) (EH_depth pHdr))
                                      (map idx_bytes leftIdxs) n)) (\<lambda>leftBuf.
                    andThen (onFs (write_block leftBuf parentBlock)) (\<lambda>_.
                    andThen (liftR (node_buf (new_header (word_of_nat (length rightIdxs)) (EH_max pHdr) (EH_depth pHdr))
                                      (map idx_bytes rightIdxs) n)) (\<lambda>rightBuf.
                    andThen (onFs (write_block rightBuf newParentBlock)) (\<lambda>_.
                      insertIdxIntoParent path (block_idx (EI_block (hd rightIdxs)) newParentBlock))))))))))"

definition splitLeafBlockAndAppend ::
  "u64 list \<Rightarrow> u64 \<Rightarrow> bytes \<Rightarrow> ExtentHeader \<Rightarrow> Extent \<Rightarrow> unit iop" where
  "splitLeafBlockAndAppend path leafBlock buf hdr newExt =
     andThen (onFs AllocateBlock) (\<lambda>newLeafBlock.
     andThen (liftR (read_entries extent_decode buf [0..<unat (EH_entries hdr)])) (\<lambda>extents.
     andThen (getS (\<lambda>s. bsz (fst s))) (\<lambda>n.
       let allExtents = insert_by EE_block newExt extents;
           mid = length allExtents div 2;
           leftExtents = take mid allExtents;
           rightExtents = drop mid allExtents
       in andThen (liftR (node_buf (new_header (word_of_nat (length leftExtents)) (EH_max hdr) 0)
                            (map extent_bytes leftExtents) n)) (\<lambda>leftBuf.
          andThen (onFs (write_block leftBuf leafBlock)) (\<lambda>_.
          andThen (liftR (node_buf (new_header (word_of_nat (length rightExtents)) (EH_max hdr) 0)
                            (map extent_bytes rightExtents) n)) (\<lambda>rightBuf.
          andThen (onFs (write_block rightBuf newLeafBlock)) (\<lambda>_.
            insertIdxIntoParent path (block_idx (EE_block (hd rightExtents)) newLeafBlock))))))))"

definition appendExtentToTree :: "u32 \<Rightarrow> ExtentHeader \<Rightarrow> Extent \<Rightarrow> unit iop" where
  "appendExtentToTree now hdr newExt =
     andThen (getS (\<lambda>s. I_block (snd s))) (\<lambda>data.
     andThen (onFs (descend max_depth hdr data 0 [])) (\<lambda>(currHdr, currData, currBlock, path).
       if EH_entries currHdr < EH_max currHdr
       then andThen (onFs (appendExtentToLeafBlock currBlock currData currHdr newExt)) (\<lambda>_.
              modI (\<lambda>i. i\<lparr>I_mtime := now\<rparr>))
       else splitLeafBlockAndAppend path currBlock currData currHdr newExt))"

definition AppendExtent :: "u32 \<Rightarrow> Extent \<Rightarrow> unit iop" where
  "AppendExtent now newExt =
     andThen (getS snd) (\<lambda>inode.
       if \<not> UsesExtents inode then failw (Errorf ''AppendExtent: inode does not use extents'')
       else
         let hdr = header_decode (I_block inode)
         in if EH_magic hdr \<noteq> EXT4_EXT_MAGIC then failw (Errorf ''AppendExtent: bad extent magic'')
            else if EH_depth hdr = 0
            then (if EH_entries hdr < EH_max hdr then appendExtentToLeaf now hdr newExt
                  else splitRootLeafAndAppend now hdr newExt)
            else appendExtentToTree now hdr newExt)"

section \<open>Creating inodes, writing blocks\<close>

definition InitExtentHeader :: "Inode \<Rightarrow> Inode" where
  "InitExtentHeader i = i\<lparr>I_block := copy_at 0 (header_bytes (new_header 0 4 0)) (I_block i),
     I_flags := I_flags i OR EXT4_EXTENTS_FL\<rparr>"

definition zero_inode :: Inode where
  "zero_inode = inode_decode (zeros 160)"

definition InitNewInode :: "u32 \<Rightarrow> u32 \<Rightarrow> u16 \<Rightarrow> Inode fsop" where
  "InitNewInode now inodeNum mode =
     (let inode = InitExtentHeader (zero_inode\<lparr>I_mode := mode, I_uid := 0, I_gid := 0, I_links_count := 1,
                    I_atime := now, I_ctime := now, I_mtime := now\<rparr>)
      in andThen (wrapErr ''InitNewInode'' (WriteInode inodeNum inode)) (\<lambda>_. ret inode))"

definition WriteBlock :: "u64 \<Rightarrow> bytes \<Rightarrow> unit fsop" where
  "WriteBlock blockNum data s = write_block (take (bsz s) data) blockNum s"

section \<open>Freeing\<close>

fun free_blocks :: "string \<Rightarrow> u64 list \<Rightarrow> unit fsop" where
  "free_blocks m [] = ret ()"
| "free_blocks m (b # bl) = andThen (wrapErr m (FreeBlock b)) (\<lambda>_. free_blocks m bl)"

definition block_run :: "u64 \<Rightarrow> nat \<Rightarrow> u64 list" where
  "block_run b n = map (\<lambda>i. b + word_of_nat i) [0..<n]"

fun free_extents_loop :: "string \<Rightarrow> Extent list \<Rightarrow> unit fsop" where
  "free_extents_loop m [] = ret ()"
| "free_extents_loop m (ext # exts) =
     (if ext_uninit ext then free_extents_loop m exts
      else andThen (free_blocks m (block_run (ext_start ext) (unat (ext_count ext)))) (\<lambda>_.
             free_extents_loop m exts))"

definition FreeExtents :: "Extent list \<Rightarrow> unit fsop" where
  "FreeExtents = free_extents_loop ''FreeExtents''"

text \<open>The loop of \<open>TruncateInode\<close> for a nonzero size; it returns the extents that are kept.\<close>

fun truncate_loop :: "u64 \<Rightarrow> Extent list \<Rightarrow> Extent list fsop" where
  "truncate_loop newLastBlock [] = ret []"
| "truncate_loop newLastBlock (ext # exts) =
     (let blockCount = ext_count ext;
          startBlock = ucast (EE_block ext) :: u64;
          endBlock = startBlock + blockCount - 1
      in if endBlock \<le> newLastBlock
         then andThen (truncate_loop newLastBlock exts) (\<lambda>kept. ret (ext # kept))
         else if startBlock > newLastBlock
         then andThen (free_blocks ''TruncateInode'' (block_run (ext_start ext) (unat blockCount))) (\<lambda>_.
                truncate_loop newLastBlock exts)
         else
           let keepCount = newLastBlock - startBlock + 1
           in if keepCount > 0
              then andThen (free_blocks ''TruncateInode''
                             (block_run (ext_start ext + keepCount) (unat (blockCount - keepCount)))) (\<lambda>_.
                   andThen (truncate_loop newLastBlock exts) (\<lambda>kept.
                     ret (ext\<lparr>EE_len := (EE_len ext AND 0x8000) OR ucast keepCount\<rparr> # kept)))
              else truncate_loop newLastBlock exts)"

definition set_size_blocks :: "u64 \<Rightarrow> u64 \<Rightarrow> Inode \<Rightarrow> Inode" where
  "set_size_blocks newSize blockSize i =
     (let i1 = (if IsDir i then i\<lparr>I_size_lo := ucast newSize\<rparr>
                else i\<lparr>I_size_lo := ucast newSize, I_size_high := ucast (drop_bit 32 newSize)\<rparr>);
          newBlocks = (newSize + blockSize - 1) div blockSize;
          sectorCount = newBlocks * (blockSize div 512);
          i2 = i1\<lparr>I_blocks_lo := ucast sectorCount\<rparr>
      in if sectorCount > 0xFFFFFFFF then i2\<lparr>L_i_blocks_high := ucast (drop_bit 32 sectorCount)\<rparr> else i2)"

text \<open>The root is rewritten as a leaf; entries beyond the 60 bytes of \<open>I_block\<close> are dropped.\<close>

definition truncate_root :: "Extent list \<Rightarrow> bytes \<Rightarrow> bytes" where
  "truncate_root kept data =
     fold (\<lambda>(i, e) d. copy_at (extentHeaderSize + i * extentEntrySize) (extent_bytes e) d)
       (filter (\<lambda>(i, e). extentHeaderSize + i * extentEntrySize + extentEntrySize \<le> length data) (enumerate 0 kept))
       (copy_at 0 (header_bytes (new_header (word_of_nat (length kept)) 4 0)) data)"

definition TruncateInode :: "u32 \<Rightarrow> u64 \<Rightarrow> unit iop" where
  "TruncateInode now newSize =
     andThen (getS snd) (\<lambda>inode.
       if newSize \<ge> inode_Size inode then ret ()
       else if \<not> UsesExtents inode then failw (Errorf ''TruncateInode: extents required'')
       else
         andThen (getS (\<lambda>s. fs_BlockSize (fst s))) (\<lambda>blockSize.
         andThen (wrapErr ''TruncateInode: failed to read extents'' (onFs (ReadExtents inode))) (\<lambda>extents.
         andThen (if newSize = 0
                  then andThen (onFs (free_extents_loop ''TruncateInode'' extents)) (\<lambda>_. ret [])
                  else if blockSize = 0 then panic
                  else onFs (truncate_loop (if newSize mod blockSize = 0 then newSize div blockSize - 1
                                            else newSize div blockSize) extents)) (\<lambda>kept.
           if blockSize = 0 then panic
           else modI (\<lambda>i. (set_size_blocks newSize blockSize (i\<lparr>I_block := truncate_root kept (I_block i)\<rparr>))
                        \<lparr>I_mtime := now, I_ctime := now\<rparr>)))))"

end
