(* ===== verification/Bitmap_Pool.thy ===== *)
theory Bitmap_Pool
  imports Allocation
begin

text \<open>
  Correctness of the block and inode allocators. \<open>pool_alloc\<close> and \<open>pool_change\<close> are the common
  shape of the two allocators and the two free operations (the equations are proved here);
  \<open>geom\<close> is the layout of a mounted file system and \<open>changed\<close> the effect of flipping one bit:
  the bitmap block, the descriptor and the superblock counter, in memory and on disk, and
  no other block. The locale \<open>bitmap_pool\<close> is the contract the callers rely on; it is
  interpreted for blocks and for inodes.
\<close>

section \<open>One algorithm for both pools\<close>

record kind =
  k_none :: goerr
  k_rd :: string
  k_wr :: string
  k_gd :: string
  k_count :: "FileSystem \<Rightarrow> GroupDescriptor \<Rightarrow> u64"
  k_bitmap :: "FileSystem \<Rightarrow> GroupDescriptor \<Rightarrow> u64"
  k_start :: "u32 \<Rightarrow> nat"
  k_step :: "u16 \<Rightarrow> GroupDescriptor \<Rightarrow> GroupDescriptor"
  k_sb :: "int \<Rightarrow> SuperBlock \<Rightarrow> SuperBlock"

definition update_sb :: "(SuperBlock \<Rightarrow> SuperBlock) \<Rightarrow> unit fsop" where
  "update_sb f = andThen deref_sb (\<lambda>sb.
     andThen (modS (\<lambda>s. s\<lparr>fs_sb := Some (f sb)\<rparr>)) (\<lambda>_. writeSuperBlock))"

definition pool_change :: "kind \<Rightarrow> string \<Rightarrow> string \<Rightarrow> u32 \<Rightarrow> bytes \<Rightarrow> u16 \<Rightarrow> int \<Rightarrow> unit fsop" where
  "pool_change k ewr egd g bitmap d delta =
     andThen (bgd_at g) (\<lambda>bgd.
     andThen (getS id) (\<lambda>fs.
     andThen (wrapErr ewr (write_block bitmap (k_bitmap k fs bgd))) (\<lambda>_.
     andThen (modS (upd_bgd g (\<lambda>_. k_step k d bgd))) (\<lambda>_.
     andThen (wrapErr egd (WriteGroupDescriptor g (k_step k d bgd))) (\<lambda>_.
       update_sb (k_sb k delta))))))"

fun pool_alloc :: "kind \<Rightarrow> u32 list \<Rightarrow> (u32 \<times> nat \<times> nat) fsop" where
  "pool_alloc k [] = failw (k_none k)"
| "pool_alloc k (g # gs) =
     andThen (bgd_at g) (\<lambda>bgd.
     andThen (getS id) (\<lambda>fs.
       if k_count k fs bgd = 0 then pool_alloc k gs
       else
         andThen (wrapErr (k_rd k) (read_block (k_bitmap k fs bgd))) (\<lambda>bitmap.
           case scan_bitmap bitmap (k_start k g) of
             None \<Rightarrow> pool_alloc k gs
           | Some (byteIdx, bitIdx) \<Rightarrow>
               andThen (pool_change k (k_wr k) (k_gd k) g (bitmap_set bitmap byteIdx bitIdx) (- 1) (- 1)) (\<lambda>_.
                 ret (g, byteIdx, bitIdx)))))"

definition block_kind :: kind where
  "block_kind = \<lparr>k_none = Errorf ''AllocateBlock: no free blocks available'',
     k_rd = ''AllocateBlock: failed to read block bitmap'', k_wr = ''AllocateBlock: failed to write block bitmap'',
     k_gd = ''AllocateBlock'', k_count = group_free_blocks,
     k_bitmap = (\<lambda>s bgd. gd_addr s (BG_block_bitmap_lo bgd) (BG_block_bitmap_hi bgd)), k_start = (\<lambda>_. 0),
     k_step = (\<lambda>d bgd. bgd\<lparr>BG_free_blocks_count_lo := BG_free_blocks_count_lo bgd + d\<rparr>),
     k_sb = (\<lambda>delta sb. sb\<lparr>S_free_blocks_count_lo :=
               word_of_int (let total = int (unat (S_free_blocks_count_lo sb)) + delta in if total < 0 then 0 else total)\<rparr>)\<rparr>"

definition inode_kind :: kind where
  "inode_kind = \<lparr>k_none = Errorf ''AllocateInode: no free inodes available'',
     k_rd = ''AllocateInode: failed to read inode bitmap'', k_wr = ''AllocateInode: failed to write bitmap'',
     k_gd = ''AllocateInode'', k_count = group_free_inodes,
     k_bitmap = (\<lambda>s bgd. gd_addr s (BG_inode_bitmap_lo bgd) (BG_inode_bitmap_hi bgd)), k_start = inode_start_bit,
     k_step = (\<lambda>d bgd. bgd\<lparr>BG_free_inodes_count_lo := BG_free_inodes_count_lo bgd + d\<rparr>),
     k_sb = (\<lambda>delta sb. sb\<lparr>S_free_inodes_count :=
               word_of_int (let total = int (unat (S_free_inodes_count sb)) + delta in if total < 0 then 0 else total)\<rparr>)\<rparr>"

lemma kind_sel [simp]:
  "k_none block_kind = Errorf ''AllocateBlock: no free blocks available''"
  "k_rd block_kind = ''AllocateBlock: failed to read block bitmap''"
  "k_wr block_kind = ''AllocateBlock: failed to write block bitmap''" "k_gd block_kind = ''AllocateBlock''"
  "k_count block_kind = group_free_blocks" "k_start block_kind g = 0"
  "k_bitmap block_kind s bgd = gd_addr s (BG_block_bitmap_lo bgd) (BG_block_bitmap_hi bgd)"
  "k_step block_kind d bgd = bgd\<lparr>BG_free_blocks_count_lo := BG_free_blocks_count_lo bgd + d\<rparr>"
  "k_none inode_kind = Errorf ''AllocateInode: no free inodes available''"
  "k_rd inode_kind = ''AllocateInode: failed to read inode bitmap''"
  "k_wr inode_kind = ''AllocateInode: failed to write bitmap''" "k_gd inode_kind = ''AllocateInode''"
  "k_count inode_kind = group_free_inodes" "k_start inode_kind g = inode_start_bit g"
  "k_bitmap inode_kind s bgd = gd_addr s (BG_inode_bitmap_lo bgd) (BG_inode_bitmap_hi bgd)"
  "k_step inode_kind d bgd = bgd\<lparr>BG_free_inodes_count_lo := BG_free_inodes_count_lo bgd + d\<rparr>"
  by (simp_all add: block_kind_def inode_kind_def)

lemma kinds_distinct [simp]: "block_kind \<noteq> inode_kind" "inode_kind \<noteq> block_kind"
proof -
  have "k_gd block_kind \<noteq> k_gd inode_kind" by simp
  then show "block_kind \<noteq> inode_kind" "inode_kind \<noteq> block_kind" by metis+
qed

lemma update_sb_eq:
  "updateSuperblockFreeBlocks delta = update_sb (k_sb block_kind delta)"
  "updateSuperblockFreeInodes delta = update_sb (k_sb inode_kind delta)"
  by (simp_all add: updateSuperblockFreeBlocks_def updateSuperblockFreeInodes_def update_sb_def
      block_kind_def inode_kind_def Let_def)

lemma andThen_assoc: "andThen (andThen m f) h = andThen m (\<lambda>x. andThen (f x) h)"
  by (rule ext) (simp add: andThen_def split: prod.split res.split)

lemma andThen_ret: "andThen (ret x) f = f x"
  by (rule ext) simp

lemma read_block_keeps: "read_block b s = (r, s') \<Longrightarrow> \<exists>d. s' = s\<lparr>fs_dev := d\<rparr>"
  by (auto simp: read_block_def fs_read_def split: prod.splits)

lemma wrap_read_block_keeps: "wrapErr m (read_block b) s = (r, s') \<Longrightarrow> \<exists>d. s' = s\<lparr>fs_dev := d\<rparr>"
  by (auto simp: wrapErr_def split: prod.splits dest: read_block_keeps)

lemma bgd_at_dev [simp]: "bgd_at g s = (Ok bgd, s) \<Longrightarrow> bgd_at g (s\<lparr>fs_dev := d\<rparr>) = (Ok bgd, s\<lparr>fs_dev := d\<rparr>)"
  by (auto simp: bgd_at_def split: if_splits)

lemma bgd_at_cases: "(\<exists>bgd. bgd_at g s = (Ok bgd, s)) \<or> bgd_at g s = (Panic, s)"
  by (simp add: bgd_at_def)

lemma gd_addr_dev [simp]: "gd_addr (s\<lparr>fs_dev := d\<rparr>) = gd_addr s"
  by (intro ext) (simp add: gd_addr_def)

lemma alloc_block_loop_eq:
  "alloc_block_loop bpg gs = andThen (pool_alloc block_kind gs) (\<lambda>(g, j, i).
     ret (ucast g * bpg + word_of_nat j * 8 + word_of_nat i))"
proof (induction gs)
  case Nil
  show ?case by (rule ext) simp
next
  case (Cons g gs)
  show ?case
  proof (rule ext)
    fix s
    show "alloc_block_loop bpg (g # gs) s = andThen (pool_alloc block_kind (g # gs)) (\<lambda>(g, j, i).
       ret (ucast g * bpg + word_of_nat j * 8 + word_of_nat i)) s"
    proof (cases "\<exists>bgd. bgd_at g s = (Ok bgd, s)")
      case True
      then obtain bgd where b: "bgd_at g s = (Ok bgd, s)" by blast
      obtain r s1 where rd: "wrapErr ''AllocateBlock: failed to read block bitmap''
          (read_block (gd_addr s (BG_block_bitmap_lo bgd) (BG_block_bitmap_hi bgd))) s = (r, s1)"
        by fastforce
      then obtain d where s1: "s1 = s\<lparr>fs_dev := d\<rparr>" using wrap_read_block_keeps by blast
      show ?thesis
        using b rd
        by (cases r; simp add: Cons andThen_assoc andThen_ret pool_change_def update_sb_eq s1 Let_def del: ret_def
            split: option.split prod.split)
    next
      case False
      then have "bgd_at g s = (Panic, s)" using bgd_at_cases by blast
      then show ?thesis by (simp add: andThen_assoc)
    qed
  qed
qed

lemma alloc_inode_loop_eq:
  "alloc_inode_loop bpg gs = andThen (pool_alloc inode_kind gs) (\<lambda>(g, j, i).
     ret (ucast (ucast g * bpg + word_of_nat j * 8 + word_of_nat i + 1 :: u64)))"
proof (induction gs)
  case Nil
  show ?case by (rule ext) simp
next
  case (Cons g gs)
  show ?case
  proof (rule ext)
    fix s
    show "alloc_inode_loop bpg (g # gs) s = andThen (pool_alloc inode_kind (g # gs)) (\<lambda>(g, j, i).
       ret (ucast (ucast g * bpg + word_of_nat j * 8 + word_of_nat i + 1 :: u64))) s"
    proof (cases "\<exists>bgd. bgd_at g s = (Ok bgd, s)")
      case True
      then obtain bgd where b: "bgd_at g s = (Ok bgd, s)" by blast
      obtain r s1 where rd: "wrapErr ''AllocateInode: failed to read inode bitmap''
          (read_block (gd_addr s (BG_inode_bitmap_lo bgd) (BG_inode_bitmap_hi bgd))) s = (r, s1)"
        by fastforce
      then obtain d where s1: "s1 = s\<lparr>fs_dev := d\<rparr>" using wrap_read_block_keeps by blast
      show ?thesis
        using b rd
        by (cases r; simp add: Cons andThen_assoc andThen_ret pool_change_def update_sb_eq s1 Let_def del: ret_def
            split: option.split prod.split)
    next
      case False
      then have "bgd_at g s = (Panic, s)" using bgd_at_cases by blast
      then show ?thesis by (simp add: andThen_assoc)
    qed
  qed
qed

section \<open>Geometry\<close>

definition meta_end :: "FileSystem \<Rightarrow> nat" where
  "meta_end s = desc_pos (the (fs_sb s)) (unat (fs_GroupCount s))"

definition gbitmap :: "kind \<Rightarrow> FileSystem \<Rightarrow> nat \<Rightarrow> u64" where
  "gbitmap k s g = k_bitmap k s (fs_Bgds s ! g)"

definition bitmap_list :: "FileSystem \<Rightarrow> u64 list" where
  "bitmap_list s = map (gbitmap block_kind s) [0..<length (fs_Bgds s)] @
     map (gbitmap inode_kind s) [0..<length (fs_Bgds s)]"

text \<open>The geometry of a mounted file system: superblock and descriptor table first, then the
  bitmaps, all on the device and in blocks of their own.\<close>

definition geom :: "FileSystem \<Rightarrow> bool" where
  "geom s \<longleftrightarrow> fs_ok s \<and> fs_sb s \<noteq> None \<and> superblock_wf (the (fs_sb s)) \<and>
     sb_BlockSize (the (fs_sb s)) = fs_BlockSize s \<and> GroupDescriptorSize (the (fs_sb s)) = fs_DescSize s \<and>
     64 \<le> unat (fs_DescSize s) \<and> length (fs_Bgds s) = unat (fs_GroupCount s) \<and>
     2048 \<le> unat (descTableStart (the (fs_sb s))) \<and> 2048 \<le> length (disk s) \<and>
     meta_end s \<le> length (disk s) \<and>
     (\<forall>g < length (fs_Bgds s). \<forall>k \<in> {block_kind, inode_kind}.
        block_in s (gbitmap k s g) \<and> meta_end s \<le> unat (gbitmap k s g) * bsz s) \<and>
     distinct (bitmap_list s)"

text \<open>What neither a change of a counter nor a write to the disk affects.\<close>

definition same_addrs :: "GroupDescriptor \<Rightarrow> GroupDescriptor \<Rightarrow> bool" where
  "same_addrs a b \<longleftrightarrow>
     BG_block_bitmap_lo a = BG_block_bitmap_lo b \<and> BG_block_bitmap_hi a = BG_block_bitmap_hi b \<and>
     BG_inode_bitmap_lo a = BG_inode_bitmap_lo b \<and> BG_inode_bitmap_hi a = BG_inode_bitmap_hi b \<and>
     BG_inode_table_lo a = BG_inode_table_lo b \<and> BG_inode_table_hi a = BG_inode_table_hi b"

definition same_geometry :: "SuperBlock \<Rightarrow> SuperBlock \<Rightarrow> bool" where
  "same_geometry a b \<longleftrightarrow> superblock_wf a = superblock_wf b \<and> sb_BlockSize a = sb_BlockSize b \<and>
     GroupDescriptorSize a = GroupDescriptorSize b \<and> S_blocks_per_group a = S_blocks_per_group b \<and>
     S_inodes_per_group a = S_inodes_per_group b \<and> S_blocks_count_lo a = S_blocks_count_lo b \<and>
     S_magic a = S_magic b"

definition same_layout :: "FileSystem \<Rightarrow> FileSystem \<Rightarrow> bool" where
  "same_layout s' s \<longleftrightarrow> fs_BlockSize s' = fs_BlockSize s \<and> fs_InodeSize s' = fs_InodeSize s \<and>
     fs_GroupCount s' = fs_GroupCount s \<and> fs_DescSize s' = fs_DescSize s \<and>
     fs_dirCache s' = fs_dirCache s \<and>
     length (disk s') = length (disk s) \<and> fs_sb s' \<noteq> None \<and>
     same_geometry (the (fs_sb s')) (the (fs_sb s)) \<and> length (fs_Bgds s') = length (fs_Bgds s) \<and>
     (\<forall>g < length (fs_Bgds s). same_addrs (fs_Bgds s' ! g) (fs_Bgds s ! g))"

lemma same_geometry_refl [simp]: "same_geometry a a"
  by (simp add: same_geometry_def)

lemma same_addrs_refl [simp]: "same_addrs a a"
  by (simp add: same_addrs_def)

lemma same_layout_refl: "geom s \<Longrightarrow> same_layout s s"
  by (simp add: same_layout_def geom_def)

lemma same_layout_trans: "same_layout a b \<Longrightarrow> same_layout b c \<Longrightarrow> same_layout a c"
  by (simp add: same_layout_def same_geometry_def same_addrs_def)

lemma desc_pos_cong: "same_geometry a b \<Longrightarrow> desc_pos a = desc_pos b"
  by (intro ext) (simp add: same_geometry_def desc_pos_def descTableStart_def)

lemma gbitmap_layout:
  "same_layout s' s \<Longrightarrow> k \<in> {block_kind, inode_kind} \<Longrightarrow> g < length (fs_Bgds s) \<Longrightarrow>
   gbitmap k s' g = gbitmap k s g"
  by (auto simp: same_layout_def same_addrs_def gbitmap_def gd_addr_def)

lemma meta_end_layout: "same_layout s' s \<Longrightarrow> meta_end s' = meta_end s"
  using desc_pos_cong by (auto simp: same_layout_def meta_end_def)

lemma block_in_layout: "same_layout s' s \<Longrightarrow> block_in s' b = block_in s b"
  by (simp add: same_layout_def block_in_def)

lemma geom_layout:
  assumes "geom s" and "same_layout s' s" and "dev_ok (fs_dev s')"
  shows "geom s'"
proof -
  have n: "length (fs_Bgds s') = length (fs_Bgds s)" using assms(2) by (simp add: same_layout_def)
  have m: "bitmap_list s' = bitmap_list s"
    unfolding bitmap_list_def n using gbitmap_layout [OF assms(2)] by simp
  have "descTableStart (the (fs_sb s')) = descTableStart (the (fs_sb s))"
    using assms(2) by (simp add: same_layout_def same_geometry_def descTableStart_def)
  with assms show ?thesis
    unfolding geom_def n m
    using gbitmap_layout [OF assms(2)] meta_end_layout [OF assms(2)] block_in_layout [OF assms(2)]
    by (simp add: same_layout_def same_geometry_def fs_ok_def)
qed

lemma blk_poke_meta:
  assumes "dev_ok (fs_dev s)" and "p \<noteq> []" and "off + length p \<le> length (disk s)"
    and "block_in s c" and "off + length p \<le> unat c * bsz s"
  shows "blk (poke s off p) c = blk s c"
  using assms slice_copy_at_other [of off p "disk s" "unat c * bsz s + bsz s" "unat c * bsz s"]
  by (simp add: blk_def block_in_def)

lemma desc_slot_end:
  assumes "geom s" and "g < unat (fs_GroupCount s)"
  shows "desc_pos (the (fs_sb s)) g + 64 \<le> meta_end s" "2048 \<le> desc_pos (the (fs_sb s)) g"
proof -
  have "Suc g * unat (fs_DescSize s) \<le> unat (fs_GroupCount s) * unat (fs_DescSize s)"
    using assms(2) by (intro mult_le_mono1) simp
  then show "desc_pos (the (fs_sb s)) g + 64 \<le> meta_end s" "2048 \<le> desc_pos (the (fs_sb s)) g"
    using assms(1) by (auto simp: geom_def meta_end_def desc_pos_def)
qed

lemma WriteGroupDescriptor_ok:
  assumes "geom s" and "unat g < unat (fs_GroupCount s)"
  shows "WriteGroupDescriptor g bgd s = (Ok (), poke s (desc_pos (the (fs_sb s)) (unat g)) (gd_bytes bgd))"
proof -
  obtain sb where sb: "fs_sb s = Some sb" using assms(1) by (auto simp: geom_def)
  have dv: "dev_ok (fs_dev s)" "meta_end s \<le> length (disk s)" "64 \<le> unat (GroupDescriptorSize sb)"
    using assms(1) sb by (auto simp: geom_def fs_ok_def)
  note e = desc_slot_end(1) [OF assms, unfolded sb option.sel]
  have lt: "desc_pos sb (unat g) < 2 ^ 62" using e dv dev_ok_size [OF dv(1)] by linarith
  then have "sint (descTableStart sb) = int (unat (descTableStart sb))"
    by (intro sint_u64_small) (simp add: desc_pos_def)
  then have "sint (descTableStart sb) + int (unat g) * int (unat (GroupDescriptorSize sb)) = int (desc_pos sb (unat g))"
    unfolding desc_pos_def by (simp only: of_nat_add of_nat_mult)
  moreover have "i64 (int (desc_pos sb (unat g))) = int (desc_pos sb (unat g))"
    using lt by (intro i64_id) simp_all
  moreover have "fs_write (gd_bytes bgd) (int (desc_pos sb (unat g))) s =
      (Ok (), poke s (desc_pos sb (unat g)) (gd_bytes bgd))"
    using dv e by (intro fs_write_ok) (auto simp flip: length_greater_0_conv)
  ultimately show ?thesis
    using dv(3) by (simp add: WriteGroupDescriptor_def deref_sb_def sb Let_def)
qed

lemma writeSuperBlock_ok:
  assumes "dev_ok (fs_dev s)" and "2048 \<le> length (disk s)" and "fs_sb s = Some sb" and "superblock_wf sb"
  shows "writeSuperBlock s = (Ok (), poke s 1024 (superblock_bytes sb))"
proof -
  have l: "length (superblock_bytes sb) = 1024" using assms(4) by (rule superblock_len)
  then have "fs_write (superblock_bytes sb) (int 1024) s = (Ok (), poke s 1024 (superblock_bytes sb))"
    using assms by (intro fs_write_ok) (auto simp flip: length_greater_0_conv)
  then show ?thesis using assms(3) l by (simp add: writeSuperBlock_def SUPERBLOCK_OFFSET_def)
qed

lemma kind_sb:
  "\<exists>w. k_sb block_kind delta sb = sb\<lparr>S_free_blocks_count_lo := w\<rparr>"
  "\<exists>w. k_sb inode_kind delta sb = sb\<lparr>S_free_inodes_count := w\<rparr>"
  by (auto simp: block_kind_def inode_kind_def)

lemma same_geometry_counters:
  "same_geometry (sb\<lparr>S_free_blocks_count_lo := w\<rparr>) sb" "same_geometry (sb\<lparr>S_free_inodes_count := w\<rparr>) sb"
  by (simp_all add: same_geometry_def)

lemma kind_keeps:
  assumes "k \<in> {block_kind, inode_kind}"
  shows "same_addrs (k_step k d bgd) bgd" "same_geometry (k_sb k delta sb) sb"
    "same_addrs a b \<Longrightarrow> fs_DescSize s = fs_DescSize s' \<Longrightarrow> k_bitmap k s a = k_bitmap k s' b"
proof -
  show "same_addrs (k_step k d bgd) bgd" using assms by (auto simp: same_addrs_def)
  show "same_geometry (k_sb k delta sb) sb"
    using assms kind_sb [of delta sb] same_geometry_counters by auto
  show "same_addrs a b \<Longrightarrow> fs_DescSize s = fs_DescSize s' \<Longrightarrow> k_bitmap k s a = k_bitmap k s' b"
    using assms by (auto simp: same_addrs_def gd_addr_def)
qed

text \<open>The state after one bit of a pool is changed.\<close>

definition changed :: "kind \<Rightarrow> FileSystem \<Rightarrow> nat \<Rightarrow> bytes \<Rightarrow> u16 \<Rightarrow> int \<Rightarrow> FileSystem \<Rightarrow> bool" where
  "changed k s g bm d delta s' \<longleftrightarrow> geom s' \<and> same_layout s' s \<and>
     fs_Bgds s' = (fs_Bgds s)[g := k_step k d (fs_Bgds s ! g)] \<and>
     fs_sb s' = Some (k_sb k delta (the (fs_sb s))) \<and>
     (\<forall>c. block_in s c \<and> meta_end s \<le> unat c * bsz s \<longrightarrow>
        blk s' c = (if c = gbitmap k s g then bm else blk s c))"

lemma geom_fs_ok [simp]: "geom s \<Longrightarrow> fs_ok s"
  by (simp add: geom_def)

lemma same_layout_poke:
  assumes "geom s" and "p \<noteq> []" and "off + length p \<le> length (disk s)"
  shows "same_layout (poke s off p) s" "geom (poke s off p)"
proof -
  have d: "dev_ok (fs_dev s)" using assms(1) by (simp add: geom_def fs_ok_def)
  show "same_layout (poke s off p) s"
    using assms poke_ok [OF d assms(2,3)] same_layout_refl [OF assms(1)] by (simp add: same_layout_def)
  then show "geom (poke s off p)"
    using geom_layout [OF assms(1)] poke_ok [OF d assms(2,3)] by simp
qed

lemma gbitmap_in:
  assumes "geom s" and "k \<in> {block_kind, inode_kind}" and "g < length (fs_Bgds s)"
  shows "block_in s (gbitmap k s g)" "meta_end s \<le> unat (gbitmap k s g) * bsz s"
    "length (blk s (gbitmap k s g)) = bsz s"
proof -
  have "block_in s (gbitmap k s g) \<and> meta_end s \<le> unat (gbitmap k s g) * bsz s"
    using assms unfolding geom_def by blast
  then show "block_in s (gbitmap k s g)" "meta_end s \<le> unat (gbitmap k s g) * bsz s"
    "length (blk s (gbitmap k s g)) = bsz s" by simp_all
qed

lemma geomD:
  assumes "geom s"
  shows "dev_ok (fs_dev s)" "2048 \<le> length (disk s)" "meta_end s \<le> length (disk s)"
    "superblock_wf (the (fs_sb s))" "length (fs_Bgds s) = unat (fs_GroupCount s)"
    "\<exists>sb. fs_sb s = Some sb" "64 \<le> unat (fs_DescSize s)"
  using assms unfolding geom_def fs_ok_def by blast+

lemma pool_change_ok:
  assumes "geom s" and k: "k \<in> {block_kind, inode_kind}" and g: "unat g < length (fs_Bgds s)"
    and bm: "length bm = bsz s"
  shows "\<exists>s'. pool_change k ewr egd g bm d delta s = (Ok (), s') \<and> changed k s (unat g) bm d delta s'"
proof -
  obtain sb where sb: "fs_sb s = Some sb" using geomD(6) [OF assms(1)] by blast
  define bgd where "bgd = fs_Bgds s ! unat g"
  define bb where "bb = k_bitmap k s bgd"
  define s1 where "s1 = put_block s bb bm"
  define s2 where "s2 = upd_bgd g (\<lambda>_. k_step k d bgd) s1"
  define s3 where "s3 = poke s2 (desc_pos sb (unat g)) (gd_bytes (k_step k d bgd))"
  define s4 where "s4 = s3\<lparr>fs_sb := Some (k_sb k delta sb)\<rparr>"
  define s5 where "s5 = poke s4 1024 (superblock_bytes (k_sb k delta sb))"
  have ok: "fs_ok s" "dev_ok (fs_dev s)" using assms(1) geomD(1) by simp_all
  have gc: "unat g < unat (fs_GroupCount s)" using geomD(5) [OF assms(1)] g by simp
  have b: "block_in s bb" "meta_end s \<le> unat bb * bsz s" "bb = gbitmap k s (unat g)"
    using gbitmap_in [OF assms(1) k g] by (simp_all add: gbitmap_def bb_def bgd_def)
  have d1: "disk s1 = copy_at (unat bb * bsz s) bm (disk s)" "fs_ok s1"
    unfolding s1_def using put_block_ok [OF ok(1) b(1) bm] by auto
  have l1: "length (disk s1) = length (disk s)" using b(1) bm by (simp add: d1 block_in_def)
  have l2: "same_layout s2 s"
    using same_layout_refl [OF assms(1)] l1 kind_keeps [OF k] g
    by (auto simp: same_layout_def s2_def upd_bgd_def s1_def nth_list_update bgd_def)
  then have g2: "geom s2"
    using geom_layout [OF assms(1) l2] d1(2) by (simp add: s2_def upd_bgd_def fs_ok_def)
  have sb2: "fs_sb s2 = Some sb" by (simp add: s2_def upd_bgd_def s1_def sb)
  have gc2: "unat g < unat (fs_GroupCount s2)" using gc l2 by (simp add: same_layout_def)
  note e2 = desc_slot_end [OF g2 gc2, unfolded sb2 option.sel]
  have p3: "gd_bytes x \<noteq> []" "desc_pos sb (unat g) + length (gd_bytes x) \<le> length (disk s2)" for x
    using e2 geomD(3) [OF g2] by (auto simp flip: length_greater_0_conv)
  note l3 = same_layout_poke [OF g2 p3, of "k_step k d bgd", folded s3_def]
  have l4: "same_layout s4 s3"
    using l3 kind_keeps [OF k] same_layout_refl [OF l3(2)] sb2
    by (simp add: same_layout_def s4_def s3_def)
  then have g4: "geom s4"
    using geom_layout [OF l3(2) l4] l3(2) by (simp add: s4_def geom_def fs_ok_def)
  have sb4: "fs_sb s4 = Some (k_sb k delta sb)" by (simp add: s4_def)
  have len5: "length (superblock_bytes (k_sb k delta sb)) = 1024"
    using geomD(4) [OF g4] sb4 by (simp add: superblock_len)
  have p5: "superblock_bytes (k_sb k delta sb) \<noteq> []" "1024 + length (superblock_bytes (k_sb k delta sb)) \<le> length (disk s4)"
    using geomD(2) [OF g4] len5 by (auto simp flip: length_greater_0_conv)
  note l5 = same_layout_poke [OF g4 p5, folded s5_def]
  have lay4: "same_layout s4 s" using l4 l3(1) l2 same_layout_trans by blast
  then have lay: "same_layout s5 s" using l5(1) same_layout_trans by blast
  have run: "pool_change k ewr egd g bm d delta s = (Ok (), s5)"
  proof -
    have "bgd_at g s = (Ok bgd, s)" using g by (simp add: bgd_at_def bgd_def)
    moreover have "write_block bm bb s = (Ok (), s1)" unfolding s1_def using ok b bm by simp
    moreover have "WriteGroupDescriptor g (k_step k d bgd) s2 = (Ok (), s3)"
      using WriteGroupDescriptor_ok [OF g2 gc2] by (simp add: s3_def sb2)
    moreover have "writeSuperBlock s4 = (Ok (), s5)"
      unfolding s5_def using geomD [OF g4] sb4 by (intro writeSuperBlock_ok) simp_all
    moreover have "deref_sb s3 = (Ok sb, s3)" by (simp add: deref_sb_def s3_def sb2)
    ultimately show ?thesis
      by (simp add: pool_change_def update_sb_def flip: bb_def s4_def s2_def)
  qed
  have "blk s5 c = (if c = bb then bm else blk s c)" if c: "block_in s c" "meta_end s \<le> unat c * bsz s" for c
  proof -
    have bs: "bsz s2 = bsz s" "bsz s4 = bsz s" "meta_end s2 = meta_end s" "block_in s2 c" "block_in s4 c"
      using block_in_layout [OF l2] block_in_layout [OF lay4] meta_end_layout [OF l2] c l2 lay4
      by (simp_all add: same_layout_def)
    have "2048 \<le> desc_pos sb (unat g)" using e2 by simp
    then have "blk s5 c = blk s4 c"
      unfolding s5_def using geomD(1) [OF g4] p5 bs len5 c e2 by (intro blk_poke_meta) simp_all
    also have "\<dots> = blk s3 c" by (simp add: s4_def blk_def)
    also have "\<dots> = blk s2 c"
      unfolding s3_def using geomD(1) [OF g2] p3 bs c e2 by (intro blk_poke_meta) simp_all
    also have "\<dots> = blk s1 c" by (simp add: s2_def upd_bgd_def blk_def)
    also have "\<dots> = (if c = bb then bm else blk s c)"
      unfolding s1_def using blk_put_block [OF ok(1) b(1) bm c(1)] .
    finally show ?thesis .
  qed
  with run lay l5(2) b(3) show ?thesis
    by (auto simp: changed_def s5_def s4_def s3_def s2_def upd_bgd_def s1_def sb bgd_def)
qed

section \<open>The bits of the pools\<close>

definition pool_bit :: "kind \<Rightarrow> FileSystem \<Rightarrow> nat \<Rightarrow> nat \<Rightarrow> bool" where
  "pool_bit k s g i = bit_at (blk s (gbitmap k s g)) i"

lemma gbitmap_eq_iff:
  assumes "geom s" and "k \<in> {block_kind, inode_kind}" and "k' \<in> {block_kind, inode_kind}"
    and "g < length (fs_Bgds s)" and "h < length (fs_Bgds s)"
  shows "gbitmap k s g = gbitmap k' s h \<longleftrightarrow> k = k' \<and> g = h"
proof -
  have dist: "distinct (bitmap_list s)" using assms(1) by (simp add: geom_def)
  have n: "block_kind \<noteq> inode_kind" by simp
  define e where "e k = (if k = block_kind then 0 else length (fs_Bgds s))" for k
  have nth: "bitmap_list s ! (e k + g) = gbitmap k s g" "e k + g < length (bitmap_list s)"
    if "k \<in> {block_kind, inode_kind}" "g < length (fs_Bgds s)" for k g
    using that n by (auto simp: bitmap_list_def e_def nth_append)
  have "gbitmap k s g = gbitmap k' s h \<longleftrightarrow> e k + g = e k' + h"
    using nth_eq_iff_index_eq [OF dist nth(2) nth(2)] nth(1) assms by metis
  then show ?thesis using assms n by (auto simp: e_def)
qed

lemma changed_bits:
  assumes "changed k s g bm d delta s'" and "geom s" and k: "k \<in> {block_kind, inode_kind}" "k' \<in> {block_kind, inode_kind}"
    and g: "g < length (fs_Bgds s)" "h < length (fs_Bgds s)"
  shows "pool_bit k' s' h i = (if k' = k \<and> h = g then bit_at bm i else pool_bit k' s h i)"
proof -
  have "gbitmap k' s' h = gbitmap k' s h"
    using assms(1) gbitmap_layout [OF _ k(2) g(2)] by (simp add: changed_def)
  moreover have "blk s' (gbitmap k' s h) = (if gbitmap k' s h = gbitmap k s g then bm else blk s (gbitmap k' s h))"
    using assms(1) gbitmap_in [OF assms(2) k(2) g(2)] by (simp add: changed_def)
  ultimately show ?thesis
    using gbitmap_eq_iff [OF assms(2) k(2,1) g(2,1)] by (auto simp: pool_bit_def)
qed

definition pool_found :: "kind \<Rightarrow> FileSystem \<Rightarrow> u32 \<Rightarrow> nat \<Rightarrow> nat \<Rightarrow> FileSystem \<Rightarrow> bool" where
  "pool_found k s g j i s' \<longleftrightarrow> unat g < length (fs_Bgds s) \<and> j < bsz s \<and> i < 8 \<and> k_start k g \<le> j * 8 + i \<and>
     k_count k s (fs_Bgds s ! unat g) \<noteq> 0 \<and> \<not> pool_bit k s (unat g) (j * 8 + i) \<and>
     changed k s (unat g) (bitmap_set (blk s (gbitmap k s (unat g))) j i) (- 1) (- 1) s'"

definition pool_full :: "kind \<Rightarrow> FileSystem \<Rightarrow> u32 \<Rightarrow> bool" where
  "pool_full k s g \<longleftrightarrow> k_count k s (fs_Bgds s ! unat g) = 0 \<or>
     (\<forall>i. k_start k g \<le> i \<and> i < 8 * bsz s \<longrightarrow> pool_bit k s (unat g) i)"

lemma pool_alloc_spec:
  assumes "geom s" and k: "k \<in> {block_kind, inode_kind}" and "\<forall>g \<in> set gs. unat g < length (fs_Bgds s)"
  shows "(\<exists>g j i s'. pool_alloc k gs s = (Ok (g, j, i), s') \<and> pool_found k s g j i s') \<or>
    (pool_alloc k gs s = (Err (k_none k), s) \<and> (\<forall>g \<in> set gs. pool_full k s g))"
  using assms(3)
proof (induction gs)
  case (Cons g gs)
  define bm where "bm = blk s (gbitmap k s (unat g))"
  have g: "unat g < length (fs_Bgds s)" using Cons.prems by simp
  then have at: "bgd_at g s = (Ok (fs_Bgds s ! unat g), s)" by (simp add: bgd_at_def)
  note gin = gbitmap_in [OF assms(1) k g]
  have rd: "read_block (k_bitmap k s (fs_Bgds s ! unat g)) s = (Ok bm, s)"
    using gin assms(1) by (simp add: bm_def gbitmap_def)
  have skip: ?case if "pool_alloc k (g # gs) s = pool_alloc k gs s" "pool_full k s g"
    using that Cons by auto
  show ?case
  proof (cases "k_count k s (fs_Bgds s ! unat g) = 0")
    case True
    then show ?thesis using at by (intro skip) (simp_all add: pool_full_def)
  next
    case count: False
    show ?thesis
    proof (cases "scan_bitmap bm (k_start k g)")
      case None
      then have "pool_full k s g"
        using scan_bitmap_None [OF None] gin(3) by (simp add: pool_full_def pool_bit_def bm_def)
      then show ?thesis using at rd None count by (intro skip) simp_all
    next
      case (Some r)
      obtain j i where r: "r = (j, i)" by fastforce
      note sc = scan_bitmap_Some [OF Some [unfolded r]]
      obtain s' where ch: "pool_change k (k_wr k) (k_gd k) g (bitmap_set bm j i) (- 1) (- 1) s = (Ok (), s')"
          "changed k s (unat g) (bitmap_set bm j i) (- 1) (- 1) s'"
        using pool_change_ok [OF assms(1) k g, of "bitmap_set bm j i" "k_wr k" "k_gd k" "- 1" "- 1"] gin(3)
        by (auto simp: bm_def)
      have "pool_found k s g j i s'"
        using sc ch(2) g count gin(3) by (simp add: pool_found_def pool_bit_def bm_def)
      moreover have "pool_alloc k (g # gs) s = (Ok (g, j, i), s')"
        using at rd count Some r ch(1) by simp
      ultimately show ?thesis by blast
    qed
  qed
qed simp

section \<open>The interface of a pool\<close>

text \<open>What the callers of the allocators rely on: an allocation returns a number that was
  free and marks it, nothing else; freeing a used number clears its mark, nothing else;
  freeing a free number is an error and changes nothing.\<close>

locale bitmap_pool =
  fixes alloc :: "('s, 'n) op"
    and free :: "'n \<Rightarrow> ('s, unit) op"
    and used :: "'s \<Rightarrow> 'n \<Rightarrow> bool"
    and valid :: "'s \<Rightarrow> 'n \<Rightarrow> bool"
    and inv :: "'s \<Rightarrow> bool"
  assumes alloc_law: "inv s \<Longrightarrow> alloc s = (Ok n, s') \<Longrightarrow>
      inv s' \<and> valid s' = valid s \<and> valid s n \<and> \<not> used s n \<and>
      (\<forall>m. valid s m \<longrightarrow> used s' m = (m = n \<or> used s m))"
    and alloc_total: "inv s \<Longrightarrow> (\<exists>n s'. alloc s = (Ok n, s')) \<or> (\<exists>e. alloc s = (Err e, s))"
    and free_law: "inv s \<Longrightarrow> valid s n \<Longrightarrow> used s n \<Longrightarrow>
      \<exists>s'. free n s = (Ok (), s') \<and> inv s' \<and> valid s' = valid s \<and>
           (\<forall>m. valid s m \<longrightarrow> used s' m = (m \<noteq> n \<and> used s m))"
    and free_twice: "inv s \<Longrightarrow> valid s n \<Longrightarrow> \<not> used s n \<Longrightarrow> \<exists>e. free n s = (Err e, s)"
begin

text \<open>A run of \<open>k\<close> allocations that all succeed.\<close>

fun allocs :: "nat \<Rightarrow> ('s, 'n list) op" where
  "allocs 0 = ret []"
| "allocs (Suc k) = andThen alloc (\<lambda>n. andThen (allocs k) (\<lambda>ns. ret (n # ns)))"

lemma allocs_fresh:
  "inv s \<Longrightarrow> allocs k s = (Ok ns, s') \<Longrightarrow>
   inv s' \<and> valid s' = valid s \<and> distinct ns \<and> length ns = k \<and>
   (\<forall>n \<in> set ns. valid s n \<and> \<not> used s n) \<and>
   (\<forall>m. valid s m \<longrightarrow> used s' m = (m \<in> set ns \<or> used s m))"
proof (induction k arbitrary: s ns)
  case (Suc k)
  obtain n s1 where a: "alloc s = (Ok n, s1)"
    and b: "andThen (allocs k) (\<lambda>ns. ret (n # ns)) s1 = (Ok ns, s')"
    using Suc.prems(2) by (auto elim: andThen_OkE)
  obtain ms where m: "allocs k s1 = (Ok ms, s')" "ns = n # ms"
    using b by (auto elim!: andThen_OkE)
  note l = alloc_law [OF Suc.prems(1) a]
  note ih = Suc.IH [of s1 ms]
  show ?case using l ih m by auto
qed simp

text \<open>Freeing a list of distinct used numbers, as the loops over the blocks of a file do.\<close>

fun frees :: "'n list \<Rightarrow> ('s, unit) op" where
  "frees [] = ret ()"
| "frees (n # ns) = andThen (free n) (\<lambda>_. frees ns)"

lemma frees_law:
  "inv s \<Longrightarrow> distinct ns \<Longrightarrow> \<forall>n \<in> set ns. valid s n \<and> used s n \<Longrightarrow>
   \<exists>s'. frees ns s = (Ok (), s') \<and> inv s' \<and> valid s' = valid s \<and>
        (\<forall>m. valid s m \<longrightarrow> used s' m = (m \<notin> set ns \<and> used s m))"
proof (induction ns arbitrary: s)
  case (Cons n ns)
  obtain s1 where f: "free n s = (Ok (), s1)" "inv s1" "valid s1 = valid s"
      "\<forall>m. valid s m \<longrightarrow> used s1 m = (m \<noteq> n \<and> used s m)"
    using free_law [of s n] Cons.prems by auto
  obtain s' where "frees ns s1 = (Ok (), s')" "inv s'" "valid s' = valid s1"
      "\<forall>m. valid s1 m \<longrightarrow> used s' m = (m \<notin> set ns \<and> used s1 m)"
    using Cons.IH [of s1] Cons.prems f by auto
  with f show ?case by auto
qed auto

lemma alloc_free:
  assumes "inv s" and "alloc s = (Ok n, s1)"
  shows "\<exists>s2. free n s1 = (Ok (), s2) \<and> inv s2 \<and> (\<forall>m. valid s m \<longrightarrow> used s2 m = used s m)"
proof -
  note l = alloc_law [OF assms]
  have "used s1 n" "valid s1 n" "inv s1" using l by auto
  from free_law [OF this(3,2,1)] l show ?thesis by auto
qed

lemma free_free:
  assumes "inv s" and "valid s n" and "used s n"
  shows "\<exists>s1 e. free n s = (Ok (), s1) \<and> free n s1 = (Err e, s1)"
proof -
  obtain s1 where s1: "free n s = (Ok (), s1)" "inv s1" "valid s1 = valid s" "\<not> used s1 n"
    using free_law [OF assms] assms(2) by blast
  then show ?thesis using free_twice [of s1 n] assms(2) by auto
qed

end

section \<open>Blocks and inodes as pools\<close>

definition padded :: "kind \<Rightarrow> nat \<Rightarrow> FileSystem \<Rightarrow> bool" where
  "padded k per s \<longleftrightarrow> geom s \<and> 0 < per \<and> per \<le> 8 * bsz s \<and>
     (\<forall>g < length (fs_Bgds s). \<forall>i. per \<le> i \<and> i < 8 * bsz s \<longrightarrow> pool_bit k s g i)"

definition pool_used :: "kind \<Rightarrow> nat \<Rightarrow> FileSystem \<Rightarrow> nat \<Rightarrow> bool" where
  "pool_used k per s x = pool_bit k s (x div per) (x mod per)"

lemma padded_changed:
  assumes "padded k per s" and "changed k s g bm d delta s'" and k: "k \<in> {block_kind, inode_kind}"
    and g: "g < length (fs_Bgds s)"
    and bits: "\<And>i. i < 8 * bsz s \<Longrightarrow> bit_at bm i \<longleftrightarrow> (if i = l then v else pool_bit k s g i)"
    and l: "l < per"
  shows "padded k per s'"
    and "x < length (fs_Bgds s) * per \<Longrightarrow>
         pool_used k per s' x = (if x = g * per + l then v else pool_used k per s x)"
proof -
  have gs: "geom s" "0 < per" "per \<le> 8 * bsz s" using assms(1) by (auto simp: padded_def)
  have lay: "same_layout s' s" "geom s'" using assms(2) by (auto simp: changed_def)
  note cb = changed_bits [OF assms(2) gs(1) k k g]
  show "padded k per s'"
    unfolding padded_def
  proof (intro conjI allI impI)
    fix h i assume h: "h < length (fs_Bgds s')" "per \<le> i \<and> i < 8 * bsz s'"
    then have "h < length (fs_Bgds s)" "i < 8 * bsz s" using lay(1) by (auto simp: same_layout_def)
    then show "pool_bit k s' h i"
      using cb [of h i] bits [of i] h assms(1) l by (auto simp: padded_def)
  qed (use lay gs in \<open>auto simp: same_layout_def\<close>)
  assume x: "x < length (fs_Bgds s) * per"
  then have "x div per < length (fs_Bgds s)" "x mod per < per"
    using gs(2) by (auto simp: less_mult_imp_div_less)
  moreover have "x = g * per + l \<longleftrightarrow> x div per = g \<and> x mod per = l"
    using l by (metis div_mult_mod_eq div_mult_self3 div_less mod_less mod_mult_self3 add_0 add.commute gr_implies_not0)
  moreover have "x mod per < 8 * bsz s" using calculation gs by linarith
  ultimately show "pool_used k per s' x = (if x = g * per + l then v else pool_used k per s x)"
    using cb [of "x div per" "x mod per"] bits [of "x mod per"] gs by (auto simp: pool_used_def)
qed

lemma unat_ucast_down: "unat w < 2 ^ LENGTH('b) \<Longrightarrow> unat (ucast (w :: 'a::len word) :: 'b::len word) = unat w"
  by (simp add: unsigned_ucast_eq take_bit_nat_eq_self)

lemma unat_index:
  fixes g per :: u32
  assumes "j < 65536" and "i < 8"
  shows "unat (ucast g * ucast per + word_of_nat j * 8 + word_of_nat i :: u64) = unat g * unat per + (j * 8 + i)"
proof -
  have le: "unat g * unat per \<le> (2 ^ 32 - 1) * (2 ^ 32 - 1)"
    using unat_bounds(3) [of g] unat_bounds(3) [of per] by (intro mult_le_mono) simp_all
  have a: "unat (ucast g * ucast per :: u64) = unat g * unat per"
    using unat_mult_u64 [of "ucast g" "ucast per"] le by simp
  have j: "unat (word_of_nat j * 8 :: u64) = j * 8"
    using assms(1) unat_mult_u64 [of "word_of_nat j" 8] by (simp add: unat_of_nat)
  have i: "unat (word_of_nat i :: u64) = i" using assms(2) by (simp add: unat_of_nat)
  have b: "unat (ucast g * ucast per + word_of_nat j * 8 :: u64) = unat g * unat per + j * 8"
    using unat_add_u64 [of "ucast g * ucast per" "word_of_nat j * 8"] a j le assms(1) by simp
  show ?thesis
    using unat_add_u64 [of "ucast g * ucast per + word_of_nat j * 8" "word_of_nat i"] b i le assms by simp
qed

lemma pool_found_padded:
  assumes "padded k per s" and "k \<in> {block_kind, inode_kind}" and "pool_found k s g j i s'"
  shows "j * 8 + i < per" "padded k per s'" "same_layout s' s" "\<not> pool_used k per s (unat g * per + (j * 8 + i))"
    "\<And>x. x < length (fs_Bgds s) * per \<Longrightarrow>
         pool_used k per s' x = (x = unat g * per + (j * 8 + i) \<or> pool_used k per s x)"
proof -
  have f: "unat g < length (fs_Bgds s)" "j < bsz s" "i < 8" "\<not> pool_bit k s (unat g) (j * 8 + i)"
      "changed k s (unat g) (bitmap_set (blk s (gbitmap k s (unat g))) j i) (- 1) (- 1) s'"
    using assms(3) by (auto simp: pool_found_def)
  show l: "j * 8 + i < per"
  proof (rule ccontr)
    assume "\<not> j * 8 + i < per"
    moreover have "j * 8 + i < 8 * bsz s" using f by linarith
    ultimately show False using assms(1) f by (auto simp: padded_def)
  qed
  have gs: "geom s" using assms(1) by (simp add: padded_def)
  have bits: "bit_at (bitmap_set (blk s (gbitmap k s (unat g))) j i) x \<longleftrightarrow>
      (if x = j * 8 + i then True else pool_bit k s (unat g) x)" if "x < 8 * bsz s" for x
    using bit_at_set [of j "blk s (gbitmap k s (unat g))" i x] gbitmap_in [OF gs assms(2) f(1)] f that
    by (simp add: pool_bit_def)
  note pc = padded_changed [OF assms(1) f(5) assms(2) f(1) bits l]
  show "padded k per s'" by (rule pc(1))
  show "same_layout s' s" using f(5) by (simp add: changed_def)
  show "pool_used k per s' x = (x = unat g * per + (j * 8 + i) \<or> pool_used k per s x)"
    if "x < length (fs_Bgds s) * per" for x using pc(2) [OF _ that] by simp
  show "\<not> pool_used k per s (unat g * per + (j * 8 + i))"
    using f(4) l by (simp add: pool_used_def div_mult_self3 mod_mult_self3)
qed

definition bpg :: "FileSystem \<Rightarrow> nat" where
  "bpg s = unat (S_blocks_per_group (the (fs_sb s)))"

definition blocks_inv :: "FileSystem \<Rightarrow> bool" where
  "blocks_inv s = padded block_kind (bpg s) s"

definition block_valid :: "FileSystem \<Rightarrow> u64 \<Rightarrow> bool" where
  "block_valid s b \<longleftrightarrow> unat b < length (fs_Bgds s) * bpg s"

definition block_used :: "FileSystem \<Rightarrow> u64 \<Rightarrow> bool" where
  "block_used s b = pool_used block_kind (bpg s) s (unat b)"

lemma bpg_layout: "same_layout s' s \<Longrightarrow> bpg s' = bpg s \<and> length (fs_Bgds s') = length (fs_Bgds s)"
  by (simp add: same_layout_def same_geometry_def bpg_def)

lemma group_list:
  "geom s \<Longrightarrow> \<forall>g \<in> set (map word_of_nat [0..<unat (fs_GroupCount s)] :: u32 list). unat g < length (fs_Bgds s)"
  using unat_bounds(3) [of "fs_GroupCount s"] geomD(5) [of s] by (auto simp: unat_of_nat)

lemma AllocateBlock_cases:
  assumes "blocks_inv s"
  shows "(\<exists>b s' g j i. AllocateBlock s = (Ok b, s') \<and> unat b = unat g * bpg s + (j * 8 + i) \<and>
            pool_found block_kind s g j i s') \<or>
    (AllocateBlock s = (Err (Errorf ''AllocateBlock: no free blocks available''), s) \<and>
     (\<forall>g < length (fs_Bgds s). pool_full block_kind s (word_of_nat g)))"
proof -
  have gs: "geom s" using assms by (simp add: blocks_inv_def padded_def)
  obtain sb where sb: "fs_sb s = Some sb" using geomD(6) [OF gs] by blast
  let ?gs = "map word_of_nat [0..<unat (fs_GroupCount s)] :: u32 list"
  have run: "AllocateBlock s = andThen (pool_alloc block_kind ?gs) (\<lambda>(g, j, i).
      ret (ucast g * ucast (S_blocks_per_group sb) + word_of_nat j * 8 + word_of_nat i)) s"
    by (simp add: AllocateBlock_def deref_sb_def sb alloc_block_loop_eq)
  from pool_alloc_spec [OF gs insertI1 group_list [OF gs]] show ?thesis
  proof (elim disjE exE conjE)
    fix g j i s' assume a: "pool_alloc block_kind ?gs s = (Ok (g, j, i), s')" "pool_found block_kind s g j i s'"
    have "bsz s \<le> 65536" using gs by (simp add: geom_def fs_ok_def)
    then have "j < 65536" "i < 8" using a(2) by (auto simp: pool_found_def)
    note u = unat_index [OF this, of g "S_blocks_per_group sb"]
    have "AllocateBlock s = (Ok (ucast g * ucast (S_blocks_per_group sb) + word_of_nat j * 8 + word_of_nat i), s')"
      using a(1) by (simp add: run)
    with u a(2) show ?thesis by (auto simp: bpg_def sb)
  qed (use geomD(5) [OF gs] run in auto)
qed

lemma pool_clear:
  assumes "padded k per s" and k: "k \<in> {block_kind, inode_kind}" and "x < length (fs_Bgds s) * per"
    and g: "unat g = x div per"
  shows "\<exists>s'. pool_change k ewr egd g (bitmap_clear (blk s (gbitmap k s (x div per))) (x mod per div 8) (x mod per mod 8)) 1 1 s
        = (Ok (), s') \<and> padded k per s' \<and> same_layout s' s \<and>
      (\<forall>y < length (fs_Bgds s) * per. pool_used k per s' y = (y \<noteq> x \<and> pool_used k per s y))"
proof -
  let ?bm = "blk s (gbitmap k s (x div per))" and ?l = "x mod per"
  have gs: "geom s" "0 < per" "per \<le> 8 * bsz s" using assms(1) by (auto simp: padded_def)
  have gl: "x div per < length (fs_Bgds s)" "?l < per"
    using assms(3) gs by (auto simp: less_mult_imp_div_less)
  then have gu: "unat g < length (fs_Bgds s)" using g by simp
  note gin = gbitmap_in [OF gs(1) k gl(1)]
  have "?l < 8 * bsz s" using gl gs by linarith
  then have j: "?l div 8 < length ?bm" "?l mod 8 < 8" using gin(3) by auto
  obtain s' where ch: "pool_change k ewr egd g (bitmap_clear ?bm (?l div 8) (?l mod 8)) 1 1 s = (Ok (), s')"
      "changed k s (unat g) (bitmap_clear ?bm (?l div 8) (?l mod 8)) 1 1 s'"
    using pool_change_ok [OF gs(1) k gu, of "bitmap_clear ?bm (?l div 8) (?l mod 8)" ewr egd 1 1] gin(3) by auto
  have bits: "bit_at (bitmap_clear ?bm (?l div 8) (?l mod 8)) i \<longleftrightarrow>
      (if i = ?l then False else pool_bit k s (unat g) i)" if "i < 8 * bsz s" for i
    using bit_at_clear [OF j, of i] gin(3) that by (simp add: pool_bit_def g)
  note pc = padded_changed [OF assms(1) ch(2) k gu bits gl(2)]
  have "padded k per s'" by (rule pc(1))
  moreover have "pool_used k per s' y = (y \<noteq> x \<and> pool_used k per s y)" if "y < length (fs_Bgds s) * per" for y
    using pc(2) [OF _ that] by (simp add: g)
  moreover have "same_layout s' s" using ch(2) by (simp add: changed_def)
  ultimately show ?thesis using ch(1) by blast
qed

lemma FreeBlock_run:
  assumes "blocks_inv s" and "block_valid s b"
  shows "FreeBlock b s =
    (if \<not> block_used s b then (Err (Errorf ''FreeBlock: block is already free''), s)
     else pool_change block_kind ''FreeBlock: failed to write block bitmap'' ''FreeBlock''
       (ucast (b div ucast (S_blocks_per_group (the (fs_sb s)))))
       (bitmap_clear (blk s (gbitmap block_kind s (unat b div bpg s))) (unat b mod bpg s div 8) (unat b mod bpg s mod 8)) 1 1 s)"
proof -
  have pd: "padded block_kind (bpg s) s" using assms(1) by (simp add: blocks_inv_def)
  then have gs: "geom s" "0 < bpg s" "bpg s \<le> 8 * bsz s" by (auto simp: padded_def)
  obtain sb where sb: "fs_sb s = Some sb" using geomD(6) [OF gs(1)] by blast
  let ?per = "ucast (S_blocks_per_group sb) :: u64" and ?g = "ucast (b div ucast (S_blocks_per_group sb)) :: u32"
  have per: "unat ?per = bpg s" by (simp add: bpg_def sb)
  then have per0: "?per \<noteq> 0" using gs(2) by (metis unat_0 less_irrefl)
  have gl: "unat b div bpg s < length (fs_Bgds s)" "unat b mod bpg s < bpg s"
    using assms(2) gs by (auto simp: block_valid_def less_mult_imp_div_less)
  have g: "unat ?g = unat b div bpg s"
    using gl(1) geomD(5) [OF gs(1)] unat_bounds(3) [of "fs_GroupCount s"]
    by (subst unat_ucast_down) (simp_all add: unat_div per)
  have l: "unat (b mod ?per div 8) = unat b mod bpg s div 8" "unat (b mod ?per mod 8) = unat b mod bpg s mod 8"
    by (simp_all add: unat_div unat_mod per)
  have gc: "\<not> fs_GroupCount s \<le> ?g" using gl g geomD(5) [OF gs(1)] by (simp add: word_le_nat_alt)
  have at: "bgd_at ?g s = (Ok (fs_Bgds s ! (unat b div bpg s)), s)" using gl by (simp add: bgd_at_def g)
  note gin = gbitmap_in [OF gs(1) insertI1 gl(1)]
  have rd: "read_block (gd_addr s (BG_block_bitmap_lo (fs_Bgds s ! (unat b div bpg s)))
      (BG_block_bitmap_hi (fs_Bgds s ! (unat b div bpg s)))) s = (Ok (blk s (gbitmap block_kind s (unat b div bpg s))), s)"
    using read_block_ok [OF _ gin(1)] gs(1) by (simp add: gbitmap_def)
  have "unat b mod bpg s < 8 * bsz s" using gl(2) gs(3) by linarith
  then have len: "\<not> unat b mod bpg s div 8 \<ge> bsz s" by auto
  show ?thesis
    using per0 gc at rd len gin(3)
    by (simp add: FreeBlock_def deref_sb_def sb Let_def l block_used_def pool_used_def pool_bit_def bit_at_def
        pool_change_def update_sb_eq gbitmap_def)
qed

interpretation block_pool: bitmap_pool AllocateBlock FreeBlock block_used block_valid blocks_inv
proof unfold_locales
  fix s n s' assume inv: "blocks_inv s" and a: "AllocateBlock s = (Ok n, s')"
  have pd: "padded block_kind (bpg s) s" using inv by (simp add: blocks_inv_def)
  obtain g j i where f: "unat n = unat g * bpg s + (j * 8 + i)" "pool_found block_kind s g j i s'"
    using AllocateBlock_cases [OF inv] a by auto
  note pf = pool_found_padded [OF pd insertI1 f(2)]
  note lay = bpg_layout [OF pf(3)]
  have "unat g < length (fs_Bgds s)" using f(2) by (simp add: pool_found_def)
  then have v: "block_valid s n"
    using pf(1) f(1) mult_le_mono1 [of "Suc (unat g)" "length (fs_Bgds s)" "bpg s"] by (simp add: block_valid_def)
  have "m = n \<longleftrightarrow> unat m = unat g * bpg s + (j * 8 + i)" for m using f(1) by (metis word_unat_eq_iff)
  then show "blocks_inv s' \<and> block_valid s' = block_valid s \<and> block_valid s n \<and> \<not> block_used s n \<and>
      (\<forall>m. block_valid s m \<longrightarrow> block_used s' m = (m = n \<or> block_used s m))"
    using pf(2,4,5) lay v f(1) by (auto simp: blocks_inv_def block_valid_def block_used_def)
next
  fix s assume "blocks_inv s"
  then show "(\<exists>n s'. AllocateBlock s = (Ok n, s')) \<or> (\<exists>e. AllocateBlock s = (Err e, s))"
    using AllocateBlock_cases by blast
next
  fix s n assume inv: "blocks_inv s" and v: "block_valid s n" and u: "block_used s n"
  have pd: "padded block_kind (bpg s) s" using inv by (simp add: blocks_inv_def)
  have gl: "unat n div bpg s < length (fs_Bgds s)"
    using v pd by (auto simp: block_valid_def padded_def less_mult_imp_div_less)
  have gs: "geom s" using pd by (simp add: padded_def)
  have "unat (ucast (n div ucast (S_blocks_per_group (the (fs_sb s)))) :: u32) = unat n div bpg s"
    using gl geomD(5) [OF gs] unat_bounds(3) [of "fs_GroupCount s"]
    by (subst unat_ucast_down) (simp_all add: unat_div bpg_def)
  from pool_clear [OF pd insertI1 v [unfolded block_valid_def] this,
      of "''FreeBlock: failed to write block bitmap''" "''FreeBlock''"] obtain s' where
    s': "FreeBlock n s = (Ok (), s')" "padded block_kind (bpg s) s'" "same_layout s' s"
      "\<forall>y < length (fs_Bgds s) * bpg s. pool_used block_kind (bpg s) s' y = (y \<noteq> unat n \<and> pool_used block_kind (bpg s) s y)"
    using FreeBlock_run [OF inv v] u by auto
  have "m \<noteq> n \<longleftrightarrow> unat m \<noteq> unat n" for m by (metis word_unat_eq_iff)
  then show "\<exists>s'. FreeBlock n s = (Ok (), s') \<and> blocks_inv s' \<and> block_valid s' = block_valid s \<and>
      (\<forall>m. block_valid s m \<longrightarrow> block_used s' m = (m \<noteq> n \<and> block_used s m))"
    using s' bpg_layout [OF s'(3)] by (auto simp: blocks_inv_def block_valid_def block_used_def)
next
  fix s n assume "blocks_inv s" "block_valid s n" "\<not> block_used s n"
  then show "\<exists>e. FreeBlock n s = (Err e, s)" using FreeBlock_run by auto
qed

definition ipg :: "FileSystem \<Rightarrow> nat" where
  "ipg s = unat (S_inodes_per_group (the (fs_sb s)))"

definition inodes_inv :: "FileSystem \<Rightarrow> bool" where
  "inodes_inv s \<longleftrightarrow> padded inode_kind (ipg s) s \<and> length (fs_Bgds s) * ipg s < 2 ^ 32"

definition inode_number :: "FileSystem \<Rightarrow> u32 \<Rightarrow> bool" where
  "inode_number s n \<longleftrightarrow> n \<noteq> 0 \<and> unat n - 1 < length (fs_Bgds s) * ipg s"

definition inode_used :: "FileSystem \<Rightarrow> u32 \<Rightarrow> bool" where
  "inode_used s n = pool_used inode_kind (ipg s) s (unat n - 1)"

lemma ipg_layout: "same_layout s' s \<Longrightarrow> ipg s' = ipg s \<and> length (fs_Bgds s') = length (fs_Bgds s)"
  by (simp add: same_layout_def same_geometry_def ipg_def)

lemma AllocateInode_cases:
  assumes "inodes_inv s"
  shows "(\<exists>n s' g j i. AllocateInode s = (Ok n, s') \<and> unat n = unat g * ipg s + (j * 8 + i) + 1 \<and>
            pool_found inode_kind s g j i s') \<or>
    (AllocateInode s = (Err (Errorf ''AllocateInode: no free inodes available''), s) \<and>
     (\<forall>g < length (fs_Bgds s). pool_full inode_kind s (word_of_nat g)))"
proof -
  have pd: "padded inode_kind (ipg s) s" "length (fs_Bgds s) * ipg s < 2 ^ 32"
    using assms by (auto simp: inodes_inv_def)
  then have gs: "geom s" by (simp add: padded_def)
  obtain sb where sb: "fs_sb s = Some sb" using geomD(6) [OF gs] by blast
  let ?gs = "map word_of_nat [0..<unat (fs_GroupCount s)] :: u32 list"
  have run: "AllocateInode s = andThen (pool_alloc inode_kind ?gs) (\<lambda>(g, j, i).
      ret (ucast (ucast g * ucast (S_inodes_per_group sb) + word_of_nat j * 8 + word_of_nat i + 1 :: u64))) s"
    by (simp add: AllocateInode_def deref_sb_def sb alloc_inode_loop_eq)
  from pool_alloc_spec [OF gs insertI2 [OF singletonI] group_list [OF gs]] show ?thesis
  proof (elim disjE exE conjE)
    fix g j i s' assume a: "pool_alloc inode_kind ?gs s = (Ok (g, j, i), s')" "pool_found inode_kind s g j i s'"
    let ?w = "ucast g * ucast (S_inodes_per_group sb) + word_of_nat j * 8 + word_of_nat i :: u64"
    have "bsz s \<le> 65536" using gs by (simp add: geom_def fs_ok_def)
    then have "j < 65536" "i < 8" using a(2) by (auto simp: pool_found_def)
    then have w: "unat ?w = unat g * ipg s + (j * 8 + i)" by (simp add: unat_index ipg_def sb)
    have "unat g < length (fs_Bgds s)" using a(2) by (simp add: pool_found_def)
    then have "unat ?w + 1 < 2 ^ 32"
      using pool_found_padded(1) [OF pd(1) insertI2 [OF singletonI] a(2)] pd(2) w
        mult_le_mono1 [of "Suc (unat g)" "length (fs_Bgds s)" "ipg s"] by simp
    then have "unat (ucast (?w + 1) :: u32) = unat g * ipg s + (j * 8 + i) + 1"
      using unat_add_u64 [of ?w 1] w by (subst unat_ucast_down) simp_all
    then show ?thesis using a by (auto simp: run)
  qed (use geomD(5) [OF gs] run in auto)
qed

lemma FreeInode_run:
  assumes "inodes_inv s" and "inode_number s n"
  defines "x \<equiv> unat n - 1"
  shows "\<exists>g. unat g = x div ipg s \<and> FreeInode n s =
    (if \<not> inode_used s n then (Err (Errorf ''FreeInode: inode is already free''), s)
     else pool_change inode_kind ''FreeInode: failed to write inode bitmap'' ''FreeInode'' g
       (bitmap_clear (blk s (gbitmap inode_kind s (x div ipg s))) (x mod ipg s div 8) (x mod ipg s mod 8)) 1 1 s)"
proof -
  have pd: "padded inode_kind (ipg s) s" using assms(1) by (simp add: inodes_inv_def)
  then have gs: "geom s" "0 < ipg s" "ipg s \<le> 8 * bsz s" by (auto simp: padded_def)
  obtain sb where sb: "fs_sb s = Some sb" using geomD(6) [OF gs(1)] by blast
  let ?per = "ucast (S_inodes_per_group sb) :: u64" and ?n = "ucast n - 1 :: u64"
  let ?g = "ucast (?n div ?per) :: u32"
  have n0: "n \<noteq> 0" using assms(2) by (simp add: inode_number_def)
  have per: "unat ?per = ipg s" by (simp add: ipg_def sb)
  then have per0: "?per \<noteq> 0" using gs(2) by (metis unat_0 less_irrefl)
  have "0 < unat n" using n0 by (simp add: unat_gt_0)
  then have ux: "unat ?n = x" by (simp add: x_def unat_sub word_le_nat_alt)
  have gl: "x div ipg s < length (fs_Bgds s)" "x mod ipg s < ipg s"
    using assms(2) gs by (auto simp: inode_number_def less_mult_imp_div_less x_def)
  have g: "unat ?g = x div ipg s"
    using gl(1) geomD(5) [OF gs(1)] unat_bounds(3) [of "fs_GroupCount s"]
    by (subst unat_ucast_down) (simp_all add: unat_div per ux)
  have l: "unat (?n mod ?per div 8) = x mod ipg s div 8" "unat (?n mod ?per mod 8) = x mod ipg s mod 8"
    by (simp_all add: unat_div unat_mod per ux)
  have gc: "\<not> fs_GroupCount s \<le> ?g" using gl g geomD(5) [OF gs(1)] by (simp add: word_le_nat_alt)
  have at: "bgd_at ?g s = (Ok (fs_Bgds s ! (x div ipg s)), s)" using gl by (simp add: bgd_at_def g)
  note gin = gbitmap_in [OF gs(1) insertI2 [OF singletonI] gl(1)]
  have rd: "read_block (gd_addr s (BG_inode_bitmap_lo (fs_Bgds s ! (x div ipg s)))
      (BG_inode_bitmap_hi (fs_Bgds s ! (x div ipg s)))) s = (Ok (blk s (gbitmap inode_kind s (x div ipg s))), s)"
    using read_block_ok [OF _ gin(1)] gs(1) by (simp add: gbitmap_def)
  have "x mod ipg s < 8 * bsz s" using gl(2) gs(3) by linarith
  then have len: "\<not> x mod ipg s div 8 \<ge> bsz s" by auto
  have iu: "inode_used s n \<longleftrightarrow> bit (blk s (gbitmap inode_kind s (x div ipg s)) ! (x mod ipg s div 8)) (x mod ipg s mod 8)"
    by (simp only: inode_used_def pool_used_def pool_bit_def bit_at_def x_def)
  have "FreeInode n s =
    (if \<not> inode_used s n then (Err (Errorf ''FreeInode: inode is already free''), s)
     else pool_change inode_kind ''FreeInode: failed to write inode bitmap'' ''FreeInode'' ?g
       (bitmap_clear (blk s (gbitmap inode_kind s (x div ipg s))) (x mod ipg s div 8) (x mod ipg s mod 8)) 1 1 s)"
    using n0 per0 gc at rd len gin(3)
    by (simp add: FreeInode_def deref_sb_def sb Let_def l iu pool_change_def update_sb_eq gbitmap_def lt_one_word)
  with g show ?thesis by blast
qed

interpretation inode_pool: bitmap_pool AllocateInode FreeInode inode_used inode_number inodes_inv
proof unfold_locales
  fix s n s' assume inv: "inodes_inv s" and a: "AllocateInode s = (Ok n, s')"
  have pd: "padded inode_kind (ipg s) s" using inv by (simp add: inodes_inv_def)
  obtain g j i where f: "unat n = unat g * ipg s + (j * 8 + i) + 1" "pool_found inode_kind s g j i s'"
    using AllocateInode_cases [OF inv] a by auto
  note pf = pool_found_padded [OF pd insertI2 [OF singletonI] f(2)]
  note lay = ipg_layout [OF pf(3)]
  have "unat g < length (fs_Bgds s)" using f(2) by (simp add: pool_found_def)
  moreover have "n \<noteq> 0" using f(1) by auto
  ultimately have v: "inode_number s n"
    using pf(1) f(1) mult_le_mono1 [of "Suc (unat g)" "length (fs_Bgds s)" "ipg s"] by (simp add: inode_number_def)
  have "m = n \<longleftrightarrow> unat m - 1 = unat g * ipg s + (j * 8 + i)" if "inode_number s m" for m
  proof -
    have "0 < unat m" using that by (simp add: inode_number_def unat_gt_0)
    then show ?thesis using f(1) by (auto simp: word_unat_eq_iff)
  qed
  then show "inodes_inv s' \<and> inode_number s' = inode_number s \<and> inode_number s n \<and> \<not> inode_used s n \<and>
      (\<forall>m. inode_number s m \<longrightarrow> inode_used s' m = (m = n \<or> inode_used s m))"
    using pf(2,4,5) lay v f(1) inv by (auto simp: inodes_inv_def inode_number_def inode_used_def)
next
  fix s assume "inodes_inv s"
  then show "(\<exists>n s'. AllocateInode s = (Ok n, s')) \<or> (\<exists>e. AllocateInode s = (Err e, s))"
    using AllocateInode_cases by blast
next
  fix s n assume inv: "inodes_inv s" and v: "inode_number s n" and u: "inode_used s n"
  have pd: "padded inode_kind (ipg s) s" using inv by (simp add: inodes_inv_def)
  have lt: "unat n - 1 < length (fs_Bgds s) * ipg s" using v by (simp add: inode_number_def)
  obtain g where g: "unat g = (unat n - 1) div ipg s" "FreeInode n s =
      pool_change inode_kind ''FreeInode: failed to write inode bitmap'' ''FreeInode'' g
       (bitmap_clear (blk s (gbitmap inode_kind s ((unat n - 1) div ipg s))) ((unat n - 1) mod ipg s div 8)
         ((unat n - 1) mod ipg s mod 8)) 1 1 s"
    using FreeInode_run [OF inv v] u by auto
  from pool_clear [OF pd insertI2 [OF singletonI] lt g(1),
      of "''FreeInode: failed to write inode bitmap''" "''FreeInode''"] obtain s' where
    s': "FreeInode n s = (Ok (), s')" "padded inode_kind (ipg s) s'" "same_layout s' s"
      "\<forall>y < length (fs_Bgds s) * ipg s. pool_used inode_kind (ipg s) s' y =
         (y \<noteq> unat n - 1 \<and> pool_used inode_kind (ipg s) s y)"
    using g(2) by auto
  have "m \<noteq> n \<longleftrightarrow> unat m - 1 \<noteq> unat n - 1" if "inode_number s m" for m
  proof -
    have "0 < unat m" "0 < unat n" using that v by (simp_all add: inode_number_def unat_gt_0)
    then show ?thesis by (auto simp: word_unat_eq_iff)
  qed
  then show "\<exists>s'. FreeInode n s = (Ok (), s') \<and> inodes_inv s' \<and> inode_number s' = inode_number s \<and>
      (\<forall>m. inode_number s m \<longrightarrow> inode_used s' m = (m \<noteq> n \<and> inode_used s m))"
    using s' ipg_layout [OF s'(3)] inv by (auto simp: inodes_inv_def inode_number_def inode_used_def)
next
  fix s n assume "inodes_inv s" "inode_number s n" "\<not> inode_used s n"
  then show "\<exists>e. FreeInode n s = (Err e, s)" using FreeInode_run [of s n] by auto
qed

end
