(* ===== verification/Alloc_Props.thy ===== *)
theory Alloc_Props
  imports Bitmap_Pool
begin

text \<open>The properties of the allocators, over the interpretations of \<open>bitmap_pool\<close>.\<close>

section \<open>Blocks\<close>

lemma found_other_pool:
  assumes "pool_found k s g j i s'" and "geom s" and "k \<in> {block_kind, inode_kind}"
    and "k' \<in> {block_kind, inode_kind}" and "k' \<noteq> k" and "h < length (fs_Bgds s)"
  shows "pool_bit k' s' h l = pool_bit k' s h l"
  using assms changed_bits [of k s "unat g"] by (auto simp: pool_found_def)


text \<open>C5: \<open>AllocateBlock\<close> finds a block whenever some group has a nonzero free count and a
  clear bit; it fails only when no group has both, and then nothing has changed.\<close>

theorem AllocateBlock_complete:
  assumes "blocks_inv s"
  shows "(\<exists>b s'. AllocateBlock s = (Ok b, s')) \<longleftrightarrow>
    (\<exists>g < length (fs_Bgds s). group_free_blocks s (fs_Bgds s ! g) \<noteq> 0 \<and>
       (\<exists>i < 8 * bsz s. \<not> pool_bit block_kind s g i))"
proof -
  have gs: "geom s" using assms by (simp add: blocks_inv_def padded_def)
  have u: "unat (word_of_nat g :: u32) = g" if "g < length (fs_Bgds s)" for g
    using that geomD(5) [OF gs] unat_bounds(3) [of "fs_GroupCount s"] by (simp add: unat_of_nat)
  from AllocateBlock_cases [OF assms] show ?thesis
  proof (elim disjE exE conjE)
    fix b s' g j i
    assume a: "AllocateBlock s = (Ok b, s')" and f: "pool_found block_kind s g j i s'"
    have "j * 8 + i < 8 * bsz s" using f by (auto simp: pool_found_def)
    with a f show ?thesis by (auto simp: pool_found_def)
  qed (use u in \<open>auto simp: pool_full_def\<close>)
qed

text \<open>Freeing the block that was just allocated succeeds and restores the set of used
  blocks; freeing a block twice is an error that changes nothing.\<close>

theorem alloc_free_block:
  assumes "blocks_inv s" and "AllocateBlock s = (Ok b, s1)"
  shows "\<exists>s2. FreeBlock b s1 = (Ok (), s2) \<and> (\<forall>m. block_valid s m \<longrightarrow> block_used s2 m = block_used s m) \<and>
    FreeBlock b s2 = (Err (Errorf ''FreeBlock: block is already free''), s2)"
proof -
  obtain s2 where s2: "FreeBlock b s1 = (Ok (), s2)" "blocks_inv s2"
      "\<forall>m. block_valid s m \<longrightarrow> block_used s2 m = block_used s m"
    using block_pool.alloc_free [OF assms] by blast
  note l = block_pool.alloc_law [OF assms]
  have "block_valid s2 b"
    using block_pool.free_law [of s1 b] l s2(1) by auto
  then show ?thesis using FreeBlock_run [OF s2(2)] s2 l by auto
qed

section \<open>Inodes\<close>

text \<open>\<open>AllocateInode\<close> returns an inode number that was marked free, marks exactly it, and
  never hands out one of the eleven reserved inodes of the first group.\<close>

theorem AllocateInode_fresh:
  assumes "inodes_inv s" and "AllocateInode s = (Ok n, s')" and "11 \<le> ipg s"
  shows "inode_number s n \<and> \<not> inode_used s n \<and> inodes_inv s' \<and> 11 < unat n \<and>
    (\<forall>m. inode_number s m \<longrightarrow> inode_used s' m = (m = n \<or> inode_used s m)) \<and>
    (\<forall>g < length (fs_Bgds s). \<forall>i. pool_bit block_kind s' g i = pool_bit block_kind s g i)"
proof -
  obtain g j i where n: "unat n = unat g * ipg s + (j * 8 + i) + 1" and f: "pool_found inode_kind s g j i s'"
    using AllocateInode_cases [OF assms(1)] assms(2) by auto
  have gs: "geom s" using assms(1) by (simp add: inodes_inv_def padded_def)
  have "pool_bit block_kind s' h l = pool_bit block_kind s h l" if "h < length (fs_Bgds s)" for h l
    using found_other_pool [OF f gs] that by auto
  moreover have "11 < unat n"
  proof (cases "g = 0")
    case True
    then show ?thesis using f n by (simp add: pool_found_def inode_start_bit_def)
  next
    case False
    then have "1 \<le> unat g" by (simp add: Suc_le_eq unat_gt_0)
    then show ?thesis using n assms(3) mult_le_mono1 [of 1 "unat g" "ipg s"] by linarith
  qed
  ultimately show ?thesis using inode_pool.alloc_law [OF assms(1,2)] by blast
qed

text \<open>Freeing the inode that was just allocated succeeds and restores the set of used
  inodes; freeing it again is an error that changes nothing.\<close>

theorem alloc_free_inode:
  assumes "inodes_inv s" and "AllocateInode s = (Ok n, s1)"
  shows "\<exists>s2. FreeInode n s1 = (Ok (), s2) \<and> (\<forall>m. inode_number s m \<longrightarrow> inode_used s2 m = inode_used s m) \<and>
    FreeInode n s2 = (Err (Errorf ''FreeInode: inode is already free''), s2)"
proof -
  obtain s2 where s2: "FreeInode n s1 = (Ok (), s2)" "inodes_inv s2"
      "\<forall>m. inode_number s m \<longrightarrow> inode_used s2 m = inode_used s m"
    using inode_pool.alloc_free [OF assms] by blast
  note l = inode_pool.alloc_law [OF assms]
  have "inode_number s2 n"
    using inode_pool.free_law [of s1 n] l s2(1) by auto
  then show ?thesis using FreeInode_run [OF s2(2), of n] s2 l by auto
qed

section \<open>At a concrete file system\<close>

lemma example_blks:
  "blk (example_fs 256) 3 = [0xFF, 0x01] @ ones 1022" "blk (example_fs 256) 4 = [0xFF, 0x07] @ ones 1022"
proof -
  have d: "disk (example_fs 256) = take 2048 (example_image 64) @ drop 2048 (example_image 64)"
    by (simp add: example_fs_def example_dev_def)
  show "blk (example_fs 256) 3 = [0xFF, 0x01] @ ones 1022" "blk (example_fs 256) 4 = [0xFF, 0x07] @ ones 1022"
    unfolding blk_def d example_image_layout(3)
    by (simp_all add: example_fs_def example_image_layout(1) bslice_def)
qed

lemma example_gbitmap:
  "gbitmap block_kind (example_fs 256) 0 = 3" "gbitmap inode_kind (example_fs 256) 0 = 4"
  by (simp_all add: gbitmap_def gd_addr_def example_gd_def gd_decode_def)

lemma example_geom: "geom (example_fs 256)"
proof -
  have m: "meta_end (example_fs 256) = 2112"
    by (simp add: meta_end_def desc_pos_def example_sb_geometry)
  have b: "bitmap_list (example_fs 256) = [3, 4]"
    using example_gbitmap by (simp add: bitmap_list_def)
  have "\<forall>g < 1. \<forall>k \<in> {block_kind, inode_kind}. block_in (example_fs 256) (gbitmap k (example_fs 256) g) \<and>
      2112 \<le> unat (gbitmap k (example_fs 256) g) * 1024"
    using example_gbitmap example_fs_dev(2) by (simp add: block_in_def)
  then show ?thesis
    using example_fs_dev [of 256]
    unfolding geom_def m b
    by (intro conjI) (simp_all add: fs_ok_def example_sb_wf example_sb_geometry)
qed

lemma example_scan:
  "scan_bitmap ([0xFF, 0x01] @ ones 1022) 0 = Some (1, 1)"
  "scan_bitmap ([0xFF, 0x07] @ ones 1022) 11 = Some (1, 3)"
proof -
  have u: "[a..<b] = a # [Suc a..<b]" if "a < b" for a b :: nat
    using that by (rule upt_conv_Cons)
  have sb: "scan_bits (1 :: u8) [0..<8] = Some (Suc 0)" by (simp add: upt_rec)
  have "scan_bytes ([0xFF, 0x01] @ ones 1022) 0 [0..<1024] = Some (1, 1)"
    using u [of 0 1024] u [of 1 1024] sb by (simp del: upt_rec_numeral)
  moreover have "scan_bytes ([0xFF, 0x07] @ ones 1022) 11 [1..<1024] = Some (1, 3)"
    using u [of 1 1024] u [of 3 8] by (simp del: upt_rec_numeral)
  ultimately show "scan_bitmap ([0xFF, 0x01] @ ones 1022) 0 = Some (1, 1)"
    "scan_bitmap ([0xFF, 0x07] @ ones 1022) 11 = Some (1, 3)"
    by (simp_all add: scan_bitmap_def del: upt_rec_numeral)
qed

lemma example_invs: "blocks_inv (example_fs 256)" "inodes_inv (example_fs 256)"
proof -
  have p: "bpg (example_fs 256) = 8192" "ipg (example_fs 256) = 16"
    by (simp_all add: bpg_def ipg_def example_sb_def)
  have "bit_at ([0xFF, 0x07] @ ones 1022) i" if "16 \<le> i" "i < 8192" for i
  proof -
    have "2 \<le> i div 8" "i div 8 < 1024" using that by auto
    then have "([0xFF, 0x07] @ ones 1022) ! (i div 8) = 0xFF" by (simp add: nth_append ones_def nth_Cons split: nat.split)
    then show ?thesis unfolding bit_at_def by (simp only:) (rule bit_FF, simp)
  qed
  then show "blocks_inv (example_fs 256)" "inodes_inv (example_fs 256)"
    using example_geom p by (auto simp: blocks_inv_def inodes_inv_def padded_def pool_bit_def example_gbitmap example_blks)
qed

lemma example_alloc_block: "\<exists>s'. AllocateBlock (example_fs 256) = (Ok 9, s')"
proof -
  have rd: "read_block 3 (example_fs 256) = (Ok ([0xFF, 0x01] @ ones 1022), example_fs 256)"
    using read_block_ok [of "example_fs 256" 3] example_geom example_blks(1) gbitmap_in(1) [OF example_geom insertI1, of 0]
    by (simp add: example_gbitmap)
  have at: "bgd_at 0 (example_fs 256) = (Ok example_gd, example_fs 256)" by (simp add: bgd_at_def)
  have addr: "gd_addr (example_fs 256) (BG_block_bitmap_lo example_gd) (BG_block_bitmap_hi example_gd) = 3"
    "group_free_blocks (example_fs 256) example_gd \<noteq> 0"
    by (simp_all add: gd_addr_def group_free_blocks_def example_gd_def gd_decode_def)
  obtain s' where ch: "pool_change block_kind (k_wr block_kind) (k_gd block_kind) 0
      (bitmap_set ([0xFF, 0x01] @ ones 1022) 1 1) (- 1) (- 1) (example_fs 256) = (Ok (), s')"
    using pool_change_ok [OF example_geom insertI1, of 0 "bitmap_set ([0xFF, 0x01] @ ones 1022) 1 1"
      "k_wr block_kind" "k_gd block_kind" "- 1" "- 1"] by auto
  have "pool_alloc block_kind [0] (example_fs 256) = (Ok (0, 1, 1), s')"
    using at rd addr ch example_scan(1) by simp
  then show ?thesis
    by (simp add: AllocateBlock_def deref_sb_def alloc_block_loop_eq)
qed

lemma example_alloc_inode: "\<exists>s'. AllocateInode (example_fs 256) = (Ok 12, s')"
proof -
  have rd: "read_block 4 (example_fs 256) = (Ok ([0xFF, 0x07] @ ones 1022), example_fs 256)"
    using read_block_ok [of "example_fs 256" 4] example_geom example_blks(2)
      gbitmap_in(1) [OF example_geom insertI2 [OF singletonI], of 0]
    by (simp add: example_gbitmap)
  have at: "bgd_at 0 (example_fs 256) = (Ok example_gd, example_fs 256)" by (simp add: bgd_at_def)
  have addr: "gd_addr (example_fs 256) (BG_inode_bitmap_lo example_gd) (BG_inode_bitmap_hi example_gd) = 4"
    "group_free_inodes (example_fs 256) example_gd \<noteq> 0"
    by (simp_all add: gd_addr_def group_free_inodes_def example_gd_def gd_decode_def)
  obtain s' where ch: "pool_change inode_kind (k_wr inode_kind) (k_gd inode_kind) 0
      (bitmap_set ([0xFF, 0x07] @ ones 1022) 1 3) (- 1) (- 1) (example_fs 256) = (Ok (), s')"
    using pool_change_ok [OF example_geom insertI2 [OF singletonI], of 0 "bitmap_set ([0xFF, 0x07] @ ones 1022) 1 3"
      "k_wr inode_kind" "k_gd inode_kind" "- 1" "- 1"] by auto
  have "pool_alloc inode_kind [0] (example_fs 256) = (Ok (0, 1, 3), s')"
    using at rd addr ch example_scan(2) by (simp add: inode_start_bit_def)
  then show ?thesis
    by (simp add: AllocateInode_def deref_sb_def alloc_inode_loop_eq)
qed

text \<open>\<open>AllocateBlock\<close> ignores \<open>S_first_data_block\<close>. On a file system with 1024-byte blocks
  bit \<open>i\<close> of the first group's bitmap stands for block \<open>i + 1\<close>, but the allocator returns the
  bare bit index: in the example it hands out block 9, whose bit (8) is set.\<close>

theorem AllocateBlock_first_data_block:
  "\<exists>sb b s'. fs_sb (example_fs 256) = Some sb \<and> S_first_data_block sb = 1 \<and>
     AllocateBlock (example_fs 256) = (Ok b, s') \<and>
     pool_bit block_kind (example_fs 256) 0 (unat b - unat (S_first_data_block sb))"
  using example_alloc_block
  by (auto simp: pool_bit_def example_gbitmap example_blks bit_at_def example_sb_def)


theorem AllocateBlock_complete_witness:
  "group_free_blocks (example_fs 256) (fs_Bgds (example_fs 256) ! 0) \<noteq> 0"
  using AllocateBlock_complete [OF example_invs(1)] example_alloc_block by auto

theorem alloc_free_block_witness:
  "\<exists>s1 s2. AllocateBlock (example_fs 256) = (Ok 9, s1) \<and> FreeBlock 9 s1 = (Ok (), s2)"
  using example_alloc_block alloc_free_block [OF example_invs(1)] by blast

theorem AllocateInode_fresh_witness:
  "\<exists>s'. AllocateInode (example_fs 256) = (Ok 12, s') \<and> \<not> inode_used (example_fs 256) 12 \<and> inodes_inv s'"
proof -
  have "11 \<le> ipg (example_fs 256)" by (simp add: ipg_def example_sb_def)
  then show ?thesis using example_alloc_inode AllocateInode_fresh [OF example_invs(2)] by blast
qed

theorem alloc_free_inode_witness:
  "\<exists>s1 s2. AllocateInode (example_fs 256) = (Ok 12, s1) \<and> FreeInode 12 s1 = (Ok (), s2)"
  using example_alloc_inode alloc_free_inode [OF example_invs(2)] by blast

end
