(* ===== verification/Extent_Props.thy ===== *)
theory Extent_Props
  imports Extent_Insert Alloc_Props
begin

text \<open>
  Properties of the extent writers: appending to a root with room, the first split of a full
  root, what later splits do to the tree, truncation and freeing.
\<close>

section \<open>Leaf nodes\<close>

text \<open>A buffer that holds a leaf node with header \<open>hdr\<close> and the extents \<open>exts\<close>.\<close>

definition leaf_node :: "bytes \<Rightarrow> ExtentHeader \<Rightarrow> Extent list \<Rightarrow> bool" where
  "leaf_node data hdr exts \<longleftrightarrow> header_decode data = hdr \<and> EH_magic hdr = EXT4_EXT_MAGIC \<and> EH_depth hdr = 0 \<and>
     unat (EH_entries hdr) = length exts \<and> 12 + 12 * length exts \<le> length data \<and>
     (\<forall>i < length exts. extent_decode (drop (12 + i * 12) data) = exts ! i)"

lemma leaf_node_tree: "leaf_node data hdr exts \<Longrightarrow> ext_tree s data h exts"
  by (rule ext_tree_ext_children.leaf) (auto simp: leaf_node_def intro!: nth_equalityI)

lemma ReadExtents_leaf:
  assumes "fs_ok s" and "UsesExtents i" and "leaf_node (I_block i) hdr exts"
  shows "ReadExtents i s = (Ok exts, s)"
  using parse_sound(1) [OF assms(1) leaf_node_tree [OF assms(3), of s 0], of max_depth] assms(2)
  by (simp add: ReadExtents_def max_depth_def)

lemma read_entries_ok:
  assumes "\<And>bs. 12 \<le> length bs \<Longrightarrow> dec (take 12 bs) = dec bs" and "\<forall>i \<in> set is. 12 + i * 12 + 12 \<le> length data"
  shows "read_entries dec data is = Ok (map (\<lambda>i. dec (drop (12 + i * 12) data)) is)"
  using assms(2)
proof (induction "is")
  case (Cons i "is")
  have "dec (bslice (12 + i * 12) (12 + i * 12 + 12) data) = dec (drop (12 + i * 12) data)"
    using Cons.prems assms(1) [of "drop (12 + i * 12) data"] by (auto simp: bslice_def)
  with Cons show ?case by (simp add: Let_def goslice_def)
qed simp

lemma leaf_node_entries:
  "leaf_node data hdr exts \<Longrightarrow> read_entries extent_decode data [0..<length exts] = Ok exts"
  using read_entries_ok [of extent_decode "[0..<length exts]" data] extent.dec_take
  by (auto simp: leaf_node_def intro!: nth_equalityI)

lemma put_entries_ok:
  assumes "\<forall>e \<in> set es. length e = 12" and "12 + (i + length es) * 12 \<le> length buf"
  shows "\<exists>buf'. put_entries i es buf = Ok buf' \<and> length buf' = length buf \<and>
    (\<forall>k < length es. take 12 (drop (12 + (i + k) * 12) buf') = es ! k) \<and>
    (\<forall>x < length buf. x < 12 + i * 12 \<or> 12 + (i + length es) * 12 \<le> x \<longrightarrow> buf' ! x = buf ! x)"
  using assms
proof (induction es arbitrary: i buf)
  case (Cons e es)
  let ?off = "12 + i * 12" and ?b = "copy_at (12 + i * 12) e buf"
  have le: "length e = 12" "?off + 12 \<le> length buf" using Cons.prems by auto
  obtain buf' where b: "put_entries (Suc i) es ?b = Ok buf'" "length buf' = length buf"
      "\<forall>k < length es. take 12 (drop (12 + (Suc i + k) * 12) buf') = es ! k"
      "\<forall>x < length buf. x < 12 + Suc i * 12 \<or> 12 + (Suc i + length es) * 12 \<le> x \<longrightarrow> buf' ! x = ?b ! x"
    using Cons.IH [of "Suc i" ?b] Cons.prems le by auto
  have "take 12 (drop ?off buf') = e"
  proof (rule nth_equalityI)
    show "length (take 12 (drop ?off buf')) = length e" using le b(2) by simp
    fix x assume "x < length (take 12 (drop ?off buf'))"
    then have "x < 12" by simp
    then show "take 12 (drop ?off buf') ! x = e ! x"
      using b(2,4) le by (simp add: nth_copy_at)
  qed
  then have "\<forall>k < length (e # es). take 12 (drop (12 + (i + k) * 12) buf') = (e # es) ! k"
    using b(3) by (auto simp: nth_Cons split: nat.splits)
  moreover have "\<forall>x < length buf. x < ?off \<or> 12 + (i + length (e # es)) * 12 \<le> x \<longrightarrow> buf' ! x = buf ! x"
    using b(4) le by (auto simp: nth_copy_at)
  ultimately show ?case using b(1,2) le by (simp add: Let_def)
qed simp

lemma header_decode_cong:
  assumes "12 \<le> length a" and "12 \<le> length b" and "\<forall>x < 12. a ! x = b ! x"
  shows "header_decode a = header_decode b"
proof -
  have "take 12 a = take 12 b" using assms by (intro nth_equalityI) auto
  then show ?thesis using header.dec_take [of a] header.dec_take [of b] assms(1,2) by simp
qed

lemma decode_of_take: "12 \<le> length bs \<Longrightarrow> take 12 bs = extent_bytes e \<Longrightarrow> extent_decode bs = e"
  using extent.dec_take [of bs] extent.dec_enc_all [of e] by simp

lemma put_leaf_entries:
  assumes "12 + (i + length es) * 12 \<le> length buf"
  shows "\<exists>buf'. put_entries i (map extent_bytes es) buf = Ok buf' \<and> length buf' = length buf \<and>
    (\<forall>k < length es. extent_decode (drop (12 + (i + k) * 12) buf') = es ! k) \<and>
    (\<forall>k < i. extent_decode (drop (12 + k * 12) buf') = extent_decode (drop (12 + k * 12) buf)) \<and>
    header_decode buf' = header_decode buf"
proof -
  obtain buf' where b: "put_entries i (map extent_bytes es) buf = Ok buf'" "length buf' = length buf"
      "\<forall>k < length es. take 12 (drop (12 + (i + k) * 12) buf') = extent_bytes (es ! k)"
      "\<forall>x < length buf. x < 12 + i * 12 \<or> 12 + (i + length es) * 12 \<le> x \<longrightarrow> buf' ! x = buf ! x"
    using put_entries_ok [of "map extent_bytes es" i buf] assms by auto
  have "extent_decode (drop (12 + (i + k) * 12) buf') = es ! k" if "k < length es" for k
    using b that assms by (intro decode_of_take) auto
  moreover have "extent_decode (drop (12 + k * 12) buf') = extent_decode (drop (12 + k * 12) buf)" if "k < i" for k
  proof -
    have "12 + k * 12 + 12 \<le> 12 + i * 12" using that by simp
    then have "take 12 (drop (12 + k * 12) buf') = take 12 (drop (12 + k * 12) buf)"
      using b(2,4) assms by (intro nth_equalityI) auto
    then show ?thesis
      using extent.dec_take [of "drop (12 + k * 12) buf'"] extent.dec_take [of "drop (12 + k * 12) buf"]
        b(2) assms that by simp
  qed
  moreover have "header_decode buf' = header_decode buf"
    using b(2,4) assms by (intro header_decode_cong) auto
  ultimately show ?thesis using b(1,2) by blast
qed

lemma header_of_copy: "12 \<le> length buf \<Longrightarrow> header_decode (copy_at 0 (header_bytes h) buf) = h"
  using header.dec_copy_at [of 0 buf h] by simp

lemma entries_of_header_copy:
  assumes "12 + k * 12 + 12 \<le> length buf"
  shows "extent_decode (drop (12 + k * 12) (copy_at 0 (header_bytes h) buf)) = extent_decode (drop (12 + k * 12) buf)"
  using assms by (simp add: copy_at_def min_def add.commute)

section \<open>Appending\<close>

definition append_ext :: "Extent list \<Rightarrow> Extent \<Rightarrow> Extent list" where
  "append_ext exts e =
     (if exts \<noteq> [] \<and> mergeable (last exts) e then butlast exts @ [merge_ext (last exts) e] else exts @ [e])"

lemma leaf_append_ok:
  assumes "leaf_node data hdr exts" and "length exts < 65535" and "12 + (length exts + 1) * 12 \<le> length data"
  shows "\<exists>data' hdr'. leaf_append data hdr e = Ok data' \<and> length data' = length data \<and>
    leaf_node data' hdr' (append_ext exts e) \<and> EH_max hdr' = EH_max hdr"
proof -
  let ?n = "length exts"
  note l = assms(1) [unfolded leaf_node_def]
  have ent0: "EH_entries hdr > 0 \<longleftrightarrow> exts \<noteq> []" using l by (metis length_greater_0_conv unat_gt_0 word_gt_0)
  show ?thesis
  proof (cases "exts \<noteq> [] \<and> mergeable (last exts) e")
    case True
    define off where "off = 12 + (?n - 1) * 12"
    have n: "0 < ?n" "?n - 1 < ?n" using True by auto
    have "EH_entries hdr \<noteq> 0" using l n by auto
    then have u: "unat (EH_entries hdr - 1) = ?n - 1" using l n by (simp add: unat_minus_one)
    have lo: "extentHeaderSize + unat (EH_entries hdr - 1) * extentEntrySize = off" by (simp add: u off_def)
    have fit: "off + 12 \<le> length data" "off = 12 + 12 * (?n - 1)" using assms(3) n by (auto simp: off_def)
    have last: "extent_decode (bslice off (off + 12) data) = last exts"
      using l n extent.dec_take [of "drop off data"] fit
      by (auto simp: bslice_def off_def last_conv_nth)
    let ?m = "merge_ext (last exts) e" and ?d = "copy_at off (extent_bytes (merge_ext (last exts) e)) data"
    have run: "leaf_append data hdr e = Ok ?d"
      unfolding leaf_append_def Let_def lo using True ent0 fit(1) last by (simp add: goslice_def)
    have ent: "extent_decode (drop (12 + i * 12) ?d) = append_ext exts e ! i" if i: "i < ?n" for i
    proof (cases "i = ?n - 1")
      case True
      then show ?thesis using \<open>exts \<noteq> [] \<and> mergeable (last exts) e\<close> extent.dec_copy_at [of off data ?m] fit
        by (simp add: append_ext_def off_def nth_append)
    next
      case False
      then have "12 + i * 12 + 12 \<le> off" using i by (simp add: off_def)
      then have "extent_decode (drop (12 + i * 12) ?d) = extent_decode (drop (12 + i * 12) data)"
        using extent.dec_copy_at_other [of off data "12 + i * 12" ?m] fit by simp
      then show ?thesis using True l i False by (simp add: append_ext_def nth_append nth_butlast)
    qed
    have "header_decode ?d = header_decode data"
      using fit assms(3) by (intro header_decode_cong) (auto simp: nth_copy_at off_def)
    then have "leaf_node ?d hdr (append_ext exts e)"
      using l ent True n fit by (auto simp: leaf_node_def append_ext_def)
    then show ?thesis using run fit by auto
  next
    case False
    define hdr' where "hdr' = hdr\<lparr>EH_entries := EH_entries hdr + 1\<rparr>"
    obtain d1 where d1: "put_entries ?n [extent_bytes e] data = Ok d1" "length d1 = length data"
        "extent_decode (drop (12 + ?n * 12) d1) = e"
        "\<forall>k < ?n. extent_decode (drop (12 + k * 12) d1) = extent_decode (drop (12 + k * 12) data)"
      using put_leaf_entries [of ?n "[e]" data] assms(3) by auto
    have app: "append_ext exts e = exts @ [e]" using False by (auto simp: append_ext_def)
    let ?d = "copy_at 0 (header_bytes hdr') d1"
    have run: "leaf_append data hdr e = Ok ?d"
    proof (cases "exts = []")
      case True
      then show ?thesis using ent0 d1(1) l by (simp add: leaf_append_def Let_def hdr'_def)
    next
      case ne: False
      then have "EH_entries hdr \<noteq> 0" using l by auto
      then have u: "unat (EH_entries hdr - 1) = ?n - 1" using l ne by (simp add: unat_minus_one)
      define off where "off = 12 + (?n - 1) * 12"
      have lo: "extentHeaderSize + unat (EH_entries hdr - 1) * extentEntrySize = off" by (simp add: u off_def)
      have fit: "off + 12 \<le> length data" using assms(3) ne by (auto simp: off_def)
      have "extent_decode (bslice off (off + 12) data) = last exts"
        using l ne extent.dec_take [of "drop off data"] fit
        by (auto simp: bslice_def off_def last_conv_nth)
      then show ?thesis
        unfolding leaf_append_def Let_def lo using ent0 ne False d1(1) fit l by (simp add: goslice_def hdr'_def)
    qed
    have "unat (EH_entries hdr') = ?n + 1"
      using l assms(2) by (simp add: hdr'_def unat_word_ariths)
    moreover have "extent_decode (drop (12 + i * 12) ?d) = (exts @ [e]) ! i" if "i < ?n + 1" for i
    proof -
      have "12 + i * 12 + 12 \<le> length d1" using that assms(3) d1(2) by simp
      then have "extent_decode (drop (12 + i * 12) ?d) = extent_decode (drop (12 + i * 12) d1)"
        by (rule entries_of_header_copy)
      then show ?thesis using d1 l that by (cases "i < ?n") (auto simp: nth_append less_Suc_eq)
    qed
    ultimately have "leaf_node ?d hdr' (append_ext exts e)"
      using l d1(2) assms(3) header_of_copy [of d1 hdr']
      by (auto simp: leaf_node_def app hdr'_def)
    then show ?thesis using run d1(2) by (auto simp: hdr'_def)
  qed
qed

text \<open>Appending an extent to an inode whose root leaf has room makes \<open>ReadExtents\<close> return the
  old extents followed by the new one, or with the last one extended when the two are
  contiguous; nothing on the disk changes, and of the inode only \<open>I_block\<close> and \<open>I_mtime\<close>.\<close>

theorem AppendExtent_leaf:
  assumes "fs_ok s" and "UsesExtents i" and "inode_wf i" and "leaf_node (I_block i) hdr exts"
    and "length exts < 4" and "EH_max hdr = 4"
  shows "\<exists>i' b. AppendExtent now e (s, i) = (Ok (), (s, i')) \<and> i' = i\<lparr>I_block := b, I_mtime := now\<rparr> \<and>
    inode_wf i' \<and> ReadExtents i' s = (Ok (append_ext exts e), s)"
proof -
  have len: "length (I_block i) = 60" using assms(3) by (simp add: inode_wf_def)
  obtain d h' where d: "leaf_append (I_block i) hdr e = Ok d" "length d = 60"
      "leaf_node d h' (append_ext exts e)"
    using leaf_append_ok [OF assms(4), of e] assms(5) len by auto
  have h: "header_decode (I_block i) = hdr" "EH_magic hdr = EXT4_EXT_MAGIC" "EH_depth hdr = 0"
      "unat (EH_entries hdr) = length exts"
    using assms(4) by (auto simp: leaf_node_def)
  have "EH_entries hdr < EH_max hdr" using h(4) assms(5,6) by (simp add: word_less_nat_alt)
  then have run: "AppendExtent now e (s, i) = (Ok (), (s, i\<lparr>I_block := d, I_mtime := now\<rparr>))"
    using assms(2) h d(1) by (simp add: AppendExtent_def appendExtentToLeaf_def Let_def)
  have "ReadExtents (i\<lparr>I_block := d, I_mtime := now\<rparr>) s = (Ok (append_ext exts e), s)"
    using parse_sound(1) [OF assms(1) leaf_node_tree [OF d(3), of s 0], of max_depth] assms(2)
    by (simp add: ReadExtents_def UsesExtents_def max_depth_def)
  with run d(2) show ?thesis by (auto simp: inode_wf_def)
qed

lemma node_buf_leaf:
  assumes "12 + length es * 12 \<le> n" and "EH_magic hdr = EXT4_EXT_MAGIC" and "EH_depth hdr = 0"
  shows "\<exists>buf. node_buf hdr (map extent_bytes es) n = Ok buf \<and> length buf = n \<and> header_decode buf = hdr \<and>
    (\<forall>k < length es. extent_decode (drop (12 + k * 12) buf) = es ! k)"
  using put_leaf_entries [of 0 es "copy_at 0 (header_bytes hdr) (zeros n)"] assms
    header_of_copy [of "zeros n" hdr] by (auto simp: node_buf_def header_buf_def)

lemma entries_per_block_le: "fs_ok s \<Longrightarrow> 12 + 6 * 12 \<le> bsz s"
  by (simp add: fs_ok_def)

text \<open>The child that the first split writes.\<close>

lemma split_child:
  fixes m :: u16
  assumes "length exts = 4" and "84 \<le> n"
  defines "h \<equiv> new_header 4 m 0"
  shows "\<exists>b1 buf. node_buf h (map extent_bytes exts) n = Ok b1 \<and>
    put_entries 4 [extent_bytes e] (copy_at 0 (header_bytes (h\<lparr>EH_entries := 5\<rparr>)) b1) = Ok buf \<and>
    length buf = n \<and> leaf_node buf (h\<lparr>EH_entries := 5\<rparr>) (exts @ [e])"
proof -
  obtain b1 where b1: "node_buf h (map extent_bytes exts) n = Ok b1" "length b1 = n"
      "\<forall>k < 4. extent_decode (drop (12 + k * 12) b1) = exts ! k"
    using node_buf_leaf [of exts n h] assms by (auto simp: new_header_def)
  define b2 where "b2 = copy_at 0 (header_bytes (h\<lparr>EH_entries := 5\<rparr>)) b1"
  have b2: "length b2 = n" "header_decode b2 = h\<lparr>EH_entries := 5\<rparr>"
    using b1(2) assms(2) header_of_copy [of b1] by (simp_all add: b2_def)
  have e2: "extent_decode (drop (12 + k * 12) b2) = exts ! k" if "k < 4" for k
    unfolding b2_def using entries_of_header_copy [of k b1] that assms(2) b1 by simp
  obtain buf where buf: "put_entries 4 [extent_bytes e] b2 = Ok buf" "length buf = n"
      "extent_decode (drop (12 + 4 * 12) buf) = e"
      "\<forall>k < 4. extent_decode (drop (12 + k * 12) buf) = extent_decode (drop (12 + k * 12) b2)"
      "header_decode buf = header_decode b2"
    using put_leaf_entries [of 4 "[e]" b2] b2 assms(2) by auto
  have "extent_decode (drop (12 + i * 12) buf) = (exts @ [e]) ! i" if "i < 5" for i
  proof (cases "i < 4")
    case True
    then show ?thesis using buf(4) e2 assms(1) by (simp add: nth_append)
  next
    case False
    then have "i = 4" using that by simp
    then show ?thesis using buf(3) assms(1) by (simp add: nth_append)
  qed
  then have "leaf_node buf (h\<lparr>EH_entries := 5\<rparr>) (exts @ [e])"
    using buf(2,5) b2 assms by (simp add: leaf_node_def new_header_def)
  with b1(1) buf(1,2) show ?thesis unfolding b2_def by blast
qed

lemma idx_leaf_block: "unat b < 2 ^ 48 \<Longrightarrow> idx_leaf (block_idx first b) = b"
proof -
  assume "unat b < 2 ^ 48"
  then have "take_bit 48 b = b" by (simp add: word_unat_eq_iff unsigned_take_bit_eq take_bit_nat_eq_self)
  then have bt: "bit b n \<Longrightarrow> n < 48" for n by (metis bit_take_bit_iff)
  show ?thesis
    by (rule bit_word_eqI) (auto simp: idx_leaf_def block_idx_def bit_simps dest: bt)
qed


section \<open>Splitting below the root\<close>

text \<open>The path that \<open>appendExtentToTree\<close> hands to the split of a full leaf ends with that leaf
  itself: the block the split takes for the parent is the leaf block it has just rewritten.\<close>

theorem descend_parent_is_leaf:
  assumes "descend d hdr data b path s = (Ok (hdr', data', b', path'), s')" and "EH_depth hdr \<noteq> 0"
  shows "path' \<noteq> [] \<and> hd path' = b'"
  using assms
proof (induction d arbitrary: hdr data b path s)
  case (Suc d)
  from Suc.prems obtain h buf c s1 where
    r: "descend d h buf c (c # path) s1 = (Ok (hdr', data', b', path'), s')"
    by (auto simp: Let_def split: if_splits elim!: andThen_OkE)
  show ?case
  proof (cases "EH_depth h = 0")
    case True
    then have "path' = c # path \<and> b' = c" using r by (cases d) auto
    then show ?thesis by simp
  qed (use Suc.IH [OF r] in blast)
qed simp

lemma idx_entries:
  assumes "12 + n * 12 \<le> length buf"
  shows "read_entries idx_decode buf [0..<n] = Ok (map (\<lambda>i. idx_decode (drop (12 + i * 12) buf)) [0..<n])"
  using assms idx.dec_take by (intro read_entries_ok) auto

text \<open>Inserting an index entry into a block that is a leaf stores it among the extents: the
  block still reads as a leaf, and the twelve bytes of the index entry are taken for an
  extent. So a split below the root corrupts the mapping of the file.\<close>

theorem index_stored_in_leaf:
  assumes "fs_ok s" and "block_in s lb" and "leaf_node (blk s lb) hdr exts"
    and "length exts < unat (EH_max hdr)" and "12 + (length exts + 1) * 12 \<le> bsz s"
  shows "\<exists>s' exts'. insertIdxIntoParent (lb # path) x (s, i) = (Ok (), (s', i)) \<and>
    ext_tree s' (blk s' lb) 0 exts' \<and> extent_decode (idx_bytes x) \<in> set exts' \<and>
    length exts' = length exts + 1"
proof -
  let ?n = "length exts" and ?buf = "blk s lb"
  have len: "length ?buf = bsz s" using assms(2) by simp
  note l = assms(3) [unfolded leaf_node_def]
  define idxs where "idxs = map (\<lambda>i. idx_decode (drop (12 + i * 12) ?buf)) [0..<?n]"
  define new where "new = insert_by EI_block x idxs"
  define h' where "h' = hdr\<lparr>EH_entries := word_of_nat (length new)\<rparr>"
  have ln: "length new = ?n + 1" "x \<in> set new"
    by (simp_all add: new_def insert_by_def Let_def idxs_def)
  have "unat (word_of_nat m :: u16) = m" if "m < 65536" for m using that by (simp add: unat_of_nat)
  from this [of "length new"] have "unat (EH_entries h') = length new"
    using ln(1) assms(4) unat_bounds(2) [of "EH_max hdr"] by (simp add: h'_def)
  then have eh: "unat (EH_entries h') = ?n + 1" "EH_magic h' = EXT4_EXT_MAGIC" "EH_depth h' = 0"
    using ln(1) l by (simp_all add: h'_def)
  have hd: "header_decode (bslice 0 12 ?buf) = hdr"
    using l header_take [of ?buf] assms(5) len by (simp add: slice_from_0)
  have rd: "read_entries idx_decode ?buf [0..<unat (EH_entries hdr)] = Ok idxs"
    using idx_entries [of ?n ?buf] l by (simp add: idxs_def)
  obtain buf' where b: "put_entries 0 (map idx_bytes new) (copy_at 0 (header_bytes h') ?buf) = Ok buf'"
      "length buf' = bsz s" "\<forall>k < ?n + 1. take 12 (drop (12 + k * 12) buf') = idx_bytes (new ! k)"
      "\<forall>y < bsz s. y < 12 \<longrightarrow> buf' ! y = copy_at 0 (header_bytes h') ?buf ! y"
    using put_entries_ok [of "map idx_bytes new" 0 "copy_at 0 (header_bytes h') ?buf"] ln(1) len assms(5) by auto
  have fit: "length new \<le> unat (EH_max hdr)" using ln(1) assms(4) by simp
  have run: "insertIdxIntoParent (lb # path) x (s, i) = (Ok (), (put_block s lb buf', i))"
    using assms(1,2,5) len hd rd b(1,2) fit
    by (simp add: goslice_def Let_def new_def [symmetric] h'_def [symmetric] del: put_entries.simps)
  have bk: "blk (put_block s lb buf') lb = buf'"
    using blk_put_block [OF assms(1,2) b(2) assms(2)] by simp
  have hb: "header_decode buf' = h'"
    using header_of_copy [of ?buf h'] b(2,4) assms(5) len
    by (subst header_decode_cong [of buf' "copy_at 0 (header_bytes h') ?buf"]) auto
  define exts' where "exts' = map (\<lambda>k. extent_decode (drop (12 + k * 12) buf')) [0..<?n + 1]"
  have "ext_tree (put_block s lb buf') buf' 0 exts'"
    using hb eh b(2) assms(5) by (intro ext_tree_ext_children.leaf) (simp_all add: exts'_def)
  moreover have "extent_decode (idx_bytes x) \<in> set exts'"
  proof -
    obtain k where k: "k < ?n + 1" "new ! k = x" using ln by (metis in_set_conv_nth)
    then have "12 + k * 12 + 12 \<le> length buf'" using assms(5) b(2) by simp
    then have "extent_decode (drop (12 + k * 12) buf') = extent_decode (idx_bytes x)"
      using extent.dec_take [of "drop (12 + k * 12) buf'"] b(3) k by auto
    then have "exts' ! k = extent_decode (idx_bytes x)" "k < length exts'"
      using k(1) by (simp_all add: exts'_def del: upt_Suc)
    then show ?thesis by (metis nth_mem)
  qed
  ultimately show ?thesis using run bk by (auto simp: exts'_def)
qed

section \<open>Truncation\<close>

lemma put_entries_fold:
  "12 + (i + length es) * 12 \<le> length buf \<Longrightarrow>
   put_entries i (map extent_bytes es) buf =
     Ok (fold (\<lambda>(i, e) d. copy_at (12 + i * 12) (extent_bytes e) d) (enumerate i es) buf)"
  by (induction es arbitrary: i buf) (auto simp: Let_def)

lemma truncate_root_fits:
  assumes "length data = 60"
  shows "truncate_root kept data =
    fold (\<lambda>(i, e) d. copy_at (12 + i * 12) (extent_bytes e) d) (enumerate 0 (take 4 kept))
      (copy_at 0 (header_bytes (new_header (word_of_nat (length kept)) 4 0)) data)"
proof -
  have "filter (\<lambda>(i, e). 12 + i * 12 + 12 \<le> 60) (enumerate 0 kept) = enumerate 0 (take 4 kept)"
  proof -
    have "enumerate 0 kept = enumerate 0 (take 4 kept) @ enumerate 4 (drop 4 kept)"
    proof (cases "length kept \<le> 4")
      case False
      then show ?thesis
        using enumerate_append_eq [of 0 "take 4 kept" "drop 4 kept"] by (simp add: min_def)
    qed simp
    moreover have "filter (\<lambda>(i, e). 12 + i * 12 + 12 \<le> 60) (enumerate 0 (take 4 kept)) = enumerate 0 (take 4 kept)"
      by (rule filter_True) (auto simp: in_set_enumerate_eq)
    moreover have "filter (\<lambda>(i, e). 12 + i * 12 + 12 \<le> 60) (enumerate 4 (drop 4 kept)) = []"
      by (auto simp: filter_empty_conv in_set_enumerate_eq)
    ultimately show ?thesis by (simp only: filter_append append_Nil2)
  qed
  then show ?thesis using assms by (simp add: truncate_root_def)
qed

text \<open>The root that truncation writes reads back as exactly the kept extents when there are
  at most four of them; with more, the header announces entries that do not fit and the
  inode's extents cannot be read any more.\<close>

theorem truncate_root_read:
  assumes "length data = 60" and "length kept < 65536"
  shows "parseExtentNode (Suc d) (truncate_root kept data) s =
    (if length kept \<le> 4 then Ok kept else Err (Errorf ''extent entry extends beyond leaf node data''), s)"
proof -
  define h where "h = new_header (word_of_nat (length kept)) 4 0"
  define k4 where "k4 = take 4 kept"
  have lk: "length k4 \<le> 4" by (simp add: k4_def)
  obtain buf where b: "truncate_root kept data = buf" "length buf = 60"
      "\<forall>k < length k4. extent_decode (drop (12 + k * 12) buf) = k4 ! k" "header_decode buf = h"
    using put_leaf_entries [of 0 k4 "copy_at 0 (header_bytes h) data"] lk assms(1)
      put_entries_fold [of 0 k4 "copy_at 0 (header_bytes h) data"] truncate_root_fits [OF assms(1), of kept]
      header_of_copy [of data h]
    by (auto simp: h_def k4_def)
  have u: "unat (EH_entries h) = length kept" "EH_magic h = EXT4_EXT_MAGIC" "EH_depth h = 0"
    using assms(2) by (simp_all add: h_def new_header_def unat_of_nat)
  have run: "parseExtentNode (Suc d) buf s = (leaf_loop (drop 12 buf) [0..<length kept], s)"
    using b(2,4) u by (simp add: binary_Read_def header_take parseLeafEntries_def)
  show ?thesis
  proof (cases "length kept \<le> 4")
    case True
    then have "k4 = kept" by (simp add: k4_def)
    moreover have "leaf_loop (drop 12 buf) [0..<length kept] =
        Ok (map (\<lambda>i. extent_decode (drop (i * 12) (drop 12 buf))) [0..<length kept])"
      using True b(2) by (intro leaf_loop_ok) auto
    moreover have "map (\<lambda>i. extent_decode (drop (i * 12) (drop 12 buf))) [0..<length kept] = kept"
      using b(3) calculation(1) by (intro nth_equalityI) (auto simp: add.commute)
    ultimately show ?thesis using True run b(1) by simp
  next
    case False
    have "leaf_loop data' (is @ j # js) = Err (Errorf ''extent entry extends beyond leaf node data'')"
      if "\<forall>i \<in> set is. i * 12 + 12 \<le> length data'" "j * 12 + 12 > length data'" for "is" j js data'
      using that by (induction "is") (auto simp: Let_def goslice_def binary_Read_def)
    from this [of "[0..<4]" "drop 12 buf" 4 "[5..<length kept]"]
    have "leaf_loop (drop 12 buf) ([0..<4] @ 4 # [5..<length kept]) =
        Err (Errorf ''extent entry extends beyond leaf node data'')" using b(2) by auto
    moreover have "[0..<length kept] = [0..<4] @ 4 # [5..<length kept]"
      using False upt_add_eq_append [of 0 4 "length kept - 4"] upt_conv_Cons [of 4 "length kept"] by simp
    ultimately show ?thesis using False run b(1) by simp
  qed
qed

section \<open>Freeing\<close>

text \<open>The blocks of the initialised extents of a list, in order.\<close>

definition ext_blocks :: "Extent list \<Rightarrow> u64 list" where
  "ext_blocks exts = concat (map (\<lambda>e. block_run (ext_start e) (unat (ext_count e))) (filter (\<lambda>e. \<not> ext_uninit e) exts))"

lemma free_blocks_frees:
  "block_pool.frees ns s = (Ok (), s') \<Longrightarrow> free_blocks m ns s = (Ok (), s')"
  by (induction ns arbitrary: s) (auto elim!: andThen_OkE)

lemma free_blocks_append:
  "free_blocks m (a @ b) = andThen (free_blocks m a) (\<lambda>_. free_blocks m b)"
  by (induction a) (auto simp: andThen_assoc andThen_ret simp del: ret_def)

lemma free_extents_blocks: "free_extents_loop m exts = free_blocks m (ext_blocks exts)"
proof (induction exts)
  case Nil
  show ?case by (simp add: ext_blocks_def)
next
  case (Cons e exts)
  then show ?case
    by (cases "ext_uninit e") (simp_all add: ext_blocks_def free_blocks_append)
qed


lemma ext_start_add: "ext_start e = push_bit 32 (ucast (EE_start_hi e)) + ucast (EE_start_lo e)"
  unfolding ext_start_def
  by (rule disjunctive_add_eq_or [symmetric], rule bit_word_eqI) (auto simp: bit_simps dest: bit_imp_le_length)

lemma small_len:
  fixes c :: u64
  assumes "c \<le> 0x7FFF"
  shows "(ucast c :: u16) AND 0x8000 = 0" "(ucast ((ucast c :: u16) AND 0x7FFF) :: u64) = c"
proof -
  have u: "unat c < 2 ^ 15" using assms by (simp add: word_le_nat_alt)
  then have "take_bit 15 c = c" by (simp add: word_unat_eq_iff unsigned_take_bit_eq take_bit_nat_eq_self)
  then have b: "bit c n \<Longrightarrow> n < 15" for n by (metis bit_take_bit_iff)
  have m: "(0x7FFF :: u16) = mask 15" "(0x8000 :: u16) = 2 ^ 15" by (simp_all add: mask_eq_exp_minus_1)
  show "(ucast c :: u16) AND 0x8000 = 0"
    unfolding m and_exp_eq_0_iff_not_bit by (auto simp: bit_simps dest: b)
  show "(ucast ((ucast c :: u16) AND 0x7FFF) :: u64) = c"
    unfolding m by (rule bit_word_eqI) (auto simp: bit_simps dest: b)
qed

lemma merge_fields:
  assumes "mergeable a b"
  shows "\<not> ext_uninit (merge_ext a b)" "ext_count (merge_ext a b) = ext_count a + ext_count b"
    "EE_block (merge_ext a b) = EE_block a" "ext_start (merge_ext a b) = ext_start a"
proof -
  have z: "EE_len a AND 0x8000 = 0" and le: "ext_count a + ext_count b \<le> 0x7FFF"
    using assms by (auto simp: mergeable_def ext_uninit_def)
  have l: "EE_len (merge_ext a b) = ucast (ext_count a + ext_count b)" using z by (simp add: merge_ext_def)
  show "\<not> ext_uninit (merge_ext a b)" unfolding ext_uninit_def l using small_len(1) [OF le] by simp
  show "ext_count (merge_ext a b) = ext_count a + ext_count b"
    unfolding ext_count_def [of "merge_ext a b"] l by (rule small_len(2) [OF le])
qed (simp_all add: merge_ext_def ext_start_def)

text \<open>Merging a contiguous extent into the last one keeps the mapping of logical to physical
  blocks: the merged extent maps each block exactly as the two did.\<close>

theorem merge_keeps_mapping:
  assumes "mergeable a b" and "unat (EE_block a) + unat (ext_count a) + unat (ext_count b) < 2 ^ 32"
    and "0 < unat (ext_count b)"
  shows "findPhysicalBlock [merge_ext a b] l = findPhysicalBlock [a, b] l"
proof -
  let ?n = "unat (ext_count a)" and ?m = "unat (ext_count b)"
  note f = merge_fields [OF assms(1)]
  have ni: "\<not> ext_uninit a" "\<not> ext_uninit b" using assms(1) by (auto simp: mergeable_def)
  have c: "?n < 2 ^ 15" "?m < 2 ^ 15" by (rule ext_count_less)+
  have "unat (ucast (EE_block a) + ext_count a) = unat (EE_block a) + ?n"
    using unat_add_u64 [of "ucast (EE_block a)" "ext_count a"] assms(2) by simp
  moreover have "unat (ucast (EE_block a) + ext_count a) = unat (ucast (EE_block b) :: u64)"
    using assms(1) by (simp only: mergeable_def)
  ultimately have B: "unat (EE_block b) = unat (EE_block a) + ?n" by simp
  have st: "ext_start b = ext_start a + ext_count a"
    using assms(1) by (simp add: ext_start_add mergeable_def add.assoc)
  have sum: "unat (ext_count a + ext_count b) = ?n + ?m" using c by (subst unat_add_u64) simp_all
  have u: "unat (EE_block x + ucast w) = unat (EE_block x) + unat w"
    if "unat (EE_block x) + unat w < 2 ^ 32" for x and w :: u64
    using that unat_ucast_down [of w, where ?'b = 32] by (simp add: unat_word_ariths)
  have ra: "l \<ge> EE_block a \<and> l < EE_block a + ucast (ext_count a) \<longleftrightarrow>
      unat (EE_block a) \<le> unat l \<and> unat l < unat (EE_block a) + ?n"
    using u [of a "ext_count a"] assms(2) by (simp add: word_le_nat_alt word_less_nat_alt)
  have rb: "l \<ge> EE_block b \<and> l < EE_block b + ucast (ext_count b) \<longleftrightarrow>
      unat (EE_block a) + ?n \<le> unat l \<and> unat l < unat (EE_block a) + ?n + ?m"
    using u [of b "ext_count b"] assms(2) by (simp add: word_le_nat_alt word_less_nat_alt B)
  have rm: "l \<ge> EE_block a \<and> l < EE_block a + ucast (ext_count a + ext_count b) \<longleftrightarrow>
      unat (EE_block a) \<le> unat l \<and> unat l < unat (EE_block a) + ?n + ?m"
    using u [of a "ext_count a + ext_count b"] assms(2) sum by (simp add: word_le_nat_alt word_less_nat_alt add.assoc)
  have "ext_start a + ucast (l - EE_block a) = ext_start b + ucast (l - EE_block b)"
    if "unat (EE_block a) + ?n \<le> unat l"
  proof -
    have "unat (l - EE_block a) = unat l - unat (EE_block a)" "unat (l - EE_block b) = unat l - unat (EE_block b)"
      using that B by (simp_all add: unat_sub word_le_nat_alt)
    then have "unat (ucast (l - EE_block a) :: u64) = ?n + unat (l - EE_block b)" using that B by simp
    moreover have "unat (ext_count a + ucast (l - EE_block b)) = ?n + unat (l - EE_block b)"
      using c unat_bounds(3) [of "l - EE_block b"] by (subst unat_add_u64) simp_all
    ultimately have "(ucast (l - EE_block a) :: u64) = ext_count a + ucast (l - EE_block b)"
      by (simp add: word_unat_eq_iff)
    then show ?thesis by (simp add: st add.assoc)
  qed
  then show ?thesis
    unfolding findPhysicalBlock.simps f if_not_P [OF f(1)]
    using ni ra rb rm by auto
qed

section \<open>Witnesses\<close>

definition ext_at :: "u32 \<Rightarrow> u16 \<Rightarrow> u32 \<Rightarrow> Extent" where
  "ext_at lb n start = \<lparr>EE_block = lb, EE_len = n, EE_start_hi = 0, EE_start_lo = start\<rparr>"

definition four_exts :: "Extent list" where
  "four_exts = [ext_at 0 1 9, ext_at 2 1 11, ext_at 4 1 13, ext_at 6 1 15]"

definition full_file :: Inode where
  "full_file = example_inode\<lparr>I_flags := EXT4_EXTENTS_FL,
     I_block := header_bytes (leaf_header 4) @ concat (map extent_bytes four_exts)\<rparr>"

lemma leaf_node_bytes:
  assumes "unat n = length exts"
  shows "leaf_node (header_bytes (leaf_header n) @ concat (map extent_bytes exts) @ r) (leaf_header n) exts"
proof -
  have "extent_decode (drop (i * 12) (concat (map extent_bytes exts) @ r)) = exts ! i" if "i < length exts" for i
    using that by (intro extent.dec_table_nth) simp_all
  moreover have "length (concat (map extent_bytes exts)) = length exts * 12"
    using extent.length_table [of exts] by simp
  moreover have "header_decode (header_bytes (leaf_header n) @ concat (map extent_bytes exts) @ r) = leaf_header n"
    using header.dec_enc by simp
  ultimately show ?thesis using assms by (simp add: leaf_node_def) (simp add: leaf_header_def)
qed

lemma example_file_leaf: "leaf_node (I_block example_file) (leaf_header 1) [example_extent]"
  using leaf_node_bytes [of 1 "[example_extent]" "zeros 36"] by (simp add: example_file_def)

lemma full_file_leaf: "leaf_node (I_block full_file) (leaf_header 4) four_exts"
  using leaf_node_bytes [of 4 four_exts "[]"] by (simp add: full_file_def four_exts_def)

lemma example_files: "inode_wf example_file" "inode_wf full_file" "UsesExtents example_file" "UsesExtents full_file"
  by (simp_all add: inode_wf_def example_file_def full_file_def four_exts_def UsesExtents_def EXT4_EXTENTS_FL_def)

theorem AppendExtent_leaf_witness:
  "\<exists>i'. AppendExtent 7 (ext_at 2 1 11) (example_fs 256, example_file) = (Ok (), (example_fs 256, i')) \<and>
     ReadExtents i' (example_fs 256) = (Ok [ext_at 0 3 9], example_fs 256)"
proof -
  have m: "append_ext [example_extent] (ext_at 2 1 11) = [ext_at 0 3 9]"
    by (simp add: append_ext_def mergeable_def merge_ext_def example_extent_def ext_at_def ext_count_def ext_uninit_def)
  show ?thesis
    using AppendExtent_leaf [OF example_fs_ok example_files(3,1) example_file_leaf, where now = 7 and e = "ext_at 2 1 11"]
    by (auto simp: m leaf_header_def)
qed


definition leaf_block :: bytes where
  "leaf_block = header_bytes (leaf_header 1) @ extent_bytes example_extent @ zeros 1000"

lemma example_put:
  assumes "length p = 1024"
  shows "fs_ok (put_block (example_fs 256) 9 p)" "block_in (put_block (example_fs 256) 9 p) 9"
    "blk (put_block (example_fs 256) 9 p) 9 = p"
proof -
  have b: "block_in (example_fs 256) 9" "length p = bsz (example_fs 256)"
    using example_fs_dev(2) [of 256] assms by (simp_all add: block_in_def)
  show "fs_ok (put_block (example_fs 256) 9 p)" "block_in (put_block (example_fs 256) 9 p) 9"
    "blk (put_block (example_fs 256) 9 p) 9 = p"
    using put_block_ok [OF example_fs_ok b] blk_put_block [OF example_fs_ok b b(1)] b by simp_all
qed

lemma leaf_block_len: "length leaf_block = 1024"
  by (simp add: leaf_block_def)

theorem descend_parent_is_leaf_witness:
  "\<exists>h d p. descend 2 ((leaf_header 1)\<lparr>EH_depth := 1\<rparr>) cyclic_block 0 [] (put_block (example_fs 256) 9 leaf_block) =
     (Ok (h, d, 9, p), put_block (example_fs 256) 9 leaf_block) \<and> hd p = 9"
proof -
  let ?s = "put_block (example_fs 256) 9 leaf_block"
  let ?h = "(leaf_header 1)\<lparr>EH_depth := 1\<rparr>"
  have i: "goslice 12 24 cyclic_block = Ok (idx_bytes cyclic_idx)"
    by (simp add: goslice_def bslice_def cyclic_block_def)
  have h: "goslice 0 12 leaf_block = Ok (header_bytes (leaf_header 1))"
    by (simp add: goslice_def bslice_def leaf_block_def)
  have rb: "read_block 9 ?s = (Ok leaf_block, ?s)"
    using read_block_ok example_put [OF leaf_block_len] by simp
  have leaf: "idx_leaf (idx_decode (idx_bytes cyclic_idx)) = 9"
    using idx.dec_enc_all [of cyclic_idx] by (simp add: cyclic_idx_def idx_leaf_def)
  have d1: "descend (Suc 0) (leaf_header 1) leaf_block 9 [9] ?s = (Ok (leaf_header 1, leaf_block, 9, [9]), ?s)"
    by (simp add: leaf_header_def)
  have "descend (Suc (Suc 0)) ?h cyclic_block 0 [] ?s = descend (Suc 0) (leaf_header 1) leaf_block 9 [9] ?s"
    using header.dec_enc_all [of "leaf_header 1"]
    by (subst descend.simps(2)) (simp add: leaf_header_def Let_def i h rb leaf del: descend.simps)
  then have "descend 2 ?h cyclic_block 0 [] ?s = (Ok (leaf_header 1, leaf_block, 9, [9]), ?s)"
    by (simp only: d1 numeral_2_eq_2)
  with descend_parent_is_leaf [OF this] show ?thesis by (simp add: leaf_header_def del: descend.simps)
qed

theorem index_stored_in_leaf_witness:
  "\<exists>s' exts'. insertIdxIntoParent [9] cyclic_idx (put_block (example_fs 256) 9 leaf_block, example_file) =
      (Ok (), (s', example_file)) \<and> ext_tree s' (blk s' 9) 0 exts' \<and> extent_decode (idx_bytes cyclic_idx) \<in> set exts'"
proof -
  have l: "leaf_node (blk (put_block (example_fs 256) 9 leaf_block) 9) (leaf_header 1) [example_extent]"
    using leaf_node_bytes [of 1 "[example_extent]" "zeros 1000"] example_put(3) [OF leaf_block_len]
    by (simp add: leaf_block_def)
  show ?thesis
    using index_stored_in_leaf [OF example_put(1,2) [OF leaf_block_len] l, of "[]" cyclic_idx example_file]
    by (auto simp: leaf_header_def)
qed

theorem truncate_root_read_witness:
  "parseExtentNode 1 (truncate_root [example_extent] (zeros 60)) (example_fs 256) = (Ok [example_extent], example_fs 256) \<and>
   fst (parseExtentNode 1 (truncate_root (four_exts @ [example_extent]) (zeros 60)) (example_fs 256)) =
     Err (Errorf ''extent entry extends beyond leaf node data'')"
  using truncate_root_read [of "zeros 60" "[example_extent]" 0 "example_fs 256"]
    truncate_root_read [of "zeros 60" "four_exts @ [example_extent]" 0 "example_fs 256"]
  by (simp add: four_exts_def del: parseExtentNode.simps)


theorem merge_keeps_mapping_witness:
  "findPhysicalBlock [merge_ext (ext_at 0 2 9) (ext_at 2 1 11)] 2 = Some 11"
  using merge_keeps_mapping [of "ext_at 0 2 9" "ext_at 2 1 11" 2]
  by (simp add: mergeable_def ext_at_def ext_count_def ext_uninit_def ext_start_def)

end
