(* ===== verification/File_IO.thy ===== *)
theory File_IO
  imports Extent_Props
begin

text \<open>
  File contents: \<open>ReadFile\<close> and \<open>ReadFileAt\<close> (\<open>vfs/reader.go\<close>), \<open>WriteFileAt\<close>
  (\<open>vfs/writer.go\<close>) and \<open>ReadSymlink\<close> (\<open>vfs/symlinks.go\<close>). A Go string is its bytes. The buffer
  that \<open>ReadFileAt\<close> fills is an argument and, beside the count, a result; what a failed call
  has written into it is not part of the result.

  The abstraction is \<open>file_bytes\<close>, the concatenation of the blocks of a file. The readers return
  slices of it and the writer changes it by \<open>copy_at\<close>.
\<close>

section \<open>Reading\<close>

text \<open>The loop over the blocks of one extent that \<open>ReadFile\<close> and \<open>ReadSymlink\<close> share; \<open>m\<close> is
  the text their errors are wrapped with.\<close>

fun copy_blocks :: "string \<Rightarrow> u64 \<Rightarrow> u64 list \<Rightarrow> bytes \<times> u64 \<Rightarrow> (bytes \<times> u64) fsop" where
  "copy_blocks m sz [] st = ret st"
| "copy_blocks m sz (physBlock # bs) (out, written) =
     (if written \<ge> sz then ret (out, written)
      else
        andThen (wrapErr m (read_block physBlock)) (\<lambda>blockBuf.
        andThen (getS fs_BlockSize) (\<lambda>blockSize.
          let remaining = sz - written;
              toCopy = (if blockSize > remaining then remaining else blockSize)
          in copy_blocks m sz bs
               (copy_at (unat written) (take (unat toCopy) blockBuf) out, written + toCopy))))"

fun read_file_loop :: "u64 \<Rightarrow> Extent list \<Rightarrow> bytes \<times> u64 \<Rightarrow> bytes fsop" where
  "read_file_loop fileSize [] (out, written) = ret out"
| "read_file_loop fileSize (ext # exts) (out, written) =
     (if written \<ge> fileSize then ret out
      else if ext_uninit ext
      then andThen (getS fs_BlockSize) (\<lambda>blockSize.
             let zeroes = ext_count ext * blockSize;
                 zeroes = (if written + zeroes > fileSize then fileSize - written else zeroes)
             in read_file_loop fileSize exts (out, written + zeroes))
      else andThen (copy_blocks ''ReadFile: failed to read block'' fileSize
                      (block_run (ext_start ext) (unat (ext_count ext))) (out, written))
             (read_file_loop fileSize exts))"

definition ReadFile :: "Inode \<Rightarrow> bytes fsop" where
  "ReadFile inode =
     (if \<not> IsRegular inode then failw (Errorf ''ReadFile: only regular files (S_IFREG) are supported'')
      else if \<not> UsesExtents inode
      then failw (Errorf ''ReadFile: inode uses legacy indirect block addressing'')
      else
        andThen (wrapErr ''ReadFile: failed to walk extent tree'' (ReadExtents inode)) (\<lambda>extents.
          let fileSize = inode_Size inode
          in if fileSize = 0 then ret []
             else read_file_loop fileSize extents (zeros (unat fileSize), 0)))"

text \<open>The inner loop of \<open>ReadFileAt\<close>, over the indices of the blocks of one extent.\<close>

fun read_at_blocks :: "u64 \<Rightarrow> u64 \<Rightarrow> u64 \<Rightarrow> u64 \<Rightarrow> nat list \<Rightarrow> bytes \<Rightarrow> bytes fsop" where
  "read_at_blocks start fin logicalPos physStart [] buf = ret buf"
| "read_at_blocks start fin logicalPos physStart (i # is) buf =
     andThen (getS fs_BlockSize) (\<lambda>blockSize.
       let blockStart = logicalPos + word_of_nat i * blockSize;
           blockEnd = blockStart + blockSize
       in if blockEnd \<le> start then read_at_blocks start fin logicalPos physStart is buf
          else if blockStart \<ge> fin then ret buf
          else
            andThen (wrapErr ''ReadFileAt: block'' (read_block (physStart + word_of_nat i))) (\<lambda>blockBuf.
              let srcStart = (if start > blockStart then start - blockStart else 0);
                  srcEnd = (if fin < blockEnd then fin - blockStart else blockSize);
                  dstStart = unat (blockStart + srcStart - start)
              in if dstStart > length buf then panic
                 else andThen (liftR (goslice (unat srcStart) (unat srcEnd) blockBuf)) (\<lambda>src.
                   read_at_blocks start fin logicalPos physStart is (copy_at dstStart src buf))))"

fun read_at_loop :: "u64 \<Rightarrow> u64 \<Rightarrow> u64 \<Rightarrow> Extent list \<Rightarrow> bytes \<Rightarrow> bytes fsop" where
  "read_at_loop start fin logicalPos [] buf = ret buf"
| "read_at_loop start fin logicalPos (ext # exts) buf =
     andThen (getS fs_BlockSize) (\<lambda>blockSize.
       let extentEnd = logicalPos + ext_count ext * blockSize
       in if extentEnd \<le> start then read_at_loop start fin extentEnd exts buf
          else if logicalPos \<ge> fin then ret buf
          else if ext_uninit ext then read_at_loop start fin extentEnd exts buf
          else andThen (read_at_blocks start fin logicalPos (ext_start ext) [0..<unat (ext_count ext)] buf)
                 (read_at_loop start fin extentEnd exts))"

definition ReadFileAt :: "Extent list \<Rightarrow> u64 \<Rightarrow> bytes \<Rightarrow> int \<Rightarrow> (nat \<times> bytes) fsop" where
  "ReadFileAt extents fileSize buf ofst =
     (if ofst < 0 \<or> u64i ofst \<ge> fileSize then ret (0, buf)
      else
        let start = u64i ofst;
            fin0 = start + word_of_nat (length buf);
            fin = (if fin0 > fileSize then fileSize else fin0);
            totalToRead = unat (fin - start)
        in andThen (read_at_loop start fin 0 extents (zeros totalToRead @ drop totalToRead buf)) (\<lambda>buf'.
             ret (totalToRead, buf')))"

fun symlink_loop :: "u64 \<Rightarrow> Extent list \<Rightarrow> bytes \<times> u64 \<Rightarrow> bytes fsop" where
  "symlink_loop sz [] (buf, written) = ret buf"
| "symlink_loop sz (ext # exts) (buf, written) =
     (if written \<ge> sz then ret buf
      else if ext_uninit ext
      then andThen (getS fs_BlockSize) (\<lambda>blockSize.
             symlink_loop sz exts (buf, written + ext_count ext * blockSize))
      else andThen (copy_blocks ''ReadSymlink: failed to read block'' sz
                      (block_run (ext_start ext) (unat (EE_len ext))) (buf, written))
             (symlink_loop sz exts))"

definition ReadSymlink :: "Inode \<Rightarrow> bytes fsop" where
  "ReadSymlink inode =
     (if \<not> IsSymlink inode then failw (Errorf ''ReadSymlink: expected S_IFLNK (0xA000)'')
      else
        let sz = inode_Size inode
        in if sz = 0 then ret []
           else if \<not> UsesExtents inode \<and> sz \<le> 60 then ret (take (unat sz) (I_block inode))
           else
             andThen (wrapErr ''ReadSymlink: failed to walk extent tree'' (ReadExtents inode)) (\<lambda>extents.
               symlink_loop sz extents (zeros (unat sz), 0)))"

section \<open>Writing\<close>

definition block_ext :: "u64 \<Rightarrow> u64 \<Rightarrow> Extent" where
  "block_ext logicalBlock b = \<lparr>EE_block = ucast logicalBlock, EE_len = 1,
     EE_start_hi = ucast (drop_bit 32 b), EE_start_lo = ucast b\<rparr>"

text \<open>The physical block of one iteration: the mapped one, or a new one appended to the tree.\<close>

definition block_for_write :: "u32 \<Rightarrow> Extent list \<Rightarrow> u64 \<Rightarrow> u64 iop" where
  "block_for_write now extents logicalBlock =
     (case findPhysicalBlock extents (ucast logicalBlock) of
        Some physBlock \<Rightarrow> ret physBlock
      | None \<Rightarrow>
          andThen (wrapErr ''WriteFileAt'' (onFs AllocateBlock)) (\<lambda>newPhysBlock.
          andThen (wrapErr ''WriteFileAt'' (AppendExtent now (block_ext logicalBlock newPhysBlock))) (\<lambda>_.
            ret newPhysBlock)))"

fun write_loop :: "u32 \<Rightarrow> Extent list \<Rightarrow> bytes \<Rightarrow> u64 \<Rightarrow> u64 \<Rightarrow> u64 \<Rightarrow> u64 list \<Rightarrow> unit iop" where
  "write_loop now extents buf start fin blockSize [] = ret ()"
| "write_loop now extents buf start fin blockSize (logicalBlock # ls) =
     (let blockStart = logicalBlock * blockSize;
          blockEnd = blockStart + blockSize;
          readStart = (if start > blockStart then start - blockStart else 0);
          readEnd = (if fin < blockEnd then fin - blockStart else blockSize);
          srcStart = blockStart - start;
          srcEnd = srcStart + (readEnd - readStart)
      in andThen (block_for_write now extents logicalBlock) (\<lambda>physBlock.
         andThen (wrapErr ''WriteFileAt: failed to read block'' (onFs (read_block physBlock))) (\<lambda>blockData.
         if \<not> (unat readStart \<le> unat readEnd \<and> unat readEnd \<le> length blockData) then panic
         else
           andThen (liftR (goslice (unat srcStart) (unat srcEnd) buf)) (\<lambda>src.
           andThen (wrapErr ''WriteFileAt: failed to write block''
                     (onFs (write_block (copy_at (unat readStart) src blockData) physBlock))) (\<lambda>_.
             write_loop now extents buf start fin blockSize ls)))))"

definition WriteFileAt :: "u32 \<Rightarrow> bytes \<Rightarrow> int \<Rightarrow> nat iop" where
  "WriteFileAt now buf ofst =
     andThen (getS snd) (\<lambda>inode.
       if \<not> IsRegular inode then failw (Errorf ''WriteFileAt: not a regular file'')
       else if \<not> UsesExtents inode then failw (Errorf ''WriteFileAt: extents required'')
       else if buf = [] then ret 0
       else if ofst < 0 then failw (Errorf ''WriteFileAt: negative offset'')
       else
         let fileSize = inode_Size inode;
             start = u64i ofst;
             fin = start + word_of_nat (length buf)
         in andThen (wrapErr ''WriteFileAt: failed to read extents'' (onFs (ReadExtents inode))) (\<lambda>extents.
            andThen (getS (\<lambda>s. fs_BlockSize (fst s))) (\<lambda>blockSize.
              if blockSize = 0 then panic
              else
                let firstBlock = start div blockSize;
                    lastBlock = (fin - 1) div blockSize
                in andThen (write_loop now extents buf start fin blockSize
                              (map word_of_nat [unat firstBlock..<Suc (unat lastBlock)])) (\<lambda>_.
                   andThen (if fin > fileSize then modI (set_size_blocks fin blockSize) else ret ()) (\<lambda>_.
                   andThen (modI (\<lambda>i. i\<lparr>I_mtime := now, I_ctime := now\<rparr>)) (\<lambda>_.
                     ret (length buf)))))))"

end
