(* ===== verification/Directory.thy ===== *)
theory Directory
  imports File_IO
begin

text \<open>
  Directories: \<open>ReadDir\<close>, \<open>ReadDirCached\<close> and \<open>Lookup\<close> (\<open>vfs/directory.go\<close>), \<open>AddDirEntry\<close> and
  \<open>RemoveDirEntry\<close> (\<open>vfs/dirent.go\<close>), and the path walk of \<open>vfs/core.go\<close>. The cache of
  directory contents is a map from the 60 bytes of \<open>I_block\<close> to entries. The two nested loops over
  extents and their blocks are one loop over the concatenated block numbers; names are
  byte strings. The position inside a block is a number, and the offset stays below the length of
  the block plus a 16-bit record length, so no arithmetic on it can overflow.
\<close>

definition dirEntryHeaderSize :: nat where
  "dirEntryHeaderSize = 8"

lemmas [simp] = dirEntryHeaderSize_def

section \<open>Parsing a block\<close>

text \<open>Every loop over the records of a block moves on by a record length that is not 0.\<close>

lemma record_progress:
  "\<not> n < offset + 8 \<Longrightarrow> (r :: u16) \<noteq> 0 \<Longrightarrow> n - (offset + unat r) < n - offset"
proof -
  assume "r \<noteq> 0"
  then have "0 < unat r" by (simp add: unat_gt_0)
  then show "\<not> n < offset + 8 \<Longrightarrow> n - (offset + unat r) < n - offset" by simp
qed

definition entry_at :: "bytes \<Rightarrow> nat \<Rightarrow> DirEntry2" where
  "entry_at buf offset =
     \<lparr>de_Inode = get32 offset buf, de_RecLen = get16 (offset + 4) buf, de_NameLen = buf ! (offset + 6),
      de_FileType = buf ! (offset + 7),
      de_Name = bslice (offset + dirEntryHeaderSize) (offset + dirEntryHeaderSize + unat (buf ! (offset + 6))) buf\<rparr>"

text \<open>The body of both parsing loops: the entries found at an offset (none for an unused record),
  or the error for a record of length 0 or a name that leaves the block.\<close>

definition parse_entry :: "string \<Rightarrow> string \<Rightarrow> bytes \<Rightarrow> nat \<Rightarrow> DirEntry2 list res" where
  "parse_entry m0 m1 buf offset =
     (let e = entry_at buf offset
      in if de_RecLen e = 0 then Err (Errorf m0)
         else if de_Inode e \<noteq> 0 \<and> de_NameLen e > 0
         then (if offset + dirEntryHeaderSize + unat (de_NameLen e) > length buf then Err (Errorf m1) else Ok [e])
         else Ok [])"

text \<open>A record of length 0 has already been reported by \<open>parse_entry\<close>, so the branch that panics is
  never taken; it makes the recursion total.\<close>

function parse_dir :: "bytes \<Rightarrow> nat \<Rightarrow> DirEntry2 list res" where
  "parse_dir buf offset =
     (if offset + dirEntryHeaderSize > length buf then Ok []
      else
        bindR (parse_entry ''directory entry has rec_len=0 (corrupt block)''
                 ''directory entry: name extends beyond block boundary'' buf offset) (\<lambda>es.
          if get16 (offset + 4) buf = 0 then Panic
          else bindR (parse_dir buf (offset + unat (get16 (offset + 4) buf))) (\<lambda>rest. Ok (es @ rest))))"
  by pat_completeness auto
termination
  by (relation "measure (\<lambda>(buf, offset). length buf - offset)") (auto intro: record_progress)

declare parse_dir.simps [simp del]

definition parseDirBlock :: "bytes \<Rightarrow> DirEntry2 list res" where
  "parseDirBlock buf = parse_dir buf 0"

primrec parse_root :: "nat \<Rightarrow> bytes \<Rightarrow> nat \<Rightarrow> DirEntry2 list res" where
  "parse_root 0 buf offset = Ok []"
| "parse_root (Suc n) buf offset =
     (if offset + dirEntryHeaderSize > length buf then Ok []
      else
        bindR (parse_entry ''htree root: entry has rec_len=0 (corrupt block)''
                 ''htree root: name extends beyond block boundary'' buf offset) (\<lambda>es.
          bindR (parse_root n buf (offset + unat (get16 (offset + 4) buf))) (\<lambda>rest. Ok (es @ rest))))"

definition parseDirBlockHtreeRoot :: "bytes \<Rightarrow> DirEntry2 list res" where
  "parseDirBlockHtreeRoot buf = parse_root 2 buf 0"

section \<open>Reading a directory\<close>

fun read_dir_blocks :: "bool \<Rightarrow> u64 list \<Rightarrow> DirEntry2 list fsop" where
  "read_dir_blocks root [] = ret []"
| "read_dir_blocks root (physBlock # bs) =
     andThen (wrapErr ''failed to read directory block'' (read_block physBlock)) (\<lambda>buf.
     andThen (liftR (wrapR ''failed to parse directory block''
               (if root then parseDirBlockHtreeRoot buf else parseDirBlock buf))) (\<lambda>blockEntries.
     andThen (read_dir_blocks False bs) (\<lambda>entries. ret (blockEntries @ entries))))"

definition ReadDir :: "Inode \<Rightarrow> DirEntry2 list fsop" where
  "ReadDir inode =
     (if \<not> IsDir inode then failw (Errorf ''ReadDir called on a non-directory inode'')
      else
        let isHtree = (I_flags inode AND EXT4_INDEX_FL \<noteq> 0)
        in andThen (wrapErr ''failed to read extent tree'' (ReadExtents inode)) (\<lambda>extents.
             read_dir_blocks isHtree (concat (map (\<lambda>ext. block_run (ext_start ext) (unat (EE_len ext))) extents))))"

definition ReadDirCached :: "Inode \<Rightarrow> DirEntry2 list fsop" where
  "ReadDirCached inode =
     andThen (getS (\<lambda>s. fs_dirCache s (I_block inode))) (\<lambda>cached.
       case cached of
         Some entries \<Rightarrow> ret entries
       | None \<Rightarrow>
           andThen (ReadDir inode) (\<lambda>entries.
           andThen (modS (\<lambda>s. s\<lparr>fs_dirCache := (fs_dirCache s)(I_block inode := Some entries)\<rparr>)) (\<lambda>_.
             ret entries)))"

definition Lookup :: "Inode \<Rightarrow> bytes \<Rightarrow> u32 fsop" where
  "Lookup dirInode name =
     andThen (wrapErr ''Lookup: failed to read directory'' (ReadDirCached dirInode)) (\<lambda>entries.
       case find (\<lambda>e. de_Name e = name) entries of
         Some e \<Rightarrow> ret (de_Inode e)
       | None \<Rightarrow> failw ErrNotExist)"

definition invalidateDirCache :: "Inode \<Rightarrow> FileSystem \<Rightarrow> FileSystem" where
  "invalidateDirCache inode s = s\<lparr>fs_dirCache := (fs_dirCache s)(I_block inode := None)\<rparr>"

section \<open>Adding an entry\<close>

definition minDirRecLen :: "nat \<Rightarrow> u16" where
  "minDirRecLen nameLen = word_of_nat ((dirEntryHeaderSize + nameLen + 3) div 4 * 4)"

text \<open>The eight bytes of a record's header.\<close>

definition entry_header :: "u32 \<Rightarrow> u16 \<Rightarrow> u8 \<Rightarrow> u8 \<Rightarrow> bytes" where
  "entry_header ino recLen nameLen fileType = put32 ino @ put16 recLen @ [nameLen, fileType]"

text \<open>The loop of \<open>writeDirBlock\<close>; every slice of the buffer must lie inside it.\<close>

fun write_dir_loop :: "DirEntry2 list \<Rightarrow> nat \<Rightarrow> bytes \<Rightarrow> bytes res" where
  "write_dir_loop [] offset buf = Ok buf"
| "write_dir_loop (e # es) offset buf =
     (let nameLen = length (de_Name e);
          recLen = (if es = [] then word_of_int (int (length buf) - int offset) else minDirRecLen nameLen);
          nameEnd = offset + dirEntryHeaderSize + nameLen
      in if nameEnd > length buf then Panic
         else write_dir_loop es (offset + unat recLen)
           (copy_at offset (entry_header (de_Inode e) recLen (word_of_nat nameLen) (de_FileType e) @ de_Name e) buf))"

definition writeDirBlock :: "DirEntry2 list \<Rightarrow> nat \<Rightarrow> bytes res" where
  "writeDirBlock entries blockSize = write_dir_loop entries 0 (zeros blockSize)"

text \<open>The search for a record of a block with room for a new entry behind its own: the offset of
  the record.\<close>

function find_slack :: "bytes \<Rightarrow> u16 \<Rightarrow> nat \<Rightarrow> nat option" where
  "find_slack buf needed offset =
     (if offset + dirEntryHeaderSize > length buf then None
      else
        let recLen = get16 (offset + 4) buf;
            thisMin = minDirRecLen (unat (buf ! (offset + 6)));
            slack = int (unat recLen) - int (unat thisMin)
        in if recLen = 0 then None
           else if slack \<ge> int (unat needed) then Some offset
           else find_slack buf needed (offset + unat recLen))"
  by pat_completeness auto
termination
  by (relation "measure (\<lambda>(buf, needed, offset). length buf - offset)") (auto intro: record_progress)

declare find_slack.simps [simp del]

text \<open>The record is shortened and the new one put behind it. The two branches of the code differ in
  the length of the new record.\<close>

definition split_record :: "bytes \<Rightarrow> nat \<Rightarrow> u32 \<Rightarrow> u8 \<Rightarrow> bytes \<Rightarrow> bytes res" where
  "split_record buf offset child fileType name =
     (let recLen = get16 (offset + 4) buf;
          thisMin = minDirRecLen (unat (buf ! (offset + 6)));
          newOff = offset + unat thisMin;
          newRecLen = (if word_of_nat offset + recLen = (word_of_nat (length buf) :: u16)
                       then word_of_int (int (length buf) - int newOff)
                       else recLen - thisMin)
      in if newOff + dirEntryHeaderSize > length buf then Panic
         else Ok (copy_at (newOff + dirEntryHeaderSize) name
                   (copy_at newOff (entry_header child newRecLen (word_of_nat (length name)) fileType)
                     (copy_at (offset + 4) (put16 thisMin) buf))))"

text \<open>The loop over the blocks; \<open>True\<close> when the entry has been stored.\<close>

fun add_in_blocks :: "u32 \<Rightarrow> bytes \<Rightarrow> u32 \<Rightarrow> u8 \<Rightarrow> u64 list \<Rightarrow> bool iop" where
  "add_in_blocks now name child fileType [] = ret False"
| "add_in_blocks now name child fileType (physBlock # bs) =
     andThen (wrapErr ''AddDirEntry: failed to read block'' (onFs (read_block physBlock))) (\<lambda>buf.
       case find_slack buf (minDirRecLen (length name)) 0 of
         None \<Rightarrow> add_in_blocks now name child fileType bs
       | Some offset \<Rightarrow>
           andThen (liftR (split_record buf offset child fileType name)) (\<lambda>buf'.
           andThen (wrapErr ''AddDirEntry: failed to write block'' (onFs (write_block buf' physBlock))) (\<lambda>_.
           andThen (modS (\<lambda>(s, i). (invalidateDirCache i s, i\<lparr>I_mtime := now\<rparr>))) (\<lambda>_.
             ret True))))"

definition data_blocks :: "Extent list \<Rightarrow> u64 list" where
  "data_blocks extents = concat (map (\<lambda>ext. block_run (ext_start ext) (unat (ext_count ext))) extents)"

text \<open>The entry goes into a new block at the end of the directory.\<close>

definition add_block :: "u32 \<Rightarrow> bytes \<Rightarrow> u32 \<Rightarrow> u8 \<Rightarrow> unit iop" where
  "add_block now name child fileType =
     andThen (wrapErr ''AddDirEntry: failed to allocate block'' (onFs AllocateBlock)) (\<lambda>newBlock.
     andThen (getS (\<lambda>(s, i). (fs_BlockSize s, inode_Size i))) (\<lambda>(blockSize, dirSize).
       if blockSize = 0 then panic
       else
         andThen (wrapErr ''AddDirEntry'' (AppendExtent now (block_ext (dirSize div blockSize) newBlock))) (\<lambda>_.
         andThen (liftR (writeDirBlock [\<lparr>de_Inode = child, de_RecLen = 0, de_NameLen = word_of_nat (length name),
                                          de_FileType = fileType, de_Name = name\<rparr>] (unat blockSize))) (\<lambda>blockBuf.
         andThen (wrapErr ''AddDirEntry: failed to write new block'' (onFs (write_block blockBuf newBlock))) (\<lambda>_.
           modS (\<lambda>(s, i).
             let newSize = inode_Size i + blockSize;
                 i1 = (if IsDir i then i\<lparr>I_size_lo := ucast newSize\<rparr>
                       else i\<lparr>I_size_lo := ucast newSize, I_size_high := ucast (drop_bit 32 newSize)\<rparr>)
             in (invalidateDirCache i1 s, i1\<lparr>I_mtime := now\<rparr>)))))))"

definition AddDirEntry :: "u32 \<Rightarrow> bytes \<Rightarrow> u32 \<Rightarrow> u8 \<Rightarrow> unit iop" where
  "AddDirEntry now name child fileType =
     andThen (getS snd) (\<lambda>dirInode.
       if \<not> IsDir dirInode then failw (Errorf ''AddDirEntry: inode is not a directory'')
       else
         andThen (attempt (onFs (Lookup dirInode name))) (\<lambda>found.
           if found \<noteq> None then failw (Errorf ''AddDirEntry: entry already exists'')
           else
             andThen (wrapErr ''AddDirEntry: failed to read extents'' (onFs (ReadExtents dirInode))) (\<lambda>extents.
             andThen (add_in_blocks now name child fileType (data_blocks extents)) (\<lambda>stored.
               if stored then ret () else add_block now name child fileType))))"

section \<open>Removing an entry\<close>

text \<open>The search for the record with a name: its offset and that of the record before it (0 when
  it is the first).\<close>

function find_record :: "bytes \<Rightarrow> bytes \<Rightarrow> nat \<Rightarrow> nat \<Rightarrow> (nat \<times> nat) option" where
  "find_record buf name prevOff offset =
     (if offset + dirEntryHeaderSize > length buf then None
      else
        let e = entry_at buf offset
        in if de_RecLen e = 0 then None
           else if de_Inode e \<noteq> 0 \<and> de_NameLen e > 0 \<and>
             offset + dirEntryHeaderSize + unat (de_NameLen e) \<le> length buf \<and> de_Name e = name
           then Some (prevOff, offset)
           else find_record buf name offset (offset + unat (de_RecLen e)))"
  by pat_completeness auto
termination
  by (relation "measure (\<lambda>(buf, name, prevOff, offset). length buf - offset)") (auto intro: record_progress)

declare find_record.simps [simp del]

definition erase_record :: "bytes \<Rightarrow> nat \<Rightarrow> nat \<Rightarrow> bytes" where
  "erase_record buf prevOff offset =
     (let recLen = get16 (offset + 4) buf;
          buf1 = copy_at offset (put32 0) buf
      in if prevOff > 0
         then copy_at (prevOff + 4) (put16 (word_of_nat (offset + unat recLen - prevOff))) buf1
         else buf1)"

fun remove_in_blocks :: "u32 \<Rightarrow> bytes \<Rightarrow> u64 list \<Rightarrow> unit iop" where
  "remove_in_blocks now name [] = failw ErrNotExist"
| "remove_in_blocks now name (physBlock # bs) =
     andThen (wrapErr ''RemoveDirEntry: failed to read block'' (onFs (read_block physBlock))) (\<lambda>buf.
       case find_record buf name 0 0 of
         None \<Rightarrow> remove_in_blocks now name bs
       | Some (prevOff, offset) \<Rightarrow>
           andThen (wrapErr ''RemoveDirEntry: failed to write block''
                     (onFs (write_block (erase_record buf prevOff offset) physBlock))) (\<lambda>_.
             modS (\<lambda>(s, i). (invalidateDirCache i s, i\<lparr>I_mtime := now\<rparr>))))"

definition RemoveDirEntry :: "u32 \<Rightarrow> bytes \<Rightarrow> unit iop" where
  "RemoveDirEntry now name =
     andThen (getS snd) (\<lambda>dirInode.
       if \<not> IsDir dirInode then failw (Errorf ''RemoveDirEntry: inode is not a directory'')
       else
         andThen (wrapErr ''RemoveDirEntry: failed to read extents'' (onFs (ReadExtents dirInode))) (\<lambda>extents.
           remove_in_blocks now name (data_blocks extents)))"

section \<open>Walking a path\<close>

definition maxSymlinks :: nat where
  "maxSymlinks = 40"

text \<open>\<open>strings.Split(path, "/")\<close>: the pieces between the slashes, empty ones included.\<close>

fun split_path :: "bytes \<Rightarrow> bytes list" where
  "split_path [] = [[]]"
| "split_path (c # cs) =
     (if c = 47 then [] # split_path cs
      else (case split_path cs of [] \<Rightarrow> [[c]] | p # ps \<Rightarrow> (c # p) # ps))"

text \<open>The loop over the components; \<open>resolve\<close> is the recursive call on a link target.\<close>

fun walk_components :: "(bytes \<Rightarrow> (u32 \<times> Inode) fsop) \<Rightarrow> bytes list \<Rightarrow> u32 \<times> Inode \<Rightarrow> (u32 \<times> Inode) fsop" where
  "walk_components resolve [] (curNum, cur) = ret (curNum, cur)"
| "walk_components resolve (component # cs) (curNum, cur) =
     (if component = [] then walk_components resolve cs (curNum, cur)
      else if \<not> IsDir cur then failw (Errorf ''walk: not a directory'')
      else
        andThen (Lookup cur component) (\<lambda>childInodeNum.
        andThen (wrapErr ''walk: failed to read inode'' (ReadInode childInodeNum)) (\<lambda>child.
          if IsSymlink child
          then andThen (wrapErr ''walk: failed to read symlink'' (ReadSymlink child)) (\<lambda>target.
               andThen (wrapErr ''walk: symlink'' (resolve target)) (\<lambda>r.
                 walk_components resolve cs r))
          else walk_components resolve cs (childInodeNum, child))))"

text \<open>\<open>walk_left n\<close> is \<open>walk\<close> with \<open>symDepth\<close> equal to \<open>maxSymlinks + 1 - n\<close>.\<close>

primrec walk_left :: "nat \<Rightarrow> bytes \<Rightarrow> (u32 \<times> Inode) fsop" where
  "walk_left 0 path = failw (Errorf ''too many levels of symbolic links'')"
| "walk_left (Suc n) path =
     andThen (wrapErr ''walk: failed to read root inode'' (ReadInode RootInodeNum)) (\<lambda>root.
       walk_components (walk_left n) (split_path path) (RootInodeNum, root))"

definition walk :: "bytes \<Rightarrow> nat \<Rightarrow> (u32 \<times> Inode) fsop" where
  "walk path symDepth = walk_left (maxSymlinks + 1 - symDepth) path"

definition Walk :: "bytes \<Rightarrow> Inode fsop" where
  "Walk path = andThen (walk path 0) (\<lambda>(_, inode). ret inode)"

definition WalkInode :: "bytes \<Rightarrow> (u32 \<times> Inode) fsop" where
  "WalkInode path = walk path 0"

end
