(* ===== verification/File_Props.thy ===== *)
theory File_Props
  imports File_IO
begin

text \<open>
  Correctness of the file readers and the file writer with respect to \<open>file_bytes\<close>.
\<close>

section \<open>The bytes of a file\<close>

text \<open>The readers lay the extents of a file one behind the other; an uninitialised extent stands
  for zeros.\<close>

definition ext_data :: "FileSystem \<Rightarrow> Extent \<Rightarrow> bytes" where
  "ext_data s e = (if ext_uninit e then zeros (unat (ext_count e) * bsz s)
     else concat (map (blk s) (block_run (ext_start e) (unat (ext_count e)))))"

definition file_bytes :: "FileSystem \<Rightarrow> Extent list \<Rightarrow> bytes" where
  "file_bytes s exts = concat (map (ext_data s) exts)"

definition blocks_on_disk :: "FileSystem \<Rightarrow> Extent list \<Rightarrow> bool" where
  "blocks_on_disk s exts \<longleftrightarrow> (\<forall>b \<in> set (ext_blocks exts). block_in s b) \<and>
     sum_list (map (\<lambda>e. unat (ext_count e)) exts) * bsz s < 2 ^ 62"

lemma length_concat_blk: "\<forall>b \<in> set bs. block_in s b \<Longrightarrow> length (concat (map (blk s) bs)) = length bs * bsz s"
  by (induction bs) auto

lemma length_block_run [simp]: "length (block_run b n) = n"
  by (simp add: block_run_def)

lemma ext_blocks_Cons: "ext_blocks (e # es) =
  (if ext_uninit e then ext_blocks es else block_run (ext_start e) (unat (ext_count e)) @ ext_blocks es)"
  by (simp add: ext_blocks_def)

lemma length_ext_data:
  assumes "\<not> ext_uninit e \<Longrightarrow> \<forall>b \<in> set (block_run (ext_start e) (unat (ext_count e))). block_in s b"
  shows "length (ext_data s e) = unat (ext_count e) * bsz s"
  using assms length_concat_blk [of "block_run (ext_start e) (unat (ext_count e))" s]
  by (simp add: ext_data_def)

lemma length_file_bytes:
  "\<forall>b \<in> set (ext_blocks exts). block_in s b \<Longrightarrow>
   length (file_bytes s exts) = sum_list (map (\<lambda>e. unat (ext_count e)) exts) * bsz s"
  by (induction exts)
    (auto simp: file_bytes_def ext_blocks_Cons length_ext_data add_mult_distrib split: if_splits)

text \<open>A buffer of \<open>n\<close> bytes into whose zeros the data \<open>p\<close> has been copied from the start.\<close>

definition filled :: "nat \<Rightarrow> bytes \<Rightarrow> bytes" where
  "filled n p = take n p @ zeros (n - length p)"

lemma length_filled [simp]: "length (filled n p) = n"
  by (simp add: filled_def)

lemma filled_Nil: "filled n [] = zeros n"
  by (simp add: filled_def)

lemma filled_full: "n \<le> length p \<Longrightarrow> filled n p = take n p"
  by (simp add: filled_def zeros_def)

lemma filled_more: "n \<le> length p \<Longrightarrow> filled n (p @ q) = filled n p"
  by (simp add: filled_def)

lemma filled_zeros: "filled n (p @ zeros k) = filled n p"
proof (cases "length p \<le> n")
  case True
  then show ?thesis by (auto simp: filled_def zeros_def min_def simp flip: replicate_add)
qed (simp add: filled_more)

lemma copy_at_filled:
  assumes "length p \<le> n" and "m = min (length q) (n - length p)"
  shows "copy_at (length p) (take m q) (filled n p) = filled n (p @ q)"
proof (rule nth_equalityI)
  fix i assume "i < length (copy_at (length p) (take m q) (filled n p))"
  then have "i < n" using assms by simp
  then show "copy_at (length p) (take m q) (filled n p) ! i = filled n (p @ q) ! i"
    using assms by (auto simp: nth_copy_at) (auto simp: filled_def nth_append)
qed (use assms in simp)

section \<open>Reading a whole file\<close>

definition progress :: "nat \<Rightarrow> bytes \<Rightarrow> u64 \<Rightarrow> bool" where
  "progress n p w \<longleftrightarrow> (if length p < n then unat w = length p else n \<le> unat w)"

lemma copy_blocks_step:
  assumes "fs_ok s" and "block_in s b" and "progress (unat sz) p w" and "length p < unat sz"
  shows "\<exists>w'. copy_blocks m sz (b # bs) (filled (unat sz) p, w) s =
      copy_blocks m sz bs (filled (unat sz) (p @ blk s b), w') s \<and> progress (unat sz) (p @ blk s b) w'"
proof -
  let ?rem = "sz - w"
  define c where "c = (if fs_BlockSize s > ?rem then ?rem else fs_BlockSize s)"
  have w: "unat w = length p" "\<not> w \<ge> sz"
    using assms(3,4) by (simp_all add: progress_def word_le_nat_alt)
  have rem: "unat ?rem = unat sz - length p" using w assms(4) by (simp add: unat_sub_if')
  have c: "unat c = min (bsz s) (unat sz - length p)"
    using rem by (auto simp: c_def word_less_nat_alt)
  then have "unat (w + c) = length p + unat c"
    using w assms(4) unat_bounds(4) [of sz] by (intro trans [OF unat_add_u64]) auto
  then have "progress (unat sz) (p @ blk s b) (w + c)"
    using c assms(2) by (auto simp: progress_def)
  moreover have "copy_blocks m sz (b # bs) (filled (unat sz) p, w) s =
      copy_blocks m sz bs (filled (unat sz) (p @ blk s b), w + c) s"
    using w(2) copy_at_filled [of p "unat sz" "unat c" "blk s b"] c assms w(1)
    by (simp add: Let_def flip: c_def)
  ultimately show ?thesis by blast
qed

lemma copy_blocks_filled:
  assumes "fs_ok s" and "\<forall>b \<in> set bs. block_in s b" and "progress (unat sz) p w"
  shows "\<exists>w'. copy_blocks m sz bs (filled (unat sz) p, w) s =
      (Ok (filled (unat sz) (p @ concat (map (blk s) bs)), w'), s) \<and>
    progress (unat sz) (p @ concat (map (blk s) bs)) w'"
  using assms
proof (induction bs arbitrary: p w)
  case (Cons b bs)
  show ?case
  proof (cases "length p < unat sz")
    case True
    then obtain w' where w': "copy_blocks m sz (b # bs) (filled (unat sz) p, w) s =
        copy_blocks m sz bs (filled (unat sz) (p @ blk s b), w') s" "progress (unat sz) (p @ blk s b) w'"
      using copy_blocks_step Cons.prems by (metis list.set_intros(1))
    then show ?thesis using Cons.IH [OF Cons.prems(1) _ w'(2)] Cons.prems(2) by auto
  next
    case False
    then show ?thesis
      using Cons.prems(3) by (auto simp: progress_def filled_more word_le_nat_alt)
  qed
qed auto

lemma read_file_loop_filled:
  assumes "fs_ok s" and "\<forall>b \<in> set (ext_blocks exts). block_in s b" and "progress (unat sz) p w"
    and "length p + sum_list (map (\<lambda>e. unat (ext_count e)) exts) * bsz s < 2 ^ 62"
  shows "read_file_loop sz exts (filled (unat sz) p, w) s = (Ok (filled (unat sz) (p @ file_bytes s exts)), s)"
  using assms
proof (induction exts arbitrary: p w)
  case (Cons e exts)
  let ?n = "unat (ext_count e) * bsz s"
  have len: "length (ext_data s e) = ?n"
    using Cons.prems(2) by (intro length_ext_data) (auto simp: ext_blocks_Cons)
  have small: "length p + ?n + sum_list (map (\<lambda>e. unat (ext_count e)) exts) * bsz s < 2 ^ 62"
    using Cons.prems(4) by (simp add: add_mult_distrib)
  have in': "\<forall>b \<in> set (ext_blocks exts). block_in s b"
    using Cons.prems(2) by (auto simp: ext_blocks_Cons split: if_splits)
  have fb: "file_bytes s (e # exts) = ext_data s e @ file_bytes s exts" by (simp add: file_bytes_def)
  note IH = Cons.IH [OF Cons.prems(1) in']
  consider (full) "unat sz \<le> length p" | (zero) "length p < unat sz" "ext_uninit e"
    | (data) "length p < unat sz" "\<not> ext_uninit e" by linarith
  then show ?case
  proof cases
    case full
    then show ?thesis using Cons.prems(3) by (simp add: progress_def filled_more word_le_nat_alt)
  next
    case zero
    let ?z = "ext_count e * fs_BlockSize s"
    define z where "z = (if w + ?z > sz then sz - w else ?z)"
    have w: "unat w = length p" using zero Cons.prems(3) by (simp add: progress_def)
    have z: "unat ?z = ?n" using small by (intro unat_mult_u64) simp
    then have wz: "unat (w + ?z) = length p + ?n" using small w by (intro trans [OF unat_add_u64]) auto
    have "unat z = min ?n (unat sz - length p)"
      using w z wz zero(1) by (auto simp: z_def word_less_nat_alt unat_sub_if')
    then have "unat (w + z) = min (length p + ?n) (unat sz)"
      using w small zero(1) by (intro trans [OF unat_add_u64]) auto
    then have "progress (unat sz) (p @ ext_data s e) (w + z)" using len by (auto simp: progress_def)
    then have "read_file_loop sz exts (filled (unat sz) (p @ ext_data s e), w + z) s =
        (Ok (filled (unat sz) ((p @ ext_data s e) @ file_bytes s exts)), s)"
      using IH small len by simp
    then show ?thesis
      using zero w by (simp add: fb filled_zeros ext_data_def word_le_nat_alt Let_def flip: z_def)
  next
    case data
    have d: "concat (map (blk s) (block_run (ext_start e) (unat (ext_count e)))) = ext_data s e"
      using data by (simp add: ext_data_def)
    obtain w' where w': "copy_blocks ''ReadFile: failed to read block'' sz
        (block_run (ext_start e) (unat (ext_count e))) (filled (unat sz) p, w) s =
        (Ok (filled (unat sz) (p @ ext_data s e), w'), s)" "progress (unat sz) (p @ ext_data s e) w'"
      using copy_blocks_filled [OF Cons.prems(1) _ Cons.prems(3), of "block_run (ext_start e) (unat (ext_count e))"]
        Cons.prems(2) data(2) unfolding d by (auto simp: ext_blocks_Cons)
    then have "read_file_loop sz exts (filled (unat sz) (p @ ext_data s e), w') s =
        (Ok (filled (unat sz) ((p @ ext_data s e) @ file_bytes s exts)), s)"
      using IH small len by simp
    moreover have "\<not> w \<ge> sz" using data Cons.prems(3) by (simp add: progress_def word_le_nat_alt)
    ultimately show ?thesis using data w'(1) by (simp add: fb)
  qed
qed (simp add: file_bytes_def)

text \<open>\<open>ReadFile\<close> returns the bytes of the file's extents one behind the other, zeros for the
  uninitialised ones, cut off or padded with zeros to the size of the inode.\<close>

theorem ReadFile_contents:
  assumes "fs_ok s" and "IsRegular i" and "UsesExtents i" and "ReadExtents i s = (Ok exts, s)"
    and "blocks_on_disk s exts"
  shows "ReadFile i s = (Ok (filled (unat (inode_Size i)) (file_bytes s exts)), s)"
proof (cases "inode_Size i = 0")
  case True
  then show ?thesis using assms by (simp add: ReadFile_def filled_def zeros_def)
next
  case False
  have "progress (unat (inode_Size i)) [] 0" by (simp add: progress_def)
  then show ?thesis
    using read_file_loop_filled [OF assms(1), of exts "inode_Size i" "[]" 0] False assms
    by (simp add: ReadFile_def blocks_on_disk_def filled_Nil Let_def)
qed


section \<open>Reading a range\<close>

text \<open>The caller's buffer when the data \<open>p\<close> of the file has been passed: the requested bytes
  among them are filled in, and the tail behind the range is untouched.\<close>

definition range_buf :: "nat \<Rightarrow> nat \<Rightarrow> bytes \<Rightarrow> bytes \<Rightarrow> bytes" where
  "range_buf S T rest p = filled T (drop S p) @ rest"

lemma range_buf_skip: "length (p @ q) \<le> S \<Longrightarrow> range_buf S T rest (p @ q) = range_buf S T rest p"
  by (simp add: range_buf_def)

lemma range_buf_stop: "S + T \<le> length p \<Longrightarrow> range_buf S T rest (p @ q) = range_buf S T rest p"
  by (simp add: range_buf_def filled_more)

lemma copy_at_append_left: "off + length src \<le> length a \<Longrightarrow> copy_at off src (a @ b) = copy_at off src a @ b"
  by (simp add: copy_at_def)

lemma range_buf_copy:
  assumes "length p < S + T" and "S < length p + length q"
    and "a = S - length p" and "b = min (length q) (S + T - length p)"
  shows "copy_at (length p + a - S) (bslice a b q) (range_buf S T rest p) = range_buf S T rest (p @ q)"
proof -
  have d: "drop S (p @ q) = drop S p @ drop a q" using assms(3) by simp
  have "b - a = min (length q - a) (T - (length p - S))" using assms by linarith
  then have "bslice a b q = take (min (length (drop a q)) (T - length (drop S p))) (drop a q)"
    by (simp add: bslice_def)
  moreover have "length p + a - S = length (drop S p)" using assms(3) by auto
  moreover have "length (drop S p) \<le> T" using assms(1) by simp
  ultimately show ?thesis
    unfolding range_buf_def d using copy_at_filled [of "drop S p" T _ "drop a q"]
    by (simp add: copy_at_append_left)
qed

lemma read_at_blocks_step:
  assumes "fs_ok s" and "block_in s (ps + word_of_nat k)" and "length p = unat lp + k * bsz s"
    and "unat lp + (k + 1) * bsz s < 2 ^ 62" and "unat start < unat fin"
    and "T = unat fin - unat start" and "\<not> unat fin \<le> length p"
  shows "read_at_blocks start fin lp ps (k # is) (range_buf (unat start) T rest p) s =
    read_at_blocks start fin lp ps is (range_buf (unat start) T rest (p @ blk s (ps + word_of_nat k))) s"
proof -
  define bl where "bl = blk s (ps + word_of_nat k)"
  define b0 where "b0 = lp + word_of_nat k * fs_BlockSize s"
  define b1 where "b1 = b0 + fs_BlockSize s"
  have lb: "length bl = bsz s" "0 < bsz s" using assms(1,2) by (simp_all add: bl_def fs_ok_def)
  have kb: "k * bsz s < 2 ^ 62" using assms(4) by simp
  then have "k < 2 ^ 62" using lb(2) by (metis mult.right_neutral mult_le_mono2 less_eq_Suc_le One_nat_def le_less_trans)
  then have k: "unat (word_of_nat k :: u64) = k" by (simp add: unat_of_nat take_bit_nat_eq_self)
  then have "unat (word_of_nat k * fs_BlockSize s) = k * bsz s"
    using kb by (intro trans [OF unat_mult_u64]) simp_all
  then have b0: "unat b0 = length p"
    unfolding b0_def using assms(3,4) by (intro trans [OF unat_add_u64]) simp_all
  then have b1: "unat b1 = length p + bsz s"
    unfolding b1_def using assms(3,4) by (intro trans [OF unat_add_u64]) simp_all
  show ?thesis
  proof (cases "b1 \<le> start")
    case True
    then have "range_buf (unat start) T rest (p @ bl) = range_buf (unat start) T rest p"
      using b1 lb by (intro range_buf_skip) (simp add: word_le_nat_alt)
    with True show ?thesis by (simp add: Let_def b0_def b1_def bl_def)
  next
    case False
    define a where "a = (if start > b0 then start - b0 else 0)"
    define b where "b = (if fin < b1 then fin - b0 else fs_BlockSize s)"
    have a: "unat a = unat start - length p"
      using b0 by (auto simp: a_def word_less_nat_alt unat_sub_if')
    have b: "unat b = min (length bl) (unat start + T - length p)"
      using b0 b1 assms(5-7) lb by (auto simp: b_def word_less_nat_alt unat_sub_if')
    have "unat (b0 + a) = length p + unat a"
      using a b0 unat_bounds(4) [of start] assms(3,4) by (intro trans [OF unat_add_u64]) auto
    then have dst: "unat (b0 + a - start) = length p + unat a - unat start"
      using a by (auto simp: unat_sub_if')
    have "length p + unat a - unat start \<le> T" "unat a \<le> unat b" "unat b \<le> length bl"
      using a b b1 False assms(5-7) lb by (auto simp: word_le_nat_alt)
    moreover have "copy_at (length p + unat a - unat start) (bslice (unat a) (unat b) bl)
        (range_buf (unat start) T rest p) = range_buf (unat start) T rest (p @ bl)"
      using a b b1 False assms(5-7) lb by (intro range_buf_copy) (auto simp: word_le_nat_alt)
    moreover have "\<not> fin \<le> b0" using b0 assms(7) by (simp add: word_le_nat_alt)
    moreover have "read_block (ps + word_of_nat k) s = (Ok bl, s)" using assms(1,2) by (simp add: bl_def)
    moreover have "length (range_buf (unat start) T rest p) = T + length rest" by (simp add: range_buf_def)
    ultimately show ?thesis
      using False dst
      by (simp add: Let_def goslice_def not_less split del: if_split cong: if_cong flip: b0_def b1_def a_def b_def bl_def)
  qed
qed

lemma read_at_blocks_ok:
  assumes "fs_ok s" and "\<forall>i < n. block_in s (ps + word_of_nat i)" and "length p = unat lp + k * bsz s"
    and "unat lp + n * bsz s < 2 ^ 62" and "k \<le> n" and "unat start < unat fin" and "T = unat fin - unat start"
  shows "read_at_blocks start fin lp ps [k..<n] (range_buf (unat start) T rest p) s =
    (Ok (range_buf (unat start) T rest (p @ concat (map (\<lambda>i. blk s (ps + word_of_nat i)) [k..<n]))), s)"
  using assms
proof (induction "n - k" arbitrary: k p)
  case (Suc d)
  then have k: "k < n" "[k..<n] = k # [Suc k..<n]" by (simp_all add: upt_conv_Cons)
  have le: "(k + 1) * bsz s \<le> n * bsz s" using k by (intro mult_le_mono1) simp
  show ?case
  proof (cases "unat fin \<le> length p")
    case True
    have "k * bsz s + bsz s \<le> n * bsz s" using le by simp
    then have lt: "length p < 2 ^ 62" using Suc.prems(1,3,4) le by (simp add: fs_ok_def)
    have "k * 1 \<le> k * bsz s" using Suc.prems(1) by (intro mult_le_mono2) (simp add: fs_ok_def)
    then have k62: "k < 2 ^ 62" using lt Suc.prems(3) by linarith
    then have "unat (word_of_nat k * fs_BlockSize s) = k * bsz s"
      using lt Suc.prems(3) by (intro trans [OF unat_mult_u64]) (simp_all add: unat_of_nat take_bit_nat_eq_self)
    then have u: "unat (lp + word_of_nat k * fs_BlockSize s) = length p"
      using lt Suc.prems(3) by (intro trans [OF unat_add_u64]) simp_all
    then have "unat (lp + word_of_nat k * fs_BlockSize s + fs_BlockSize s) = length p + bsz s"
      using lt Suc.prems(1) by (intro trans [OF unat_add_u64]) (simp_all add: fs_ok_def)
    then have "\<not> lp + word_of_nat k * fs_BlockSize s + fs_BlockSize s \<le> start"
      "fin \<le> lp + word_of_nat k * fs_BlockSize s"
      using u True Suc.prems(6) by (simp_all add: word_le_nat_alt)
    then show ?thesis
      using True Suc.prems(6,7) by (simp add: k(2) Let_def range_buf_stop del: upt_Suc)
  next
    case False
    have "read_at_blocks start fin lp ps [k..<n] (range_buf (unat start) T rest p) s =
        read_at_blocks start fin lp ps [Suc k..<n]
          (range_buf (unat start) T rest (p @ blk s (ps + word_of_nat k))) s"
      unfolding k(2)
    proof (rule read_at_blocks_step)
      show "block_in s (ps + word_of_nat k)" using Suc.prems(2) k(1) by blast
      show "unat lp + (k + 1) * bsz s < 2 ^ 62" using le Suc.prems(4) by linarith
    qed (use False Suc.prems in auto)
    also have "\<dots> = (Ok (range_buf (unat start) T rest ((p @ blk s (ps + word_of_nat k)) @
        concat (map (\<lambda>i. blk s (ps + word_of_nat i)) [Suc k..<n]))), s)"
      using Suc.prems Suc.hyps(2) k(1) by (intro Suc.hyps(1)) auto
    finally show ?thesis using k(2) by simp
  qed
qed simp


lemma range_buf_zeros: "range_buf S T rest (p @ zeros k) = range_buf S T rest p"
proof -
  have "drop S (p @ zeros k) = drop S p @ zeros (k - (S - length p))" by (simp add: zeros_def)
  then show ?thesis by (simp add: range_buf_def filled_zeros)
qed

lemma map_block_run: "map f (block_run b n) = map (\<lambda>i. f (b + word_of_nat i)) [0..<n]"
  by (simp add: block_run_def)

lemma block_run_in: "\<forall>b \<in> set (block_run b0 n). P b \<Longrightarrow> i < n \<Longrightarrow> P (b0 + word_of_nat i)"
  by (simp add: block_run_def)

lemma read_at_loop_ok:
  assumes "fs_ok s" and "\<forall>b \<in> set (ext_blocks exts). block_in s b" and "length p = unat lp"
    and "unat lp + sum_list (map (\<lambda>e. unat (ext_count e)) exts) * bsz s < 2 ^ 62"
    and "unat start < unat fin" and "T = unat fin - unat start"
  shows "read_at_loop start fin lp exts (range_buf (unat start) T rest p) s =
    (Ok (range_buf (unat start) T rest (p @ file_bytes s exts)), s)"
  using assms
proof (induction exts arbitrary: p lp)
  case (Cons e exts)
  let ?n = "unat (ext_count e) * bsz s" and ?run = "block_run (ext_start e) (unat (ext_count e))"
  define lp' where "lp' = lp + ext_count e * fs_BlockSize s"
  have small: "unat lp + ?n + sum_list (map (\<lambda>e. unat (ext_count e)) exts) * bsz s < 2 ^ 62"
    using Cons.prems(4) by (simp add: add_mult_distrib)
  then have "unat (ext_count e * fs_BlockSize s) = ?n" by (intro unat_mult_u64) simp
  then have lp': "unat lp' = unat lp + ?n"
    unfolding lp'_def using small by (intro trans [OF unat_add_u64]) auto
  have "length (ext_data s e) = ?n"
    using Cons.prems(2) by (intro length_ext_data) (auto simp: ext_blocks_Cons)
  then have len: "length (p @ ext_data s e) = unat lp'" using lp' Cons.prems(3) by simp
  have in': "\<forall>b \<in> set (ext_blocks exts). block_in s b"
    using Cons.prems(2) by (auto simp: ext_blocks_Cons split: if_splits)
  have fb: "file_bytes s (e # exts) = ext_data s e @ file_bytes s exts" by (simp add: file_bytes_def)
  have IH: "read_at_loop start fin lp' exts (range_buf (unat start) T rest (p @ ext_data s e)) s =
      (Ok (range_buf (unat start) T rest (p @ file_bytes s (e # exts))), s)"
    using Cons.IH [OF Cons.prems(1) in' len _ Cons.prems(5,6)] small lp' by (simp add: fb)
  consider (skip) "lp' \<le> start" | (stop) "\<not> lp' \<le> start" "lp \<ge> fin"
    | (zero) "\<not> lp' \<le> start" "\<not> lp \<ge> fin" "ext_uninit e"
    | (data) "\<not> lp' \<le> start" "\<not> lp \<ge> fin" "\<not> ext_uninit e" by blast
  then show ?case
  proof cases
    case skip
    then have "range_buf (unat start) T rest (p @ ext_data s e) = range_buf (unat start) T rest p"
      using len by (intro range_buf_skip) (simp add: word_le_nat_alt)
    then show ?thesis using skip IH by (simp add: Let_def flip: lp'_def)
  next
    case stop
    then have "range_buf (unat start) T rest (p @ file_bytes s (e # exts)) = range_buf (unat start) T rest p"
      using Cons.prems(3,5,6) by (intro range_buf_stop) (simp add: word_le_nat_alt)
    then show ?thesis using stop by (simp add: Let_def flip: lp'_def)
  next
    case zero
    then have "range_buf (unat start) T rest (p @ ext_data s e) = range_buf (unat start) T rest p"
      by (simp add: ext_data_def range_buf_zeros)
    then show ?thesis using zero IH by (simp add: Let_def flip: lp'_def)
  next
    case data
    have "\<forall>i < unat (ext_count e). block_in s (ext_start e + word_of_nat i)"
      using Cons.prems(2) data(3) block_run_in [of "ext_start e" "unat (ext_count e)" "block_in s"]
      by (auto simp: ext_blocks_Cons)
    then have "read_at_blocks start fin lp (ext_start e) [0..<unat (ext_count e)] (range_buf (unat start) T rest p) s =
        (Ok (range_buf (unat start) T rest (p @ ext_data s e)), s)"
      using read_at_blocks_ok [OF Cons.prems(1), of "unat (ext_count e)" "ext_start e" p lp 0 start fin T rest]
        Cons.prems(3,5,6) small data(3) by (simp add: ext_data_def map_block_run)
    then show ?thesis using data IH by (simp add: Let_def flip: lp'_def)
  qed
qed (simp add: file_bytes_def)

lemma ReadFileAt_range:
  assumes "fs_ok s" and "blocks_on_disk s exts" and "length buf < 2 ^ 62" and "ofst < 2 ^ 62"
    and "buf \<noteq> []"
  shows "ReadFileAt exts fsize buf (int ofst) s =
    (let n = min (length buf) (unat fsize - ofst)
     in (Ok (n, filled n (drop ofst (file_bytes s exts)) @ drop n buf), s))"
proof -
  define start fin0 where "start = u64i (int ofst)" and "fin0 = start + word_of_nat (length buf)"
  have st: "unat start = ofst"
    using assms(4) by (simp add: start_def u64i_def unat_of_nat take_bit_nat_eq_self)
  have "unat (word_of_nat (length buf) :: u64) = length buf"
    using assms(3) by (simp add: unat_of_nat take_bit_nat_eq_self)
  then have f0: "unat fin0 = ofst + length buf"
    unfolding fin0_def using st assms(3,4) by (intro trans [OF unat_add_u64]) simp_all
  show ?thesis
  proof (cases "start \<ge> fsize")
    case True
    then show ?thesis using st
      by (simp add: ReadFileAt_def word_le_nat_alt filled_def zeros_def flip: start_def)
  next
    case False
    define fin where "fin = (if fin0 > fsize then fsize else fin0)"
    define n where "n = min (length buf) (unat fsize - ofst)"
    have fin: "unat fin = ofst + n"
      using f0 False st by (auto simp: fin_def n_def word_less_nat_alt word_le_nat_alt)
    then have n: "unat (fin - start) = n" using st by (simp add: unat_sub_if')
    have "read_at_loop start fin 0 exts (zeros n @ drop n buf) s =
        (Ok (filled n (drop ofst (file_bytes s exts)) @ drop n buf), s)"
    proof -
      have "0 < n" using False st assms(5) by (simp add: n_def word_le_nat_alt)
      then have "unat start < unat fin" and T: "n = unat fin - unat start" using fin st by simp_all
      from read_at_loop_ok [OF assms(1) _ _ _ this, of exts "[]" 0 "drop n buf"] assms(2) show ?thesis
        unfolding st by (simp add: blocks_on_disk_def range_buf_def filled_Nil)
    qed
    then show ?thesis
      using False unfolding ReadFileAt_def Let_def start_def [symmetric] fin0_def [symmetric] fin_def [symmetric] n
        n_def [symmetric] by simp
  qed
qed


section \<open>Writing a range\<close>

text \<open>The extents of a file without holes: initialised, not empty, each starting at the logical
  block where the one before it ends.\<close>

fun dense :: "nat \<Rightarrow> Extent list \<Rightarrow> bool" where
  "dense k [] \<longleftrightarrow> k < 2 ^ 32"
| "dense k (e # es) \<longleftrightarrow> \<not> ext_uninit e \<and> unat (EE_block e) = k \<and> dense (k + unat (ext_count e)) es"

lemma dense_bound: "dense k exts \<Longrightarrow> k + length (ext_blocks exts) < 2 ^ 32"
proof (induction exts arbitrary: k)
  case (Cons e exts)
  then show ?case using Cons.IH [of "k + unat (ext_count e)"] by (auto simp: ext_blocks_Cons add.assoc)
qed (simp add: ext_blocks_def)

lemma nth_block_run: "i < n \<Longrightarrow> block_run b n ! i = b + word_of_nat i"
  by (simp add: block_run_def)

lemma find_in_extent:
  assumes "\<not> ext_uninit e" and "unat (EE_block e) = k" and "k + unat (ext_count e) < 2 ^ 32"
    and "k \<le> unat l" and "unat l < k + unat (ext_count e)"
  shows "findPhysicalBlock (e # exts) l = Some (ext_start e + word_of_nat (unat l - k))"
proof -
  have c: "unat (ucast (ext_count e) :: u32) = unat (ext_count e)"
    using assms(3) by (intro unat_ucast_down) simp
  then have "unat (EE_block e + ucast (ext_count e)) = k + unat (ext_count e)"
    using assms(2,3) by (simp add: unat_word_ariths)
  moreover have "unat (l - EE_block e) = unat l - k"
    using assms(2,4) by (simp add: unat_sub_if')
  then have "(ucast (l - EE_block e) :: u64) = word_of_nat (unat l - k)"
    by (metis of_nat_unat)
  ultimately show ?thesis using assms by (simp add: word_le_nat_alt word_less_nat_alt del: of_nat_diff)
qed


lemma find_dense:
  assumes "dense k exts" and "k \<le> unat l" and "unat l < k + length (ext_blocks exts)"
  shows "findPhysicalBlock exts l = Some (ext_blocks exts ! (unat l - k))"
  using assms
proof (induction exts arbitrary: k)
  case (Cons e exts)
  let ?n = "unat (ext_count e)"
  have e: "\<not> ext_uninit e" "unat (EE_block e) = k" and d: "dense (k + ?n) exts"
    using Cons.prems(1) by simp_all
  have bound: "k + ?n < 2 ^ 32" using dense_bound [OF d] by simp
  show ?case
  proof (cases "unat l < k + ?n")
    case True
    then show ?thesis
      using find_in_extent [OF e bound Cons.prems(2)] e Cons.prems(2)
      by (simp add: ext_blocks_Cons nth_append nth_block_run less_diff_conv2 add.commute
          del: of_nat_diff findPhysicalBlock.simps)
  next
    case False
    have "unat (ucast (ext_count e) :: u32) = ?n" using bound by (intro unat_ucast_down) simp
    then have "unat (EE_block e + ucast (ext_count e)) = k + ?n"
      using e(2) bound by (simp add: unat_word_ariths)
    then have "findPhysicalBlock (e # exts) l = findPhysicalBlock exts l"
      using False by (simp add: word_less_nat_alt)
    moreover have "\<not> unat l - k < ?n" using False by simp
    ultimately show ?thesis
      using Cons.IH [OF d] Cons.prems(3) False e
      by (simp add: ext_blocks_Cons nth_append diff_diff_add del: findPhysicalBlock.simps)
  qed
qed (simp add: ext_blocks_def)

lemma file_bytes_dense: "dense k exts \<Longrightarrow> file_bytes s exts = concat (map (blk s) (ext_blocks exts))"
  by (induction exts arbitrary: k) (auto simp: file_bytes_def ext_blocks_Cons ext_data_def, simp add: ext_blocks_def)

lemma concat_nth:
  assumes "\<forall>x \<in> set xss. length x = n" and "i < length xss * n"
  shows "concat xss ! i = xss ! (i div n) ! (i mod n)"
  using assms
proof (induction xss arbitrary: i)
  case (Cons x xss)
  have n: "0 < n" using Cons.prems(2) by (cases n) auto
  show ?case
  proof (cases "i < n")
    case True
    then show ?thesis using Cons.prems by (simp add: nth_append)
  next
    case False
    then obtain j where j: "i = n + j" using le_Suc_ex by (metis not_less)
    then show ?thesis using Cons n by (simp add: nth_append div_add_self1)
  qed
qed simp

lemma concat_update:
  assumes "\<forall>x \<in> set xss. length x = n" and "length y = n" and "k < length xss" and "0 < n"
  shows "concat (xss[k := y]) = copy_at (k * n) y (concat xss)"
proof (rule nth_equalityI)
  have len: "length (concat yss) = length yss * n" if "\<forall>x \<in> set yss. length x = n" for yss
    using that by (induction yss) auto
  have u: "\<forall>x \<in> set (xss[k := y]). length x = n"
    using assms by (auto dest: subsetD [OF set_update_subset_insert])
  have kn: "k * n \<le> length xss * n" using assms(3) by simp
  then show "length (concat (xss[k := y])) = length (copy_at (k * n) y (concat xss))"
    using len [OF u] len [OF assms(1)] by simp
  fix i assume "i < length (concat (xss[k := y]))"
  then have i: "i < length xss * n" using len [OF u] by simp
  have "(k * n \<le> i \<and> i < k * n + n) = (i div n = k)"
    using assms(4) by (metis div_eq_iff_range)
  moreover have "i div n < length xss" using i by (simp add: less_mult_imp_div_less)
  moreover have "i mod n = i - k * n" if "i div n = k" using that by (simp add: minus_mult_div_eq_mod [symmetric] mult.commute)
  moreover have "concat (xss[k := y]) ! i = xss[k := y] ! (i div n) ! (i mod n)"
    using i u by (intro concat_nth) simp_all
  moreover have "concat xss ! i = xss ! (i div n) ! (i mod n)"
    using i assms(1) by (intro concat_nth) simp_all
  moreover have "copy_at (k * n) y (concat xss) ! i =
      (if k * n \<le> i \<and> i < k * n + n then y ! (i - k * n) else concat xss ! i)"
    using i kn len [OF assms(1)] assms(2) by (simp add: nth_copy_at)
  ultimately show "concat (xss[k := y]) ! i = copy_at (k * n) y (concat xss) ! i"
    by (simp add: nth_list_update)
qed


lemma file_bytes_put_block:
  assumes "fs_ok s" and "dense k exts" and "distinct (ext_blocks exts)"
    and "\<forall>b \<in> set (ext_blocks exts). block_in s b" and "j < length (ext_blocks exts)" and "length q = bsz s"
  shows "file_bytes (put_block s (ext_blocks exts ! j) q) exts = copy_at (j * bsz s) q (file_bytes s exts)"
proof -
  let ?B = "ext_blocks exts" and ?s = "put_block s (ext_blocks exts ! j) q"
  have "blk ?s (?B ! i) = (if i = j then q else blk s (?B ! i))" if "i < length ?B" for i
    using assms that blk_put_block [OF assms(1), of "?B ! j" q "?B ! i"]
    by (simp add: nth_eq_iff_index_eq)
  then have "map (blk ?s) ?B = (map (blk s) ?B)[j := q]"
    by (intro nth_equalityI) (simp_all add: nth_list_update)
  then show ?thesis
    using concat_update [of "map (blk s) ?B" "bsz s" q j] assms
    by (simp add: file_bytes_dense [OF assms(2)] fs_ok_def)
qed

lemma concat_bslice:
  assumes "\<forall>x \<in> set xss. length x = n" and "j < length xss"
  shows "bslice (j * n) (j * n + n) (concat xss) = xss ! j"
  using assms
proof (induction xss arbitrary: j)
  case (Cons x xss)
  then show ?case by (cases j) (auto simp: bslice_def)
qed simp

lemma copy_at_block:
  assumes "off + n \<le> length dst" and "length src \<le> n"
  shows "copy_at off (copy_at 0 src (bslice off (off + n) dst)) dst = copy_at off src dst"
  using assms by (intro nth_equalityI) (auto simp: nth_copy_at)

lemma copy_at_append:
  assumes "off + length a + length b \<le> length dst"
  shows "copy_at (off + length a) b (copy_at off a dst) = copy_at off (a @ b) dst"
  using assms by (intro nth_equalityI) (auto simp: nth_copy_at nth_append)

lemma copy_at_Nil: "copy_at off [] dst = dst"
  by (simp add: copy_at_def)

text \<open>One iteration of the writer on a mapped block, for an offset that is not inside a block.\<close>

lemma write_loop_step:
  assumes "fs_ok s" and "dense 0 exts" and "distinct (ext_blocks exts)"
    and "\<forall>b \<in> set (ext_blocks exts). block_in s b" and "l < length (ext_blocks exts)"
    and "unat start = f * bsz s" and "f \<le> l" and "unat fin = unat start + length buf" and "l * bsz s < unat fin"
    and "unat fin < 2 ^ 62" and "length (ext_blocks exts) * bsz s < 2 ^ 62"
  defines "src \<equiv> bslice ((l - f) * bsz s) (min ((l - f) * bsz s + bsz s) (length buf)) buf"
  shows "\<exists>q. length q = bsz s \<and> block_in s (ext_blocks exts ! l) \<and>
    write_loop now exts buf start fin (fs_BlockSize s) (word_of_nat l # ls) (s, i) =
      write_loop now exts buf start fin (fs_BlockSize s) ls (put_block s (ext_blocks exts ! l) q, i) \<and>
    file_bytes (put_block s (ext_blocks exts ! l) q) exts = copy_at (l * bsz s) src (file_bytes s exts)"
proof -
  let ?B = "ext_blocks exts" and ?n = "bsz s"
  define w b0 b1 where "w = (word_of_nat l :: u64)" and "b0 = w * fs_BlockSize s" and "b1 = b0 + fs_BlockSize s"
  define r1 where "r1 = (if fin < b1 then fin - b0 else fs_BlockSize s)"
  have n: "1024 \<le> ?n" "?n \<le> 65536" using assms(1) by (simp_all add: fs_ok_def)
  have l32: "l < 2 ^ 32" using dense_bound [OF assms(2)] assms(5) by simp
  have w: "unat w = l" using l32 by (simp add: w_def unat_of_nat take_bit_nat_eq_self)
  have b0: "unat b0 = l * ?n" unfolding b0_def using w assms(9,10) by (intro trans [OF unat_mult_u64]) simp_all
  have b1: "unat b1 = l * ?n + ?n"
    unfolding b1_def using b0 n assms(9,10) by (intro trans [OF unat_add_u64]) simp_all
  have fl: "f * ?n \<le> l * ?n" and sub: "(l - f) * ?n = l * ?n - f * ?n"
    using assms(7) by (simp_all add: diff_mult_distrib)
  have r1: "unat r1 = min ?n (unat fin - l * ?n)"
    using b0 b1 assms(9) by (auto simp: r1_def word_less_nat_alt unat_sub_if')
  have st: "\<not> start > b0" using b0 assms(6,7) by (simp add: word_less_nat_alt not_less)
  have s0: "unat (b0 - start) = (l - f) * ?n" using b0 assms(6) fl sub by (simp add: unat_sub_if')
  have "unat (b0 - start + r1) = (l - f) * ?n + unat r1"
    using s0 r1 sub b0 assms(9,10) n by (intro trans [OF unat_add_u64]) simp_all
  moreover have "(l - f) * ?n + unat r1 = min ((l - f) * ?n + ?n) (length buf)"
    using r1 sub fl assms(6,8,9) by simp
  ultimately have s1: "unat (b0 - start + r1) = min ((l - f) * ?n + ?n) (length buf)" by simp
  have le: "(l - f) * ?n \<le> min ((l - f) * ?n + ?n) (length buf)" using sub fl assms(6,8,9) by linarith
  have bl: "block_in s (?B ! l)" using assms(4,5) by simp
  define q where "q = copy_at 0 src (blk s (?B ! l))"
  have q: "length q = ?n" using bl by (simp add: q_def)
  have find: "findPhysicalBlock exts (ucast w) = Some (?B ! l)"
    using find_dense [OF assms(2), of "ucast w"] w l32 assms(5) by (simp add: unat_ucast_down)
  have run: "write_loop now exts buf start fin (fs_BlockSize s) (w # ls) (s, i) =
      write_loop now exts buf start fin (fs_BlockSize s) ls (put_block s (?B ! l) q, i)"
    using assms(1) bl find st s0 s1 le r1 q
    by (simp add: Let_def block_for_write_def goslice_def onFs_eq src_def [symmetric] q_def [symmetric]
        split del: if_split cong: if_cong flip: b0_def b1_def r1_def)
  have fb: "file_bytes s exts = concat (map (blk s) ?B)" by (rule file_bytes_dense [OF assms(2)])
  have blkF: "bslice (l * ?n) (l * ?n + ?n) (file_bytes s exts) = blk s (?B ! l)"
    unfolding fb using concat_bslice [of "map (blk s) ?B" ?n l] assms(4,5) by simp
  have lenF: "length (file_bytes s exts) = length ?B * ?n"
    unfolding fb using length_concat_blk [OF assms(4)] .
  have "l * ?n + ?n \<le> length ?B * ?n" using mult_le_mono1 [of "Suc l" "length ?B" ?n] assms(5) by simp
  moreover have "length src \<le> ?n" unfolding src_def by (subst length_slice) auto
  ultimately have "copy_at (l * ?n) q (file_bytes s exts) = copy_at (l * ?n) src (file_bytes s exts)"
    using copy_at_block [of "l * ?n" ?n "file_bytes s exts" src] lenF unfolding blkF q_def by simp
  then show ?thesis
    using q bl run file_bytes_put_block [OF assms(1-5) q] by (auto simp: w_def)
qed


definition same_fs :: "FileSystem \<Rightarrow> Extent list \<Rightarrow> FileSystem \<Rightarrow> bool" where
  "same_fs s exts s' \<longleftrightarrow> fs_ok s' \<and> (\<exists>d. s' = s\<lparr>fs_dev := d\<rparr>) \<and> (\<forall>c. block_in s' c = block_in s c) \<and>
     (\<forall>c. block_in s c \<and> c \<notin> set (ext_blocks exts) \<longrightarrow> blk s' c = blk s c)"

lemma same_fs_refl: "fs_ok s \<Longrightarrow> same_fs s exts s"
  by (auto simp: same_fs_def intro: exI [of _ "fs_dev s"])

lemma same_fs_put_block:
  assumes "fs_ok s" and "block_in s (ext_blocks exts ! l)" and "l < length (ext_blocks exts)" and "length q = bsz s"
    and "same_fs (put_block s (ext_blocks exts ! l) q) exts s'"
  shows "same_fs s exts s'"
proof -
  have "\<exists>d. put_block s (ext_blocks exts ! l) q\<lparr>fs_dev := d'\<rparr> = s\<lparr>fs_dev := d\<rparr>" for d'
    by (auto simp: put_block_def poke_def)
  moreover have "block_in (put_block s (ext_blocks exts ! l) q) c = block_in s c" for c
    using assms(1,2,4) by simp
  moreover have "blk (put_block s (ext_blocks exts ! l) q) c = blk s c"
    if "block_in s c" "c \<notin> set (ext_blocks exts)" for c
    using that blk_put_block [OF assms(1,2,4) that(1)] nth_mem [OF assms(3)] by auto
  ultimately show ?thesis using assms(5) unfolding same_fs_def by metis
qed

lemma write_loop_ok:
  assumes "fs_ok s" and "dense 0 exts" and "distinct (ext_blocks exts)"
    and "\<forall>b \<in> set (ext_blocks exts). block_in s b" and "n \<le> length (ext_blocks exts)"
    and "unat start = f * bsz s" and "f \<le> l" and "unat fin = unat start + length buf"
    and "\<forall>k < n. k * bsz s < unat fin" and "unat fin \<le> n * bsz s"
    and "unat fin < 2 ^ 62" and "length (ext_blocks exts) * bsz s < 2 ^ 62"
  shows "\<exists>s'. write_loop now exts buf start fin (fs_BlockSize s) (map word_of_nat [l..<n]) (s, i) = (Ok (), (s', i)) \<and>
    same_fs s exts s' \<and>
    file_bytes s' exts = copy_at (l * bsz s) (drop ((l - f) * bsz s) buf) (file_bytes s exts)"
  using assms
proof (induction "n - l" arbitrary: l s)
  case 0
  then have "length buf \<le> (l - f) * bsz s"
  proof -
    have "n * bsz s \<le> l * bsz s" using 0(1) by (intro mult_le_mono1) simp
    then show ?thesis using 0 by (simp only: diff_mult_distrib)
  qed
  then show ?case using 0 same_fs_refl by (simp add: copy_at_def)
next
  case (Suc d)
  let ?n = "bsz s" and ?B = "ext_blocks exts" and ?F = "file_bytes s exts"
  have l: "l < n" "map word_of_nat [l..<n] = (word_of_nat l :: u64) # map word_of_nat [Suc l..<n]"
    using Suc.hyps(2) by (simp_all add: upt_conv_Cons)
  define src where "src = bslice ((l - f) * ?n) (min ((l - f) * ?n + ?n) (length buf)) buf"
  obtain q where q: "length q = ?n" "block_in s (?B ! l)"
    "write_loop now exts buf start fin (fs_BlockSize s) (map word_of_nat [l..<n]) (s, i) =
      write_loop now exts buf start fin (fs_BlockSize s) (map word_of_nat [Suc l..<n]) (put_block s (?B ! l) q, i)"
    "file_bytes (put_block s (?B ! l) q) exts = copy_at (l * ?n) src ?F"
    using write_loop_step [OF Suc.prems(1-4) _ Suc.prems(6,7,8),
        where ls = "map word_of_nat [Suc l..<n]" and now = now and i = i]
      Suc.prems l(1) unfolding l(2) src_def by auto
  let ?s = "put_block s (?B ! l) q"
  have s1: "fs_ok ?s" "\<forall>b \<in> set ?B. block_in ?s b" using Suc.prems(1,4) q by simp_all
  have lF: "length ?F = length ?B * ?n"
    using length_concat_blk [OF Suc.prems(4)] by (simp add: file_bytes_dense [OF Suc.prems(2)])
  have "\<exists>s'. write_loop now exts buf start fin (fs_BlockSize ?s) (map word_of_nat [Suc l..<n]) (?s, i) =
      (Ok (), (s', i)) \<and> same_fs ?s exts s' \<and>
      file_bytes s' exts = copy_at (Suc l * bsz ?s) (drop ((Suc l - f) * bsz ?s) buf) (file_bytes ?s exts)"
    using Suc.prems Suc.hyps(2) s1 by (intro Suc.hyps(1)) auto
  then obtain s' where s': "write_loop now exts buf start fin (fs_BlockSize s) (map word_of_nat [Suc l..<n]) (?s, i) =
      (Ok (), (s', i))" "same_fs ?s exts s'"
      "file_bytes s' exts = copy_at (Suc l * ?n) (drop ((Suc l - f) * ?n) buf) (copy_at (l * ?n) src ?F)"
    using q(4) by auto
  have same: "same_fs s exts s'"
    using same_fs_put_block [OF Suc.prems(1) q(2) _ q(1) s'(2)] l(1) Suc.prems(5) by simp
  have sub: "(l - f) * ?n = l * ?n - f * ?n" "f * ?n \<le> l * ?n" "(Suc l - f) * ?n = (l - f) * ?n + ?n"
    using Suc.prems(7) by (simp_all add: diff_mult_distrib Suc_diff_le)
  have "copy_at (Suc l * ?n) (drop ((Suc l - f) * ?n) buf) (copy_at (l * ?n) src ?F) =
      copy_at (l * ?n) (drop ((l - f) * ?n) buf) ?F"
  proof (cases "(l - f) * ?n + ?n \<le> length buf")
    case True
    have src: "length src = ?n" "src @ drop ((Suc l - f) * ?n) buf = drop ((l - f) * ?n) buf"
      unfolding src_def sub(3) using True by (simp_all add: bslice_def add.commute flip: drop_drop)
    have "unat fin \<le> length ?B * ?n"
      using Suc.prems(10) mult_le_mono1 [OF Suc.prems(5), of ?n] by linarith
    then have "l * ?n + ?n + (length buf - ((l - f) * ?n + ?n)) \<le> length ?F"
      using True sub(1,2) Suc.prems(6,8) lF by simp
    then show ?thesis
      using copy_at_append [of "l * ?n" src "drop ((Suc l - f) * ?n) buf" ?F] src sub(3) by (simp add: add.commute)
  next
    case False
    have len: "Suc l * ?n \<le> length ?F"
      unfolding lF using l(1) Suc.prems(5) by (intro mult_le_mono1) simp
    have "drop ((Suc l - f) * ?n) buf = []" "src = drop ((l - f) * ?n) buf"
      unfolding src_def sub(3) using False by (simp_all add: bslice_def)
    then show ?thesis using len by (simp add: copy_at_Nil)
  qed
  with s'(1,3) q(3) same show ?case by auto
qed


lemma split_join_u64: "push_bit 32 (ucast (ucast (drop_bit 32 x) :: u32)) OR ucast (ucast x :: u32) = (x :: u64)"
  by (rule bit_word_eqI) (auto simp: bit_simps)

lemma inode_Size_set: "\<not> IsDir i \<Longrightarrow> inode_Size (set_size_blocks n bs i) = n"
  using split_join_u64 [of n] by (simp add: set_size_blocks_def Let_def inode_Size_def IsDir_def or.commute)

text \<open>What a successful write does to the inode.\<close>

definition written_inode :: "u32 \<Rightarrow> nat \<Rightarrow> u64 \<Rightarrow> Inode \<Rightarrow> Inode" where
  "written_inode now n bs i =
     (if unat (inode_Size i) < n then set_size_blocks (word_of_nat n) bs i else i)\<lparr>I_mtime := now, I_ctime := now\<rparr>"

lemma inode_Size_written:
  "IsRegular i \<Longrightarrow> n < 2 ^ 62 \<Longrightarrow> unat (inode_Size (written_inode now n bs i)) = max n (unat (inode_Size i))"
proof -
  assume r: "IsRegular i" and n: "n < 2 ^ 62"
  then have "\<not> IsDir i" by (simp add: IsRegular_def IsDir_def S_IFREG_def S_IFDIR_def)
  moreover have "inode_Size (j\<lparr>I_mtime := a, I_ctime := b\<rparr>) = inode_Size j" for j a b
    by (simp add: inode_Size_def IsDir_def)
  ultimately show ?thesis
    using n inode_Size_set [of i "word_of_nat n" bs]
    by (simp add: written_inode_def unat_of_nat take_bit_nat_eq_self)
qed

lemma WriteFileAt_dense:
  assumes "fs_ok s" and "IsRegular i" and "UsesExtents i" and "ReadExtents i s = (Ok exts, s)"
    and "dense 0 exts" and "distinct (ext_blocks exts)" and "blocks_on_disk s exts"
    and "buf \<noteq> []" and "bsz s dvd ofst" and "ofst + length buf \<le> length (ext_blocks exts) * bsz s"
  shows "\<exists>s'. WriteFileAt now buf (int ofst) (s, i) =
      (Ok (length buf), (s', written_inode now (ofst + length buf) (fs_BlockSize s) i)) \<and>
    file_bytes s' exts = copy_at ofst buf (file_bytes s exts) \<and> same_fs s exts s'"
proof -
  let ?n = "bsz s" and ?B = "ext_blocks exts"
  have n: "1024 \<le> ?n" using assms(1) by (simp add: fs_ok_def)
  have on: "\<forall>b \<in> set ?B. block_in s b" using assms(7) by (simp add: blocks_on_disk_def)
  have "length ?B * ?n = length (file_bytes s exts)"
    using length_concat_blk [OF on] by (simp add: file_bytes_dense [OF assms(5)])
  then have small: "length ?B * ?n < 2 ^ 62"
    using assms(7) length_file_bytes [OF on] unfolding blocks_on_disk_def by presburger
  define start fin where "start = u64i (int ofst)" and "fin = start + word_of_nat (length buf)"
  have st: "unat start = ofst"
    using assms(10) small by (simp add: start_def u64i_def unat_of_nat take_bit_nat_eq_self)
  have fin: "unat fin = ofst + length buf"
    unfolding fin_def using st assms(10) small
    by (intro trans [OF unat_add_u64]) (simp_all add: unat_of_nat take_bit_nat_eq_self)
  define f m where "f = ofst div ?n" and "m = Suc ((ofst + length buf - 1) div ?n)"
  have f: "unat (start div fs_BlockSize s) = f" "ofst = f * ?n"
    using st assms(9) by (simp_all add: f_def unat_div)
  have "unat (fin - 1) = ofst + length buf - 1"
    using fin assms(8) by (simp add: unat_sub_if' Suc_le_eq)
  then have m: "Suc (unat ((fin - 1) div fs_BlockSize s)) = m" by (simp add: m_def unat_div)
  have k: "k * ?n < ofst + length buf \<longleftrightarrow> k < m" for k
    using n assms(8) less_Suc_eq_le [of k "(ofst + length buf - 1) div ?n"]
      less_eq_div_iff_mult_less_eq [of ?n k "ofst + length buf - 1"]
    by (cases buf) (auto simp: m_def)
  have mB: "m \<le> length ?B" using k [of "length ?B"] assms(10) by (metis not_le)
  have fm: "ofst + length buf \<le> m * ?n" using k [of m] by simp
  obtain s' where s': "write_loop now exts buf start fin (fs_BlockSize s) (map word_of_nat [f..<m]) (s, i) = (Ok (), (s', i))"
      "same_fs s exts s'" "file_bytes s' exts = copy_at (f * ?n) (drop ((f - f) * ?n) buf) (file_bytes s exts)"
    using write_loop_ok [OF assms(1,5,6) on mB, of start f f fin buf now i] st fin f(2) k fm assms(10) small by auto
  have "fs_BlockSize s' = fs_BlockSize s" using s'(2) by (auto simp: same_fs_def)
  moreover have "fs_BlockSize s \<noteq> 0" using n by auto
  moreover have "(if fin > inode_Size i then set_size_blocks fin (fs_BlockSize s) i else i)\<lparr>I_mtime := now, I_ctime := now\<rparr>
      = written_inode now (ofst + length buf) (fs_BlockSize s) i"
    using fin by (simp add: written_inode_def word_less_nat_alt flip: fin)
  ultimately have "WriteFileAt now buf (int ofst) (s, i) =
      (Ok (length buf), (s', written_inode now (ofst + length buf) (fs_BlockSize s) i))"
    using assms(2-4,8) s'(1) m f(1)
    by (auto simp: WriteFileAt_def Let_def simp del: upt_Suc simp flip: start_def fin_def)
  then show ?thesis using s' f(2) by auto
qed




text \<open>A write whose offset is not a multiple of the block size panics as soon as its first
  block is mapped: the source index \<open>blockStart - start\<close> wraps around and the slice of the
  buffer is out of range.\<close>

theorem WriteFileAt_unaligned_panics:
  assumes "fs_ok s" and "IsRegular i" and "UsesExtents i" and "ReadExtents i s = (Ok exts, s)"
    and "findPhysicalBlock exts (word_of_nat (ofst div bsz s)) = Some b" and "block_in s b"
    and "buf \<noteq> []" and "\<not> bsz s dvd ofst" and "ofst + length buf < 2 ^ 62"
  shows "WriteFileAt now buf (int ofst) (s, i) = (Panic, (s, i))"
proof -
  let ?n = "bsz s" and ?bs = "fs_BlockSize s"
  define start fin where "start = u64i (int ofst)" and "fin = start + word_of_nat (length buf)"
  have n: "1024 \<le> ?n" "?n \<le> 65536" using assms(1) by (simp_all add: fs_ok_def)
  have st: "unat start = ofst"
    using assms(9) by (simp add: start_def u64i_def unat_of_nat take_bit_nat_eq_self)
  have fin: "unat fin = ofst + length buf"
    unfolding fin_def using st assms(9)
    by (intro trans [OF unat_add_u64]) (simp_all add: unat_of_nat take_bit_nat_eq_self)
  define w where "w = (word_of_nat (unat (start div ?bs)) :: u64)"
  have f: "unat (start div ?bs) = ofst div ?n" using st by (simp add: unat_div)
  have "w = start div ?bs" by (simp add: w_def)
  then have w: "unat w = ofst div ?n" using f by simp
  have "unat (fin - 1) = ofst + length buf - 1" using fin assms(7) by (simp add: unat_sub_if' Suc_le_eq)
  then have "ofst div ?n \<le> unat ((fin - 1) div ?bs)"
    using div_le_mono [of ofst "ofst + length buf - 1" ?n] assms(7) by (cases buf) (simp_all add: unat_div)
  then have ls: "map word_of_nat [unat (start div ?bs)..<Suc (unat ((fin - 1) div ?bs))] =
      w # map word_of_nat [Suc (unat (start div ?bs))..<Suc (unat ((fin - 1) div ?bs))]"
    unfolding w_def f by (simp add: upt_conv_Cons del: upt_Suc)
  define b0 where "b0 = w * ?bs"
  have b0: "unat b0 = ofst div ?n * ?n"
    unfolding b0_def using w assms(9) div_times_less_eq_dividend [of ofst ?n]
    by (intro trans [OF unat_mult_u64]) (simp_all del: div_times_less_eq_dividend)
  have lt: "ofst div ?n * ?n < ofst" "ofst < ofst div ?n * ?n + ?n"
  proof -
    have "0 < ofst mod ?n" using assms(8) by (simp add: dvd_eq_mod_eq_0)
    moreover have "ofst mod ?n < ?n" using n by (intro mod_less_divisor) simp
    ultimately show "ofst div ?n * ?n < ofst" "ofst < ofst div ?n * ?n + ?n"
      using div_mult_mod_eq [of ofst ?n] by linarith+
  qed
  then have "2 ^ 64 - 65536 \<le> unat (b0 - start)"
    using b0 st n by (simp add: unat_sub_if')
  then have src: "goslice (unat (b0 - start)) j buf = Panic" for j
    using assms(9) by (auto simp: goslice_def)
  have find: "findPhysicalBlock exts (ucast w) = Some b"
    using assms(5) w by (metis of_nat_unat)
  have "?bs \<noteq> 0" using n by auto
  moreover have "write_loop now exts buf start fin ?bs (w # ls') (s, i) = (Panic, (s, i))" for ls'
    using assms(1,6) find src by (auto simp: block_for_write_def Let_def simp flip: b0_def)
  ultimately show ?thesis
    using assms(2-4,7) ls
    by (auto simp: WriteFileAt_def Let_def simp del: upt_Suc simp flip: start_def fin_def)
qed

section \<open>Witnesses\<close>

definition sized_file :: Inode where
  "sized_file = example_file\<lparr>I_size_lo := 1500\<rparr>"

lemma sized_file_facts:
  "IsRegular sized_file" "UsesExtents sized_file" "inode_Size sized_file = 1500"
  "ReadExtents sized_file (example_fs 256) = (Ok [example_extent], example_fs 256)"
proof -
  show u: "UsesExtents sized_file" using example_files(3) by (simp add: sized_file_def UsesExtents_def)
  show "IsRegular sized_file" "inode_Size sized_file = 1500"
    by (simp_all add: sized_file_def example_file_def example_inode_def IsRegular_def inode_Size_def IsDir_def
        S_IFREG_def S_IFDIR_def ifmt_def inode_decode_def)
  show "ReadExtents sized_file (example_fs 256) = (Ok [example_extent], example_fs 256)"
    using parse_sound(1) [OF example_fs_ok example_file_tree, of max_depth] u
    by (simp add: ReadExtents_def max_depth_def sized_file_def)
qed

lemma example_extent_facts:
  "ext_blocks [example_extent] = [9, 10]" "dense 0 [example_extent]" "blocks_on_disk (example_fs 256) [example_extent]"
proof -
  show b: "ext_blocks [example_extent] = [9, 10]" and "dense 0 [example_extent]"
    by (simp_all add: ext_blocks_def example_extent_def ext_uninit_def ext_count_def ext_start_def block_run_def
        upt_rec)
  show "blocks_on_disk (example_fs 256) [example_extent]"
    using example_fs_dev(2) [of 256]
    by (simp add: blocks_on_disk_def b block_in_def) (simp add: example_extent_def ext_count_def)
qed


theorem ReadFile_contents_witness:
  "ReadFile sized_file (example_fs 256) =
    (Ok (filled 1500 (blk (example_fs 256) 9 @ blk (example_fs 256) 10)), example_fs 256)"
  using ReadFile_contents [OF example_fs_ok sized_file_facts(1,2,4) example_extent_facts(3)]
  by (simp add: sized_file_facts(3) file_bytes_dense [OF example_extent_facts(2)] example_extent_facts(1))



theorem WriteFileAt_unaligned_panics_witness:
  "WriteFileAt 7 [1, 2, 3] 10 (example_fs 256, sized_file) = (Panic, (example_fs 256, sized_file))"
proof -
  have "findPhysicalBlock [example_extent] 0 = Some 9"
    by (simp add: example_extent_def ext_uninit_def ext_count_def ext_start_def)
  moreover have "block_in (example_fs 256) 9"
    using example_extent_facts(1,3) by (simp add: blocks_on_disk_def)
  ultimately show ?thesis
    using WriteFileAt_unaligned_panics [OF example_fs_ok sized_file_facts(1,2,4), of 10 9 "[1, 2, 3]" 7] by simp
qed

end
