(* ===== verification/Dir_Props.thy ===== *)
theory Dir_Props
  imports Directory File_Props
begin

text \<open>
  Correctness of the directory operations. A directory block is a sequence of raw records that
  fill it (\<open>raws\<close>); the operations on blocks are shown to act on that sequence: parsing returns the
  used records, adding splits one record in two, removing clears one and lets the one
  before it take its place.
\<close>

section \<open>Blocks as sequences of records\<close>

record rawent =
  re_ino :: u32
  re_nlen :: u8
  re_type :: u8
  re_rest :: bytes

definition raw_len :: "rawent \<Rightarrow> nat" where
  "raw_len r = 8 + length (re_rest r)"

definition raw_bytes :: "rawent \<Rightarrow> bytes" where
  "raw_bytes r = entry_header (re_ino r) (word_of_nat (raw_len r)) (re_nlen r) (re_type r) @ re_rest r"

definition raw_ok :: "rawent \<Rightarrow> bool" where
  "raw_ok r \<longleftrightarrow> unat (re_nlen r) \<le> length (re_rest r) \<and> raw_len r < 65536"

definition used :: "rawent \<Rightarrow> bool" where
  "used r \<longleftrightarrow> re_ino r \<noteq> 0 \<and> 0 < re_nlen r"

definition raw_entry :: "rawent \<Rightarrow> DirEntry2" where
  "raw_entry r = \<lparr>de_Inode = re_ino r, de_RecLen = word_of_nat (raw_len r), de_NameLen = re_nlen r,
     de_FileType = re_type r, de_Name = take (unat (re_nlen r)) (re_rest r)\<rparr>"

definition raws :: "rawent list \<Rightarrow> bytes" where
  "raws rs = concat (map raw_bytes rs)"

definition raw_entries :: "rawent list \<Rightarrow> DirEntry2 list" where
  "raw_entries rs = map raw_entry (filter used rs)"

lemma length_entry_header [simp]: "length (entry_header a b c d) = 8"
  by (simp add: entry_header_def)

lemma length_raw_bytes [simp]: "length (raw_bytes r) = raw_len r"
  by (simp add: raw_bytes_def raw_len_def)

lemma raws_simps [simp]: "raws [] = []" "raws (r # rs) = raw_bytes r @ raws rs" "raws (rs @ rs') = raws rs @ raws rs'"
  by (simp_all add: raws_def)

lemma raw_entries_simps [simp]:
  "raw_entries [] = []" "raw_entries (rs @ rs') = raw_entries rs @ raw_entries rs'"
  "raw_entries (r # rs) = (if used r then [raw_entry r] else []) @ raw_entries rs"
  by (simp_all add: raw_entries_def)

lemma unat_raw_len: "raw_ok r \<Longrightarrow> unat (word_of_nat (raw_len r) :: u16) = raw_len r"
  by (simp add: raw_ok_def unat_of_nat take_bit_nat_eq_self)

lemma header_fields:
  assumes "buf = pre @ entry_header a b c d @ post"
  shows "get32 (length pre) buf = a" "get16 (length pre + 4) buf = b" "buf ! (length pre + 6) = c"
    "buf ! (length pre + 7) = d"
proof -
  show "get32 (length pre) buf = a" "get16 (length pre + 4) buf = b"
    unfolding assms entry_header_def by (simp_all add: bytes_simps)
  have "(put32 a @ put16 b @ [c, d] @ post) ! 6 = c" "(put32 a @ put16 b @ [c, d] @ post) ! 7 = d"
    by (simp_all add: nth_append)
  then show "buf ! (length pre + 6) = c" "buf ! (length pre + 7) = d"
    unfolding assms entry_header_def by (simp_all add: nth_append)
qed

lemma entry_at_raw:
  assumes "raw_ok r"
  shows "entry_at (pre @ raw_bytes r @ post) (length pre) = raw_entry r"
proof -
  let ?buf = "pre @ raw_bytes r @ post"
  have "?buf = pre @ entry_header (re_ino r) (word_of_nat (raw_len r)) (re_nlen r) (re_type r) @ (re_rest r @ post)"
    by (simp add: raw_bytes_def)
  note h = header_fields [OF this]
  have "bslice (length pre + 8) (length pre + 8 + unat (re_nlen r)) ?buf = take (unat (re_nlen r)) (re_rest r)"
    using assms by (simp add: bslice_def raw_bytes_def raw_ok_def)
  with h show ?thesis by (simp add: entry_at_def raw_entry_def)
qed

lemma entry_at_fields:
  "de_RecLen (entry_at buf off) = get16 (off + 4) buf" "de_NameLen (entry_at buf off) = buf ! (off + 6)"
  by (simp_all add: entry_at_def)

lemma raw_len_nonzero: "raw_ok r \<Longrightarrow> (word_of_nat (raw_len r) :: u16) \<noteq> 0"
proof
  assume "raw_ok r" "(word_of_nat (raw_len r) :: u16) = 0"
  then show False using unat_raw_len [of r] by (simp add: raw_len_def)
qed

lemma parse_dir_raws:
  assumes "\<forall>r \<in> set rs. raw_ok r"
  shows "parse_dir (pre @ raws rs) (length pre) = Ok (raw_entries rs)"
  using assms
proof (induction rs arbitrary: pre)
  case Nil
  show ?case by (subst parse_dir.simps) simp
next
  case (Cons r rs)
  let ?buf = "pre @ raws (r # rs)"
  have r: "raw_ok r" using Cons.prems by simp
  have e: "entry_at ?buf (length pre) = raw_entry r" using entry_at_raw [OF r] by simp
  then have len: "get16 (length pre + 4) ?buf = word_of_nat (raw_len r)"
    using entry_at_fields(1) [of ?buf "length pre"] by (simp add: raw_entry_def)
  have "parse_dir ((pre @ raw_bytes r) @ raws rs) (length (pre @ raw_bytes r)) = Ok (raw_entries rs)"
    using Cons.IH [of "pre @ raw_bytes r"] Cons.prems by simp
  then have "parse_dir ?buf (length pre + unat (get16 (length pre + 4) ?buf)) = Ok (raw_entries rs)"
    using len unat_raw_len [OF r] by simp
  moreover have "parse_entry m0 m1 ?buf (length pre) = Ok (if used r then [raw_entry r] else [])" for m0 m1
    using r raw_len_nonzero [OF r] unfolding parse_entry_def e Let_def
    by (auto simp: raw_entry_def used_def raw_ok_def raw_len_def)
  moreover have "length pre + 8 \<le> length ?buf" by (simp add: raw_len_def)
  ultimately show ?case
    using len raw_len_nonzero [OF r] by (subst parse_dir.simps) simp
qed

lemma parseDirBlock_raws: "\<forall>r \<in> set rs. raw_ok r \<Longrightarrow> parseDirBlock (raws rs) = Ok (raw_entries rs)"
  using parse_dir_raws [of rs "[]"] by (simp add: parseDirBlock_def)


section \<open>Adding a record\<close>

definition min_rec :: "nat \<Rightarrow> nat" where
  "min_rec n = (11 + n) div 4 * 4"

lemma min_rec_bounds: "8 + n \<le> min_rec n" "min_rec n \<le> 11 + n"
  by (simp_all add: min_rec_def)

lemma unat_minDirRecLen: "n < 65000 \<Longrightarrow> unat (minDirRecLen n) = min_rec n"
proof -
  assume "n < 65000"
  then have "min_rec n < 2 ^ 16" using min_rec_bounds(2) [of n] by simp
  moreover have "(8 + n + 3) div 4 * 4 = min_rec n" by (simp add: min_rec_def add.commute)
  ultimately show ?thesis by (simp add: minDirRecLen_def unat_of_nat take_bit_nat_eq_self)
qed

lemma unat_minDirRecLen_u8: "unat (minDirRecLen (unat (n :: u8))) = min_rec (unat n)"
  using unat_bounds(1) [of n] by (intro unat_minDirRecLen) simp

definition has_room :: "u16 \<Rightarrow> rawent \<Rightarrow> bool" where
  "has_room needed r \<longleftrightarrow> min_rec (unat (re_nlen r)) + unat needed \<le> raw_len r"

lemma record_header:
  assumes "raw_ok r"
  shows "get16 (length pre + 4) (pre @ raw_bytes r @ post) = word_of_nat (raw_len r)"
    "(pre @ raw_bytes r @ post) ! (length pre + 6) = re_nlen r"
  using entry_at_raw [OF assms, of pre post] entry_at_fields [of "pre @ raw_bytes r @ post" "length pre"]
  by (simp_all add: raw_entry_def)

lemma find_slack_raws:
  assumes "\<forall>r \<in> set rs. raw_ok r"
  shows "find_slack (pre @ raws rs) needed (length pre) =
    (if \<exists>r \<in> set rs. has_room needed r
     then Some (length pre + length (raws (takeWhile (\<lambda>r. \<not> has_room needed r) rs))) else None)"
  using assms
proof (induction rs arbitrary: pre)
  case Nil
  show ?case by (subst find_slack.simps) simp
next
  case (Cons r rs)
  let ?buf = "pre @ raw_bytes r @ raws rs"
  have r: "raw_ok r" using Cons.prems by simp
  note h = record_header [OF r, of pre "raws rs"]
  have room: "(int (unat (word_of_nat (raw_len r) :: u16)) - int (unat (minDirRecLen (unat (re_nlen r)))) \<ge> int (unat needed))
      = has_room needed r"
    unfolding unat_raw_len [OF r] unat_minDirRecLen_u8 has_room_def by linarith
  have "find_slack ?buf needed (length pre) =
      (if has_room needed r then Some (length pre) else find_slack ?buf needed (length pre + raw_len r))"
    using raw_len_nonzero [OF r] unat_raw_len [OF r] room
    by (subst find_slack.simps) (simp only: h Let_def, simp add: raw_len_def)
  moreover have "find_slack ?buf needed (length pre + raw_len r) =
      (if \<exists>r \<in> set rs. has_room needed r
       then Some (length pre + raw_len r + length (raws (takeWhile (\<lambda>r. \<not> has_room needed r) rs))) else None)"
    using Cons.IH [of "pre @ raw_bytes r"] Cons.prems by simp
  ultimately show ?case by simp
qed

lemma copy_at_mid: "off = length x \<Longrightarrow> length y = length z \<Longrightarrow> copy_at off y (x @ z @ w) = x @ y @ w"
  by (simp add: copy_at_def)

text \<open>The two records that take the place of \<open>r\<close>.\<close>

definition shrunk :: "rawent \<Rightarrow> rawent" where
  "shrunk r = r\<lparr>re_rest := take (min_rec (unat (re_nlen r)) - 8) (re_rest r)\<rparr>"

definition carved :: "rawent \<Rightarrow> u32 \<Rightarrow> u8 \<Rightarrow> bytes \<Rightarrow> rawent" where
  "carved r child ft name = \<lparr>re_ino = child, re_nlen = word_of_nat (length name), re_type = ft,
     re_rest = name @ drop (min_rec (unat (re_nlen r)) + length name) (re_rest r)\<rparr>"

lemma carved_room:
  assumes "raw_ok r" and "has_room (minDirRecLen (length name)) r" and "length name \<le> 255"
  shows "min_rec (unat (re_nlen r)) + 8 + length name \<le> raw_len r"
  using assms(2) min_rec_bounds(1) [of "length name"] assms(3)
  by (simp add: has_room_def unat_minDirRecLen)

lemma split_lengths:
  assumes "raw_ok r" and "has_room (minDirRecLen (length name)) r" and "length name \<le> 255"
  shows "raw_len (shrunk r) = min_rec (unat (re_nlen r))"
    and "raw_len (carved r child ft name) = raw_len r - min_rec (unat (re_nlen r))"
  using carved_room [OF assms] min_rec_bounds(1) [of "unat (re_nlen r)"]
  by (simp_all add: shrunk_def carved_def raw_len_def)

lemma split_record_raws:
  assumes "raw_ok r" and "has_room (minDirRecLen (length name)) r" and "length name \<le> 255"
    and "buf = pre @ raw_bytes r @ post" and "length buf < 65536"
  shows "split_record buf (length pre) child ft name =
    Ok (pre @ raw_bytes (shrunk r) @ raw_bytes (carved r child ft name) @ post)"
proof -
  define m where "m = min_rec (unat (re_nlen r))"
  note room = carved_room [OF assms(1-3), folded m_def]
  have m8: "8 \<le> m" using min_rec_bounds(1) [of "unat (re_nlen r)"] by (simp add: m_def)
  define A H N P where "A = take (m - 8) (re_rest r)" and "H = take 8 (drop (m - 8) (re_rest r))"
    and "N = take (length name) (drop m (re_rest r))" and "P = drop (m + length name) (re_rest r)"
  have len: "length A = m - 8" "length H = 8" "length N = length name"
    using room m8 by (simp_all add: A_def H_def N_def raw_len_def)
  have "drop m (re_rest r) = N @ P"
    using append_take_drop_id [of "length name" "drop m (re_rest r)"] by (simp add: N_def P_def add.commute)
  moreover have "drop (m - 8) (re_rest r) = H @ drop m (re_rest r)"
    using m8 by (simp add: H_def) (metis append_take_drop_id drop_drop le_add_diff_inverse add.commute)
  ultimately have rest: "re_rest r = A @ H @ N @ P"
    by (metis A_def append_take_drop_id)
  define tm where "tm = minDirRecLen (unat (re_nlen r))"
  have tm: "unat tm = m" "tm = word_of_nat m"
    using unat_minDirRecLen_u8 [of "re_nlen r"] by (simp_all add: tm_def m_def) (metis of_nat_unat ucast_id)
  have new: "(if word_of_nat (length pre) + (word_of_nat (raw_len r) :: u16) = word_of_nat (length buf)
      then word_of_int (int (length buf) - int (length pre + m)) else word_of_nat (raw_len r) - tm) =
      (word_of_nat (raw_len r - m) :: u16)"
  proof -
    have "length pre + raw_len r \<le> length buf" using assms(4) by simp
    then have "length pre + raw_len r = length buf"
      if "word_of_nat (length pre) + (word_of_nat (raw_len r) :: u16) = word_of_nat (length buf)"
      using arg_cong [OF that [folded of_nat_add], of unat] assms(5)
      by (simp add: unat_of_nat take_bit_nat_eq_self del: of_nat_add)
    moreover have "(word_of_int (int n) :: u16) = word_of_nat n" for n by simp
    ultimately show ?thesis
      using room by (auto simp: of_nat_diff diff_eq_eq add.commute tm(2))
  qed
  define hdr where "hdr = entry_header child (word_of_nat (raw_len r - m)) (word_of_nat (length name)) ft"
  have buf: "buf = (pre @ put32 (re_ino r)) @ put16 (word_of_nat (raw_len r)) @ [re_nlen r, re_type r] @ A @ H @ N @ P @ post"
    using assms(4) rest by (simp add: raw_bytes_def entry_header_def)
  have c1: "copy_at (length pre + 4) (put16 tm) buf =
      (pre @ raw_bytes (shrunk r)) @ H @ N @ P @ post"
  proof -
    have "tm = word_of_nat (raw_len (shrunk r))"
      unfolding split_lengths(1) [OF assms(1-3)] using tm(2) by (simp add: m_def)
    moreover have "copy_at (length pre + 4) (put16 tm) buf =
        (pre @ put32 (re_ino r)) @ put16 tm @ [re_nlen r, re_type r] @ A @ H @ N @ P @ post"
      unfolding buf by (rule copy_at_mid) simp_all
    ultimately show ?thesis by (simp add: raw_bytes_def entry_header_def shrunk_def A_def m_def)
  qed
  have l1: "length (pre @ raw_bytes (shrunk r)) = length pre + m"
    using split_lengths(1) [OF assms(1-3)] by (simp add: m_def)
  have c2: "copy_at (length pre + m) hdr ((pre @ raw_bytes (shrunk r)) @ H @ N @ P @ post) =
      ((pre @ raw_bytes (shrunk r)) @ hdr) @ N @ P @ post"
    using copy_at_mid [OF l1 [symmetric], of hdr H] len by (simp add: hdr_def)
  have c3: "copy_at (length pre + m + 8) name (((pre @ raw_bytes (shrunk r)) @ hdr) @ N @ P @ post) =
      ((pre @ raw_bytes (shrunk r)) @ hdr) @ name @ P @ post"
    by (rule copy_at_mid) (use l1 len in \<open>simp_all add: hdr_def\<close>)
  have le: "length pre + m + 8 \<le> length buf" using assms(4) room by simp
  have h: "get16 (length pre + 4) buf = word_of_nat (raw_len r)" "buf ! (length pre + 6) = re_nlen r"
    using record_header [OF assms(1)] assms(4) by simp_all
  have "split_record buf (length pre) child ft name =
      Ok (copy_at (length pre + m + 8) name (copy_at (length pre + m) hdr (copy_at (length pre + 4) (put16 tm) buf)))"
    unfolding split_record_def Let_def h tm_def [symmetric] tm(1) new hdr_def dirEntryHeaderSize_def
    using le by simp
  moreover have "hdr @ name @ P = raw_bytes (carved r child ft name)"
    using split_lengths(2) [OF assms(1-3)] by (simp add: raw_bytes_def hdr_def m_def carved_def P_def)
  ultimately show ?thesis unfolding c1 c2 c3 by (metis append_assoc)
qed

lemma raw_ok_split:
  assumes "raw_ok r" and "has_room (minDirRecLen (length name)) r" and "length name \<le> 255"
  shows "raw_ok (shrunk r)" and "raw_ok (carved r child ft name)"
proof -
  have "unat (word_of_nat (length name) :: u8) = length name"
    using assms(3) by (simp add: unat_of_nat take_bit_nat_eq_self)
  then show "raw_ok (carved r child ft name)"
    using split_lengths(2) [OF assms, of child ft] assms(1)
    by (simp add: raw_ok_def less_imp_diff_less) (simp add: carved_def)
  show "raw_ok (shrunk r)"
    using split_lengths(1) [OF assms] carved_room [OF assms] min_rec_bounds(1) [of "unat (re_nlen r)"] assms(1)
    by (simp add: raw_ok_def) (simp add: shrunk_def raw_len_def)
qed

text \<open>What a directory entry means to its readers.\<close>

definition de_key :: "DirEntry2 \<Rightarrow> bytes \<times> u32 \<times> u8" where
  "de_key e = (de_Name e, de_Inode e, de_FileType e)"

lemma keys_split:
  assumes "raw_ok r" and "has_room (minDirRecLen (length name)) r" and "length name \<le> 255"
    and "name \<noteq> []" and "child \<noteq> 0"
  shows "map de_key (raw_entries [shrunk r, carved r child ft name]) =
    map de_key (raw_entries [r]) @ [(name, child, ft)]"
proof -
  have n: "unat (word_of_nat (length name) :: u8) = length name"
    using assms(3) by (simp add: unat_of_nat take_bit_nat_eq_self)
  then have "used (carved r child ft name)"
    using assms(4,5) by (simp add: used_def carved_def word_less_nat_alt)
  moreover have "de_key (raw_entry (carved r child ft name)) = (name, child, ft)"
    using n by (simp add: de_key_def raw_entry_def carved_def)
  moreover have "used (shrunk r) = used r" by (simp add: used_def shrunk_def)
  moreover have "de_key (raw_entry (shrunk r)) = de_key (raw_entry r)"
  proof -
    have "unat (re_nlen r) \<le> min_rec (unat (re_nlen r)) - 8"
      using min_rec_bounds(1) [of "unat (re_nlen r)"] by linarith
    then show ?thesis by (simp add: de_key_def raw_entry_def shrunk_def min_absorb1)
  qed
  ultimately show ?thesis by simp
qed

text \<open>A block with room for the name: the block after the record has been split.\<close>

lemma add_in_raws:
  assumes "\<forall>r \<in> set rs. raw_ok r" and "\<exists>r \<in> set rs. has_room (minDirRecLen (length name)) r"
    and "length name \<le> 255" and "length (raws rs) < 65536" and "name \<noteq> []" and "child \<noteq> 0"
  shows "\<exists>off rs' xs ys. find_slack (raws rs) (minDirRecLen (length name)) 0 = Some off \<and>
    split_record (raws rs) off child ft name = Ok (raws rs') \<and> length (raws rs') = length (raws rs) \<and>
    (\<forall>r \<in> set rs'. raw_ok r) \<and> map de_key (raw_entries rs) = xs @ ys \<and>
    map de_key (raw_entries rs') = xs @ [(name, child, ft)] @ ys"
proof -
  let ?no = "\<lambda>r. \<not> has_room (minDirRecLen (length name)) r"
  define a where "a = takeWhile ?no rs"
  obtain r b where rb: "dropWhile ?no rs = r # b" using assms(2) by (cases "dropWhile ?no rs") auto
  then have rs: "rs = a @ r # b" by (metis a_def takeWhile_dropWhile_id)
  have r: "has_room (minDirRecLen (length name)) r" using hd_dropWhile [of ?no rs] rb by simp
  moreover have "raw_ok r" using assms(1) rs by simp
  ultimately have r: "has_room (minDirRecLen (length name)) r" "raw_ok r" by simp_all
  let ?rs' = "a @ [shrunk r, carved r child ft name] @ b"
  have "find_slack (raws rs) (minDirRecLen (length name)) 0 = Some (length (raws a))"
    using find_slack_raws [of rs "[]" "minDirRecLen (length name)"] assms(1,2) by (simp add: a_def)
  moreover have "split_record (raws rs) (length (raws a)) child ft name = Ok (raws ?rs')"
    using split_record_raws [OF r(2,1) assms(3), of "raws rs" "raws a" "raws b"] assms(4) rs by simp
  moreover have "length (raws ?rs') = length (raws rs)"
    using split_lengths(1) [OF r(2,1) assms(3)] split_lengths(2) [OF r(2,1) assms(3), of child ft] carved_room [OF r(2,1) assms(3)] by (simp add: rs)
  moreover have "\<forall>x \<in> set ?rs'. raw_ok x" using raw_ok_split [OF r(2,1) assms(3)] assms(1) rs by auto
  moreover have "map de_key (raw_entries ?rs') =
      map de_key (raw_entries (a @ [r])) @ [(name, child, ft)] @ map de_key (raw_entries b)"
    unfolding raw_entries_simps(2) map_append keys_split [OF r(2,1) assms(3,5,6), of ft] by simp
  moreover have "map de_key (raw_entries rs) = map de_key (raw_entries (a @ [r])) @ map de_key (raw_entries b)"
    by (simp add: rs)
  ultimately show ?thesis by blast
qed


section \<open>Removing a record\<close>

definition matches :: "bytes \<Rightarrow> rawent \<Rightarrow> bool" where
  "matches name r \<longleftrightarrow> used r \<and> take (unat (re_nlen r)) (re_rest r) = name"

definition last_pos :: "nat \<Rightarrow> nat \<Rightarrow> rawent list \<Rightarrow> nat" where
  "last_pos prev off rs = (if rs = [] then prev else off + length (raws (butlast rs)))"

lemma last_pos_Cons: "last_pos off (off + raw_len r) rs = last_pos prev off (r # rs)"
  by (simp add: last_pos_def)

lemma find_record_raws:
  assumes "\<forall>r \<in> set rs. raw_ok r"
  shows "find_record (pre @ raws rs) name prev (length pre) =
    (if \<exists>r \<in> set rs. matches name r
     then (let a = takeWhile (\<lambda>r. \<not> matches name r) rs
           in Some (last_pos prev (length pre) a, length pre + length (raws a))) else None)"
  using assms
proof (induction rs arbitrary: pre prev)
  case Nil
  show ?case by (subst find_record.simps) simp
next
  case (Cons r rs)
  let ?buf = "pre @ raw_bytes r @ raws rs"
  have r: "raw_ok r" using Cons.prems by simp
  have m: "(de_Inode (raw_entry r) \<noteq> 0 \<and> de_NameLen (raw_entry r) > 0 \<and>
      length pre + 8 + unat (de_NameLen (raw_entry r)) \<le> length ?buf \<and> de_Name (raw_entry r) = name) = matches name r"
    using r by (auto simp: raw_entry_def matches_def used_def raw_ok_def raw_len_def)
  have l: "de_RecLen (raw_entry r) = word_of_nat (raw_len r)" by (simp add: raw_entry_def)
  have "find_record ?buf name prev (length pre) =
      (if matches name r then Some (prev, length pre)
       else find_record ?buf name (length pre) (length pre + raw_len r))"
    using raw_len_nonzero [OF r] unat_raw_len [OF r] m
    by (subst find_record.simps) (simp only: entry_at_raw [OF r] Let_def l dirEntryHeaderSize_def, simp add: raw_len_def)
  moreover have "find_record ?buf name (length pre) (length pre + raw_len r) =
      (if \<exists>r \<in> set rs. matches name r
       then (let a = takeWhile (\<lambda>r. \<not> matches name r) rs
             in Some (last_pos (length pre) (length pre + raw_len r) a, length pre + raw_len r + length (raws a))) else None)"
    using Cons.IH [of "pre @ raw_bytes r" "length pre"] Cons.prems by simp
  ultimately show ?case by (simp add: last_pos_Cons [of _ _ _ prev] Let_def) (simp add: last_pos_def)
qed

definition cleared :: "rawent \<Rightarrow> rawent" where
  "cleared r = r\<lparr>re_ino := 0\<rparr>"

definition absorbed :: "rawent \<Rightarrow> rawent \<Rightarrow> rawent" where
  "absorbed p r = p\<lparr>re_rest := re_rest p @ raw_bytes (cleared r)\<rparr>"

lemma raw_len_cleared [simp]: "raw_len (cleared r) = raw_len r"
  by (simp add: raw_len_def cleared_def)

lemma raw_len_absorbed [simp]: "raw_len (absorbed p r) = raw_len p + raw_len r"
  unfolding raw_len_def [of "absorbed p r"] raw_len_def [of p] by (simp add: absorbed_def)

lemma erase_first:
  assumes "raw_ok r"
  shows "copy_at (length pre) (put32 0) (pre @ raw_bytes r @ post) = pre @ raw_bytes (cleared r) @ post"
  using copy_at_mid [of "length pre" pre "put32 0" "put32 (re_ino r)"
      "put16 (word_of_nat (raw_len r)) @ [re_nlen r, re_type r] @ re_rest r @ post"] raw_len_cleared [of r]
  by (simp add: raw_bytes_def entry_header_def) (simp add: cleared_def)

lemma erase_record_raws:
  assumes "\<forall>x \<in> set (a @ r # b). raw_ok x" and "length (raws (a @ r # b)) < 65536"
  shows "\<exists>rs'. erase_record (raws (a @ r # b)) (last_pos 0 0 a) (length (raws a)) = raws rs' \<and>
    length (raws rs') = length (raws (a @ r # b)) \<and> (\<forall>x \<in> set rs'. raw_ok x) \<and>
    map de_key (raw_entries rs') = map de_key (raw_entries (a @ b))"
proof (cases "\<exists>p q. a = q @ [p] \<and> q \<noteq> []")
  case False
  let ?rs = "a @ cleared r # b"
  have r: "raw_ok r" using assms(1) by simp
  have "last_pos 0 0 a = 0"
    using False by (cases a rule: rev_cases) (auto simp: last_pos_def)
  then have "erase_record (raws (a @ r # b)) (last_pos 0 0 a) (length (raws a)) = raws ?rs"
    using erase_first [OF r, of "raws a" "raws b"] by (simp add: erase_record_def Let_def)
  moreover have "\<forall>x \<in> set ?rs. raw_ok x"
    using assms(1) by (auto simp: raw_ok_def) (simp_all add: cleared_def)
  moreover have "\<not> used (cleared r)" by (simp add: used_def cleared_def)
  ultimately show ?thesis by (intro exI [of _ ?rs]) simp
next
  case True
  then obtain p q where a: "a = q @ [p]" "q \<noteq> []" by blast
  let ?rs = "q @ absorbed p r # b" and ?off = "length (raws (q @ [p]))"
  have r: "raw_ok r" "raw_ok p" using assms(1) a by simp_all
  have last: "last_pos 0 0 a = length (raws q)" by (simp add: a last_pos_def)
  have pos: "0 < length (raws q)" using a(2) by (cases q) (simp_all add: raw_len_def)
  have len: "get16 (?off + 4) (raws (a @ r # b)) = word_of_nat (raw_len r)"
    using record_header(1) [OF r(1), of "raws (q @ [p])" "raws b"] by (simp add: a)
  have n: "?off + unat (word_of_nat (raw_len r) :: u16) - length (raws q) = raw_len (absorbed p r)"
    using unat_raw_len [OF r(1)] by simp
  have "copy_at ?off (put32 0) (raws (a @ r # b)) = raws (q @ [p]) @ raw_bytes (cleared r) @ raws b"
    using erase_first [OF r(1), of "raws (q @ [p])" "raws b"] by (simp add: a)
  moreover have "copy_at (length (raws q) + 4) (put16 (word_of_nat (raw_len (absorbed p r))))
      (raws (q @ [p]) @ raw_bytes (cleared r) @ raws b) = raws ?rs"
    using copy_at_mid [of "length (raws q) + 4" "raws q @ put32 (re_ino p)"
        "put16 (word_of_nat (raw_len (absorbed p r)))" "put16 (word_of_nat (raw_len p))"
        "[re_nlen p, re_type p] @ re_rest p @ raw_bytes (cleared r) @ raws b"]
    by (simp add: raw_bytes_def [of p] raw_bytes_def [of "absorbed p r"] entry_header_def del: raw_len_absorbed)
       (simp add: absorbed_def)
  ultimately have "erase_record (raws (a @ r # b)) (last_pos 0 0 a) (length (raws a)) = raws ?rs"
    unfolding erase_record_def Let_def last using pos len n by (simp add: a)
  moreover have "length (raws ?rs) = length (raws (a @ r # b))" by (simp add: a)
  moreover have "raw_ok (absorbed p r)"
    using assms(2) r(2) a by (simp add: raw_ok_def) (simp add: absorbed_def)
  then have "\<forall>x \<in> set ?rs. raw_ok x" using assms(1) a by auto
  moreover have "used (absorbed p r) = used p" "de_key (raw_entry (absorbed p r)) = de_key (raw_entry p)"
    using r(2) by (simp_all add: used_def absorbed_def de_key_def raw_entry_def raw_ok_def)
  then have "map de_key (raw_entries ?rs) = map de_key (raw_entries (a @ b))" by (simp add: a)
  ultimately show ?thesis by blast
qed

end
