(* ===== verification/Dir_Map.thy ===== *)
theory Dir_Map
  imports Dir_Props
begin

text \<open>
  A directory as a map from names to inode numbers and file types. The locale \<open>directory\<close> is
  the contract that the operations of \<open>vfs/directory.go\<close> and \<open>vfs/dirent.go\<close> keep; it is
  interpreted on \<open>Lookup\<close>, \<open>AddDirEntry\<close> and \<open>RemoveDirEntry\<close> over a file system and the inode of a
  directory whose root extent node is a leaf.
\<close>

section \<open>The contract\<close>

locale directory =
  fixes inv :: "'s \<Rightarrow> bool"
    and abs :: "'s \<Rightarrow> 'k \<Rightarrow> 'v option"
    and look :: "'k \<Rightarrow> ('s, 'n) op"
    and num :: "'v \<Rightarrow> 'n"
    and add :: "'k \<Rightarrow> 'v \<Rightarrow> ('s, unit) op"
    and remove :: "'k \<Rightarrow> ('s, unit) op"
    and room :: "'s \<Rightarrow> 'k \<Rightarrow> bool"
    and valid :: "'k \<Rightarrow> 'v \<Rightarrow> bool"
    and missing :: goerr
  assumes look_law: "inv s \<Longrightarrow> \<exists>s'. look k s = (case abs s k of Some v \<Rightarrow> Ok (num v) | None \<Rightarrow> Err missing, s') \<and>
      inv s' \<and> abs s' = abs s"
    and add_law: "inv s \<Longrightarrow> abs s k = None \<Longrightarrow> room s k \<Longrightarrow> valid k v \<Longrightarrow>
      \<exists>s'. add k v s = (Ok (), s') \<and> inv s' \<and> abs s' = (abs s)(k \<mapsto> v)"
    and add_twice: "inv s \<Longrightarrow> abs s k \<noteq> None \<Longrightarrow> \<exists>e s'. add k v s = (Err e, s') \<and> inv s' \<and> abs s' = abs s"
    and remove_law: "inv s \<Longrightarrow> abs s k \<noteq> None \<Longrightarrow>
      \<exists>s'. remove k s = (Ok (), s') \<and> inv s' \<and> abs s' = (abs s)(k := None)"
    and remove_missing: "inv s \<Longrightarrow> abs s k = None \<Longrightarrow>
      \<exists>s'. remove k s = (Err missing, s') \<and> inv s' \<and> abs s' = abs s"
begin

lemma add_look:
  assumes "inv s" and "abs s k = None" and "room s k" and "valid k v"
  shows "\<exists>s1 s2. add k v s = (Ok (), s1) \<and> look k s1 = (Ok (num v), s2) \<and> inv s2 \<and> abs s2 = (abs s)(k \<mapsto> v)"
proof -
  obtain s1 where s1: "add k v s = (Ok (), s1)" "inv s1" "abs s1 = (abs s)(k \<mapsto> v)"
    using add_law [OF assms] by blast
  then show ?thesis using look_law [OF s1(2), of k] by auto
qed

lemma add_remove:
  assumes "inv s" and "abs s k = None" and "room s k" and "valid k v"
  shows "\<exists>s1 s2. add k v s = (Ok (), s1) \<and> remove k s1 = (Ok (), s2) \<and> inv s2 \<and> abs s2 = abs s"
proof -
  obtain s1 where s1: "add k v s = (Ok (), s1)" "inv s1" "abs s1 = (abs s)(k \<mapsto> v)"
    using add_law [OF assms] by blast
  then obtain s2 where "remove k s1 = (Ok (), s2)" "inv s2" "abs s2 = (abs s1)(k := None)"
    using remove_law [OF s1(2), of k] by auto
  with s1 assms(2) show ?thesis by (metis fun_upd_idem fun_upd_upd)
qed

lemma remove_look:
  assumes "inv s" and "abs s k \<noteq> None"
  shows "\<exists>s1 s2. remove k s = (Ok (), s1) \<and> look k s1 = (Err missing, s2) \<and> inv s2 \<and> abs s2 = (abs s)(k := None)"
proof -
  obtain s1 where s1: "remove k s = (Ok (), s1)" "inv s1" "abs s1 = (abs s)(k := None)"
    using remove_law [OF assms] by blast
  then show ?thesis using look_law [OF s1(2), of k] by auto
qed

end

section \<open>The records of a directory\<close>

definition blk_is :: "FileSystem \<Rightarrow> u64 \<Rightarrow> rawent list \<Rightarrow> bool" where
  "blk_is s b rs \<longleftrightarrow> block_in s b \<and> blk s b = raws rs \<and> (\<forall>r \<in> set rs. raw_ok r)"

definition all_entries :: "rawent list list \<Rightarrow> DirEntry2 list" where
  "all_entries rss = concat (map raw_entries rss)"

definition dir_keys :: "rawent list list \<Rightarrow> (bytes \<times> u32 \<times> u8) list" where
  "dir_keys rss = map de_key (all_entries rss)"

definition plain_dir :: "Inode \<Rightarrow> Extent list \<Rightarrow> bool" where
  "plain_dir i exts \<longleftrightarrow> IsDir i \<and> I_flags i AND EXT4_INDEX_FL = 0 \<and> UsesExtents i \<and>
     (\<exists>hdr. leaf_node (I_block i) hdr exts) \<and> (\<forall>e \<in> set exts. \<not> ext_uninit e) \<and> distinct (data_blocks exts)"

definition dir_on :: "FileSystem \<Rightarrow> Inode \<Rightarrow> Extent list \<Rightarrow> rawent list list \<Rightarrow> bool" where
  "dir_on s i exts rss \<longleftrightarrow> fs_ok s \<and> bsz s < 65536 \<and> plain_dir i exts \<and> list_all2 (blk_is s) (data_blocks exts) rss \<and>
     distinct (map fst (dir_keys rss)) \<and>
     (\<forall>es. fs_dirCache s (I_block i) = Some es \<longrightarrow> map de_key es = dir_keys rss)"

lemma blk_is_cache [simp]: "blk_is (s\<lparr>fs_dirCache := c\<rparr>) = blk_is s"
  by (simp add: fun_eq_iff blk_is_def blk_def block_in_def)

lemma fs_ok_cache [simp]: "fs_ok (s\<lparr>fs_dirCache := c\<rparr>) = fs_ok s"
  by (simp add: fs_ok_def)

lemma plain_dir_extents:
  assumes "fs_ok s" and "plain_dir i exts"
  shows "ReadExtents i s = (Ok exts, s)"
proof -
  obtain hdr where "leaf_node (I_block i) hdr exts" using assms(2) by (auto simp: plain_dir_def)
  with assms show ?thesis by (auto simp: plain_dir_def intro: ReadExtents_leaf)
qed

lemma ext_count_init:
  assumes "\<not> ext_uninit e"
  shows "unat (ext_count e) = unat (EE_len e)"
proof -
  have z: "EE_len e AND 0x8000 = 0" using assms by (simp add: ext_uninit_def)
  have "\<not> bit (EE_len e) 15"
  proof
    assume "bit (EE_len e) 15"
    then have "bit (EE_len e AND 0x8000) 15" by (simp add: bit_and_iff) 
    with z show False by simp
  qed
  then have "EE_len e AND 0x7FFF = EE_len e"
    by (intro bit_word_eqI) (auto simp: bit_and_iff less_Suc_eq numeral_eq_Suc)
  then show ?thesis by (simp add: ext_count_def)
qed

lemma read_dir_blocks_ok:
  "fs_ok s \<Longrightarrow> list_all2 (blk_is s) bs rss \<Longrightarrow> read_dir_blocks False bs s = (Ok (all_entries rss), s)"
proof (induction bs arbitrary: rss)
  case (Cons b bs)
  then obtain rs rss' where r: "rss = rs # rss'" "blk_is s b rs" "list_all2 (blk_is s) bs rss'"
    by (auto simp: list_all2_Cons1)
  then show ?case
    using Cons parseDirBlock_raws [of rs] by (simp add: blk_is_def all_entries_def)
qed (simp add: all_entries_def)

lemma ReadDir_on:
  assumes "dir_on s i exts rss"
  shows "ReadDir i s = (Ok (all_entries rss), s)"
proof -
  have "map (\<lambda>ext. block_run (ext_start ext) (unat (EE_len ext))) exts =
      map (\<lambda>ext. block_run (ext_start ext) (unat (ext_count ext))) exts"
    using assms ext_count_init by (simp add: dir_on_def plain_dir_def)
  then have "concat (map (\<lambda>ext. block_run (ext_start ext) (unat (EE_len ext))) exts) = data_blocks exts"
    by (simp only: data_blocks_def)
  then show ?thesis
    using assms plain_dir_extents [of s i exts] read_dir_blocks_ok [of s "data_blocks exts" rss]
    by (simp add: dir_on_def ReadDir_def Let_def) (simp add: plain_dir_def)
qed

text \<open>Looking a name up leaves everything but the cache as it was.\<close>

lemma find_key: "find (\<lambda>e. de_Name e = name) es =
    None \<longleftrightarrow> map_of (map de_key es) name = None"
  "find (\<lambda>e. de_Name e = name) es = Some e \<Longrightarrow> map_of (map de_key es) name = Some (de_Inode e, de_FileType e)"
  by (induction es) (auto simp: de_key_def split: if_splits)

lemma Lookup_on:
  assumes "dir_on s i exts rss"
  shows "\<exists>c. Lookup i name s = (case map_of (dir_keys rss) name of Some v \<Rightarrow> Ok (fst v) | None \<Rightarrow> Err ErrNotExist,
      s\<lparr>fs_dirCache := c\<rparr>) \<and> dir_on (s\<lparr>fs_dirCache := c\<rparr>) i exts rss"
proof -
  obtain es c where es: "ReadDirCached i s = (Ok es, s\<lparr>fs_dirCache := c\<rparr>)" "map de_key es = dir_keys rss"
    "c (I_block i) = Some es"
  proof (cases "fs_dirCache s (I_block i)")
    case None
    then show ?thesis
      using ReadDir_on [OF assms] that [of "all_entries rss" "(fs_dirCache s)(I_block i := Some (all_entries rss))"]
      by (simp add: ReadDirCached_def dir_keys_def)
  next
    case (Some es)
    then show ?thesis
      using assms that [of es "fs_dirCache s"] by (simp add: ReadDirCached_def dir_on_def)
  qed
  have "Lookup i name s = (case map_of (dir_keys rss) name of Some v \<Rightarrow> Ok (fst v) | None \<Rightarrow> Err ErrNotExist,
      s\<lparr>fs_dirCache := c\<rparr>)"
    using es find_key [where name = name and es = es]
    by (cases "find (\<lambda>e. de_Name e = name) es") (simp_all add: Lookup_def)
  moreover have "dir_on (s\<lparr>fs_dirCache := c\<rparr>) i exts rss"
    using assms es by (simp add: dir_on_def)
  ultimately show ?thesis by blast
qed


section \<open>Changing a block of a directory\<close>

lemma keys_update:
  assumes "j < length rss" and "map de_key (raw_entries (rss ! j)) = xs @ ys"
  shows "\<exists>us vs. dir_keys rss = us @ xs @ ys @ vs \<and>
    (\<forall>rs' zs. map de_key (raw_entries rs') = zs \<longrightarrow> dir_keys (rss[j := rs']) = us @ zs @ vs)"
proof -
  have "dir_keys (a @ rs # b) = dir_keys a @ map de_key (raw_entries rs) @ dir_keys b" for a rs b
    by (simp add: dir_keys_def all_entries_def)
  then show ?thesis
    using id_take_nth_drop [OF assms(1)] upd_conv_take_nth_drop [OF assms(1)] assms(2) by (metis append_assoc)
qed

lemma dir_on_update:
  assumes "dir_on s i exts rss" and "j < length rss" and "length (raws rs') = bsz s" and "\<forall>r \<in> set rs'. raw_ok r"
    and "distinct (map fst (dir_keys (rss[j := rs'])))"
  shows "dir_on (invalidateDirCache i (put_block s (data_blocks exts ! j) (raws rs'))) (i\<lparr>I_mtime := now\<rparr>) exts (rss[j := rs'])"
proof -
  let ?B = "data_blocks exts" and ?s = "put_block s (data_blocks exts ! j) (raws rs')"
  have l: "length ?B = length rss" and all: "list_all2 (blk_is s) ?B rss" and ok: "fs_ok s" and d: "distinct ?B"
    using assms(1) by (auto simp: dir_on_def plain_dir_def list_all2_lengthD)
  have bin: "block_in s (?B ! k)" if "k < length ?B" for k
    using all that l by (auto simp: list_all2_conv_all_nth blk_is_def)
  have j: "block_in s (?B ! j)" using bin assms(2) l by simp
  have "blk_is ?s (?B ! k) (rss[j := rs'] ! k)" if k: "k < length ?B" for k
    using all k l assms(2,4) d blk_put_block [OF ok j assms(3) bin [OF k]] ok j assms(3)
    by (cases "k = j") (auto simp: blk_is_def list_all2_conv_all_nth nth_eq_iff_index_eq)
  then have "list_all2 (blk_is ?s) ?B (rss[j := rs'])" using l by (simp add: list_all2_conv_all_nth)
  then have "list_all2 (blk_is (invalidateDirCache i ?s)) ?B (rss[j := rs'])"
    unfolding invalidateDirCache_def blk_is_cache .
  moreover have "plain_dir (i\<lparr>I_mtime := now\<rparr>) exts" "bsz s < 65536"
    using assms(1) by (auto simp: dir_on_def plain_dir_def IsDir_def UsesExtents_def)
  ultimately show ?thesis
    using ok j assms(3,5) by (simp add: dir_on_def invalidateDirCache_def)
qed

section \<open>Adding and removing in the blocks\<close>

lemma add_in_blocks_full:
  assumes "fs_ok s" and "blk_is s b rs" and "\<not> (\<exists>r \<in> set rs. has_room (minDirRecLen (length name)) r)"
  shows "add_in_blocks now name child ft (b # bs) (s, i) = add_in_blocks now name child ft bs (s, i)"
  using assms find_slack_raws [of rs "[]" "minDirRecLen (length name)"] by (simp add: blk_is_def)

lemma add_in_blocks_ok:
  assumes "fs_ok s" and "bsz s < 65536" and "list_all2 (blk_is s) bs rss"
    and "\<exists>rs \<in> set rss. \<exists>r \<in> set rs. has_room (minDirRecLen (length name)) r"
    and "length name \<le> 255" and "name \<noteq> []" and "child \<noteq> 0"
  shows "\<exists>j rs' xs ys. j < length rss \<and> add_in_blocks now name child ft bs (s, i) =
      (Ok True, (invalidateDirCache i (put_block s (bs ! j) (raws rs')), i\<lparr>I_mtime := now\<rparr>)) \<and>
    length (raws rs') = bsz s \<and> (\<forall>r \<in> set rs'. raw_ok r) \<and>
    map de_key (raw_entries (rss ! j)) = xs @ ys \<and> map de_key (raw_entries rs') = xs @ [(name, child, ft)] @ ys"
  using assms
proof (induction bs arbitrary: rss)
  case (Cons b bs)
  then obtain rs rss' where r: "rss = rs # rss'" "blk_is s b rs" "list_all2 (blk_is s) bs rss'"
    by (auto simp: list_all2_Cons1)
  show ?case
  proof (cases "\<exists>r \<in> set rs. has_room (minDirRecLen (length name)) r")
    case True
    have b: "block_in s b" "blk s b = raws rs" "\<forall>r \<in> set rs. raw_ok r" using r(2) by (simp_all add: blk_is_def)
    then have len: "length (raws rs) = bsz s" using length_blk by metis
    then obtain off rs' xs ys where a: "find_slack (raws rs) (minDirRecLen (length name)) 0 = Some off"
        "split_record (raws rs) off child ft name = Ok (raws rs')" "length (raws rs') = bsz s"
        "\<forall>r \<in> set rs'. raw_ok r" "map de_key (raw_entries rs) = xs @ ys"
        "map de_key (raw_entries rs') = xs @ [(name, child, ft)] @ ys"
      using add_in_raws [OF b(3) True Cons.prems(5) _ Cons.prems(6,7), of ft] Cons.prems(2) by auto
    then have "add_in_blocks now name child ft (b # bs) (s, i) =
        (Ok True, (invalidateDirCache i (put_block s b (raws rs')), i\<lparr>I_mtime := now\<rparr>))"
      using b Cons.prems(1) by simp
    with a r(1) show ?thesis by (intro exI [of _ 0]) auto
  next
    case False
    then have "\<exists>rs \<in> set rss'. \<exists>r \<in> set rs. has_room (minDirRecLen (length name)) r"
      using Cons.prems(4) r(1) by auto
    from Cons.IH [OF Cons.prems(1,2) r(3) this Cons.prems(5-7)] obtain j rs' xs ys where
      "j < length rss'" "add_in_blocks now name child ft bs (s, i) =
        (Ok True, (invalidateDirCache i (put_block s (bs ! j) (raws rs')), i\<lparr>I_mtime := now\<rparr>))"
      "length (raws rs') = bsz s" "\<forall>r \<in> set rs'. raw_ok r"
      "map de_key (raw_entries (rss' ! j)) = xs @ ys" "map de_key (raw_entries rs') = xs @ [(name, child, ft)] @ ys"
      by blast
    then show ?thesis
      using add_in_blocks_full [OF Cons.prems(1) r(2) False, of now child ft bs i] r(1)
      by (intro exI [of _ "Suc j"] exI [of _ rs'] exI [of _ xs] exI [of _ ys]) simp
  qed
qed simp

lemma remove_in_blocks_ok:
  assumes "fs_ok s" and "bsz s < 65536" and "list_all2 (blk_is s) bs rss" and "\<exists>rs \<in> set rss. \<exists>r \<in> set rs. matches name r"
  shows "\<exists>j rs' xs ys v. j < length rss \<and> remove_in_blocks now name bs (s, i) =
      (Ok (), (invalidateDirCache i (put_block s (bs ! j) (raws rs')), i\<lparr>I_mtime := now\<rparr>)) \<and>
    length (raws rs') = bsz s \<and> (\<forall>r \<in> set rs'. raw_ok r) \<and>
    map de_key (raw_entries (rss ! j)) = xs @ (name, v) # ys \<and> map de_key (raw_entries rs') = xs @ ys"
  using assms
proof (induction bs arbitrary: rss)
  case (Cons b bs)
  then obtain rs rss' where r: "rss = rs # rss'" "blk_is s b rs" "list_all2 (blk_is s) bs rss'"
    by (auto simp: list_all2_Cons1)
  have b: "block_in s b" "blk s b = raws rs" "\<forall>r \<in> set rs. raw_ok r" using r(2) by (simp_all add: blk_is_def)
  note fr = find_record_raws [OF b(3), of "[]" name 0]
  show ?case
  proof (cases "\<exists>r \<in> set rs. matches name r")
    case True
    let ?no = "\<lambda>r. \<not> matches name r"
    define a where "a = takeWhile ?no rs"
    obtain x c where xc: "dropWhile ?no rs = x # c" using True by (cases "dropWhile ?no rs") auto
    then have m: "matches name x" using hd_dropWhile [of ?no rs] by simp
    have rs: "rs = a @ x # c" using xc by (metis a_def takeWhile_dropWhile_id)
    have len: "length (raws rs) = bsz s" using length_blk b(1,2) by metis
    obtain rs' where e: "erase_record (raws rs) (last_pos 0 0 a) (length (raws a)) = raws rs'"
        "length (raws rs') = bsz s" "\<forall>r \<in> set rs'. raw_ok r" "map de_key (raw_entries rs') = map de_key (raw_entries (a @ c))"
      using erase_record_raws [of a x c] b(3) len Cons.prems(2) unfolding rs by auto
    have "find_record (raws rs) name 0 0 = Some (last_pos 0 0 a, length (raws a))"
      using fr True by (simp add: a_def Let_def)
    then have "remove_in_blocks now name (b # bs) (s, i) =
        (Ok (), (invalidateDirCache i (put_block s b (raws rs')), i\<lparr>I_mtime := now\<rparr>))"
      using e b Cons.prems(1) by simp
    moreover have "map de_key (raw_entries rs) =
        map de_key (raw_entries a) @ (name, re_ino x, re_type x) # map de_key (raw_entries c)"
      using m by (simp add: rs matches_def de_key_def raw_entry_def)
    moreover have "map de_key (raw_entries rs') = map de_key (raw_entries a) @ map de_key (raw_entries c)"
      using e(4) by simp
    ultimately show ?thesis
      using e(2,3) r(1) by (intro exI [of _ 0] exI [of _ rs'] exI [of _ "map de_key (raw_entries a)"]
        exI [of _ "map de_key (raw_entries c)"] exI [of _ "(re_ino x, re_type x)"]) simp
  next
    case False
    then have "\<exists>rs \<in> set rss'. \<exists>r \<in> set rs. matches name r" using Cons.prems(4) r(1) by auto
    from Cons.IH [OF Cons.prems(1,2) r(3) this] obtain j rs' xs ys v where
      "j < length rss'" "remove_in_blocks now name bs (s, i) =
        (Ok (), (invalidateDirCache i (put_block s (bs ! j) (raws rs')), i\<lparr>I_mtime := now\<rparr>))"
      "length (raws rs') = bsz s" "\<forall>r \<in> set rs'. raw_ok r"
      "map de_key (raw_entries (rss' ! j)) = xs @ (name, v) # ys" "map de_key (raw_entries rs') = xs @ ys"
      by blast
    moreover have "remove_in_blocks now name (b # bs) (s, i) = remove_in_blocks now name bs (s, i)"
      using fr False b Cons.prems(1) by simp
    ultimately show ?thesis
      using r(1) by (intro exI [of _ "Suc j"] exI [of _ rs'] exI [of _ xs] exI [of _ ys] exI [of _ v]) simp
  qed
qed simp

lemma remove_in_blocks_missing:
  "fs_ok s \<Longrightarrow> list_all2 (blk_is s) bs rss \<Longrightarrow> \<not> (\<exists>rs \<in> set rss. \<exists>r \<in> set rs. matches name r) \<Longrightarrow>
   remove_in_blocks now name bs (s, i) = (Err ErrNotExist, (s, i))"
proof (induction bs arbitrary: rss)
  case (Cons b bs)
  then obtain rs rss' where r: "rss = rs # rss'" "blk_is s b rs" "list_all2 (blk_is s) bs rss'"
    by (auto simp: list_all2_Cons1)
  then have "find_record (blk s b) name 0 0 = None"
    using find_record_raws [of rs "[]" name 0] Cons.prems(3) by (simp add: blk_is_def)
  moreover have "block_in s b" using r(2) by (simp add: blk_is_def)
  ultimately show ?case using Cons.IH [OF Cons.prems(1) r(3)] Cons.prems r(1) by simp
qed simp


section \<open>The operations keep the contract\<close>

definition dir_inv :: "FileSystem \<times> Inode \<Rightarrow> bool" where
  "dir_inv \<sigma> \<longleftrightarrow> (\<exists>exts rss. dir_on (fst \<sigma>) (snd \<sigma>) exts rss)"

definition dir_map :: "FileSystem \<times> Inode \<Rightarrow> bytes \<Rightarrow> (u32 \<times> u8) option" where
  "dir_map \<sigma> = (case fst (ReadDir (snd \<sigma>) (fst \<sigma>)) of Ok es \<Rightarrow> map_of (map de_key es) | _ \<Rightarrow> Map.empty)"

text \<open>Some record of some block of the directory is long enough for its own name and the new one.\<close>

definition dir_room :: "FileSystem \<times> Inode \<Rightarrow> bytes \<Rightarrow> bool" where
  "dir_room \<sigma> name \<longleftrightarrow> (\<exists>exts off. ReadExtents (snd \<sigma>) (fst \<sigma>) = (Ok exts, fst \<sigma>) \<and>
     (\<exists>b \<in> set (data_blocks exts). find_slack (blk (fst \<sigma>) b) (minDirRecLen (length name)) 0 = Some off))"

definition dir_valid :: "bytes \<Rightarrow> u32 \<times> u8 \<Rightarrow> bool" where
  "dir_valid name v \<longleftrightarrow> name \<noteq> [] \<and> length name \<le> 255 \<and> fst v \<noteq> 0"

lemma dir_map_on: "dir_on s i exts rss \<Longrightarrow> dir_map (s, i) = map_of (dir_keys rss)"
  using ReadDir_on by (simp add: dir_map_def dir_keys_def)

lemma dir_room_on:
  assumes "dir_on s i exts rss" and "dir_room (s, i) name"
  shows "\<exists>rs \<in> set rss. \<exists>r \<in> set rs. has_room (minDirRecLen (length name)) r"
proof -
  have "ReadExtents i s = (Ok exts, s)" using assms(1) plain_dir_extents by (simp add: dir_on_def)
  then obtain b off where b: "b \<in> set (data_blocks exts)" "find_slack (blk s b) (minDirRecLen (length name)) 0 = Some off"
    using assms(2) by (auto simp: dir_room_def)
  then obtain k where k: "k < length (data_blocks exts)" "data_blocks exts ! k = b" by (auto simp: in_set_conv_nth)
  then have "blk_is s b (rss ! k)" "k < length rss"
    using assms(1) by (auto simp: dir_on_def list_all2_conv_all_nth)
  then show ?thesis
    using find_slack_raws [of "rss ! k" "[]" "minDirRecLen (length name)"] b(2)
    by (auto simp: blk_is_def split: if_splits)
qed

lemma matches_key: "(\<exists>rs \<in> set rss. \<exists>r \<in> set rs. matches name r) \<longleftrightarrow> map_of (dir_keys rss) name \<noteq> None"
  by (auto simp: map_of_eq_None_iff dir_keys_def all_entries_def raw_entries_def matches_def de_key_def raw_entry_def
      image_iff)

lemma Lookup_contract:
  assumes "dir_inv \<sigma>"
  shows "\<exists>\<sigma>'. onFs (Lookup (snd \<sigma>) name) \<sigma> = (case dir_map \<sigma> name of Some v \<Rightarrow> Ok (fst v) | None \<Rightarrow> Err ErrNotExist, \<sigma>') \<and>
    dir_inv \<sigma>' \<and> dir_map \<sigma>' = dir_map \<sigma> \<and> snd \<sigma>' = snd \<sigma> \<and> (\<exists>c. fst \<sigma>' = (fst \<sigma>)\<lparr>fs_dirCache := c\<rparr>)"
proof -
  obtain s i exts rss where s: "\<sigma> = (s, i)" "dir_on s i exts rss"
    using assms by (cases \<sigma>) (auto simp: dir_inv_def)
  obtain c where "Lookup i name s = (case map_of (dir_keys rss) name of Some v \<Rightarrow> Ok (fst v) | None \<Rightarrow> Err ErrNotExist,
      s\<lparr>fs_dirCache := c\<rparr>)" "dir_on (s\<lparr>fs_dirCache := c\<rparr>) i exts rss"
    using Lookup_on [OF s(2)] by blast
  then show ?thesis
    using s dir_map_on by (intro exI [of _ "(s\<lparr>fs_dirCache := c\<rparr>, i)"]) (auto simp: dir_inv_def)
qed


lemma Lookup_at:
  assumes "dir_on s i exts rss"
  obtains c where "Lookup i name s = (case map_of (dir_keys rss) name of Some v \<Rightarrow> Ok (fst v) | None \<Rightarrow> Err ErrNotExist,
      s\<lparr>fs_dirCache := c\<rparr>)" and "dir_on (s\<lparr>fs_dirCache := c\<rparr>) i exts rss"
  using Lookup_on [OF assms] by blast

lemma map_of_insert: "k \<notin> fst ` set (xs @ ys) \<Longrightarrow> map_of (xs @ (k, v) # ys) = (map_of (xs @ ys))(k \<mapsto> v)"
  by (induction xs) (auto simp: fun_eq_iff)

lemma AddDirEntry_contract:
  assumes "dir_inv \<sigma>" and "dir_map \<sigma> name = None" and "dir_room \<sigma> name" and "dir_valid name (child, ft)"
  shows "\<exists>\<sigma>'. AddDirEntry now name child ft \<sigma> = (Ok (), \<sigma>') \<and> dir_inv \<sigma>' \<and>
    dir_map \<sigma>' = (dir_map \<sigma>)(name \<mapsto> (child, ft))"
proof -
  obtain s i exts rss where s: "\<sigma> = (s, i)" and on: "dir_on s i exts rss"
    using assms(1) by (cases \<sigma>) (auto simp: dir_inv_def)
  have none: "map_of (dir_keys rss) name = None" using assms(2) s dir_map_on [OF on] by simp
  obtain c where look: "Lookup i name s = (Err ErrNotExist, s\<lparr>fs_dirCache := c\<rparr>)"
      and on1: "dir_on (s\<lparr>fs_dirCache := c\<rparr>) i exts rss"
    using Lookup_at [OF on, of name] none by auto
  define s1 where "s1 = s\<lparr>fs_dirCache := c\<rparr>"
  have f: "fs_ok s1" "bsz s1 < 65536" "plain_dir i exts" "list_all2 (blk_is s1) (data_blocks exts) rss"
    using on1 by (auto simp: dir_on_def s1_def)
  have v: "length name \<le> 255" "name \<noteq> []" "child \<noteq> 0" using assms(4) by (auto simp: dir_valid_def)
  obtain j rs' xs ys where j: "j < length rss"
      "add_in_blocks now name child ft (data_blocks exts) (s1, i) =
        (Ok True, (invalidateDirCache i (put_block s1 (data_blocks exts ! j) (raws rs')), i\<lparr>I_mtime := now\<rparr>))"
      "length (raws rs') = bsz s1" "\<forall>r \<in> set rs'. raw_ok r"
      and keys: "map de_key (raw_entries (rss ! j)) = xs @ ys"
        "map de_key (raw_entries rs') = xs @ [(name, child, ft)] @ ys"
    using add_in_blocks_ok [OF f(1,2,4) dir_room_on [OF on] v, of now ft i] assms(3) s by blast
  obtain us vs where us: "dir_keys rss = us @ xs @ ys @ vs"
      "dir_keys (rss[j := rs']) = us @ (xs @ [(name, child, ft)] @ ys) @ vs"
    using keys_update [OF j(1) keys(1)] keys(2) by blast
  have fresh: "name \<notin> fst ` set ((us @ xs) @ (ys @ vs))" using none us(1) by (simp add: map_of_eq_None_iff image_Un)
  have m: "map_of (dir_keys (rss[j := rs'])) = (map_of (dir_keys rss))(name \<mapsto> (child, ft))"
    using map_of_insert [OF fresh, of "(child, ft)"] us by simp
  have "distinct (map fst (dir_keys (rss[j := rs'])))"
    using fresh on us by (auto simp: dir_on_def)
  then have "dir_on (invalidateDirCache i (put_block s1 (data_blocks exts ! j) (raws rs'))) (i\<lparr>I_mtime := now\<rparr>) exts (rss[j := rs'])"
    using dir_on_update [OF on1 j(1)] j(3,4) by (simp add: s1_def)
  moreover have "AddDirEntry now name child ft (s, i) =
      (Ok (), (invalidateDirCache i (put_block s1 (data_blocks exts ! j) (raws rs')), i\<lparr>I_mtime := now\<rparr>))"
    using look j(2) f(3) plain_dir_extents [OF f(1,3)]
    by (simp add: AddDirEntry_def s1_def) (simp add: plain_dir_def)
  ultimately show ?thesis
    using s dir_map_on [OF on] m dir_map_on by (auto simp: dir_inv_def)
qed

lemma AddDirEntry_exists:
  assumes "dir_inv \<sigma>" and "dir_map \<sigma> name \<noteq> None"
  shows "\<exists>\<sigma>'. AddDirEntry now name child ft \<sigma> = (Err (Errorf ''AddDirEntry: entry already exists''), \<sigma>') \<and>
    dir_inv \<sigma>' \<and> dir_map \<sigma>' = dir_map \<sigma>"
proof -
  obtain s i exts rss where s: "\<sigma> = (s, i)" and on: "dir_on s i exts rss"
    using assms(1) by (cases \<sigma>) (auto simp: dir_inv_def)
  obtain v where v: "map_of (dir_keys rss) name = Some v" using assms(2) s dir_map_on [OF on] by auto
  obtain c where look: "Lookup i name s = (Ok (fst v), s\<lparr>fs_dirCache := c\<rparr>)"
      and on1: "dir_on (s\<lparr>fs_dirCache := c\<rparr>) i exts rss"
    using Lookup_at [OF on, of name] v by auto
  have "IsDir i" using on by (simp add: dir_on_def plain_dir_def)
  with look have "AddDirEntry now name child ft (s, i) =
      (Err (Errorf ''AddDirEntry: entry already exists''), (s\<lparr>fs_dirCache := c\<rparr>, i))"
    by (simp add: AddDirEntry_def)
  then show ?thesis using s on1 dir_map_on [OF on] dir_map_on [OF on1] by (auto simp: dir_inv_def)
qed

lemma map_of_remove: "distinct (map fst (xs @ (k, v) # ys)) \<Longrightarrow> map_of (xs @ ys) = (map_of (xs @ (k, v) # ys))(k := None)"
proof (induction xs)
  case Nil
  then have "map_of ys k = None" by (simp add: map_of_eq_None_iff)
  then show ?case by (auto simp: fun_eq_iff)
next
  case (Cons x xs)
  then have "fst x \<noteq> k" "map_of (xs @ ys) = (map_of (xs @ (k, v) # ys))(k := None)" by (auto simp: fun_eq_iff)
  then show ?case by (cases x) (auto simp: fun_eq_iff)
qed

lemma RemoveDirEntry_contract:
  assumes "dir_inv \<sigma>" and "dir_map \<sigma> name \<noteq> None"
  shows "\<exists>\<sigma>'. RemoveDirEntry now name \<sigma> = (Ok (), \<sigma>') \<and> dir_inv \<sigma>' \<and> dir_map \<sigma>' = (dir_map \<sigma>)(name := None)"
proof -
  obtain s i exts rss where s: "\<sigma> = (s, i)" and on: "dir_on s i exts rss"
    using assms(1) by (cases \<sigma>) (auto simp: dir_inv_def)
  have f: "fs_ok s" "bsz s < 65536" "plain_dir i exts" "list_all2 (blk_is s) (data_blocks exts) rss"
    using on by (auto simp: dir_on_def)
  have "\<exists>rs \<in> set rss. \<exists>r \<in> set rs. matches name r" using assms(2) s dir_map_on [OF on] matches_key by simp
  then obtain j rs' xs ys v where j: "j < length rss"
      "remove_in_blocks now name (data_blocks exts) (s, i) =
        (Ok (), (invalidateDirCache i (put_block s (data_blocks exts ! j) (raws rs')), i\<lparr>I_mtime := now\<rparr>))"
      "length (raws rs') = bsz s" "\<forall>r \<in> set rs'. raw_ok r"
      and keys: "map de_key (raw_entries (rss ! j)) = xs @ (name, v) # ys" "map de_key (raw_entries rs') = xs @ ys"
    using remove_in_blocks_ok [OF f(1,2,4)] by blast
  obtain us vs where us: "dir_keys rss = us @ xs @ ((name, v) # ys) @ vs" "dir_keys (rss[j := rs']) = us @ (xs @ ys) @ vs"
    using keys_update [OF j(1) keys(1)] keys(2) by blast
  have d: "distinct (map fst ((us @ xs) @ (name, v) # (ys @ vs)))" using on us(1) by (simp add: dir_on_def)
  have m: "map_of (dir_keys (rss[j := rs'])) = (map_of (dir_keys rss))(name := None)"
    using map_of_remove [OF d] us by simp
  have "distinct (map fst (dir_keys (rss[j := rs'])))" using d us(2) by auto
  then have "dir_on (invalidateDirCache i (put_block s (data_blocks exts ! j) (raws rs'))) (i\<lparr>I_mtime := now\<rparr>) exts (rss[j := rs'])"
    using dir_on_update [OF on j(1)] j(3,4) by simp
  moreover have "RemoveDirEntry now name (s, i) =
      (Ok (), (invalidateDirCache i (put_block s (data_blocks exts ! j) (raws rs')), i\<lparr>I_mtime := now\<rparr>))"
    using j(2) f(3) plain_dir_extents [OF f(1,3)] by (simp add: RemoveDirEntry_def) (simp add: plain_dir_def)
  ultimately show ?thesis
    using s dir_map_on [OF on] m dir_map_on by (auto simp: dir_inv_def)
qed

lemma RemoveDirEntry_missing:
  assumes "dir_inv \<sigma>" and "dir_map \<sigma> name = None"
  shows "RemoveDirEntry now name \<sigma> = (Err ErrNotExist, \<sigma>)"
proof -
  obtain s i exts rss where s: "\<sigma> = (s, i)" and on: "dir_on s i exts rss"
    using assms(1) by (cases \<sigma>) (auto simp: dir_inv_def)
  have f: "fs_ok s" "plain_dir i exts" "list_all2 (blk_is s) (data_blocks exts) rss" using on by (auto simp: dir_on_def)
  have "\<not> (\<exists>rs \<in> set rss. \<exists>r \<in> set rs. matches name r)" using assms(2) s dir_map_on [OF on] matches_key by simp
  then show ?thesis
    using remove_in_blocks_missing [OF f(1,3)] plain_dir_extents [OF f(1,2)] f(2) s
    by (simp add: RemoveDirEntry_def plain_dir_def)
qed

interpretation dir: directory dir_inv dir_map "\<lambda>name \<sigma>. onFs (Lookup (snd \<sigma>) name) \<sigma>" fst
  "\<lambda>name v. AddDirEntry now name (fst v) (snd v)" "RemoveDirEntry now" dir_room dir_valid ErrNotExist for now
proof unfold_locales
  fix \<sigma> name assume "dir_inv \<sigma>"
  from Lookup_contract [OF this, of name]
  show "\<exists>\<sigma>'. onFs (Lookup (snd \<sigma>) name) \<sigma> = (case dir_map \<sigma> name of None \<Rightarrow> Err ErrNotExist | Some v \<Rightarrow> Ok (fst v), \<sigma>') \<and>
    dir_inv \<sigma>' \<and> dir_map \<sigma>' = dir_map \<sigma>" by blast
next
  fix \<sigma> name and v :: "u32 \<times> u8"
  assume "dir_inv \<sigma>" "dir_map \<sigma> name = None" "dir_room \<sigma> name" "dir_valid name v"
  then show "\<exists>\<sigma>'. AddDirEntry now name (fst v) (snd v) \<sigma> = (Ok (), \<sigma>') \<and> dir_inv \<sigma>' \<and> dir_map \<sigma>' = (dir_map \<sigma>)(name \<mapsto> v)"
    using AddDirEntry_contract [of \<sigma> name "fst v" "snd v" now] by simp
next
  fix \<sigma> name and v :: "u32 \<times> u8" assume "dir_inv \<sigma>" "dir_map \<sigma> name \<noteq> None"
  from AddDirEntry_exists [OF this]
  show "\<exists>e \<sigma>'. AddDirEntry now name (fst v) (snd v) \<sigma> = (Err e, \<sigma>') \<and> dir_inv \<sigma>' \<and> dir_map \<sigma>' = dir_map \<sigma>" by blast
next
  fix \<sigma> name assume "dir_inv \<sigma>" "dir_map \<sigma> name \<noteq> None"
  then show "\<exists>\<sigma>'. RemoveDirEntry now name \<sigma> = (Ok (), \<sigma>') \<and> dir_inv \<sigma>' \<and> dir_map \<sigma>' = (dir_map \<sigma>)(name := None)"
    by (rule RemoveDirEntry_contract)
next
  fix \<sigma> name assume "dir_inv \<sigma>" "dir_map \<sigma> name = None"
  then show "\<exists>\<sigma>'. RemoveDirEntry now name \<sigma> = (Err ErrNotExist, \<sigma>') \<and> dir_inv \<sigma>' \<and> dir_map \<sigma>' = dir_map \<sigma>"
    using RemoveDirEntry_missing by blast
qed


section \<open>Properties\<close>

text \<open>C14: adding a name that is not in the directory, when some record has room for it, succeeds;
  the directory then maps the name to the given inode and file type and every other name
  as before, and looking the name up returns the inode.\<close>

theorem AddDirEntry_adds:
  assumes "dir_inv \<sigma>" and "dir_map \<sigma> name = None" and "dir_room \<sigma> name"
    and "name \<noteq> []" and "length name \<le> 255" and "child \<noteq> 0"
  shows "\<exists>\<sigma>1 \<sigma>2. AddDirEntry now name child ft \<sigma> = (Ok (), \<sigma>1) \<and>
    onFs (Lookup (snd \<sigma>1) name) \<sigma>1 = (Ok child, \<sigma>2) \<and> dir_inv \<sigma>2 \<and> dir_map \<sigma>2 = (dir_map \<sigma>)(name \<mapsto> (child, ft))"
  using dir.add_look [of \<sigma> name "(child, ft)" now] assms by (simp add: dir_valid_def)

text \<open>C15: removing a name of the directory succeeds, removes exactly it, and looking it up afterwards
  fails with \<open>ErrNotExist\<close>; removing a name that is not there fails with \<open>ErrNotExist\<close> and
  changes nothing.\<close>

theorem RemoveDirEntry_removes:
  assumes "dir_inv \<sigma>"
  shows "if dir_map \<sigma> name = None then RemoveDirEntry now name \<sigma> = (Err ErrNotExist, \<sigma>)
    else \<exists>\<sigma>1 \<sigma>2. RemoveDirEntry now name \<sigma> = (Ok (), \<sigma>1) \<and>
      onFs (Lookup (snd \<sigma>1) name) \<sigma>1 = (Err ErrNotExist, \<sigma>2) \<and> dir_inv \<sigma>2 \<and> dir_map \<sigma>2 = (dir_map \<sigma>)(name := None)"
  using dir.remove_look [OF assms, of name now] RemoveDirEntry_missing [OF assms] by simp

text \<open>Removing a name that has just been added restores the contents of the directory, although the
  records of the block are split and joined differently; adding a name twice is an error.\<close>

theorem add_remove_dir:
  assumes "dir_inv \<sigma>" and "dir_map \<sigma> name = None" and "dir_room \<sigma> name"
    and "name \<noteq> []" and "length name \<le> 255" and "child \<noteq> 0"
  shows "\<exists>\<sigma>1 \<sigma>2. AddDirEntry now name child ft \<sigma> = (Ok (), \<sigma>1) \<and> RemoveDirEntry now name \<sigma>1 = (Ok (), \<sigma>2) \<and>
    dir_inv \<sigma>2 \<and> dir_map \<sigma>2 = dir_map \<sigma> \<and>
    fst (AddDirEntry now name child ft \<sigma>1) = Err (Errorf ''AddDirEntry: entry already exists'')"
proof -
  obtain \<sigma>1 \<sigma>2 where s: "AddDirEntry now name child ft \<sigma> = (Ok (), \<sigma>1)" "RemoveDirEntry now name \<sigma>1 = (Ok (), \<sigma>2)"
      "dir_inv \<sigma>2" "dir_map \<sigma>2 = dir_map \<sigma>"
    using dir.add_remove [of \<sigma> name "(child, ft)" now] assms by (auto simp: dir_valid_def)
  have "dir_inv \<sigma>1" "dir_map \<sigma>1 name \<noteq> None"
    using AddDirEntry_contract [OF assms(1-3), of child ft now] assms s(1) by (auto simp: dir_valid_def)
  then have "fst (AddDirEntry now name child ft \<sigma>1) = Err (Errorf ''AddDirEntry: entry already exists'')"
    using AddDirEntry_exists [of \<sigma>1 name now child ft] by (metis fst_conv)
  with s show ?thesis by blast
qed

section \<open>Witnesses\<close>

definition one_record :: rawent where
  "one_record = \<lparr>re_ino = 12, re_nlen = 1, re_type = 1, re_rest = 97 # zeros 1015\<rparr>"

definition dir_ext :: Extent where
  "dir_ext = ext_at 0 1 9"

definition dir_inode :: Inode where
  "dir_inode = example_inode\<lparr>I_mode := S_IFDIR, I_flags := EXT4_EXTENTS_FL,
     I_block := header_bytes (leaf_header 1) @ extent_bytes dir_ext @ zeros 36\<rparr>"

definition dir_example :: "FileSystem \<times> Inode" where
  "dir_example = (put_block (example_fs 256) 9 (raws [one_record]), dir_inode)"

lemma one_record_facts:
  "raw_ok one_record" "raw_entries [one_record] = [raw_entry one_record]" "de_key (raw_entry one_record) = ([97], 12, 1)"
  "length (raws [one_record]) = 1024"
  by (simp_all add: one_record_def raw_ok_def raw_len_def used_def de_key_def raw_entry_def)

lemma dir_example_on: "dir_on (fst dir_example) (snd dir_example) [dir_ext] [[one_record]]"
proof -
  have b: "data_blocks [dir_ext] = [9]"
    by (simp add: data_blocks_def dir_ext_def ext_at_def ext_count_def ext_start_def block_run_def)
  have "leaf_node (I_block dir_inode) (leaf_header 1) [dir_ext]"
    using leaf_node_bytes [of 1 "[dir_ext]" "zeros 36"] by (simp add: dir_inode_def)
  then have "plain_dir dir_inode [dir_ext]"
    using b by (auto simp: plain_dir_def dir_inode_def IsDir_def S_IFDIR_def ifmt_def EXT4_EXTENTS_FL_def EXT4_INDEX_FL_def
        UsesExtents_def dir_ext_def ext_at_def ext_uninit_def)
  moreover have "blk_is (fst dir_example) 9 [one_record]" "fs_ok (fst dir_example)"
    using example_put [OF one_record_facts(4)] one_record_facts(1) by (simp_all add: blk_is_def dir_example_def)
  ultimately show ?thesis
    using b one_record_facts(2,3) by (simp add: dir_on_def dir_keys_def all_entries_def) (simp add: dir_example_def)
qed

lemma dir_example_facts:
  "dir_inv dir_example" "dir_map dir_example = [[97] \<mapsto> (12, 1)]" "dir_room dir_example [98]"
proof -
  show "dir_inv dir_example" using dir_example_on by (auto simp: dir_inv_def)
  show "dir_map dir_example = [[97] \<mapsto> (12, 1)]"
    using dir_map_on [OF dir_example_on] one_record_facts(2,3) by (simp add: dir_keys_def all_entries_def)
  have b: "data_blocks [dir_ext] = [9]"
    by (simp add: data_blocks_def dir_ext_def ext_at_def ext_count_def ext_start_def block_run_def)
  have "has_room (minDirRecLen 1) one_record"
    by (simp add: has_room_def unat_minDirRecLen min_rec_def one_record_def raw_len_def)
  then have "find_slack (raws [one_record]) (minDirRecLen 1) 0 = Some 0"
    using find_slack_raws [of "[one_record]" "[]" "minDirRecLen 1"] one_record_facts(1) by simp
  moreover have "blk (fst dir_example) 9 = raws [one_record]"
    using dir_example_on b by (simp add: dir_on_def blk_is_def)
  moreover have "ReadExtents (snd dir_example) (fst dir_example) = (Ok [dir_ext], fst dir_example)"
    using dir_example_on plain_dir_extents by (simp add: dir_on_def)
  ultimately show "dir_room dir_example [98]"
    using b by (auto simp: dir_room_def)
qed

theorem AddDirEntry_adds_witness:
  "\<exists>\<sigma>1 \<sigma>2. AddDirEntry 7 [98] 13 1 dir_example = (Ok (), \<sigma>1) \<and> onFs (Lookup (snd \<sigma>1) [98]) \<sigma>1 = (Ok 13, \<sigma>2)"
  using AddDirEntry_adds [OF dir_example_facts(1) _ dir_example_facts(3), of 13 7 1] by (auto simp: dir_example_facts(2))

theorem RemoveDirEntry_removes_witness:
  "\<exists>\<sigma>1 \<sigma>2. RemoveDirEntry 7 [97] dir_example = (Ok (), \<sigma>1) \<and> onFs (Lookup (snd \<sigma>1) [97]) \<sigma>1 = (Err ErrNotExist, \<sigma>2)"
  using RemoveDirEntry_removes [OF dir_example_facts(1), of "[97]" 7] by (auto simp: dir_example_facts(2))

theorem add_remove_dir_witness:
  "\<exists>\<sigma>1 \<sigma>2. AddDirEntry 7 [98] 13 1 dir_example = (Ok (), \<sigma>1) \<and> RemoveDirEntry 7 [98] \<sigma>1 = (Ok (), \<sigma>2) \<and>
     dir_map \<sigma>2 = [[97] \<mapsto> (12, 1)]"
  using add_remove_dir [OF dir_example_facts(1) _ dir_example_facts(3), of 13 7 1] by (auto simp: dir_example_facts(2))

end
