(* ===== verification/Journal.thy ===== *)
theory Journal
  imports File_IO
begin

text \<open>
  Transactions and the journal: \<open>BeginTransaction\<close>, \<open>CommitTransaction\<close> and \<open>RollbackTransaction\<close>
  (\<open>vfs/journal_writer.go\<close>), and recovery (\<open>vfs/jbd2.go\<close>).

  Go iterates over a map in an unspecified order. The two loops over the dirty blocks take the order
  from the arguments \<open>ord1\<close> and \<open>ord2\<close>; the theorems hold for every order that visits each block once.
  The mutexes are not modelled: an operation runs alone. \<open>now\<close> is \<open>time.Now().Unix()\<close>.

  \<open>replayJournal\<close> and \<open>cleanOrphans\<close> loop until data on the disk stops them. Their loops take a number
  of iterations and return \<open>None\<close> when it does not suffice, so a loop that never ends is one that
  returns \<open>None\<close> for every number.
\<close>

section \<open>Constants and headers\<close>

definition JBD2_MAGIC :: u32 where "JBD2_MAGIC = 0xC03B3998"
definition JBD2_MAGIC_OLD :: u32 where "JBD2_MAGIC_OLD = 0xC03B3999"
definition JBD2_DESCRIPTOR :: u32 where "JBD2_DESCRIPTOR = 1"
definition JBD2_BLOCK :: u32 where "JBD2_BLOCK = 2"
definition JBD2_COMMIT :: u32 where "JBD2_COMMIT = 3"
definition JBD2_SUPERBLOCK :: u32 where "JBD2_SUPERBLOCK = 5"
definition JBD2_FLAG_ESCAPE :: u32 where "JBD2_FLAG_ESCAPE = 1"
definition JBD2_FLAG_LAST_TAG :: u32 where "JBD2_FLAG_LAST_TAG = 64"
definition JBD2_FLAG_CRC32 :: u32 where "JBD2_FLAG_CRC32 = 128"
definition EXT4_FEATURE_INCOMPAT_RECOVERY :: u32 where "EXT4_FEATURE_INCOMPAT_RECOVERY = 1"

lemmas jbd2_consts = JBD2_MAGIC_def JBD2_MAGIC_OLD_def JBD2_DESCRIPTOR_def JBD2_BLOCK_def JBD2_COMMIT_def
  JBD2_SUPERBLOCK_def JBD2_FLAG_ESCAPE_def JBD2_FLAG_LAST_TAG_def JBD2_FLAG_CRC32_def

record jbd2Header =
  H_magic :: u32
  H_blocktype :: u32
  H_sequence :: u32

record jbd2Superblock =
  jsb_Header :: jbd2Header
  jsb_sequence :: u32
  jsb_start :: u32
  jsb_maxlen :: u32

definition header_of :: "bytes \<Rightarrow> jbd2Header" where
  "header_of buf = \<lparr>H_magic = get32 0 buf, H_blocktype = get32 4 buf, H_sequence = get32 8 buf\<rparr>"

definition jsb_of :: "bytes \<Rightarrow> jbd2Superblock res" where
  "jsb_of buf = (if length buf < 24 then Panic
     else Ok \<lparr>jsb_Header = header_of buf, jsb_sequence = get32 12 buf, jsb_start = get32 16 buf,
              jsb_maxlen = get32 20 buf\<rparr>)"

definition jsb_bad_magic :: "jbd2Superblock \<Rightarrow> bool" where
  "jsb_bad_magic jsb \<longleftrightarrow> H_magic (jsb_Header jsb) \<noteq> JBD2_MAGIC \<and> H_magic (jsb_Header jsb) \<noteq> JBD2_MAGIC_OLD"

section \<open>Transactions\<close>

definition BeginTransaction :: "FileSystem \<Rightarrow> FileSystem" where
  "BeginTransaction s =
     (case fs_dev s of
        TxDev d bs dirty \<Rightarrow> s
      | d \<Rightarrow> s\<lparr>fs_dev := TxDev d (fs_BlockSize s) []\<rparr>)"

definition RollbackTransaction :: "FileSystem \<Rightarrow> FileSystem" where
  "RollbackTransaction s =
     (case fs_dev s of
        TxDev d bs dirty \<Rightarrow> s\<lparr>fs_dev := d\<rparr>
      | d \<Rightarrow> s)"

fun write_blocks :: "dirty_map \<Rightarrow> unit fsop" where
  "write_blocks [] = ret ()"
| "write_blocks ((blockNum, blockData) # bs) =
     andThen (write_block blockData blockNum) (\<lambda>_. write_blocks bs)"

definition writeDirtyBlocksDirectly :: "(dirty_map \<Rightarrow> dirty_map) \<Rightarrow> dirty_map \<Rightarrow> unit fsop" where
  "writeDirtyBlocksDirectly ord dirty = write_blocks (ord dirty)"

text \<open>The escape of a data block that starts with the journal's magic number.\<close>

definition escBytes :: bytes where
  "escBytes = [0x4A, 0x6F, 0x6E, 0x75]"

definition xor_esc :: "bytes \<Rightarrow> bytes" where
  "xor_esc b = map2 (XOR) (take 4 b) escBytes @ drop 4 b"

definition must_escape :: "bytes \<Rightarrow> bool" where
  "must_escape blockData \<longleftrightarrow> 4 \<le> length blockData \<and> get32 0 blockData = JBD2_MAGIC"

definition journal_copy :: "nat \<Rightarrow> bytes \<Rightarrow> bytes" where
  "journal_copy blockSize blockData =
     (let dataCopy = copy_at 0 blockData (zeros blockSize)
      in if must_escape blockData then xor_esc dataCopy else dataCopy)"

definition tag_flags :: "bool \<Rightarrow> bytes \<Rightarrow> u32" where
  "tag_flags isLast blockData =
     (if must_escape blockData then JBD2_FLAG_ESCAPE else 0) OR (if isLast then JBD2_FLAG_LAST_TAG else 0)"

fun put_tags :: "dirty_map \<Rightarrow> nat \<Rightarrow> bytes \<Rightarrow> bytes res" where
  "put_tags [] off descBuf = Ok descBuf"
| "put_tags ((blockNum, blockData) # bs) off descBuf =
     (if off + 8 > length descBuf then Panic
      else put_tags bs (off + 8)
             (copy_at off (put32 (ucast blockNum) @ put32 (tag_flags (bs = []) blockData)) descBuf))"

definition journal_header :: "u32 \<Rightarrow> u32 \<Rightarrow> bytes" where
  "journal_header blocktype sequence = put32 JBD2_MAGIC @ put32 blocktype @ put32 sequence"

text \<open>The next position in the circular log.\<close>

definition advance :: "u32 \<Rightarrow> u32 \<Rightarrow> u32" where
  "advance maxlen pos = (if pos + 1 > maxlen then 1 else pos + 1)"

definition journal_write :: "string \<Rightarrow> string \<Rightarrow> Extent list \<Rightarrow> u32 \<Rightarrow> bytes \<Rightarrow> unit fsop" where
  "journal_write m0 m1 extents pos buf =
     (case findPhysicalBlock extents pos of
        None \<Rightarrow> failw (Errorf m0)
      | Some b \<Rightarrow> wrapErr m1 (write_block buf b))"

fun write_data_blocks :: "Extent list \<Rightarrow> u32 \<Rightarrow> u32 \<Rightarrow> bytes list \<Rightarrow> u32 fsop" where
  "write_data_blocks extents maxlen pos [] = ret pos"
| "write_data_blocks extents maxlen pos (dataBuf # ds) =
     andThen (journal_write ''jbd2 commit: physical block for data pos not found'' ''jbd2 commit: write data block''
                extents (advance maxlen pos) dataBuf) (\<lambda>_.
       write_data_blocks extents maxlen (advance maxlen pos) ds)"

text \<open>Steps 3 to 7 of a commit: descriptor, data and commit blocks, the journal's superblock, and the
  blocks at their final places.\<close>

definition commit_log :: "(dirty_map \<Rightarrow> dirty_map) \<Rightarrow> (dirty_map \<Rightarrow> dirty_map) \<Rightarrow> u64 \<Rightarrow> dirty_map \<Rightarrow> Extent list \<Rightarrow>
    u64 \<Rightarrow> bytes \<Rightarrow> jbd2Superblock \<Rightarrow> unit fsop" where
  "commit_log ord1 ord2 now dirty extents jsbBlock jsbBuf jsb =
     andThen (getS bsz) (\<lambda>blockSize.
       let pos = (if jsb_start jsb = 0 \<or> jsb_start jsb > jsb_maxlen jsb then 1 else jsb_start jsb);
           sequence = jsb_sequence jsb;
           blocks = ord1 dirty
       in andThen (liftR (put_tags blocks 12 (copy_at 0 (journal_header JBD2_DESCRIPTOR sequence) (zeros blockSize)))) (\<lambda>descBuf.
          andThen (journal_write ''jbd2 commit: physical block for descriptor pos not found''
                     ''jbd2 commit: write descriptor block'' extents pos descBuf) (\<lambda>_.
          andThen (write_data_blocks extents (jsb_maxlen jsb) pos (map (\<lambda>(_, d). journal_copy blockSize d) blocks)) (\<lambda>pos1.
            let pos2 = advance (jsb_maxlen jsb) pos1;
                commitBuf = copy_at 16 (put64 now) (copy_at 0 (journal_header JBD2_COMMIT sequence) (zeros blockSize))
            in andThen (journal_write ''jbd2 commit: physical block for commit pos not found''
                          ''jbd2 commit: write commit block'' extents pos2 commitBuf) (\<lambda>_.
               andThen (wrapErr ''jbd2 commit: write journal superblock updates''
                          (write_block (copy_at 12 (put32 (sequence + 1) @ put32 (advance (jsb_maxlen jsb) pos2)) jsbBuf)
                             jsbBlock)) (\<lambda>_.
                 wrapErr ''jbd2 commit: final block writeback failed'' (writeDirtyBlocksDirectly ord2 dirty)))))))"

definition commit_dirty :: "(dirty_map \<Rightarrow> dirty_map) \<Rightarrow> (dirty_map \<Rightarrow> dirty_map) \<Rightarrow> u64 \<Rightarrow> dirty_map \<Rightarrow> unit fsop" where
  "commit_dirty ord1 ord2 now dirty =
     andThen deref_sb (\<lambda>sb.
       if S_journal_inum sb = 0 then writeDirtyBlocksDirectly ord2 dirty
       else
         andThen (wrapErr ''jbd2 commit: read journal inode'' (ReadInode (S_journal_inum sb))) (\<lambda>jinode.
         andThen (wrapErr ''jbd2 commit: read journal extents'' (ReadExtents jinode)) (\<lambda>extents.
           case findPhysicalBlock extents 0 of
             None \<Rightarrow> failw (Errorf ''jbd2 commit: journal superblock block not found'')
           | Some jsbBlock \<Rightarrow>
               andThen (wrapErr ''jbd2 commit: read journal superblock'' (read_block jsbBlock)) (\<lambda>jsbBuf.
               andThen (liftR (jsb_of jsbBuf)) (\<lambda>jsb.
                 if jsb_bad_magic jsb then writeDirtyBlocksDirectly ord2 dirty
                 else commit_log ord1 ord2 now dirty extents jsbBlock jsbBuf jsb)))))"

definition CommitTransaction :: "(dirty_map \<Rightarrow> dirty_map) \<Rightarrow> (dirty_map \<Rightarrow> dirty_map) \<Rightarrow> u64 \<Rightarrow> unit fsop" where
  "CommitTransaction ord1 ord2 now s =
     (case fs_dev s of
        TxDev d bs dirty \<Rightarrow>
          if dirty = [] then (Ok (), s\<lparr>fs_dev := d\<rparr>)
          else commit_dirty ord1 ord2 now dirty (s\<lparr>fs_dev := d\<rparr>)
      | _ \<Rightarrow> (Ok (), s))"

section \<open>Recovery\<close>

record RecoveryResult =
  r_JournalReplayed :: bool
  r_BlocksApplied :: u32
  r_Transactions :: u32
  r_OrphansCleaned :: u32
  r_JournalSkipped :: "goerr option"

definition no_result :: RecoveryResult where
  "no_result = \<lparr>r_JournalReplayed = False, r_BlocksApplied = 0, r_Transactions = 0, r_OrphansCleaned = 0,
     r_JournalSkipped = None\<rparr>"

definition JournalNeedsRecovery :: "FileSystem \<Rightarrow> bool" where
  "JournalNeedsRecovery s =
     (case fs_sb s of None \<Rightarrow> False | Some sb \<Rightarrow> S_feature_incompat sb AND EXT4_FEATURE_INCOMPAT_RECOVERY \<noteq> 0)"

definition readJournalBlock :: "Extent list \<Rightarrow> u32 \<Rightarrow> (jbd2Header \<times> bytes) fsop" where
  "readJournalBlock extents logicalBlock =
     (case findPhysicalBlock extents logicalBlock of
        None \<Rightarrow> failw (Errorf ''journal logical block not found in extents'')
      | Some physBlock \<Rightarrow>
          andThen (wrapErr ''failed to read journal block'' (read_block physBlock)) (\<lambda>buf.
            if length buf < 12 then panic else ret (header_of buf, buf)))"

text \<open>A Go \<open>*RecoveryResult\<close> that the replay counts into is part of the state, so that the
  counts made before an error are kept.\<close>

type_synonym 'a rop = "(FileSystem \<times> RecoveryResult, 'a) op"

definition modR :: "(RecoveryResult \<Rightarrow> RecoveryResult) \<Rightarrow> unit rop" where
  "modR g s = (case s of (f, r) \<Rightarrow> (Ok (), (f, g r)))"

lemma modR_eq [simp]: "modR g (f, r) = (Ok (), (f, g r))"
  by (simp add: modR_def)

text \<open>The loop over the tags of a descriptor block, from the offset \<open>off\<close>. It returns the position of
  the last data block.\<close>

function replay_tags :: "Extent list \<Rightarrow> jbd2Superblock \<Rightarrow> bytes \<Rightarrow> nat \<Rightarrow> u32 \<Rightarrow> u32 rop" where
  "replay_tags extents jsb buf off pos =
     (if off + 8 > length buf then ret pos
      else
        let tagBlocknr = get32 off buf;
            tagFlags = get32 (off + 4) buf;
            off' = (if tagFlags AND JBD2_FLAG_CRC32 \<noteq> 0 then off + 12 else off + 8)
        in if tagBlocknr = 0 \<and> tagFlags = 0 then ret pos
           else
             let pos' = advance (jsb_maxlen jsb) pos
             in if pos' = jsb_start jsb then failw (Errorf ''unexpected wrap during descriptor data'')
                else
                  andThen (onFs (wrapErr ''data for block'' (readJournalBlock extents pos'))) (\<lambda>(dataHdr, dataBuf).
                    if H_blocktype dataHdr \<noteq> JBD2_BLOCK then failw (Errorf ''expected data block'')
                    else
                      let dataBuf' = (if tagFlags AND JBD2_FLAG_ESCAPE \<noteq> 0 then xor_esc dataBuf else dataBuf)
                      in andThen (onFs (wrapErr ''write to block'' (write_block dataBuf' (ucast tagBlocknr)))) (\<lambda>_.
                         andThen (modR (\<lambda>res. res\<lparr>r_BlocksApplied := r_BlocksApplied res + 1\<rparr>)) (\<lambda>_.
                           if tagFlags AND JBD2_FLAG_LAST_TAG \<noteq> 0 then ret pos'
                           else replay_tags extents jsb buf off' pos'))))"
  by pat_completeness auto
termination
  by (relation "measure (\<lambda>(_, _, buf, off, _). length buf - off)") auto

declare replay_tags.simps [simp del]

text \<open>One iteration of the main loop: where to go on, or \<open>None\<close> for the end of the log.\<close>

definition wrap_pos :: "u32 \<Rightarrow> u32 \<Rightarrow> u32" where
  "wrap_pos maxlen pos = (if pos > maxlen then 1 else pos)"

definition replay_step :: "Extent list \<Rightarrow> jbd2Superblock \<Rightarrow> u32 \<Rightarrow> (u32 option) rop" where
  "replay_step extents jsb pos0 =
     (let maxlen = jsb_maxlen jsb;
          pos = wrap_pos maxlen pos0
      in andThen (getS snd) (\<lambda>res.
         if pos = jsb_start jsb \<and> r_Transactions res > 0 then ret None
         else
           andThen (onFs (wrapErr ''block'' (readJournalBlock extents pos))) (\<lambda>(hdr, buf).
             if H_blocktype hdr = JBD2_SUPERBLOCK then ret None
             else if H_blocktype hdr = JBD2_DESCRIPTOR
             then andThen (replay_tags extents jsb buf 12 pos) (\<lambda>pos'. ret (Some (wrap_pos maxlen pos')))
             else if H_blocktype hdr = JBD2_COMMIT
             then andThen (modR (\<lambda>res. res\<lparr>r_Transactions := r_Transactions res + 1\<rparr>)) (\<lambda>_.
                    ret (Some (wrap_pos maxlen (pos + 1))))
             else ret (Some (wrap_pos maxlen (pos + 1))))))"

text \<open>A loop with a bound on its iterations: the body returns the state of the next iteration, or
  \<open>None\<close> to leave the loop.\<close>

primrec go_loop :: "nat \<Rightarrow> ('a \<Rightarrow> ('s, 'a option) op) \<Rightarrow> 'a \<Rightarrow> 's \<Rightarrow> (unit res \<times> 's) option" where
  "go_loop 0 body a s = None"
| "go_loop (Suc n) body a s =
     (case body a s of
        (Ok None, s') \<Rightarrow> Some (Ok (), s')
      | (Ok (Some a'), s') \<Rightarrow> go_loop n body a' s'
      | (Err e, s') \<Rightarrow> Some (Err e, s')
      | (Panic, s') \<Rightarrow> Some (Panic, s'))"

text \<open>What precedes the loop: the journal's extents and superblock, or \<open>None\<close> for an empty journal.\<close>

definition open_journal :: "(Extent list \<times> jbd2Superblock) option fsop" where
  "open_journal =
     andThen deref_sb (\<lambda>sb.
       if S_journal_inum sb = 0 then failw (Errorf ''S_journal_inum is 0'')
       else if S_journal_dev sb \<noteq> 0 then failw (Errorf ''external journal not supported'')
       else
         andThen (wrapErr ''failed to read journal inode'' (ReadInode (S_journal_inum sb))) (\<lambda>jinode.
         andThen (wrapErr ''failed to read journal extents'' (ReadExtents jinode)) (\<lambda>extents.
           case findPhysicalBlock extents 0 of
             None \<Rightarrow> failw (Errorf ''journal block 0 not found'')
           | Some jsbBlock \<Rightarrow>
               andThen (wrapErr ''failed to read journal superblock'' (read_block jsbBlock)) (\<lambda>jsbBuf.
               andThen (liftR (jsb_of jsbBuf)) (\<lambda>jsb.
                 if jsb_bad_magic jsb then failw (Errorf ''bad journal magic'')
                 else if jsb_start jsb = 0 \<or> jsb_start jsb > jsb_maxlen jsb then ret None
                 else ret (Some (extents, jsb)))))))"

definition replayJournal :: "nat \<Rightarrow> FileSystem \<times> RecoveryResult \<Rightarrow> (unit res \<times> FileSystem \<times> RecoveryResult) option" where
  "replayJournal n s =
     (case onFs open_journal s of
        (Ok None, s') \<Rightarrow> Some (Ok (), s')
      | (Ok (Some (extents, jsb)), s') \<Rightarrow> go_loop n (replay_step extents jsb) (jsb_start jsb) s'
      | (Err e, s') \<Rightarrow> Some (Err e, s')
      | (Panic, s') \<Rightarrow> Some (Panic, s'))"

text \<open>Freeing the blocks of an orphan: the errors of \<open>FreeBlock\<close> are dropped.\<close>

fun free_orphan_blocks :: "u64 list \<Rightarrow> unit fsop" where
  "free_orphan_blocks [] = ret ()"
| "free_orphan_blocks (b # bl) = andThen (attempt (FreeBlock b)) (\<lambda>_. free_orphan_blocks bl)"

definition orphan_step :: "u32 \<Rightarrow> (u32 option) rop" where
  "orphan_step orphanNum =
     (if orphanNum = 0 then ret None
      else
        andThen (onFs (wrapErr ''failed to read orphan inode'' (ReadInode orphanNum))) (\<lambda>inode.
        andThen (if UsesExtents inode
                 then andThen (onFs (attempt (ReadExtents inode))) (\<lambda>extents.
                   case extents of
                     None \<Rightarrow> ret ()
                   | Some exts \<Rightarrow>
                       onFs (free_orphan_blocks (concat (map (\<lambda>ext.
                         if ext_uninit ext then [] else block_run (ext_start ext) (unat (ext_count ext))) exts))))
                 else ret ()) (\<lambda>_.
        andThen (onFs (attempt (FreeInode orphanNum))) (\<lambda>_.
        andThen (modR (\<lambda>res. res\<lparr>r_OrphansCleaned := r_OrphansCleaned res + 1\<rparr>)) (\<lambda>_.
          ret (Some (I_dtime inode)))))))"

definition modSb :: "(SuperBlock \<Rightarrow> SuperBlock) \<Rightarrow> unit fsop" where
  "modSb g = andThen deref_sb (\<lambda>sb. modS (\<lambda>s. s\<lparr>fs_sb := Some (g sb)\<rparr>))"

definition cleanOrphans :: "nat \<Rightarrow> FileSystem \<times> RecoveryResult \<Rightarrow> (unit res \<times> FileSystem \<times> RecoveryResult) option" where
  "cleanOrphans n s =
     (case onFs deref_sb s of
        (Ok sb, s1) \<Rightarrow>
          if S_last_orphan sb = 0 then Some (Ok (), s1)
          else
            (case go_loop n orphan_step (S_last_orphan sb) s1 of
               Some (Ok _, s2) \<Rightarrow>
                 Some (onFs (andThen (modSb (\<lambda>sb. sb\<lparr>S_last_orphan := 0\<rparr>)) (\<lambda>_. writeSuperBlock)) s2)
             | r \<Rightarrow> r)
      | (Err e, s1) \<Rightarrow> Some (Err e, s1)
      | (Panic, s1) \<Rightarrow> Some (Panic, s1))"

definition clear_recovery :: "SuperBlock \<Rightarrow> SuperBlock" where
  "clear_recovery sb =
     sb\<lparr>S_feature_incompat := S_feature_incompat sb AND NOT EXT4_FEATURE_INCOMPAT_RECOVERY\<rparr>"

definition Recover :: "nat \<Rightarrow> FileSystem \<Rightarrow> (unit res \<times> FileSystem \<times> RecoveryResult) option" where
  "Recover n s =
     (let replayed =
            (if JournalNeedsRecovery s
             then (case replayJournal n (s, no_result\<lparr>r_JournalReplayed := True\<rparr>) of
                     Some (Err e, s1) \<Rightarrow> Some (modR (\<lambda>res. res\<lparr>r_JournalSkipped := Some e\<rparr>) s1)
                   | r \<Rightarrow> r)
             else Some (Ok (), (s, no_result)))
      in case replayed of
           Some (Ok _, s1) \<Rightarrow>
             (case cleanOrphans n s1 of
                None \<Rightarrow> None
              | Some (Panic, s2) \<Rightarrow> Some (Panic, s2)
              | Some (_, s2) \<Rightarrow> Some (onFs (andThen (modSb clear_recovery) (\<lambda>_. writeSuperBlock)) s2))
         | r \<Rightarrow> r)"

definition clearRecoveryFlag :: "unit fsop" where
  "clearRecoveryFlag s =
     (case fs_sb s of None \<Rightarrow> (Ok (), s) | Some sb \<Rightarrow> andThen (modSb clear_recovery) (\<lambda>_. writeSuperBlock) s)"

definition EnsureRecoveryFlagIsClear :: "unit fsop" where
  "EnsureRecoveryFlagIsClear s = (if JournalNeedsRecovery s then clearRecoveryFlag s else (Ok (), s))"

end
