(* ===== verification/Journal_Props.thy ===== *)
theory Journal_Props
  imports Journal
begin

text \<open>
  Correctness of transactions. A commit is a sequence of block writes (\<open>commit_writes\<close>), and what it
  leaves on the disk is computed from that sequence: without a journal the disk holds exactly what the
  transaction saw, with one the log blocks are written in addition. Of recovery the theory shows when
  the replay stops.
\<close>

section \<open>Sequences of block writes\<close>

definition put_blocks :: "dirty_map \<Rightarrow> FileSystem \<Rightarrow> FileSystem" where
  "put_blocks ws = fold (\<lambda>(b, p) s. put_block s b p) ws"

definition writable :: "FileSystem \<Rightarrow> dirty_map \<Rightarrow> bool" where
  "writable s ws \<longleftrightarrow> fs_ok s \<and> (\<forall>(b, p) \<in> set ws. block_in s b \<and> length p = bsz s)"

lemma writable_Cons [simp]:
  "writable s ((b, p) # ws) \<longleftrightarrow> block_in s b \<and> length p = bsz s \<and> writable s ws"
  by (auto simp: writable_def)

lemma writable_append [simp]: "writable s (ws @ vs) \<longleftrightarrow> writable s ws \<and> writable s vs"
  by (auto simp: writable_def)

lemma put_blocks_simps [simp]:
  "put_blocks [] s = s" "put_blocks ((b, p) # ws) s = put_blocks ws (put_block s b p)"
  by (simp_all add: put_blocks_def)

lemma writable_put_block [simp]:
  "block_in s b \<Longrightarrow> length p = bsz s \<Longrightarrow> fs_ok s \<Longrightarrow> writable (put_block s b p) ws = writable s ws"
  by (simp add: writable_def)

lemma put_blocks_fields [simp]:
  "fs_sb (put_blocks ws s) = fs_sb s" "fs_Bgds (put_blocks ws s) = fs_Bgds s"
  "fs_BlockSize (put_blocks ws s) = fs_BlockSize s" "fs_InodeSize (put_blocks ws s) = fs_InodeSize s"
  by (induction ws arbitrary: s) auto

lemma write_blocks_put: "writable s ws \<Longrightarrow> write_blocks ws s = (Ok (), put_blocks ws s)"
proof (induction ws arbitrary: s)
  case (Cons w ws)
  obtain b p where "w = (b, p)" by fastforce
  with Cons show ?case by (auto simp: writable_def)
qed simp

lemma put_blocks_ok:
  assumes "writable s ws"
  shows "fs_ok (put_blocks ws s)" and "length (disk (put_blocks ws s)) = length (disk s)"
    and "block_in (put_blocks ws s) c = block_in s c"
    and "block_in s c \<Longrightarrow>
      blk (put_blocks ws s) c = (case map_of (rev ws) c of Some p \<Rightarrow> p | None \<Rightarrow> blk s c)"
proof -
  have "fs_ok (put_blocks ws s) \<and> length (disk (put_blocks ws s)) = length (disk s) \<and>
      (\<forall>c. block_in (put_blocks ws s) c = block_in s c) \<and>
      (\<forall>c. block_in s c \<longrightarrow> blk (put_blocks ws s) c = (case map_of (rev ws) c of Some p \<Rightarrow> p | None \<Rightarrow> blk s c))"
    using assms
  proof (induction ws arbitrary: s)
    case Nil
    then show ?case by (simp add: writable_def)
  next
    case (Cons w ws)
    obtain b p where w: "w = (b, p)" by fastforce
    have 1: "fs_ok s" "block_in s b" "length p = bsz s" "writable s ws"
      using Cons.prems w by (auto simp: writable_def)
    have "writable (put_block s b p) ws" using 1 by simp
    note IH = Cons.IH [OF this]
    have "unat b * bsz s + length p \<le> length (disk s)" using 1 by (simp add: block_in_def)
    then show ?case
      using IH 1 by (auto simp: w blk_put_block map_add_def split: option.splits)
  qed
  then show "fs_ok (put_blocks ws s)" and "length (disk (put_blocks ws s)) = length (disk s)"
    and "block_in (put_blocks ws s) c = block_in s c"
    and "block_in s c \<Longrightarrow> blk (put_blocks ws s) c = (case map_of (rev ws) c of Some p \<Rightarrow> p | None \<Rightarrow> blk s c)"
    by blast+
qed

text \<open>A disk of whole blocks is determined by its blocks.\<close>

lemma disk_eqI:
  assumes "length (disk s) = length (disk t)" and "fs_BlockSize s = fs_BlockSize t" and "0 < bsz s"
    and "bsz s dvd length (disk s)" and "length (disk s) < 2 ^ 62"
    and "\<And>c. block_in s c \<Longrightarrow> blk s c = blk t c"
  shows "disk s = disk t"
proof (rule nth_equalityI [OF assms(1)])
  fix i assume i: "i < length (disk s)"
  define m where "m = i div bsz s"
  have "m * bsz s \<le> i" by (simp add: m_def)
  then have "m * bsz s < length (disk s)" using i by simp
  then have fit: "m * bsz s + bsz s \<le> length (disk s)"
    using block_fits [OF assms(4), of m] by simp
  have "m \<le> m * bsz s" using assms(3) by (cases "bsz s") auto
  then have "m < 2 ^ 62" using fit assms(5) by linarith
  then have "m < 2 ^ 64" by simp
  then have u: "unat (word_of_nat m :: u64) = m" by (simp add: unat_of_nat take_bit_nat_eq_self)
  then have "block_in s (word_of_nat m)" using fit by (simp add: block_in_def)
  note eq = assms(6) [OF this, unfolded blk_def u]
  have r: "i = m * bsz s + i mod bsz s" "i mod bsz s < bsz s"
    using assms(3) by (simp_all add: m_def)
  have "bslice (m * bsz s) (m * bsz s + bsz s) (disk s) ! (i mod bsz s) = disk s ! i"
    using fit r by (simp add: bslice_def)
  moreover have "bslice (m * bsz t) (m * bsz t + bsz t) (disk t) ! (i mod bsz s) = disk t ! i"
    using fit r assms(1,2) by (simp add: bslice_def)
  ultimately show "disk s ! i = disk t ! i" using eq by simp
qed

section \<open>Commit without a journal\<close>

text \<open>The blocks of a transaction's view.\<close>

lemma blk_tx:
  assumes "fs_dev s = TxDev d (fs_BlockSize s) dirty" and "dev_ok (fs_dev s)" and "block_in s c"
  shows "blk s c = (case map_of dirty c of Some p \<Rightarrow> p | None \<Rightarrow> blk (s\<lparr>fs_dev := d\<rparr>) c)"
proof (rule nth_equalityI)
  have ok: "tx_ok (bsz s) dirty (length (content d))" using assms(1,2) by simp
  have in': "block_in (s\<lparr>fs_dev := d\<rparr>) c" using assms(1,3) by (simp add: block_in_def)
  have len: "length p = bsz s" if "map_of dirty c = Some p" for p
    using ok map_of_SomeD [OF that] by (auto simp: tx_ok_def)
  then show "length (blk s c) = length (case map_of dirty c of Some p \<Rightarrow> p | None \<Rightarrow> blk (s\<lparr>fs_dev := d\<rparr>) c)"
    using assms(3) in' by (auto split: option.split)
  fix i assume "i < length (blk s c)"
  then have i: "i < bsz s" using assms(3) by simp
  have fit: "unat c * bsz s + bsz s \<le> length (content d)" using in' by (simp add: block_in_def)
  have "(unat c * bsz s + i) div bsz s = unat c" using i by simp
  moreover have "(unat c * bsz s + i) mod bsz s = i" using i by simp
  ultimately have "tx_content (bsz s) dirty (content d) ! (unat c * bsz s + i) =
      (case map_of dirty c of Some p \<Rightarrow> p ! i | None \<Rightarrow> content d ! (unat c * bsz s + i))"
    using nth_tx_content [of "unat c * bsz s + i" "content d" "bsz s" dirty] fit i
    by (simp del: mod_mult_self1 mod_mult_self2 mod_mult_self3 mod_mult_self4 split: option.split)
  then show "blk s c ! i = (case map_of dirty c of Some p \<Rightarrow> p | None \<Rightarrow> blk (s\<lparr>fs_dev := d\<rparr>) c) ! i"
    using fit i assms(1) by (auto simp: blk_def bslice_def split: option.split)
qed

text \<open>A transaction on a file system: the buffered blocks can be written to the device below.\<close>

definition in_tx :: "FileSystem \<Rightarrow> dev \<Rightarrow> dirty_map \<Rightarrow> bool" where
  "in_tx s d dirty \<longleftrightarrow> fs_ok s \<and> fs_dev s = TxDev d (fs_BlockSize s) dirty"

lemma in_txD:
  assumes "in_tx s d dirty"
  shows "fs_ok (s\<lparr>fs_dev := d\<rparr>)" and "block_in (s\<lparr>fs_dev := d\<rparr>) c = block_in s c"
    and "writable (s\<lparr>fs_dev := d\<rparr>) dirty" and "distinct (map fst dirty)" and "bsz s dvd length (disk s)"
    and "0 < bsz s" and "length (disk s) < 2 ^ 62" and "length (content d) = length (disk s)"
    and "block_in s c \<Longrightarrow> blk s c = (case map_of dirty c of Some p \<Rightarrow> p | None \<Rightarrow> blk (s\<lparr>fs_dev := d\<rparr>) c)"
proof -
  have d: "dev_ok (fs_dev s)" "fs_dev s = TxDev d (fs_BlockSize s) dirty" "1024 \<le> bsz s" "bsz s \<le> 65536"
    using assms by (auto simp: in_tx_def fs_ok_def)
  then have ok: "dev_ok d" "tx_ok (bsz s) dirty (length (content d))" by auto
  show 1: "fs_ok (s\<lparr>fs_dev := d\<rparr>)" using ok d by (simp add: fs_ok_def)
  show "block_in (s\<lparr>fs_dev := d\<rparr>) c = block_in s c" using d by (simp add: block_in_def)
  show "writable (s\<lparr>fs_dev := d\<rparr>) dirty"
    using ok 1 by (auto simp: writable_def tx_ok_def block_in_def algebra_simps)
  show "distinct (map fst dirty)" "bsz s dvd length (disk s)" "0 < bsz s" "length (disk s) < 2 ^ 62"
    "length (content d) = length (disk s)"
    using ok d by (auto simp: tx_ok_def)
  show "block_in s c \<Longrightarrow> blk s c = (case map_of dirty c of Some p \<Rightarrow> p | None \<Rightarrow> blk (s\<lparr>fs_dev := d\<rparr>) c)"
    using blk_tx d by blast
qed

lemma writeback_view:
  assumes "in_tx s d dirty" and "mset ws = mset dirty"
  shows "write_blocks ws (s\<lparr>fs_dev := d\<rparr>) = (Ok (), put_blocks ws (s\<lparr>fs_dev := d\<rparr>))"
    and "disk (put_blocks ws (s\<lparr>fs_dev := d\<rparr>)) = disk s"
proof -
  note t = in_txD [OF assms(1)]
  define s0 where "s0 = s\<lparr>fs_dev := d\<rparr>"
  have [simp]: "fs_BlockSize s0 = fs_BlockSize s" by (simp add: s0_def)
  have l: "length (disk s0) = length (disk s)" using t(8) by (simp add: s0_def)
  have w: "writable s0 ws"
    using t(3) mset_eq_setD [OF assms(2)] by (simp add: writable_def s0_def)
  note p = put_blocks_ok [OF w]
  from write_blocks_put [OF w] show "write_blocks ws (s\<lparr>fs_dev := d\<rparr>) = (Ok (), put_blocks ws (s\<lparr>fs_dev := d\<rparr>))"
    by (simp add: s0_def)
  have "disk (put_blocks ws s0) = disk s"
  proof (rule disk_eqI)
    fix c assume "block_in (put_blocks ws s0) c"
    then have "block_in s0 c" "block_in s c" using p(3) t(2) by (auto simp: s0_def)
    then show "blk (put_blocks ws s0) c = blk s c"
      using p(4) t(9) [folded s0_def] map_of_order [OF t(4) assms(2)] by simp
  qed (use p(2) t l in auto)
  then show "disk (put_blocks ws (s\<lparr>fs_dev := d\<rparr>)) = disk s" by (simp add: s0_def)
qed

lemma commit_view:
  assumes "in_tx s d dirty" and "fs_sb s = Some sb" and "S_journal_inum sb = 0"
    and "\<And>m. mset (ord2 m) = mset m"
  shows "CommitTransaction ord1 ord2 now s = (Ok (), put_blocks (ord2 dirty) (s\<lparr>fs_dev := d\<rparr>))"
    and "disk (put_blocks (ord2 dirty) (s\<lparr>fs_dev := d\<rparr>)) = disk s"
    and "fs_ok (put_blocks (ord2 dirty) (s\<lparr>fs_dev := d\<rparr>))"
proof -
  note t = in_txD [OF assms(1)]
  have dev: "fs_dev s = TxDev d (fs_BlockSize s) dirty" using assms(1) by (simp add: in_tx_def)
  have w: "writable (s\<lparr>fs_dev := d\<rparr>) (ord2 dirty)"
    using t(3) mset_eq_setD [OF assms(4)] by (simp add: writable_def)
  show "disk (put_blocks (ord2 dirty) (s\<lparr>fs_dev := d\<rparr>)) = disk s"
    "fs_ok (put_blocks (ord2 dirty) (s\<lparr>fs_dev := d\<rparr>))"
    using writeback_view(2) [OF assms(1,4)] put_blocks_ok(1) [OF w] by auto
  show "CommitTransaction ord1 ord2 now s = (Ok (), put_blocks (ord2 dirty) (s\<lparr>fs_dev := d\<rparr>))"
  proof (cases "dirty = []")
    case True
    then have "ord2 dirty = []" using assms(4) [of "[]"] by simp
    with True dev show ?thesis by (simp add: CommitTransaction_def)
  next
    case False
    then show ?thesis
      using writeback_view(1) [OF assms(1,4)] assms(2,3) dev
      by (simp add: CommitTransaction_def commit_dirty_def writeDirtyBlocksDirectly_def deref_sb_def)
  qed
qed

text \<open>C17: on a file system without a journal \<open>CommitTransaction\<close> makes the transaction's view of the
  disk the content of the device, in whatever order the dirty blocks are visited, and ends the
  transaction; \<open>RollbackTransaction\<close> brings back the device as it was below the transaction.\<close>

theorem commit_direct:
  assumes "in_tx s d dirty" and "fs_sb s = Some sb" and "S_journal_inum sb = 0"
    and "\<And>m. mset (ord2 m) = mset m"
  shows "(\<exists>s'. CommitTransaction ord1 ord2 now s = (Ok (), s') \<and> disk s' = disk s \<and> fs_sb s' = fs_sb s \<and>
      fs_Bgds s' = fs_Bgds s \<and> fs_ok s') \<and>
    fs_dev (RollbackTransaction s) = d"
  using commit_view [OF assms] assms(1) by (simp add: RollbackTransaction_def in_tx_def)

section \<open>The log blocks of a commit\<close>

definition log_pos :: "u32 \<Rightarrow> u32 \<Rightarrow> nat \<Rightarrow> u32" where
  "log_pos maxlen pos k = (advance maxlen ^^ k) pos"

lemma log_pos_simps [simp]:
  "log_pos m pos 0 = pos" "log_pos m pos (Suc k) = log_pos m (advance m pos) k"
  by (simp_all add: log_pos_def funpow_swap1)

lemma log_pos_Suc: "advance m (log_pos m pos k) = log_pos m pos (Suc k)"
  by (simp add: log_pos_def funpow_swap1)

definition pos_in :: "u32 \<Rightarrow> u32 \<Rightarrow> bool" where
  "pos_in m p \<longleftrightarrow> 1 \<le> p \<and> p \<le> m \<and> unat m < 2 ^ 32 - 1"

lemma unat_advance:
  assumes "pos_in m p"
  shows "unat (advance m p) = unat p mod unat m + 1" and "pos_in m (advance m p)"
proof -
  have u: "1 \<le> unat p" "unat p \<le> unat m" "unat m < 2 ^ 32 - 1"
    using assms by (auto simp: pos_in_def word_le_nat_alt)
  then have s: "unat (p + 1) = unat p + 1" by (simp add: unat_word_ariths)
  have "unat p mod unat m = (if unat p = unat m then 0 else unat p)" using u by simp
  then show e: "unat (advance m p) = unat p mod unat m + 1"
    using u s by (auto simp: advance_def word_less_nat_alt)
  have "unat p mod unat m < unat m" using u by simp
  then have "1 \<le> unat (advance m p)" "unat (advance m p) \<le> unat m" unfolding e by linarith+
  with u(3) show "pos_in m (advance m p)" by (simp add: pos_in_def word_le_nat_alt)
qed

lemma unat_log_pos:
  assumes "pos_in m p"
  shows "unat (log_pos m p k) = (unat p - 1 + k) mod unat m + 1" and "pos_in m (log_pos m p k)"
proof -
  have "pos_in m (log_pos m p k) \<and> unat (log_pos m p k) = (unat p - 1 + k) mod unat m + 1"
  proof (induction k)
    case 0
    have "unat p - 1 < unat m" "1 \<le> unat p" using assms by (auto simp: pos_in_def word_le_nat_alt)
    then show ?case using assms by simp
  next
    case (Suc k)
    then have "unat (log_pos m p (Suc k)) = (unat (log_pos m p k)) mod unat m + 1"
        "pos_in m (log_pos m p (Suc k))"
      using unat_advance [of m "log_pos m p k"] by (simp_all add: log_pos_Suc del: log_pos_simps)
    then show ?case using Suc by (simp add: mod_Suc_eq del: log_pos_simps)
  qed
  then show "unat (log_pos m p k) = (unat p - 1 + k) mod unat m + 1" "pos_in m (log_pos m p k)" by auto
qed

lemma mod_shift_inj:
  "(a + i) mod m = (a + j) mod m \<Longrightarrow> i < m \<Longrightarrow> j < m \<Longrightarrow> i = (j :: nat)"
proof (induction i j rule: linorder_wlog)
  case (le i j)
  then have "m dvd a + j - (a + i)" by (metis add_le_mono1 add.commute mod_eq_dvd_iff_nat)
  then have "m dvd j - i" by simp
  with le show ?case using nat_dvd_not_less [of "j - i" m] by linarith
qed simp

lemma inj_log_pos:
  assumes "pos_in m p"
  shows "inj_on (log_pos m p) {..<unat m}"
proof (rule inj_onI)
  fix i j assume r: "i \<in> {..<unat m}" "j \<in> {..<unat m}" and e: "log_pos m p i = log_pos m p j"
  have "(unat p - 1 + i) mod unat m = (unat p - 1 + j) mod unat m"
    using unat_log_pos(1) [OF assms, of i] unat_log_pos(1) [OF assms, of j] e by simp
  with r show "i = j" by (intro mod_shift_inj [of "unat p - 1" i "unat m" j]) auto
qed

fun at_positions :: "(u32 \<Rightarrow> u64) \<Rightarrow> u32 \<Rightarrow> u32 \<Rightarrow> bytes list \<Rightarrow> dirty_map" where
  "at_positions ph m pos [] = []"
| "at_positions ph m pos (x # xs) = (ph pos, x) # at_positions ph m (advance m pos) xs"

lemma at_positions_append:
  "at_positions ph m pos (xs @ ys) = at_positions ph m pos xs @ at_positions ph m (log_pos m pos (length xs)) ys"
  by (induction xs arbitrary: pos) auto

lemma at_positions_zip:
  "at_positions ph m pos xs = map (\<lambda>k. (ph (log_pos m pos k), xs ! k)) [0..<length xs]"
proof (induction xs arbitrary: pos)
  case (Cons x xs)
  have "[0..<length (x # xs)] = 0 # map Suc [0..<length xs]"
    by (simp add: upt_conv_Cons map_Suc_upt del: upt_Suc)
  with Cons show ?case by (simp del: upt_Suc)
qed simp

fun tag_bytes :: "dirty_map \<Rightarrow> bytes" where
  "tag_bytes [] = []"
| "tag_bytes ((blockNum, blockData) # bs) =
     put32 (ucast blockNum) @ put32 (tag_flags (bs = []) blockData) @ tag_bytes bs"

lemma length_tag_bytes [simp]: "length (tag_bytes bs) = 8 * length bs"
  by (induction bs rule: tag_bytes.induct) simp_all

lemma put_tags_ok:
  "off + 8 * length bs \<le> length buf \<Longrightarrow> put_tags bs off buf = Ok (copy_at off (tag_bytes bs) buf)"
proof (induction bs arbitrary: off buf rule: tag_bytes.induct)
  case (2 n d bs)
  have "copy_at (off + 8) (tag_bytes bs) (copy_at off (put32 (ucast n) @ put32 (tag_flags (bs = []) d)) buf) =
      copy_at off (put32 (ucast n) @ put32 (tag_flags (bs = []) d) @ tag_bytes bs) buf"
    using 2(2) by (intro nth_equalityI) (auto simp: nth_copy_at nth_append add.commute)
  with 2 show ?case by simp
qed (simp add: copy_at_def)

definition descriptor_image :: "nat \<Rightarrow> u32 \<Rightarrow> dirty_map \<Rightarrow> bytes" where
  "descriptor_image blockSize sequence blocks =
     copy_at 12 (tag_bytes blocks) (copy_at 0 (journal_header JBD2_DESCRIPTOR sequence) (zeros blockSize))"

definition commit_image :: "nat \<Rightarrow> u32 \<Rightarrow> u64 \<Rightarrow> bytes" where
  "commit_image blockSize sequence now =
     copy_at 16 (put64 now) (copy_at 0 (journal_header JBD2_COMMIT sequence) (zeros blockSize))"

definition log_images :: "nat \<Rightarrow> u32 \<Rightarrow> u64 \<Rightarrow> dirty_map \<Rightarrow> bytes list" where
  "log_images blockSize sequence now blocks =
     descriptor_image blockSize sequence blocks # map (\<lambda>(_, d). journal_copy blockSize d) blocks @
     [commit_image blockSize sequence now]"

section \<open>Commit with a journal\<close>

definition phys :: "Extent list \<Rightarrow> u32 \<Rightarrow> u64" where
  "phys extents p = the (findPhysicalBlock extents p)"

text \<open>A journal the file system can find and use: the positions 0 to \<open>maxlen\<close> lie in different blocks
  of the device.\<close>

definition journal_on :: "FileSystem \<Rightarrow> Extent list \<Rightarrow> jbd2Superblock \<Rightarrow> bool" where
  "journal_on s extents jsb \<longleftrightarrow>
     (\<exists>sb jinode. fs_sb s = Some sb \<and> S_journal_inum sb \<noteq> 0 \<and> ReadInode (S_journal_inum sb) s = (Ok jinode, s) \<and>
        ReadExtents jinode s = (Ok extents, s)) \<and>
     jsb_of (blk s (phys extents 0)) = Ok jsb \<and> \<not> jsb_bad_magic jsb \<and>
     unat (jsb_maxlen jsb) < 2 ^ 32 - 1 \<and>
     (\<forall>p. p \<le> jsb_maxlen jsb \<longrightarrow> findPhysicalBlock extents p = Some (phys extents p) \<and> block_in s (phys extents p)) \<and>
     inj_on (phys extents) {p. p \<le> jsb_maxlen jsb}"

definition first_pos :: "jbd2Superblock \<Rightarrow> u32" where
  "first_pos jsb = (if jsb_start jsb = 0 \<or> jsb_start jsb > jsb_maxlen jsb then 1 else jsb_start jsb)"

definition next_jsb :: "jbd2Superblock \<Rightarrow> nat \<Rightarrow> bytes \<Rightarrow> bytes" where
  "next_jsb jsb n jsbBuf =
     copy_at 12 (put32 (jsb_sequence jsb + 1) @ put32 (log_pos (jsb_maxlen jsb) (first_pos jsb) n)) jsbBuf"

definition commit_writes :: "Extent list \<Rightarrow> jbd2Superblock \<Rightarrow> bytes list \<Rightarrow> bytes \<Rightarrow> dirty_map" where
  "commit_writes extents jsb images jsbBuf =
     at_positions (phys extents) (jsb_maxlen jsb) (first_pos jsb) images @
     [(phys extents 0, next_jsb jsb (length images) jsbBuf)]"

lemma journal_write_put:
  assumes "journal_on s0 extents jsb" and "pos \<le> jsb_maxlen jsb" and "writable s [(phys extents pos, buf)]"
  shows "journal_write m0 m1 extents pos buf s = (Ok (), put_block s (phys extents pos) buf)"
  using assms by (auto simp: journal_write_def journal_on_def writable_def)

lemma write_data_blocks_put:
  assumes "journal_on s0 extents jsb" and "pos_in (jsb_maxlen jsb) pos"
    and "writable s (at_positions (phys extents) (jsb_maxlen jsb) (advance (jsb_maxlen jsb) pos) ds)"
  shows "write_data_blocks extents (jsb_maxlen jsb) pos ds s =
    (Ok (log_pos (jsb_maxlen jsb) pos (length ds)),
     put_blocks (at_positions (phys extents) (jsb_maxlen jsb) (advance (jsb_maxlen jsb) pos) ds) s)"
  using assms(2,3)
proof (induction ds arbitrary: pos s)
  case (Cons x ds)
  let ?q = "advance (jsb_maxlen jsb) pos"
  have q: "pos_in (jsb_maxlen jsb) ?q" by (rule unat_advance(2) [OF Cons.prems(1)])
  have w: "writable s [(phys extents ?q, x)]" "fs_ok s" "block_in s (phys extents ?q)" "length x = bsz s"
    using Cons.prems(2) by (auto simp: writable_def)
  have "?q \<le> jsb_maxlen jsb" using q by (simp add: pos_in_def)
  note j = journal_write_put [OF assms(1) this w(1)]
  have "writable (put_block s (phys extents ?q) x)
      (at_positions (phys extents) (jsb_maxlen jsb) (advance (jsb_maxlen jsb) ?q) ds)"
    using Cons.prems(2) w by simp
  from Cons.IH [OF q this] show ?case by (simp add: j)
qed simp

lemma put_blocks_append [simp]: "put_blocks (ws @ vs) s = put_blocks vs (put_blocks ws s)"
  by (simp add: put_blocks_def)

lemma writable_put_blocks [simp]: "writable s ws \<Longrightarrow> writable (put_blocks ws s) vs = writable s vs"
  using put_blocks_ok [of s ws] by (simp add: writable_def)

lemma length_images:
  "24 \<le> n \<Longrightarrow> length (commit_image n sq now) = n"
  "12 + 8 * length bs \<le> n \<Longrightarrow> length (descriptor_image n sq bs) = n"
  "length d \<le> n \<Longrightarrow> 4 \<le> n \<Longrightarrow> length (journal_copy n d) = n"
  by (auto simp: commit_image_def descriptor_image_def journal_copy_def journal_header_def
      xor_esc_def escBytes_def Let_def)

lemma writable_images:
  assumes "journal_on s extents jsb" and "fs_ok s" and "pos_in (jsb_maxlen jsb) pos"
    and "\<forall>x \<in> set images. length x = bsz s"
  shows "writable s (at_positions (phys extents) (jsb_maxlen jsb) pos images)"
proof -
  have "block_in s (phys extents (log_pos (jsb_maxlen jsb) pos k))" for k
    using unat_log_pos(2) [OF assms(3), of k] assms(1) by (auto simp: journal_on_def pos_in_def)
  then show ?thesis using assms(2,4) by (auto simp: writable_def at_positions_zip)
qed

lemma first_pos_in: "journal_on s extents jsb \<Longrightarrow> 1 \<le> jsb_maxlen jsb \<Longrightarrow> pos_in (jsb_maxlen jsb) (first_pos jsb)"
  by (auto simp: journal_on_def pos_in_def first_pos_def Suc_le_eq unat_gt_0 word_le_nat_alt word_less_nat_alt)

lemma commit_log_put:
  fixes s extents jsb dirty now
  defines "images \<equiv> \<lambda>blocks. log_images (bsz s) (jsb_sequence jsb) now blocks"
  assumes "journal_on s extents jsb" and "1 \<le> jsb_maxlen jsb" and "writable s dirty"
    and "mset (ord1 dirty) = mset dirty" and "mset (ord2 dirty) = mset dirty"
    and "12 + 8 * length dirty \<le> bsz s" and "length jsbBuf = bsz s"
  shows "writable s (commit_writes extents jsb (images (ord1 dirty)) jsbBuf @ ord2 dirty)"
    and "commit_log ord1 ord2 now dirty extents (phys extents 0) jsbBuf jsb s =
      (Ok (), put_blocks (commit_writes extents jsb (images (ord1 dirty)) jsbBuf @ ord2 dirty) s)"
proof -
  define m where "m = jsb_maxlen jsb"
  define pos where "pos = first_pos jsb"
  define ds where "ds = map (\<lambda>(_, d). journal_copy (bsz s) d) (ord1 dirty)"
  have ok: "fs_ok s" "1024 \<le> bsz s" using assms(4) by (auto simp: writable_def fs_ok_def)
  have ln: "length (ord1 dirty) = length dirty" using assms(5) by (metis mset_eq_length)
  have pos: "pos_in m pos" using first_pos_in [OF assms(2,3)] by (simp add: m_def pos_def)
  have "length d = bsz s" if "(b, d) \<in> set (ord1 dirty)" for b d
    using assms(4) that mset_eq_setD [OF assms(5)] by (auto simp: writable_def)
  then have li: "\<forall>x \<in> set (images (ord1 dirty)). length x = bsz s"
    using ok assms(7) ln by (auto simp: images_def log_images_def length_images)
  note wi = writable_images [OF assms(2) ok(1) pos [unfolded m_def] li]
  have wb: "writable s (ord2 dirty)" using assms(4) mset_eq_setD [OF assms(6)] by (simp add: writable_def)
  have j0: "block_in s (phys extents 0)" using assms(2) by (auto simp: journal_on_def)
  have lj: "length (next_jsb jsb n jsbBuf) = bsz s" for n using ok assms(8) by (simp add: next_jsb_def)
  show w: "writable s (commit_writes extents jsb (images (ord1 dirty)) jsbBuf @ ord2 dirty)"
    using wi wb j0 lj by (simp add: commit_writes_def flip: pos_def)
  have le: "pos \<le> m" "\<And>k. log_pos m pos k \<le> m"
    using pos unat_log_pos(2) [OF pos] by (auto simp: pos_in_def)
  define desc where "desc = descriptor_image (bsz s) (jsb_sequence jsb) (ord1 dirty)"
  define com where "com = commit_image (bsz s) (jsb_sequence jsb) now"
  define dw where "dw = at_positions (phys extents) m (advance m pos) ds"
  define s1 where "s1 = put_block s (phys extents pos) desc"
  define s2 where "s2 = put_blocks dw s1"
  define p2 where "p2 = log_pos m pos (Suc (length ds))"
  define s3 where "s3 = put_block s2 (phys extents p2) com"
  have pw: "at_positions (phys extents) m pos (desc # ds @ [com]) = (phys extents pos, desc) # dw @ [(phys extents p2, com)]"
    by (simp add: at_positions_append dw_def p2_def)
  have ws: "writable s [(phys extents pos, desc)]" "writable s dw" "writable s [(phys extents p2, com)]"
    using wi unfolding images_def log_images_def m_def [symmetric] pos_def [symmetric] ds_def [symmetric]
      desc_def [symmetric] com_def [symmetric] pw by (auto simp: writable_def)
  have w1: "writable s1 vs = writable s vs" for vs using ws(1) ok by (simp add: s1_def)
  have w2: "writable s2 vs = writable s vs" for vs using ws(2) w1 by (simp add: s2_def)
  have w3: "writable s3 vs = writable s vs" for vs
    using ws(3) w2 [of "[(phys extents p2, com)]"] w2 [of vs] by (simp add: s3_def writable_def)
  have t: "put_tags (ord1 dirty) 12 (copy_at 0 (journal_header JBD2_DESCRIPTOR (jsb_sequence jsb)) (zeros (bsz s))) = Ok desc"
    using put_tags_ok [of 12 "ord1 dirty"] ln assms(7) by (simp add: desc_def descriptor_image_def)
  have r1: "journal_write m0 m1 extents pos desc s = (Ok (), s1)" for m0 m1
    using journal_write_put [OF assms(2) le(1) [unfolded m_def] ws(1)] by (simp add: s1_def)
  have r2: "write_data_blocks extents m pos ds s1 = (Ok (log_pos m pos (length ds)), s2)"
    using write_data_blocks_put [OF assms(2) pos [unfolded m_def], of s1 ds] ws(2) w1
    by (simp add: m_def dw_def s2_def)
  have r3: "journal_write m0 m1 extents p2 com s2 = (Ok (), s3)" for m0 m1
    using journal_write_put [OF assms(2) le(2) [of "Suc (length ds)", folded p2_def, unfolded m_def]
        w2 [THEN iffD2, OF ws(3)]] by (simp add: s3_def)
  show "commit_log ord1 ord2 now dirty extents (phys extents 0) jsbBuf jsb s =
      (Ok (), put_blocks (commit_writes extents jsb (images (ord1 dirty)) jsbBuf @ ord2 dirty) s)"
  proof -
    define nj where "nj = next_jsb jsb (length ds + 2) jsbBuf"
    define s4 where "s4 = put_block s3 (phys extents 0) nj"
    have wn: "writable s [(phys extents 0, nj)]" using j0 lj ok by (simp add: nj_def writable_def)
    then have r4: "write_block nj (phys extents 0) s3 = (Ok (), s4)"
      using w3 [of "[(phys extents 0, nj)]"] by (simp add: s4_def writable_def)
    have w4: "writable s4 vs = writable s vs" for vs
      using wn w3 [of "[(phys extents 0, nj)]"] w3 [of vs] by (simp add: s4_def writable_def)
    have r5: "write_blocks (ord2 dirty) s4 = (Ok (), put_blocks (ord2 dirty) s4)"
      using write_blocks_put w4 wb by blast
    have adv: "advance m (log_pos m pos (length ds)) = p2" "advance m p2 = log_pos m pos (length ds + 2)"
      by (simp_all add: log_pos_Suc p2_def numeral_2_eq_2 del: log_pos_simps)
    have njf: "copy_at 12 (put32 (jsb_sequence jsb + 1) @ put32 (log_pos m pos (length ds + 2))) jsbBuf = nj"
      by (simp add: nj_def next_jsb_def m_def pos_def)
    have "put_blocks (commit_writes extents jsb (images (ord1 dirty)) jsbBuf @ ord2 dirty) s = put_blocks (ord2 dirty) s4"
      unfolding commit_writes_def images_def log_images_def m_def [symmetric] pos_def [symmetric]
        ds_def [symmetric] desc_def [symmetric] com_def [symmetric] pw
      by (simp add: s4_def s3_def s2_def s1_def nj_def)
    moreover have "commit_log ord1 ord2 now dirty extents (phys extents 0) jsbBuf jsb s = (Ok (), put_blocks (ord2 dirty) s4)"
      unfolding commit_log_def Let_def first_pos_def [symmetric] pos_def [symmetric] commit_image_def [symmetric]
      unfolding m_def [symmetric]
      by (simp add: t r1 r2 r3 r4 r5 adv njf writeDirtyBlocksDirectly_def del: log_pos_simps add_2_eq_Suc'
          flip: com_def ds_def)
    ultimately show ?thesis by simp
  qed
qed

lemma distinct_commit_writes:
  assumes "journal_on s extents jsb" and "length images \<le> unat (jsb_maxlen jsb)" and "1 \<le> jsb_maxlen jsb"
  shows "distinct (map fst (commit_writes extents jsb images jsbBuf))"
    and "fst ` set (commit_writes extents jsb images jsbBuf) \<subseteq> phys extents ` {p. p \<le> jsb_maxlen jsb}"
proof -
  let ?pos = "first_pos jsb" and ?m = "jsb_maxlen jsb"
  note pos = first_pos_in [OF assms(1,3)]
  have le: "log_pos ?m ?pos k \<le> ?m" "log_pos ?m ?pos k \<noteq> 0" for k
    using unat_log_pos(2) [OF pos, of k] by (auto simp: pos_in_def)
  have fsts: "map fst (at_positions (phys extents) ?m ?pos images) =
      map (phys extents) (map (log_pos ?m ?pos) [0..<length images])"
    by (simp add: at_positions_zip)
  have inj: "inj_on (phys extents) {p. p \<le> ?m}" using assms(1) by (simp add: journal_on_def)
  have "distinct (map (log_pos ?m ?pos) [0..<length images])"
    using inj_log_pos [OF pos] assms(2) by (auto simp: distinct_map intro: inj_on_subset)
  moreover have "set (map (log_pos ?m ?pos) [0..<length images]) \<subseteq> {p. p \<le> ?m}" using le by auto
  ultimately have "distinct (map (phys extents) (map (log_pos ?m ?pos) [0..<length images]))"
    using inj by (simp add: distinct_map inj_on_subset del: map_map)
  moreover have "phys extents 0 \<notin> set (map (phys extents) (map (log_pos ?m ?pos) [0..<length images]))"
  proof
    assume "phys extents 0 \<in> set (map (phys extents) (map (log_pos ?m ?pos) [0..<length images]))"
    then obtain k where "phys extents 0 = phys extents (log_pos ?m ?pos k)" by auto
    with inj le show False by (auto dest: inj_onD)
  qed
  ultimately show "distinct (map fst (commit_writes extents jsb images jsbBuf))"
    unfolding commit_writes_def map_append fsts by simp
  have "fst ` set (commit_writes extents jsb images jsbBuf) =
      insert (phys extents 0) (phys extents ` log_pos ?m ?pos ` {..<length images})"
    unfolding commit_writes_def set_append image_Un set_map [symmetric] fsts by auto
  then show "fst ` set (commit_writes extents jsb images jsbBuf) \<subseteq> phys extents ` {p. p \<le> ?m}"
    using le by auto
qed

lemma set_commit_writes:
  "k < length images \<Longrightarrow>
     (phys extents (log_pos (jsb_maxlen jsb) (first_pos jsb) k), images ! k) \<in> set (commit_writes extents jsb images jsbBuf)"
  "(phys extents 0, next_jsb jsb (length images) jsbBuf) \<in> set (commit_writes extents jsb images jsbBuf)"
  by (auto simp: commit_writes_def at_positions_zip)

text \<open>C16: with a journal, \<open>CommitTransaction\<close> leaves on the disk the transaction's view outside the journal, and
  in the journal, from the position its superblock names on and around the end of the log, the descriptor
  with one tag per block, the escaped copies in the order of the tags, and the commit block; the
  superblock names the next sequence number and the position behind the commit block.\<close>

theorem commit_journaled:
  assumes "in_tx s d dirty" and "dirty \<noteq> []" and "journal_on (s\<lparr>fs_dev := d\<rparr>) extents jsb"
    and "\<And>m. mset (ord1 m) = mset m" and "\<And>m. mset (ord2 m) = mset m"
    and "12 + 8 * length dirty \<le> bsz s" and "length dirty + 2 \<le> unat (jsb_maxlen jsb)"
    and "\<And>p. p \<le> jsb_maxlen jsb \<Longrightarrow> phys extents p \<notin> fst ` set dirty"
  shows "\<exists>s'. CommitTransaction ord1 ord2 now s = (Ok (), s') \<and>
    (\<forall>c. block_in s c \<and> c \<notin> phys extents ` {p. p \<le> jsb_maxlen jsb} \<longrightarrow> blk s' c = blk s c) \<and>
    (\<forall>k < length dirty + 2. blk s' (phys extents (log_pos (jsb_maxlen jsb) (first_pos jsb) k)) =
       log_images (bsz s) (jsb_sequence jsb) now (ord1 dirty) ! k) \<and>
    blk s' (phys extents 0) = next_jsb jsb (length dirty + 2) (blk (s\<lparr>fs_dev := d\<rparr>) (phys extents 0))"
proof -
  define s0 where "s0 = s\<lparr>fs_dev := d\<rparr>"
  define m where "m = jsb_maxlen jsb"
  define images where "images = log_images (bsz s) (jsb_sequence jsb) now (ord1 dirty)"
  define jb where "jb = blk s0 (phys extents 0)"
  define cw where "cw = commit_writes extents jsb images jb"
  define ws where "ws = cw @ ord2 dirty"
  note t = in_txD [OF assms(1), folded s0_def]
  note j = assms(3) [folded s0_def]
  have [simp]: "fs_BlockSize s0 = fs_BlockSize s" "fs_sb s0 = fs_sb s" by (simp_all add: s0_def)
  have m1: "1 \<le> m" using assms(7) by (simp add: m_def word_le_nat_alt)
  have li: "length images = length dirty + 2"
    using assms(4) [of dirty] by (simp add: images_def log_images_def flip: size_mset)
  have "block_in s0 (phys extents 0)" using j by (auto simp: journal_on_def)
  then have lj: "length jb = bsz s0" by (simp add: jb_def)
  have w: "writable s0 ws" and cl: "commit_log ord1 ord2 now dirty extents (phys extents 0) jb jsb s0 = (Ok (), put_blocks ws s0)"
    using commit_log_put [where ?ord1.0 = ord1 and ?ord2.0 = ord2, OF j m1 [unfolded m_def] t(3) assms(4,5), of jb now] assms(6) lj
    by (simp_all add: ws_def cw_def images_def)
  have keys: "distinct (map fst cw)" "fst ` set cw \<subseteq> phys extents ` {p. p \<le> m}"
    using distinct_commit_writes [OF j _ m1 [unfolded m_def], of images jb] assms(7) li by (simp_all add: cw_def m_def)
  moreover have "phys extents p \<notin> fst ` set (ord2 dirty)" if "p \<le> m" for p
    using assms(8) [of p] that mset_eq_setD [OF assms(5) [of dirty]] by (simp add: m_def)
  then have "x \<notin> fst ` set (ord2 dirty)" if "x \<in> phys extents ` {p. p \<le> m}" for x
    using that by (elim imageE) simp
  then have "fst ` set (ord2 dirty) \<inter> phys extents ` {p. p \<le> m} = {}" by (meson disjoint_iff)
  moreover have "distinct (map fst (ord2 dirty))"
    using t(4) mset_eq_imp_distinct_iff [of "map fst (ord2 dirty)" "map fst dirty"] by (simp add: assms(5))
  ultimately have dis: "distinct (map fst ws)" by (auto simp: ws_def)
  have rv: "map_of (rev ws) = map_of ws" by (rule map_of_order [OF dis refl])
  note p = put_blocks_ok [OF w]
  have at: "blk (put_blocks ws s0) b = x" if "(b, x) \<in> set ws" for b x
    using p(4) [of b] that map_of_is_SomeI [OF dis that] w by (auto simp: rv writable_def)
  have out: "blk (put_blocks ws s0) c = blk s c" if c: "block_in s c" "c \<notin> phys extents ` {p. p \<le> m}" for c
  proof -
    have "c \<notin> fst ` set cw" using keys(2) c(2) by auto
    then have "map_of cw c = None" by (simp add: map_of_eq_None_iff)
    then have "map_of ws c = map_of (ord2 dirty) c" by (simp add: ws_def map_add_def)
    moreover have "map_of (ord2 dirty) = map_of dirty"
      using map_of_order [OF t(4), of "rev (ord2 dirty)"] assms(5) by simp
    ultimately show ?thesis using p(4) [of c] t(9) [OF c(1)] t(2) c(1) by (simp add: rv)
  qed
  have "CommitTransaction ord1 ord2 now s = (Ok (), put_blocks ws s0)"
  proof -
    obtain sb jinode where sb: "fs_sb s = Some sb" "S_journal_inum sb \<noteq> 0"
        "ReadInode (S_journal_inum sb) s0 = (Ok jinode, s0)" "ReadExtents jinode s0 = (Ok extents, s0)"
      using j by (auto simp: journal_on_def)
    have f: "findPhysicalBlock extents 0 = Some (phys extents 0)" "block_in s0 (phys extents 0)"
        "jsb_of jb = Ok jsb" "\<not> jsb_bad_magic jsb"
      using j by (auto simp: journal_on_def jb_def)
    show ?thesis
      using assms(1,2) sb f cl t(1)
      by (simp add: in_tx_def CommitTransaction_def commit_dirty_def deref_sb_def jb_def flip: s0_def)
  qed
  then show ?thesis
    using out at set_commit_writes(1) [of _ images extents jsb jb] set_commit_writes(2) [of extents jsb images jb] li
    by (auto simp: m_def images_def jb_def s0_def ws_def cw_def)
qed

section \<open>A file system with a journal\<close>

text \<open>The example file system with a journal of five blocks (9 to 13) behind inode 8, and a transaction
  that has written block 15.\<close>

definition journal_ext :: Extent where
  "journal_ext = ext_at 0 5 9"

definition journal_inode :: Inode where
  "journal_inode = example_inode\<lparr>I_flags := EXT4_EXTENTS_FL,
     I_block := header_bytes (leaf_header 1) @ extent_bytes journal_ext @ zeros 36\<rparr>"

definition example_jsb :: "u32 \<Rightarrow> jbd2Superblock" where
  "example_jsb start = \<lparr>jsb_Header = \<lparr>H_magic = JBD2_MAGIC, H_blocktype = JBD2_SUPERBLOCK, H_sequence = 0\<rparr>,
     jsb_sequence = 1, jsb_start = start, jsb_maxlen = 4\<rparr>"

definition jsb_block :: "u32 \<Rightarrow> bytes" where
  "jsb_block start = journal_header JBD2_SUPERBLOCK 0 @ put32 1 @ put32 start @ put32 4 @ zeros 1000"

definition journal_base :: FileSystem where
  "journal_base = (example_fs 256)\<lparr>fs_sb := Some ((example_sb 64)\<lparr>S_journal_inum := 8, S_feature_incompat := 1\<rparr>)\<rparr>"

text \<open>\<open>ws\<close> are blocks behind the inode table.\<close>

definition journal_fs :: "dirty_map \<Rightarrow> FileSystem" where
  "journal_fs ws = poke (put_blocks ws journal_base) 6912 (inode_bytes journal_inode)"

definition data_area :: "dirty_map \<Rightarrow> bool" where
  "data_area ws \<longleftrightarrow> (\<forall>(b, p) \<in> set ws. 9 \<le> unat b \<and> unat b < 16 \<and> length p = 1024)"

definition tx_of :: "FileSystem \<Rightarrow> dirty_map \<Rightarrow> FileSystem" where
  "tx_of s dirty = s\<lparr>fs_dev := TxDev (fs_dev s) (fs_BlockSize s) dirty\<rparr>"

lemma tx_of_inner [simp]: "(tx_of s dirty)\<lparr>fs_dev := fs_dev s\<rparr> = s"
  by (simp add: tx_of_def)

lemma in_tx_of:
  assumes "fs_ok s" and "bsz s dvd length (disk s)" and "distinct (map fst dirty)"
    and "\<forall>(b, p) \<in> set dirty. block_in s b \<and> length p = bsz s"
  shows "in_tx (tx_of s dirty) (fs_dev s) dirty"
  using assms dev_ok_size [of "fs_dev s"]
  by (auto simp: in_tx_def tx_of_def fs_ok_def tx_ok_def block_in_def algebra_simps)

lemma journal_inode_facts: "inode_wf journal_inode" "UsesExtents journal_inode"
    "ReadExtents journal_inode s = (Ok [journal_ext], s)" if "fs_ok s"
proof -
  show u: "inode_wf journal_inode" "UsesExtents journal_inode"
    by (simp_all add: inode_wf_def journal_inode_def UsesExtents_def EXT4_EXTENTS_FL_def)
  have "leaf_node (I_block journal_inode) (leaf_header 1) [journal_ext]"
    using leaf_node_bytes [of 1 "[journal_ext]" "zeros 36"] by (simp add: journal_inode_def)
  then show "ReadExtents journal_inode s = (Ok [journal_ext], s)"
    using u that by (intro ReadExtents_leaf)
qed

lemma jsb_block_facts:
  "length (jsb_block start) = 1024" "jsb_of (jsb_block start) = Ok (example_jsb start)"
  "\<not> jsb_bad_magic (example_jsb start)"
  by (simp_all add: jsb_block_def jsb_of_def header_of_def journal_header_def example_jsb_def bytes_simps
      jsb_bad_magic_def)

lemma journal_base_facts:
  "fs_ok journal_base" "fs_BlockSize journal_base = 1024" "length (disk journal_base) = 16384"
  "fs_InodeSize journal_base = 256" "inode_pos journal_base 8 = 6912" "inode_valid journal_base 8"
proof -
  show 0: "fs_ok journal_base" "fs_BlockSize journal_base = 1024" "length (disk journal_base) = 16384"
      "fs_InodeSize journal_base = 256"
    using example_fs_ok [of 256] example_fs_dev [of 256] by (simp_all add: journal_base_def fs_ok_def)
  have g: "inode_group journal_base 8 = 0" "inode_index journal_base 8 = 7"
    by (simp_all add: inode_group_def inode_index_def journal_base_def example_sb_def unat_div unat_mod)
  have "unat (inode_table journal_base 0) = 5"
    by (simp add: inode_table_def gd_addr_def journal_base_def example_gd_def gd_decode_def)
  then show pos: "inode_pos journal_base 8 = 6912" using g 0 by (simp add: inode_pos_def)
  then show "inode_valid journal_base 8"
    using g 0 by (simp add: inode_valid_def journal_base_def example_sb_def example_gd_def)
qed

lemma inode_valid_put_blocks:
  assumes "writable s ws"
  shows "inode_pos (put_blocks ws s) m = inode_pos s m \<and> inode_valid (put_blocks ws s) m = inode_valid s m"
  using assms
proof (induction ws arbitrary: s)
  case (Cons w ws)
  obtain b p where w: "w = (b, p)" by fastforce
  have 1: "fs_ok s" "block_in s b" "length p = bsz s" using Cons.prems w by (auto simp: writable_def)
  then have "p \<noteq> []" "dev_ok (fs_dev s)" "unat b * bsz s + length p \<le> length (disk s)"
    by (auto simp: fs_ok_def block_in_def)
  then have "inode_pos (put_block s b p) m = inode_pos s m" "inode_valid (put_block s b p) m = inode_valid s m"
    using inode_valid_poke by (simp_all add: put_block_def)
  moreover have "writable (put_block s b p) ws" using 1 Cons.prems by (simp add: w)
  ultimately show ?case using Cons.IH by (simp add: w)
qed simp

lemma journal_fs_facts:
  assumes "data_area ws"
  shows "fs_ok (journal_fs ws)" "length (disk (journal_fs ws)) = 16384" "fs_BlockSize (journal_fs ws) = 1024"
    "fs_sb (journal_fs ws) = Some ((example_sb 64)\<lparr>S_journal_inum := 8, S_feature_incompat := 1\<rparr>)"
    "ReadInode 8 (journal_fs ws) = (Ok journal_inode, journal_fs ws)"
    "(b, p) \<in> set ws \<Longrightarrow> distinct (map fst ws) \<Longrightarrow> blk (journal_fs ws) b = p"
proof -
  note 0 = journal_base_facts
  define b1 where "b1 = put_blocks ws journal_base"
  have w: "writable journal_base ws" using assms 0 by (auto simp: writable_def data_area_def block_in_def)
  have 1: "fs_ok b1" "fs_BlockSize b1 = 1024" "length (disk b1) = 16384" "dev_ok (fs_dev b1)"
    using put_blocks_ok [OF w] 0 by (simp_all add: b1_def fs_ok_def)
  have li: "length (inode_bytes journal_inode) = 160"
    using inode.enc_len journal_inode_facts(1) [OF 0(1)] by simp
  then have ne: "inode_bytes journal_inode \<noteq> []" by auto
  have le: "6912 + length (inode_bytes journal_inode) \<le> length (disk b1)" using li 1 by simp
  note pk = poke_ok [OF 1(4) ne le]
  have jf: "journal_fs ws = poke b1 6912 (inode_bytes journal_inode)" by (simp add: journal_fs_def b1_def)
  show fo: "fs_ok (journal_fs ws)" "length (disk (journal_fs ws)) = 16384" "fs_BlockSize (journal_fs ws) = 1024"
    using 1 pk unfolding jf by (simp_all add: fs_ok_def)
  show "fs_sb (journal_fs ws) = Some ((example_sb 64)\<lparr>S_journal_inum := 8, S_feature_incompat := 1\<rparr>)"
    unfolding jf by (simp add: b1_def journal_base_def)
  have isz: "fs_InodeSize (journal_fs ws) = 256"
    unfolding jf b1_def using 0(4) by simp
  have v: "inode_valid (journal_fs ws) 8" "inode_pos (journal_fs ws) 8 = 6912"
    using inode_valid_poke [OF 1(4) ne le, of 8] inode_valid_put_blocks [OF w, of 8] 0 by (simp_all add: jf b1_def)
  have "inode_at (journal_fs ws) 8 = journal_inode"
    using v(2) inode.dec_copy_at [OF journal_inode_facts(1) [OF 0(1)], of 6912 "disk b1"] 1(3)
    by (simp add: inode_at_def) (simp add: jf pk(2))
  then show "ReadInode 8 (journal_fs ws) = (Ok journal_inode, journal_fs ws)"
    using ReadInode_valid [of "journal_fs ws" 8] fo v isz by (simp add: fs_ok_def)
  assume a: "(b, p) \<in> set ws" "distinct (map fst ws)"
  then have bb: "9 \<le> unat b" "unat b < 16" using assms by (auto simp: data_area_def)
  then have "block_in journal_base b" using 0 by (simp add: block_in_def)
  then have "blk b1 b = p"
    using put_blocks_ok(4) [OF w] a map_of_order [OF a(2) refl] map_of_is_SomeI [OF a(2,1)] by (simp add: b1_def)
  moreover have "9216 \<le> unat b * 1024" "unat b * 1024 + 1024 \<le> 16384" using bb by linarith+
  ultimately show "blk (journal_fs ws) b = p"
    using 1 pk(2) li slice_copy_at_other [of 6912 "inode_bytes journal_inode" "disk b1" "unat b * 1024 + 1024" "unat b * 1024"]
    unfolding jf by (simp add: blk_def)
qed

lemma phys_journal_ext:
  assumes "p \<le> 4"
  shows "findPhysicalBlock [journal_ext] p = Some (9 + ucast p)" "phys [journal_ext] p = 9 + ucast p"
    "unat (9 + ucast p :: u64) = 9 + unat p" "phys [journal_ext] p \<noteq> 15"
proof -
  show f: "findPhysicalBlock [journal_ext] p = Some (9 + ucast p)"
    using assms by (simp add: journal_ext_def ext_at_def ext_uninit_def ext_count_def ext_start_def
        word_less_nat_alt word_le_nat_alt)
  then show ph: "phys [journal_ext] p = 9 + ucast p" unfolding phys_def by simp
  show u: "unat (9 + ucast p :: u64) = 9 + unat p"
    using assms by (simp add: word_le_nat_alt unat_word_ariths unat_ucast_up)
  then show "phys [journal_ext] p \<noteq> 15" using assms unfolding ph by (auto simp: word_le_nat_alt word_unat_eq_iff)
qed

lemma example_journal_on:
  assumes "data_area ws" and "distinct (map fst ws)" and "(9, jsb_block start) \<in> set ws"
  shows "journal_on (journal_fs ws) [journal_ext] (example_jsb start)"
proof -
  note f = journal_fs_facts [OF assms(1)] and ph = phys_journal_ext
  have inj: "inj_on (phys [journal_ext]) {p. p \<le> 4}"
  proof (rule inj_onI)
    fix p q assume a: "p \<in> {p. p \<le> 4}" "q \<in> {p. p \<le> 4}" "phys [journal_ext] p = phys [journal_ext] q"
    then have "unat (9 + ucast p :: u64) = unat (9 + ucast q :: u64)" by (simp add: ph)
    with a ph(3) show "p = q" by (simp add: word_unat_eq_iff)
  qed
  have bi: "block_in (journal_fs ws) (phys [journal_ext] p)" if "p \<le> 4" for p
    using ph(2,3) [OF that] that f(2,3) by (simp add: block_in_def word_le_nat_alt)
  have "phys [journal_ext] 0 = 9" by (simp add: ph)
  then show ?thesis
    using f(1-5) f(6) [OF assms(3,2)] jsb_block_facts journal_inode_facts(3) [OF f(1)] ph inj bi
    by (auto simp: journal_on_def example_jsb_def simp del: findPhysicalBlock.simps)
qed

lemma example_tx:
  assumes "length p = 1024" and "data_area ws"
  shows "in_tx (tx_of (journal_fs ws) [(15, p)]) (fs_dev (journal_fs ws)) [(15, p)]"
  using assms journal_fs_facts [OF assms(2)] by (intro in_tx_of) (auto simp: block_in_def)

theorem commit_direct_witness:
  "\<exists>s'. CommitTransaction id rev 7 (tx_of (example_fs 256) [(15, ones 1024)]) = (Ok (), s') \<and>
     disk s' = disk (tx_of (example_fs 256) [(15, ones 1024)]) \<and> fs_ok s'"
proof -
  have "in_tx (tx_of (example_fs 256) [(15, ones 1024)]) (fs_dev (example_fs 256)) [(15, ones 1024)]"
    using example_fs_ok example_fs_dev(2) [of 256] by (intro in_tx_of) (auto simp: block_in_def)
  moreover have "S_journal_inum (example_sb 64) = 0" by (simp add: example_sb_def superblock_decode_def)
  ultimately show ?thesis
    using commit_direct [of "tx_of (example_fs 256) [(15, ones 1024)]" "fs_dev (example_fs 256)" _ "example_sb 64" rev id 7]
    by (auto simp: tx_of_def)
qed

theorem commit_journaled_witness:
  "\<exists>s'. CommitTransaction id rev 7 (tx_of (journal_fs [(9, jsb_block 0)]) [(15, ones 1024)]) = (Ok (), s') \<and>
     blk s' 15 = blk (tx_of (journal_fs [(9, jsb_block 0)]) [(15, ones 1024)]) 15 \<and>
     blk s' (phys [journal_ext] 1) = descriptor_image 1024 1 [(15, ones 1024)] \<and>
     blk s' (phys [journal_ext] 2) = journal_copy 1024 (ones 1024)"
proof -
  let ?s = "tx_of (journal_fs [(9, jsb_block 0)]) [(15, ones 1024)]"
  have da: "data_area [(9, jsb_block 0)]" by (simp add: data_area_def jsb_block_facts)
  note f = journal_fs_facts [OF da] and ph = phys_journal_ext
  have jo: "journal_on (journal_fs [(9, jsb_block 0)]) [journal_ext] (example_jsb 0)"
    by (rule example_journal_on [OF da]) simp_all
  have sel: "jsb_maxlen (example_jsb 0) = 4" "first_pos (example_jsb 0) = 1" "jsb_sequence (example_jsb 0) = 1"
      "log_pos 4 1 (Suc 0) = 2" "bsz ?s = 1024" "block_in ?s 15"
    using f(2,3) by (simp_all add: example_jsb_def first_pos_def advance_def tx_of_def block_in_def)
  obtain s' where s': "CommitTransaction id rev 7 ?s = (Ok (), s')"
      "\<forall>c. block_in ?s c \<and> c \<notin> phys [journal_ext] ` {p. p \<le> 4} \<longrightarrow> blk s' c = blk ?s c"
      "\<forall>k < 3. blk s' (phys [journal_ext] (log_pos 4 1 k)) = log_images 1024 1 7 [(15, ones 1024)] ! k"
    using commit_journaled [OF example_tx [OF _ da, of "ones 1024"], of "[journal_ext]" "example_jsb 0" id rev 7]
      jo ph(4) by (auto simp: sel)
  have "15 \<notin> phys [journal_ext] ` {p. p \<le> 4}" using ph(4) by (metis (no_types, lifting) imageE mem_Collect_eq)
  then show ?thesis
    using s' sel(4,6) s'(3) [rule_format, of 0] s'(3) [rule_format, of "Suc 0"]
    by (auto simp: log_images_def)
qed

end
