(* ===== verification/Replay_Props.thy ===== *)
theory Replay_Props
  imports Journal_Props
begin

text \<open>
  What the replay of \<open>vfs/jbd2.go\<close> does with a log that \<open>CommitTransaction\<close> has written: it applies the blocks
  whose bytes 4 to 8 look like a data block header, and stops with an error at the first other one. A
  descriptor without tags makes it run forever.
\<close>

section \<open>Escaping\<close>

lemma xor_esc_twice: "xor_esc (xor_esc b) = b"
proof (rule nth_equalityI)
  show l: "length (xor_esc (xor_esc b)) = length b" by (auto simp: xor_esc_def escBytes_def min_def)
  have x: "xor_esc c ! i = (if i < 4 then c ! i XOR escBytes ! i else c ! i)" if "i < length c" for c i
    using that by (auto simp: xor_esc_def escBytes_def nth_append min_def)
  fix i assume "i < length (xor_esc (xor_esc b))"
  then have "i < length b" "i < length (xor_esc b)"
    using l by (auto simp: xor_esc_def escBytes_def min_def)
  then show "xor_esc (xor_esc b) ! i = b ! i" by (simp add: x xor.assoc)
qed

lemma journal_copy_full: "length d = n \<Longrightarrow> journal_copy n d = (if must_escape d then xor_esc d else d)"
proof -
  assume "length d = n"
  then have "copy_at 0 d (zeros n) = d" by (simp add: copy_at_def)
  then show ?thesis by (simp add: journal_copy_def)
qed

lemma get32_xor_esc: "8 \<le> length b \<Longrightarrow> get32 4 (xor_esc b) = get32 4 b"
proof -
  assume "8 \<le> length b"
  then have "bslice 4 8 (xor_esc b) = bslice 4 8 b"
    by (simp add: xor_esc_def bslice_def escBytes_def)
  then show ?thesis by (simp add: get32_def)
qed

lemma get32_journal_copy: "length d = n \<Longrightarrow> 8 \<le> n \<Longrightarrow> get32 4 (journal_copy n d) = get32 4 d"
  by (simp add: journal_copy_full get32_xor_esc)

lemma tag_flags_bits:
  "tag_flags isLast d AND JBD2_FLAG_CRC32 = 0" "tag_flags isLast d AND JBD2_FLAG_ESCAPE \<noteq> 0 \<longleftrightarrow> must_escape d"
  "tag_flags isLast d AND JBD2_FLAG_LAST_TAG \<noteq> 0 \<longleftrightarrow> isLast"
  by (simp_all add: tag_flags_def jbd2_consts)

section \<open>The tags of a descriptor\<close>

text \<open>The data blocks of the tags \<open>ws\<close> lie in the log behind position \<open>pos\<close>, none of them at the start of
  the log.\<close>

definition logged :: "FileSystem \<Rightarrow> Extent list \<Rightarrow> jbd2Superblock \<Rightarrow> u32 \<Rightarrow> dirty_map \<Rightarrow> bool" where
  "logged s extents jsb pos ws \<longleftrightarrow>
     (\<forall>k < length ws. log_pos (jsb_maxlen jsb) pos (Suc k) \<noteq> jsb_start jsb \<and>
        blk s (phys extents (log_pos (jsb_maxlen jsb) pos (Suc k))) = journal_copy (bsz s) (snd (ws ! k)))"

text \<open>Blocks that a tag can name: 32-bit numbers other than 0, outside the journal.\<close>

definition taggable :: "FileSystem \<Rightarrow> Extent list \<Rightarrow> jbd2Superblock \<Rightarrow> dirty_map \<Rightarrow> bool" where
  "taggable s extents jsb ws \<longleftrightarrow> writable s ws \<and>
     (\<forall>(b, d) \<in> set ws. b \<noteq> 0 \<and> unat b < 2 ^ 32 \<and> b \<notin> phys extents ` {p. p \<le> jsb_maxlen jsb})"

definition data_typed :: "bytes \<Rightarrow> bool" where
  "data_typed d \<longleftrightarrow> get32 4 d = JBD2_BLOCK"

lemma readJournalBlock_ok:
  assumes "journal_on s0 extents jsb" and "p \<le> jsb_maxlen jsb" and "fs_ok s" and "block_in s (phys extents p)"
  shows "readJournalBlock extents p s = (Ok (header_of (blk s (phys extents p)), blk s (phys extents p)), s)"
  using assms by (auto simp: readJournalBlock_def journal_on_def fs_ok_def)

definition count_blocks :: "nat \<Rightarrow> RecoveryResult \<Rightarrow> RecoveryResult" where
  "count_blocks n res = res\<lparr>r_BlocksApplied := r_BlocksApplied res + word_of_nat n\<rparr>"

lemma journal_blocks_in:
  "journal_on s0 extents jsb \<Longrightarrow> pos_in (jsb_maxlen jsb) pos \<Longrightarrow>
   block_in s0 (phys extents (advance (jsb_maxlen jsb) pos)) \<and> advance (jsb_maxlen jsb) pos \<le> jsb_maxlen jsb"
  using unat_advance(2) [of "jsb_maxlen jsb" pos] by (auto simp: journal_on_def pos_in_def)

text \<open>One tag: the read of its data block and what is done with it.\<close>

lemma replay_tag:
  fixes b :: u64
  assumes "journal_on s0 extents jsb" and "\<And>c. block_in s c = block_in s0 c" and "pos_in (jsb_maxlen jsb) pos"
    and "taggable s extents jsb ((b, d) # ws)" and "logged s extents jsb pos ((b, d) # ws)"
  shows "replay_tags extents jsb (pre @ tag_bytes ((b, d) # ws) @ r) (length pre) pos (s, res) =
    (let pos' = advance (jsb_maxlen jsb) pos
     in if \<not> data_typed d then (Err (Errorf ''expected data block''), (s, res))
        else if ws = [] then (Ok pos', (put_block s b d, count_blocks 1 res))
        else replay_tags extents jsb (pre @ tag_bytes ((b, d) # ws) @ r) (length pre + 8) pos'
               (put_block s b d, count_blocks 1 res))"
proof -
  define buf where "buf = pre @ tag_bytes ((b, d) # ws) @ r"
  define pos' where "pos' = advance (jsb_maxlen jsb) pos"
  define J where "J = journal_copy (bsz s) d"
  have g: "get32 (length pre) buf = ucast b" "get32 (length pre + 4) buf = tag_flags (ws = []) d"
      "\<not> length pre + 8 > length buf"
    by (simp_all add: buf_def bytes_simps)
  have w: "fs_ok s" "block_in s b" "length d = bsz s" "b \<noteq> 0" "unat b < 2 ^ 32" "1024 \<le> bsz s"
    using assms(4) by (auto simp: taggable_def writable_def fs_ok_def)
  have u: "ucast (ucast b :: u32) = b" "(ucast b :: u32) \<noteq> 0"
    using w(4,5) by (simp_all add: word_unat_eq_iff unsigned_ucast_eq unsigned_take_bit_eq take_bit_nat_eq_self)
  have q: "block_in s (phys extents pos')" "pos' \<le> jsb_maxlen jsb"
    using journal_blocks_in [OF assms(1,3)] assms(2) by (auto simp: pos'_def)
  have lg: "pos' \<noteq> jsb_start jsb" "blk s (phys extents pos') = J"
    using assms(5) by (auto simp: logged_def pos'_def J_def)
  have rd: "readJournalBlock extents pos' s = (Ok (header_of J, J), s)"
    using readJournalBlock_ok [OF assms(1) q(2) w(1) q(1)] lg(2) by simp
  have ty: "H_blocktype (header_of J) = JBD2_BLOCK \<longleftrightarrow> data_typed d"
    using get32_journal_copy [of d "bsz s"] w by (simp add: header_of_def J_def data_typed_def)
  have un: "(if tag_flags l d AND JBD2_FLAG_ESCAPE \<noteq> 0 then xor_esc J else J) = d" for l
    using w(3) by (simp only: tag_flags_bits(2)) (simp add: J_def journal_copy_full xor_esc_twice)
  have wr: "write_block d b s = (Ok (), put_block s b d)" using w by simp
  have cb: "res\<lparr>r_BlocksApplied := r_BlocksApplied res + 1\<rparr> = count_blocks 1 res" by (simp add: count_blocks_def)
  show ?thesis
    unfolding buf_def [symmetric] pos'_def [symmetric]
    by (cases "data_typed d"; cases "ws = []"; subst replay_tags.simps)
      (simp_all add: g(1,2) g(3) [simplified] u lg(1) rd ty un wr cb tag_flags_bits(1,3) Let_def flip: pos'_def
        split del: if_split)
qed

lemma logged_put_block:
  assumes "journal_on s0 extents jsb" and "\<And>c. block_in s c = block_in s0 c" and "pos_in (jsb_maxlen jsb) pos"
    and "taggable s extents jsb ((b, d) # ws)" and "logged s extents jsb pos ((b, d) # ws)"
  shows "logged (put_block s b d) extents jsb (advance (jsb_maxlen jsb) pos) ws"
    and "taggable (put_block s b d) extents jsb ws" and "block_in (put_block s b d) c = block_in s0 c"
proof -
  let ?m = "jsb_maxlen jsb"
  have w: "fs_ok s" "block_in s b" "length d = bsz s" "b \<notin> phys extents ` {p. p \<le> ?m}"
    using assms(4) by (auto simp: taggable_def writable_def)
  show "taggable (put_block s b d) extents jsb ws" "block_in (put_block s b d) c = block_in s0 c"
    using w assms(2,4) by (auto simp: taggable_def)
  have "blk (put_block s b d) (phys extents (log_pos ?m pos (Suc k))) = blk s (phys extents (log_pos ?m pos (Suc k)))" for k
  proof -
    have p: "log_pos ?m pos (Suc k) \<le> ?m" using unat_log_pos(2) [OF assms(3)] by (simp add: pos_in_def del: log_pos_simps)
    then have "block_in s (phys extents (log_pos ?m pos (Suc k)))"
      using assms(1,2) by (auto simp: journal_on_def simp del: log_pos_simps)
    moreover have "phys extents (log_pos ?m pos (Suc k)) \<noteq> b" using w(4) p by blast
    ultimately show ?thesis using w by (simp add: blk_put_block del: log_pos_simps)
  qed
  with assms(5) show "logged (put_block s b d) extents jsb (advance ?m pos) ws"
    by (fastforce simp: logged_def simp flip: log_pos_simps(2))
qed

text \<open>The blocks before the first one that does not look like a data block.\<close>

definition accepted :: "dirty_map \<Rightarrow> dirty_map" where
  "accepted ws = takeWhile (\<lambda>(b, d). data_typed d) ws"

lemma accepted_simps [simp]:
  "accepted [] = []" "accepted ((b, d) # ws) = (if data_typed d then (b, d) # accepted ws else [])"
  by (simp_all add: accepted_def)

lemma count_blocks_add [simp]: "count_blocks m (count_blocks n res) = count_blocks (n + m) res"
  by (simp add: count_blocks_def)

lemma replay_tags_all:
  assumes "journal_on s0 extents jsb" and "\<And>c. block_in s c = block_in s0 c" and "pos_in (jsb_maxlen jsb) pos"
    and "taggable s extents jsb ws" and "logged s extents jsb pos ws" and "ws \<noteq> []"
  shows "replay_tags extents jsb (pre @ tag_bytes ws @ r) (length pre) pos (s, res) =
    (if accepted ws = ws
     then (Ok (log_pos (jsb_maxlen jsb) pos (length ws)), (put_blocks ws s, count_blocks (length ws) res))
     else (Err (Errorf ''expected data block''), (put_blocks (accepted ws) s, count_blocks (length (accepted ws)) res)))"
  using assms(2-6)
proof (induction ws arbitrary: pre pos s res)
  case (Cons w ws)
  obtain b d where w: "w = (b, d)" by fastforce
  note tag = replay_tag [OF assms(1) Cons.prems(1-4) [unfolded w], of pre r res]
  have z: "count_blocks 0 res = res" by (simp add: count_blocks_def)
  show ?case
  proof (cases "data_typed d \<and> ws \<noteq> []")
    case True
    let ?pre = "pre @ put32 (ucast b) @ put32 (tag_flags False d)"
    have buf: "pre @ tag_bytes ((b, d) # ws) @ r = ?pre @ tag_bytes ws @ r" using True by simp
    note n = logged_put_block [OF assms(1) Cons.prems(1-4) [unfolded w]]
    have "replay_tags extents jsb (?pre @ tag_bytes ws @ r) (length ?pre) (advance (jsb_maxlen jsb) pos)
        (put_block s b d, count_blocks 1 res) =
      (if accepted ws = ws
       then (Ok (log_pos (jsb_maxlen jsb) pos (length (w # ws))),
             (put_blocks (w # ws) s, count_blocks (length (w # ws)) res))
       else (Err (Errorf ''expected data block''),
             (put_blocks (w # accepted ws) s, count_blocks (Suc (length (accepted ws))) res)))"
      using Cons.IH [OF n(3) unat_advance(2) [OF Cons.prems(2)] n(2) n(1), of ?pre "count_blocks 1 res"] True
      by (simp add: w)
    with True tag show ?thesis unfolding w buf by simp
  next
    case False
    with tag z show ?thesis unfolding w by auto
  qed
qed simp


section \<open>A replay that does not end\<close>

lemma go_loop_stuck: "(\<And>s. P s \<Longrightarrow> body a s = (Ok (Some a), s)) \<Longrightarrow> P s \<Longrightarrow> go_loop n body a s = None"
  by (induction n) simp_all

lemma open_journal_ok:
  assumes "journal_on s extents jsb" and "fs_ok s" and "fs_sb s = Some sb" and "S_journal_dev sb = 0"
    and "jsb_start jsb \<noteq> 0" and "jsb_start jsb \<le> jsb_maxlen jsb"
  shows "open_journal s = (Ok (Some (extents, jsb)), s)"
proof -
  obtain jinode where j: "S_journal_inum sb \<noteq> 0" "ReadInode (S_journal_inum sb) s = (Ok jinode, s)"
      "ReadExtents jinode s = (Ok extents, s)"
    using assms(1,3) by (auto simp: journal_on_def)
  have f: "findPhysicalBlock extents 0 = Some (phys extents 0)" "block_in s (phys extents 0)"
      "jsb_of (blk s (phys extents 0)) = Ok jsb" "\<not> jsb_bad_magic jsb"
    using assms(1) by (auto simp: journal_on_def)
  show ?thesis using assms(2-6) j f by (auto simp: open_journal_def deref_sb_def)
qed

text \<open>C22: when the log starts with a descriptor block whose first tag is empty, the replay reads that block
  again and again: the recovery of such a file system does not return, however many iterations it is
  given.\<close>

theorem replay_endless:
  assumes "journal_on s extents jsb" and "fs_ok s" and "fs_sb s = Some sb" and "S_journal_dev sb = 0"
    and "jsb_start jsb \<noteq> 0" and "jsb_start jsb \<le> jsb_maxlen jsb" and "JournalNeedsRecovery s"
    and "get32 4 (blk s (phys extents (jsb_start jsb))) = JBD2_DESCRIPTOR"
    and "get32 12 (blk s (phys extents (jsb_start jsb))) = 0" and "get32 16 (blk s (phys extents (jsb_start jsb))) = 0"
  shows "Recover n s = None"
proof -
  define D where "D = blk s (phys extents (jsb_start jsb))"
  have bi: "block_in s (phys extents (jsb_start jsb))" using assms(1,6) by (auto simp: journal_on_def)
  have rd: "readJournalBlock extents (jsb_start jsb) s = (Ok (header_of D, D), s)"
    using readJournalBlock_ok [OF assms(1,6,2) bi] by (simp add: D_def)
  have "20 \<le> length D" using bi assms(2) by (simp add: D_def fs_ok_def)
  then have tags: "replay_tags extents jsb D 12 pos t = (Ok pos, t)" for pos t
    using assms(9,10) by (subst replay_tags.simps) (simp add: Let_def flip: D_def)
  have wp: "wrap_pos (jsb_maxlen jsb) (jsb_start jsb) = jsb_start jsb" using assms(6) by (auto simp: wrap_pos_def)
  have "replay_step extents jsb (jsb_start jsb) (s, res) = (Ok (Some (jsb_start jsb)), (s, res))"
    if "r_Transactions res = 0" for res
    using that assms(8) by (simp add: replay_step_def Let_def wp rd tags header_of_def jbd2_consts flip: D_def)
  then have "go_loop n (replay_step extents jsb) (jsb_start jsb) (s, no_result\<lparr>r_JournalReplayed := True\<rparr>) = None"
    by (intro go_loop_stuck [where P = "\<lambda>(t, res). t = s \<and> r_Transactions res = 0"]) (auto simp: no_result_def)
  then show ?thesis
    using open_journal_ok [OF assms(1-6)] assms(7) by (simp add: Recover_def replayJournal_def)
qed

section \<open>Witnesses\<close>

definition typed_block :: bytes where
  "typed_block = put32 JBD2_MAGIC @ put32 JBD2_BLOCK @ zeros 1016"


definition empty_descriptor :: bytes where
  "empty_descriptor = journal_header JBD2_DESCRIPTOR 1 @ zeros 1012"

theorem replay_endless_witness:
  "Recover 1000 (journal_fs [(9, jsb_block 1), (10, empty_descriptor)]) = None"
proof -
  define ws where "ws = [(9, jsb_block 1), (10 :: u64, empty_descriptor)]"
  let ?s = "journal_fs ws"
  have da: "data_area ws" "distinct (map fst ws)"
    by (simp_all add: ws_def data_area_def jsb_block_facts empty_descriptor_def journal_header_def)
  note f = journal_fs_facts [OF da(1)]
  have jo: "journal_on ?s [journal_ext] (example_jsb 1)"
    by (rule example_journal_on [OF da]) (simp add: ws_def)
  have sel: "jsb_maxlen (example_jsb 1) = 4" "jsb_start (example_jsb 1) = 1" "phys [journal_ext] 1 = 10"
    using phys_journal_ext(2) by (simp_all add: example_jsb_def)
  have b: "blk ?s 10 = empty_descriptor" using f(6) [OF _ da(2)] by (simp add: ws_def)
  have e: "get32 4 empty_descriptor = JBD2_DESCRIPTOR" "get32 12 empty_descriptor = 0" "get32 16 empty_descriptor = 0"
    by (simp_all add: empty_descriptor_def journal_header_def bytes_simps)
  have "JournalNeedsRecovery ?s" using f(4) by (simp add: JournalNeedsRecovery_def EXT4_FEATURE_INCOMPAT_RECOVERY_def)
  moreover have "S_journal_dev ((example_sb 64)\<lparr>S_journal_inum := 8, S_feature_incompat := 1\<rparr>) = 0"
    by (simp add: example_sb_def superblock_decode_def)
  ultimately show ?thesis
    using replay_endless [OF jo f(1) f(4), of 1000] b e sel by (simp flip: ws_def)
qed

end
