(* ===== verification/Xattr.thy ===== *)
theory Xattr
  imports Alloc_Props "HOL-Library.Product_Lexorder" "HOL-Library.List_Lexorder"
begin

text \<open>
  Extended attributes (\<open>vfs/xattr.go\<close>). A Go map from names to values is an association list with
  distinct names; \<open>serializeXAttrs\<close> ranges over it in an unspecified order and then sorts by index, length
  and name, which are different for different names, so that the order of the list does not matter. An attribute area
  is parsed by \<open>xattr_loop\<close>, used for the area behind the inode (values are relative to the first
  entry) and for the external block (values are relative to the block).
\<close>

type_synonym xattrs = "(bytes \<times> bytes) list"

section \<open>Names\<close>

definition go_string :: "string \<Rightarrow> bytes" where
  "go_string s = map of_char s"

definition xattrPrefixes :: "(u8 \<times> bytes) list" where
  "xattrPrefixes = [
     (2, go_string ''system.posix_acl_access''),
     (3, go_string ''system.posix_acl_default''),
     (1, go_string ''user.''),
     (4, go_string ''trusted.''),
     (6, go_string ''security.''),
     (7, go_string ''system.''),
     (8, go_string ''system.richacl'')]"

fun split_name :: "(u8 \<times> bytes) list \<Rightarrow> bytes \<Rightarrow> u8 \<times> bytes" where
  "split_name [] fullName = (0, fullName)"
| "split_name ((i, p) # ps) fullName =
     (if length p \<le> length fullName \<and> take (length p) fullName = p then (i, drop (length p) fullName)
      else split_name ps fullName)"

definition splitXAttrName :: "bytes \<Rightarrow> u8 \<times> bytes" where
  "splitXAttrName = split_name xattrPrefixes"

fun join_name :: "(u8 \<times> bytes) list \<Rightarrow> u8 \<Rightarrow> bytes \<Rightarrow> bytes" where
  "join_name [] ix suffix = suffix"
| "join_name ((i, p) # ps) ix suffix = (if i = ix then p @ suffix else join_name ps ix suffix)"

definition joinXAttrName :: "u8 \<Rightarrow> bytes \<Rightarrow> bytes" where
  "joinXAttrName = join_name xattrPrefixes"

section \<open>Attribute areas\<close>

record serializedEntry =
  se_nameLen :: u8
  se_nameIndex :: u8
  se_name :: bytes
  se_value :: bytes

definition align4 :: "nat \<Rightarrow> nat" where
  "align4 n = (n + 3) div 4 * 4"

definition entry_len :: "u8 \<Rightarrow> nat" where
  "entry_len nameLen = align4 (16 + unat nameLen)"

lemma entry_len_ge: "16 \<le> entry_len n" "16 + unat n \<le> entry_len n"
  unfolding entry_len_def align4_def by linarith+

lemma entry_len_pos [simp]: "0 < entry_len n"
  using entry_len_ge(1) [of n] by linarith

text \<open>The loop over the entries from \<open>cur\<close> on; a value lies at \<open>base\<close> plus the offset of its entry.\<close>

function xattr_loop :: "bytes \<Rightarrow> nat \<Rightarrow> nat \<Rightarrow> xattrs \<Rightarrow> xattrs" where
  "xattr_loop buf base cur xattrs =
     (if cur + 4 > length buf \<or> get32 cur buf = 0 \<or> cur + 16 > length buf then xattrs
      else
        let nameLen = buf ! cur;
            nameIndex = buf ! (cur + 1);
            valOff = base + unat (get16 (cur + 2) buf);
            valSize = unat (get32 (cur + 8) buf);
            entryLen = entry_len nameLen
        in if cur + entryLen > length buf then xattrs
           else
             let fullName = joinXAttrName nameIndex (bslice (cur + 16) (cur + 16 + unat nameLen) buf);
                 xattrs' = (if valOff + valSize \<le> length buf
                            then AList.update fullName (bslice valOff (valOff + valSize) buf) xattrs else xattrs)
             in xattr_loop buf base (cur + entryLen) xattrs')"
  by pat_completeness auto
termination
  by (relation "measure (\<lambda>(buf, _, cur, _). length buf - cur)") (auto simp: less_diff_iff diff_less_mono2)

declare xattr_loop.simps [simp del]

definition entry_of :: "bytes \<times> bytes \<Rightarrow> serializedEntry" where
  "entry_of x = (case x of (fullName, val) \<Rightarrow> case splitXAttrName fullName of (idx, suffix) \<Rightarrow>
     \<lparr>se_nameLen = word_of_nat (length suffix), se_nameIndex = idx, se_name = suffix, se_value = val\<rparr>)"

definition entry_key :: "serializedEntry \<Rightarrow> u8 \<times> u8 \<times> bytes" where
  "entry_key e = (se_nameIndex e, se_nameLen e, se_name e)"

definition attr_image :: "serializedEntry \<Rightarrow> u16 \<Rightarrow> bytes" where
  "attr_image e valueOffset =
     [se_nameLen e, se_nameIndex e] @ put16 valueOffset @ put32 0 @ put32 (word_of_nat (length (se_value e))) @
     put32 0 @ take (unat (se_nameLen e)) (se_name e)"

fun put_xattrs :: "serializedEntry list \<Rightarrow> nat \<Rightarrow> nat \<Rightarrow> bytes \<Rightarrow> bytes" where
  "put_xattrs [] currEntryOff currValOff buf = buf"
| "put_xattrs (e # es) currEntryOff currValOff buf =
     (let valOff = currValOff - align4 (length (se_value e));
          buf1 = copy_at currEntryOff (attr_image e (word_of_nat valOff)) buf;
          buf2 = copy_at valOff (se_value e) buf1
      in put_xattrs es (currEntryOff + entry_len (se_nameLen e)) valOff buf2)"

definition entry_table_len :: "serializedEntry list \<Rightarrow> nat" where
  "entry_table_len es = sum_list (map (\<lambda>e. entry_len (se_nameLen e)) es) + 4"

definition value_table_len :: "serializedEntry list \<Rightarrow> nat" where
  "value_table_len es = sum_list (map (\<lambda>e. align4 (length (se_value e))) es)"

text \<open>The result for an empty map is a nil slice. The check of the two table lengths keeps every
  slice of the loop in range.\<close>

definition serializeXAttrs :: "xattrs \<Rightarrow> int \<Rightarrow> bytes res" where
  "serializeXAttrs xattrs availSpace =
     (if xattrs = [] then Ok []
      else
        let entries = sort_key entry_key (map entry_of xattrs)
        in if int (entry_table_len entries + value_table_len entries) > availSpace then Err ErrNoSpace
           else Ok (put_xattrs entries 0 (nat availSpace) (zeros (nat availSpace))))"

section \<open>The bytes of an inode\<close>

definition raw_inode_offset :: "u32 \<Rightarrow> int fsop" where
  "raw_inode_offset inodeNum =
     (if inodeNum < 1 then failw (Errorf ''invalid inode number'')
      else
        andThen (inode_slot inodeNum) (\<lambda>(groupIndex, localInodeIndex).
        andThen (getS fs_GroupCount) (\<lambda>gc.
          if groupIndex \<ge> gc then failw (Errorf ''inode group out of range'')
          else
            andThen (bgd_at groupIndex) (\<lambda>bgd.
            andThen (getS id) (\<lambda>fs.
              let tableBlock = gd_addr fs (BG_inode_table_lo bgd) (BG_inode_table_hi bgd)
              in ret (sint (tableBlock * fs_BlockSize fs + ucast localInodeIndex * ucast (fs_InodeSize fs))))))))"

definition ReadRawInode :: "u32 \<Rightarrow> bytes fsop" where
  "ReadRawInode inodeNum =
     andThen (raw_inode_offset inodeNum) (\<lambda>offset.
     andThen (getS fs_InodeSize) (\<lambda>sz. fs_read (unat sz) offset))"

definition WriteRawInode :: "u32 \<Rightarrow> bytes \<Rightarrow> unit fsop" where
  "WriteRawInode inodeNum buf = andThen (raw_inode_offset inodeNum) (\<lambda>offset. fs_write buf offset)"

section \<open>Operations\<close>

definition XATTR_MAGIC :: u32 where "XATTR_MAGIC = 0xEA020000"

definition file_acl_block :: "Inode \<Rightarrow> u64" where
  "file_acl_block i = push_bit 32 (ucast (L_i_file_acl_high i)) OR ucast (I_file_acl_lo i)"

text \<open>The sum that guards the area behind the inode is computed in 16 bits.\<close>

definition ibody_xattrs :: "Inode \<Rightarrow> bytes \<Rightarrow> xattrs res" where
  "ibody_xattrs inode rawInode =
     (if I_extra_isize inode > 0 \<and> unat (128 + I_extra_isize inode + 4) \<le> length rawInode
      then
        let ibodyOffset = 128 + unat (I_extra_isize inode)
        in if ibodyOffset + 4 > length rawInode then Panic
           else if get32 ibodyOffset rawInode = XATTR_MAGIC
           then Ok (xattr_loop rawInode (ibodyOffset + 4) (ibodyOffset + 4) [])
           else Ok []
      else Ok [])"

definition block_xattrs :: "bytes \<Rightarrow> xattrs \<Rightarrow> xattrs res" where
  "block_xattrs blockBuf xattrs =
     (if length blockBuf < 4 then Panic
      else if get32 0 blockBuf = XATTR_MAGIC then Ok (xattr_loop blockBuf 0 32 xattrs)
      else Ok xattrs)"

definition ListXAttrs :: "u32 \<Rightarrow> xattrs fsop" where
  "ListXAttrs inodeNum =
     andThen (ReadRawInode inodeNum) (\<lambda>rawInode.
     andThen (liftR (binary_Read 160 inode_decode rawInode)) (\<lambda>inode.
     andThen (liftR (ibody_xattrs inode rawInode)) (\<lambda>xattrs.
       if file_acl_block inode > 0
       then andThen (attempt (read_block (file_acl_block inode))) (\<lambda>blockBuf.
              case blockBuf of
                None \<Rightarrow> ret xattrs
              | Some b \<Rightarrow> liftR (block_xattrs b xattrs))
       else ret xattrs)))"

definition GetXAttr :: "u32 \<Rightarrow> bytes \<Rightarrow> bytes fsop" where
  "GetXAttr inodeNum name =
     andThen (ListXAttrs inodeNum) (\<lambda>xattrs.
       case map_of xattrs name of None \<Rightarrow> failw ErrAttrNotExist | Some val \<Rightarrow> ret val)"

text \<open>The map with the change made: a nil value deletes the attribute, which must exist.\<close>

definition change_xattrs :: "xattrs \<Rightarrow> bytes \<Rightarrow> bytes option \<Rightarrow> xattrs res" where
  "change_xattrs xattrs name value =
     (case value of
        None \<Rightarrow> if map_of xattrs name = None then Err ErrAttrNotExist else Ok (AList.delete name xattrs)
      | Some v \<Rightarrow> Ok (AList.update name v xattrs))"

definition set_file_acl :: "u64 \<Rightarrow> Inode \<Rightarrow> Inode" where
  "set_file_acl b inode = inode\<lparr>I_file_acl_lo := ucast b, L_i_file_acl_high := ucast (drop_bit 32 b)\<rparr>"

text \<open>The bytes of the inode cleared from \<open>ibodyOffset\<close> on.\<close>

definition clear_from :: "nat \<Rightarrow> bytes \<Rightarrow> bytes" where
  "clear_from k raw = take k raw @ zeros (length raw - k)"

definition write_and_free :: "u32 \<Rightarrow> bytes \<Rightarrow> u64 \<Rightarrow> unit fsop" where
  "write_and_free inodeNum rawInode oldFileAclBlock =
     andThen (WriteRawInode inodeNum rawInode) (\<lambda>_.
       if oldFileAclBlock > 0 then FreeBlock oldFileAclBlock else ret ())"

text \<open>The attributes behind the inode: \<open>None\<close> when there is no room for them.\<close>

definition fit_inode :: "xattrs \<Rightarrow> u16 \<Rightarrow> Inode \<Rightarrow> bytes option" where
  "fit_inode xattrs inodeSize inode =
     (let availSpace = int (unat inodeSize) - 128 - int (unat (I_extra_isize inode)) - 4
      in if I_extra_isize inode > 0 \<and> availSpace > 0
         then (case serializeXAttrs xattrs availSpace of Ok b \<Rightarrow> Some b | _ \<Rightarrow> None)
         else None)"

definition store_in_inode :: "u32 \<Rightarrow> xattrs \<Rightarrow> bytes \<Rightarrow> Inode \<Rightarrow> bytes \<Rightarrow> unit fsop" where
  "store_in_inode inodeNum xattrs inInodeBuf inode rawInode =
     (let raw1 = copy_at 0 (inode_bytes (set_file_acl 0 inode)) rawInode;
          ibodyOffset = 128 + unat (I_extra_isize inode);
          raw2 = (if xattrs \<noteq> []
                  then copy_at (ibodyOffset + 4) inInodeBuf (copy_at ibodyOffset (put32 XATTR_MAGIC) raw1)
                  else clear_from ibodyOffset raw1)
      in write_and_free inodeNum raw2 (file_acl_block inode))"

definition xattr_block_header :: bytes where
  "xattr_block_header = put32 XATTR_MAGIC @ put32 1 @ put32 1 @ put32 0 @ put32 0"

definition add_sectors :: "u64 \<Rightarrow> Inode \<Rightarrow> Inode" where
  "add_sectors blockSize inode =
     (let sectorCount = (ucast (I_blocks_lo inode) OR push_bit 32 (ucast (L_i_blocks_high inode))) + blockSize div 512
      in inode\<lparr>I_blocks_lo := ucast sectorCount, L_i_blocks_high := ucast (drop_bit 32 sectorCount)\<rparr>)"

text \<open>An error after the allocation of a new block frees it again and drops the error of that.\<close>

definition free_on_error :: "bool \<Rightarrow> u64 \<Rightarrow> 'a fsop \<Rightarrow> 'a fsop" where
  "free_on_error isNew blockNum m s =
     (case m s of
        (Err e, s') \<Rightarrow> if isNew then andThen (attempt (FreeBlock blockNum)) (\<lambda>_. failw e) s' else (Err e, s')
      | r \<Rightarrow> r)"

definition store_in_block :: "u32 \<Rightarrow> xattrs \<Rightarrow> Inode \<Rightarrow> bytes \<Rightarrow> unit fsop" where
  "store_in_block inodeNum xattrs inode rawInode =
     (let old = file_acl_block inode; isNew = (old = 0)
      in andThen (if isNew then AllocateBlock else ret old) (\<lambda>blockNum.
         andThen (getS fs_BlockSize) (\<lambda>blockSize.
         andThen (free_on_error isNew blockNum
                   (liftR (serializeXAttrs xattrs (int (unat blockSize) - 32)))) (\<lambda>blockBuf.
         andThen (free_on_error isNew blockNum
                   (write_block (copy_at 32 blockBuf (copy_at 0 xattr_block_header (zeros (unat blockSize)))) blockNum)) (\<lambda>_.
           let inode1 = set_file_acl blockNum inode;
               inode2 = (if isNew then add_sectors blockSize inode1 else inode1)
           in WriteRawInode inodeNum (copy_at 0 (inode_bytes inode2) rawInode))))))"

definition SetXAttr :: "u32 \<Rightarrow> bytes \<Rightarrow> bytes option \<Rightarrow> unit fsop" where
  "SetXAttr inodeNum name value =
     andThen (ListXAttrs inodeNum) (\<lambda>old.
     andThen (liftR (change_xattrs old name value)) (\<lambda>xattrs.
     andThen (ReadRawInode inodeNum) (\<lambda>rawInode.
     andThen (liftR (binary_Read 160 inode_decode rawInode)) (\<lambda>inode.
     andThen (getS fs_InodeSize) (\<lambda>inodeSize.
       case fit_inode xattrs inodeSize inode of
         Some inInodeBuf \<Rightarrow> store_in_inode inodeNum xattrs inInodeBuf inode rawInode
       | None \<Rightarrow>
           let raw1 = (if I_extra_isize inode > 0 then clear_from (128 + unat (I_extra_isize inode)) rawInode
                       else rawInode)
           in if xattrs = []
              then write_and_free inodeNum (copy_at 0 (inode_bytes (set_file_acl 0 inode)) raw1) (file_acl_block inode)
              else store_in_block inodeNum xattrs inode raw1)))))"

definition RemoveXAttr :: "u32 \<Rightarrow> bytes \<Rightarrow> unit fsop" where
  "RemoveXAttr inodeNum name = SetXAttr inodeNum name None"

end
