(* ===== verification/Xattr_Props.thy ===== *)
theory Xattr_Props
  imports Xattr
begin

text \<open>
  Correctness of the extended attributes: serialising a map and parsing the bytes gives the map back, and
  \<open>SetXAttr\<close> changes the attributes of an inode as a map. Values in the external block come
  back from the wrong place.
\<close>

section \<open>Names\<close>

lemma split_name_cases:
  "split_name ps f = (i, s) \<Longrightarrow> (\<exists>p. (i, p) \<in> set ps \<and> f = p @ s) \<or> (i = 0 \<and> s = f)"
proof (induction ps)
  case (Cons x ps)
  obtain j p where x: "x = (j, p)" by fastforce
  with Cons show ?case
    by (auto simp: split: if_splits) (metis append_take_drop_id)+
qed simp

lemma join_name_in: "(i, p) \<in> set ps \<Longrightarrow> distinct (map fst ps) \<Longrightarrow> join_name ps i s = p @ s"
  by (induction ps) (auto simp: rev_image_eqI)

lemma join_name_out: "i \<notin> fst ` set ps \<Longrightarrow> join_name ps i s = s"
  by (induction ps) auto

lemma join_split: "splitXAttrName f = (i, s) \<Longrightarrow> joinXAttrName i s = f"
proof -
  assume "splitXAttrName f = (i, s)"
  then consider p where "(i, p) \<in> set xattrPrefixes" "f = p @ s" | "i = 0" "s = f"
    using split_name_cases [of xattrPrefixes f i s] by (auto simp: splitXAttrName_def)
  then show ?thesis
  proof cases
    case 1
    moreover have "distinct (map fst xattrPrefixes)" by (simp add: xattrPrefixes_def)
    ultimately show ?thesis using join_name_in by (simp add: joinXAttrName_def)
  next
    case 2
    moreover have "0 \<notin> fst ` set xattrPrefixes" by (simp add: xattrPrefixes_def)
    ultimately show ?thesis using join_name_out by (simp add: joinXAttrName_def)
  qed
qed

section \<open>Areas\<close>

definition entry_ok :: "serializedEntry \<Rightarrow> bool" where
  "entry_ok e \<longleftrightarrow> unat (se_nameLen e) = length (se_name e) \<and> (se_nameLen e \<noteq> 0 \<or> se_nameIndex e \<noteq> 0) \<and>
     length (se_value e) < 2 ^ 32"

lemma length_attr_image [simp]: "entry_ok e \<Longrightarrow> length (attr_image e v) = 16 + unat (se_nameLen e)"
  by (simp add: attr_image_def entry_ok_def)

lemma align4_ge: "n \<le> align4 n"
  unfolding align4_def by linarith

text \<open>The bytes \<open>B\<close> hold the entries \<open>es\<close> from \<open>off\<close> on, their values below \<open>voff\<close>, and a terminator.\<close>

fun area :: "serializedEntry list \<Rightarrow> nat \<Rightarrow> nat \<Rightarrow> bytes \<Rightarrow> bool" where
  "area [] off voff B \<longleftrightarrow> off + 4 \<le> length B \<and> get32 off B = 0"
| "area (e # es) off voff B \<longleftrightarrow>
     (let v = voff - align4 (length (se_value e))
      in off + entry_len (se_nameLen e) \<le> length B \<and> v + length (se_value e) \<le> length B \<and> v < 2 ^ 16 \<and>
         bslice off (off + 16 + unat (se_nameLen e)) B = attr_image e (word_of_nat v) \<and>
         bslice v (v + length (se_value e)) B = se_value e \<and>
         area es (off + entry_len (se_nameLen e)) v B)"

definition tables_fit :: "serializedEntry list \<Rightarrow> nat \<Rightarrow> nat \<Rightarrow> bool" where
  "tables_fit es off voff \<longleftrightarrow> off + entry_table_len es + value_table_len es \<le> voff"

lemma tables_fit_simps [simp]:
  "tables_fit [] off voff \<longleftrightarrow> off + 4 \<le> voff"
  "tables_fit (e # es) off voff \<longleftrightarrow> align4 (length (se_value e)) \<le> voff \<and>
     tables_fit es (off + entry_len (se_nameLen e)) (voff - align4 (length (se_value e)))"
  by (auto simp: tables_fit_def entry_table_len_def value_table_len_def)

lemma tables_fit_le: "tables_fit es off voff \<Longrightarrow> off + 4 \<le> voff"
  by (simp add: tables_fit_def entry_table_len_def)

lemma put_xattrs_frame:
  assumes "tables_fit es off voff" and "voff \<le> length buf" and "\<forall>e \<in> set es. entry_ok e"
  shows "length (put_xattrs es off voff buf) = length buf \<and>
    (\<forall>i < length buf. i < off \<or> voff \<le> i \<longrightarrow> put_xattrs es off voff buf ! i = buf ! i)"
  using assms
proof (induction es arbitrary: off voff buf)
  case (Cons e es)
  define v where "v = voff - align4 (length (se_value e))"
  define b2 where "b2 = copy_at v (se_value e) (copy_at off (attr_image e (word_of_nat v)) buf)"
  define off' where "off' = off + entry_len (se_nameLen e)"
  have f: "tables_fit es off' v" "align4 (length (se_value e)) \<le> voff" using Cons.prems by (simp_all add: v_def off'_def)
  have ge: "16 + unat (se_nameLen e) \<le> entry_len (se_nameLen e)" "length (se_value e) \<le> align4 (length (se_value e))"
    by (rule entry_len_ge(2), rule align4_ge)
  have lt: "off' + 4 \<le> v" "v + length (se_value e) \<le> voff" using tables_fit_le [OF f(1)] f(2) ge(2) by (auto simp: v_def)
  have b2: "length b2 = length buf" "b2 ! i = buf ! i" if "i < length buf" "i < off \<or> voff \<le> i" for i
    using that lt ge Cons.prems(2,3) by (auto simp: b2_def off'_def nth_copy_at)
  have l2: "length b2 = length buf" using lt ge Cons.prems by (simp add: b2_def off'_def)
  have "v \<le> length b2" using l2 lt Cons.prems(2) by simp
  note IH = Cons.IH [OF f(1) this] 
  have p: "put_xattrs (e # es) off voff buf = put_xattrs es off' v b2"
    by (simp add: v_def b2_def off'_def Let_def)
  show ?case unfolding p using IH Cons.prems(3) l2 b2(2) lt by (auto simp: off'_def)
qed simp

lemma bslice_eqI:
  "length xs = length ys \<Longrightarrow> (\<And>i. a \<le> i \<Longrightarrow> i < b \<Longrightarrow> i < length xs \<Longrightarrow> xs ! i = ys ! i) \<Longrightarrow> bslice a b xs = bslice a b ys"
  by (rule nth_equalityI) (auto simp: bslice_def)

lemma put_xattrs_area:
  assumes "tables_fit es off voff" and "voff \<le> length buf" and "voff < 2 ^ 16" and "\<forall>e \<in> set es. entry_ok e"
    and "\<forall>i. off \<le> i \<and> i < voff \<longrightarrow> buf ! i = 0"
  shows "area es off voff (put_xattrs es off voff buf)"
  using assms
proof (induction es arbitrary: off voff buf)
  case Nil
  have "bslice off (off + 4) buf = zeros 4"
    using Nil by (intro nth_equalityI) (auto simp: bslice_def zeros_def)
  then have "get32 off buf = get32 0 (zeros 4)" by (simp add: get32_def bslice_def zeros_def)
  then show ?case using Nil by simp
next
  case (Cons e es)
  define v where "v = voff - align4 (length (se_value e))"
  define b1 where "b1 = copy_at off (attr_image e (word_of_nat v)) buf"
  define b2 where "b2 = copy_at v (se_value e) b1"
  define off' where "off' = off + entry_len (se_nameLen e)"
  define B where "B = put_xattrs es off' v b2"
  have e: "entry_ok e" and es: "\<forall>e \<in> set es. entry_ok e" using Cons.prems(4) by auto
  have f: "tables_fit es off' v" "align4 (length (se_value e)) \<le> voff" using Cons.prems by (simp_all add: v_def off'_def)
  have ge: "off + 16 + unat (se_nameLen e) \<le> off'" "length (se_value e) \<le> align4 (length (se_value e))"
    using entry_len_ge(2) [of "se_nameLen e"] align4_ge by (auto simp: off'_def)
  have lt: "off' + 4 \<le> v" "v + length (se_value e) \<le> voff" "v \<le> voff"
    using tables_fit_le [OF f(1)] f(2) ge(2) by (auto simp: v_def)
  have l1: "length b1 = length buf" and l2: "length b2 = length buf"
    using lt ge Cons.prems(2) e by (simp_all add: b1_def b2_def)
  have z: "\<forall>i. off' \<le> i \<and> i < v \<longrightarrow> b2 ! i = 0"
    using Cons.prems(2,5) lt ge l1 e by (auto simp: b2_def b1_def nth_copy_at)
  have vl: "v \<le> length b2" "v < 2 ^ 16" using l2 lt(3) Cons.prems(2,3) by auto
  have A: "area es off' v B" unfolding B_def by (rule Cons.IH [OF f(1) vl es z])
  note fr = put_xattrs_frame [OF f(1) vl(1) es, folded B_def]
  have lB: "length B = length buf" using fr l2 by simp
  have "bslice off (off + 16 + unat (se_nameLen e)) B = bslice off (off + 16 + unat (se_nameLen e)) b1"
    using fr l1 l2 ge lt Cons.prems(2) by (intro bslice_eqI) (auto simp: b2_def nth_copy_at)
  also have "\<dots> = attr_image e (word_of_nat v)"
    using slice_copy_at_same [of off "attr_image e (word_of_nat v)" buf] e ge lt Cons.prems(2)
    by (simp add: b1_def add.assoc)
  finally have h: "bslice off (off + 16 + unat (se_nameLen e)) B = attr_image e (word_of_nat v)" .
  have "bslice v (v + length (se_value e)) B = bslice v (v + length (se_value e)) b2"
    using fr l2 by (intro bslice_eqI) auto
  also have "\<dots> = se_value e"
    using slice_copy_at_same [of v "se_value e" b1] l1 lt Cons.prems(2) by (simp add: b2_def)
  finally have w: "bslice v (v + length (se_value e)) B = se_value e" .
  have p: "put_xattrs (e # es) off voff buf = B" by (simp add: B_def v_def b2_def b1_def off'_def Let_def)
  show ?case
    unfolding p using A h w lB lt vl(2) Cons.prems(2) by (simp add: Let_def flip: v_def off'_def)
qed

definition full_name :: "serializedEntry \<Rightarrow> bytes" where
  "full_name e = joinXAttrName (se_nameIndex e) (se_name e)"

definition collect :: "serializedEntry list \<Rightarrow> xattrs \<Rightarrow> xattrs" where
  "collect = fold (\<lambda>e. AList.update (full_name e) (se_value e))"

lemma get_bslice:
  "i + 2 \<le> n \<Longrightarrow> get16 i (bslice off (off + n) B) = get16 (off + i) B"
  "i + 4 \<le> n \<Longrightarrow> get32 i (bslice off (off + n) B) = get32 (off + i) B"
  by (simp_all add: get16_def get32_def bslice_def drop_take min_def add.commute)

lemma attr_image_fields:
  assumes "entry_ok e" and "bslice off (off + 16 + unat (se_nameLen e)) B = attr_image e v"
    and "off + 16 + unat (se_nameLen e) \<le> length B"
  shows "B ! off = se_nameLen e" "B ! (off + 1) = se_nameIndex e" "get16 (off + 2) B = v"
    "get32 (off + 8) B = word_of_nat (length (se_value e))"
    "bslice (off + 16) (off + 16 + unat (se_nameLen e)) B = se_name e" "get32 off B \<noteq> 0"
proof -
  let ?I = "attr_image e v"
  have sub: "bslice (off + i) (off + j) B = bslice i j ?I" if "j \<le> 16 + unat (se_nameLen e)" for i j
    using that unfolding assms(2) [symmetric] by (simp add: bslice_def drop_take min_def add.commute)
  have nth: "B ! (off + i) = ?I ! i" if "i < 16" for i
    using that assms(3) unfolding assms(2) [symmetric] by (simp add: bslice_def)
  show "B ! off = se_nameLen e" "B ! (off + 1) = se_nameIndex e"
    using nth [of 0] nth [of 1] by (simp_all add: attr_image_def)
  show "get16 (off + 2) B = v" "get32 (off + 8) B = word_of_nat (length (se_value e))"
    using get_bslice(1) [of 2 "16 + unat (se_nameLen e)" off B] get_bslice(2) [of 8 "16 + unat (se_nameLen e)" off B] assms(2)
    by (simp_all add: add.assoc) (simp_all add: attr_image_def bytes_simps)
  show "bslice (off + 16) (off + 16 + unat (se_nameLen e)) B = se_name e"
    using sub [of "16 + unat (se_nameLen e)" 16] assms(1)
    by (simp add: attr_image_def bytes_simps entry_ok_def add.assoc)
  show "get32 off B \<noteq> 0"
  proof
    assume "get32 off B = 0"
    then have "bslice off (off + 4) B = put32 0"
      using put_get(2) [of off B] assms(3) by simp
    then have "bslice 0 4 ?I = put32 0" using sub [of 4 0] by simp
    then have "[se_nameLen e, se_nameIndex e] @ put16 v = put32 0"
      by (simp add: attr_image_def bslice_def numeral_eq_Suc)
    then have "se_nameLen e = 0 \<and> se_nameIndex e = 0"
      by (simp add: put32_def numeral_eq_Suc le_bytes.simps)
    with assms(1) show False by (auto simp: entry_ok_def)
  qed
qed

lemma xattr_loop_step:
  assumes "get32 c D \<noteq> 0" and "D ! c = nameLen" and "D ! (c + 1) = nameIndex" and "unat (get16 (c + 2) D) = v"
    and "unat (get32 (c + 8) D) = n" and "bslice (c + 16) (c + 16 + unat nameLen) D = name"
    and "bslice (base + v) (base + v + n) D = val" and "c + entry_len nameLen \<le> length D" and "base + v + n \<le> length D"
  shows "xattr_loop D base c acc =
    xattr_loop D base (c + entry_len nameLen) (AList.update (joinXAttrName nameIndex name) val acc)"
proof -
  have "c + 16 \<le> length D" using assms(8) entry_len_ge(1) [of nameLen] by linarith
  then show ?thesis using assms by (subst xattr_loop.simps) (simp add: Let_def)
qed

lemma xattr_loop_area:
  assumes "area es off voff B" and "\<forall>e \<in> set es. entry_ok e"
  shows "xattr_loop (H @ B) (length H) (length H + off) acc = collect es acc"
  using assms
proof (induction es arbitrary: off voff acc)
  case Nil
  have "get32 (length H + off) (H @ B) = 0" using Nil by (simp add: get32_def bslice_def)
  then show ?case by (subst xattr_loop.simps) (simp add: collect_def)
next
  case (Cons e es)
  define v where "v = voff - align4 (length (se_value e))"
  define off' where "off' = off + entry_len (se_nameLen e)"
  have e: "entry_ok e" using Cons.prems(2) by simp
  have a: "off' \<le> length B" "v + length (se_value e) \<le> length B" "v < 2 ^ 16"
      "bslice off (off + 16 + unat (se_nameLen e)) B = attr_image e (word_of_nat v)"
      "bslice v (v + length (se_value e)) B = se_value e" "area es off' v B"
    using Cons.prems(1) by (simp_all add: v_def off'_def Let_def)
  have ge: "16 \<le> entry_len (se_nameLen e)" "off + 16 + unat (se_nameLen e) \<le> length B"
    using entry_len_ge [of "se_nameLen e"] a(1) by (auto simp: off'_def)
  note f = attr_image_fields [OF e a(4) ge(2)]
  have sh: "bslice (length H + i) (length H + j) (H @ B) = bslice i j B" for i j
    by (simp add: bslice_def)
  have shn: "(H @ B) ! (length H + i) = B ! i" for i by simp
  have g: "get32 (length H + off) (H @ B) \<noteq> 0" "(H @ B) ! (length H + off) = se_nameLen e"
      "(H @ B) ! (length H + off + 1) = se_nameIndex e" "get16 (length H + off + 2) (H @ B) = word_of_nat v"
      "get32 (length H + off + 8) (H @ B) = word_of_nat (length (se_value e))"
      "bslice (length H + off + 16) (length H + off + 16 + unat (se_nameLen e)) (H @ B) = se_name e"
    using f sh [of "off + 16" "off + 16 + unat (se_nameLen e)"] shn [of off] shn [of "off + 1"]
      get_skip [of H "length H + off" B] get_skip [of H "length H + off + 2" B] get_skip [of H "length H + off + 8" B]
    by (simp_all add: add.assoc del: nth_append_length_plus)
  have u: "unat (word_of_nat v :: u16) = v" "unat (word_of_nat (length (se_value e)) :: u32) = length (se_value e)"
    using a(3) e by (simp_all add: unat_of_nat take_bit_nat_eq_self entry_ok_def)
  have val: "bslice (length H + v) (length H + v + length (se_value e)) (H @ B) = se_value e"
    using sh [of v "v + length (se_value e)"] a(5) by (simp add: add.assoc)
  have "xattr_loop (H @ B) (length H) (length H + off) acc =
      xattr_loop (H @ B) (length H) (length H + off') (AList.update (full_name e) (se_value e) acc)"
    unfolding off'_def add.assoc [symmetric] full_name_def
    by (rule xattr_loop_step [OF g(1-3) _ _ g(6) val]) (use g(4,5) u a(1,2) in \<open>simp_all add: off'_def\<close>)
  then show ?case using Cons.IH [OF a(6)] Cons.prems(2) by (simp add: collect_def)
qed

section \<open>Serialising a map\<close>

definition attr_ok :: "bytes \<times> bytes \<Rightarrow> bool" where
  "attr_ok x \<longleftrightarrow> fst x \<noteq> [] \<and> length (snd (splitXAttrName (fst x))) < 256 \<and> length (snd x) < 2 ^ 32"

lemma entry_of_ok:
  assumes "attr_ok x"
  shows "entry_ok (entry_of x)" and "full_name (entry_of x) = fst x" and "se_value (entry_of x) = snd x"
proof -
  obtain i s where sp: "splitXAttrName (fst x) = (i, s)" by fastforce
  obtain f v where x: "x = (f, v)" by fastforce
  have l: "length s < 256" "length v < 2 ^ 32" "f \<noteq> []" using assms sp by (auto simp: attr_ok_def x)
  have u: "unat (word_of_nat (length s) :: u8) = length s" using l by (simp add: unat_of_nat take_bit_nat_eq_self)
  have "s \<noteq> [] \<or> i \<noteq> 0"
  proof (rule ccontr)
    assume "\<not> (s \<noteq> [] \<or> i \<noteq> 0)"
    then have "joinXAttrName 0 [] = f" using join_split [of f i s] sp by (simp add: x)
    then show False using l(3) by (simp add: joinXAttrName_def xattrPrefixes_def)
  qed
  then have "word_of_nat (length s) \<noteq> (0 :: u8) \<or> i \<noteq> 0" using u by (auto simp: word_unat_eq_iff)
  with u l sp show "entry_ok (entry_of x)" by (auto simp: entry_ok_def entry_of_def x)
  show "full_name (entry_of x) = fst x" "se_value (entry_of x) = snd x"
    using sp join_split by (simp_all add: full_name_def entry_of_def x)
qed

lemma map_of_collect:
  "map_of (collect es acc) = map_of acc ++ map_of (rev (map (\<lambda>e. (full_name e, se_value e)) es))"
  by (induction es arbitrary: acc) (simp_all add: collect_def update_conv' fun_eq_iff map_add_def split: option.split)

lemma serialize_area:
  assumes "xs \<noteq> []" and "\<forall>x \<in> set xs. attr_ok x" and "serializeXAttrs xs (int n) = Ok b" and "n < 2 ^ 16"
  shows "length b = n \<and> area (sort_key entry_key (map entry_of xs)) 0 n b"
proof -
  let ?es = "sort_key entry_key (map entry_of xs)"
  have ok: "\<forall>e \<in> set ?es. entry_ok e" using assms(2) entry_of_ok(1) by auto
  have fit: "tables_fit ?es 0 n" and b: "b = put_xattrs ?es 0 n (zeros n)"
    using assms(1,3) by (auto simp: serializeXAttrs_def Let_def tables_fit_def split: if_splits)
  have "length b = n" using put_xattrs_frame [OF fit _ ok, of "zeros n"] by (simp add: b)
  moreover have "area ?es 0 n b"
    unfolding b using fit ok assms(4) by (intro put_xattrs_area) (auto simp: zeros_def)
  ultimately show ?thesis ..
qed

lemma serialize_parse:
  assumes "distinct (map fst xs)" and "\<forall>x \<in> set xs. attr_ok x" and "serializeXAttrs xs (int n) = Ok b" and "n < 2 ^ 16"
    and "xs \<noteq> []"
  shows "map_of (xattr_loop (H @ b) (length H) (length H) []) = map_of xs"
proof -
  let ?es = "sort_key entry_key (map entry_of xs)" and ?p = "\<lambda>e. (full_name e, se_value e)"
  have ok: "\<forall>e \<in> set ?es. entry_ok e" using assms(2) entry_of_ok(1) by auto
  have "xattr_loop (H @ b) (length H) (length H) [] = collect ?es []"
    using xattr_loop_area [of ?es 0 n b H "[]"] serialize_area [OF assms(5,2,3,4)] ok by simp
  then have m: "map_of (xattr_loop (H @ b) (length H) (length H) []) = map_of (rev (map ?p ?es))"
    by (simp add: map_of_collect)
  have p: "map ?p (map entry_of xs) = xs"
    using assms(2) entry_of_ok(2,3) by (simp add: map_idI)
  have "mset (map ?p ?es) = mset (map ?p (map entry_of xs))" by (simp add: multiset.map_comp)
  then have "mset (map ?p ?es) = mset xs" by (simp only: p)
  then show ?thesis unfolding m by (rule map_of_order [OF assms(1)])
qed

text \<open>Parsing the bytes that \<open>serializeXAttrs\<close> produces for a map, at any place of an inode's tail,
  returns the map, in whatever order Go ranges over it.\<close>

theorem xattr_roundtrip:
  assumes "distinct (map fst xs)" and "\<forall>x \<in> set xs. attr_ok x" and "serializeXAttrs xs (int n) = Ok b" and "n < 2 ^ 16"
    and "xs \<noteq> []"
  shows "map_of (xattr_loop (H @ b) (length H) (length H) []) = map_of xs"
  by (rule serialize_parse [OF assms])

section \<open>The bytes of an inode\<close>

definition inode_raw :: "FileSystem \<Rightarrow> u32 \<Rightarrow> bytes" where
  "inode_raw s n = bslice (inode_pos s n) (inode_pos s n + unat (fs_InodeSize s)) (disk s)"

definition slot_ok :: "FileSystem \<Rightarrow> u32 \<Rightarrow> bool" where
  "slot_ok s n \<longleftrightarrow> dev_ok (fs_dev s) \<and> inode_valid s n \<and> 160 \<le> unat (fs_InodeSize s)"

lemma length_inode_raw: "slot_ok s n \<Longrightarrow> length (inode_raw s n) = unat (fs_InodeSize s)"
  by (simp add: slot_ok_def inode_raw_def inode_valid_def)

lemma raw_inode_offset_valid:
  assumes "slot_ok s n"
  shows "raw_inode_offset n s = (Ok (int (inode_pos s n)), s)"
proof -
  have v: "dev_ok (fs_dev s)" "inode_valid s n" "0 < unat (fs_InodeSize s)" using assms by (auto simp: slot_ok_def)
  note o = inode_offset [OF v]
  have g: "\<not> (n - 1) div S_inodes_per_group (the (fs_sb s)) \<ge> fs_GroupCount s"
    using v(2) by (simp add: inode_valid_def inode_group_def word_le_nat_alt)
  have b: "bgd_at ((n - 1) div S_inodes_per_group (the (fs_sb s))) s = (Ok (fs_Bgds s ! inode_group s n), s)"
    using v(2) by (simp add: inode_valid_def inode_group_def bgd_at_def)
  have "sint (inode_table s (inode_group s n) * fs_BlockSize s +
      ucast ((n - 1) mod S_inodes_per_group (the (fs_sb s))) * ucast (fs_InodeSize s)) = int (inode_pos s n)"
    using o by (simp add: sint_u64_small)
  moreover have "\<not> n < 1" using v(2) by (simp add: inode_valid_def lt_one_word)
  ultimately show ?thesis
    using g b inode_slot_valid [OF v(2)] by (simp add: raw_inode_offset_def Let_def inode_table_def [symmetric])
qed

lemma ReadRawInode_ok: "slot_ok s n \<Longrightarrow> ReadRawInode n s = (Ok (inode_raw s n), s)"
  using raw_inode_offset_valid [of s n] fs_read_ok [of s "unat (fs_InodeSize s)" "inode_pos s n"]
  by (simp add: ReadRawInode_def slot_ok_def inode_raw_def inode_valid_def)

lemma WriteRawInode_ok:
  assumes "slot_ok s n" and "length buf = unat (fs_InodeSize s)"
  defines "s' \<equiv> poke s (inode_pos s n) buf"
  shows "WriteRawInode n buf s = (Ok (), s')" and "slot_ok s' n" and "inode_raw s' n = buf"
proof -
  have ne: "buf \<noteq> []" and le: "inode_pos s n + length buf \<le> length (disk s)" and d: "dev_ok (fs_dev s)"
    using assms(1,2) by (auto simp: slot_ok_def inode_valid_def)
  show "WriteRawInode n buf s = (Ok (), s')"
    using raw_inode_offset_valid [OF assms(1)] fs_write_ok [OF d ne le] by (simp add: WriteRawInode_def s'_def)
  note v = inode_valid_poke [OF d ne le, of n]
  show "slot_ok s' n" using assms(1) v d ne le by (simp add: slot_ok_def s'_def)
  show "inode_raw s' n = buf"
    using v d ne le slice_copy_at_same [OF le] assms(2) by (simp add: inode_raw_def s'_def)
qed

text \<open>The attributes of an inode without an external block.\<close>

lemma ListXAttrs_inode:
  assumes "slot_ok s n" and "file_acl_block (inode_decode (inode_raw s n)) = 0"
  shows "ListXAttrs n s = (ibody_xattrs (inode_decode (inode_raw s n)) (inode_raw s n), s)"
proof -
  have "160 \<le> length (inode_raw s n)" using assms(1) length_inode_raw by (simp add: slot_ok_def)
  then have "binary_Read 160 inode_decode (inode_raw s n) = Ok (inode_decode (inode_raw s n))"
    using inode.dec_take by (simp add: binary_Read_def)
  then show ?thesis
    using ReadRawInode_ok [OF assms(1)] assms(2)
    by (cases "ibody_xattrs (inode_decode (inode_raw s n)) (inode_raw s n)") (simp_all add: ListXAttrs_def)
qed

section \<open>Attributes behind the inode\<close>

text \<open>The bytes \<open>store_in_inode\<close> writes.\<close>

definition stored_raw :: "xattrs \<Rightarrow> bytes \<Rightarrow> Inode \<Rightarrow> bytes \<Rightarrow> bytes" where
  "stored_raw xattrs b inode raw =
     (let raw1 = copy_at 0 (inode_bytes (set_file_acl 0 inode)) raw; ibodyOffset = 128 + unat (I_extra_isize inode)
      in if xattrs \<noteq> [] then copy_at (ibodyOffset + 4) b (copy_at ibodyOffset (put32 XATTR_MAGIC) raw1)
         else clear_from ibodyOffset raw1)"

lemma get_cong:
  "bslice 0 k xs = bslice 0 k ys \<Longrightarrow> i + 2 \<le> k \<Longrightarrow> get16 i xs = get16 i ys"
  "bslice 0 k xs = bslice 0 k ys \<Longrightarrow> i + 4 \<le> k \<Longrightarrow> get32 i xs = get32 i ys"
  using get_bslice(1) [of i k 0 xs] get_bslice(1) [of i k 0 ys]
    get_bslice(2) [of i k 0 xs] get_bslice(2) [of i k 0 ys] by simp_all

lemma stored_raw_facts:
  assumes "160 \<le> length raw" and "2 \<le> unat (I_extra_isize (inode_decode raw))"
    and "ib = 128 + unat (I_extra_isize (inode_decode raw))" and "ib + 4 < length raw"
    and "xattrs \<noteq> [] \<longrightarrow> ib + 4 + length b = length raw"
  defines "raw2 \<equiv> stored_raw xattrs b (inode_decode raw) raw"
  shows "length raw2 = length raw" and "I_extra_isize (inode_decode raw2) = I_extra_isize (inode_decode raw)"
    and "file_acl_block (inode_decode raw2) = 0"
    and "xattrs \<noteq> [] \<Longrightarrow> raw2 = take (ib + 4) raw2 @ b \<and> get32 ib raw2 = XATTR_MAGIC"
    and "xattrs = [] \<Longrightarrow> get32 ib raw2 = 0"
proof -
  define inode where "inode = inode_decode raw"
  define raw1 where "raw1 = copy_at 0 (inode_bytes (set_file_acl 0 inode)) raw"
  have wf: "inode_wf (set_file_acl 0 inode)"
    using inode.dec_wf [OF assms(1)] by (simp add: inode_wf_def set_file_acl_def inode_def)
  have l1: "length raw1 = length raw" using assms(1) inode.enc_len [OF wf] by (simp add: raw1_def)
  have d1: "inode_decode raw1 = set_file_acl 0 inode"
    using inode.dec_copy_at [OF wf, of 0 raw] assms(1) by (simp add: raw1_def)
  have r2: "raw2 = (if xattrs \<noteq> [] then copy_at (ib + 4) b (copy_at ib (put32 XATTR_MAGIC) raw1) else clear_from ib raw1)"
    by (simp add: raw2_def stored_raw_def Let_def raw1_def inode_def assms(3))
  show l2: "length raw2 = length raw"
    using l1 assms(4,5) by (auto simp: r2 clear_from_def)
  have pre: "bslice 0 ib raw2 = bslice 0 ib raw1"
    using l1 assms(4,5) by (intro nth_equalityI) (auto simp: r2 bslice_def clear_from_def nth_copy_at nth_append)
  have ib: "130 \<le> ib" using assms(2,3) by simp
  show "I_extra_isize (inode_decode raw2) = I_extra_isize (inode_decode raw)"
    using get_cong(1) [OF pre, of 128] ib arg_cong [OF d1, of I_extra_isize]
    by (simp add: inode_decode_def set_file_acl_def inode_def)
  have "get32 104 raw1 = 0" "get16 118 raw1 = 0"
    using arg_cong [OF d1, of I_file_acl_lo] arg_cong [OF d1, of L_i_file_acl_high]
    by (simp_all add: inode_decode_def set_file_acl_def)
  then show "file_acl_block (inode_decode raw2) = 0"
    using get_cong(2) [OF pre, of 104] get_cong(1) [OF pre, of 118] ib
    by (simp add: file_acl_block_def inode_decode_def)
  {
    assume x: "xattrs \<noteq> []"
    have "drop (ib + 4) raw2 = b"
      using x assms(4,5) l1 by (simp add: r2 copy_at_def)
    then have a: "raw2 = take (ib + 4) raw2 @ b" using append_take_drop_id [of "ib + 4" raw2] by simp
    have "bslice ib (ib + 4) raw2 = put32 XATTR_MAGIC"
      using x assms(4,5) l1 by (simp add: r2 copy_at_def bslice_def)
    with a show "raw2 = take (ib + 4) raw2 @ b \<and> get32 ib raw2 = XATTR_MAGIC" by (simp add: get32_def)
  }
  {
    assume x: "xattrs = []"
    have "bslice ib (ib + 4) raw2 = zeros 4"
      using x assms(4) l1 by (simp add: r2 clear_from_def bslice_def zeros_def)
    then show "get32 ib raw2 = 0" using get_zeros(2) [of 0 4] by (simp add: get32_def bslice_def)
  }
qed

lemma distinct_xattr_loop: "distinct (map fst acc) \<Longrightarrow> distinct (map fst (xattr_loop buf base c acc))"
proof (induction buf base c acc rule: xattr_loop.induct)
  case (1 buf base c acc)
  show ?case
    by (subst xattr_loop.simps) (use 1 in \<open>auto simp: Let_def distinct_update\<close>)
qed

lemma distinct_ibody: "ibody_xattrs i raw = Ok xs \<Longrightarrow> distinct (map fst xs)"
  using distinct_xattr_loop [of "[]"] by (auto simp: ibody_xattrs_def Let_def split: if_splits)

lemma change_xattrs_map:
  "change_xattrs xs name value = Ok ys \<Longrightarrow> map_of ys = (map_of xs)(name := value)"
  by (auto simp: change_xattrs_def update_conv' delete_conv' split: option.splits if_splits)

lemma change_xattrs_distinct:
  "change_xattrs xs name value = Ok ys \<Longrightarrow> distinct (map fst xs) \<Longrightarrow> distinct (map fst ys)"
  by (auto simp: change_xattrs_def distinct_update distinct_delete split: option.splits if_splits)

lemma fit_inodeD:
  assumes "fit_inode xs sz inode = Some b"
  shows "128 + unat (I_extra_isize inode) + 4 < unat sz"
    and "serializeXAttrs xs (int (unat sz - (128 + unat (I_extra_isize inode) + 4))) = Ok b"
proof -
  have lt: "0 < int (unat sz) - 128 - int (unat (I_extra_isize inode)) - 4"
    and ok: "serializeXAttrs xs (int (unat sz) - 128 - int (unat (I_extra_isize inode)) - 4) = Ok b"
    using assms by (auto simp: fit_inode_def Let_def split: if_splits res.splits)
  then show l: "128 + unat (I_extra_isize inode) + 4 < unat sz" by linarith
  have "int (unat sz) - 128 - int (unat (I_extra_isize inode)) - 4 =
      int (unat sz - (128 + unat (I_extra_isize inode) + 4))" using l by linarith
  with ok show "serializeXAttrs xs (int (unat sz - (128 + unat (I_extra_isize inode) + 4))) = Ok b" by simp
qed

lemma stored_xattrs:
  assumes "slot_ok s n" and "2 \<le> unat (I_extra_isize (inode_decode (inode_raw s n)))"
    and "distinct (map fst xs)" and "\<forall>x \<in> set xs. attr_ok x"
    and "fit_inode xs (fs_InodeSize s) (inode_decode (inode_raw s n)) = Some b"
  defines "raw2 \<equiv> stored_raw xs b (inode_decode (inode_raw s n)) (inode_raw s n)"
  shows "length raw2 = unat (fs_InodeSize s)" and "file_acl_block (inode_decode raw2) = 0"
    and "\<exists>ys. ibody_xattrs (inode_decode raw2) raw2 = Ok ys \<and> map_of ys = map_of xs"
proof -
  define raw where "raw = inode_raw s n"
  define ib where "ib = 128 + unat (I_extra_isize (inode_decode raw))"
  have lr: "length raw = unat (fs_InodeSize s)" "160 \<le> length raw"
    using length_inode_raw [OF assms(1)] assms(1) by (auto simp: raw_def slot_ok_def)
  note fi = fit_inodeD [OF assms(5), folded raw_def, folded ib_def]
  have sz: "unat (fs_InodeSize s) < 2 ^ 16" by (rule unat_bounds)
  have sa: "length b = unat (fs_InodeSize s) - (ib + 4)" if "xs \<noteq> []"
    using serialize_area [OF that assms(4) fi(2)] sz by simp
  then have lb: "xs \<noteq> [] \<longrightarrow> ib + 4 + length b = length raw" using fi(1) lr by simp
  have lt: "ib + 4 < length raw" using fi(1) lr by simp
  have r2: "raw2 = stored_raw xs b (inode_decode raw) raw" by (simp add: raw2_def raw_def)
  note f = stored_raw_facts [OF lr(2) assms(2) [folded raw_def] ib_def lt lb, folded r2]
  show "length raw2 = unat (fs_InodeSize s)" "file_acl_block (inode_decode raw2) = 0" using f lr by simp_all
  have w: "unat (128 + I_extra_isize (inode_decode raw) + 4) = ib + 4"
    using lt lr sz by (simp add: ib_def unat_word_ariths)
  have nz: "I_extra_isize (inode_decode raw) > 0" using assms(2) by (simp add: raw_def word_less_nat_alt)
  have ibx: "ibody_xattrs (inode_decode raw2) raw2 =
      Ok (if get32 ib raw2 = XATTR_MAGIC then xattr_loop raw2 (ib + 4) (ib + 4) [] else [])"
    using f(1,2) lt nz w by (simp add: ibody_xattrs_def Let_def flip: ib_def)
  show "\<exists>ys. ibody_xattrs (inode_decode raw2) raw2 = Ok ys \<and> map_of ys = map_of xs"
  proof (cases "xs = []")
    case True
    with ibx f(5) show ?thesis by (simp add: XATTR_MAGIC_def)
  next
    case False
    let ?H = "take (ib + 4) raw2"
    have lH: "length ?H = ib + 4" using f(1) lt by simp
    have "map_of (xattr_loop (?H @ b) (length ?H) (length ?H) []) = map_of xs"
      using sz by (intro serialize_parse [OF assms(3,4) fi(2) _ False]) simp
    moreover have "?H @ b = raw2" using f(4) [OF False] by simp
    ultimately have "map_of (xattr_loop raw2 (ib + 4) (ib + 4) []) = map_of xs" unfolding lH by simp
    with ibx f(4) [OF False] show ?thesis by simp
  qed
qed

text \<open>C20: when the attributes fit behind the inode, \<open>SetXAttr\<close> with a value stores it under its name, and
  without one (\<open>RemoveXAttr\<close>) removes the name; \<open>ListXAttrs\<close> and \<open>GetXAttr\<close> see exactly that change of the map,
  and the bytes of every other inode stay as they were.\<close>

theorem SetXAttr_map:
  assumes "slot_ok s n" and "inode_tables_disjoint s" and "inode = inode_decode (inode_raw s n)"
    and "file_acl_block inode = 0" and "2 \<le> unat (I_extra_isize inode)" and "ListXAttrs n s = (Ok xs, s)"
    and "change_xattrs xs name value = Ok xs'" and "\<forall>x \<in> set xs'. attr_ok x"
    and "fit_inode xs' (fs_InodeSize s) inode = Some b"
  shows "\<exists>s' ys. SetXAttr n name value s = (Ok (), s') \<and> ListXAttrs n s' = (Ok ys, s') \<and>
    map_of ys = (map_of xs)(name := value) \<and>
    GetXAttr n name s' = (case value of Some v \<Rightarrow> Ok v | None \<Rightarrow> Err ErrAttrNotExist, s') \<and>
    (\<forall>m. inode_valid s m \<and> m \<noteq> n \<longrightarrow> inode_raw s' m = inode_raw s m)"
proof -
  define raw2 where "raw2 = stored_raw xs' b inode (inode_raw s n)"
  define s' where "s' = poke s (inode_pos s n) raw2"
  have "distinct (map fst xs)"
    using ListXAttrs_inode [OF assms(1)] assms(3,4,6) distinct_ibody by auto
  then have dx: "distinct (map fst xs')" by (rule change_xattrs_distinct [OF assms(7)])
  note st = stored_xattrs [OF assms(1) _ dx assms(8), of b, folded assms(3), OF assms(5,9), folded raw2_def]
  note w = WriteRawInode_ok [OF assms(1) st(1), folded s'_def]
  obtain ys where ys: "ibody_xattrs (inode_decode raw2) raw2 = Ok ys" "map_of ys = map_of xs'" using st(3) by blast
  have l: "ListXAttrs n s' = (Ok ys, s')"
    using ListXAttrs_inode [OF w(2)] w(3) st(2) ys(1) by simp
  have m: "map_of ys = (map_of xs)(name := value)" using change_xattrs_map [OF assms(7)] ys(2) by simp
  have "160 \<le> length (inode_raw s n)" using assms(1) length_inode_raw by (simp add: slot_ok_def)
  then have "binary_Read 160 inode_decode (inode_raw s n) = Ok inode" by (simp add: binary_Read_def assms(3))
  then have "SetXAttr n name value s = (Ok (), s')"
    using ReadRawInode_ok [OF assms(1)] assms(4,6,7,9) w(1)
    by (simp add: SetXAttr_def store_in_inode_def write_and_free_def raw2_def stored_raw_def Let_def)
  moreover have "GetXAttr n name s' = (case value of Some v \<Rightarrow> Ok v | None \<Rightarrow> Err ErrAttrNotExist, s')"
    using l m by (simp add: GetXAttr_def split: option.split)
  moreover have "inode_raw s' k = inode_raw s k" if k: "inode_valid s k" "k \<noteq> n" for k
  proof -
    have v: "dev_ok (fs_dev s)" "inode_valid s n" "raw2 \<noteq> []" "inode_pos s n + length raw2 \<le> length (disk s)"
      using assms(1) st(1) by (auto simp: slot_ok_def inode_valid_def)
    have "inode_pos s k + unat (fs_InodeSize s) \<le> length (disk s)" using k(1) by (simp add: inode_valid_def)
    moreover have "inode_pos s k + unat (fs_InodeSize s) \<le> inode_pos s n \<or>
        inode_pos s n + unat (fs_InodeSize s) \<le> inode_pos s k"
      using inode_slots_disjoint [OF assms(2) v(2) k(1)] k(2) by auto
    ultimately show ?thesis
      using v st(1) inode_valid_poke(1) [OF v(1,3,4), of k]
      by (simp add: inode_raw_def s'_def slice_copy_at_other)
  qed
  ultimately show ?thesis using l m by blast
qed

section \<open>The external block\<close>

text \<open>An attribute stored in the external block does not read back. Its value offset counts from the first
  entry, 32 bytes into the block, when it is written and from the start of the block when it is read: the
  value comes back as 32 zero bytes followed by the beginning of the real value.\<close>

theorem xattr_block_shifted:
  assumes "attr_ok (name, v)" and "serializeXAttrs [(name, v)] (int n) = Ok b" and "n < 2 ^ 16"
    and "entry_len (se_nameLen (entry_of (name, v))) + align4 (length v) + 36 \<le> n"
  shows "block_xattrs (copy_at 32 b (copy_at 0 xattr_block_header (zeros (n + 32)))) [] =
    Ok [(name, take (length v) (zeros 32 @ v))]"
proof -
  define e where "e = entry_of (name, v)"
  define H where "H = xattr_block_header @ zeros 12"
  define w where "w = n - align4 (length v)"
  have e: "entry_ok e" "full_name e = name" "se_value e = v" using entry_of_ok [OF assms(1)] by (simp_all add: e_def)
  have ar: "length b = n \<and> area [e] 0 n b"
    using serialize_area [of "[(name, v)]" n b] assms(1-3) by (simp add: e_def del: area.simps)
  have lH: "length H = 32" by (simp add: H_def xattr_block_header_def)
  have full: "copy_at 32 b (copy_at 0 xattr_block_header (zeros (n + 32))) = H @ b"
    using ar by (simp add: copy_at_def H_def xattr_block_header_def zeros_def)
  have mg: "get32 0 (H @ b) = XATTR_MAGIC" by (simp add: H_def xattr_block_header_def bytes_simps)
  have ge: "entry_len (se_nameLen e) + 36 \<le> w" "w + length v \<le> n" "16 + unat (se_nameLen e) \<le> entry_len (se_nameLen e)"
    using assms(4) align4_ge [of "length v"] entry_len_ge(2) by (auto simp: w_def e_def)
  have b: "b = copy_at w v (copy_at 0 (attr_image e (word_of_nat w)) (zeros n))"
    using assms(2) by (auto simp: serializeXAttrs_def Let_def e_def w_def entry_of_def split: if_splits prod.splits)
  have a: "bslice 0 (16 + unat (se_nameLen e)) b = attr_image e (word_of_nat w)"
      "get32 (entry_len (se_nameLen e)) b = 0"
    using ar e(3) by (simp_all add: Let_def w_def)
  note f = attr_image_fields [of e 0 b "word_of_nat w", simplified, OF e(1) a(1)]
  have f': "b ! 0 = se_nameLen e" "b ! 1 = se_nameIndex e" "get16 2 b = word_of_nat w"
      "get32 8 b = word_of_nat (length v)" "bslice 16 (16 + unat (se_nameLen e)) b = se_name e" "get32 0 b \<noteq> 0"
    using f ar ge e(3) by (simp_all add: numeral_2_eq_2)
  have u: "unat (word_of_nat w :: u16) = w" "unat (word_of_nat (length v) :: u32) = length v"
    using assms(3) ge e by (simp_all add: unat_of_nat take_bit_nat_eq_self entry_ok_def)
  have val: "bslice w (w + length v) (H @ b) = take (length v) (zeros 32 @ v)"
  proof (rule nth_equalityI)
    show "length (bslice w (w + length v) (H @ b)) = length (take (length v) (zeros 32 @ v))"
      using ge ar lH by simp
    fix i assume "i < length (bslice w (w + length v) (H @ b))"
    then have i: "i < length v" using ge ar lH by simp
    have "bslice w (w + length v) (H @ b) ! i = b ! (w + i - 32)"
      using i ge ar lH by (simp add: nth_append)
    also have "\<dots> = (zeros 32 @ v) ! i"
      using i ge e(1) by (auto simp: b nth_copy_at nth_append zeros_def)
    finally show "bslice w (w + length v) (H @ b) ! i = take (length v) (zeros 32 @ v) ! i" using i by (simp del: take_append)
  qed
  have g: "get32 32 (H @ b) \<noteq> 0" "(H @ b) ! 32 = se_nameLen e" "(H @ b) ! (32 + 1) = se_nameIndex e"
      "unat (get16 (32 + 2) (H @ b)) = w" "unat (get32 (32 + 8) (H @ b)) = length v"
      "bslice (32 + 16) (32 + 16 + unat (se_nameLen e)) (H @ b) = se_name e"
    using f' u lH get_skip [of H 32 b] get_skip [of H 34 b] get_skip [of H 40 b]
    by (simp_all add: nth_append bslice_def)
  have "xattr_loop (H @ b) 0 32 [] = xattr_loop (H @ b) 0 (32 + entry_len (se_nameLen e))
      (AList.update (joinXAttrName (se_nameIndex e) (se_name e)) (take (length v) (zeros 32 @ v)) [])"
    by (rule xattr_loop_step [OF g]) (use val ge ar lH in simp_all)
  also have "\<dots> = [(name, take (length v) (zeros 32 @ v))]"
    using a(2) get_skip(2) [of H "32 + entry_len (se_nameLen e)" b] lH e(2)
    by (subst xattr_loop.simps) (simp add: full_name_def)
  finally show ?thesis unfolding full using mg lH by (simp add: block_xattrs_def)
qed

section \<open>Witnesses\<close>

definition user_a :: bytes where
  "user_a = go_string ''user.a''"

lemma user_a_facts:
  "attr_ok (user_a, v) = (length v < 2 ^ 32)"
  "entry_of (user_a, v) = \<lparr>se_nameLen = 1, se_nameIndex = 1, se_name = [97], se_value = v\<rparr>"
  by (simp_all add: user_a_def go_string_def splitXAttrName_def xattrPrefixes_def attr_ok_def entry_of_def)

lemma serialize_user_a:
  assumes "length v \<le> 8" and "32 \<le> n"
  shows "\<exists>b. serializeXAttrs [(user_a, v)] (int n) = Ok b"
proof -
  have "align4 (length v) \<le> 8" using div_le_mono [of "length v + 3" 11 4] assms(1) by (simp add: align4_def)
  then have "entry_table_len [entry_of (user_a, v)] + value_table_len [entry_of (user_a, v)] \<le> n"
    using assms(2) by (simp add: user_a_facts entry_table_len_def value_table_len_def entry_len_def align4_def)
  then show ?thesis by (simp add: serializeXAttrs_def)
qed

theorem xattr_roundtrip_witness:
  "\<exists>b. serializeXAttrs [(user_a, [1, 2, 3])] 92 = Ok b \<and>
     map_of (xattr_loop (zeros 4 @ b) 4 4 []) = [user_a \<mapsto> [1, 2, 3]]"
proof -
  obtain b where "serializeXAttrs [(user_a, [1, 2, 3])] (int 92) = Ok b"
    using serialize_user_a [of "[1, 2, 3]" 92] by auto
  then show ?thesis
    using xattr_roundtrip [of "[(user_a, [1, 2, 3])]" 92 b "zeros 4"] by (simp add: user_a_facts)
qed

theorem xattr_block_shifted_witness:
  "\<exists>b. serializeXAttrs [(user_a, [1, 2, 3])] 992 = Ok b \<and>
     block_xattrs (copy_at 32 b (copy_at 0 xattr_block_header (zeros 1024))) [] = Ok [(user_a, [0, 0, 0])]"
proof -
  obtain b where "serializeXAttrs [(user_a, [1, 2, 3])] (int 992) = Ok b"
    using serialize_user_a [of "[1, 2, 3]" 992] by auto
  moreover have "take (Suc (Suc (Suc 0))) (zeros 32 @ [1, 2, 3]) = [0, 0, 0]" by (simp add: zeros_def numeral_3_eq_3)
  ultimately show ?thesis
    using xattr_block_shifted [of user_a "[1, 2, 3]" 992 b]
    by (simp add: user_a_facts entry_len_def align4_def del: take_append)
qed

text \<open>The example file system with an inode 12 that has room for attributes.\<close>

definition xattr_inode :: Inode where
  "xattr_inode = example_inode\<lparr>I_extra_isize := 32\<rparr>"

definition xattr_fs :: FileSystem where
  "xattr_fs = poke (example_fs 256) 7936 (inode_bytes xattr_inode)"

lemma xattr_fs_facts:
  "slot_ok xattr_fs 12" "inode_raw xattr_fs 12 = inode_bytes xattr_inode @ zeros 96" "fs_InodeSize xattr_fs = 256"
proof -
  have wf: "inode_wf xattr_inode" using example_inode_wf by (simp add: xattr_inode_def inode_wf_def)
  have l: "length (inode_bytes xattr_inode) = 160" using inode.enc_len [OF wf] by simp
  then have ne: "inode_bytes xattr_inode \<noteq> []" by auto
  have le: "7936 + length (inode_bytes xattr_inode) \<le> length (disk (example_fs 256))"
    using l example_fs_dev(2) [of 256] by simp
  note v = inode_valid_poke [OF example_fs_dev(1) ne le, of 12, folded xattr_fs_def]
  note pk = poke_ok [OF example_fs_dev(1) ne le, folded xattr_fs_def]
  show sz: "fs_InodeSize xattr_fs = 256" by (simp add: xattr_fs_def)
  have v12: "inode_valid (example_fs 256) 12" by (rule example_inode_valid) simp
  show "slot_ok xattr_fs 12" using v(2) v12 pk(1) sz by (simp add: slot_ok_def)
  have "inode_group (example_fs 256) 12 = 0" "inode_index (example_fs 256) 12 = 11"
    by (simp_all add: inode_group_def inode_index_def example_sb_def unat_div unat_mod)
  moreover have "unat (inode_table (example_fs 256) 0) = 5"
    by (simp add: inode_table_def gd_addr_def example_gd_def gd_decode_def)
  ultimately have pos: "inode_pos xattr_fs 12 = 7936" using v(1) by (simp add: inode_pos_def)
  have "drop 5120 (disk (example_fs 256)) = zeros 11264"
    using example_image_layout(3) [of 64] drop_drop [of 3072 2048 "example_image 64"]
    by (simp add: example_fs_def example_dev_def)
  then have z: "disk (example_fs 256) ! i = 0" if "5120 \<le> i" "i < 16384" for i
    using that example_fs_dev(2) [of 256] nth_drop [of 5120 "disk (example_fs 256)" "i - 5120"]
    by (simp add: zeros_def)
  show "inode_raw xattr_fs 12 = inode_bytes xattr_inode @ zeros 96"
    using l example_fs_dev(2) [of 256] pk(2) le
    by (intro nth_equalityI) (auto simp: inode_raw_def pos sz nth_copy_at nth_append zeros_def z)
qed

theorem SetXAttr_map_witness:
  "\<exists>s' ys. SetXAttr 12 user_a (Some [1, 2, 3]) xattr_fs = (Ok (), s') \<and> ListXAttrs 12 s' = (Ok ys, s') \<and>
     map_of ys = [user_a \<mapsto> [1, 2, 3]] \<and> GetXAttr 12 user_a s' = (Ok [1, 2, 3], s')"
proof -
  note f = xattr_fs_facts
  have wf: "inode_wf xattr_inode" using example_inode_wf by (simp add: xattr_inode_def inode_wf_def)
  have d: "inode_decode (inode_raw xattr_fs 12) = xattr_inode" unfolding f(2) by (rule inode.dec_enc [OF wf])
  have acl: "file_acl_block xattr_inode = 0" "I_extra_isize xattr_inode = 32"
    by (simp_all add: file_acl_block_def xattr_inode_def example_inode_def inode_decode_def)
  have "get32 160 (inode_bytes xattr_inode @ zeros 96) = 0"
    using get_skip(2) [of "inode_bytes xattr_inode" 160 "zeros 96"] inode.enc_len [OF wf] by simp
  then have ib: "ibody_xattrs xattr_inode (inode_raw xattr_fs 12) = Ok []"
    using inode.enc_len [OF wf] by (simp add: ibody_xattrs_def Let_def acl f(2) XATTR_MAGIC_def)
  then have l: "ListXAttrs 12 xattr_fs = (Ok [], xattr_fs)"
    using ListXAttrs_inode [OF f(1)] d acl by simp
  obtain b where b: "serializeXAttrs [(user_a, [1, 2, 3])] (int 92) = Ok b"
    using serialize_user_a [of "[1, 2, 3]" 92] by auto
  have ft: "fit_inode [(user_a, [1, 2, 3])] (fs_InodeSize xattr_fs) xattr_inode = Some b"
    using b by (simp add: fit_inode_def Let_def acl f(3))
  have dj: "inode_tables_disjoint xattr_fs"
    by (simp add: inode_tables_disjoint_def xattr_fs_def)
  have ch: "change_xattrs [] user_a (Some [1, 2, 3]) = Ok [(user_a, [1, 2, 3])]" by (simp add: change_xattrs_def)
  show ?thesis
    using SetXAttr_map [OF f(1) dj d [symmetric] acl(1) _ l ch _ ft]
    by (auto simp: acl user_a_facts)
qed

end
