(* ===== verification/Fs_Api.thy ===== *)
theory Fs_Api
  imports Go_Prelude
begin

text \<open>
  \<open>fs/fs.go\<close>: the types in which a file system driver answers the host. A \<open>gotime\<close> is the pair of
  arguments of the \<open>time.Unix\<close> call that makes the value. The error numbers of \<open>cgofuse\<close> are
  parameters (\<open>fuse_codes\<close>).
\<close>

type_synonym gotime = "int \<times> int"

record DirEntry =
  d_Inode :: u64
  d_Name :: bytes
  d_FileType :: u8

record NodeInfo =
  n_Inode :: u64
  n_Mode :: u32
  n_Uid :: u32
  n_Gid :: u32
  n_Size :: u64
  n_Atime :: gotime
  n_Mtime :: gotime
  n_Ctime :: gotime
  n_Nlink :: u64
  n_Blksize :: u64
  n_Blocks :: u64
  n_IsDir :: bool
  n_IsRegular :: bool
  n_IsSymlink :: bool

record Statfs_t =
  st_Bsize :: u64
  st_Frsize :: u64
  st_Blocks :: u64
  st_Bfree :: u64
  st_Bavail :: u64
  st_Files :: u64
  st_Ffree :: u64
  st_Favail :: u64
  st_Namemax :: u64

record fuse_codes =
  ENOENT :: int
  EIO :: int
  ENOATTR :: int
  EEXIST :: int
  ENOSPC :: int
  EBADF :: int
  ENOSYS :: int

definition DirFileTypeUnknown :: u8 where "DirFileTypeUnknown = 0"
definition DirFileTypeRegular :: u8 where "DirFileTypeRegular = 1"
definition DirFileTypeDir :: u8 where "DirFileTypeDir = 2"
definition DirFileTypeSymlink :: u8 where "DirFileTypeSymlink = 7"

end
