(* ===== verification/Ext4_Fs.thy ===== *)
theory Ext4_Fs
  imports Xattr Journal Directory Fs_Api
begin

text \<open>
  The ext4 driver (\<open>ext4/fs.go\<close>): path-level operations on a mounted file system, with the
  table of open files and the cache of directory listings. Every operation that
  changes the disk runs between \<open>BeginTransaction\<close> and a deferred function that commits
  when the named result is nil and rolls back otherwise; \<open>with_tx\<close> is that pattern. A panic
  runs the deferred function too, with the result still nil.

  The clock is read once per operation, and the orders in which a commit ranges over its Go maps are
  parameters (\<open>env\<close>). The error numbers of \<open>cgofuse\<close> are parameters (\<open>fuse_codes\<close>). The mutexes and
  the fields \<open>nextFH\<close> and \<open>fhMap\<close>, which no operation uses, are left out, and so is the
  field \<open>refs\<close> of an open file, which is never read. State before \<open>ReadSuperBlock\<close> is not represented:
  \<open>ext4_ReadSuperBlock\<close> makes the first state from the device.
\<close>

record openFile =
  of_inodeNum :: u32
  of_extents :: "Extent list"
  of_size :: u64
  of_empty :: bool

record ext4 =
  e_inner :: FileSystem
  e_files :: "bytes \<rightharpoonup> openFile"
  e_dirs :: "bytes \<rightharpoonup> DirEntry list"

type_synonym 'a eop = "(ext4, 'a) op"

record env =
  ev_now :: u64
  ev_ord1 :: "dirty_map \<Rightarrow> dirty_map"
  ev_ord2 :: "dirty_map \<Rightarrow> dirty_map"

definition unix_now :: "env \<Rightarrow> u32" where
  "unix_now ev = ucast (ev_now ev)"

section \<open>Running the inner file system\<close>

definition onInner :: "'a fsop \<Rightarrow> 'a eop" where
  "onInner m e = (case m (e_inner e) of (r, s) \<Rightarrow> (r, e\<lparr>e_inner := s\<rparr>))"

text \<open>A call that changes an inode the caller holds: the changed inode is handed back. After an
  error no caller looks at that inode again.\<close>

definition onInode :: "Inode \<Rightarrow> 'a iop \<Rightarrow> ('a \<times> Inode) fsop" where
  "onInode i m s = (case m (s, i) of (r, (s', i')) \<Rightarrow> (mapR (\<lambda>x. (x, i')) r, s'))"

text \<open>\<open>if err != nil { return handler(err) }\<close>.\<close>

definition catch :: "('s, 'a) op \<Rightarrow> (goerr \<Rightarrow> ('s, 'b) op) \<Rightarrow> ('a \<Rightarrow> ('s, 'b) op) \<Rightarrow> ('s, 'b) op" where
  "catch m h k s = (case m s of (r, s') \<Rightarrow> (case r of Ok x \<Rightarrow> k x s' | Err er \<Rightarrow> h er s' | Panic \<Rightarrow> (Panic, s')))"

definition commit :: "env \<Rightarrow> unit eop" where
  "commit ev = onInner (CommitTransaction (ev_ord1 ev) (ev_ord2 ev) (ev_now ev))"

definition begin_tx :: "ext4 \<Rightarrow> ext4" where
  "begin_tx e = e\<lparr>e_inner := BeginTransaction (e_inner e)\<rparr>"

definition rollback :: "ext4 \<Rightarrow> ext4" where
  "rollback e = e\<lparr>e_inner := RollbackTransaction (e_inner e)\<rparr>"

definition with_tx :: "env \<Rightarrow> 'a eop \<Rightarrow> 'a eop" where
  "with_tx ev body e =
     (case body (begin_tx e) of
        (Ok x, e1) \<Rightarrow> andThen (commit ev) (\<lambda>_. ret x) e1
      | (Err er, e1) \<Rightarrow> (Err er, rollback e1)
      | (Panic, e1) \<Rightarrow> (Panic, snd (commit ev e1)))"

text \<open>The same for the operations that return a number, 0 for success.\<close>

definition with_tx_code :: "env \<Rightarrow> fuse_codes \<Rightarrow> int eop \<Rightarrow> int eop" where
  "with_tx_code ev c body e =
     (case body (begin_tx e) of
        (Ok res, e1) \<Rightarrow>
          if res \<noteq> 0 then (Ok res, rollback e1)
          else catch (commit ev) (\<lambda>_. ret (- EIO c)) (\<lambda>_. ret 0) e1
      | (Err er, e1) \<Rightarrow> (Err er, rollback e1)
      | (Panic, e1) \<Rightarrow> (Panic, snd (commit ev e1)))"

section \<open>Paths\<close>

text \<open>The last position of a byte that satisfies \<open>P\<close>, counted from the end: the loops that move
  \<open>idx\<close> down.\<close>

definition trim_slashes :: "bytes \<Rightarrow> bytes" where
  "trim_slashes path = rev (dropWhile (\<lambda>c. c = 47) (rev path))"

definition last_slash :: "bytes \<Rightarrow> int" where
  "last_slash p = int (length p) - 1 - int (length (takeWhile (\<lambda>c. c \<noteq> 47) (rev p)))"

definition splitPath :: "bytes \<Rightarrow> (bytes \<times> bytes) res" where
  "splitPath path =
     (if path = [] \<or> path = [47] then Err (Errorf ''cannot split root path'')
      else
        let trimmed = trim_slashes path;
            idx = last_slash trimmed;
            parent = (if idx \<le> 0 then [47] else take (nat idx) trimmed);
            name = drop (nat (idx + 1)) trimmed
        in if name = [] then Err (Errorf ''empty leaf name'') else Ok (parent, name))"

section \<open>Mounting and reading\<close>

definition ext4_ReadSuperBlock :: "dev \<Rightarrow> unit res \<times> ext4" where
  "ext4_ReadSuperBlock d =
     onInner (andThen ReadSuperBlock (\<lambda>_. ReadGroupDescriptors))
       \<lparr>e_inner = NewFileSystem d, e_files = Map.empty, e_dirs = Map.empty\<rparr>"

definition ext4_Destroy :: "unit eop" where
  "ext4_Destroy = onInner writeSuperBlock"

definition toNodeInfo :: "Inode \<Rightarrow> NodeInfo" where
  "toNodeInfo inode =
     \<lparr>n_Inode = 0, n_Mode = ucast (I_mode inode),
      n_Uid = ucast (I_uid inode) OR push_bit 16 (ucast (L_i_uid_high inode)),
      n_Gid = ucast (I_gid inode) OR push_bit 16 (ucast (L_i_gid_high inode)),
      n_Size = inode_Size inode, n_Atime = (int (unat (I_atime inode)), 0), n_Mtime = (int (unat (I_mtime inode)), 0),
      n_Ctime = (int (unat (I_ctime inode)), 0), n_Nlink = ucast (I_links_count inode), n_Blksize = 512,
      n_Blocks = ucast (I_blocks_lo inode), n_IsDir = IsDir inode, n_IsRegular = IsRegular inode,
      n_IsSymlink = IsSymlink inode\<rparr>"

definition ext4_Getattr :: "bytes \<Rightarrow> NodeInfo eop" where
  "ext4_Getattr path =
     catch (onInner (Walk path)) (\<lambda>er. if errors_Is er ErrNotExist then failw Fs_ErrNotExist else failw er) (\<lambda>inode.
       ret (toNodeInfo inode))"

definition to_entry :: "DirEntry2 \<Rightarrow> DirEntry" where
  "to_entry ent = \<lparr>d_Inode = ucast (de_Inode ent), d_Name = de_Name ent, d_FileType = de_FileType ent\<rparr>"

definition ext4_Readdir :: "bytes \<Rightarrow> DirEntry list eop" where
  "ext4_Readdir path =
     andThen (getS (\<lambda>e. e_dirs e path)) (\<lambda>cached.
       case cached of
         Some entries \<Rightarrow> ret entries
       | None \<Rightarrow>
           andThen (onInner (Walk path)) (\<lambda>inode.
           andThen (onInner (ReadDir inode)) (\<lambda>entries.
             let result = map to_entry entries
             in andThen (modS (\<lambda>e. e\<lparr>e_dirs := (e_dirs e)(path \<mapsto> result)\<rparr>)) (\<lambda>_. ret result))))"

definition ext4_Readlink :: "bytes \<Rightarrow> bytes eop" where
  "ext4_Readlink path = onInner (andThen (Walk path) ReadSymlink)"

definition set_file :: "bytes \<Rightarrow> openFile \<Rightarrow> unit eop" where
  "set_file path f = modS (\<lambda>e. e\<lparr>e_files := (e_files e)(path \<mapsto> f)\<rparr>)"

definition drop_dir :: "bytes \<Rightarrow> unit eop" where
  "drop_dir parent = modS (\<lambda>e. e\<lparr>e_dirs := (e_dirs e)(parent := None)\<rparr>)"

definition ext4_Open :: "bytes \<Rightarrow> unit eop" where
  "ext4_Open path =
     andThen (onInner (WalkInode path)) (\<lambda>(inodeNum, inode).
     andThen (if IsRegular inode \<and> UsesExtents inode
              then andThen (onInner (ReadExtents inode)) (\<lambda>extents.
                ret \<lparr>of_inodeNum = inodeNum, of_extents = extents, of_size = inode_Size inode, of_empty = False\<rparr>)
              else ret \<lparr>of_inodeNum = inodeNum, of_extents = [], of_size = 0, of_empty = True\<rparr>) (\<lambda>f.
       set_file path f))"

definition ext4_Read :: "bytes \<Rightarrow> bytes \<Rightarrow> int \<Rightarrow> (nat \<times> bytes) eop" where
  "ext4_Read path buf ofst =
     andThen (getS (\<lambda>e. e_files e path)) (\<lambda>f.
       case f of
         None \<Rightarrow> failw EOF
       | Some f \<Rightarrow>
           if of_empty f \<or> ofst < 0 \<or> u64i ofst \<ge> of_size f then ret (0, buf)
           else onInner (ReadFileAt (of_extents f) (of_size f) buf ofst))"

definition ext4_Release :: "bytes \<Rightarrow> unit eop" where
  "ext4_Release path = modS (\<lambda>e. e\<lparr>e_files := (e_files e)(path := None)\<rparr>)"

definition ext4_Statfs :: "Statfs_t eop" where
  "ext4_Statfs =
     catch (onInner Superblock)
       (\<lambda>_. ret \<lparr>st_Bsize = 0, st_Frsize = 0, st_Blocks = 0, st_Bfree = 0, st_Bavail = 0, st_Files = 0, st_Ffree = 0,
                 st_Favail = 0, st_Namemax = 0\<rparr>)
       (\<lambda>sb. ret \<lparr>st_Bsize = sb_BlockSize sb, st_Frsize = sb_BlockSize sb, st_Blocks = ucast (S_blocks_count_lo sb),
                 st_Bfree = ucast (S_free_blocks_count_lo sb), st_Bavail = ucast (S_free_blocks_count_lo sb),
                 st_Files = ucast (S_inodes_count sb), st_Ffree = ucast (S_free_inodes_count sb),
                 st_Favail = ucast (S_free_inodes_count sb), st_Namemax = 255\<rparr>)"

section \<open>Making names\<close>

text \<open>What \<open>Create\<close>, \<open>Mkdir\<close>, \<open>Symlink\<close> and \<open>removeEntry\<close> start with: the path is split and the parent
  walked to twice, once for its inode and once for its number.\<close>

definition open_parent :: "bytes \<Rightarrow> (bytes \<times> bytes \<times> Inode \<times> u32) fsop" where
  "open_parent path =
     andThen (liftR (splitPath path)) (\<lambda>(parent, name).
     andThen (Walk parent) (\<lambda>parentInode.
     andThen (WalkInode parent) (\<lambda>(parentNum, _).
       ret (parent, name, parentInode, parentNum))))"

definition ext4_Create :: "env \<Rightarrow> bytes \<Rightarrow> u32 \<Rightarrow> unit eop" where
  "ext4_Create ev path mode = with_tx ev (
     andThen (onInner (
       andThen (open_parent path) (\<lambda>(parent, name, parentInode, parentNum).
       andThen AllocateInode (\<lambda>inodeNum.
       andThen (InitNewInode (unix_now ev) inodeNum (S_IFREG OR ucast (mode AND 0x0FFF))) (\<lambda>inode.
       andThen (onInode parentInode (AddDirEntry (unix_now ev) name inodeNum DirFileTypeRegular)) (\<lambda>(_, parentInode).
       andThen (WriteInode parentNum (parentInode\<lparr>I_mtime := unix_now ev\<rparr>)) (\<lambda>_.
       andThen (attempt (ReadExtents inode)) (\<lambda>extents.
         ret (inodeNum, inode, extents))))))))) (\<lambda>(inodeNum, inode, extents).
       set_file path \<lparr>of_inodeNum = inodeNum, of_extents = (case extents of Some x \<Rightarrow> x | None \<Rightarrow> []),
                      of_size = inode_Size inode, of_empty = False\<rparr>))"

definition ext4_Mkdir :: "env \<Rightarrow> bytes \<Rightarrow> u32 \<Rightarrow> unit eop" where
  "ext4_Mkdir ev path mode = with_tx ev (
     andThen (onInner (
       andThen (open_parent path) (\<lambda>(parent, name, parentInode, parentNum).
       andThen AllocateInode (\<lambda>inodeNum.
       andThen (InitNewInode (unix_now ev) inodeNum (S_IFDIR OR ucast (mode AND 0x0FFF))) (\<lambda>inode.
       andThen AllocateBlock (\<lambda>blk.
       andThen (onInode parentInode (AddDirEntry (unix_now ev) name inodeNum DirFileTypeDir)) (\<lambda>(_, parentInode).
       andThen (WriteInode parentNum
                  (parentInode\<lparr>I_links_count := I_links_count parentInode + 1, I_mtime := unix_now ev\<rparr>)) (\<lambda>_.
         ret parent)))))))) drop_dir)"

definition symlink_block :: "u32 \<Rightarrow> bytes \<Rightarrow> Inode \<Rightarrow> Inode fsop" where
  "symlink_block now target inode =
     andThen AllocateBlock (\<lambda>blk.
     andThen (onInode (InitExtentHeader inode)
                (AppendExtent now \<lparr>EE_block = 0, EE_len = 1, EE_start_hi = ucast (drop_bit 32 blk),
                                   EE_start_lo = ucast (blk AND 0xFFFFFFFF)\<rparr>)) (\<lambda>(_, inode1).
     andThen (getS fs_BlockSize) (\<lambda>blockSize.
       let inode2 = inode1\<lparr>I_size_lo := word_of_nat (length target), I_blocks_lo := ucast (blockSize div 512)\<rparr>
       in andThen (WriteBlock blk (copy_at 0 target (zeros (unat blockSize)))) (\<lambda>_. ret inode2))))"

definition ext4_Symlink :: "env \<Rightarrow> bytes \<Rightarrow> bytes \<Rightarrow> unit eop" where
  "ext4_Symlink ev target newpath = with_tx ev (onInner (
     andThen (open_parent newpath) (\<lambda>(parent, name, parentInode, parentNum).
     andThen AllocateInode (\<lambda>inodeNum.
       let now = unix_now ev;
           inode = zero_inode\<lparr>I_mode := S_IFLNK OR 0x1FF, I_size_lo := word_of_nat (length target), I_atime := now,
                              I_ctime := now, I_mtime := now, I_links_count := 1\<rparr>
       in andThen (if length target \<le> 60 then ret (inode\<lparr>I_block := copy_at 0 target (I_block inode)\<rparr>)
                   else symlink_block now target inode) (\<lambda>inode.
          andThen (WriteInode inodeNum inode) (\<lambda>_.
          andThen (onInode parentInode (AddDirEntry now name inodeNum DirFileTypeSymlink)) (\<lambda>(_, parentInode).
            WriteInode parentNum (parentInode\<lparr>I_mtime := now\<rparr>))))))))"

definition ext4_Link :: "env \<Rightarrow> bytes \<Rightarrow> bytes \<Rightarrow> unit eop" where
  "ext4_Link ev oldpath newpath = with_tx ev (onInner (
     andThen (WalkInode oldpath) (\<lambda>(targetNum, targetInode).
     andThen (open_parent newpath) (\<lambda>(parent, name, parentInode, parentNum).
       if IsDir targetInode then failw (Errorf ''permission denied'')
       else
         let fileType = (if IsSymlink targetInode then DirFileTypeSymlink else DirFileTypeRegular)
         in andThen (onInode parentInode (AddDirEntry (unix_now ev) name targetNum fileType)) (\<lambda>(_, parentInode).
            andThen (WriteInode targetNum (targetInode\<lparr>I_links_count := I_links_count targetInode + 1\<rparr>)) (\<lambda>_.
              WriteInode parentNum (parentInode\<lparr>I_mtime := unix_now ev\<rparr>)))))))"

section \<open>Removing and renaming\<close>

text \<open>A link to an inode goes: the last one frees its blocks and the inode; errors of that are dropped. The
  same code stands in \<open>removeEntry\<close> and in \<open>Rename\<close>.\<close>

definition drop_link :: "u32 \<Rightarrow> u32 \<Rightarrow> Inode \<Rightarrow> Inode fsop" where
  "drop_link now num inode =
     (let inode1 = inode\<lparr>I_links_count := I_links_count inode - 1, I_ctime := now\<rparr>;
          inode2 = (if I_links_count inode1 = 0 then inode1\<lparr>I_dtime := now\<rparr> else inode1)
      in andThen (if I_links_count inode1 = 0
                  then andThen (if UsesExtents inode2
                                then andThen (attempt (ReadExtents inode2)) (\<lambda>extents.
                                  case extents of
                                    Some exts \<Rightarrow> andThen (attempt (FreeExtents exts)) (\<lambda>_. ret ())
                                  | None \<Rightarrow> ret ())
                                else ret ()) (\<lambda>_.
                       andThen (attempt (FreeInode num)) (\<lambda>_. ret ()))
                  else ret ()) (\<lambda>_.
         andThen (WriteInode num inode2) (\<lambda>_. ret inode2)))"

definition dot_name :: "bytes \<Rightarrow> bool" where
  "dot_name name \<longleftrightarrow> name = [46] \<or> name = [46, 46]"

definition removeEntry :: "env \<Rightarrow> bytes \<Rightarrow> bool \<Rightarrow> unit eop" where
  "removeEntry ev path mustBeDir = with_tx ev (
     andThen (onInner (
       andThen (open_parent path) (\<lambda>(parent, name, parentInode, parentNum).
       andThen (Lookup parentInode name) (\<lambda>childInodeNum.
       andThen (ReadInode childInodeNum) (\<lambda>childInode.
         if mustBeDir \<and> \<not> IsDir childInode then failw (Errorf ''not a directory'')
         else if \<not> mustBeDir \<and> IsDir childInode then failw (Errorf ''is a directory'')
         else
           andThen (if IsDir childInode
                    then andThen (ReadDir childInode) (\<lambda>entries.
                      if list_ex (\<lambda>en. \<not> dot_name (de_Name en)) entries
                      then failw (Errorf ''directory not empty'') else ret ())
                    else ret ()) (\<lambda>_.
           andThen (onInode parentInode (RemoveDirEntry (unix_now ev) name)) (\<lambda>(_, parentInode).
           andThen (drop_link (unix_now ev) childInodeNum childInode) (\<lambda>childInode.
             let parentInode1 = (if IsDir childInode
                                 then parentInode\<lparr>I_links_count := I_links_count parentInode - 1\<rparr> else parentInode)
             in andThen (WriteInode parentNum (parentInode1\<lparr>I_mtime := unix_now ev\<rparr>)) (\<lambda>_.
                  ret parent))))))))) drop_dir)"

definition ext4_Unlink :: "env \<Rightarrow> bytes \<Rightarrow> unit eop" where
  "ext4_Unlink ev path = removeEntry ev path False"

definition ext4_Rmdir :: "env \<Rightarrow> bytes \<Rightarrow> unit eop" where
  "ext4_Rmdir ev path = removeEntry ev path True"

text \<open>An entry that is already at the new name is removed first; any error of the lookup counts as absent.\<close>

definition replace_target :: "u32 \<Rightarrow> Inode \<Rightarrow> bytes \<Rightarrow> Inode fsop" where
  "replace_target now newParentInode newName =
     andThen (attempt (Lookup newParentInode newName)) (\<lambda>existing.
       case existing of
         None \<Rightarrow> ret newParentInode
       | Some existingNum \<Rightarrow>
           andThen (ReadInode existingNum) (\<lambda>existingInode.
             if IsDir existingInode then failw (Errorf ''is a directory'')
             else
               andThen (onInode newParentInode (RemoveDirEntry now newName)) (\<lambda>(_, newParentInode).
               andThen (drop_link now existingNum existingInode) (\<lambda>_.
                 ret newParentInode))))"

text \<open>When the new entry cannot be made the old one is put back, and an error of that is dropped.\<close>

definition add_or_undo :: "u32 \<Rightarrow> Inode \<Rightarrow> bytes \<Rightarrow> Inode \<Rightarrow> bytes \<Rightarrow> u32 \<Rightarrow> u8 \<Rightarrow> Inode fsop" where
  "add_or_undo now oldParentInode oldName newParentInode newName childInodeNum fileType =
     catch (onInode newParentInode (AddDirEntry now newName childInodeNum fileType))
       (\<lambda>er. andThen (attempt (onInode oldParentInode (AddDirEntry now oldName childInodeNum fileType))) (\<lambda>_.
          failw er))
       (\<lambda>(_, newParentInode). ret newParentInode)"

definition ext4_Rename :: "env \<Rightarrow> bytes \<Rightarrow> bytes \<Rightarrow> unit eop" where
  "ext4_Rename ev oldpath newpath = with_tx ev (
     andThen (onInner (
       andThen (liftR (splitPath oldpath)) (\<lambda>(oldParent, oldName).
       andThen (liftR (splitPath newpath)) (\<lambda>(newParent, newName).
       andThen (Walk oldParent) (\<lambda>oldParentInode.
       andThen (WalkInode oldParent) (\<lambda>(oldParentNum, _).
       andThen (Walk newParent) (\<lambda>newParentInode.
       andThen (WalkInode newParent) (\<lambda>(newParentNum, _).
       andThen (Lookup oldParentInode oldName) (\<lambda>childInodeNum.
       andThen (ReadInode childInodeNum) (\<lambda>childInode.
       andThen (replace_target (unix_now ev) newParentInode newName) (\<lambda>newParentInode.
       andThen (onInode oldParentInode (RemoveDirEntry (unix_now ev) oldName)) (\<lambda>(_, oldParentInode).
         let fileType = (if IsDir childInode then DirFileTypeDir else DirFileTypeRegular)
         in andThen (add_or_undo (unix_now ev) oldParentInode oldName newParentInode newName childInodeNum fileType) (\<lambda>newParentInode.
            andThen (WriteInode oldParentNum (oldParentInode\<lparr>I_mtime := unix_now ev\<rparr>)) (\<lambda>_.
            andThen (WriteInode newParentNum (newParentInode\<lparr>I_mtime := unix_now ev\<rparr>)) (\<lambda>_.
              ret (oldParent, newParent)))))))))))))))) (\<lambda>(oldParent, newParent).
       andThen (drop_dir oldParent) (\<lambda>_. drop_dir newParent)))"

section \<open>Changing files\<close>

definition ext4_Write :: "env \<Rightarrow> bytes \<Rightarrow> bytes \<Rightarrow> int \<Rightarrow> nat eop" where
  "ext4_Write ev path buf ofst = with_tx ev (
     andThen (getS (\<lambda>e. e_files e path)) (\<lambda>f.
       case f of
         None \<Rightarrow> failw EOF
       | Some f \<Rightarrow>
           if of_empty f then failw (Errorf ''read-only file'')
           else
             andThen (onInner (
               andThen (ReadInode (of_inodeNum f)) (\<lambda>inode.
               andThen (onInode inode (WriteFileAt (unix_now ev) buf ofst)) (\<lambda>(n, inode).
               andThen (WriteInode (of_inodeNum f) inode) (\<lambda>_.
               andThen (if UsesExtents inode then attempt (ReadExtents inode) else ret None) (\<lambda>newExtents.
                 ret (n, inode, newExtents))))))) (\<lambda>(n, inode, newExtents).
             andThen (set_file path (f\<lparr>of_extents := (case newExtents of Some x \<Rightarrow> x | None \<Rightarrow> of_extents f),
                                       of_size := inode_Size inode\<rparr>)) (\<lambda>_.
               ret n))))"

definition ext4_Chmod :: "env \<Rightarrow> bytes \<Rightarrow> u32 \<Rightarrow> unit eop" where
  "ext4_Chmod ev path mode = with_tx ev (onInner (
     andThen (WalkInode path) (\<lambda>(inodeNum, inode).
       WriteInode inodeNum (inode\<lparr>I_mode := (I_mode inode AND 0xF000) OR ucast (mode AND 0x0FFF),
                                  I_ctime := unix_now ev\<rparr>))))"

definition ext4_Chown :: "env \<Rightarrow> bytes \<Rightarrow> u32 \<Rightarrow> u32 \<Rightarrow> unit eop" where
  "ext4_Chown ev path uid gid = with_tx ev (onInner (
     andThen (WalkInode path) (\<lambda>(inodeNum, inode).
       WriteInode inodeNum (inode\<lparr>I_uid := ucast (uid AND 0xFFFF), I_gid := ucast (gid AND 0xFFFF),
                                  L_i_uid_high := ucast (drop_bit 16 uid), L_i_gid_high := ucast (drop_bit 16 gid),
                                  I_ctime := unix_now ev\<rparr>))))"

text \<open>The loop that writes zeros at the end of a file, 4096 at a time. The differences of \<open>remaining\<close> and
  \<open>written\<close> do not leave the range of \<open>int64\<close>; the offset may.\<close>

function grow_loop :: "u32 \<Rightarrow> int \<Rightarrow> int \<Rightarrow> int \<Rightarrow> unit iop" where
  "grow_loop now curSize remaining written =
     (if written < remaining
      then
        let toWrite = (if 4096 > remaining - written then remaining - written else 4096)
        in andThen (WriteFileAt now (zeros (nat toWrite)) (i64 (curSize + written))) (\<lambda>_.
             grow_loop now curSize remaining (written + toWrite))
      else ret ())"
  by pat_completeness auto
termination
  by (relation "measure (\<lambda>(now, curSize, remaining, written). nat (remaining - written))") auto

declare grow_loop.simps [simp del]

definition ext4_Truncate :: "env \<Rightarrow> bytes \<Rightarrow> int \<Rightarrow> unit eop" where
  "ext4_Truncate ev path sz = with_tx ev (onInner (
     andThen (WalkInode path) (\<lambda>(inodeNum, inode).
       if \<not> IsRegular inode then failw (Errorf ''not a regular file'')
       else
         let curSize = sint (inode_Size inode)
         in if sz = curSize then ret ()
            else
              andThen (onInode inode (if sz > curSize then grow_loop (unix_now ev) curSize (i64 (sz - curSize)) 0
                                      else TruncateInode (unix_now ev) (u64i sz))) (\<lambda>(_, inode).
                WriteInode inodeNum inode))))"

section \<open>Extended attributes\<close>

definition walk_code :: "fuse_codes \<Rightarrow> goerr \<Rightarrow> int" where
  "walk_code c er = (if errors_Is er ErrNotExist then - ENOENT c else - EIO c)"

definition ext4_Getxattr :: "fuse_codes \<Rightarrow> bytes \<Rightarrow> bytes \<Rightarrow> (int \<times> bytes option) eop" where
  "ext4_Getxattr c path name =
     catch (onInner (WalkInode path)) (\<lambda>er. ret (walk_code c er, None)) (\<lambda>(inodeNum, _).
     catch (onInner (GetXAttr inodeNum name))
       (\<lambda>er. ret (if errors_Is er ErrAttrNotExist then - ENOATTR c else - EIO c, None)) (\<lambda>val.
       ret (0, Some val)))"

definition ext4_Setxattr :: "env \<Rightarrow> fuse_codes \<Rightarrow> bytes \<Rightarrow> bytes \<Rightarrow> bytes option \<Rightarrow> int \<Rightarrow> int eop" where
  "ext4_Setxattr ev c path name value flags = with_tx_code ev c (
     catch (onInner (WalkInode path)) (\<lambda>er. ret (walk_code c er)) (\<lambda>(inodeNum, _).
     andThen (if flags \<noteq> 0
              then andThen (attempt (onInner (ListXAttrs inodeNum))) (\<lambda>xattrs.
                ret (case xattrs of Some l \<Rightarrow> map_of l name \<noteq> None | None \<Rightarrow> False))
              else ret False) (\<lambda>exists.
       if flags = 1 \<and> exists then ret (- EEXIST c)
       else if flags = 2 \<and> \<not> exists then ret (- ENOATTR c)
       else
         catch (onInner (SetXAttr inodeNum name value))
           (\<lambda>er. ret (if errors_Is er ErrNoSpace then - ENOSPC c else - EIO c)) (\<lambda>_. ret 0))))"

text \<open>The names handed to the callback: \<open>fill\<close> sees the names before and the next one, and the loop
  ends when it returns false. The order of the map is a parameter.\<close>

fun fill_names :: "(bytes list \<Rightarrow> bytes \<Rightarrow> bool) \<Rightarrow> bytes list \<Rightarrow> bytes list \<Rightarrow> bytes list" where
  "fill_names fill seen [] = seen"
| "fill_names fill seen (k # ks) =
     (if fill seen k then fill_names fill (seen @ [k]) ks else seen @ [k])"

definition ext4_Listxattr ::
  "fuse_codes \<Rightarrow> (bytes list \<Rightarrow> bytes list) \<Rightarrow> bytes \<Rightarrow> (bytes list \<Rightarrow> bytes \<Rightarrow> bool) \<Rightarrow> (int \<times> bytes list) eop" where
  "ext4_Listxattr c ord path fill =
     catch (onInner (WalkInode path)) (\<lambda>er. ret (walk_code c er, [])) (\<lambda>(inodeNum, _).
     catch (onInner (ListXAttrs inodeNum)) (\<lambda>_. ret (- EIO c, [])) (\<lambda>xattrs.
       ret (0, fill_names fill [] (ord (map fst xattrs)))))"

definition ext4_Removexattr :: "env \<Rightarrow> fuse_codes \<Rightarrow> bytes \<Rightarrow> bytes \<Rightarrow> int eop" where
  "ext4_Removexattr ev c path name = with_tx_code ev c (
     catch (onInner (WalkInode path)) (\<lambda>er. ret (walk_code c er)) (\<lambda>(inodeNum, _).
     catch (onInner (RemoveXAttr inodeNum name))
       (\<lambda>er. ret (if errors_Is er ErrAttrNotExist then - ENOATTR c else - EIO c)) (\<lambda>_. ret 0)))"

end
