(* ===== verification/Frame.thy ===== *)
theory Frame
  imports Ext4_Fs
begin

text \<open>
  What the operations do to the device they run on, whatever it is. \<open>keeps P m\<close> is a Hoare triple
  for a state-passing operation and an invariant: \<open>m\<close> ends in a state with \<open>P\<close> when it begins in one,
  whether it returns, fails or panics. The rules of the collection \<open>keeps\<close> follow the
  combinators, so a proof for an operation unfolds it and applies them.

  Four locales are the interfaces. \<open>plain_readers\<close>: a predicate on file systems that one read of the
  device keeps is kept by what only reads the device; \<open>fs_readers\<close>: with a change of the directory cache, by
  the path walk too; \<open>fs_frame\<close>: with a write and changes of the free counters in superblock and descriptors, by every operation
  of \<open>vfs\<close>. \<open>dev_frame\<close>: a predicate on devices that one read and one write keep gives such a predicate
  (\<open>sublocale\<close>). They are interpreted in \<open>Ext4_Props\<close>, \<open>Geometry_Props\<close> and
  \<open>Health_Props\<close>: the chain of wrappers and the geometry stay the same, inside a transaction the device below is untouched, and a
  reader changes the directory cache at most.
\<close>

named_theorems keeps \<open>rules and operations for the invariant triples\<close>

definition keeps :: "('s \<Rightarrow> bool) \<Rightarrow> ('s, 'a) op \<Rightarrow> bool" where
  "keeps P m \<longleftrightarrow> (\<forall>s. P s \<longrightarrow> P (snd (m s)))"

lemma keepsI: "(\<And>s. P s \<Longrightarrow> P (snd (m s))) \<Longrightarrow> keeps P m"
  by (simp add: keeps_def)

lemma keepsD: "keeps P m \<Longrightarrow> P s \<Longrightarrow> m s = (r, s') \<Longrightarrow> P s'"
  by (metis keeps_def snd_conv)

lemma keeps_at: "keeps P m \<Longrightarrow> P s \<Longrightarrow> P (snd (m s))"
  by (simp add: keeps_def)

section \<open>Rules\<close>

lemma keeps_simple [keeps]:
  "keeps P (ret x)" "keeps P (failw e)" "keeps P panic" "keeps P (liftR r)" "keeps P (getS g)"
  by (simp_all add: keeps_def)

lemma keeps_modS: "(\<And>s. P s \<Longrightarrow> P (f s)) \<Longrightarrow> keeps P (modS f)"
  by (simp add: keeps_def)

lemma keeps_andThen [keeps]: "keeps P m \<Longrightarrow> (\<And>x. keeps P (f x)) \<Longrightarrow> keeps P (andThen m f)"
  by (auto simp: keeps_def andThen_def split: prod.splits res.splits)

lemma keeps_catch [keeps]:
  "keeps P m \<Longrightarrow> (\<And>e. keeps P (h e)) \<Longrightarrow> (\<And>x. keeps P (f x)) \<Longrightarrow> keeps P (catch m h f)"
  by (auto simp: keeps_def catch_def split: prod.splits res.splits)

lemma keeps_wrapErr [keeps]: "keeps P m \<Longrightarrow> keeps P (wrapErr e m)"
  by (auto simp: keeps_def wrapErr_def split: prod.splits)

lemma keeps_attempt [keeps]: "keeps P m \<Longrightarrow> keeps P (attempt m)"
  by (auto simp: keeps_def attempt_def split: prod.splits res.splits)

lemma keeps_if [keeps]: "keeps P a \<Longrightarrow> keeps P b \<Longrightarrow> keeps P (if c then a else b)"
  by simp

lemma keeps_option [keeps]:
  "keeps P a \<Longrightarrow> (\<And>x. keeps P (f x)) \<Longrightarrow> keeps P (case z of None \<Rightarrow> a | Some x \<Rightarrow> f x)"
  by (simp split: option.split)

lemma keeps_list [keeps]:
  "keeps P a \<Longrightarrow> (\<And>x xs. keeps P (f x xs)) \<Longrightarrow> keeps P (case z of [] \<Rightarrow> a | x # xs \<Rightarrow> f x xs)"
  by (simp split: list.split)

lemma keeps_prod [keeps]: "(\<And>x y. keeps P (f x y)) \<Longrightarrow> keeps P (case z of (x, y) \<Rightarrow> f x y)"
  by (simp split: prod.split)

lemma keeps_Let [keeps]: "keeps P (f x) \<Longrightarrow> keeps P (Let x f)"
  by simp

text \<open>The device of a file system, of a file system with something a callee changes, and of a driver.\<close>

definition on_fs :: "(dev \<Rightarrow> bool) \<Rightarrow> FileSystem \<Rightarrow> bool" where
  "on_fs D s = D (fs_dev s)"

definition on_fst :: "(FileSystem \<Rightarrow> bool) \<Rightarrow> FileSystem \<times> 'i \<Rightarrow> bool" where
  "on_fst Q s = Q (fst s)"

definition on_ext4 :: "(FileSystem \<Rightarrow> bool) \<Rightarrow> ext4 \<Rightarrow> bool" where
  "on_ext4 Q e = Q (e_inner e)"

lemma keeps_onFs [keeps]: "keeps Q m \<Longrightarrow> keeps (on_fst Q) (onFs m)"
  by (auto simp: keeps_def on_fst_def onFs_def split: prod.splits)

lemma keeps_modI [keeps]: "keeps (on_fst Q) (modI g)"
  by (auto simp: keeps_def on_fst_def)

lemma keeps_modR [keeps]: "keeps (on_fst Q) (modR g)"
  by (auto simp: keeps_def on_fst_def)

lemma keeps_onInode [keeps]: "keeps (on_fst Q) m \<Longrightarrow> keeps Q (onInode i m)"
  by (auto simp: keeps_def on_fst_def onInode_def split: prod.splits) (metis fst_conv snd_conv)

lemma keeps_onInner [keeps]: "keeps Q m \<Longrightarrow> keeps (on_ext4 Q) (onInner m)"
  by (auto simp: keeps_def on_ext4_def onInner_def split: prod.splits)

lemma keeps_memory [keeps]:
  "(\<And>s. fs_dev (f s) = fs_dev s) \<Longrightarrow> keeps (on_fs D) (modS f)"
  "(\<And>e. e_inner (h e) = e_inner e) \<Longrightarrow> keeps (on_ext4 Q) (modS h)"
  by (simp_all add: keeps_def on_fs_def on_ext4_def)

lemma keeps_pure [keeps]: "keeps P deref_sb" "keeps P Superblock" "keeps P (bgd_at g)"
  by (simp_all add: keeps_def deref_sb_def Superblock_def bgd_at_def split: option.split)

lemma keeps_set_file [keeps]: "keeps (on_ext4 Q) (set_file path f)" "keeps (on_ext4 Q) (drop_dir path)"
  unfolding set_file_def drop_dir_def by (intro keeps; simp)+

section \<open>Every operation\<close>

locale plain_readers =
  fixes P :: "FileSystem \<Rightarrow> bool"
  assumes rd_fs: "P s \<Longrightarrow> P (snd (fs_read n off s))"
begin

lemma keeps_reading [keeps]: "keeps P (fs_read n off)" "keeps P (read_block b)"
  using rd_fs by (simp_all add: keeps_def read_block_def)

lemma keeps_ReadInode [keeps]: "keeps P (inode_slot n)" "keeps P (ReadInode n)"
proof -
  show s: "keeps P (inode_slot n)" unfolding inode_slot_def by (intro keeps)
  show "keeps P (ReadInode n)" unfolding ReadInode_def by (intro keeps s)
qed

lemma keeps_children:
  "(\<And>b. keeps P (parse b)) \<Longrightarrow> keeps P (children_loop parse data is)"
proof (induction "is")
  case Nil
  show ?case unfolding children_loop.simps by (intro keeps)
next
  case (Cons i "is")
  show ?case unfolding children_loop.simps by (intro keeps Cons)
qed

lemma keeps_extents [keeps]: "keeps P (parseExtentNode depth data)"
proof (induction depth arbitrary: data)
  case 0
  show ?case unfolding parseExtentNode.simps by (intro keeps)
next
  case (Suc depth)
  show ?case unfolding parseExtentNode.simps by (intro keeps keeps_children Suc)
qed

lemma keeps_ReadExtents [keeps]: "keeps P (ReadExtents inode)"
  unfolding ReadExtents_def by (intro keeps)

lemma keeps_read_blocks [keeps]:
  "keeps P (copy_blocks m sz bl st)" "keeps P (read_at_blocks start fin pos phys ns buf)"
  "keeps P (read_dir_blocks root ds)"
proof -
  show "keeps P (copy_blocks m sz bl st)"
  proof (induction bl arbitrary: st)
    case Nil
    show ?case unfolding copy_blocks.simps by (intro keeps)
  next
    case (Cons b bl)
    show ?case by (cases st) (simp only: copy_blocks.simps, intro keeps Cons)
  qed
  show "keeps P (read_at_blocks start fin pos phys ns buf)"
  proof (induction ns arbitrary: buf)
    case Nil
    show ?case unfolding read_at_blocks.simps by (intro keeps)
  next
    case (Cons i ns)
    show ?case unfolding read_at_blocks.simps by (intro keeps Cons)
  qed
  show "keeps P (read_dir_blocks root ds)"
  proof (induction ds arbitrary: root)
    case Nil
    show ?case unfolding read_dir_blocks.simps by (intro keeps)
  next
    case (Cons d ds)
    show ?case unfolding read_dir_blocks.simps by (intro keeps Cons)
  qed
qed

lemma keeps_read_loops [keeps]:
  "keeps P (read_at_loop start fin pos exts buf)" "keeps P (symlink_loop sz exts st)"
proof -
  show "keeps P (read_at_loop start fin pos exts buf)"
  proof (induction exts arbitrary: pos buf)
    case Nil
    show ?case unfolding read_at_loop.simps by (intro keeps)
  next
    case (Cons ext exts)
    show ?case unfolding read_at_loop.simps by (intro keeps Cons)
  qed
  show "keeps P (symlink_loop sz exts st)"
  proof (induction exts arbitrary: st)
    case Nil
    show ?case by (cases st) (simp only: symlink_loop.simps, intro keeps)
  next
    case (Cons ext exts)
    show ?case by (cases st) (simp only: symlink_loop.simps, intro keeps Cons)
  qed
qed

lemma keeps_readers [keeps]:
  "keeps P (ReadFileAt exts n buf off)" "keeps P (ReadSymlink inode)"
  "keeps P (ReadDir inode)"
  unfolding ReadFileAt_def ReadSymlink_def ReadDir_def by (intro keeps)+

lemma keeps_xattr_readers [keeps]:
  "keeps P (ListXAttrs n)" "keeps P (GetXAttr n name)" "keeps P (ReadRawInode n)"
  unfolding ListXAttrs_def GetXAttr_def ReadRawInode_def raw_inode_offset_def by (intro keeps)+

end

locale fs_readers = plain_readers +
  assumes cache: "P s \<Longrightarrow> P (s\<lparr>fs_dirCache := c\<rparr>)"
begin

lemma keeps_Lookup [keeps]: "keeps P (Lookup inode name)"
  unfolding Lookup_def ReadDirCached_def by (intro keeps keeps_modS cache)

lemma keeps_components:
  "(\<And>p. keeps P (resolve p)) \<Longrightarrow> keeps P (walk_components resolve cs st)"
proof (induction cs arbitrary: st)
  case Nil
  show ?case by (cases st) (simp only: walk_components.simps, intro keeps)
next
  case (Cons c cs)
  show ?case by (cases st) (simp only: walk_components.simps, intro keeps Cons)
qed

lemma keeps_walk [keeps]:
  "keeps P (walk path depth)" "keeps P (Walk path)" "keeps P (WalkInode path)"
proof -
  have "keeps P (walk_left n path)" for n path
  proof (induction n arbitrary: path)
    case 0
    show ?case unfolding walk_left.simps by (intro keeps)
  next
    case (Suc n)
    show ?case unfolding walk_left.simps by (intro keeps keeps_components Suc)
  qed
  then show w: "keeps P (walk path depth)" for depth unfolding walk_def .
  show "keeps P (Walk path)" "keeps P (WalkInode path)"
    unfolding Walk_def WalkInode_def by (intro keeps w)+
qed

lemma keeps_open_parent [keeps]: "keeps P (open_parent path)"
  unfolding open_parent_def by (intro keeps)

end

text \<open>What no operation changes in memory: superblock and descriptors but for the counters of free blocks and inodes.\<close>

definition sb_core :: "SuperBlock \<Rightarrow> SuperBlock" where
  "sb_core sb = sb\<lparr>S_free_blocks_count_lo := 0, S_free_inodes_count := 0\<rparr>"

definition bgd_core :: "GroupDescriptor \<Rightarrow> GroupDescriptor" where
  "bgd_core b = b\<lparr>BG_free_blocks_count_lo := 0, BG_free_inodes_count_lo := 0\<rparr>"

locale fs_frame = fs_readers Q for Q +
  assumes wr_fs: "Q s \<Longrightarrow> Q (snd (fs_write p off s))"
    and core_sb: "Q s \<Longrightarrow> Q s0 \<Longrightarrow> fs_sb s0 = Some sb \<Longrightarrow> sb_core sb' = sb_core sb \<Longrightarrow> Q (s\<lparr>fs_sb := Some sb'\<rparr>)"
    and core_bgd: "Q s \<Longrightarrow> Q s0 \<Longrightarrow> unat g < length (fs_Bgds s0) \<Longrightarrow> bgd_core b = bgd_core (fs_Bgds s0 ! unat g) \<Longrightarrow>
      Q (upd_bgd g (\<lambda>_. b) s)"
begin

text \<open>The superblock and the descriptor that an operation reads before it changes their counters.\<close>

lemma keeps_deref_sb:
  "(\<And>sb s0. Q s0 \<Longrightarrow> fs_sb s0 = Some sb \<Longrightarrow> keeps Q (f sb)) \<Longrightarrow> keeps Q (andThen deref_sb f)"
  by (auto simp: keeps_def andThen_def deref_sb_def split: option.splits)

lemma keeps_bgd_at:
  "(\<And>s0. Q s0 \<Longrightarrow> unat g < length (fs_Bgds s0) \<Longrightarrow> keeps Q (f (fs_Bgds s0 ! unat g))) \<Longrightarrow> keeps Q (andThen (bgd_at g) f)"
  by (auto simp: keeps_def andThen_def bgd_at_def split: if_splits)

lemma keeps_write [keeps]:
  "keeps Q (fs_write p off)" "keeps Q (write_block buf b)" "keeps Q (WriteBlock b data)"
  using wr_fs by (simp_all add: keeps_def write_block_def WriteBlock_def)

lemma keeps_super [keeps]:
  "keeps Q writeSuperBlock" "keeps Q (WriteGroupDescriptor g bgd)"
  "keeps Q (updateSuperblockFreeBlocks k)" "keeps Q (updateSuperblockFreeInodes k)"
proof -
  have "keeps Q (andThen (attempt (fs_write (take 1024 (superblock_bytes sb)) (int SUPERBLOCK_OFFSET))) (\<lambda>_. ret ()))"
    for sb by (intro keeps)
  then show w [keeps]: "keeps Q writeSuperBlock"
    by (simp add: keeps_def writeSuperBlock_def split: option.split)
  show "keeps Q (WriteGroupDescriptor g bgd)"
    unfolding WriteGroupDescriptor_def by (intro keeps)
  show "keeps Q (updateSuperblockFreeBlocks k)"
    unfolding updateSuperblockFreeBlocks_def
    by (intro keeps_deref_sb keeps w keeps_modS) (rule core_sb, assumption, assumption, assumption, simp add: sb_core_def)
  show "keeps Q (updateSuperblockFreeInodes k)"
    unfolding updateSuperblockFreeInodes_def
    by (intro keeps_deref_sb keeps w keeps_modS) (rule core_sb, assumption, assumption, assumption, simp add: sb_core_def)
qed

lemma keeps_WriteInode [keeps]: "keeps Q (WriteInode n i)"
  unfolding WriteInode_def by (intro keeps)

lemma keeps_alloc_loops [keeps]:
  "keeps Q (alloc_block_loop k gs)" "keeps Q (alloc_inode_loop k gs)"
proof -
  show "keeps Q (alloc_block_loop k gs)"
  proof (induction gs)
    case Nil
    show ?case unfolding alloc_block_loop.simps by (intro keeps)
  next
    case (Cons g gs)
    show ?case unfolding alloc_block_loop.simps
      by (intro keeps_bgd_at keeps Cons keeps_modS) (rule core_bgd, assumption, assumption, assumption, simp add: bgd_core_def)
  qed
  show "keeps Q (alloc_inode_loop k gs)"
  proof (induction gs)
    case Nil
    show ?case unfolding alloc_inode_loop.simps by (intro keeps)
  next
    case (Cons g gs)
    show ?case unfolding alloc_inode_loop.simps
      by (intro keeps_bgd_at keeps Cons keeps_modS) (rule core_bgd, assumption, assumption, assumption, simp add: bgd_core_def)
  qed
qed

lemma keeps_alloc [keeps]:
  "keeps Q AllocateBlock" "keeps Q AllocateInode"
  "keeps Q (FreeBlock b)" "keeps Q (FreeInode n)"
  "keeps Q (InitNewInode now n mode)"
proof -
  show "keeps Q AllocateBlock" "keeps Q AllocateInode" "keeps Q (InitNewInode now n mode)"
    unfolding AllocateBlock_def AllocateInode_def InitNewInode_def by (intro keeps)+
  show "keeps Q (FreeBlock b)" "keeps Q (FreeInode n)"
    unfolding FreeBlock_def FreeInode_def
    by (intro keeps_bgd_at keeps keeps_modS; rule core_bgd, assumption, assumption, assumption, simp add: bgd_core_def)+
qed

lemma keeps_free [keeps]:
  "keeps Q (free_blocks m bl)" "keeps Q (free_extents_loop m exts)"
  "keeps Q (FreeExtents exts)" "keeps Q (truncate_loop k exts)"
proof -
  show b: "keeps Q (free_blocks m bl)" for bl m
  proof (induction bl)
    case Nil
    show ?case unfolding free_blocks.simps by (intro keeps)
  next
    case (Cons b bl)
    show ?case unfolding free_blocks.simps by (intro keeps Cons)
  qed
  show e: "keeps Q (free_extents_loop m exts)" for m
  proof (induction exts)
    case Nil
    show ?case unfolding free_extents_loop.simps by (intro keeps)
  next
    case (Cons ext exts)
    show ?case unfolding free_extents_loop.simps by (intro keeps b Cons)
  qed
  show "keeps Q (FreeExtents exts)" unfolding FreeExtents_def by (rule e)
  show "keeps Q (truncate_loop k exts)"
  proof (induction exts)
    case Nil
    show ?case unfolding truncate_loop.simps by (intro keeps)
  next
    case (Cons ext exts)
    show ?case unfolding truncate_loop.simps by (intro keeps b Cons)
  qed
qed

lemma keeps_descend [keeps]: "keeps Q (descend n h data b path)"
proof (induction n arbitrary: h data b path)
  case 0
  show ?case unfolding descend.simps by (intro keeps)
next
  case (Suc n)
  show ?case unfolding descend.simps by (intro keeps Suc)
qed

lemma keeps_insertIdx [keeps]: "keeps (on_fst Q) (insertIdxIntoParent path idx)"
proof (induction path arbitrary: idx)
  case Nil
  show ?case unfolding insertIdxIntoParent.simps by (intro keeps)
next
  case (Cons b path)
  show ?case unfolding insertIdxIntoParent.simps by (intro keeps Cons)
qed

lemma keeps_append [keeps]:
  "keeps (on_fst Q) (AppendExtent now ext)" "keeps (on_fst Q) (TruncateInode now sz)"
  unfolding AppendExtent_def appendExtentToLeaf_def splitRootLeafAndAppend_def appendExtentToTree_def
    appendExtentToLeafBlock_def splitLeafBlockAndAppend_def TruncateInode_def
  by (intro keeps)+

lemma keeps_write_loop [keeps]: "keeps (on_fst Q) (write_loop now exts buf start fin bs ls)"
proof (induction ls)
  case Nil
  show ?case unfolding write_loop.simps by (intro keeps)
next
  case (Cons l ls)
  show ?case unfolding write_loop.simps block_for_write_def by (intro keeps Cons)
qed

lemma keeps_WriteFileAt [keeps]: "keeps (on_fst Q) (WriteFileAt now buf off)"
  unfolding WriteFileAt_def by (intro keeps)

lemma keeps_grow [keeps]: "keeps (on_fst Q) (grow_loop now cur rem done)"
proof (induction now cur rem "done" rule: grow_loop.induct)
  case (1 now curSize remaining written)
  then show ?case
    by (subst grow_loop.simps) (auto simp: Let_def intro!: keeps keeps_modS)
qed

lemma keeps_dir_blocks [keeps]:
  "keeps (on_fst Q) (add_in_blocks now name child ft bl)" "keeps (on_fst Q) (remove_in_blocks now name bl)"
proof -
  show "keeps (on_fst Q) (add_in_blocks now name child ft bl)"
  proof (induction bl)
    case Nil
    show ?case unfolding add_in_blocks.simps by (intro keeps)
  next
    case (Cons b bl)
    show ?case unfolding add_in_blocks.simps
      by (intro keeps Cons keeps_modS) (auto simp: invalidateDirCache_def on_fst_def cache)
  qed
  show "keeps (on_fst Q) (remove_in_blocks now name bl)"
  proof (induction bl)
    case Nil
    show ?case unfolding remove_in_blocks.simps by (intro keeps)
  next
    case (Cons b bl)
    show ?case unfolding remove_in_blocks.simps
      by (intro keeps Cons keeps_modS) (auto simp: invalidateDirCache_def on_fst_def cache)
  qed
qed

lemma keeps_directory [keeps]:
  "keeps (on_fst Q) (AddDirEntry now name child ft)" "keeps (on_fst Q) (RemoveDirEntry now name)"
  unfolding AddDirEntry_def RemoveDirEntry_def add_block_def
  by (intro keeps keeps_modS; auto simp: invalidateDirCache_def on_fst_def cache Let_def)+

lemma keeps_free_on_error [keeps]: "keeps Q m \<Longrightarrow> keeps Q (free_on_error new b m)"
proof -
  assume m: "keeps Q m"
  have "free_on_error new b m =
      catch m (\<lambda>e. if new then andThen (attempt (FreeBlock b)) (\<lambda>_. failw e) else failw e) ret"
    by (rule ext) (simp add: free_on_error_def catch_def split: prod.split res.split)
  then show ?thesis by (simp only:) (intro keeps m)
qed

lemma keeps_xattr [keeps]:
  "keeps Q (SetXAttr n name v)" "keeps Q (RemoveXAttr n name)"
  unfolding SetXAttr_def RemoveXAttr_def WriteRawInode_def raw_inode_offset_def write_and_free_def store_in_inode_def store_in_block_def
  by (intro keeps)+

lemma keeps_driver [keeps]:
  "keeps Q (drop_link now n inode)" "keeps Q (symlink_block now target inode)"
  "keeps Q (add_or_undo now i1 n1 i2 n2 child ft)"
  unfolding drop_link_def symlink_block_def add_or_undo_def by (intro keeps)+

lemma keeps_replace_target [keeps]: "keeps Q (replace_target now inode name)"
  unfolding replace_target_def by (intro keeps)

text \<open>A commit keeps the predicate too, once the transaction's device is put aside.\<close>

lemma keeps_commit_dirty [keeps]: "keeps Q (commit_dirty ord1 ord2 now dirty)"
proof -
  have w [keeps]: "keeps Q (write_blocks bl)" for bl
  proof (induction bl)
    case Nil
    show ?case unfolding write_blocks.simps by (intro keeps)
  next
    case (Cons b bl)
    show ?case by (cases b) (simp only: write_blocks.simps, intro keeps Cons)
  qed
  have j [keeps]: "keeps Q (journal_write m0 m1 exts pos buf)" for m0 m1 exts pos buf
    unfolding journal_write_def by (intro keeps)
  have d: "keeps Q (write_data_blocks exts maxlen pos ds)" for exts maxlen pos ds
  proof (induction ds arbitrary: pos)
    case Nil
    show ?case unfolding write_data_blocks.simps by (intro keeps)
  next
    case (Cons b ds)
    show ?case unfolding write_data_blocks.simps by (intro keeps j Cons)
  qed
  show ?thesis
    unfolding commit_dirty_def commit_log_def writeDirtyBlocksDirectly_def by (intro keeps w j d)
qed

end

locale dev_frame =
  fixes D :: "dev \<Rightarrow> bool"
  assumes rd: "D d \<Longrightarrow> D (snd (dev_ReadAt d n off))"
    and wr: "D d \<Longrightarrow> D (snd (dev_WriteAt d p off))"
begin

lemma keeps_io: "keeps (on_fs D) (fs_read n off)" "keeps (on_fs D) (fs_write p off)"
  using rd wr
  by (auto simp: keeps_def on_fs_def fs_read_def fs_write_def readBuf_def writeBuf_def split: prod.splits)
    (metis snd_conv)+

end

sublocale dev_frame \<subseteq> frame: fs_frame "on_fs D"
  by unfold_locales (use keeps_io in \<open>auto simp: keeps_def on_fs_def upd_bgd_def\<close>)

context dev_frame begin

lemma keeps_mount [keeps]: "keeps (on_fs D) ReadSuperBlock" "keeps (on_fs D) ReadGroupDescriptors"
proof -
  show "keeps (on_fs D) ReadSuperBlock"
    unfolding ReadSuperBlock_def by (intro keeps) simp_all
  have g: "keeps (on_fs D) (ReadGroupDescriptor g)" for g
  proof (rule keepsI)
    fix s assume a: "on_fs D s"
    show "on_fs D (snd (ReadGroupDescriptor g s))"
    proof (cases "fs_sb s")
      case None
      with a show ?thesis by (simp add: ReadGroupDescriptor_def)
    next
      case (Some sb)
      show ?thesis unfolding ReadGroupDescriptor_def Some option.case by (rule keeps_at [where P = "on_fs D" and s = s], intro keeps, rule a)
    qed
  qed
  have l: "keeps (on_fs D) (read_descriptors gs)" for gs
  proof (induction gs)
    case Nil
    show ?case unfolding read_descriptors.simps by (intro keeps)
  next
    case (Cons x gs)
    show ?case unfolding read_descriptors.simps by (intro keeps g Cons) simp
  qed
  show "keeps (on_fs D) ReadGroupDescriptors"
  proof (rule keepsI)
    fix s assume a: "on_fs D s"
    show "on_fs D (snd (ReadGroupDescriptors s))"
    proof (cases "fs_sb s")
      case None
      with a show ?thesis by (simp add: ReadGroupDescriptors_def)
    next
      case (Some sb)
      show ?thesis unfolding ReadGroupDescriptors_def Some option.case by (rule keeps_at [where P = "on_fs D" and s = s], intro keeps l, rule a)
    qed
  qed
qed

end

end
