(* ===== verification/Ext4_Props.thy ===== *)
theory Ext4_Props
  imports Frame Journal_Props
begin

text \<open>
  What the operations of the ext4 driver promise. First the interpretations of the frame locales: the
  chain of wrappers under the driver never changes, inside a transaction the device below
  it is untouched, and the walk of a path changes the directory cache only. Then the driver as a step
  relation: every history leaves no transaction open, and a failing operation leaves
  the device exactly as it was. Then what \<open>Chmod\<close> and \<open>Chown\<close> store, how \<open>splitPath\<close> and the walk
  agree, and the cache of listings.
\<close>

section \<open>The chain of wrappers\<close>

datatype dev_shape = FileS | AlignedS dev_shape int | PartS dev_shape int int | SafeS dev_shape | TxS dev_shape u64

primrec shape_of :: "dev \<Rightarrow> dev_shape" where
  "shape_of (FileDev f) = FileS"
| "shape_of (AlignedDev d ss) = AlignedS (shape_of d) ss"
| "shape_of (PartDev d st sz) = PartS (shape_of d) st sz"
| "shape_of (SafeDev d l cache) = SafeS (shape_of d)"
| "shape_of (TxDev d bs dirty) = TxS (shape_of d) bs"

lemma shape_read: "shape_of (snd (dev_ReadAt d n off)) = shape_of d"
proof (induction d arbitrary: n off)
  case (AlignedDev d ss)
  then have "dev_ReadAt d n off = (r, d') \<Longrightarrow> shape_of d' = shape_of d" for n off r d'
    by (metis snd_conv)
  then show ?case
    by (auto simp: AlignedReaderAt_ReadAt_def Let_def split: prod.splits if_splits)
next
  case (PartDev d st sz)
  then have "dev_ReadAt d n off = (r, d') \<Longrightarrow> shape_of d' = shape_of d" for n off r d'
    by (metis snd_conv)
  then show ?case
    by (auto simp: PartitionReader_ReadAt_def Let_def split: prod.splits if_splits)
next
  case (SafeDev d l cache)
  then have "dev_ReadAt d n off = (r, d') \<Longrightarrow> shape_of d' = shape_of d" for n off r d'
    by (metis snd_conv)
  then show ?case
    by (auto simp: SafeDevice_ReadAt_def split: prod.splits option.splits)
next
  case (TxDev d bs dirty)
  then have "dev_ReadAt d n off = (r, d') \<Longrightarrow> shape_of d' = shape_of d" for n off r d'
    by (metis snd_conv)
  then show ?case
    by (auto simp: TxDevice_ReadAt_def split: prod.splits if_splits)
qed simp

text \<open>A predicate that every read and write of the device below keeps is kept by a write through a
  wrapper.\<close>

lemma wrapped_writes:
  assumes rd: "\<And>n o1. Q (snd (rd n o1))" and d: "Q d"
    and wr: "\<And>d p o1. Q d \<Longrightarrow> Q (snd (wr d p o1))"
  shows "Q (snd (AlignedReaderAt_WriteAt rd wr ss d p off))" and "Q (snd (PartitionReader_WriteAt wr st sz d p off))"
proof -
  have r: "rd n o1 = (x, d') \<Longrightarrow> Q d'" for n o1 x d' using rd by (metis snd_conv)
  have w: "Q d1 \<Longrightarrow> wr d1 q o1 = (x, d') \<Longrightarrow> Q d'" for d1 q o1 x d' using wr by (metis snd_conv)
  show "Q (snd (AlignedReaderAt_WriteAt rd wr ss d p off))"
    using d
    by (auto simp: AlignedReaderAt_WriteAt_def Let_def intro: wr split: prod.splits if_splits elim: w dest: r)
  show "Q (snd (PartitionReader_WriteAt wr st sz d p off))"
    using d wr by (auto simp: PartitionReader_WriteAt_def Let_def)
qed

lemma safe_writes:
  assumes rd: "\<And>d n o1. Q d \<Longrightarrow> Q (snd (rd d n o1))" and d: "Q d"
    and wr: "\<And>d p o1. Q d \<Longrightarrow> Q (snd (wr d p o1))"
  shows "Q (fst (snd (SafeDevice_WriteAt rd wr p off (d, l, cache))))"
proof -
  have r: "Q d \<Longrightarrow> rd d n o1 = (x, d') \<Longrightarrow> Q d'" for d n o1 x d' using rd by (metis snd_conv)
  have w: "Q d1 \<Longrightarrow> wr d1 q o1 = (x, d') \<Longrightarrow> Q d'" for d1 q o1 x d' using wr by (metis snd_conv)
  show ?thesis
    using d by (auto simp: SafeDevice_WriteAt_def Let_def split: prod.splits option.splits if_splits
        elim: w dest: r)
qed

lemma tx_writes:
  assumes rd: "\<And>d n o1. Q d \<Longrightarrow> Q (snd (rd d n o1))" and d: "Q d"
  shows "Q (fst (snd (TxDevice_WriteAt rd bs p off (d, dirty))))"
proof -
  have r: "Q d \<Longrightarrow> rd d n o1 = (x, d') \<Longrightarrow> Q d'" for d n o1 x d' using rd by (metis snd_conv)
  have b: "Q (fst st) \<Longrightarrow> Q (fst (snd (tx_write_block rd bs p off k st)))" for k st
    by (cases st) (auto simp: tx_write_block_def Let_def split: prod.splits option.splits if_splits dest: r)
  have l: "Q (fst st) \<Longrightarrow> Q (fst (snd (tx_write_loop rd bs p off ks st)))" for ks st
  proof (induction ks arbitrary: st)
    case (Cons k ks)
    obtain e st1 where st1: "tx_write_block rd bs p off k st = (e, st1)" by (metis prod.exhaust)
    then have "Q (fst st1)" using b [OF Cons.prems, of k] by simp
    then show ?case using st1 Cons.IH by (cases e) auto
  qed simp
  show ?thesis
  proof (cases "p = [] \<or> bs = 0")
    case False
    define ks :: "u64 list" where "ks = map word_of_nat [unat (u64i (godiv off bs))..<Suc (unat (u64i (godiv (off + int (length p) - 1) bs)))]"
    obtain e st1 where st1: "tx_write_loop rd bs p off ks (d, dirty) = (e, st1)" by (metis prod.exhaust)
    then have "Q (fst st1)" using l [of "(d, dirty)" ks] d by simp
    with False show ?thesis
      by (simp add: TxDevice_WriteAt_def Let_def st1 del: upt_Suc split: option.split flip: ks_def)
  qed (use d in \<open>auto simp: TxDevice_WriteAt_def\<close>)
qed

primrec shape_depth :: "dev_shape \<Rightarrow> nat" where
  "shape_depth FileS = 0"
| "shape_depth (AlignedS d ss) = Suc (shape_depth d)"
| "shape_depth (PartS d st sz) = Suc (shape_depth d)"
| "shape_depth (SafeS d) = Suc (shape_depth d)"
| "shape_depth (TxS d bs) = Suc (shape_depth d)"

lemma depth_shape: "dev_depth d = shape_depth (shape_of d)"
  by (induction d) simp_all

lemma shape_write: "shape_of (snd (dev_WriteAt d p off)) = shape_of d"
proof (induction "dev_depth d" arbitrary: d p off rule: less_induct)
  case less
  define Q where "Q = (\<lambda>d0 d1. shape_of d1 = shape_of d0)"
  have r: "Q d0 d1 \<Longrightarrow> Q d0 (snd (dev_ReadAt d1 n o1))" for d0 d1 n o1 by (simp add: Q_def shape_read)
  have w: "dev_depth d0 < dev_depth d \<Longrightarrow> Q d0 d1 \<Longrightarrow> Q d0 (snd (dev_WriteAt d1 q o1))" for d0 d1 q o1
    using less.hyps [of d1 q o1] unfolding Q_def depth_shape by simp
  have z: "Q d0 d0" for d0 by (simp add: Q_def)
  show ?case
  proof (cases d)
    case (FileDev f)
    then show ?thesis by (auto split: prod.split)
  next
    case (AlignedDev d0 ss)
    then have "Q d0 (snd (AlignedReaderAt_WriteAt (dev_ReadAt d0) dev_WriteAt ss d0 p off))"
      using wrapped_writes(1) [where Q = "Q d0", OF r [OF z] z w] by simp
    with AlignedDev show ?thesis by (auto simp: Q_def split: prod.split)
  next
    case (PartDev d0 st sz)
    then have "Q d0 (snd (PartitionReader_WriteAt dev_WriteAt st sz d0 p off))"
      using wrapped_writes(2) [where Q = "Q d0" and rd = "dev_ReadAt d0", OF r [OF z] z w] by simp
    with PartDev show ?thesis by (auto simp: Q_def split: prod.split)
  next
    case (SafeDev d0 l cache)
    then have "Q d0 (fst (snd (SafeDevice_WriteAt dev_ReadAt dev_WriteAt p off (d0, l, cache))))"
      using safe_writes [where Q = "Q d0" and rd = dev_ReadAt, OF r z w] by simp
    with SafeDev show ?thesis by (auto simp: Q_def split: prod.split)
  next
    case (TxDev d0 bs dirty)
    have "Q d0 (fst (snd (TxDevice_WriteAt dev_ReadAt (sint bs) p off (d0, dirty))))"
      by (rule tx_writes [where Q = "Q d0", OF r z])
    with TxDev show ?thesis by (auto simp: Q_def split: prod.split)
  qed
qed

interpretation shape: dev_frame "\<lambda>d. shape_of d = sh" for sh
  by unfold_locales (simp_all add: shape_read shape_write)

section \<open>Inside a transaction\<close>

definition over :: "dev \<Rightarrow> u64 \<Rightarrow> dev \<Rightarrow> bool" where
  "over d0 bs d \<longleftrightarrow> dev_ok d0 \<and> (\<exists>dirty. d = TxDev d0 bs dirty)"

lemma tx_read_same: "dev_ok d0 \<Longrightarrow> snd (dev_ReadAt (TxDev d0 bs dirty) n off) = TxDev d0 bs dirty"
  using dev_ReadAt_same [of d0 n off] by (auto simp: TxDevice_ReadAt_def split: prod.splits if_splits)

interpretation over: dev_frame "over d0 bs" for d0 bs
proof
  show "over d0 bs (snd (dev_ReadAt d n off))" if "over d0 bs d" for d n off
    using that tx_read_same by (auto simp: over_def simp del: dev_ReadAt.simps)
  show "over d0 bs (snd (dev_WriteAt d p off))" if o: "over d0 bs d" for d p off
  proof -
    obtain dirty where d: "dev_ok d0" "d = TxDev d0 bs dirty" using o by (auto simp: over_def)
    have "fst (snd (TxDevice_WriteAt dev_ReadAt (sint bs) p off (d0, dirty))) = d0"
      by (rule tx_writes [where Q = "\<lambda>d1. d1 = d0"]) (use d(1) dev_ReadAt_same in auto)
    with d show ?thesis by (auto simp: over_def split: prod.split)
  qed
qed

section \<open>Readers\<close>

definition cache_only :: "FileSystem \<Rightarrow> FileSystem \<Rightarrow> bool" where
  "cache_only s0 s \<longleftrightarrow> dev_ok (fs_dev s0) \<and> (\<exists>c. s = s0\<lparr>fs_dirCache := c\<rparr>)"

interpretation reading: fs_readers "cache_only s0" for s0
proof
  show "cache_only s0 (snd (fs_read n off s))" if "cache_only s0 s" for s n off
  proof -
    have "snd (readBuf n off (fs_dev s)) = fs_dev s"
      using that dev_ReadAt_same [of "fs_dev s" n off]
      by (auto simp: cache_only_def readBuf_def split: prod.splits)
    with that show ?thesis by (auto simp: fs_read_def cache_only_def split: prod.splits)
  qed
  show "cache_only s0 (s\<lparr>fs_dirCache := c\<rparr>)" if "cache_only s0 s" for s c
    using that by (auto simp: cache_only_def)
qed

interpretation still: fs_readers "on_fs (\<lambda>d. d = d0 \<and> dev_ok d0)" for d0
  by unfold_locales
    (auto simp: on_fs_def fs_read_def readBuf_def split: prod.splits, metis dev_ReadAt_same snd_conv)

section \<open>Every operation is a transaction\<close>

abbreviation device :: "ext4 \<Rightarrow> dev" where
  "device e \<equiv> fs_dev (e_inner e)"

definition is_tx :: "dev \<Rightarrow> bool" where
  "is_tx d \<longleftrightarrow> (\<exists>d0 bs dirty. d = TxDev d0 bs dirty)"

text \<open>The device is as before, or a commit of a transaction over it has run; a call that reports an
  error has not committed anything, unless it was the commit that failed.\<close>

definition tx_effect :: "ext4 \<Rightarrow> 'a res \<Rightarrow> ext4 \<Rightarrow> bool" where
  "tx_effect e r e' \<longleftrightarrow> device e' = device e \<or>
     (\<exists>(ev :: env) s dirty q. fs_dev s = TxDev (device e) (fs_BlockSize (e_inner e)) dirty \<and>
        CommitTransaction (ev_ord1 ev) (ev_ord2 ev) (ev_now ev) s = (q, e_inner e') \<and>
        (\<forall>er. r = Err er \<longrightarrow> q \<noteq> Ok ()))"

definition transactional :: "'a eop \<Rightarrow> bool" where
  "transactional m \<longleftrightarrow> (\<forall>e r e'. m e = (r, e') \<longrightarrow> \<not> is_tx (device e) \<longrightarrow>
     shape_of (device e') = shape_of (device e) \<and> (dev_ok (device e) \<longrightarrow> tx_effect e r e'))"

lemma begin_idle:
  "\<not> is_tx (device e) \<Longrightarrow> device (begin_tx e) = TxDev (device e) (fs_BlockSize (e_inner e)) []"
  by (cases "device e") (auto simp: begin_tx_def BeginTransaction_def is_tx_def)

lemma rollback_tx: "device e1 = TxDev d bs dirty \<Longrightarrow> device (rollback e1) = d"
  by (simp add: rollback_def RollbackTransaction_def)

lemma commit_eq:
  "commit ev e = (q, e') \<longleftrightarrow>
   CommitTransaction (ev_ord1 ev) (ev_ord2 ev) (ev_now ev) (e_inner e) = (q, e_inner e') \<and> e' = e\<lparr>e_inner := e_inner e'\<rparr>"
  by (auto simp: commit_def onInner_def split: prod.splits)

lemma commit_shape:
  assumes "shape_of (device e1) = TxS sh bs" and "commit ev e1 = (q, e')"
  shows "shape_of (device e') = sh"
proof -
  obtain d dirty where d: "device e1 = TxDev d bs dirty" "shape_of d = sh"
    using assms(1) by (cases "device e1") auto
  note k = shape.frame.keeps_commit_dirty [of sh "ev_ord1 ev" "ev_ord2 ev" "ev_now ev" dirty]
  show ?thesis
  proof (cases "dirty = []")
    case True
    with assms(2) d have "(e_inner e1)\<lparr>fs_dev := d\<rparr> = e_inner e'"
      by (simp add: commit_eq CommitTransaction_def)
    then have "device e' = d" by (metis FileSystem.select_convs(1) FileSystem.surjective FileSystem.update_convs(1))
    with d show ?thesis by simp
  next
    case False
    with assms(2) d keepsD [OF k, of "(e_inner e1)\<lparr>fs_dev := d\<rparr>" q "e_inner e'"] show ?thesis
      by (simp add: commit_eq CommitTransaction_def on_fs_def)
  qed
qed

text \<open>What \<open>with_tx\<close> and \<open>with_tx_code\<close> do after the body, in one form: roll back or commit.\<close>

lemma tx_end:
  assumes idle: "\<not> is_tx (device e)"
    and shape: "\<And>sh. keeps (on_ext4 (on_fs (\<lambda>d. shape_of d = sh))) body"
    and over: "\<And>d bs. keeps (on_ext4 (on_fs (over d bs))) body"
    and run: "body (begin_tx e) = (r0, e1)"
    and fin: "e' = rollback e1 \<or> (\<exists>q. commit ev e1 = (q, e') \<and> (\<forall>er. r = Err er \<longrightarrow> q \<noteq> Ok ()))"
  shows "shape_of (device e') = shape_of (device e) \<and> (dev_ok (device e) \<longrightarrow> tx_effect e r e')"
proof -
  define bs where "bs = fs_BlockSize (e_inner e)"
  note b = begin_idle [OF idle, folded bs_def]
  have s1: "shape_of (device e1) = TxS (shape_of (device e)) bs"
    using keepsD [OF shape _ run] b by (auto simp: on_ext4_def on_fs_def)
  then obtain d1 dirty1 where d1: "device e1 = TxDev d1 bs dirty1" "shape_of d1 = shape_of (device e)"
    by (cases "device e1") auto
  have o1: "d1 = device e" if "dev_ok (device e)"
    using keepsD [OF over [of "device e" bs] _ run] b d1(1) that by (auto simp: on_ext4_def on_fs_def over_def)
  show ?thesis
  proof (cases "e' = rollback e1")
    case True
    then show ?thesis using rollback_tx [OF d1(1)] d1(2) o1 by (auto simp: tx_effect_def)
  next
    case False
    then obtain q where q: "commit ev e1 = (q, e')" "\<forall>er. r = Err er \<longrightarrow> q \<noteq> Ok ()" using fin by auto
    have "tx_effect e r e'" if "dev_ok (device e)"
      unfolding tx_effect_def using q d1(1) o1 [OF that] by (auto simp: commit_eq bs_def)
    with commit_shape [OF s1 q(1)] show ?thesis by blast
  qed
qed

lemma with_tx_transactional:
  assumes "\<And>sh. keeps (on_ext4 (on_fs (\<lambda>d. shape_of d = sh))) body" and "\<And>d bs. keeps (on_ext4 (on_fs (over d bs))) body"
  shows "transactional (with_tx ev body)"
  unfolding transactional_def
proof (intro allI impI)
  fix e r e' assume w: "with_tx ev body e = (r, e')" and idle: "\<not> is_tx (device e)"
  obtain r0 e1 where b: "body (begin_tx e) = (r0, e1)" by (metis prod.exhaust)
  obtain q e2 where c: "commit ev e1 = (q, e2)" by (metis prod.exhaust)
  show "shape_of (device e') = shape_of (device e) \<and> (dev_ok (device e) \<longrightarrow> tx_effect e r e')"
    by (rule tx_end [OF idle assms b, where ev = ev])
      (use w b c in \<open>cases r0; cases q; auto simp: with_tx_def\<close>)
qed

lemma with_tx_code_transactional:
  assumes "\<And>sh. keeps (on_ext4 (on_fs (\<lambda>d. shape_of d = sh))) body" and "\<And>d bs. keeps (on_ext4 (on_fs (over d bs))) body"
    and "with_tx_code ev c body e = (r, e')" and "\<not> is_tx (device e)"
  shows "shape_of (device e') = shape_of (device e) \<and>
    (dev_ok (device e) \<longrightarrow> tx_effect e (case r of Ok k \<Rightarrow> if k = 0 then Ok () else Err er | Err er \<Rightarrow> Err er | Panic \<Rightarrow> Panic) e')"
proof -
  obtain r0 e1 where b: "body (begin_tx e) = (r0, e1)" by (metis prod.exhaust)
  obtain q e2 where co: "commit ev e1 = (q, e2)" by (metis prod.exhaust)
  show ?thesis
    by (rule tx_end [OF assms(4,1,2) b, where ev = ev])
      (use assms(3) b co in \<open>cases r0; cases q; auto simp: with_tx_code_def catch_def split: if_splits\<close>)
qed

lemma reader_transactional:
  assumes "\<And>sh. keeps (on_ext4 (on_fs (\<lambda>d. shape_of d = sh))) m" and "\<And>d0. keeps (on_ext4 (on_fs (\<lambda>d. d = d0 \<and> dev_ok d0))) m"
  shows "transactional m"
  unfolding transactional_def
proof (intro allI impI)
  fix e r e' assume m: "m e = (r, e')"
  have "shape_of (device e') = shape_of (device e)"
    using keepsD [OF assms(1) _ m] by (simp add: on_ext4_def on_fs_def)
  moreover have "dev_ok (device e) \<Longrightarrow> device e' = device e"
    using keepsD [OF assms(2) _ m, of "device e"] by (simp add: on_ext4_def on_fs_def)
  ultimately show "shape_of (device e') = shape_of (device e) \<and> (dev_ok (device e) \<longrightarrow> tx_effect e r e')"
    by (simp add: tx_effect_def)
qed

lemma reads_transactional:
  "transactional (ext4_Getattr path)" "transactional (ext4_Readdir path)" "transactional (ext4_Readlink path)"
  "transactional (ext4_Open path)" "transactional (ext4_Read path buf ofst)" "transactional (ext4_Release path)"
  "transactional ext4_Statfs" "transactional (ext4_Getxattr c path name)" "transactional (ext4_Listxattr c ord path fill)"
  unfolding ext4_Getattr_def ext4_Readdir_def ext4_Readlink_def ext4_Open_def ext4_Read_def ext4_Release_def
    ext4_Statfs_def ext4_Getxattr_def ext4_Listxattr_def
  by (rule reader_transactional; intro keeps; simp)+

lemma writes_transactional:
  "transactional (ext4_Create ev path mode)" "transactional (ext4_Mkdir ev path mode)"
  "transactional (ext4_Symlink ev target path)" "transactional (ext4_Link ev oldpath path)"
  "transactional (removeEntry ev path d)" "transactional (ext4_Rename ev oldpath path)"
  "transactional (ext4_Write ev path buf ofst)" "transactional (ext4_Chmod ev path mode)"
  "transactional (ext4_Chown ev path uid gid)" "transactional (ext4_Truncate ev path sz)"
  unfolding ext4_Create_def ext4_Mkdir_def ext4_Symlink_def ext4_Link_def removeEntry_def ext4_Rename_def
    ext4_Write_def ext4_Chmod_def ext4_Chown_def ext4_Truncate_def Let_def
  by (rule with_tx_transactional; intro keeps; simp)+

text \<open>One call from the layer above, with what it reports: an error, or success (a number is an error when it is
  not 0), or a panic. Each call has its own clock and map orders.\<close>

definition outcome :: "'a res \<Rightarrow> unit res" where
  "outcome r = mapR (\<lambda>_. ()) r"

definition code_res :: "int res \<Rightarrow> unit res" where
  "code_res r = (case r of Ok k \<Rightarrow> if k = 0 then Ok () else Err (Errorf ''errno'') | Err er \<Rightarrow> Err er | Panic \<Rightarrow> Panic)"

inductive ext4_step :: "fuse_codes \<Rightarrow> ext4 \<Rightarrow> unit res \<Rightarrow> ext4 \<Rightarrow> bool" for c where
  "ext4_Getattr path e = (r, e') \<Longrightarrow> ext4_step c e (outcome r) e'"
| "ext4_Readdir path e = (r, e') \<Longrightarrow> ext4_step c e (outcome r) e'"
| "ext4_Readlink path e = (r, e') \<Longrightarrow> ext4_step c e (outcome r) e'"
| "ext4_Open path e = (r, e') \<Longrightarrow> ext4_step c e (outcome r) e'"
| "ext4_Read path buf ofst e = (r, e') \<Longrightarrow> ext4_step c e (outcome r) e'"
| "ext4_Release path e = (r, e') \<Longrightarrow> ext4_step c e (outcome r) e'"
| "ext4_Statfs e = (r, e') \<Longrightarrow> ext4_step c e (outcome r) e'"
| "ext4_Getxattr c path name e = (r, e') \<Longrightarrow> ext4_step c e (outcome r) e'"
| "ext4_Listxattr c ord path fill e = (r, e') \<Longrightarrow> ext4_step c e (outcome r) e'"
| "ext4_Create ev path mode e = (r, e') \<Longrightarrow> ext4_step c e (outcome r) e'"
| "ext4_Write ev path buf ofst e = (r, e') \<Longrightarrow> ext4_step c e (outcome r) e'"
| "ext4_Mkdir ev path mode e = (r, e') \<Longrightarrow> ext4_step c e (outcome r) e'"
| "ext4_Unlink ev path e = (r, e') \<Longrightarrow> ext4_step c e (outcome r) e'"
| "ext4_Rmdir ev path e = (r, e') \<Longrightarrow> ext4_step c e (outcome r) e'"
| "ext4_Rename ev oldpath path e = (r, e') \<Longrightarrow> ext4_step c e (outcome r) e'"
| "ext4_Chmod ev path mode e = (r, e') \<Longrightarrow> ext4_step c e (outcome r) e'"
| "ext4_Chown ev path uid gid e = (r, e') \<Longrightarrow> ext4_step c e (outcome r) e'"
| "ext4_Truncate ev path sz e = (r, e') \<Longrightarrow> ext4_step c e (outcome r) e'"
| "ext4_Symlink ev target path e = (r, e') \<Longrightarrow> ext4_step c e (outcome r) e'"
| "ext4_Link ev oldpath path e = (r, e') \<Longrightarrow> ext4_step c e (outcome r) e'"
| "ext4_Setxattr ev c path name val flags e = (k, e') \<Longrightarrow> ext4_step c e (code_res k) e'"
| "ext4_Removexattr ev c path name e = (k, e') \<Longrightarrow> ext4_step c e (code_res k) e'"

inductive reachable :: "fuse_codes \<Rightarrow> dev \<Rightarrow> ext4 \<Rightarrow> bool" for c d where
  mounted: "ext4_ReadSuperBlock d = (Ok (), e) \<Longrightarrow> reachable c d e"
| call: "reachable c d e \<Longrightarrow> ext4_step c e r e' \<Longrightarrow> reachable c d e'"

lemma transactionalD:
  assumes "transactional m" and "m e = (r, e')" and "\<not> is_tx (device e)"
  shows "shape_of (device e') = shape_of (device e) \<and> (dev_ok (device e) \<longrightarrow> tx_effect e (outcome r) e')"
proof -
  have "outcome r = Err er \<longleftrightarrow> r = Err er" for er by (cases r) (simp_all add: outcome_def)
  then have "tx_effect e (outcome r) e' = tx_effect e r e'" by (simp add: tx_effect_def)
  with assms show ?thesis by (simp add: transactional_def)
qed

lemma code_transactional:
  assumes "\<not> is_tx (device e)"
  shows "ext4_Setxattr ev c path name val flags e = (k, e') \<Longrightarrow>
      shape_of (device e') = shape_of (device e) \<and> (dev_ok (device e) \<longrightarrow> tx_effect e (code_res k) e')"
    and "ext4_Removexattr ev c path name e = (k, e') \<Longrightarrow>
      shape_of (device e') = shape_of (device e) \<and> (dev_ok (device e) \<longrightarrow> tx_effect e (code_res k) e')"
proof -
  note code = with_tx_code_transactional [where er = "Errorf ''errno''", folded code_res_def]
  show "ext4_Setxattr ev c path name val flags e = (k, e') \<Longrightarrow>
      shape_of (device e') = shape_of (device e) \<and> (dev_ok (device e) \<longrightarrow> tx_effect e (code_res k) e')"
    unfolding ext4_Setxattr_def by (erule code [rotated 2]) (intro keeps assms)+
  show "ext4_Removexattr ev c path name e = (k, e') \<Longrightarrow>
      shape_of (device e') = shape_of (device e) \<and> (dev_ok (device e) \<longrightarrow> tx_effect e (code_res k) e')"
    unfolding ext4_Removexattr_def by (erule code [rotated 2]) (intro keeps assms)+
qed

lemmas call_laws =
  reads_transactional [THEN transactionalD] writes_transactional [THEN transactionalD] code_transactional

lemma step_effect:
  assumes "ext4_step c e r e'" and "\<not> is_tx (device e)"
  shows "shape_of (device e') = shape_of (device e) \<and> (dev_ok (device e) \<longrightarrow> tx_effect e r e')"
  using assms(1)
  by cases (simp only:, rule call_laws; use assms(2) in \<open>simp add: ext4_Unlink_def ext4_Rmdir_def\<close>)+

lemma is_tx_shape: "is_tx d \<longleftrightarrow> (\<exists>sh bs. shape_of d = TxS sh bs)"
  by (cases d) (auto simp: is_tx_def)

lemma reachable_shape:
  assumes "reachable c d e" and "\<not> is_tx d"
  shows "shape_of (device e) = shape_of d"
  using assms(1)
proof induction
  case (mounted e)
  have "keeps (on_ext4 (on_fs (\<lambda>x. shape_of x = shape_of d))) (onInner (andThen ReadSuperBlock (\<lambda>_. ReadGroupDescriptors)))"
    by (intro keeps)
  from keepsD [OF this _ mounted [unfolded ext4_ReadSuperBlock_def]] show ?case
    by (simp add: on_ext4_def on_fs_def NewFileSystem_def)
next
  case (call e r e')
  then have "\<not> is_tx (device e)" using assms(2) by (simp add: is_tx_shape)
  with step_effect [OF call.hyps(2)] call.IH show ?case by simp
qed

text \<open>C2: whatever calls have been made since the file system was mounted, successful, failed or panicked,
  the driver runs on the same chain of wrappers as at the start: every operation has closed the
  transaction it opened.\<close>

theorem no_open_transaction:
  assumes "reachable c d e" and "\<not> is_tx d"
  shows "shape_of (device e) = shape_of d \<and> \<not> is_tx (device e)"
  using reachable_shape [OF assms] assms(2) by (simp add: is_tx_shape)


section \<open>Changing the inode at a path\<close>

text \<open>Two file systems that read the same inodes: same geometry, same disk.\<close>

definition same_view :: "FileSystem \<Rightarrow> FileSystem \<Rightarrow> bool" where
  "same_view s s' \<longleftrightarrow> fs_sb s' = fs_sb s \<and> fs_Bgds s' = fs_Bgds s \<and> fs_BlockSize s' = fs_BlockSize s \<and>
     fs_InodeSize s' = fs_InodeSize s \<and> fs_GroupCount s' = fs_GroupCount s \<and> fs_DescSize s' = fs_DescSize s \<and>
     disk s' = disk s \<and> dev_ok (fs_dev s) \<and> dev_ok (fs_dev s')"

lemma same_view_inode:
  assumes "same_view s s'"
  shows "inode_pos s' m = inode_pos s m" "inode_valid s' m = inode_valid s m" "inode_at s' m = inode_at s m"
    "inode_tables_disjoint s' = inode_tables_disjoint s"
proof -
  have g: "inode_group s' m = inode_group s m" "inode_index s' m = inode_index s m" "inode_table s' k = inode_table s k"
    for k m
    using assms by (auto simp: same_view_def inode_group_def inode_index_def inode_table_def gd_addr_def)
  then show p: "inode_pos s' m = inode_pos s m" using assms by (simp add: inode_pos_def same_view_def)
  show "inode_valid s' m = inode_valid s m" using g p assms by (simp add: inode_valid_def same_view_def)
  show "inode_at s' m = inode_at s m" using p assms by (simp add: inode_at_def same_view_def)
  show "inode_tables_disjoint s' = inode_tables_disjoint s"
    using g assms by (simp add: inode_tables_disjoint_def same_view_def)
qed

lemma same_view_read:
  assumes "same_view s s'" and "inode_valid s m" and "160 \<le> unat (fs_InodeSize s)"
  shows "ReadInode m s' = (fst (ReadInode m s), s')"
  using assms same_view_inode [OF assms(1)] ReadInode_valid [of s m] ReadInode_valid [of s' m]
  by (auto simp: same_view_def)

lemma put_blocks_geometry [simp]:
  "fs_GroupCount (put_blocks ws s) = fs_GroupCount s" "fs_DescSize (put_blocks ws s) = fs_DescSize s"
  by (induction ws arbitrary: s) auto

definition file_system_idle :: "ext4 \<Rightarrow> bool" where
  "file_system_idle e \<longleftrightarrow> \<not> is_tx (device e) \<and> fs_ok (e_inner e) \<and> bsz (e_inner e) dvd length (disk (e_inner e)) \<and>
     160 \<le> unat (fs_InodeSize (e_inner e)) \<and> inode_tables_disjoint (e_inner e) \<and>
     (\<exists>sb. fs_sb (e_inner e) = Some sb \<and> S_journal_inum sb = 0)"

lemma update_at_path:
  assumes idle: "file_system_idle e" and ord: "\<And>m. mset (ev_ord2 ev m) = mset m"
    and walk: "WalkInode path (BeginTransaction (e_inner e)) = (Ok (n, i), s1)"
    and n: "inode_valid (e_inner e) n" and wf: "inode_wf (g n i)"
  shows "\<exists>e'. with_tx ev (onInner (andThen (WalkInode path) (\<lambda>(num, inode). WriteInode num (g num inode)))) e = (Ok (), e') \<and>
    ReadInode n (e_inner e') = (Ok (g n i), e_inner e') \<and>
    (\<forall>m. inode_valid (e_inner e) m \<and> m \<noteq> n \<longrightarrow> fst (ReadInode m (e_inner e')) = fst (ReadInode m (e_inner e)))"
proof -
  define s where "s = e_inner e"
  note h = idle [unfolded file_system_idle_def, folded s_def]
  define t where "t = tx_of s []"
  have bt: "BeginTransaction s = t" "begin_tx e = e\<lparr>e_inner := t\<rparr>"
    using h by (cases "fs_dev s"; simp add: begin_tx_def BeginTransaction_def t_def tx_of_def is_tx_def s_def)+
  have it: "in_tx t (fs_dev s) []" unfolding t_def using h by (intro in_tx_of) auto
  have v0: "same_view s t"
    using h it by (auto simp: same_view_def t_def tx_of_def fs_ok_def in_tx_def)
  have "t = t\<lparr>fs_dirCache := fs_dirCache t\<rparr>" by simp
  then have "cache_only t t" using v0 unfolding cache_only_def same_view_def by blast
  then obtain c where s1: "s1 = t\<lparr>fs_dirCache := c\<rparr>"
    using keepsD [OF reading.keeps_walk(3)] walk bt(1) unfolding cache_only_def s_def by metis
  have v1: "same_view s s1" using v0 by (simp add: same_view_def s1)
  have isz: "160 \<le> unat (fs_InodeSize s1)" "dev_ok (fs_dev s1)" using h v1 by (auto simp: same_view_def)
  obtain s2 where s2: "WriteInode n (g n i) s1 = (Ok (), s2)" "ReadInode n s2 = (Ok (g n i), s2)"
      "\<And>m. inode_valid s1 m \<Longrightarrow> m \<noteq> n \<Longrightarrow> fst (ReadInode m s2) = fst (ReadInode m s1)"
    using write_read_law [OF isz(2,1) _ _ wf] same_view_inode [OF v1] h n by (fastforce simp: s_def)
  define z where "z = unat (fs_InodeSize s1)"
  define p where "p = copy_at 0 (inode_bytes (g n i)) (bslice (inode_pos s1 n) (inode_pos s1 n + z) (disk s1))"
  have n1: "inode_valid s1 n" using same_view_inode [OF v1] n by (simp add: s_def)
  then have le: "inode_pos s1 n + z \<le> length (disk s1)" by (simp add: inode_valid_def z_def)
  have e2: "s2 = poke s1 (inode_pos s1 n) p"
    using WriteInode_valid [OF isz(2) n1 isz(1) wf] s2(1) by (simp add: p_def z_def)
  have lp: "length p = z" using le by (simp add: p_def)
  then have pp: "p \<noteq> []" "inode_pos s1 n + length p \<le> length (disk s1)" using isz(1) le by (auto simp: z_def)
  note pk = poke_ok [OF isz(2) pp]
  have f2: "fs_sb s2 = fs_sb s" "fs_BlockSize s2 = fs_BlockSize s" "fs_InodeSize s2 = fs_InodeSize s"
    "dev_ok (fs_dev s2)" "fs_ok s2"
    using pk h v1 by (simp_all add: e2 same_view_def fs_ok_def)
  have "over (fs_dev s) (fs_BlockSize s) (fs_dev s2)"
    using keepsD [OF over.frame.keeps_WriteInode [of "fs_dev s" "fs_BlockSize s"] _ s2(1)] h
    by (simp add: on_fs_def over_def s1 t_def tx_of_def fs_ok_def)
  then obtain dirty where it2: "in_tx s2 (fs_dev s) dirty" using f2 by (auto simp: over_def in_tx_def)
  obtain sb where sb: "fs_sb s2 = Some sb" "S_journal_inum sb = 0" using h f2(1) by auto
  note co = commit_view [OF it2 sb ord]
  define s3 where "s3 = put_blocks (ev_ord2 ev dirty) (s2\<lparr>fs_dev := fs_dev s\<rparr>)"
  have v3: "same_view s2 s3"
    using co f2 by (simp add: same_view_def s3_def fs_ok_def)
  define e' where "e' = e\<lparr>e_inner := s3\<rparr>"
  have run: "with_tx ev (onInner (andThen (WalkInode path) (\<lambda>(num, inode). WriteInode num (g num inode)))) e = (Ok (), e')"
    using walk s2(1) co(1) bt by (simp add: with_tx_def onInner_def commit_def s3_def e'_def s_def)
  have n2: "inode_valid s2 m" if "inode_valid s m" for m
    using inode_valid_poke(2) [OF isz(2) pp, of m] same_view_inode(2) [OF v1, of m] that by (simp add: e2)
  have rd: "ReadInode m s3 = (fst (ReadInode m s2), s3)" if "inode_valid s m" for m
    using same_view_read [OF v3 n2 [OF that]] h f2 by simp
  have "ReadInode n s3 = (Ok (g n i), s3)" using rd [of n] n s2(2) by (simp add: s_def)
  moreover have "fst (ReadInode m s3) = fst (ReadInode m s)" if "inode_valid s m" "m \<noteq> n" for m
    using rd [OF that(1)] s2(3) [of m] that same_view_inode(2) [OF v1, of m] same_view_read [OF v1 that(1)] h by simp
  ultimately show ?thesis using run by (auto simp: e'_def s_def)
qed

lemma ext4_Chmod_tx:
  "ext4_Chmod ev path mode = with_tx ev (onInner (andThen (WalkInode path) (\<lambda>(num, inode).
     WriteInode num ((\<lambda>_ i. i\<lparr>I_mode := (I_mode i AND 0xF000) OR ucast (mode AND 0x0FFF), I_ctime := unix_now ev\<rparr>) num inode))))"
  by (simp add: ext4_Chmod_def)

lemma ext4_Chown_tx:
  "ext4_Chown ev path uid gid = with_tx ev (onInner (andThen (WalkInode path) (\<lambda>(num, inode).
     WriteInode num ((\<lambda>_ i. i\<lparr>I_uid := ucast (uid AND 0xFFFF), I_gid := ucast (gid AND 0xFFFF),
       L_i_uid_high := ucast (drop_bit 16 uid), L_i_gid_high := ucast (drop_bit 16 gid), I_ctime := unix_now ev\<rparr>) num inode))))"
  by (simp add: ext4_Chown_def)

lemma split_id: "ucast (ucast (w AND 0xFFFF) :: u16) OR push_bit 16 (ucast (ucast (drop_bit 16 w) :: u16)) = (w :: u32)"
proof -
  have m: "(0xFFFF :: u32) = mask 16" by (simp add: mask_eq_exp_minus_1)
  show ?thesis unfolding m by (rule bit_word_eqI) (auto simp: bit_simps)
qed


text \<open>\<open>Chown\<close> stores the 32-bit owner and group in halves and \<open>toNodeInfo\<close> puts them together
  again: what \<open>Getattr\<close> reports of the inode afterwards is exactly the owner and group given.\<close>

theorem Chown_sets_owner:
  assumes "file_system_idle e" and "\<And>m. mset (ev_ord2 ev m) = mset m"
    and "WalkInode path (BeginTransaction (e_inner e)) = (Ok (n, i), s1)"
    and "inode_valid (e_inner e) n" and "inode_wf i"
  shows "\<exists>e' i'. ext4_Chown ev path uid gid e = (Ok (), e') \<and> ReadInode n (e_inner e') = (Ok i', e_inner e') \<and>
    n_Uid (toNodeInfo i') = uid \<and> n_Gid (toNodeInfo i') = gid \<and> n_Mode (toNodeInfo i') = n_Mode (toNodeInfo i) \<and>
    n_Size (toNodeInfo i') = n_Size (toNodeInfo i) \<and>
    (\<forall>m. inode_valid (e_inner e) m \<and> m \<noteq> n \<longrightarrow> fst (ReadInode m (e_inner e')) = fst (ReadInode m (e_inner e)))"
proof -
  define i' where "i' = i\<lparr>I_uid := ucast (uid AND 0xFFFF), I_gid := ucast (gid AND 0xFFFF),
    L_i_uid_high := ucast (drop_bit 16 uid), L_i_gid_high := ucast (drop_bit 16 gid), I_ctime := unix_now ev\<rparr>"
  have "n_Uid (toNodeInfo i') = uid" "n_Gid (toNodeInfo i') = gid" "n_Mode (toNodeInfo i') = n_Mode (toNodeInfo i)"
    "n_Size (toNodeInfo i') = n_Size (toNodeInfo i)"
    by (simp_all add: toNodeInfo_def i'_def split_id inode_Size_def IsDir_def)
  moreover have "inode_wf i'" using assms(5) by (simp add: i'_def inode_wf_def)
  then obtain e' where "ext4_Chown ev path uid gid e = (Ok (), e')" "ReadInode n (e_inner e') = (Ok i', e_inner e')"
    "\<forall>m. inode_valid (e_inner e) m \<and> m \<noteq> n \<longrightarrow> fst (ReadInode m (e_inner e')) = fst (ReadInode m (e_inner e))"
    unfolding ext4_Chown_tx
    using update_at_path [OF assms(1-4), where g = "\<lambda>_ i. i\<lparr>I_uid := ucast (uid AND 0xFFFF), I_gid := ucast (gid AND 0xFFFF),
      L_i_uid_high := ucast (drop_bit 16 uid), L_i_gid_high := ucast (drop_bit 16 gid), I_ctime := unix_now ev\<rparr>"]
    by (auto simp flip: i'_def)
  ultimately show ?thesis by blast
qed

section \<open>Paths\<close>

lemma takeWhile_rev_name: "47 \<notin> set name \<Longrightarrow> takeWhile (\<lambda>c. c \<noteq> 47) (rev name @ [47 :: u8] @ r) = rev name"
  by (simp add: takeWhile_append2 takeWhile_append)

lemma splitPath_join:
  assumes "name \<noteq> []" and "47 \<notin> set name"
  shows "splitPath (parent @ [47] @ name @ replicate k 47) = Ok (if parent = [] then [47] else parent, name)"
proof -
  obtain m c where m: "name = m @ [c]" "c \<noteq> 47" using assms by (cases name rule: rev_cases) auto
  have "dropWhile (\<lambda>c. c = 47) (replicate k 47 @ c # r) = c # r" for r :: bytes
    using m(2) by (induction k) auto
  then have t: "trim_slashes (parent @ [47] @ name @ replicate k 47) = parent @ [47] @ name"
    by (simp add: trim_slashes_def m(1))
  have "last_slash (parent @ [47] @ name) = int (length parent)"
    using takeWhile_rev_name [OF assms(2), of "rev parent"] by (simp add: last_slash_def)
  moreover have "nat (int (length parent) + 1) = Suc (length parent)" by simp
  ultimately show ?thesis using t assms(1) by (auto simp: splitPath_def Let_def append_eq_Cons_conv)
qed

text \<open>The components of a path that the walk looks at.\<close>

definition comps :: "bytes \<Rightarrow> bytes list" where
  "comps path = filter (\<lambda>p. p \<noteq> []) (split_path path)"

lemma split_path_ne: "split_path p \<noteq> []"
  by (cases p) (auto split: list.split)

lemma split_path_slash: "split_path (a @ 47 # b) = split_path a @ split_path b"
proof (induction a)
  case (Cons c a)
  then show ?case using split_path_ne [of a] by (auto split: list.split)
qed simp

lemma comps_simps:
  "comps (a @ 47 # b) = comps a @ comps b" "comps [] = []" "comps (replicate k 47) = []"
proof -
  show s: "comps (a @ 47 # b) = comps a @ comps b" for a b by (simp add: comps_def split_path_slash)
  show n: "comps [] = []" by (simp add: comps_def)
  show "comps (replicate k 47) = []"
    by (induction k) (use s [of "[]"] n in auto)
qed

lemma comps_name: "name \<noteq> [] \<Longrightarrow> 47 \<notin> set name \<Longrightarrow> comps name = [name]"
proof -
  have "47 \<notin> set name \<Longrightarrow> split_path name = [name]" by (induction name) auto
  then show "name \<noteq> [] \<Longrightarrow> 47 \<notin> set name \<Longrightarrow> comps name = [name]" by (simp add: comps_def)
qed

lemma walk_comps: "walk_components resolve cs st = walk_components resolve (filter (\<lambda>p. p \<noteq> []) cs) st"
proof (induction cs arbitrary: st)
  case (Cons c cs)
  then show ?case by (cases st) (auto simp: fun_eq_iff andThen_def wrapErr_def split: prod.split res.split)
qed simp

lemma walk_components_append:
  "walk_components resolve (a @ b) st = andThen (walk_components resolve a st) (walk_components resolve b)"
proof (induction a arbitrary: st)
  case Nil
  show ?case by (cases st) (simp add: fun_eq_iff andThen_def)
next
  case (Cons c a)
  then show ?case by (cases st) (auto simp: fun_eq_iff andThen_def wrapErr_def split: prod.split res.split)
qed

lemma WalkInode_comps:
  "WalkInode path = andThen (wrapErr ''walk: failed to read root inode'' (ReadInode RootInodeNum)) (\<lambda>root.
     walk_components (walk_left maxSymlinks) (comps path) (RootInodeNum, root))"
  by (simp add: WalkInode_def walk_def comps_def walk_comps [symmetric])

lemma trim_slashes_eq: "\<exists>k. path = trim_slashes path @ replicate k 47"
proof -
  have "rev path = takeWhile (\<lambda>c. c = 47) (rev path) @ dropWhile (\<lambda>c. c = 47) (rev path)" by simp
  then have "path = trim_slashes path @ rev (takeWhile (\<lambda>c. c = 47) (rev path))"
    unfolding trim_slashes_def by (metis rev_append rev_rev_ident)
  moreover have "rev (takeWhile (\<lambda>c. c = 47) (rev path)) = replicate (length (takeWhile (\<lambda>c. c = 47) (rev path))) 47"
    by (metis (mono_tags) replicate_eqI rev_replicate set_takeWhileD)
  ultimately show ?thesis by metis
qed

lemma last_slash_cases:
  obtains "47 \<notin> set t" and "last_slash t = - 1"
  | par nm where "t = par @ 47 # nm" and "47 \<notin> set nm" and "last_slash t = int (length par)"
proof (cases "47 \<in> set t")
  case True
  then obtain par nm where t: "t = par @ 47 # nm" "47 \<notin> set nm" using split_list_last by metis
  moreover have "last_slash t = int (length par)"
    using takeWhile_rev_name [OF t(2), of "rev par"] by (simp add: last_slash_def t(1))
  ultimately show thesis by (rule that(2))
next
  case False
  then have tw: "takeWhile (\<lambda>c. c \<noteq> 47) (rev t) = rev t" by (intro takeWhile_eq_all_conv [THEN iffD2]) auto
  from False show thesis by (intro that(1)) (simp_all add: last_slash_def tw)
qed

lemma splitPath_comps:
  assumes "splitPath path = Ok (parent, name)"
  shows "name \<noteq> [] \<and> 47 \<notin> set name \<and> comps path = comps parent @ [name]"
proof -
  define t where "t = trim_slashes path"
  obtain k where k: "path = t @ replicate k 47" using trim_slashes_eq t_def by auto
  have c: "comps path = comps t"
    using comps_simps(1) [of t "replicate (k - 1) 47"] comps_simps(3) by (cases k) (simp_all add: k)
  note sp = assms [unfolded splitPath_def Let_def, folded t_def]
  have root: "comps [47] = []" using comps_simps(3) [of 1] by simp
  show ?thesis
  proof (cases rule: last_slash_cases [of t])
    case 1
    then have "t = name" "parent = [47]" "name \<noteq> []" using sp by (auto split: if_splits)
    with 1 c comps_name root show ?thesis by simp
  next
    case (2 par nm)
    have n: "nat (int (length par) + 1) = Suc (length par)" by simp
    then have "name = nm" "name \<noteq> []" "parent = (if par = [] then [47] else par)"
      using sp 2 by (auto split: if_splits)
    with 2 c comps_name [of nm] comps_simps(1) [of par nm] comps_simps(2) root show ?thesis by simp
  qed
qed

text \<open>C19: \<open>splitPath\<close> agrees with the walk: when it splits a path, the name is a single
  component, and walking the path is walking the parent and then one step from the directory
  found there to the name, whatever slashes the path is written with.\<close>

theorem splitPath_walk:
  assumes "splitPath path = Ok (parent, name)"
  shows "name \<noteq> [] \<and> 47 \<notin> set name \<and>
    WalkInode path = andThen (WalkInode parent) (walk_components (walk_left maxSymlinks) [name])"
  using splitPath_comps [OF assms] by (simp add: WalkInode_comps walk_components_append andThen_assoc)

text \<open>\<open>splitPath\<close> takes apart what is put together: a parent and a name joined by a
  slash, with any number of slashes behind.\<close>

theorem splitPath_roundtrip:
  assumes "name \<noteq> []" and "47 \<notin> set name"
  shows "splitPath (parent @ [47] @ name @ replicate k 47) = Ok (if parent = [] then [47] else parent, name)"
  using assms by (rule splitPath_join)

section \<open>The cache of listings\<close>

text \<open>\<open>Create\<close>, \<open>Symlink\<close> and \<open>Link\<close> leave a cached listing in place, so a directory that has been listed
  once is listed the same afterwards: the new entry is missing.\<close>

theorem Create_listing_stale:
  assumes "e_dirs e dir = Some entries"
    and "ext4_Create ev path mode e = (r, e') \<or> ext4_Symlink ev target path e = (r, e') \<or> ext4_Link ev oldpath path e = (r, e')"
  shows "ext4_Readdir dir e' = (Ok entries, e')"
proof -
  define P :: "ext4 \<Rightarrow> bool" where "P = (\<lambda>e. e_dirs e dir = Some entries)"
  have inner: "keeps P (onInner m)" for m :: "'a fsop"
    by (auto simp: keeps_def P_def onInner_def split: prod.split)
  have tx: "keeps P (with_tx ev body)" if "keeps P body" for body :: "'a eop"
  proof (rule keepsI)
    fix e assume "P e"
    obtain r0 e1 where b: "body (begin_tx e) = (r0, e1)" by (metis prod.exhaust)
    have "P e1" by (rule keepsD [OF that _ b]) (use \<open>P e\<close> in \<open>simp add: P_def begin_tx_def\<close>)
    moreover have "keeps P (commit ev)" unfolding commit_def by (rule inner)
    ultimately have "P (snd (commit ev e1))" "P (rollback e1)" by (simp_all add: keeps_def P_def rollback_def)
    then show "P (snd (with_tx ev body e))"
      using b by (cases "commit ev e1"; cases "fst (commit ev e1)"; cases r0) (auto simp: with_tx_def)
  qed
  have "keeps P (ext4_Create ev path mode)" "keeps P (ext4_Symlink ev target path)" "keeps P (ext4_Link ev oldpath path)"
    unfolding ext4_Create_def ext4_Symlink_def ext4_Link_def set_file_def
    by (intro tx keeps inner keeps_modS; simp add: P_def)+
  then have "P e'" using assms keepsD [of P] unfolding P_def by metis
  then show ?thesis by (simp add: ext4_Readdir_def P_def)
qed

section \<open>One transaction for all\<close>

text \<open>C23: transactions do not nest and are not per caller. When a second operation begins while one is
  open, both write into the same transaction; if the first then rolls back, the writes of the
  second are dropped, and its own commit finds no transaction and reports success.\<close>

theorem shared_transaction_lost:
  assumes "\<not> is_tx (device e)" and "dev_ok (device e)"
    and "onInner (WriteInode n i) (begin_tx (begin_tx e)) = (Ok (), e1)"
  shows "device (rollback e1) = device e \<and> commit ev (rollback e1) = (Ok (), rollback e1)"
proof -
  define bs where "bs = fs_BlockSize (e_inner e)"
  have b: "begin_tx (begin_tx e) = begin_tx e"
    using begin_idle [OF assms(1)] by (simp add: begin_tx_def BeginTransaction_def)
  have "over (device e) bs (device e1)"
    using keepsD [OF keeps_onInner [OF over.frame.keeps_WriteInode [of "device e" bs n i]], of "begin_tx e" "Ok ()" e1] assms b
      begin_idle [OF assms(1)]
    by (simp add: on_ext4_def on_fs_def over_def bs_def)
  then obtain dirty where "device e1 = TxDev (device e) bs dirty" by (auto simp: over_def)
  then have d: "device (rollback e1) = device e" by (rule rollback_tx)
  then have "CommitTransaction o1 o2 now (e_inner (rollback e1)) = (Ok (), e_inner (rollback e1))" for o1 o2 now
    using assms(1) by (cases "device e") (simp_all add: CommitTransaction_def is_tx_def)
  with d show ?thesis by (simp add: commit_def onInner_def)
qed

section \<open>Examples\<close>

text \<open>The example image, mounted.\<close>

definition example_ext4 :: ext4 where
  "example_ext4 = \<lparr>e_inner = example_fs 256, e_files = Map.empty, e_dirs = Map.empty\<rparr>"

definition example_env :: env where
  "example_env = \<lparr>ev_now = 7, ev_ord1 = id, ev_ord2 = id\<rparr>"

definition example_codes :: fuse_codes where
  "example_codes = \<lparr>ENOENT = 2, EIO = 5, ENOATTR = 61, EEXIST = 17, ENOSPC = 28, EBADF = 9, ENOSYS = 40\<rparr>"

lemma example_mounted: "ext4_ReadSuperBlock (example_dev 64) = (Ok (), example_ext4)"
  using mount_law [OF example_holds_fs [of 64]] example_image_layout(3) [of 64]
  by (simp add: ext4_ReadSuperBlock_def onInner_def example_ext4_def example_fs_def example_sb_geometry desc_pos_def
      example_dev_def gd.dec_enc)

lemma example_ext4_device:
  "device example_ext4 = example_dev 64" "\<not> is_tx (device example_ext4)" "dev_ok (device example_ext4)"
  using example_fs_dev(1) [of 256] by (simp_all add: example_ext4_def example_fs_def example_dev_def is_tx_def)

theorem no_open_transaction_witness:
  "\<exists>r e. ext4_Create example_env [47, 97] 0x1A4 example_ext4 = (r, e) \<and> shape_of (device e) = FileS"
proof -
  obtain r e where run: "ext4_Create example_env [47, 97] 0x1A4 example_ext4 = (r, e)" by (metis prod.exhaust)
  have "reachable example_codes (example_dev 64) e"
    using reachable.mounted [OF example_mounted] ext4_step.intros(10) [OF run] by (rule reachable.call)
  then have "shape_of (device e) = shape_of (example_dev 64)"
    using no_open_transaction [of example_codes "example_dev 64" e] example_ext4_device by simp
  with run show ?thesis by (simp add: example_dev_def)
qed


lemma example_idle: "file_system_idle example_ext4"
  using example_fs_ok [of 256] example_fs_dev(2) [of 256] example_ext4_device(2)
  by (simp add: file_system_idle_def example_ext4_def inode_tables_disjoint_def example_sb_def superblock_decode_def)

lemma example_root_valid: "inode_valid (example_fs 256) 2"
proof -
  have ipg: "S_inodes_per_group (example_sb 64) = 16" by (simp add: example_sb_def)
  have g: "inode_group (example_fs 256) 2 = 0" "inode_index (example_fs 256) 2 = 1"
    by (simp_all add: inode_group_def inode_index_def example_fs_def ipg unat_div unat_mod)
  moreover have "unat (inode_table (example_fs 256) 0) = 5"
    by (simp add: inode_table_def gd_addr_def example_fs_def example_gd_def gd_decode_def)
  ultimately have "inode_pos (example_fs 256) 2 = 5376" by (simp add: inode_pos_def)
  then show ?thesis using g ipg example_fs_dev(2) [of 256] by (simp add: inode_valid_def example_gd_def)
qed

lemma example_tx_view: "same_view (example_fs 256) (BeginTransaction (example_fs 256))"
proof -
  define t where "t = BeginTransaction (example_fs 256)"
  have tt: "t = tx_of (example_fs 256) []"
    by (simp add: t_def BeginTransaction_def example_fs_def example_dev_def tx_of_def)
  have "in_tx t (fs_dev (example_fs 256)) []"
    unfolding tt using example_fs_ok [of 256] example_fs_dev(2) [of 256] by (intro in_tx_of) auto
  then show ?thesis
    using example_fs_dev(1) [of 256] by (simp add: same_view_def tt [unfolded t_def] tt tx_of_def in_tx_def fs_ok_def)
qed

lemma example_walk:
  "\<exists>s1. WalkInode [47] (BeginTransaction (e_inner example_ext4)) = (Ok (2, inode_at (example_fs 256) 2), s1)"
  "inode_wf (inode_at (example_fs 256) 2)"
proof -
  define t where "t = BeginTransaction (example_fs 256)"
  note v = example_tx_view [folded t_def]
  have "ReadInode 2 t = (Ok (inode_at (example_fs 256) 2), t)"
    using same_view_read [OF v example_root_valid] ReadInode_valid [OF example_fs_dev(1) example_root_valid] by simp
  then show "\<exists>s1. WalkInode [47] (BeginTransaction (e_inner example_ext4)) = (Ok (2, inode_at (example_fs 256) 2), s1)"
    by (simp add: WalkInode_comps comps_def RootInodeNum_def example_ext4_def flip: t_def)
  show "inode_wf (inode_at (example_fs 256) 2)"
    unfolding inode_at_def using example_root_valid by (intro inode.dec_wf) (simp add: inode_valid_def, linarith)
qed


theorem Chown_sets_owner_witness:
  "\<exists>e' i'. ext4_Chown example_env [47] 0x12345 0x10001 example_ext4 = (Ok (), e') \<and>
    ReadInode 2 (e_inner e') = (Ok i', e_inner e') \<and> n_Uid (toNodeInfo i') = 0x12345 \<and> n_Gid (toNodeInfo i') = 0x10001"
proof -
  obtain s1 where w: "WalkInode [47] (BeginTransaction (e_inner example_ext4)) = (Ok (2, inode_at (example_fs 256) 2), s1)"
    using example_walk(1) by blast
  have "\<And>m. mset (ev_ord2 example_env m) = mset m" by (simp add: example_env_def)
  from Chown_sets_owner [OF example_idle this w _ example_walk(2), of "0x12345" "0x10001"] example_root_valid show ?thesis
    unfolding example_ext4_def by fastforce
qed

theorem splitPath_walk_witness:
  "WalkInode [47, 97, 47, 47, 98, 47] = andThen (WalkInode [47, 97, 47]) (walk_components (walk_left maxSymlinks) [[98]])"
  using splitPath_walk [of "[47, 97, 47, 47, 98, 47]" "[47, 97, 47]" "[98]"]
  by (simp add: splitPath_def trim_slashes_def last_slash_def)

theorem splitPath_roundtrip_witness: "splitPath [47, 97, 47, 98, 47, 47] = Ok ([47, 97], [98])"
proof -
  have "replicate 2 (47 :: u8) = [47, 47]" by (simp add: numeral_2_eq_2)
  then show ?thesis using splitPath_roundtrip [of "[98]" "[47, 97]" 2] by simp
qed

theorem Create_listing_stale_witness:
  "\<exists>r e'. ext4_Create example_env [47, 97] 0x1A4 (example_ext4\<lparr>e_dirs := [[47] \<mapsto> []]\<rparr>) = (r, e') \<and>
    ext4_Readdir [47] e' = (Ok [], e')"
proof -
  obtain r e' where run: "ext4_Create example_env [47, 97] 0x1A4 (example_ext4\<lparr>e_dirs := [[47] \<mapsto> []]\<rparr>) = (r, e')"
    by (metis prod.exhaust)
  have "e_dirs (example_ext4\<lparr>e_dirs := [[47] \<mapsto> []]\<rparr>) [47] = Some []" by simp
  from Create_listing_stale [OF this disjI1 [OF run]] run show ?thesis by blast
qed

theorem shared_transaction_lost_witness:
  "\<exists>e1. onInner (WriteInode 12 example_inode) (begin_tx (begin_tx example_ext4)) = (Ok (), e1) \<and>
    device (rollback e1) = example_dev 64 \<and> commit example_env (rollback e1) = (Ok (), rollback e1)"
proof -
  define t where "t = BeginTransaction (example_fs 256)"
  note v = example_tx_view [folded t_def]
  have "inode_valid t 12" using same_view_inode(2) [OF v] example_inode_valid [of 256] by simp
  moreover have "dev_ok (fs_dev t)" "160 \<le> unat (fs_InodeSize t)" using v by (simp_all add: same_view_def)
  ultimately obtain s1 where "WriteInode 12 example_inode t = (Ok (), s1)"
    using WriteInode_valid [OF _ _ _ example_inode_wf] by blast
  moreover have "BeginTransaction t = t"
    by (simp add: t_def BeginTransaction_def example_fs_def example_dev_def)
  ultimately have w: "onInner (WriteInode 12 example_inode) (begin_tx (begin_tx example_ext4)) =
      (Ok (), example_ext4\<lparr>e_inner := s1\<rparr>)"
    by (simp add: onInner_def begin_tx_def example_ext4_def flip: t_def)
  from shared_transaction_lost [OF example_ext4_device(2,3) w] w example_ext4_device(1) show ?thesis by auto
qed

end
