(* ===== verification/Geometry_Props.thy ===== *)
theory Geometry_Props
  imports Ext4_Props
begin

text \<open>
  What no call to the ext4 driver changes in memory: the geometry, which is the superblock and the descriptors but for their
  counters of free blocks and inodes, and the sizes taken from them. A mounted file system is well formed in
  the sense of \<open>fs_typed\<close>, and stays so through every history of calls.
\<close>

section \<open>Geometry\<close>

definition geometry_of where
  "geometry_of s = (map_option sb_core (fs_sb s), map bgd_core (fs_Bgds s), fs_BlockSize s, fs_InodeSize s, fs_GroupCount s,
     fs_DescSize s)"

definition fs_typed :: "FileSystem \<Rightarrow> bool" where
  "fs_typed s \<longleftrightarrow> (\<exists>sb. fs_sb s = Some sb \<and> superblock_wf sb \<and> S_magic sb = MAGIC_NUMBER \<and> fs_BlockSize s = sb_BlockSize sb \<and>
     fs_InodeSize s = sb_InodeSize sb \<and> BlockGroupCount sb = Ok (fs_GroupCount s) \<and> fs_DescSize s = GroupDescriptorSize sb \<and>
     length (fs_Bgds s) = unat (fs_GroupCount s))"

abbreviation same_geometry :: "FileSystem \<Rightarrow> FileSystem \<Rightarrow> bool" where
  "same_geometry s0 s \<equiv> geometry_of s = geometry_of s0"

lemma geometry_dev [simp]: "geometry_of (s\<lparr>fs_dev := d\<rparr>) = geometry_of s"
  by (simp add: geometry_of_def)

interpretation geometry: fs_frame "same_geometry s0" for s0
proof
  show "same_geometry s0 (snd (fs_read n off s))" if "same_geometry s0 s" for s n off
    using that by (simp add: fs_read_def split: prod.split)
  show "same_geometry s0 (snd (fs_write p off s))" if "same_geometry s0 s" for s p off
    using that by (simp add: fs_write_def split: prod.split)
  show "same_geometry s0 (s\<lparr>fs_dirCache := c\<rparr>)" if "same_geometry s0 s" for s c
    using that by (simp add: geometry_of_def)
  show "same_geometry s0 (s\<lparr>fs_sb := Some sb'\<rparr>)"
    if "same_geometry s0 s" "same_geometry s0 s1" "fs_sb s1 = Some sb" "sb_core sb' = sb_core sb" for s s1 sb sb'
    using that by (simp add: geometry_of_def)
  show "same_geometry s0 (upd_bgd g (\<lambda>_. b) s)"
    if "same_geometry s0 s" "same_geometry s0 s1" "unat g < length (fs_Bgds s1)" "bgd_core b = bgd_core (fs_Bgds s1 ! unat g)"
    for s s1 g b
  proof -
    have "map bgd_core (fs_Bgds s) = map bgd_core (fs_Bgds s1)" using that(1,2) by (simp add: geometry_of_def)
    then have "bgd_core b = map bgd_core (fs_Bgds s) ! unat g" using that(3,4) by simp
    then have "map bgd_core ((fs_Bgds s)[unat g := b]) = map bgd_core (fs_Bgds s)" by (simp add: map_update)
    with that(1) show ?thesis by (simp add: geometry_of_def upd_bgd_def)
  qed
qed

lemma geometry_typed:
  assumes "same_geometry s0 s" and "fs_typed s0"
  shows "fs_typed s"
proof -
  obtain sb0 where sb0: "fs_sb s0 = Some sb0" "superblock_wf sb0" "S_magic sb0 = MAGIC_NUMBER" "fs_BlockSize s0 = sb_BlockSize sb0"
      "fs_InodeSize s0 = sb_InodeSize sb0" "BlockGroupCount sb0 = Ok (fs_GroupCount s0)" "fs_DescSize s0 = GroupDescriptorSize sb0"
      "length (fs_Bgds s0) = unat (fs_GroupCount s0)"
    using assms(2) by (auto simp: fs_typed_def)
  obtain sb where sb: "fs_sb s = Some sb" "sb_core sb = sb_core sb0"
    using assms(1) sb0(1) by (auto simp: geometry_of_def)
  have core: "superblock_wf (sb_core x) = superblock_wf x" "S_magic (sb_core x) = S_magic x" "sb_BlockSize (sb_core x) = sb_BlockSize x"
    "sb_InodeSize (sb_core x) = sb_InodeSize x" "BlockGroupCount (sb_core x) = BlockGroupCount x"
    "GroupDescriptorSize (sb_core x) = GroupDescriptorSize x" for x
    by (simp_all add: sb_core_def sb_BlockSize_def sb_InodeSize_def BlockGroupCount_def GroupDescriptorSize_def)
  have "superblock_wf sb" "S_magic sb = MAGIC_NUMBER" "sb_BlockSize sb = sb_BlockSize sb0" "sb_InodeSize sb = sb_InodeSize sb0"
    "BlockGroupCount sb = BlockGroupCount sb0" "GroupDescriptorSize sb = GroupDescriptorSize sb0"
    using core [of sb] core [of sb0] sb(2) sb0(2,3) by simp_all
  moreover have "length (fs_Bgds s) = length (fs_Bgds s0)"
    using assms(1) map_eq_imp_length_eq by (auto simp: geometry_of_def)
  ultimately show ?thesis
    using assms(1) sb(1) sb0 by (auto simp: fs_typed_def geometry_of_def)
qed

section \<open>Mounting\<close>

lemma decodeSuperBlock_typed: "decodeSuperBlock buf = Ok sb \<Longrightarrow> superblock_wf sb \<and> S_magic sb = MAGIC_NUMBER"
  using superblock_dec_wf [of buf]
  by (auto simp: decodeSuperBlock_def binary_Read_def not_less split: res.splits if_splits)

definition moved :: "FileSystem \<Rightarrow> FileSystem \<Rightarrow> bool" where
  "moved s s' \<longleftrightarrow> (\<exists>d. s' = s\<lparr>fs_dev := d\<rparr>)"

lemma keeps_moved: "keeps (moved s) (fs_read n off)" "keeps (moved s) (ReadGroupDescriptor g)"
proof -
  show rd: "keeps (moved s) (fs_read n off)" for n off
    by (auto simp: keeps_def moved_def fs_read_def split: prod.split)
  show "keeps (moved s) (ReadGroupDescriptor g)"
  proof (rule keepsI)
    fix t assume m: "moved s t"
    show "moved s (snd (ReadGroupDescriptor g t))"
    proof (cases "fs_sb t")
      case (Some sb)
      show ?thesis unfolding ReadGroupDescriptor_def Some option.case
        by (rule keeps_at [where P = "moved s" and s = t], intro keeps rd, rule m)
    qed (use m in \<open>simp add: ReadGroupDescriptor_def\<close>)
  qed
qed

definition rest_of where
  "rest_of s = (fs_sb s, fs_BlockSize s, fs_InodeSize s, fs_GroupCount s, fs_DescSize s)"

lemma moved_rest: "moved s s' \<Longrightarrow> rest_of s' = rest_of s \<and> fs_Bgds s' = fs_Bgds s"
  by (auto simp: moved_def rest_of_def)

lemma moved_read: "m s = (r, s') \<Longrightarrow> keeps (moved s) m \<Longrightarrow> rest_of s' = rest_of s \<and> fs_Bgds s' = fs_Bgds s"
proof -
  assume m: "m s = (r, s')" and k: "keeps (moved s) m"
  have "moved s s" by (auto simp: moved_def intro: exI [of _ "fs_dev s"])
  from moved_rest [OF keepsD [OF k this m]] show ?thesis .
qed

lemma ReadSuperBlock_typed:
  assumes "ReadSuperBlock s = (Ok sb, s')"
  shows "fs_sb s' = Some sb \<and> superblock_wf sb \<and> S_magic sb = MAGIC_NUMBER \<and> fs_BlockSize s' = sb_BlockSize sb \<and>
    fs_InodeSize s' = sb_InodeSize sb \<and> BlockGroupCount sb = Ok (fs_GroupCount s') \<and> fs_DescSize s' = GroupDescriptorSize sb \<and>
    fs_Bgds s' = fs_Bgds s"
proof -
  obtain buf s1 where rd: "fs_read 1024 (int SUPERBLOCK_OFFSET) s = (Ok buf, s1)" and sb: "decodeSuperBlock buf = Ok sb"
      and s': "\<exists>gc. BlockGroupCount sb = Ok gc \<and> s' = s1\<lparr>fs_BlockSize := sb_BlockSize sb, fs_InodeSize := sb_InodeSize sb,
        fs_GroupCount := gc, fs_DescSize := GroupDescriptorSize sb, fs_sb := Some sb\<rparr>"
    using assms unfolding ReadSuperBlock_def by (auto elim!: andThen_OkE dest!: wrapErr_OkD)
  have "fs_Bgds s1 = fs_Bgds s" using moved_read [OF rd keeps_moved(1)] by simp
  with s' decodeSuperBlock_typed [OF sb] show ?thesis by auto
qed

lemma read_descriptors_length:
  "read_descriptors gs s = (Ok (), s') \<Longrightarrow>
   rest_of s' = rest_of s \<and> length (fs_Bgds s') = length (fs_Bgds s) + length gs"
proof (induction gs arbitrary: s)
  case (Cons g gs)
  obtain gd s1 where g: "ReadGroupDescriptor g s = (Ok gd, s1)"
      and rest: "read_descriptors gs (s1\<lparr>fs_Bgds := fs_Bgds s1 @ [gd]\<rparr>) = (Ok (), s')"
    using Cons.prems by (auto elim!: andThen_OkE)
  from Cons.IH [OF rest] moved_read [OF g keeps_moved(2)] show ?case by (simp add: rest_of_def)
qed simp

lemma mount_typed:
  assumes "ext4_ReadSuperBlock d = (Ok (), e)"
  shows "fs_typed (e_inner e)"
proof -
  obtain sb s1 where sb: "ReadSuperBlock (NewFileSystem d) = (Ok sb, s1)" and bg: "ReadGroupDescriptors s1 = (Ok (), e_inner e)"
    using assms by (auto simp: ext4_ReadSuperBlock_def onInner_def split: prod.splits elim!: andThen_OkE)
  note t = ReadSuperBlock_typed [OF sb]
  then have "read_descriptors (map word_of_nat [0..<unat (fs_GroupCount s1)]) s1 = (Ok (), e_inner e)"
    using bg by (simp add: ReadGroupDescriptors_def)
  from read_descriptors_length [OF this] t show ?thesis
    by (auto simp: fs_typed_def rest_of_def NewFileSystem_def)
qed

section \<open>Every call\<close>

lemma tx_geometry [simp]:
  "geometry_of (e_inner (begin_tx e)) = geometry_of (e_inner e)" "geometry_of (e_inner (rollback e)) = geometry_of (e_inner e)"
  by (simp_all add: begin_tx_def BeginTransaction_def rollback_def RollbackTransaction_def split: dev.split)

lemma keeps_commit: "keeps (on_ext4 (same_geometry s0)) (commit ev)"
proof -
  have "keeps (same_geometry s0) (CommitTransaction ord1 ord2 now)" for ord1 ord2 now
  proof (rule keepsI)
    fix s assume "same_geometry s0 s"
    moreover have "same_geometry s0 (snd (commit_dirty ord1 ord2 now dirty (s\<lparr>fs_dev := d\<rparr>)))" if "same_geometry s0 s" for d dirty
      by (rule keeps_at [OF geometry.keeps_commit_dirty]) (use that in simp)
    ultimately show "same_geometry s0 (snd (CommitTransaction ord1 ord2 now s))"
      by (simp add: CommitTransaction_def split: dev.split)
  qed
  then show ?thesis unfolding commit_def by (intro keeps)
qed

lemma keeps_geometry_tx [keeps]:
  assumes "keeps (on_ext4 (same_geometry s0)) body"
  shows "keeps (on_ext4 (same_geometry s0)) (with_tx ev body)"
proof (rule keepsI)
  fix e assume "on_ext4 (same_geometry s0) e"
  then have b: "on_ext4 (same_geometry s0) (begin_tx e)" by (simp add: on_ext4_def)
  obtain r e1 where run: "body (begin_tx e) = (r, e1)" by (metis prod.exhaust)
  have e1: "on_ext4 (same_geometry s0) e1" by (rule keepsD [OF assms b run])
  obtain q e2 where c: "commit ev e1 = (q, e2)" by (metis prod.exhaust)
  have "on_ext4 (same_geometry s0) e2" by (rule keepsD [OF keeps_commit e1 c])
  with e1 show "on_ext4 (same_geometry s0) (snd (with_tx ev body e))"
    by (cases r; cases q) (simp_all add: with_tx_def run c on_ext4_def)
qed

lemma keeps_geometry_code [keeps]:
  assumes "keeps (on_ext4 (same_geometry s0)) body"
  shows "keeps (on_ext4 (same_geometry s0)) (with_tx_code ev c body)"
proof (rule keepsI)
  fix e assume "on_ext4 (same_geometry s0) e"
  then have b: "on_ext4 (same_geometry s0) (begin_tx e)" by (simp add: on_ext4_def)
  obtain r e1 where run: "body (begin_tx e) = (r, e1)" by (metis prod.exhaust)
  have e1: "on_ext4 (same_geometry s0) e1" by (rule keepsD [OF assms b run])
  obtain q e2 where c: "commit ev e1 = (q, e2)" by (metis prod.exhaust)
  have "on_ext4 (same_geometry s0) e2" by (rule keepsD [OF keeps_commit e1 c])
  with e1 show "on_ext4 (same_geometry s0) (snd (with_tx_code ev c body e))"
    by (cases r; cases q) (simp_all add: with_tx_code_def run c on_ext4_def catch_def)
qed

lemma keeps_geometry_reads [keeps]:
  "keeps (on_ext4 (same_geometry s0)) (ext4_Getattr path)" "keeps (on_ext4 (same_geometry s0)) (ext4_Readdir path)"
  "keeps (on_ext4 (same_geometry s0)) (ext4_Readlink path)" "keeps (on_ext4 (same_geometry s0)) (ext4_Open path)"
  "keeps (on_ext4 (same_geometry s0)) (ext4_Read path buf ofst)" "keeps (on_ext4 (same_geometry s0)) (ext4_Release path)"
  "keeps (on_ext4 (same_geometry s0)) ext4_Statfs" "keeps (on_ext4 (same_geometry s0)) (ext4_Getxattr c path name)"
  "keeps (on_ext4 (same_geometry s0)) (ext4_Listxattr c ord path fill)"
  unfolding ext4_Getattr_def ext4_Readdir_def ext4_Readlink_def ext4_Open_def ext4_Read_def ext4_Release_def
    ext4_Statfs_def ext4_Getxattr_def ext4_Listxattr_def
  by (intro keeps; simp)+

lemma keeps_geometry_writes [keeps]:
  "keeps (on_ext4 (same_geometry s0)) (ext4_Create ev path mode)" "keeps (on_ext4 (same_geometry s0)) (ext4_Mkdir ev path mode)"
  "keeps (on_ext4 (same_geometry s0)) (ext4_Symlink ev target path)" "keeps (on_ext4 (same_geometry s0)) (ext4_Link ev oldpath path)"
  "keeps (on_ext4 (same_geometry s0)) (removeEntry ev path d)" "keeps (on_ext4 (same_geometry s0)) (ext4_Rename ev oldpath path)"
  "keeps (on_ext4 (same_geometry s0)) (ext4_Write ev path buf ofst)" "keeps (on_ext4 (same_geometry s0)) (ext4_Chmod ev path mode)"
  "keeps (on_ext4 (same_geometry s0)) (ext4_Chown ev path uid gid)" "keeps (on_ext4 (same_geometry s0)) (ext4_Truncate ev path sz)"
  "keeps (on_ext4 (same_geometry s0)) (ext4_Setxattr ev c path name val flags)"
  "keeps (on_ext4 (same_geometry s0)) (ext4_Removexattr ev c path name)"
  unfolding ext4_Create_def ext4_Mkdir_def ext4_Symlink_def ext4_Link_def removeEntry_def ext4_Rename_def
    ext4_Write_def ext4_Chmod_def ext4_Chown_def ext4_Truncate_def ext4_Setxattr_def ext4_Removexattr_def Let_def
  by (intro keeps; simp)+

lemma keeps_geometryD:
  "keeps (on_ext4 (same_geometry (e_inner e))) m \<Longrightarrow> m e = (x, e') \<Longrightarrow> geometry_of (e_inner e') = geometry_of (e_inner e)"
  using keepsD [of "on_ext4 (same_geometry (e_inner e))" m e x e'] by (simp add: on_ext4_def)

lemmas geometry_laws = keeps_geometry_reads [THEN keeps_geometryD] keeps_geometry_writes [THEN keeps_geometryD]

lemma step_geometry: "ext4_step c e r e' \<Longrightarrow> geometry_of (e_inner e') = geometry_of (e_inner e)"
  by (erule ext4_step.cases) (simp only:, erule geometry_laws | simp only: ext4_Unlink_def ext4_Rmdir_def, erule geometry_laws)+

text \<open>C3: A mounted file system is well formed in memory: the superblock is one that the encoder writes back in full and has the magic
  number, the block, inode, descriptor and group sizes are those of the superblock, and there is a descriptor for every
  group. It stays so through every sequence of calls, whatever they answer, and the superblock and the descriptors stay those that were mounted,
  but for their counters of free blocks and inodes.\<close>

theorem reachable_typed:
  assumes "reachable c d e"
  shows "fs_typed (e_inner e) \<and> (\<exists>e0. ext4_ReadSuperBlock d = (Ok (), e0) \<and> geometry_of (e_inner e) = geometry_of (e_inner e0))"
proof -
  have "\<exists>e0. ext4_ReadSuperBlock d = (Ok (), e0) \<and> geometry_of (e_inner e) = geometry_of (e_inner e0)"
    using assms
  proof induction
    case (call e r e')
    then show ?case using step_geometry by fastforce
  qed blast
  then show ?thesis using geometry_typed mount_typed by blast
qed

theorem reachable_typed_witness:
  "\<exists>r e. ext4_Create example_env [47, 97] 0x1A4 example_ext4 = (r, e) \<and> fs_typed (e_inner e) \<and>
    geometry_of (e_inner e) = geometry_of (example_fs 256)"
proof -
  obtain r e where run: "ext4_Create example_env [47, 97] 0x1A4 example_ext4 = (r, e)" by (metis prod.exhaust)
  have "reachable example_codes (example_dev 64) e"
    using reachable.mounted [OF example_mounted] ext4_step.intros(10) [OF run] by (rule reachable.call)
  from reachable_typed [OF this] run example_mounted show ?thesis by (auto simp: example_ext4_def)
qed

end
