(* ===== verification/Health.thy ===== *)
theory Health
  imports Directory Allocation
begin

text \<open>
  \<open>vfs/health.go\<close>: \<open>Fsck\<close> and its five passes over block bitmaps, inode bitmaps, inodes, superblock counters and
  directories, with the repairs of \<open>fix\<close>. The state is the file system and the report. A message is its
  format string; the dash in front of \<open>FIXED\<close> is written in ASCII. The text form of a
  report is left out.
\<close>

record FsckProblem =
  P_Severity :: string
  P_Message :: string
  P_Fixed :: bool

record FsckResult =
  R_InodesChecked :: u32
  R_DirectoriesChecked :: u32
  R_ExtentsChecked :: u32
  R_BlocksReferenced :: u64
  R_Problems :: "FsckProblem list"
  R_Healthy :: bool

type_synonym 'a check = "(FileSystem \<times> FsckResult, 'a) op"

definition modRep :: "(FsckResult \<Rightarrow> FsckResult) \<Rightarrow> unit check" where
  "modRep g s = (case s of (f, r) \<Rightarrow> (Ok (), (f, g r)))"

lemma modRep_eq [simp]: "modRep g (f, r) = (Ok (), (f, g r))"
  by (simp add: modRep_def)

text \<open>The three ways in which a problem enters the report.\<close>

definition add_problem :: "FsckProblem \<Rightarrow> FsckResult \<Rightarrow> FsckResult" where
  "add_problem p res = res\<lparr>R_Problems := R_Problems res @ [p]\<rparr>"

definition problem_error :: "string \<Rightarrow> FsckResult \<Rightarrow> FsckResult" where
  "problem_error msg res =
     (add_problem \<lparr>P_Severity = ''error'', P_Message = msg, P_Fixed = False\<rparr> res)\<lparr>R_Healthy := False\<rparr>"

definition problem_warning :: "string \<Rightarrow> FsckResult \<Rightarrow> FsckResult" where
  "problem_warning msg = add_problem \<lparr>P_Severity = ''warning'', P_Message = msg, P_Fixed = False\<rparr>"

definition problem_fixed :: "string \<Rightarrow> FsckResult \<Rightarrow> FsckResult" where
  "problem_fixed msg = add_problem \<lparr>P_Severity = ''warning'', P_Message = msg @ '' - FIXED'', P_Fixed = True\<rparr>"

section \<open>Error messages\<close>

text \<open>\<open>strings.Contains(err.Error(), sub)\<close> on the format strings.\<close>

primrec error_text :: "goerr \<Rightarrow> string" where
  "error_text EOF = ''EOF''"
| "error_text ErrNotExist = ''no such file or directory''"
| "error_text ErrAttrNotExist = ''attribute does not exist''"
| "error_text ErrNoSpace = ''no space available''"
| "error_text Fs_ErrNotExist = ''no such file or directory''"
| "error_text (Errorf m) = m"
| "error_text (Wrapf m e) = m @ '': '' @ error_text e"

fun contains :: "string \<Rightarrow> string \<Rightarrow> bool" where
  "contains sub [] \<longleftrightarrow> sub = []"
| "contains sub (c # cs) \<longleftrightarrow> take (length sub) (c # cs) = sub \<or> contains sub cs"

text \<open>A call whose error is looked at.\<close>

definition outcome_of :: "'a fsop \<Rightarrow> (goerr + 'a) check" where
  "outcome_of m s =
     (case onFs m s of (r, s') \<Rightarrow>
        (case r of Ok x \<Rightarrow> (Ok (Inr x), s') | Err e \<Rightarrow> (Ok (Inl e), s') | Panic \<Rightarrow> (Panic, s')))"

section \<open>Bitmaps\<close>

definition test_bit :: "bytes \<Rightarrow> nat \<Rightarrow> bool" where
  "test_bit bitmap i \<longleftrightarrow> bitmap ! (i div 8) AND push_bit (i mod 8) 1 \<noteq> 0"

definition count_set :: "bytes \<Rightarrow> nat \<Rightarrow> u16" where
  "count_set bitmap bitsToCheck = fold (\<lambda>i set. if test_bit bitmap i then set + 1 else set) [0..<bitsToCheck] 0"

definition bits_to_check :: "u32 \<Rightarrow> bytes \<Rightarrow> nat" where
  "bits_to_check perGroup bitmap =
     (if unat perGroup > length bitmap * 8 then length bitmap * 8 else unat perGroup)"

text \<open>The repair of one descriptor: its new value stays in memory even when it cannot be written.\<close>

definition settle :: "bool \<Rightarrow> u32 \<Rightarrow> string \<Rightarrow> (GroupDescriptor \<Rightarrow> GroupDescriptor) \<Rightarrow> unit check" where
  "settle fix g msg upd =
     (if fix then
        andThen (onFs (modS (upd_bgd g upd))) (\<lambda>_.
        andThen (onFs (bgd_at g)) (\<lambda>bgd.
        andThen (outcome_of (WriteGroupDescriptor g bgd)) (\<lambda>r.
          case r of Inr _ \<Rightarrow> modRep (problem_fixed msg)
          | Inl _ \<Rightarrow> modRep (problem_error msg))))
      else modRep (problem_error msg))"

definition check_block_group :: "bool \<Rightarrow> u32 \<Rightarrow> unit check" where
  "check_block_group fix g =
     andThen (onFs (bgd_at g)) (\<lambda>bgd.
     andThen (onFs (getS (\<lambda>s. gd_addr s (BG_block_bitmap_lo bgd) (BG_block_bitmap_hi bgd)))) (\<lambda>bitmapBlock.
     andThen (outcome_of (read_block bitmapBlock)) (\<lambda>r.
       case r of
         Inl _ \<Rightarrow> modRep (problem_error ''group %d: cannot read block bitmap at block %d: %v'')
       | Inr bitmap \<Rightarrow>
           andThen (onFs deref_sb) (\<lambda>sb.
             let set = count_set bitmap (bits_to_check (S_blocks_per_group sb) bitmap);
                 total = S_blocks_per_group sb;
                 used = total - ucast set;
                 expectedFree = total - used
             in if ucast (BG_free_blocks_count_lo bgd) \<noteq> expectedFree \<and> expectedFree \<le> total
                then settle fix g ''group %d: block bitmap shows %d used blocks but descriptor claims %d free (expected %d)''
                       (\<lambda>b. b\<lparr>BG_free_blocks_count_lo := ucast expectedFree\<rparr>)
                else ret ()))))"

definition check_inode_group :: "bool \<Rightarrow> u32 \<Rightarrow> unit check" where
  "check_inode_group fix g =
     andThen (onFs (bgd_at g)) (\<lambda>bgd.
     andThen (onFs (getS (\<lambda>s. gd_addr s (BG_inode_bitmap_lo bgd) (BG_inode_bitmap_hi bgd)))) (\<lambda>bitmapBlock.
     andThen (outcome_of (read_block bitmapBlock)) (\<lambda>r.
       case r of
         Inl _ \<Rightarrow> modRep (problem_error ''group %d: cannot read inode bitmap at block %d: %v'')
       | Inr bitmap \<Rightarrow>
           andThen (onFs deref_sb) (\<lambda>sb.
             let bitsToCheck = bits_to_check (S_inodes_per_group sb) bitmap;
                 set = count_set bitmap bitsToCheck;
                 used = word_of_nat bitsToCheck - ucast set :: u32;
                 expectedFree = word_of_nat bitsToCheck - used
             in if ucast (BG_free_inodes_count_lo bgd) \<noteq> expectedFree \<and> expectedFree \<le> S_inodes_per_group sb
                then settle fix g ''group %d: inode bitmap shows %d used inodes but descriptor claims %d free (expected %d)''
                       (\<lambda>b. b\<lparr>BG_free_inodes_count_lo := ucast expectedFree\<rparr>)
                else ret ()))))"

fun for_groups :: "(u32 \<Rightarrow> unit check) \<Rightarrow> u32 list \<Rightarrow> unit check" where
  "for_groups body [] = ret ()"
| "for_groups body (g # gs) = andThen (body g) (\<lambda>_. for_groups body gs)"

definition all_groups :: "FileSystem \<Rightarrow> u32 list" where
  "all_groups s = map word_of_nat [0..<unat (fs_GroupCount s)]"

definition fsckBlockBitmaps :: "bool \<Rightarrow> unit check" where
  "fsckBlockBitmaps fix = andThen (onFs (getS all_groups)) (for_groups (check_block_group fix))"

definition fsckInodeBitmaps :: "bool \<Rightarrow> unit check" where
  "fsckInodeBitmaps fix = andThen (onFs (getS all_groups)) (for_groups (check_inode_group fix))"

section \<open>Inodes\<close>

definition S_IFIFO :: u16 where "S_IFIFO = 0x1000"
definition S_IFCHR :: u16 where "S_IFCHR = 0x2000"
definition S_IFBLK :: u16 where "S_IFBLK = 0x6000"
definition S_IFSOCK :: u16 where "S_IFSOCK = 0xC000"

definition extent_blocks :: "Extent \<Rightarrow> u64" where
  "extent_blocks ext = ucast (EE_len ext AND 0x7FFF)"

text \<open>One round of the loop over the extents, and what the loop adds up.\<close>

definition check_extent :: "u32 \<Rightarrow> Extent \<Rightarrow> FsckResult \<Rightarrow> FsckResult" where
  "check_extent blocksCount ext res =
     (let blockCount = extent_blocks ext;
          res' = res\<lparr>R_BlocksReferenced := R_BlocksReferenced res + blockCount\<rparr>
      in if ext_start ext + blockCount > ucast blocksCount
         then problem_error ''inode %d: extent [%d..%d) exceeds filesystem block count %d'' res'
         else res')"

definition total_blocks :: "Extent list \<Rightarrow> u64" where
  "total_blocks extents = fold (\<lambda>ext n. n + extent_blocks ext) extents 0"

definition check_size :: "Inode \<Rightarrow> u64 \<Rightarrow> unit check" where
  "check_size inode totalBlocks =
     andThen (onFs (getS fs_BlockSize)) (\<lambda>bs.
       if bs = 0 then panic
       else if totalBlocks < (inode_Size inode + bs - 1) div bs
       then modRep (problem_warning ''inode %d: file size %d but only %d blocks allocated (need %d)'')
       else ret ())"

definition check_extents :: "Inode \<Rightarrow> Extent list \<Rightarrow> unit check" where
  "check_extents inode extents =
     andThen (modRep (\<lambda>res. res\<lparr>R_ExtentsChecked := R_ExtentsChecked res + word_of_nat (length extents)\<rparr>)) (\<lambda>_.
     andThen (onFs deref_sb) (\<lambda>sb.
     andThen (modRep (fold (check_extent (S_blocks_count_lo sb)) extents)) (\<lambda>_.
       let fileType = I_mode inode AND ifmt
       in if fileType = S_IFREG \<or> fileType = S_IFDIR then check_size inode (total_blocks extents) else ret ())))"

definition check_inode :: "Inode \<Rightarrow> unit check" where
  "check_inode inode =
     andThen (modRep (\<lambda>res. res\<lparr>R_InodesChecked := R_InodesChecked res + 1\<rparr>)) (\<lambda>_.
       let fileType = I_mode inode AND ifmt
       in if fileType \<notin> {S_IFREG, S_IFDIR, S_IFLNK, S_IFCHR, S_IFBLK, S_IFIFO, S_IFSOCK}
          then (if I_mode inode \<noteq> 0 then modRep (problem_warning ''inode %d: unknown file type 0x%04X'') else ret ())
          else if fileType \<noteq> S_IFREG \<and> fileType \<noteq> S_IFDIR \<and> fileType \<noteq> S_IFLNK then ret ()
          else if \<not> UsesExtents inode then ret ()
          else
            andThen (outcome_of (ReadExtents inode)) (\<lambda>r.
              case r of
                Inl _ \<Rightarrow> if I_mode inode \<noteq> 0 then modRep (problem_error ''inode %d: bad extent tree: %v'') else ret ()
              | Inr extents \<Rightarrow> check_extents inode extents))"

fun inode_loop :: "(goerr \<Rightarrow> bool) \<Rightarrow> (Inode \<Rightarrow> unit check) \<Rightarrow> u32 list \<Rightarrow> unit check" where
  "inode_loop stop body [] = ret ()"
| "inode_loop stop body (inum # inums) =
     andThen (outcome_of (ReadInode inum)) (\<lambda>r.
       case r of
         Inl err \<Rightarrow> if stop err then ret () else inode_loop stop body inums
       | Inr inode \<Rightarrow> andThen (body inode) (\<lambda>_. inode_loop stop body inums))"

definition checked_inodes :: "SuperBlock \<Rightarrow> u32 list" where
  "checked_inodes sb =
     (let totalInodes = S_inodes_count sb; maxCheck = (if totalInodes < 1000 then totalInodes else 1000)
      in map word_of_nat [1..<Suc (unat maxCheck)])"

definition fsckInodes :: "unit check" where
  "fsckInodes =
     andThen (onFs deref_sb) (\<lambda>sb.
       inode_loop (\<lambda>err. contains ''group'' (error_text err) \<and> contains ''out of range'' (error_text err))
         check_inode (checked_inodes sb))"

section \<open>Superblock counters\<close>

definition fix_count :: "bool \<Rightarrow> bool \<Rightarrow> string \<Rightarrow> (SuperBlock \<Rightarrow> SuperBlock) \<Rightarrow> unit check" where
  "fix_count differs fix msg upd =
     (if \<not> differs then ret ()
      else if fix then
        andThen (onFs (modS (\<lambda>s. s\<lparr>fs_sb := map_option upd (fs_sb s)\<rparr>))) (\<lambda>_.
        andThen (onFs writeSuperBlock) (\<lambda>_. modRep (problem_fixed msg)))
      else modRep (problem_error msg))"

definition fsckSuperblockCounts :: "bool \<Rightarrow> unit check" where
  "fsckSuperblockCounts fix =
     andThen (onFs (getS fs_Bgds)) (\<lambda>bgds.
     andThen (onFs deref_sb) (\<lambda>sb.
       let totalFreeBlocks = fold (\<lambda>bgd n. n + ucast (BG_free_blocks_count_lo bgd)) bgds 0 :: u64;
           totalFreeInodes = fold (\<lambda>bgd n. n + ucast (BG_free_inodes_count_lo bgd)) bgds 0 :: u64
       in andThen (fix_count (totalFreeBlocks \<noteq> ucast (S_free_blocks_count_lo sb)) fix
                    ''superblock: free blocks = %d but group sum = %d''
                    (\<lambda>sb. sb\<lparr>S_free_blocks_count_lo := ucast totalFreeBlocks\<rparr>)) (\<lambda>_.
          fix_count (totalFreeInodes \<noteq> ucast (S_free_inodes_count sb)) fix
            ''superblock: free inodes = %d but group sum = %d''
            (\<lambda>sb. sb\<lparr>S_free_inodes_count := ucast totalFreeInodes\<rparr>))))"

section \<open>Directories\<close>

fun entry_loop :: "u32 \<Rightarrow> DirEntry2 list \<Rightarrow> bytes list \<Rightarrow> FsckResult \<Rightarrow> bytes list \<times> FsckResult" where
  "entry_loop totalInodes [] seen res = (seen, res)"
| "entry_loop totalInodes (e # es) seen res =
     (if de_Inode e = 0 then entry_loop totalInodes es seen res
      else
        let res1 = (if de_Inode e > totalInodes
                    then problem_error ''dir %d: entry %q points to inode %d which exceeds total inodes %d'' res
                    else res);
            res2 = (if de_Name e \<in> set seen then problem_error ''dir %d: duplicate entry %q'' res1 else res1)
        in entry_loop totalInodes es (de_Name e # seen) res2)"

definition check_entries :: "u32 \<Rightarrow> DirEntry2 list \<Rightarrow> FsckResult \<Rightarrow> FsckResult" where
  "check_entries totalInodes entries res =
     (case entry_loop totalInodes entries [] res of (seen, res') \<Rightarrow>
        if [46] \<notin> set seen \<or> [46, 46] \<notin> set seen
        then problem_error ''directory inode %d: missing . or .. entry'' res' else res')"

definition check_directory :: "u32 \<Rightarrow> Inode \<Rightarrow> unit check" where
  "check_directory totalInodes inode =
     (if \<not> IsDir inode then ret ()
      else
        andThen (modRep (\<lambda>res. res\<lparr>R_DirectoriesChecked := R_DirectoriesChecked res + 1\<rparr>)) (\<lambda>_.
        andThen (outcome_of (ReadDir inode)) (\<lambda>r.
          case r of
            Inl _ \<Rightarrow> modRep (problem_error ''directory inode %d: cannot read: %v'')
          | Inr entries \<Rightarrow> modRep (check_entries totalInodes entries))))"

definition fsckDirectories :: "unit check" where
  "fsckDirectories =
     andThen (onFs deref_sb) (\<lambda>sb.
       inode_loop (\<lambda>err. contains ''group'' (error_text err)) (check_directory (S_inodes_count sb)) (checked_inodes sb))"

section \<open>The check\<close>

definition fsck_start :: FsckResult where
  "fsck_start = \<lparr>R_InodesChecked = 0, R_DirectoriesChecked = 0, R_ExtentsChecked = 0, R_BlocksReferenced = 0,
     R_Problems = [], R_Healthy = True\<rparr>"

definition fsck_passes :: "bool \<Rightarrow> unit check" where
  "fsck_passes fix =
     andThen (onFs (getS id)) (\<lambda>s.
       case fs_sb s of
         None \<Rightarrow> modRep (problem_error ''superblock not loaded - run ReadSuperBlock first'')
       | Some sb \<Rightarrow>
           if S_magic sb \<noteq> MAGIC_NUMBER then modRep (problem_error ''bad magic 0x%04X (expected 0x%04X)'')
           else if fs_Bgds s = []
           then modRep (problem_error ''block group descriptors not loaded - run ReadGroupDescriptors first'')
           else
             andThen (fsckBlockBitmaps fix) (\<lambda>_.
             andThen (fsckInodeBitmaps fix) (\<lambda>_.
             andThen fsckInodes (\<lambda>_.
             andThen (fsckSuperblockCounts fix) (\<lambda>_.
               fsckDirectories)))))"

definition Fsck :: "bool \<Rightarrow> FsckResult fsop" where
  "Fsck fix s = (case fsck_passes fix (s, fsck_start) of (r, (s', res)) \<Rightarrow> (mapR (\<lambda>_. res) r, s'))"

end
