(* ===== verification/Health_Props.thy ===== *)
theory Health_Props
  imports Health Frame Alloc_Props Dir_Map
begin

text \<open>
  What the check of \<open>vfs/health.go\<close> finds and changes: without \<open>fix\<close> it changes nothing; a report is
  healthy when it holds no error; what a healthy report says of the directories; and what it takes for the number
  of free blocks.
\<close>

section \<open>Invariant triples for the check\<close>

definition at_fs :: "(FileSystem \<Rightarrow> bool) \<Rightarrow> FileSystem \<times> FsckResult \<Rightarrow> bool" where
  "at_fs P x = P (fst x)"

definition at_rep :: "(FsckResult \<Rightarrow> bool) \<Rightarrow> FileSystem \<times> FsckResult \<Rightarrow> bool" where
  "at_rep Q x = Q (snd x)"

lemma keeps_outcome_of: "keeps I (onFs m) \<Longrightarrow> keeps I (outcome_of m)"
  unfolding keeps_def outcome_of_def by (auto split: prod.splits res.splits) (metis snd_conv)+

lemma keeps_at_fs [keeps]:
  "keeps P m \<Longrightarrow> keeps (at_fs P) (onFs m)" "keeps P m \<Longrightarrow> keeps (at_fs P) (outcome_of m)" "keeps (at_fs P) (modRep g)"
proof -
  show "keeps (at_fs P) (onFs m)" if "keeps P m" for m :: "'a fsop"
    using that by (auto simp: keeps_def at_fs_def onFs_def split: prod.splits)
  then show "keeps (at_fs P) (outcome_of m)" if "keeps P m" for m :: "'b fsop"
    by (intro keeps_outcome_of) (use that in \<open>auto simp: keeps_def at_fs_def onFs_def split: prod.splits\<close>)
  show "keeps (at_fs P) (modRep g)" by (simp add: keeps_def at_fs_def modRep_def split: prod.split)
qed

lemma keeps_at_rep_fs [keeps]: "keeps (at_rep Q) (onFs m)" "keeps (at_rep Q) (outcome_of n)"
proof -
  show o: "keeps (at_rep Q) (onFs m)" for m :: "'c fsop"
    by (auto simp: keeps_def at_rep_def onFs_def split: prod.splits)
  then show "keeps (at_rep Q) (outcome_of n)" by (intro keeps_outcome_of)
qed

lemma keeps_at_rep_mod: "(\<And>r. Q r \<Longrightarrow> Q (g r)) \<Longrightarrow> keeps (at_rep Q) (modRep g)"
  by (auto simp: keeps_def at_rep_def)

lemma keeps_sum [keeps]:
  "(\<And>x. keeps I (f x)) \<Longrightarrow> (\<And>y. keeps I (g y)) \<Longrightarrow> keeps I (case z of Inl x \<Rightarrow> f x | Inr y \<Rightarrow> g y)"
  by (simp split: sum.split)

lemma keeps_loops:
  "(\<And>g. keeps I (body g)) \<Longrightarrow> keeps I (for_groups body gs)"
  "(\<And>n. keeps I (onFs (ReadInode n))) \<Longrightarrow> (\<And>i. keeps I (visit i)) \<Longrightarrow> keeps I (inode_loop stop visit ns)"
proof -
  show "keeps I (for_groups body gs)" if "\<And>g. keeps I (body g)"
  proof (induction gs)
    case Nil
    show ?case unfolding for_groups.simps by (intro keeps)
  next
    case (Cons g gs)
    show ?case unfolding for_groups.simps by (intro keeps Cons that)
  qed
  show "keeps I (inode_loop stop visit ns)" if "\<And>n. keeps I (onFs (ReadInode n))" "\<And>i. keeps I (visit i)"
  proof (induction ns)
    case Nil
    show ?case unfolding inode_loop.simps by (intro keeps)
  next
    case (Cons n ns)
    show ?case unfolding inode_loop.simps by (intro keeps keeps_outcome_of Cons that)
  qed
qed

section \<open>What the report says\<close>

text \<open>A report and the repairs it lists: an error makes it unhealthy, and only a check with \<open>fix\<close> repairs.\<close>

definition report_ok :: "bool \<Rightarrow> FsckResult \<Rightarrow> bool" where
  "report_ok fix res \<longleftrightarrow> (R_Healthy res \<longleftrightarrow> (\<forall>p \<in> set (R_Problems res). P_Severity p \<noteq> ''error'')) \<and>
     (\<forall>p \<in> set (R_Problems res). P_Fixed p \<longrightarrow> fix \<and> P_Severity p = ''warning'')"

definition unhealthy :: "FsckResult \<Rightarrow> bool" where
  "unhealthy res \<longleftrightarrow> \<not> R_Healthy res"

text \<open>The properties of a report that every pass keeps: those that the three kinds of problems and the
  counters keep.\<close>

locale report_inv =
  fixes Q :: "FsckResult \<Rightarrow> bool" and fx :: bool
  assumes err: "Q res \<Longrightarrow> Q (problem_error msg res)"
    and warn: "Q res \<Longrightarrow> Q (problem_warning msg res)"
    and fixed: "fx \<Longrightarrow> Q res \<Longrightarrow> Q (problem_fixed msg res)"
    and counters: "Q res \<Longrightarrow> Q (res\<lparr>R_InodesChecked := a\<rparr>)" "Q res \<Longrightarrow> Q (res\<lparr>R_DirectoriesChecked := a\<rparr>)"
      "Q res \<Longrightarrow> Q (res\<lparr>R_ExtentsChecked := a\<rparr>)" "Q res \<Longrightarrow> Q (res\<lparr>R_BlocksReferenced := b\<rparr>)"
begin

lemma keeps_report [keeps]:
  "keeps (at_rep Q) (modRep (problem_error m))" "keeps (at_rep Q) (modRep (problem_warning m))"
  "fx \<Longrightarrow> keeps (at_rep Q) (modRep (problem_fixed m))"
  by (rule keeps_at_rep_mod, erule err) (rule keeps_at_rep_mod, erule warn, rule keeps_at_rep_mod, erule (1) fixed)

lemma keeps_counts [keeps]:
  "keeps (at_rep Q) (modRep (\<lambda>res. res\<lparr>R_InodesChecked := f res\<rparr>))"
  "keeps (at_rep Q) (modRep (\<lambda>res. res\<lparr>R_DirectoriesChecked := f res\<rparr>))"
  "keeps (at_rep Q) (modRep (\<lambda>res. res\<lparr>R_ExtentsChecked := f res\<rparr>))"
  by (rule keeps_at_rep_mod, erule counters)+

lemma Q_extents: "Q res \<Longrightarrow> Q (fold (check_extent n) exts res)"
proof (induction exts arbitrary: res)
  case (Cons ext exts)
  have "Q (check_extent n ext res)"
    using Cons.prems by (auto simp: check_extent_def Let_def intro!: err counters)
  then show ?case by (simp add: Cons.IH)
qed simp

lemma Q_entries: "Q res \<Longrightarrow> Q (check_entries n es res)"
proof -
  have "Q res \<Longrightarrow> Q (snd (entry_loop n es seen res))" for seen
  proof (induction es arbitrary: seen res)
    case (Cons e es)
    have "Q (if de_Inode e > n then problem_error m res else res)" for m
      using Cons.prems by (simp add: err)
    with Cons show ?case by (simp add: Let_def err)
  qed simp
  then show "Q res \<Longrightarrow> Q (check_entries n es res)"
    by (auto simp: check_entries_def intro: err split: prod.split) (metis err snd_conv)+
qed

lemma keeps_settle [keeps]: "keeps (at_rep Q) (settle fx g m u)"
  unfolding settle_def by (cases fx) (simp_all, intro keeps, simp_all, intro keeps)

lemma keeps_bitmaps [keeps]:
  "keeps (at_rep Q) (fsckBlockBitmaps fx)" "keeps (at_rep Q) (fsckInodeBitmaps fx)"
  unfolding fsckBlockBitmaps_def fsckInodeBitmaps_def check_block_group_def check_inode_group_def
  by (intro keeps keeps_loops)+

lemma keeps_check_inode [keeps]: "keeps (at_rep Q) (check_inode inode)"
  unfolding check_inode_def check_extents_def check_size_def
  by (intro keeps keeps_at_rep_mod Q_extents; assumption)

lemma keeps_check_directory [keeps]: "keeps (at_rep Q) (check_directory n inode)"
  unfolding check_directory_def by (intro keeps keeps_at_rep_mod Q_entries; assumption)

lemma keeps_inode_passes [keeps]: "keeps (at_rep Q) fsckInodes" "keeps (at_rep Q) fsckDirectories"
  unfolding fsckInodes_def fsckDirectories_def by (intro keeps keeps_loops)+

lemma keeps_fix_count [keeps]: "keeps (at_rep Q) (fix_count dif fx m u)"
  unfolding fix_count_def by (cases dif; cases fx) (simp_all; intro keeps; simp)+

lemma keeps_counters [keeps]: "keeps (at_rep Q) (fsckSuperblockCounts fx)"
  unfolding fsckSuperblockCounts_def by (intro keeps)

lemma keeps_passes: "keeps (at_rep Q) (fsck_passes fx)"
  unfolding fsck_passes_def by (intro keeps)

lemma Fsck_report: "Q fsck_start \<Longrightarrow> Fsck fx s = (Ok res, s') \<Longrightarrow> Q res"
  using keeps_at [OF keeps_passes, of "(s, fsck_start)"]
  by (auto simp: Fsck_def at_rep_def split: prod.splits res.splits)

end

interpretation ok: report_inv "report_ok fx" fx for fx
  by unfold_locales
    (auto simp: report_ok_def problem_error_def problem_warning_def problem_fixed_def add_problem_def)

interpretation bad: report_inv unhealthy fx for fx
  by unfold_locales (auto simp: unhealthy_def problem_error_def problem_warning_def problem_fixed_def add_problem_def)

text \<open>C25: A report is healthy exactly when none of its problems is an error, whatever the disk holds; a problem that
  is marked as fixed is a warning, and only a check with \<open>fix\<close> lists one.\<close>

theorem fsck_report_consistent:
  assumes "Fsck fix s = (Ok res, s')"
  shows "(R_Healthy res \<longleftrightarrow> (\<forall>p \<in> set (R_Problems res). P_Severity p \<noteq> ''error'')) \<and>
    (\<forall>p \<in> set (R_Problems res). P_Fixed p \<longrightarrow> fix \<and> P_Severity p = ''warning'')"
  using ok.Fsck_report [OF _ assms] by (simp add: report_ok_def fsck_start_def)

section \<open>A check without repairs\<close>

context plain_readers begin

lemma keeps_settle [keeps]: "keeps (at_fs P) (settle False g m u)"
  unfolding settle_def by simp (intro keeps)

lemma keeps_bitmaps [keeps]:
  "keeps (at_fs P) (fsckBlockBitmaps False)" "keeps (at_fs P) (fsckInodeBitmaps False)"
  unfolding fsckBlockBitmaps_def fsckInodeBitmaps_def check_block_group_def check_inode_group_def
  by (intro keeps keeps_loops)+

lemma keeps_check_inode [keeps]: "keeps (at_fs P) (check_inode inode)"
  unfolding check_inode_def check_extents_def check_size_def by (intro keeps)

lemma keeps_check_directory [keeps]: "keeps (at_fs P) (check_directory n inode)"
  unfolding check_directory_def by (intro keeps)

lemma keeps_inode_passes [keeps]: "keeps (at_fs P) fsckInodes" "keeps (at_fs P) fsckDirectories"
  unfolding fsckInodes_def fsckDirectories_def by (intro keeps keeps_loops)+

lemma keeps_fix_count [keeps]: "keeps (at_fs P) (fix_count dif False m u)"
  by (cases dif; simp only: fix_count_def not_True_eq_False not_False_eq_True if_True if_False) (intro keeps)+

lemma keeps_counters [keeps]: "keeps (at_fs P) (fsckSuperblockCounts False)"
  unfolding fsckSuperblockCounts_def by (intro keeps)

lemma keeps_fsck: "keeps (at_fs P) (fsck_passes False)"
  unfolding fsck_passes_def by (intro keeps)

end

definition only :: "FileSystem \<Rightarrow> FileSystem \<Rightarrow> bool" where
  "only s0 s \<longleftrightarrow> s = s0 \<and> dev_ok (fs_dev s0)"

interpretation same: plain_readers "only s0" for s0
proof
  fix s n off
  assume "only s0 s"
  moreover have "snd (readBuf n off (fs_dev s0)) = fs_dev s0" if "dev_ok (fs_dev s0)"
    using dev_ReadAt_same [OF that, of n off] by (auto simp: readBuf_def split: prod.splits)
  ultimately show "only s0 (snd (fs_read n off s))"
    by (auto simp: only_def fs_read_def split: prod.splits)
qed

text \<open>C26: A check without \<open>fix\<close> changes neither the device nor anything the file system keeps in memory, whatever it finds,
  also when it panics.\<close>

theorem fsck_reads_only:
  assumes "dev_ok (fs_dev s)"
  shows "snd (Fsck False s) = s"
proof -
  have "at_fs (only s) (snd (fsck_passes False (s, fsck_start)))"
    by (rule keeps_at [OF same.keeps_fsck]) (simp add: at_fs_def only_def assms)
  then show ?thesis by (auto simp: Fsck_def at_fs_def only_def split: prod.splits)
qed

section \<open>What a healthy report means\<close>

definition dir_sane :: "u32 \<Rightarrow> DirEntry2 list \<Rightarrow> bool" where
  "dir_sane totalInodes entries \<longleftrightarrow>
     (let used = filter (\<lambda>e. de_Inode e \<noteq> 0) entries
      in (\<forall>e \<in> set used. de_Inode e \<le> totalInodes) \<and> distinct (map de_Name used) \<and>
         [46] \<in> de_Name ` set used \<and> [46, 46] \<in> de_Name ` set used)"

lemma healthy_simps [simp]: "\<not> R_Healthy (problem_error m res)" "R_Healthy (problem_warning m res) = R_Healthy res"
  by (simp_all add: problem_error_def problem_warning_def add_problem_def)

lemma entry_loop_seen:
  "set (fst (entry_loop n es seen res)) = set seen \<union> de_Name ` set (filter (\<lambda>e. de_Inode e \<noteq> 0) es)"
  by (induction n es seen res rule: entry_loop.induct) (simp_all add: Let_def)

lemma entry_loop_healthy:
  "R_Healthy (snd (entry_loop n es seen res)) \<longleftrightarrow> R_Healthy res \<and>
   (let used = filter (\<lambda>e. de_Inode e \<noteq> 0) es
    in (\<forall>e \<in> set used. de_Inode e \<le> n) \<and> distinct (map de_Name used) \<and> set seen \<inter> de_Name ` set used = {})"
proof (induction n es seen res rule: entry_loop.induct)
  case (2 n e es seen res)
  then show ?case
    by (cases "de_Inode e = 0"; cases "de_Name e \<in> set seen"; cases "n < de_Inode e") (auto simp: Let_def not_less)
qed simp

lemma check_entries_healthy: "R_Healthy (check_entries n es res) \<longleftrightarrow> R_Healthy res \<and> dir_sane n es"
proof -
  obtain seen res' where l: "entry_loop n es [] res = (seen, res')" by fastforce
  have "R_Healthy res' \<longleftrightarrow> R_Healthy res \<and>
      (let used = filter (\<lambda>e. de_Inode e \<noteq> 0) es
       in (\<forall>e \<in> set used. de_Inode e \<le> n) \<and> distinct (map de_Name used))"
    using entry_loop_healthy [of n es "[]" res] by (simp add: l Let_def)
  moreover have "set seen = de_Name ` set (filter (\<lambda>e. de_Inode e \<noteq> 0) es)"
    using entry_loop_seen [of n es "[]" res] by (simp add: l)
  ultimately show ?thesis by (auto simp: check_entries_def l dir_sane_def Let_def)
qed

lemma check_extent_healthy:
  "R_Healthy (fold (check_extent n) exts res) \<longleftrightarrow>
   R_Healthy res \<and> (\<forall>e \<in> set exts. ext_start e + extent_blocks e \<le> ucast n)"
proof (induction exts arbitrary: res)
  case (Cons e exts)
  have "R_Healthy (check_extent n e res) \<longleftrightarrow> R_Healthy res \<and> ext_start e + extent_blocks e \<le> ucast n"
    by (auto simp: check_extent_def Let_def not_less)
  then show ?case by (auto simp: Cons.IH)
qed simp

text \<open>The passes one after the other: from a healthy end back to a healthy start.\<close>

lemma healthy_back: "keeps (at_rep unhealthy) m \<Longrightarrow> m (s, res) = (r, (s', res')) \<Longrightarrow> R_Healthy res' \<Longrightarrow> R_Healthy res"
  using keepsD [of "at_rep unhealthy" m "(s, res)"] by (auto simp: at_rep_def unhealthy_def)

lemma stays: "keeps (at_fs (only s)) m \<Longrightarrow> dev_ok (fs_dev s) \<Longrightarrow> m (s, res) = (r, (s', res')) \<Longrightarrow> s' = s"
  using keepsD [of "at_fs (only s)" m "(s, res)"] by (auto simp: at_fs_def only_def)

lemma outcome_of_cases:
  assumes "dev_ok (fs_dev s)" and "keeps (only s) m" and "andThen (outcome_of m) f (s, res) = (Ok y, st)"
  obtains x where "fst (m s) = Ok x" "f (Inr x) (s, res) = (Ok y, st)"
    | e where "fst (m s) = Err e" "f (Inl e) (s, res) = (Ok y, st)"
proof -
  obtain r s' where m: "m s = (r, s')" by fastforce
  with assms have "s' = s" by (auto simp: only_def dest: keepsD)
  with m that assms(3) show thesis
    by (cases r) (auto simp: andThen_def outcome_of_def)
qed

lemma inode_loop_visited:
  assumes "inode_loop stop visit ns (s, res) = (Ok (), (s', res'))" and "R_Healthy res'" and "n \<in> set ns"
    and dev: "dev_ok (fs_dev s)" and all: "\<forall>n \<in> set ns. \<exists>i. fst (ReadInode n s) = Ok i"
    and v: "\<And>i. keeps (at_fs (only s)) (visit i)" "\<And>i. keeps (at_rep unhealthy) (visit i)"
    and n: "fst (ReadInode n s) = Ok i"
  shows "\<exists>res0 res1. visit i (s, res0) = (Ok (), (s, res1)) \<and> R_Healthy res1"
  using assms(1-3) all
proof (induction ns arbitrary: res)
  case (Cons k ns)
  obtain j where j: "fst (ReadInode k s) = Ok j" using Cons.prems(4) by auto
  have "andThen (visit j) (\<lambda>_. inode_loop stop visit ns) (s, res) = (Ok (), (s', res'))"
    by (rule outcome_of_cases [OF dev same.keeps_ReadInode(2) Cons.prems(1) [unfolded inode_loop.simps]])
      (use j in simp_all)
  then obtain s1 res1 where 1: "visit j (s, res) = (Ok (), (s1, res1))" "inode_loop stop visit ns (s1, res1) = (Ok (), (s', res'))"
    by (auto elim!: andThen_OkE)
  have s1: "s1 = s" by (rule stays [OF v(1) dev 1(1)])
  have h: "R_Healthy res1"
    by (rule healthy_back [where m = "inode_loop stop visit ns", OF _ 1(2) Cons.prems(2)])
      (intro keeps keeps_loops v(2))
  show ?case
  proof (cases "n = k")
    case True
    with j n 1(1) s1 h show ?thesis by auto
  next
    case False
    then show ?thesis using Cons.IH [of res1] 1(2) s1 Cons.prems by simp
  qed
qed simp

lemma check_directory_healthy:
  assumes "check_directory n i (s, res) = (Ok (), (s', res'))" and "R_Healthy res'" and "dev_ok (fs_dev s)" and "IsDir i"
  shows "\<exists>es. fst (ReadDir i s) = Ok es \<and> dir_sane n es"
proof -
  have "andThen (outcome_of (ReadDir i)) (\<lambda>r.
      case r of Inl _ \<Rightarrow> modRep (problem_error ''directory inode %d: cannot read: %v'')
      | Inr entries \<Rightarrow> modRep (check_entries n entries))
      (s, res\<lparr>R_DirectoriesChecked := R_DirectoriesChecked res + 1\<rparr>) = (Ok (), (s', res'))"
    using assms(1,4) by (simp add: check_directory_def)
  then show ?thesis
    by (rule outcome_of_cases [OF assms(3) same.keeps_readers(3)])
      (use assms(2) check_entries_healthy in auto)
qed

lemma check_inode_healthy:
  assumes "check_inode i (s, res) = (Ok (), (s', res'))" and "R_Healthy res'" and dev: "dev_ok (fs_dev s)"
    and "I_mode i AND ifmt \<in> {S_IFREG, S_IFDIR, S_IFLNK}" and "UsesExtents i" and "fs_sb s = Some sb"
  shows "\<exists>exts. fst (ReadExtents i s) = Ok exts \<and>
    (\<forall>e \<in> set exts. ext_start e + extent_blocks e \<le> ucast (S_blocks_count_lo sb))"
proof -
  let ?res = "res\<lparr>R_InodesChecked := R_InodesChecked res + 1\<rparr>"
  have m: "I_mode i \<noteq> 0" using assms(4) by (auto simp: S_IFREG_def S_IFDIR_def S_IFLNK_def)
  have "andThen (outcome_of (ReadExtents i)) (\<lambda>r.
      case r of Inl _ \<Rightarrow> modRep (problem_error ''inode %d: bad extent tree: %v'')
      | Inr extents \<Rightarrow> check_extents i extents) (s, ?res) = (Ok (), (s', res'))"
    using assms(1,4,5) m by (auto simp: check_inode_def Let_def)
  then show ?thesis
  proof (rule outcome_of_cases [OF dev same.keeps_ReadExtents], goal_cases)
    case (1 exts)
    define r1 where "r1 = ?res\<lparr>R_ExtentsChecked := R_ExtentsChecked ?res + word_of_nat (length exts)\<rparr>"
    define r2 where "r2 = fold (check_extent (S_blocks_count_lo sb)) exts r1"
    let ?rest = "if I_mode i AND ifmt = S_IFREG \<or> I_mode i AND ifmt = S_IFDIR then check_size i (total_blocks exts) else ret ()"
    have run: "?rest (s, r2) = (Ok (), (s', res'))"
      using 1(2) by (simp add: check_extents_def deref_sb_def assms(6) Let_def r1_def r2_def)
    have "keeps (at_rep unhealthy) ?rest"
      unfolding check_size_def by (intro keeps)
    then have "R_Healthy r2" by (rule healthy_back [where m = ?rest, OF _ run assms(2)])
    with 1(1) show ?case by (auto simp: r2_def check_extent_healthy)
  next
    case (2 e)
    with assms(2) show ?case by auto
  qed
qed

text \<open>A healthy run without repairs, taken apart.\<close>

lemma check_seqE:
  assumes "andThen m (\<lambda>_. f) (s, res) = (Ok y, t)"
  obtains s1 r1 where "(m :: unit check) (s, res) = (Ok (), (s1, r1))" "f (s1, r1) = (Ok y, t)"
  using assms by (auto elim!: andThen_OkE)

lemma healthy_passes:
  assumes "Fsck False s = (Ok res, s')" and "R_Healthy res" and dev: "dev_ok (fs_dev s)"
  obtains sb r1 r2 r3 r4 where "fs_sb s = Some sb" "S_magic sb = MAGIC_NUMBER" "fs_Bgds s \<noteq> []"
    "fsckBlockBitmaps False (s, fsck_start) = (Ok (), (s, r1))" "R_Healthy r1"
    "fsckInodeBitmaps False (s, r1) = (Ok (), (s, r2))" "R_Healthy r2"
    "fsckInodes (s, r2) = (Ok (), (s, r3))" "R_Healthy r3"
    "fsckSuperblockCounts False (s, r3) = (Ok (), (s, r4))" "R_Healthy r4"
    "fsckDirectories (s, r4) = (Ok (), (s, res))"
proof -
  have run: "fsck_passes False (s, fsck_start) = (Ok (), (s', res))"
    using assms(1) by (auto simp: Fsck_def split: prod.splits res.splits)
  obtain sb where sb: "fs_sb s = Some sb"
    using run assms(2) by (cases "fs_sb s") (auto simp: fsck_passes_def)
  have g: "S_magic sb = MAGIC_NUMBER" "fs_Bgds s \<noteq> []"
    using run assms(2) by (auto simp: fsck_passes_def sb split: if_splits)
  have "andThen (fsckBlockBitmaps False) (\<lambda>_. andThen (fsckInodeBitmaps False) (\<lambda>_. andThen fsckInodes (\<lambda>_.
      andThen (fsckSuperblockCounts False) (\<lambda>_. fsckDirectories)))) (s, fsck_start) = (Ok (), (s', res))"
    using run g by (simp add: fsck_passes_def sb)
  then obtain s1 r1 s2 r2 s3 r3 s4 r4 where 1: "fsckBlockBitmaps False (s, fsck_start) = (Ok (), (s1, r1))"
      and 2: "fsckInodeBitmaps False (s1, r1) = (Ok (), (s2, r2))" and 3: "fsckInodes (s2, r2) = (Ok (), (s3, r3))"
      and 4: "fsckSuperblockCounts False (s3, r3) = (Ok (), (s4, r4))" and 5: "fsckDirectories (s4, r4) = (Ok (), (s', res))"
    by (elim check_seqE) (rule that)
  have e: "s1 = s" by (rule stays [OF same.keeps_bitmaps(1) dev 1])
  have e2: "s2 = s" by (rule stays [OF same.keeps_bitmaps(2) dev 2 [unfolded e]])
  have e3: "s3 = s" by (rule stays [OF same.keeps_inode_passes(1) dev 3 [unfolded e2]])
  have e4: "s4 = s" by (rule stays [OF same.keeps_counters dev 4 [unfolded e3]])
  have e5: "s' = s" by (rule stays [OF same.keeps_inode_passes(2) dev 5 [unfolded e4]])
  have h4: "R_Healthy r4" by (rule healthy_back [OF bad.keeps_inode_passes(2) 5 assms(2)])
  have h3: "R_Healthy r3" by (rule healthy_back [OF bad.keeps_counters 4 h4])
  have h2: "R_Healthy r2" by (rule healthy_back [OF bad.keeps_inode_passes(1) 3 h3])
  have h1: "R_Healthy r1" by (rule healthy_back [OF bad.keeps_bitmaps(2) 2 h2])
  show thesis
    by (rule that [OF sb g 1 [unfolded e] h1 2 [unfolded e e2] h2 3 [unfolded e2 e3] h3 4 [unfolded e3 e4] h4 5 [unfolded e4 e5]])
qed


section \<open>The count of free blocks\<close>

text \<open>The bits of the bitmap of a group that are set: its used blocks.\<close>

definition used_blocks :: "FileSystem \<Rightarrow> nat \<Rightarrow> nat" where
  "used_blocks s g =
     card {i. i < unat (S_blocks_per_group (the (fs_sb s))) \<and> test_bit (blk s (gbitmap block_kind s g)) i}"

lemma used_blocks_le: "used_blocks s g \<le> unat (S_blocks_per_group (the (fs_sb s)))"
  unfolding used_blocks_def
  by (rule order_trans [OF card_mono [of "{..<unat (S_blocks_per_group (the (fs_sb s)))}"]]) auto

lemma count_set_card:
  assumes "n < 65536"
  shows "unat (count_set bm n) = card {i. i < n \<and> test_bit bm i}"
  using assms
proof (induction n)
  case (Suc n)
  let ?A = "{i. i < n \<and> test_bit bm i}"
  have "card ?A \<le> n" by (rule order_trans [OF card_mono [of "{..<n}"]]) auto
  moreover have "{i. i < Suc n \<and> test_bit bm i} = (if test_bit bm n then insert n ?A else ?A)"
    by (auto simp: less_Suc_eq)
  moreover have "count_set bm (Suc n) = (if test_bit bm n then count_set bm n + 1 else count_set bm n)"
    by (simp add: count_set_def)
  moreover have "unat (w + 1) = Suc (unat w)" if "unat w \<le> n" for w :: u16
    using that Suc.prems by (simp add: unat_word_ariths)
  ultimately show ?case using Suc by simp
qed (simp add: count_set_def)

text \<open>States that differ in the descriptors' counters only.\<close>

definition recounted :: "FileSystem \<Rightarrow> FileSystem \<Rightarrow> bool" where
  "recounted s0 s \<longleftrightarrow> geom s \<and> same_layout s s0 \<and> fs_sb s = fs_sb s0 \<and>
     (\<forall>c. block_in s0 c \<and> meta_end s0 \<le> unat c * bsz s0 \<longrightarrow> blk s c = blk s0 c)"

lemma recounted_refl: "geom s \<Longrightarrow> recounted s s"
  by (simp add: recounted_def same_layout_refl)

lemma recounted_bitmap:
  assumes "geom s0" and "recounted s0 s" and "g < length (fs_Bgds s0)"
  shows "blk s (gbitmap block_kind s g) = blk s0 (gbitmap block_kind s0 g)" "used_blocks s g = used_blocks s0 g"
proof -
  show b: "blk s (gbitmap block_kind s g) = blk s0 (gbitmap block_kind s0 g)"
    using assms gbitmap_in [OF assms(1) _ assms(3)] gbitmap_layout [of s s0 block_kind g] by (simp add: recounted_def)
  then show "used_blocks s g = used_blocks s0 g"
    using assms(2) by (simp add: used_blocks_def recounted_def)
qed

lemma settle_descriptor:
  assumes "geom s" and g: "unat g < length (fs_Bgds s)" and f: "\<And>b. same_addrs (f b) b"
  shows "\<exists>s'. settle True g msg f (s, res) = (Ok (), (s', problem_fixed msg res)) \<and> recounted s s' \<and>
    fs_Bgds s' = (fs_Bgds s)[unat g := f (fs_Bgds s ! unat g)]"
proof -
  obtain sb where sb: "fs_sb s = Some sb" using geomD(6) [OF assms(1)] by blast
  define b where "b = f (fs_Bgds s ! unat g)"
  define s1 where "s1 = upd_bgd g f s"
  define s2 where "s2 = poke s1 (desc_pos sb (unat g)) (gd_bytes b)"
  have l1: "same_layout s1 s"
    using same_layout_refl [OF assms(1)] f g by (auto simp: same_layout_def s1_def upd_bgd_def nth_list_update)
  then have g1: "geom s1" using geom_layout [OF assms(1)] geomD(1) [OF assms(1)] by (simp add: s1_def upd_bgd_def)
  have sb1: "fs_sb s1 = Some sb" by (simp add: s1_def upd_bgd_def sb)
  have gc: "unat g < unat (fs_GroupCount s1)" using g geomD(5) [OF assms(1)] by (simp add: s1_def upd_bgd_def)
  have pp: "gd_bytes b \<noteq> []" "desc_pos sb (unat g) + length (gd_bytes b) \<le> length (disk s1)"
    using desc_slot_end(1) [OF g1 gc] sb1 geomD(3) [OF g1] by (auto simp flip: length_greater_0_conv)
  note l2 = same_layout_poke [OF g1 pp, folded s2_def]
  have at: "bgd_at g s1 = (Ok b, s1)" using g by (simp add: bgd_at_def s1_def upd_bgd_def b_def)
  have wr: "WriteGroupDescriptor g b s1 = (Ok (), s2)"
    using WriteGroupDescriptor_ok [OF g1 gc] sb1 by (simp add: s2_def)
  have run: "settle True g msg f (s, res) = (Ok (), (s2, problem_fixed msg res))"
    using at wr by (simp add: settle_def outcome_of_def flip: s1_def)
  have "blk s2 c = blk s c" if c: "block_in s c" "meta_end s \<le> unat c * bsz s" for c
  proof -
    have "desc_pos sb (unat g) + length (gd_bytes b) \<le> unat c * bsz s1"
      using desc_slot_end(1) [OF g1 gc] sb1 c(2) meta_end_layout [OF l1] by (simp add: s1_def upd_bgd_def)
    then have "blk s2 c = blk s1 c"
      unfolding s2_def using geomD(1) [OF g1] pp c(1) block_in_layout [OF l1] by (intro blk_poke_meta) simp_all
    then show ?thesis by (simp add: s1_def upd_bgd_def blk_def)
  qed
  then have "recounted s s2"
    using l2 same_layout_trans [OF l2(1) l1] sb sb1 by (simp add: recounted_def) (simp add: s2_def)
  moreover have "fs_Bgds s2 = (fs_Bgds s)[unat g := f (fs_Bgds s ! unat g)]"
    by (simp add: s2_def s1_def upd_bgd_def)
  ultimately show ?thesis using run by blast
qed

definition count_msg :: string where
  "count_msg = ''group %d: block bitmap shows %d used blocks but descriptor claims %d free (expected %d)''"

definition countable :: "FileSystem \<Rightarrow> bool" where
  "countable s \<longleftrightarrow> geom s \<and> unat (S_blocks_per_group (the (fs_sb s))) \<le> 8 * bsz s \<and>
     unat (S_blocks_per_group (the (fs_sb s))) < 65536"

text \<open>The number that the check takes for the free blocks of a group is the number of used ones.\<close>

lemma check_block_group_run:
  assumes "countable s" and g: "unat g < length (fs_Bgds s)"
  shows "check_block_group fx g (s, res) =
    (if unat (BG_free_blocks_count_lo (fs_Bgds s ! unat g)) = used_blocks s (unat g) then (Ok (), (s, res))
     else settle fx g count_msg (\<lambda>b. b\<lparr>BG_free_blocks_count_lo := of_nat (used_blocks s (unat g))\<rparr>) (s, res))"
proof -
  obtain sb where sb: "fs_sb s = Some sb" using assms(1) geomD(6) by (auto simp: countable_def)
  have geo: "geom s" and n: "unat (S_blocks_per_group sb) \<le> 8 * bsz s" "unat (S_blocks_per_group sb) < 65536"
    using assms(1) sb by (auto simp: countable_def)
  define b where "b = fs_Bgds s ! unat g"
  define bm where "bm = blk s (gbitmap block_kind s (unat g))"
  define w where "w = count_set bm (unat (S_blocks_per_group sb))"
  note bi = gbitmap_in [OF geo insertI1 g]
  have bb: "gd_addr s (BG_block_bitmap_lo b) (BG_block_bitmap_hi b) = gbitmap block_kind s (unat g)"
    by (simp add: gbitmap_def block_kind_def b_def)
  have rd: "read_block (gbitmap block_kind s (unat g)) s = (Ok bm, s)"
    using bi geo by (simp add: bm_def)
  have bits: "bits_to_check (S_blocks_per_group sb) bm = unat (S_blocks_per_group sb)"
    using n(1) bi(3) by (simp add: bits_to_check_def bm_def)
  have w: "unat w = used_blocks s (unat g)"
    unfolding w_def using count_set_card [OF n(2)] by (simp add: used_blocks_def sb bm_def)
  have "used_blocks s (unat g) \<le> unat (S_blocks_per_group sb)"
    using used_blocks_le [of s "unat g"] by (simp add: sb)
  then have le: "(ucast w :: u32) \<le> S_blocks_per_group sb"
    using w by (simp add: word_le_nat_alt unat_ucast_up)
  have e: "S_blocks_per_group sb - (S_blocks_per_group sb - ucast w) = ucast w" by simp
  have c: "(ucast (BG_free_blocks_count_lo b) :: u32) \<noteq> ucast w \<longleftrightarrow> unat (BG_free_blocks_count_lo b) \<noteq> used_blocks s (unat g)"
    using w by (simp add: word_unat_eq_iff unat_ucast_up)
  have u: "(ucast (ucast w :: u32) :: u16) = of_nat (used_blocks s (unat g))"
  proof -
    have "unat w < 2 ^ LENGTH(16)" by (rule unsigned_less)
    then have "unat (ucast w :: u32) < 2 ^ LENGTH(16)" by simp
    then have "unat (ucast (ucast w :: u32) :: u16) = unat w" by (subst unat_ucast_down) simp_all
    then show ?thesis unfolding w [symmetric] by (simp add: word_unat_eq_iff)
  qed
  show ?thesis
    using g c le by (simp add: check_block_group_def bgd_at_def outcome_of_def deref_sb_def sb Let_def bb rd bits e u
        count_msg_def flip: b_def w_def)
qed

text \<open>One group with \<open>fix\<close>: afterwards its descriptor holds the number of used blocks.\<close>

lemma check_block_group_fixes:
  assumes "countable s" and g: "unat g < length (fs_Bgds s)"
  shows "\<exists>s' res' b. check_block_group True g (s, res) = (Ok (), (s', res')) \<and> recounted s s' \<and>
    R_Healthy res' = R_Healthy res \<and> fs_Bgds s' = (fs_Bgds s)[unat g := b] \<and>
    unat (BG_free_blocks_count_lo b) = used_blocks s (unat g)"
proof -
  let ?c = "of_nat (used_blocks s (unat g))" and ?b = "fs_Bgds s ! unat g"
  have geo: "geom s" using assms(1) by (simp add: countable_def)
  show ?thesis
  proof (cases "unat (BG_free_blocks_count_lo ?b) = used_blocks s (unat g)")
    case True
    then have "check_block_group True g (s, res) = (Ok (), (s, res))"
      by (subst check_block_group_run [OF assms]) (rule if_P)
    with True recounted_refl [OF geo] list_update_id [of "fs_Bgds s" "unat g", symmetric] show ?thesis
      by blast
  next
    case False
    have "used_blocks s (unat g) < 65536"
      using used_blocks_le assms(1) by (auto simp: countable_def intro: le_less_trans)
    then have c: "unat (?c :: u16) = used_blocks s (unat g)" by (simp add: unat_of_nat)
    obtain s' where "settle True g count_msg (\<lambda>b. b\<lparr>BG_free_blocks_count_lo := ?c\<rparr>) (s, res) =
        (Ok (), (s', problem_fixed count_msg res))" "recounted s s'"
        "fs_Bgds s' = (fs_Bgds s)[unat g := ?b\<lparr>BG_free_blocks_count_lo := ?c\<rparr>]"
      using settle_descriptor [OF geo g, of "\<lambda>b. b\<lparr>BG_free_blocks_count_lo := ?c\<rparr>" count_msg res]
      by (auto simp: same_addrs_def)
    moreover have "check_block_group True g (s, res) = settle True g count_msg (\<lambda>b. b\<lparr>BG_free_blocks_count_lo := ?c\<rparr>) (s, res)"
      by (subst check_block_group_run [OF assms]) (rule if_not_P [OF False])
    moreover have "R_Healthy (problem_fixed count_msg res) = R_Healthy res"
      by (simp add: problem_fixed_def add_problem_def)
    moreover have "unat (BG_free_blocks_count_lo (?b\<lparr>BG_free_blocks_count_lo := ?c\<rparr>)) = used_blocks s (unat g)"
      using c by simp
    ultimately show ?thesis by metis
  qed
qed

lemma recounted_trans:
  assumes "recounted s0 s1" and "recounted s1 s2"
  shows "recounted s0 s2"
proof -
  have l: "same_layout s1 s0" using assms(1) by (simp add: recounted_def)
  then have "block_in s1 c = block_in s0 c" "meta_end s1 = meta_end s0" "bsz s1 = bsz s0" for c
    using block_in_layout meta_end_layout by (auto simp: same_layout_def)
  with assms show ?thesis using same_layout_trans [OF _ l, of s2] by (simp add: recounted_def)
qed

lemma recounted_countable: "countable s0 \<Longrightarrow> recounted s0 s \<Longrightarrow> countable s"
  unfolding countable_def recounted_def same_layout_def by (elim conjE) simp

lemma for_groups_fix:
  assumes "countable s" and "\<forall>g \<in> set gs. unat g < length (fs_Bgds s)"
  shows "\<exists>s' res'. for_groups (check_block_group True) gs (s, res) = (Ok (), (s', res')) \<and> recounted s s' \<and>
    R_Healthy res' = R_Healthy res \<and>
    (\<forall>g < length (fs_Bgds s). if g \<in> unat ` set gs then unat (BG_free_blocks_count_lo (fs_Bgds s' ! g)) = used_blocks s g
       else fs_Bgds s' ! g = fs_Bgds s ! g)"
  using assms
proof (induction gs arbitrary: s res)
  case Nil
  then show ?case by (auto simp: countable_def recounted_refl)
next
  case (Cons g gs)
  have geo: "geom s" using Cons.prems(1) by (simp add: countable_def)
  obtain s1 res1 b where 1: "check_block_group True g (s, res) = (Ok (), (s1, res1))" "recounted s s1"
      "R_Healthy res1 = R_Healthy res" "fs_Bgds s1 = (fs_Bgds s)[unat g := b]"
      "unat (BG_free_blocks_count_lo b) = used_blocks s (unat g)"
    using check_block_group_fixes [OF Cons.prems(1), of g res] Cons.prems(2) by auto
  have l: "length (fs_Bgds s1) = length (fs_Bgds s)" by (simp add: 1(4))
  obtain s2 res2 where 2: "for_groups (check_block_group True) gs (s1, res1) = (Ok (), (s2, res2))" "recounted s1 s2"
      "R_Healthy res2 = R_Healthy res1"
      "\<forall>g < length (fs_Bgds s1). if g \<in> unat ` set gs then unat (BG_free_blocks_count_lo (fs_Bgds s2 ! g)) = used_blocks s1 g
         else fs_Bgds s2 ! g = fs_Bgds s1 ! g"
    using Cons.IH [OF recounted_countable [OF Cons.prems(1) 1(2)], of res1] Cons.prems(2) l by auto
  have "if h \<in> unat ` set (g # gs) then unat (BG_free_blocks_count_lo (fs_Bgds s2 ! h)) = used_blocks s h
      else fs_Bgds s2 ! h = fs_Bgds s ! h" if h: "h < length (fs_Bgds s)" for h
    using 2(4) [rule_format, of h] h l 1(4,5) recounted_bitmap(2) [OF geo 1(2) h]
    by (auto simp: nth_list_update split: if_splits)
  with 1 2 recounted_trans [OF 1(2) 2(2)] show ?case by auto
qed

text \<open>C27: With \<open>fix\<close>, the pass over the block bitmaps sets the count of free blocks in the descriptor of every group to the
  number of blocks that are in use, and reports a healthy result; no bitmap and no block outside the
  descriptor table changes.\<close>

theorem fsck_counts_used_as_free:
  assumes "geom s" and "fs_sb s = Some sb" and "unat (S_blocks_per_group sb) \<le> 8 * bsz s"
    and "unat (S_blocks_per_group sb) < 65536"
  shows "\<exists>s' res'. fsckBlockBitmaps True (s, res) = (Ok (), (s', res')) \<and> R_Healthy res' = R_Healthy res \<and>
    (\<forall>g < length (fs_Bgds s). unat (BG_free_blocks_count_lo (fs_Bgds s' ! g)) = used_blocks s g) \<and>
    (\<forall>c. block_in s c \<and> meta_end s \<le> unat c * bsz s \<longrightarrow> blk s' c = blk s c)"
proof -
  have n: "length (fs_Bgds s) = unat (fs_GroupCount s)" by (rule geomD(5) [OF assms(1)])
  have u: "unat (word_of_nat g :: u32) = g" if "g < unat (fs_GroupCount s)" for g
    using that order.strict_trans [OF that unsigned_less [of "fs_GroupCount s"]] by (simp add: unat_of_nat)
  have "\<forall>g \<in> set (all_groups s). unat g < length (fs_Bgds s)" "unat ` set (all_groups s) = {..<length (fs_Bgds s)}"
    using u n by (force simp: all_groups_def)+
  then show ?thesis
    using for_groups_fix [of s "all_groups s" res] assms
    by (auto simp: countable_def fsckBlockBitmaps_def recounted_def)
qed

text \<open>Without \<open>fix\<close>, a group whose descriptor holds the right number of free blocks is reported as an error, unless
  exactly half of its blocks are in use.\<close>

theorem fsck_blames_right_count:
  assumes "geom s" and "fs_sb s = Some sb" and "unat (S_blocks_per_group sb) \<le> 8 * bsz s"
    and "unat (S_blocks_per_group sb) < 65536" and "unat g < length (fs_Bgds s)"
    and "unat (BG_free_blocks_count_lo (fs_Bgds s ! unat g)) + used_blocks s (unat g) = unat (S_blocks_per_group sb)"
  shows "check_block_group False g (s, res) =
    (Ok (), (s, if 2 * used_blocks s (unat g) = unat (S_blocks_per_group sb) then res
      else problem_error ''group %d: block bitmap shows %d used blocks but descriptor claims %d free (expected %d)'' res))"
  using check_block_group_run [of s g False res] assms by (auto simp: countable_def settle_def count_msg_def)

section \<open>At concrete file systems\<close>

theorem fsck_report_consistent_witness:
  "\<exists>res. Fsck True (NewFileSystem (example_dev 64)) = (Ok res, NewFileSystem (example_dev 64)) \<and>
    (R_Healthy res \<longleftrightarrow> (\<forall>p \<in> set (R_Problems res). P_Severity p \<noteq> ''error''))"
proof -
  let ?res = "problem_error ''superblock not loaded - run ReadSuperBlock first'' fsck_start"
  have "Fsck True (NewFileSystem (example_dev 64)) = (Ok ?res, NewFileSystem (example_dev 64))"
    by (simp add: Fsck_def fsck_passes_def NewFileSystem_def)
  from this fsck_report_consistent [OF this] show ?thesis by blast
qed

theorem fsck_reads_only_witness: "snd (Fsck False (example_fs 256)) = example_fs 256"
  using fsck_reads_only [OF example_fs_dev(1)] .

lemma example_used: "used_blocks (example_fs 256) 0 = 8185"
proof -
  let ?bm = "[0xFF, 0x01] @ ones 1022"
  have bit: "(0xFF :: u8) AND push_bit k 1 \<noteq> 0" if "k < 8" for k
  proof -
    have "bit (push_bit k (1 :: u8)) k" using that by (simp add: bit_exp_iff)
    then have "push_bit k (1 :: u8) \<noteq> 0" by (rule contrapos_pn) (simp only: bit_0_eq bot_apply bot_bool_def not_False_eq_True)
    moreover have "(0xFF :: u8) = - 1" by simp
    ultimately show ?thesis by (simp only: and.left_neutral) simp
  qed
  have one: "(1 :: u8) AND push_bit k 1 \<noteq> 0 \<longleftrightarrow> k = 0" for k
    by (cases k) (simp_all add: one_and_eq mod_2_eq_odd)
  have "test_bit ?bm i \<longleftrightarrow> \<not> (9 \<le> i \<and> i < 16)" if i: "i < 8192" for i
  proof (cases "i < 16")
    case True
    show ?thesis
    proof (cases "i < 8")
      case False
      with True have "i div 8 = 1" "i mod 8 = i - 8" by (simp_all add: le_div_geq le_mod_geq)
      with one [of "i - 8"] True False show ?thesis by (auto simp: test_bit_def)
    qed (use bit in \<open>simp add: test_bit_def\<close>)
  next
    case False
    then have "?bm ! (i div 8) = 0xFF" using i by (auto simp: nth_append ones_def nth_Cons')
    with False bit [of "i mod 8"] show ?thesis by (simp add: test_bit_def)
  qed
  then have "{i. i < 8192 \<and> test_bit ?bm i} = {..<8192} - {9..<16}" by auto
  moreover have "card ({..<8192} - {9..<16::nat}) = 8185" by (subst card_Diff_subset) auto
  ultimately show ?thesis
    using example_blks(1) example_gbitmap(1) by (simp add: used_blocks_def example_sb_def)
qed

lemma example_bpg: "unat (S_blocks_per_group (example_sb 64)) = 8192"
  by (simp add: example_sb_def)

theorem fsck_counts_used_as_free_witness:
  "\<exists>s' res'. fsckBlockBitmaps True (example_fs 256, fsck_start) = (Ok (), (s', res')) \<and> R_Healthy res' \<and>
    unat (BG_free_blocks_count_lo (fs_Bgds s' ! 0)) = 8185"
proof -
  have "R_Healthy fsck_start" by (simp add: fsck_start_def)
  then show ?thesis
    using fsck_counts_used_as_free [OF example_geom, of "example_sb 64" fsck_start] example_used
    by (auto simp: example_bpg)
qed

theorem fsck_blames_right_count_witness:
  "\<exists>res. check_block_group False 0 (example_fs 256, fsck_start) = (Ok (), (example_fs 256, res)) \<and> \<not> R_Healthy res"
  using fsck_blames_right_count [OF example_geom, of "example_sb 64" 0 fsck_start] example_used
  by (simp add: example_bpg) (simp add: example_gd_def)

text \<open>A file system with one inode, a directory with the entries \<open>.\<close> and \<open>..\<close>, on which the check finds nothing: its
  descriptor holds the numbers of used blocks and inodes.\<close>

definition dot_records :: "rawent list" where
  "dot_records = [\<lparr>re_ino = 1, re_nlen = 1, re_type = 2, re_rest = 46 # zeros 3\<rparr>,
     \<lparr>re_ino = 1, re_nlen = 2, re_type = 2, re_rest = 46 # 46 # zeros 1002\<rparr>]"

definition sane_sb :: SuperBlock where
  "sane_sb = (example_sb 64)\<lparr>S_inodes_count := 1, S_blocks_per_group := 16, S_free_blocks_count_lo := 9, S_free_inodes_count := 11\<rparr>"

definition sane_base :: FileSystem where
  "sane_base = (example_fs 256)\<lparr>fs_sb := Some sane_sb,
     fs_Bgds := [example_gd\<lparr>BG_free_blocks_count_lo := 9, BG_free_inodes_count_lo := 11\<rparr>]\<rparr>"

definition sane_fs :: FileSystem where
  "sane_fs = put_block (put_block sane_base 9 (raws dot_records)) 5
    (inode_bytes dir_inode @ zeros 96 @ inode_bytes dir_inode @ zeros 608)"

lemma sane_sb_sel:
  "S_inodes_count sane_sb = 1" "S_blocks_per_group sane_sb = 16" "S_free_blocks_count_lo sane_sb = 9"
  "S_free_inodes_count sane_sb = 11" "S_inodes_per_group sane_sb = 16" "S_magic sane_sb = MAGIC_NUMBER"
  "S_blocks_count_lo sane_sb = 16"
  by (simp_all add: sane_sb_def example_sb_def)

lemma sane_fs_sel:
  "fs_sb sane_fs = Some sane_sb" "fs_BlockSize sane_fs = 1024" "fs_GroupCount sane_fs = 1" "fs_InodeSize sane_fs = 256"
  "fs_Bgds sane_fs = [example_gd\<lparr>BG_free_blocks_count_lo := 9, BG_free_inodes_count_lo := 11\<rparr>]"
  "fs_dirCache sane_fs = (\<lambda>_. None)" "fs_DescSize sane_fs = 64"
  by (simp_all add: sane_fs_def sane_base_def example_fs_def)

lemma dir_inode_wf: "inode_wf dir_inode"
  using example_inode_wf by (simp add: dir_inode_def inode_wf_def)

lemma sane_fs_blocks:
  "fs_ok sane_fs" "length (disk sane_fs) = 16384" "blk sane_fs 3 = [0xFF, 0x01] @ ones 1022"
  "blk sane_fs 4 = [0xFF, 0x07] @ ones 1022" "blk sane_fs 9 = raws dot_records" "inode_at sane_fs 1 = dir_inode"
  "inode_at sane_fs 2 = dir_inode"
proof -
  let ?p = "inode_bytes dir_inode @ zeros 96 @ inode_bytes dir_inode @ zeros 608" and ?s1 = "put_block sane_base 9 (raws dot_records)"
  have base: "fs_ok sane_base" "length (disk sane_base) = 16384" "bsz sane_base = 1024"
    using example_fs_ok [of 256] example_fs_dev(2) [of 256] by (simp_all add: sane_base_def fs_ok_def example_fs_def)
  have blks: "blk sane_base c = blk (example_fs 256) c" for c by (simp add: blk_def sane_base_def example_fs_def)
  have b: "block_in sane_base c" if "unat c < 16" for c using that base by (simp add: block_in_def)
  have l9: "length (raws dot_records) = 1024" by (simp add: dot_records_def raws_def raw_len_def)
  have l5: "length ?p = 1024" using inode.enc_len [OF dir_inode_wf] by simp
  have s1: "fs_ok ?s1" "length (disk ?s1) = 16384" "block_in ?s1 c = block_in sane_base c" for c
    using put_block_ok [OF base(1) b [of 9]] l9 base by (simp_all add: length_copy_at)
  show "fs_ok sane_fs" "length (disk sane_fs) = 16384"
    using put_block_ok [OF s1(1), of 5 ?p] s1 b l5 base by (simp_all add: sane_fs_def length_copy_at)
  have blk: "blk sane_fs c = (if c = 5 then ?p else if c = 9 then raws dot_records else blk (example_fs 256) c)"
    if "unat c < 16" for c
    using blk_put_block [OF s1(1), of 5 ?p c] blk_put_block [OF base(1) b [of 9] _ b [OF that]] s1(3) b [OF that] b [of 5]
      l5 l9 base(3) by (simp add: sane_fs_def blks)
  show "blk sane_fs 3 = [0xFF, 0x01] @ ones 1022" "blk sane_fs 4 = [0xFF, 0x07] @ ones 1022"
    "blk sane_fs 9 = raws dot_records"
    using blk [of 3] blk [of 4] blk [of 9] example_blks by simp_all
  have "disk sane_fs = copy_at 5120 ?p (disk ?s1)"
    using put_block_ok(2) [OF s1(1), of 5 ?p] s1(3) b [of 5] l5 base(3) by (simp add: sane_fs_def)
  then have d: "drop 5120 (disk sane_fs) = inode_bytes dir_inode @ zeros 96 @ inode_bytes dir_inode @ zeros 608 @ drop 6144 (disk ?s1)"
    using s1(2) l5 by (simp add: copy_at_def)
  have pos: "inode_pos sane_fs 1 = 5120" "inode_pos sane_fs 2 = 5376"
    by (simp_all add: inode_pos_def inode_group_def inode_index_def inode_table_def sane_fs_sel sane_sb_sel gd_addr_def
        example_gd_def gd_decode_def)
  show "inode_at sane_fs 1 = dir_inode"
    using d pos inode.dec_enc [OF dir_inode_wf] by (simp add: inode_at_def)
  have "drop 5376 (disk sane_fs) = drop 256 (drop 5120 (disk sane_fs))" by simp
  then show "inode_at sane_fs 2 = dir_inode"
    unfolding inode_at_def pos d using inode.dec_enc [OF dir_inode_wf] inode.enc_len [OF dir_inode_wf] by simp
qed

lemma sane_fs_reads:
  "ReadInode 1 sane_fs = (Ok dir_inode, sane_fs)" "ReadInode 2 sane_fs = (Ok dir_inode, sane_fs)"
  "ReadExtents dir_inode sane_fs = (Ok [dir_ext], sane_fs)"
  "ReadDir dir_inode sane_fs = (Ok (map raw_entry dot_records), sane_fs)"
  "read_block 3 sane_fs = (Ok ([0xFF, 0x01] @ ones 1022), sane_fs)"
  "read_block 4 sane_fs = (Ok ([0xFF, 0x07] @ ones 1022), sane_fs)"
proof -
  have b: "block_in sane_fs c" if "unat c < 16" for c
    using that sane_fs_blocks(2) by (simp add: block_in_def sane_fs_sel)
  show "read_block 3 sane_fs = (Ok ([0xFF, 0x01] @ ones 1022), sane_fs)"
    "read_block 4 sane_fs = (Ok ([0xFF, 0x07] @ ones 1022), sane_fs)"
    using read_block_ok [OF sane_fs_blocks(1) b] sane_fs_blocks(3,4) by simp_all
  have "inode_valid sane_fs 1" "inode_valid sane_fs 2"
    using sane_fs_blocks(2) by (simp_all add: inode_valid_def inode_pos_def inode_group_def inode_index_def inode_table_def
        sane_fs_sel sane_sb_sel gd_addr_def example_gd_def gd_decode_def)
  then show "ReadInode 1 sane_fs = (Ok dir_inode, sane_fs)" "ReadInode 2 sane_fs = (Ok dir_inode, sane_fs)"
    using ReadInode_valid [of sane_fs] sane_fs_blocks(1,6,7) by (simp_all add: fs_ok_def sane_fs_sel)
  have p: "plain_dir dir_inode [dir_ext]" and d: "data_blocks [dir_ext] = [9]"
    using dir_example_on by (simp_all add: dir_on_def dir_example_def) (simp add: data_blocks_def dir_ext_def
        ext_at_def ext_count_def ext_start_def block_run_def)
  show "ReadExtents dir_inode sane_fs = (Ok [dir_ext], sane_fs)"
    by (rule plain_dir_extents [OF sane_fs_blocks(1) p])
  have "dir_on sane_fs dir_inode [dir_ext] [dot_records]"
    using p d sane_fs_blocks(1,5) b [of 9]
    by (simp add: dir_on_def blk_is_def dir_keys_def all_entries_def sane_fs_sel)
      (simp add: dot_records_def raw_ok_def raw_len_def raw_entries_def used_def de_key_def raw_entry_def)
  then show "ReadDir dir_inode sane_fs = (Ok (map raw_entry dot_records), sane_fs)"
    using ReadDir_on by (fastforce simp: all_entries_def raw_entries_def dot_records_def used_def)
qed

lemma sane_fs_counts:
  "count_set ([0xFF, 0x01] @ ones 1022) 16 = 9" "count_set ([0xFF, 0x07] @ ones 1022) 16 = 11"
  by (simp_all add: count_set_def test_bit_def upt_rec)

lemma sane_fs_healthy: "\<exists>res. Fsck False sane_fs = (Ok res, sane_fs) \<and> R_Healthy res"
proof -
  define gd where "gd = example_gd\<lparr>BG_free_blocks_count_lo := 9, BG_free_inodes_count_lo := 11\<rparr>"
  have g: "BG_free_blocks_count_lo gd = 9" "BG_free_inodes_count_lo gd = 11"
    "gd_addr sane_fs (BG_block_bitmap_lo gd) (BG_block_bitmap_hi gd) = 3"
    "gd_addr sane_fs (BG_inode_bitmap_lo gd) (BG_inode_bitmap_hi gd) = 4"
    by (simp_all add: gd_def gd_addr_def sane_fs_sel example_gd_def gd_decode_def)
  have at: "bgd_at 0 sane_fs = (Ok gd, sane_fs)" by (simp add: bgd_at_def sane_fs_sel gd_def)
  have sb: "deref_sb sane_fs = (Ok sane_sb, sane_fs)" by (simp add: deref_sb_def sane_fs_sel)
  have all: "all_groups sane_fs = [0]" by (simp add: all_groups_def sane_fs_sel)
  have bits: "bits_to_check 16 ([0xFF, b] @ ones 1022) = 16" for b by (simp add: bits_to_check_def)
  have 1: "fsckBlockBitmaps False (sane_fs, res) = (Ok (), (sane_fs, res))" for res
    by (simp add: fsckBlockBitmaps_def all check_block_group_def at g sane_fs_reads sb sane_sb_sel Let_def bits
        sane_fs_counts outcome_of_def del: append_Cons)
  have 2: "fsckInodeBitmaps False (sane_fs, res) = (Ok (), (sane_fs, res))" for res
    by (simp add: fsckInodeBitmaps_def all check_inode_group_def at g sane_fs_reads sb sane_sb_sel Let_def bits
        sane_fs_counts outcome_of_def del: append_Cons)
  have inums: "checked_inodes sane_sb = [1]" by (simp add: checked_inodes_def sane_sb_sel)
  have mode: "I_mode dir_inode AND ifmt = S_IFDIR" "IsDir dir_inode" "UsesExtents dir_inode" "inode_Size dir_inode = 0"
    by (simp_all add: dir_inode_def S_IFDIR_def ifmt_def IsDir_def UsesExtents_def EXT4_EXTENTS_FL_def inode_Size_def
        example_inode_def inode_decode_def)
  have ext: "check_extent 16 dir_ext res = res\<lparr>R_BlocksReferenced := R_BlocksReferenced res + 1\<rparr>" for res
    by (simp add: check_extent_def dir_ext_def ext_at_def extent_blocks_def ext_start_def)
  have 3: "\<exists>res'. fsckInodes (sane_fs, res) = (Ok (), (sane_fs, res')) \<and> R_Healthy res' = R_Healthy res" for res
    by (simp add: fsckInodes_def sb inums outcome_of_def sane_fs_reads check_inode_def mode Let_def check_extents_def
        sane_sb_sel ext check_size_def sane_fs_sel)
  have 4: "fsckSuperblockCounts False (sane_fs, res) = (Ok (), (sane_fs, res))" for res
    by (simp add: fsckSuperblockCounts_def sb sane_fs_sel g Let_def fix_count_def sane_sb_sel flip: gd_def)
  have names: "dir_sane 1 (map raw_entry dot_records)"
    by (simp add: dir_sane_def dot_records_def raw_entry_def)
  have 5: "\<exists>res'. fsckDirectories (sane_fs, res) = (Ok (), (sane_fs, res')) \<and> R_Healthy res' = R_Healthy res" for res
    using names by (simp add: fsckDirectories_def sb inums outcome_of_def sane_fs_reads check_directory_def mode sane_sb_sel
        check_entries_healthy)
  obtain r3 where r3: "fsckInodes (sane_fs, fsck_start) = (Ok (), (sane_fs, r3))" "R_Healthy r3"
    using 3 [of fsck_start] by (auto simp: fsck_start_def)
  obtain r5 where r5: "fsckDirectories (sane_fs, r3) = (Ok (), (sane_fs, r5))" "R_Healthy r5"
    using 5 [of r3] r3(2) by auto
  have "fsck_passes False (sane_fs, fsck_start) = (Ok (), (sane_fs, r5))"
    by (simp add: fsck_passes_def sane_fs_sel(1,5) sane_sb_sel 1 2 r3 4 r5)
  with r5 show ?thesis by (simp add: Fsck_def)
qed


end
