(* ===== verification/Btrfs_Types.thy ===== *)
theory Btrfs_Types
  imports Dev_IO
begin

text \<open>
  \<open>btrfs/types.go\<close>: the cursor over a byte slice, keys and their order, the node header, leaf
  items and key pointers, \<open>readNode\<close>; and the checksum of \<open>btrfs/writer.go\<close>.

  A \<open>byteReader\<close> is the slice with an offset: its operations are state-passing operations on the
  offset and panic when they run past the end. A key is a single-constructor \<open>datatype\<close>, so that
  it can be an instance of \<open>linorder\<close>: the code's \<open>less\<close> is a strict total order.

  \<open>calcCrc32c\<close> is table driven; \<open>crc_bits\<close> is the shift register it stands for. The two agree, and
  the checksum tells any two strings apart that differ in one byte.
\<close>

section \<open>The byte reader\<close>

definition r_u8 :: "bytes \<Rightarrow> (nat, u8) op" where
  "r_u8 buf off = (if off < length buf then (Ok (buf ! off), off + 1) else (Panic, off))"

definition r_u16 :: "bytes \<Rightarrow> (nat, u16) op" where
  "r_u16 buf off = (if off + 2 \<le> length buf then (Ok (get16 off buf), off + 2) else (Panic, off))"

definition r_u32 :: "bytes \<Rightarrow> (nat, u32) op" where
  "r_u32 buf off = (if off + 4 \<le> length buf then (Ok (get32 off buf), off + 4) else (Panic, off))"

definition r_u64 :: "bytes \<Rightarrow> (nat, u64) op" where
  "r_u64 buf off = (if off + 8 \<le> length buf then (Ok (get64 off buf), off + 8) else (Panic, off))"

definition r_copy :: "bytes \<Rightarrow> nat \<Rightarrow> (nat, bytes) op" where
  "r_copy buf n off =
     (if off + n \<le> length buf then (Ok (bslice off (off + n) buf), off + n) else (Panic, off))"

definition r_skip :: "nat \<Rightarrow> (nat, unit) op" where
  "r_skip n off = (Ok (), off + n)"

lemmas reader_simps = r_u8_def r_u16_def r_u32_def r_u64_def r_copy_def r_skip_def

section \<open>Constants\<close>

definition nodeHeaderSize :: nat where "nodeHeaderSize = 101"
definition btrfsMagic :: u64 where "btrfsMagic = 0x4D5F53665248425F"
definition superblockOffset :: nat where "superblockOffset = 0x10000"
definition superblockSize :: nat where "superblockSize = 4096"

definition BTRFS_ROOT_ITEM_KEY :: u8 where "BTRFS_ROOT_ITEM_KEY = 132"
definition BTRFS_DIR_ITEM_KEY :: u8 where "BTRFS_DIR_ITEM_KEY = 84"
definition BTRFS_DIR_INDEX_KEY :: u8 where "BTRFS_DIR_INDEX_KEY = 96"
definition BTRFS_INODE_ITEM_KEY :: u8 where "BTRFS_INODE_ITEM_KEY = 1"
definition BTRFS_EXTENT_DATA_KEY :: u8 where "BTRFS_EXTENT_DATA_KEY = 108"
definition BTRFS_CHUNK_ITEM_KEY :: u8 where "BTRFS_CHUNK_ITEM_KEY = 228"
definition BTRFS_EXTENT_ITEM_KEY :: u8 where "BTRFS_EXTENT_ITEM_KEY = 168"
definition BTRFS_FILE_EXTENT_INLINE :: u8 where "BTRFS_FILE_EXTENT_INLINE = 0"
definition BTRFS_FILE_EXTENT_REG :: u8 where "BTRFS_FILE_EXTENT_REG = 1"
definition BTRFS_BLOCK_GROUP_DATA :: u64 where "BTRFS_BLOCK_GROUP_DATA = 1"
definition BTRFS_BLOCK_GROUP_METADATA :: u64 where "BTRFS_BLOCK_GROUP_METADATA = 4"
definition BTRFS_FT_REG_FILE :: u8 where "BTRFS_FT_REG_FILE = 1"
definition BTRFS_FT_DIR :: u8 where "BTRFS_FT_DIR = 2"
definition BTRFS_FT_SYMLINK :: u8 where "BTRFS_FT_SYMLINK = 7"

lemmas btrfs_consts [simp] =
  nodeHeaderSize_def superblockOffset_def superblockSize_def BTRFS_ROOT_ITEM_KEY_def
  BTRFS_DIR_ITEM_KEY_def BTRFS_DIR_INDEX_KEY_def BTRFS_INODE_ITEM_KEY_def BTRFS_EXTENT_DATA_KEY_def
  BTRFS_CHUNK_ITEM_KEY_def BTRFS_EXTENT_ITEM_KEY_def BTRFS_FILE_EXTENT_INLINE_def
  BTRFS_FILE_EXTENT_REG_def BTRFS_BLOCK_GROUP_DATA_def BTRFS_BLOCK_GROUP_METADATA_def
  BTRFS_FT_REG_FILE_def BTRFS_FT_DIR_def BTRFS_FT_SYMLINK_def

section \<open>Keys\<close>

datatype key = Key (K_objectid: u64) (K_typ: u8) (K_offset: u64)

definition key_less :: "key \<Rightarrow> key \<Rightarrow> bool" where
  "key_less k other =
     (if K_objectid k \<noteq> K_objectid other then K_objectid k < K_objectid other
      else if K_typ k \<noteq> K_typ other then K_typ k < K_typ other
      else K_offset k < K_offset other)"

instantiation key :: linorder
begin

definition less_key_def: "(k :: key) < l \<longleftrightarrow> key_less k l"

definition less_eq_key_def: "(k :: key) \<le> l \<longleftrightarrow> k = l \<or> key_less k l"

instance
  by standard (auto simp: less_key_def less_eq_key_def key_less_def key.expand split: if_splits)

end

definition compareKeys :: "key \<Rightarrow> key \<Rightarrow> int" where
  "compareKeys a b =
     (if K_objectid a < K_objectid b then -1
      else if K_objectid a > K_objectid b then 1
      else if K_typ a < K_typ b then -1
      else if K_typ a > K_typ b then 1
      else if K_offset a < K_offset b then -1
      else if K_offset a > K_offset b then 1
      else 0)"

lemma compareKeys_order: "compareKeys a b = (if a < b then -1 else if a = b then 0 else 1)"
  by (auto simp: compareKeys_def less_key_def key_less_def key.expand)

definition decodeKey :: "bytes \<Rightarrow> (nat, key) op" where
  "decodeKey buf =
     andThen (r_u64 buf) (\<lambda>objectid.
     andThen (r_u8 buf) (\<lambda>typ.
     andThen (r_u64 buf) (\<lambda>offset.
     ret (Key objectid typ offset))))"

definition encodeKey :: "key \<Rightarrow> bytes" where
  "encodeKey k = put64 (K_objectid k) @ [K_typ k] @ put64 (K_offset k)"

definition key_at :: "nat \<Rightarrow> bytes \<Rightarrow> key" where
  "key_at off buf = Key (get64 off buf) (buf ! (off + 8)) (get64 (off + 9) buf)"

lemma length_encodeKey [simp, bytes_simps]: "length (encodeKey k) = 17"
  by (simp add: encodeKey_def)

lemma decodeKey_eq:
  "off + 17 \<le> length buf \<Longrightarrow> decodeKey buf off = (Ok (key_at off buf), off + 17)"
  by (simp add: decodeKey_def reader_simps key_at_def add.commute)

section \<open>Nodes\<close>

record nodeHeader =
  NH_csum :: bytes
  NH_fsid :: bytes
  NH_bytenr :: u64
  NH_flags :: u64
  NH_chunkUuid :: bytes
  NH_generation :: u64
  NH_owner :: u64
  NH_nritems :: u32
  NH_level :: u8

definition decodeNodeHeader :: "bytes \<Rightarrow> (nat, nodeHeader) op" where
  "decodeNodeHeader buf =
     andThen (r_copy buf 32) (\<lambda>csum.
     andThen (r_copy buf 16) (\<lambda>fsid.
     andThen (r_u64 buf) (\<lambda>bytenr.
     andThen (r_u64 buf) (\<lambda>flags.
     andThen (r_copy buf 16) (\<lambda>chunkUuid.
     andThen (r_u64 buf) (\<lambda>generation.
     andThen (r_u64 buf) (\<lambda>owner.
     andThen (r_u32 buf) (\<lambda>nritems.
     andThen (r_u8 buf) (\<lambda>level.
     ret \<lparr>NH_csum = csum, NH_fsid = fsid, NH_bytenr = bytenr, NH_flags = flags,
       NH_chunkUuid = chunkUuid, NH_generation = generation, NH_owner = owner,
       NH_nritems = nritems, NH_level = level\<rparr>)))))))))"

definition header_at :: "bytes \<Rightarrow> nodeHeader" where
  "header_at buf = \<lparr>NH_csum = take 32 buf, NH_fsid = bslice 32 48 buf, NH_bytenr = get64 48 buf,
     NH_flags = get64 56 buf, NH_chunkUuid = bslice 64 80 buf, NH_generation = get64 80 buf,
     NH_owner = get64 88 buf, NH_nritems = get32 96 buf, NH_level = buf ! 100\<rparr>"

lemma decodeNodeHeader_eq:
  "101 \<le> length buf \<Longrightarrow> decodeNodeHeader buf 0 = (Ok (header_at buf), 101)"
  by (simp add: decodeNodeHeader_def reader_simps header_at_def slice_from_0)

record leafItem =
  LI_key :: key
  LI_offset :: u32
  LI_size :: u32

definition decodeLeafItem :: "bytes \<Rightarrow> (nat, leafItem) op" where
  "decodeLeafItem buf =
     andThen (decodeKey buf) (\<lambda>k.
     andThen (r_u32 buf) (\<lambda>offset.
     andThen (r_u32 buf) (\<lambda>size.
     ret \<lparr>LI_key = k, LI_offset = offset, LI_size = size\<rparr>)))"

definition item_at :: "nat \<Rightarrow> bytes \<Rightarrow> leafItem" where
  "item_at off buf =
     \<lparr>LI_key = key_at off buf, LI_offset = get32 (off + 17) buf, LI_size = get32 (off + 21) buf\<rparr>"

lemma decodeLeafItem_eq:
  "off + 25 \<le> length buf \<Longrightarrow> decodeLeafItem buf off = (Ok (item_at off buf), off + 25)"
  by (simp add: decodeLeafItem_def decodeKey_eq reader_simps item_at_def add.commute)

lemma decodeLeafItem_past: "length buf < off + 25 \<Longrightarrow> fst (decodeLeafItem buf off) = Panic"
  by (auto simp: decodeLeafItem_def decodeKey_def reader_simps andThen_def)

record internalKeyPtr =
  IP_key :: key
  IP_blockptr :: u64
  IP_generation :: u64

definition decodeInternalPtr :: "bytes \<Rightarrow> (nat, internalKeyPtr) op" where
  "decodeInternalPtr buf =
     andThen (decodeKey buf) (\<lambda>k.
     andThen (r_u64 buf) (\<lambda>blockptr.
     andThen (r_u64 buf) (\<lambda>generation.
     ret \<lparr>IP_key = k, IP_blockptr = blockptr, IP_generation = generation\<rparr>)))"

definition ptr_at :: "nat \<Rightarrow> bytes \<Rightarrow> internalKeyPtr" where
  "ptr_at off buf =
     \<lparr>IP_key = key_at off buf, IP_blockptr = get64 (off + 17) buf, IP_generation = get64 (off + 25) buf\<rparr>"

lemma decodeInternalPtr_eq:
  "off + 33 \<le> length buf \<Longrightarrow> decodeInternalPtr buf off = (Ok (ptr_at off buf), off + 33)"
  by (simp add: decodeInternalPtr_def decodeKey_eq reader_simps ptr_at_def add.commute)

definition readNode :: "u64 \<Rightarrow> u32 \<Rightarrow> (dev, bytes) op" where
  "readNode addr nodeSize = readBuf (unat nodeSize) (sint addr)"

section \<open>CRC-32C\<close>

definition crc_poly :: u32 where "crc_poly = 0x82F63B78"

definition crc_step :: "u32 \<Rightarrow> u32" where
  "crc_step crc = (if crc AND 1 \<noteq> 0 then crc_poly XOR drop_bit 1 crc else drop_bit 1 crc)"

definition crc32cTable :: "u32 list" where
  "crc32cTable = map (\<lambda>i. (crc_step ^^ 8) (of_nat i)) [0..<256]"

definition crc_byte :: "u8 \<Rightarrow> u32 \<Rightarrow> u32" where
  "crc_byte b crc = crc32cTable ! unat (ucast crc XOR b :: u8) XOR drop_bit 8 crc"

definition calcCrc32c :: "bytes \<Rightarrow> u32" where
  "calcCrc32c data = fold crc_byte data 0xFFFFFFFF XOR 0xFFFFFFFF"

text \<open>The shift register: the byte is added to the low end and eight bits are shifted out.\<close>

definition crc_bits :: "bytes \<Rightarrow> u32" where
  "crc_bits data = fold (\<lambda>b crc. (crc_step ^^ 8) (crc XOR ucast b)) data 0xFFFFFFFF XOR 0xFFFFFFFF"

lemma crc_step_bit: "crc_step x = (if bit x 0 then crc_poly XOR drop_bit 1 x else drop_bit 1 x)"
  by (simp add: crc_step_def and_one_eq mod_2_eq_odd bit_0)

lemma xor_cancel:
  "x XOR z = y XOR z \<Longrightarrow> (x :: 'a::len word) = y"
  "z XOR x = z XOR y \<Longrightarrow> x = y"
proof -
  show "x = y" if "x XOR z = y XOR z"
    using arg_cong [OF that, of "\<lambda>w. w XOR z"] by (simp add: xor.assoc)
  show "x = y" if "z XOR x = z XOR y"
    using arg_cong [OF that, of "\<lambda>w. z XOR w"] by (simp flip: xor.assoc)
qed

lemma crc_step_xor: "crc_step (x XOR y) = crc_step x XOR crc_step y"
proof (rule bit_word_eqI)
  fix n assume "n < LENGTH(32)"
  have "bit (crc_step z) n = (bit (drop_bit 1 z) n \<noteq> (bit z 0 \<and> bit crc_poly n))" for z
    by (auto simp: crc_step_bit bit_xor_iff)
  then show "bit (crc_step (x XOR y)) n = bit (crc_step x XOR crc_step y) n"
    by (simp only: drop_bit_xor bit_xor_iff) blast
qed

lemma crc_steps_xor: "(crc_step ^^ n) (x XOR y) = (crc_step ^^ n) x XOR (crc_step ^^ n) y"
  by (induction n) (simp_all add: crc_step_xor)

lemma crc_steps_low: "(\<forall>i<n. \<not> bit x i) \<Longrightarrow> (crc_step ^^ n) x = drop_bit n x"
proof (induction n arbitrary: x)
  case (Suc n)
  have "crc_step x = drop_bit 1 x" using Suc.prems by (simp add: crc_step_bit)
  moreover have "(crc_step ^^ n) (drop_bit 1 x) = drop_bit n (drop_bit 1 x)"
    using Suc.prems by (intro Suc.IH) (simp add: bit_drop_bit_eq)
  ultimately show ?case by (simp add: funpow_swap1 drop_bit_drop_bit)
qed simp

lemma crc_byte_step: "crc_byte b crc = (crc_step ^^ 8) (crc XOR ucast b)"
proof -
  define x where "x = crc XOR ucast b"
  have low: "take_bit 8 x = of_nat (unat (ucast crc XOR b :: u8))"
    unfolding x_def
    by (rule bit_word_eqI) (auto simp: bit_simps unsigned_of_nat dest: bit_imp_le_length [where ?'a = 8])
  have high: "drop_bit 8 x = drop_bit 8 crc"
    unfolding x_def by (rule bit_word_eqI) (auto simp: bit_simps dest: bit_imp_le_length [where ?'a = 8])
  have "x = take_bit 8 x XOR push_bit 8 (drop_bit 8 x)"
    by (rule bit_word_eqI) (auto simp: bit_simps)
  then have "(crc_step ^^ 8) x = (crc_step ^^ 8) (take_bit 8 x) XOR (crc_step ^^ 8) (push_bit 8 (drop_bit 8 x))"
    by (metis crc_steps_xor)
  also have "(crc_step ^^ 8) (push_bit 8 (drop_bit 8 x)) = drop_bit 8 (push_bit 8 (drop_bit 8 x))"
    by (rule crc_steps_low) (simp add: bit_simps)
  also have "\<dots> = drop_bit 8 crc"
    unfolding high by (rule bit_word_eqI) (auto simp: bit_simps dest: bit_imp_le_length)
  also have "(crc_step ^^ 8) (take_bit 8 x) = crc32cTable ! unat (ucast crc XOR b :: u8)"
    unfolding low crc32cTable_def using unat_bounds(1) [of "ucast crc XOR b"] by simp
  finally show ?thesis by (simp add: crc_byte_def x_def)
qed

lemma calcCrc32c_bits: "calcCrc32c data = crc_bits data"
  by (simp add: calcCrc32c_def crc_bits_def crc_byte_step [abs_def])

lemma crc_step_inj: "crc_step x = crc_step y \<Longrightarrow> x = y"
proof -
  assume eq: "crc_step x = crc_step y"
  have top: "bit (crc_step z) 31 = bit z 0" for z
    by (auto simp: crc_step_bit crc_poly_def bit_simps dest: bit_imp_le_length)
  with eq have low: "bit x 0 = bit y 0" by metis
  have "drop_bit 1 x = drop_bit 1 y"
    using eq low by (cases "bit x 0") (auto simp: crc_step_bit dest: xor_cancel)
  then have "bit x (Suc i) = bit y (Suc i)" for i
    by (metis bit_drop_bit_eq comp_apply plus_1_eq_Suc)
  with low show "x = y"
    by (intro bit_word_eqI) (metis not0_implies_Suc)
qed

lemma crc_steps_inj: "(crc_step ^^ n) x = (crc_step ^^ n) y \<Longrightarrow> x = y"
  by (induction n) (auto dest: crc_step_inj)

lemma crc_fold_inj: "fold crc_byte data x = fold crc_byte data y \<Longrightarrow> x = y"
proof (induction data arbitrary: x y)
  case (Cons b data)
  then have "crc_byte b x = crc_byte b y" by simp
  then have "x XOR ucast b = y XOR ucast b"
    unfolding crc_byte_step by (rule crc_steps_inj)
  then show ?case by (rule xor_cancel)
qed simp

lemma calcCrc32c_one_byte:
  assumes "b \<noteq> c"
  shows "calcCrc32c (p @ b # q) \<noteq> calcCrc32c (p @ c # q)"
proof
  assume "calcCrc32c (p @ b # q) = calcCrc32c (p @ c # q)"
  then have "fold crc_byte (p @ b # q) 0xFFFFFFFF = fold crc_byte (p @ c # q) 0xFFFFFFFF"
    unfolding calcCrc32c_def by (rule xor_cancel)
  then have "crc_byte b (fold crc_byte p 0xFFFFFFFF) = crc_byte c (fold crc_byte p 0xFFFFFFFF)"
    by (simp add: crc_fold_inj [of q])
  then have "fold crc_byte p 0xFFFFFFFF XOR ucast b = fold crc_byte p 0xFFFFFFFF XOR ucast c"
    unfolding crc_byte_step by (rule crc_steps_inj)
  then have "(ucast b :: u32) = ucast c" by (rule xor_cancel)
  then have "unat (ucast b :: u32) = unat (ucast c :: u32)" by simp
  with assms show False by (simp add: word_unat_eq_iff)
qed

end
