(* ===== verification/Btrfs_Compress.thy ===== *)
theory Btrfs_Compress
  imports Btrfs_Types
begin

text \<open>
  \<open>btrfs/compress.go\<close>. The zlib and zstd codecs are libraries the program calls: the record
  \<open>codecs\<close> holds what their readers and writers do to a byte string (opening the stream,
  reading it to the end, writing it). The LZO decoder is the program's own.

  A slice longer than the address space makes \<open>make\<close> panic; \<open>make_bytes\<close> has that bound.
\<close>

definition max_alloc :: nat where "max_alloc = 2 ^ 48"

definition make_bytes :: "nat \<Rightarrow> bytes res" where
  "make_bytes n = (if n > max_alloc then Panic else Ok (zeros n))"

lemma make_bytes_Ok: "n \<le> max_alloc \<Longrightarrow> make_bytes n = Ok (zeros n)"
  by (simp add: make_bytes_def)

definition BTRFS_COMPRESS_NONE :: u8 where "BTRFS_COMPRESS_NONE = 0"
definition BTRFS_COMPRESS_ZLIB :: u8 where "BTRFS_COMPRESS_ZLIB = 1"
definition BTRFS_COMPRESS_LZO :: u8 where "BTRFS_COMPRESS_LZO = 2"
definition BTRFS_COMPRESS_ZSTD :: u8 where "BTRFS_COMPRESS_ZSTD = 3"

lemmas compress_consts [simp] =
  BTRFS_COMPRESS_NONE_def BTRFS_COMPRESS_ZLIB_def BTRFS_COMPRESS_LZO_def BTRFS_COMPRESS_ZSTD_def

record codecs =
  zlib_NewReader :: "bytes \<Rightarrow> unit res"
  zlib_ReadAll :: "bytes \<Rightarrow> bytes res"
  zlib_Write :: "bytes \<Rightarrow> bytes res"
  zstd_NewReader :: "bytes \<Rightarrow> unit res"
  zstd_ReadAll :: "bytes \<Rightarrow> bytes res"

definition decompressZlib :: "codecs \<Rightarrow> bytes \<Rightarrow> bytes res" where
  "decompressZlib cd data =
     bindR (wrapR ''btrfs: zlib init: %w'' (zlib_NewReader cd data)) (\<lambda>_.
     wrapR ''btrfs: zlib decompress: %w'' (zlib_ReadAll cd data))"

definition compressZlib :: "codecs \<Rightarrow> bytes \<Rightarrow> bytes res" where
  "compressZlib cd data = zlib_Write cd data"

definition decompressZstd :: "codecs \<Rightarrow> bytes \<Rightarrow> u64 \<Rightarrow> bytes res" where
  "decompressZstd cd data uncompressedLen =
     bindR (wrapR ''btrfs: zstd init: %w'' (zstd_NewReader cd data)) (\<lambda>_.
     bindR (wrapR ''btrfs: zstd decompress: %w'' (zstd_ReadAll cd data)) (\<lambda>decoded.
     if length decoded < unat uncompressedLen
     then bindR (make_bytes (unat uncompressedLen - length decoded)) (\<lambda>padding. Ok (decoded @ padding))
     else if length decoded > unat uncompressedLen then Ok (take (unat uncompressedLen) decoded)
     else Ok decoded))"

section \<open>LZO\<close>

text \<open>\<open>for i := 0; i < matchLen; i++ { out.WriteByte(out.Bytes()[start+i]) }\<close>.\<close>

primrec match_loop :: "nat \<Rightarrow> nat \<Rightarrow> bytes \<Rightarrow> bytes res" where
  "match_loop 0 at out = Ok out"
| "match_loop (Suc n) at out =
     (if at < length out then match_loop n (Suc at) (out @ [out ! at]) else Panic)"

text \<open>The two branches of the loop share their tail: literals, a 16-bit distance, a match.\<close>

definition lzo_block :: "bytes \<Rightarrow> nat \<Rightarrow> nat \<Rightarrow> u8 \<Rightarrow> bytes \<Rightarrow> (nat \<times> bytes) res" where
  "lzo_block src ip litLen t out =
     (let litEnd = min (ip + litLen) (length src);
          out1 = out @ bslice ip litEnd src
      in if litEnd + 1 \<ge> length src then Panic
         else let back = unat (src ! litEnd) + 256 * unat (src ! (litEnd + 1));
                  matchLen = 3 + unat (t AND 0x1f);
                  start = length out1 - back
           in mapR (\<lambda>out2. (litEnd + 2, out2)) (match_loop matchLen start out1))"

lemma lzo_block_ip: "lzo_block src ip litLen t out = Ok (ip', out') \<Longrightarrow> ip \<le> length src \<Longrightarrow> ip < ip' \<and> ip' \<le> length src"
  by (auto simp: lzo_block_def Let_def split: if_splits res.splits)

function lzo_loop :: "bytes \<Rightarrow> nat \<Rightarrow> bytes \<Rightarrow> bytes res" where
  "lzo_loop src ip out =
     (if ip < length src then
        let t = src ! ip in
        if t < 64 then
          if ip + 2 \<ge> length src then Ok out
          else (case lzo_block src (ip + 1) (unat (drop_bit 5 t)) t out of
                  Ok (ip', out') \<Rightarrow> lzo_loop src ip' out' | Err e \<Rightarrow> Err e | Panic \<Rightarrow> Panic)
        else if t < 128 then
          (case lzo_block src (ip + 1) (unat (drop_bit 5 t AND 7)) t out of
             Ok (ip', out') \<Rightarrow> lzo_loop src ip' out' | Err e \<Rightarrow> Err e | Panic \<Rightarrow> Panic)
        else Err (Errorf ''lzo: unsupported block type'')
      else Ok out)"
  by pat_completeness auto
termination
  by (relation "measure (\<lambda>(src, ip, out). length src - ip)")
    (auto dest!: lzo_block_ip)

declare lzo_loop.simps [simp del]

definition lzo1xDecompress :: "bytes \<Rightarrow> bytes res" where
  "lzo1xDecompress src = lzo_loop src 0 []"

function lzo_segments :: "bytes \<Rightarrow> nat \<Rightarrow> bytes \<Rightarrow> bytes res" where
  "lzo_segments data pos out =
     (if pos < length data then
        if pos + 4 > length data then Ok out
        else let segLen = unat (get32 pos data) in
          if segLen = 0 \<or> pos + 4 + segLen > length data then Ok out
          else (case lzo1xDecompress (bslice (pos + 4) (pos + 4 + segLen) data) of
                  Ok dec \<Rightarrow> lzo_segments data (pos + 4 + segLen) (out @ dec) | Err e \<Rightarrow> Err e | Panic \<Rightarrow> Panic)
      else Ok out)"
  by pat_completeness auto
termination by (relation "measure (\<lambda>(data, pos, out). length data - pos)") auto

declare lzo_segments.simps [simp del]

definition decompressLZO :: "bytes \<Rightarrow> u64 \<Rightarrow> bytes res" where
  "decompressLZO data uncompressedLen =
     bindR (make_bytes (unat uncompressedLen)) (\<lambda>_.
     bindR (lzo_segments data 0 []) (\<lambda>out.
     if length out < unat uncompressedLen
     then bindR (make_bytes (unat uncompressedLen - length out)) (\<lambda>padding. Ok (out @ padding))
     else Ok out))"

definition decompressData :: "codecs \<Rightarrow> u8 \<Rightarrow> bytes \<Rightarrow> u64 \<Rightarrow> bytes res" where
  "decompressData cd ctype data uncompressedLen =
     (if ctype = BTRFS_COMPRESS_NONE then Ok data
      else if ctype = BTRFS_COMPRESS_ZLIB then decompressZlib cd data
      else if ctype = BTRFS_COMPRESS_LZO then decompressLZO data uncompressedLen
      else if ctype = BTRFS_COMPRESS_ZSTD then decompressZstd cd data uncompressedLen
      else Err (Errorf ''btrfs: unsupported compression type %d''))"

text \<open>A distance of zero points behind the output: the copy loop indexes past its end.\<close>

lemma match_loop_past: "length out \<le> at \<Longrightarrow> 0 < n \<Longrightarrow> match_loop n at out = Panic"
  by (cases n) simp_all

lemma lzo_zero_distance:
  assumes "ip + 2 < length src" and "src ! ip < 32" and "src ! (ip + 1) = 0" and "src ! (ip + 2) = 0"
  shows "lzo_loop src ip out = Panic"
proof -
  have "src ! ip < 64" using assms(2) by (rule order.strict_trans) simp
  moreover have "unat (drop_bit 5 (src ! ip)) = 0"
    using assms(2) by (simp add: unat_drop_bit_eq drop_bit_eq_div [where ?'a = nat] word_less_nat_alt)
  ultimately show ?thesis
    using assms by (subst lzo_loop.simps) (simp add: Let_def lzo_block_def match_loop_past bslice_def)
qed

end
