(* ===== verification/Btrfs_Tree.thy ===== *)
theory Btrfs_Tree
  imports Btrfs_Types
begin

text \<open>
  \<open>btrfs/super.go\<close> and \<open>btrfs/tree.go\<close>: the superblock, the chunk map that turns logical into
  physical addresses, and the walk over a B-tree.

  The walk gets the callback of the caller. A Go closure updates variables it captures; here they
  are the last component of the state of the walk, next to the device and the tree context, which
  the callback of \<open>resolveChunkTree\<close> extends while the walk is under way. The walk descends
  without a limit on the depth: its first argument bounds the nesting of calls, and running out of
  it is the stack overflow that ends the program.

  \<open>btree\<close> says which items a tree stands for; the walk hands exactly these to the callback, in
  order, up to its first error.
\<close>

section \<open>Superblock\<close>

record BtrfsSuper =
  Sb_Csum :: bytes
  Sb_Fsid :: bytes
  Sb_Bytenr :: u64
  Sb_Flags :: u64
  Sb_Magic :: u64
  Sb_Generation :: u64
  Sb_Root :: u64
  Sb_ChunkRoot :: u64
  Sb_LogRoot :: u64
  Sb_LogRootTransid :: u64
  Sb_TotalBytes :: u64
  Sb_BytesUsed :: u64
  Sb_RootDirObjectid :: u64
  Sb_NumDevices :: u64
  Sb_SectorSize :: u32
  Sb_NodeSize :: u32
  Sb_LeafSize :: u32
  Sb_StripeSize :: u32
  Sb_SysChunkArraySize :: u32
  Sb_ChunkRootGeneration :: u64
  Sb_CompatFlags :: u64
  Sb_CompatRoFlags :: u64
  Sb_IncompatFlags :: u64
  Sb_CsumType :: u16
  Sb_RootLevel :: u8
  Sb_ChunkRootLevel :: u8
  Sb_LogRootLevel :: u8
  Sb_SysChunkData :: bytes

definition sysChunkArrayOffset :: nat where "sysChunkArrayOffset = 811"
definition sysChunkArrayMax :: nat where "sysChunkArrayMax = 2048"

definition decodeSuper :: "bytes \<Rightarrow> (nat, BtrfsSuper) op" where
  "decodeSuper buf =
     andThen (r_copy buf 32) (\<lambda>csum. andThen (r_copy buf 16) (\<lambda>fsid.
     andThen (r_u64 buf) (\<lambda>bytenr. andThen (r_u64 buf) (\<lambda>flags. andThen (r_u64 buf) (\<lambda>magic.
     if magic \<noteq> btrfsMagic then failw (Errorf ''invalid btrfs magic: expected 0x%X, got 0x%X'')
     else
     andThen (r_u64 buf) (\<lambda>generation. andThen (r_u64 buf) (\<lambda>root. andThen (r_u64 buf) (\<lambda>chunkRoot.
     andThen (r_u64 buf) (\<lambda>logRoot. andThen (r_u64 buf) (\<lambda>transid. andThen (r_u64 buf) (\<lambda>total.
     andThen (r_u64 buf) (\<lambda>used. andThen (r_u64 buf) (\<lambda>rootDir. andThen (r_u64 buf) (\<lambda>numDev.
     andThen (r_u32 buf) (\<lambda>sector. andThen (r_u32 buf) (\<lambda>node. andThen (r_u32 buf) (\<lambda>leaf.
     andThen (r_u32 buf) (\<lambda>stripe. andThen (r_u32 buf) (\<lambda>arr. andThen (r_u64 buf) (\<lambda>crgen.
     andThen (r_u64 buf) (\<lambda>compat. andThen (r_u64 buf) (\<lambda>compatRo. andThen (r_u64 buf) (\<lambda>incompat.
     andThen (r_u16 buf) (\<lambda>csumType. andThen (r_u8 buf) (\<lambda>rootLevel.
     andThen (r_u8 buf) (\<lambda>chunkLevel. andThen (r_u8 buf) (\<lambda>logLevel.
     let asz = unat arr; end = sysChunkArrayOffset + asz in
     ret \<lparr>Sb_Csum = csum, Sb_Fsid = fsid, Sb_Bytenr = bytenr, Sb_Flags = flags, Sb_Magic = magic,
       Sb_Generation = generation, Sb_Root = root, Sb_ChunkRoot = chunkRoot, Sb_LogRoot = logRoot,
       Sb_LogRootTransid = transid, Sb_TotalBytes = total, Sb_BytesUsed = used,
       Sb_RootDirObjectid = rootDir, Sb_NumDevices = numDev, Sb_SectorSize = sector,
       Sb_NodeSize = node, Sb_LeafSize = leaf, Sb_StripeSize = stripe, Sb_SysChunkArraySize = arr,
       Sb_ChunkRootGeneration = crgen, Sb_CompatFlags = compat, Sb_CompatRoFlags = compatRo,
       Sb_IncompatFlags = incompat, Sb_CsumType = csumType, Sb_RootLevel = rootLevel,
       Sb_ChunkRootLevel = chunkLevel, Sb_LogRootLevel = logLevel,
       Sb_SysChunkData =
         (if 0 < asz \<and> asz \<le> sysChunkArrayMax \<and> end \<le> length buf
          then bslice sysChunkArrayOffset end buf else [])\<rparr>)))))))))))))))))))))))))))"

definition btrfs_ReadSuper :: "(dev, BtrfsSuper) op" where
  "btrfs_ReadSuper =
     andThen (wrapErr ''btrfs: read superblock: %w'' (readBuf superblockSize (int superblockOffset))) (\<lambda>buf.
     liftR (fst (decodeSuper buf 0)))"

text \<open>The fields that \<open>writeSuperBlock\<close> puts into the image it read.\<close>

definition super_image :: "BtrfsSuper \<Rightarrow> bytes \<Rightarrow> bytes" where
  "super_image sb b0 =
     (let b1 = copy_at 48 (put64 (Sb_Bytenr sb)) b0;
          b2 = copy_at 56 (put64 (Sb_Flags sb)) b1;
          b3 = copy_at 64 (put64 (Sb_Magic sb)) b2;
          b4 = copy_at 72 (put64 (Sb_Generation sb)) b3;
          b5 = copy_at 80 (put64 (Sb_Root sb)) b4;
          b6 = copy_at 88 (put64 (Sb_ChunkRoot sb)) b5;
          b7 = copy_at 96 (put64 (Sb_LogRoot sb)) b6;
          b8 = copy_at 104 (put64 (Sb_LogRootTransid sb)) b7;
          b9 = copy_at 112 (put64 (Sb_TotalBytes sb)) b8;
          b10 = copy_at 120 (put64 (Sb_BytesUsed sb)) b9;
          b11 = copy_at 198 [Sb_RootLevel sb] b10;
          b12 = copy_at 199 [Sb_ChunkRootLevel sb] b11;
          b13 = copy_at 200 [Sb_LogRootLevel sb] b12
      in copy_at 0 (put32 (calcCrc32c (drop 32 b13))) b13)"

definition write_super :: "BtrfsSuper \<Rightarrow> (dev, unit) op" where
  "write_super sb =
     andThen (readBuf superblockSize (int superblockOffset)) (\<lambda>buf.
     writeBuf (super_image sb buf) (int superblockOffset))"

section \<open>Chunks\<close>

record chunkMapping =
  CM_logical :: u64
  CM_length :: u64
  CM_physical :: u64
  CM_flags :: u64

record treeContext =
  TC_nodeSize :: u32
  TC_chunks :: "chunkMapping list"

definition addChunk :: "u64 \<Rightarrow> u64 \<Rightarrow> u64 \<Rightarrow> u64 \<Rightarrow> treeContext \<Rightarrow> treeContext" where
  "addChunk logical len physical flags tc =
     tc\<lparr>TC_chunks := TC_chunks tc @
       [\<lparr>CM_logical = logical, CM_length = len, CM_physical = physical, CM_flags = flags\<rparr>]\<rparr>"

fun resolve_in :: "chunkMapping list \<Rightarrow> u64 \<Rightarrow> u64 res" where
  "resolve_in [] logical = Err (Errorf ''btrfs: no chunk mapping for logical 0x%x'')"
| "resolve_in (c # cs) logical =
     (if logical \<ge> CM_logical c \<and> logical < CM_logical c + CM_length c
      then Ok (CM_physical c + (logical - CM_logical c))
      else resolve_in cs logical)"

definition resolve :: "treeContext \<Rightarrow> u64 \<Rightarrow> u64 res" where
  "resolve tc logical = resolve_in (TC_chunks tc) logical"

text \<open>The fixed part of a chunk item: length, flags and number of stripes.\<close>

definition chunk_fields :: "bytes \<Rightarrow> (nat, u64 \<times> u64 \<times> u16) op" where
  "chunk_fields buf =
     andThen (r_u64 buf) (\<lambda>len.
     andThen (r_u64 buf) (\<lambda>_.
     andThen (r_u64 buf) (\<lambda>_.
     andThen (r_u64 buf) (\<lambda>flags.
     andThen (r_u32 buf) (\<lambda>_.
     andThen (r_u32 buf) (\<lambda>_.
     andThen (r_u32 buf) (\<lambda>_.
     andThen (r_u16 buf) (\<lambda>numStripes.
     andThen (r_skip 2) (\<lambda>_.
     ret (len, flags, numStripes))))))))))"

function sys_chunk_loop :: "bytes \<Rightarrow> nat \<Rightarrow> treeContext \<Rightarrow> treeContext res" where
  "sys_chunk_loop data pos tc =
     (if pos + 17 \<le> length data then
        bindR (fst (decodeKey data pos)) (\<lambda>k.
        if K_typ k \<noteq> BTRFS_CHUNK_ITEM_KEY \<or> pos + 17 + 48 > length data then Ok tc
        else bindR (fst (chunk_fields data (pos + 17))) (\<lambda>(len, flags, numStripes).
          if numStripes = 0 then Ok tc
          else let stripeTotal = unat numStripes * 32 in
            if pos + 17 + 48 + stripeTotal > length data then Ok tc
            else let lastStripeOff = pos + 17 + 48 + stripeTotal - 32 in
              bindR (fst (r_u64 data (lastStripeOff + 8))) (\<lambda>physOffset.
              sys_chunk_loop data (pos + 17 + 48 + stripeTotal)
                (addChunk (K_offset k) len physOffset flags tc))))
      else Ok tc)"
  by pat_completeness auto
termination
  by (relation "measure (\<lambda>(data, pos, tc). length data - pos)") auto

declare sys_chunk_loop.simps [simp del]

definition parseSysChunks :: "BtrfsSuper \<Rightarrow> treeContext \<Rightarrow> treeContext res" where
  "parseSysChunks sb tc =
     (if Sb_SysChunkData sb = [] then Ok tc else sys_chunk_loop (Sb_SysChunkData sb) 0 tc)"

definition parseChunkItem :: "leafItem \<Rightarrow> bytes \<Rightarrow> treeContext \<Rightarrow> treeContext res" where
  "parseChunkItem item data tc =
     (if length data < 48 then Ok tc
      else bindR (fst (chunk_fields data 0)) (\<lambda>(len, flags, numStripes).
        if numStripes = 0 \<or> length data < 48 + unat numStripes * 32 then Ok tc
        else bindR (fst (r_u64 data (48 + unat (numStripes - 1) * 32 + 8))) (\<lambda>physOffset.
          Ok (addChunk (K_offset (LI_key item)) len physOffset flags tc))))"

section \<open>Walking a tree\<close>

type_synonym 'a walk_state = "dev \<times> treeContext \<times> 'a"
type_synonym 'a callback = "leafItem \<Rightarrow> bytes \<Rightarrow> (treeContext \<times> 'a, unit) op"

definition onDev :: "(dev, 'b) op \<Rightarrow> ('a walk_state, 'b) op" where
  "onDev m = (\<lambda>(d, rest). case m d of (r, d') \<Rightarrow> (r, (d', rest)))"

definition onCaptured :: "(treeContext \<times> 'a, 'b) op \<Rightarrow> ('a walk_state, 'b) op" where
  "onCaptured m = (\<lambda>(d, rest). case m rest of (r, rest') \<Rightarrow> (r, (d, rest')))"

definition resolveW :: "u64 \<Rightarrow> ('a walk_state, u64) op" where
  "resolveW addr = (\<lambda>(d, tc, a). (resolve tc addr, (d, tc, a)))"

definition readNodeAt :: "u64 \<Rightarrow> ('a walk_state, bytes) op" where
  "readNodeAt logical =
     andThen (resolveW logical) (\<lambda>phys.
     andThen (getS (\<lambda>(d, tc, a). TC_nodeSize tc)) (\<lambda>nodeSize.
     wrapErr ''read node at logical 0x%x -> phys 0x%x: %w'' (onDev (readNode phys nodeSize))))"

text \<open>The slice \<open>buf[dataStart:dataEnd]\<close> of an item, with the 32-bit sums of the code.\<close>

definition item_data :: "bytes \<Rightarrow> leafItem \<Rightarrow> bytes res" where
  "item_data buf item =
     (let dataStart = of_nat nodeHeaderSize + LI_offset item;
          dataEnd = dataStart + LI_size item
      in if dataEnd > of_nat (length buf)
         then Err (Errorf ''btrfs: item %d data out of bounds: off=%d size=%d bufLen=%d'')
         else goslice (unat dataStart) (unat dataEnd) buf)"

primrec item_loop :: "'a callback \<Rightarrow> bytes \<Rightarrow> nat \<Rightarrow> nat \<Rightarrow> ('a walk_state, unit) op" where
  "item_loop cb buf 0 off = ret ()"
| "item_loop cb buf (Suc n) off =
     andThen (liftR (fst (decodeLeafItem buf off))) (\<lambda>item.
     andThen (liftR (item_data buf item)) (\<lambda>data.
     andThen (onCaptured (cb item data)) (\<lambda>_.
     item_loop cb buf n (off + 25))))"

primrec ptr_loop :: "(u64 \<Rightarrow> ('a walk_state, unit) op) \<Rightarrow> bytes \<Rightarrow> nat \<Rightarrow> nat \<Rightarrow> ('a walk_state, unit) op" where
  "ptr_loop visit buf 0 off = ret ()"
| "ptr_loop visit buf (Suc n) off =
     andThen (liftR (fst (decodeInternalPtr buf off))) (\<lambda>ptr.
     andThen (visit (IP_blockptr ptr)) (\<lambda>_.
     ptr_loop visit buf n (off + 33)))"

primrec walkTreeWithNodeCB ::
    "nat \<Rightarrow> 'a callback \<Rightarrow> (u64 \<Rightarrow> treeContext \<times> 'a \<Rightarrow> treeContext \<times> 'a) option \<Rightarrow> u64 \<Rightarrow> ('a walk_state, unit) op" where
  "walkTreeWithNodeCB 0 cb nodeCB addr = panic"
| "walkTreeWithNodeCB (Suc depth) cb nodeCB addr =
     andThen (resolveW addr) (\<lambda>phys.
     andThen (case nodeCB of None \<Rightarrow> ret () | Some f \<Rightarrow> onCaptured (modS (f phys))) (\<lambda>_.
     andThen (getS (\<lambda>(d, tc, a). TC_nodeSize tc)) (\<lambda>nodeSize.
     andThen (wrapErr ''btrfs: read node at 0x%x: %w'' (onDev (readNode phys nodeSize))) (\<lambda>buf.
     andThen (liftR (fst (decodeNodeHeader buf 0))) (\<lambda>h.
     if NH_level h = 0 then item_loop cb buf (unat (NH_nritems h)) nodeHeaderSize
     else ptr_loop (walkTreeWithNodeCB depth cb nodeCB) buf (unat (NH_nritems h)) nodeHeaderSize)))))"

definition walkTree :: "nat \<Rightarrow> 'a callback \<Rightarrow> u64 \<Rightarrow> ('a walk_state, unit) op" where
  "walkTree depth cb addr = walkTreeWithNodeCB depth cb None addr"

definition chunk_callback :: "unit callback" where
  "chunk_callback item data = (\<lambda>(tc, a).
     if K_typ (LI_key item) = BTRFS_CHUNK_ITEM_KEY
     then (case parseChunkItem item data tc of
             Ok tc' \<Rightarrow> (Ok (), (tc', a)) | Err e \<Rightarrow> (Err e, (tc, a)) | Panic \<Rightarrow> (Panic, (tc, a)))
     else (Ok (), (tc, a)))"

definition resolveChunkTree :: "nat \<Rightarrow> u64 \<Rightarrow> (dev \<times> treeContext, unit) op" where
  "resolveChunkTree depth rootAddr = (\<lambda>(d, tc).
     case walkTree depth chunk_callback rootAddr (d, tc, ()) of (r, (d', tc', _)) \<Rightarrow> (r, (d', tc')))"

text \<open>A callback that only collects: it updates the captured variables and may end the walk.\<close>

definition collecting :: "(leafItem \<Rightarrow> bytes \<Rightarrow> ('a, unit) op) \<Rightarrow> 'a callback" where
  "collecting f item data = (\<lambda>(tc, a). case f item data a of (r, a') \<Rightarrow> (r, (tc, a')))"

section \<open>What a tree stands for\<close>

type_synonym tree_item = "leafItem \<times> bytes"

primrec run_items :: "'a callback \<Rightarrow> tree_item list \<Rightarrow> ('a walk_state, unit) op" where
  "run_items cb [] = ret ()"
| "run_items cb (x # xs) = andThen (onCaptured (cb (fst x) (snd x))) (\<lambda>_. run_items cb xs)"

fun node_items :: "bytes \<Rightarrow> nat \<Rightarrow> nat \<Rightarrow> tree_item list option" where
  "node_items buf 0 off = Some []"
| "node_items buf (Suc n) off =
     (if off + 25 \<le> length buf then
        (case item_data buf (item_at off buf) of
           Ok data \<Rightarrow> map_option ((#) (item_at off buf, data)) (node_items buf n (off + 25))
         | _ \<Rightarrow> None)
      else None)"

definition node_ptrs :: "bytes \<Rightarrow> nat \<Rightarrow> internalKeyPtr list" where
  "node_ptrs buf n = map (\<lambda>i. ptr_at (nodeHeaderSize + 33 * i) buf) [0..<n]"

definition tree_node :: "bytes \<Rightarrow> treeContext \<Rightarrow> u64 \<Rightarrow> bytes option" where
  "tree_node c tc addr =
     (case resolve tc addr of
        Ok phys \<Rightarrow>
          (if 101 \<le> unat (TC_nodeSize tc) \<and> unat phys + unat (TC_nodeSize tc) \<le> length c
           then Some (bslice (unat phys) (unat phys + unat (TC_nodeSize tc)) c) else None)
      | _ \<Rightarrow> None)"

inductive btree :: "bytes \<Rightarrow> treeContext \<Rightarrow> nat \<Rightarrow> u64 \<Rightarrow> tree_item list \<Rightarrow> bool" for c tc where
  btree_leaf: "btree c tc h addr its"
    if "tree_node c tc addr = Some buf" and "NH_level (header_at buf) = 0"
      and "node_items buf (unat (NH_nritems (header_at buf))) 101 = Some its"
| btree_node: "btree c tc (Suc h) addr (concat itss)"
    if "tree_node c tc addr = Some buf" and "NH_level (header_at buf) \<noteq> 0"
      and "101 + 33 * unat (NH_nritems (header_at buf)) \<le> length buf"
      and "list_all2 (\<lambda>p its. btree c tc h (IP_blockptr p) its)
             (node_ptrs buf (unat (NH_nritems (header_at buf)))) itss"

inductive_cases btree_leafE: "btree c tc 0 addr its"

primrec collect_items :: "(leafItem \<Rightarrow> bytes \<Rightarrow> ('a, unit) op) \<Rightarrow> tree_item list \<Rightarrow> ('a, unit) op" where
  "collect_items f [] = ret ()"
| "collect_items f (x # xs) = andThen (f (fst x) (snd x)) (\<lambda>_. collect_items f xs)"

lemma collect_items_append:
  "collect_items f (xs @ ys) = andThen (collect_items f xs) (\<lambda>_. collect_items f ys)"
  by (induction xs) (auto simp: fun_eq_iff andThen_def split: prod.splits res.splits)

definition with_walk :: "dev \<Rightarrow> treeContext \<Rightarrow> 'b res \<times> 'a \<Rightarrow> 'b res \<times> 'a walk_state" where
  "with_walk d tc p = (fst p, (d, tc, snd p))"

lemma with_walk_bind:
  assumes "m (d, tc, a) = with_walk d tc (m' a)"
    and "\<And>x a'. m' a = (Ok x, a') \<Longrightarrow> f x (d, tc, a') = with_walk d tc (f' x a')"
  shows "andThen m f (d, tc, a) = with_walk d tc (andThen m' f' a)"
  using assms by (cases "m' a") (auto simp: with_walk_def andThen_def split: res.splits)

lemma onCaptured_collecting:
  "onCaptured (collecting f item data) (d, tc, a) = with_walk d tc (f item data a)"
  by (simp add: onCaptured_def collecting_def with_walk_def split: prod.splits)

lemma item_loop_items:
  "node_items buf n off = Some its \<Longrightarrow>
   item_loop (collecting f) buf n off (d, tc, a) = with_walk d tc (collect_items f its a)"
proof (induction n arbitrary: off its a)
  case 0
  then show ?case by (simp add: with_walk_def)
next
  case (Suc n)
  from Suc.prems obtain data its' where its: "its = (item_at off buf, data) # its'"
      and len: "off + 25 \<le> length buf" and data: "item_data buf (item_at off buf) = Ok data"
      and rest: "node_items buf n (off + 25) = Some its'"
    by (auto split: if_splits res.splits)
  have "andThen (onCaptured (collecting f (item_at off buf) data)) (\<lambda>_. item_loop (collecting f) buf n (off + 25)) (d, tc, a) =
      with_walk d tc (andThen (f (item_at off buf) data) (\<lambda>_. collect_items f its') a)"
    by (rule with_walk_bind) (simp_all add: onCaptured_collecting Suc.IH [OF rest])
  with len data show ?case by (simp add: its decodeLeafItem_eq)
qed

lemma ptr_loop_items:
  assumes "length itss = n" and "off + 33 * n \<le> length buf"
    and "\<And>i a. i < n \<Longrightarrow>
       visit (IP_blockptr (ptr_at (off + 33 * i) buf)) (d, tc, a) = with_walk d tc (collect_items f (itss ! i) a)"
  shows "ptr_loop visit buf n off (d, tc, a) = with_walk d tc (collect_items f (concat itss) a)"
  using assms
proof (induction n arbitrary: off itss a)
  case 0
  then show ?case by (simp add: with_walk_def)
next
  case (Suc n)
  then obtain its rest where itss: "itss = its # rest" by (cases itss) auto
  have IH: "ptr_loop visit buf n (off + 33) (d, tc, a') = with_walk d tc (collect_items f (concat rest) a')" for a'
  proof (rule Suc.IH)
    show "length rest = n" "off + 33 + 33 * n \<le> length buf" using Suc.prems itss by simp_all
    fix i a'' assume "i < n"
    with Suc.prems(3) [of "Suc i" a'']
    show "visit (IP_blockptr (ptr_at (off + 33 + 33 * i) buf)) (d, tc, a'') =
        with_walk d tc (collect_items f (rest ! i) a'')"
      by (simp add: itss add.assoc)
  qed
  have "andThen (visit (IP_blockptr (ptr_at off buf))) (\<lambda>_. ptr_loop visit buf n (off + 33)) (d, tc, a) =
      with_walk d tc (andThen (collect_items f its) (\<lambda>_. collect_items f (concat rest)) a)"
    by (rule with_walk_bind) (use Suc.prems(3) [of 0] IH in \<open>simp_all add: itss\<close>)
  with Suc.prems(2) show ?case
    by (simp add: itss collect_items_append decodeInternalPtr_eq)
qed

lemma tree_node_Some:
  assumes "tree_node c tc addr = Some buf"
  obtains phys where "resolve tc addr = Ok phys" and "101 \<le> unat (TC_nodeSize tc)"
    and "unat phys + unat (TC_nodeSize tc) \<le> length c"
    and "buf = bslice (unat phys) (unat phys + unat (TC_nodeSize tc)) c"
    and "length buf = unat (TC_nodeSize tc)"
  using assms by (auto simp: tree_node_def split: res.splits if_splits)

lemma readNode_ok:
  assumes "dev_ok d" and "0 < unat ns" and "unat phys + unat ns \<le> length (content d)"
  shows "readNode phys ns d = (Ok (bslice (unat phys) (unat phys + unat ns) (content d)), d)"
proof -
  have "sint phys = int (unat phys)"
    using assms(3) dev_ok_size [OF assms(1)] by (intro sint_u64_small) simp
  then show ?thesis unfolding readNode_def using readBuf_ok [OF assms] by (simp only:)
qed

lemma walkTree_step:
  assumes "dev_ok d" and "tree_node (content d) tc addr = Some buf"
  shows "walkTreeWithNodeCB (Suc depth) cb None addr (d, tc, a) =
    (if NH_level (header_at buf) = 0 then item_loop cb buf (unat (NH_nritems (header_at buf))) 101 (d, tc, a)
     else ptr_loop (walkTreeWithNodeCB depth cb None) buf (unat (NH_nritems (header_at buf))) 101 (d, tc, a))"
proof -
  from assms(2) obtain phys where p: "resolve tc addr = Ok phys" "101 \<le> unat (TC_nodeSize tc)"
      "unat phys + unat (TC_nodeSize tc) \<le> length (content d)"
      "buf = bslice (unat phys) (unat phys + unat (TC_nodeSize tc)) (content d)"
      "length buf = unat (TC_nodeSize tc)"
    by (rule tree_node_Some)
  then have "readNode phys (TC_nodeSize tc) d = (Ok buf, d)"
    using assms(1) by (simp add: readNode_ok)
  with p(1,2,5) show ?thesis
    by (simp add: resolveW_def onDev_def decodeNodeHeader_eq)
qed

lemma walk_collects:
  assumes "btree c tc h addr its" and "dev_ok d" and "content d = c" and "h < depth"
  shows "walkTree depth (collecting f) addr (d, tc, a) = with_walk d tc (collect_items f its a)"
proof -
  have "walkTreeWithNodeCB depth (collecting f) None addr (d, tc, a) = with_walk d tc (collect_items f its a)"
    using assms
  proof (induction arbitrary: depth a rule: btree.induct)
    case (btree_leaf addr buf its h)
    then obtain k where "depth = Suc k" by (cases depth) auto
    with btree_leaf show ?case by (simp add: walkTree_step item_loop_items del: walkTreeWithNodeCB.simps)
  next
    case (btree_node addr buf h itss)
    then obtain k where k: "depth = Suc k" "h < k" by (cases depth) auto
    let ?n = "unat (NH_nritems (header_at buf))"
    have len: "length itss = ?n"
      using btree_node.IH by (auto simp: list_all2_lengthD node_ptrs_def dest!: list_all2_lengthD)
    have "ptr_loop (walkTreeWithNodeCB k (collecting f) None) buf ?n 101 (d, tc, a) =
        with_walk d tc (collect_items f (concat itss) a)"
    proof (rule ptr_loop_items [OF len])
      show "101 + 33 * ?n \<le> length buf" by fact
      fix i a' assume "i < ?n"
      with list_all2_nthD [OF btree_node.IH, of i] k btree_node.prems
      show "walkTreeWithNodeCB k (collecting f) None (IP_blockptr (ptr_at (101 + 33 * i) buf)) (d, tc, a') =
          with_walk d tc (collect_items f (itss ! i) a')"
        by (simp add: node_ptrs_def)
    qed
    with btree_node k show ?case by (simp add: walkTree_step del: walkTreeWithNodeCB.simps)
  qed
  then show ?thesis by (simp add: walkTree_def)
qed

text \<open>A node that points at itself is walked until the stack is used up.\<close>

lemma walk_cycle:
  assumes "dev_ok d" and "tree_node (content d) tc addr = Some buf" and "NH_level (header_at buf) \<noteq> 0"
    and "0 < unat (NH_nritems (header_at buf))" and "134 \<le> length buf"
    and "IP_blockptr (ptr_at 101 buf) = addr"
  shows "walkTree depth cb addr (d, tc, a) = (Panic, (d, tc, a))"
proof -
  obtain n where n: "unat (NH_nritems (header_at buf)) = Suc n" using assms(4) by (cases "unat (NH_nritems (header_at buf))") auto
  have "walkTreeWithNodeCB depth cb None addr (d, tc, a) = (Panic, (d, tc, a))"
  proof (induction depth)
    case (Suc depth)
    with assms show ?case by (simp add: walkTree_step n decodeInternalPtr_eq del: walkTreeWithNodeCB.simps(2))
  qed simp
  then show ?thesis by (simp add: walkTree_def)
qed

lemma resolve_in_chunk:
  "resolve_in cs logical = Ok p \<Longrightarrow>
   \<exists>c\<in>set cs. CM_logical c \<le> logical \<and> logical < CM_logical c + CM_length c \<and>
     p = CM_physical c + (logical - CM_logical c)"
  by (induction cs) (auto split: if_splits)

end
