(* ===== verification/Btrfs_Leaf.thy ===== *)
theory Btrfs_Leaf
  imports Btrfs_Tree
begin

text \<open>
  The leaf codec of \<open>btrfs/writer.go\<close>. \<open>insertIntoLeaf\<close>, \<open>deleteFromLeaf\<close>, \<open>updateInLeaf\<close> and
  \<open>writeItemsToLeaf\<close> parse a leaf into keys and payloads and lay out the new list: the payloads at
  the end of the block, the item headers behind the node header, the count, generation, address
  and checksum in the node header. The code has the two passes in each of the four functions;
  here they are \<open>parse_leaf\<close> and \<open>leaf_image\<close>.

  A list that fits comes back as it was written, for the parser of the writer and for the walk.
\<close>

section \<open>Parsing\<close>

record itemEntry =
  IE_k :: key
  IE_data :: bytes

abbreviation entry :: "key \<Rightarrow> bytes \<Rightarrow> itemEntry" where
  "entry k data \<equiv> \<lparr>IE_k = k, IE_data = data\<rparr>"

primrec parse_leaf :: "string \<Rightarrow> bytes \<Rightarrow> nat \<Rightarrow> nat \<Rightarrow> itemEntry list res" where
  "parse_leaf msg buf i 0 = Ok []"
| "parse_leaf msg buf i (Suc n) =
     (let off = nodeHeaderSize + i * 25 in
      if off + 25 > length buf then Ok []
      else let item = item_at off buf;
               di = nodeHeaderSize + unat (LI_offset item);
               size = unat (LI_size item)
        in if di + size > length buf then Err (Errorf msg)
           else bindR (parse_leaf msg buf (Suc i) n) (\<lambda>rest.
             Ok (entry (LI_key item) (bslice di (di + size) buf) # rest)))"

definition parse_items :: "string \<Rightarrow> bytes \<Rightarrow> itemEntry list res" where
  "parse_items msg buf = bindR (fst (r_u32 buf 96)) (\<lambda>nritems. parse_leaf msg buf 0 (unat nritems))"

section \<open>Layout\<close>

fun put_data :: "itemEntry list \<Rightarrow> nat \<Rightarrow> bytes \<Rightarrow> (nat \<times> bytes) res" where
  "put_data [] dataPos dst = Ok (dataPos, dst)"
| "put_data (it # its) dataPos dst =
     (if length (IE_data it) > dataPos then Panic
      else put_data its (dataPos - length (IE_data it)) (copy_at (dataPos - length (IE_data it)) (IE_data it) dst))"

definition item_header :: "key \<Rightarrow> nat \<Rightarrow> nat \<Rightarrow> bytes" where
  "item_header k curDataOff n =
     encodeKey k @ put32 (of_nat curDataOff - of_nat nodeHeaderSize) @ put32 (of_nat n)"

fun put_items :: "nat \<Rightarrow> nat \<Rightarrow> itemEntry list \<Rightarrow> bytes \<Rightarrow> bytes res" where
  "put_items i curDataOff [] dst = Ok dst"
| "put_items i curDataOff (it # its) dst =
     (let off = nodeHeaderSize + i * 25 in
      if off + 25 > length dst then Panic
      else put_items (Suc i) (curDataOff + length (IE_data it)) its
             (copy_at off (item_header (IE_k it) curDataOff (length (IE_data it))) dst))"

definition seal_node :: "nat \<Rightarrow> u64 \<Rightarrow> u64 \<Rightarrow> bytes \<Rightarrow> bytes" where
  "seal_node nritems generation logical dst0 =
     (let dst1 = copy_at 96 (put32 (of_nat nritems)) dst0;
          dst2 = copy_at 80 (put64 generation) dst1;
          dst3 = copy_at 48 (put64 logical) dst2
      in copy_at 0 (put32 (calcCrc32c (drop 32 dst3))) dst3)"

definition leaf_image :: "bytes \<Rightarrow> u64 \<Rightarrow> u64 \<Rightarrow> itemEntry list \<Rightarrow> bytes res" where
  "leaf_image buf generation leafLogical items =
     (if length buf < nodeHeaderSize then Panic
      else bindR (put_data (rev items) (length buf) (copy_at 0 (take nodeHeaderSize buf) (zeros (length buf))))
        (\<lambda>(dataPos, dst). bindR (put_items 0 dataPos items dst) (\<lambda>dst'.
        Ok (seal_node (length items) generation leafLogical dst'))))"

definition total_data :: "itemEntry list \<Rightarrow> nat" where
  "total_data items = sum_list (map (\<lambda>it. length (IE_data it)) items)"

definition leaf_needed :: "itemEntry list \<Rightarrow> nat" where
  "leaf_needed items = nodeHeaderSize + length items * 25 + total_data items"

section \<open>The layout in closed form\<close>

lemma total_data_simps [simp]:
  "total_data [] = 0" "total_data (it # its) = length (IE_data it) + total_data its"
  "total_data (xs @ ys) = total_data xs + total_data ys" "total_data (rev xs) = total_data xs"
  by (simp_all add: total_data_def sum_list_rev flip: rev_map)

lemma put_data_eq:
  "total_data its \<le> pos \<Longrightarrow> pos \<le> length dst \<Longrightarrow>
   put_data its pos dst =
     Ok (pos - total_data its, take (pos - total_data its) dst @ concat (map IE_data (rev its)) @ drop pos dst)"
proof (induction its arbitrary: pos dst)
  case (Cons it its)
  define p where "p = pos - length (IE_data it)"
  have p: "pos = p + length (IE_data it)" and tot: "total_data its \<le> p"
    using Cons.prems by (simp_all add: p_def)
  have "put_data its p (copy_at p (IE_data it) dst) =
      Ok (p - total_data its, take (p - total_data its) (copy_at p (IE_data it) dst) @
        concat (map IE_data (rev its)) @ drop p (copy_at p (IE_data it) dst))"
    using Cons.prems by (intro Cons.IH [OF tot]) (simp add: p)
  moreover have "take (p - total_data its) (copy_at p (IE_data it) dst) = take (p - total_data its) dst"
    using Cons.prems by (simp add: copy_at_def p min_def)
  moreover have "drop p (copy_at p (IE_data it) dst) = IE_data it @ drop pos dst"
    using Cons.prems by (simp add: copy_at_def p)
  moreover have "pos - total_data (it # its) = p - total_data its"
    by (simp add: p)
  ultimately show ?case
    using Cons.prems by (simp add: p del: total_data_simps(2))
qed simp

primrec item_headers :: "nat \<Rightarrow> itemEntry list \<Rightarrow> bytes" where
  "item_headers cur [] = []"
| "item_headers cur (it # its) =
     item_header (IE_k it) cur (length (IE_data it)) @ item_headers (cur + length (IE_data it)) its"

lemma length_item_header [simp, bytes_simps]: "length (item_header k cur n) = 25"
  by (simp add: item_header_def)

lemma length_item_headers [simp, bytes_simps]: "length (item_headers cur its) = 25 * length its"
  by (induction its arbitrary: cur) simp_all

lemma put_items_eq:
  "101 + i * 25 + 25 * length its \<le> length dst \<Longrightarrow>
   put_items i cur its dst =
     Ok (take (101 + i * 25) dst @ item_headers cur its @ drop (101 + i * 25 + 25 * length its) dst)"
proof (induction its arbitrary: i cur dst)
  case (Cons it its)
  define off where "off = 101 + i * 25"
  let ?h = "item_header (IE_k it) cur (length (IE_data it))"
  have off: "101 + Suc i * 25 = off + 25" by (simp add: off_def)
  have len: "off + 25 + 25 * length its \<le> length dst" using Cons.prems by (simp add: off_def)
  have "put_items (Suc i) (cur + length (IE_data it)) its (copy_at off ?h dst) =
      Ok (take (off + 25) (copy_at off ?h dst) @ item_headers (cur + length (IE_data it)) its @
        drop (off + 25 + 25 * length its) (copy_at off ?h dst))"
    using Cons.IH [of "Suc i" "copy_at off ?h dst" "cur + length (IE_data it)"] len unfolding off by simp
  moreover have "take (off + 25) (copy_at off ?h dst) = take off dst @ ?h"
    using len by (simp add: copy_at_def)
  moreover have "drop (off + 25 + 25 * length its) (copy_at off ?h dst) = drop (off + 25 + 25 * length its) dst"
    using len by (simp add: copy_at_def add.commute)
  ultimately have "put_items i cur (it # its) dst =
      Ok ((take off dst @ ?h) @ item_headers (cur + length (IE_data it)) its @ drop (off + 25 + 25 * length its) dst)"
    using len by (simp add: Let_def flip: off_def)
  moreover have "off + 25 + 25 * length its = off + 25 * length (it # its)" by simp
  ultimately show ?case by (simp only: item_headers.simps append.assoc flip: off_def)
qed simp

definition leaf_layout :: "bytes \<Rightarrow> itemEntry list \<Rightarrow> bytes" where
  "leaf_layout buf items =
     item_headers (length buf - total_data items) items @ zeros (length buf - leaf_needed items) @
     concat (map IE_data items)"

lemma length_concat_data [simp]: "length (concat (map IE_data its)) = total_data its"
  by (induction its) simp_all

lemma leaf_image_raw:
  assumes "leaf_needed items \<le> length buf"
  shows "leaf_image buf g l items = Ok (seal_node (length items) g l (take 101 buf @ leaf_layout buf items))"
proof -
  let ?n = "length buf" and ?t = "total_data items"
  have fit: "101 + length items * 25 + ?t \<le> ?n" using assms by (simp add: leaf_needed_def)
  define dst where "dst = take 101 buf @ zeros (?n - 101)"
  have dst: "copy_at 0 (take 101 buf) (zeros ?n) = dst"
    using fit by (simp add: copy_at_def dst_def zeros_def min_def)
  have len: "length dst = ?n" using fit by (simp add: dst_def)
  have "101 \<le> ?n - ?t" using fit by simp
  then have "take (?n - ?t) dst = take 101 buf @ zeros (?n - ?t - 101)"
    using fit by (simp add: dst_def zeros_def min.absorb1 min.absorb2)
  moreover have "drop (101 + 25 * length items) (take 101 buf @ zeros (?n - ?t - 101) @ concat (map IE_data items)) =
      zeros (?n - leaf_needed items) @ concat (map IE_data items)"
    using fit by (simp add: zeros_def leaf_needed_def algebra_simps)
  moreover have "take 101 (take 101 buf @ zeros (?n - ?t - 101) @ concat (map IE_data items)) = take 101 buf"
    using fit by simp
  ultimately show ?thesis
    using fit put_data_eq [of "rev items" ?n dst] put_items_eq [of 0 items "take (?n - ?t) dst @ concat (map IE_data items)" "?n - ?t"]
    by (simp add: leaf_image_def dst len leaf_layout_def)
qed

text \<open>Sealing a node touches the checksum, the address, the generation and the count only.\<close>

definition sealed_header :: "nat \<Rightarrow> u64 \<Rightarrow> u64 \<Rightarrow> bytes \<Rightarrow> bytes \<Rightarrow> bytes" where
  "sealed_header n g l hdr rest =
     (let b = bslice 32 48 hdr @ put64 l @ bslice 56 80 hdr @ put64 g @ bslice 88 96 hdr @ put32 (of_nat n) @ [hdr ! 100]
      in put32 (calcCrc32c (b @ rest)) @ bslice 4 32 hdr @ b)"

lemma copy_at_prefix: "off + length src \<le> length a \<Longrightarrow> copy_at off src (a @ b) = copy_at off src a @ b"
  by (simp add: copy_at_def)

lemma copy_at_pieces:
  "length a = off \<Longrightarrow> length b = length src \<Longrightarrow> copy_at off src (a @ b @ c) = a @ src @ c"
  by (simp add: copy_at_def)

lemma slice_split: "i \<le> j \<Longrightarrow> j \<le> length xs \<Longrightarrow> drop i xs = bslice i j xs @ drop j xs"
  by (metis bslice_def append_take_drop_id drop_drop le_add_diff_inverse2)

lemma header_pieces:
  assumes "length hdr = 101"
  shows "hdr = bslice 0 4 hdr @ bslice 4 32 hdr @ bslice 32 48 hdr @ bslice 48 56 hdr @ bslice 56 80 hdr @
    bslice 80 88 hdr @ bslice 88 96 hdr @ bslice 96 100 hdr @ [hdr ! 100]"
  using assms by (simp add: slice_join slice_join_append nth_slice_single del: append.assoc) (simp add: bslice_def)

lemma seal_node_eq:
  assumes "length hdr = 101"
  shows "seal_node n g l (hdr @ rest) = sealed_header n g l hdr rest @ rest"
proof -
  define p q r s t u v w x where defs: "p = bslice 0 4 hdr" "q = bslice 4 32 hdr" "r = bslice 32 48 hdr"
    "s = bslice 48 56 hdr" "t = bslice 56 80 hdr" "u = bslice 80 88 hdr" "v = bslice 88 96 hdr"
    "w = bslice 96 100 hdr" "x = [hdr ! 100]"
  have hdr: "hdr = p @ q @ r @ s @ t @ u @ v @ w @ x"
    unfolding defs by (rule header_pieces [OF assms])
  have len: "length p = 4" "length q = 28" "length r = 16" "length s = 8" "length t = 24" "length u = 8"
    "length v = 8" "length w = 4" "length x = 1"
    using assms by (simp_all add: defs)
  have 1: "copy_at 96 (put32 (of_nat n)) (hdr @ rest) = (p @ q @ r @ s @ t @ u @ v) @ put32 (of_nat n) @ x @ rest"
    unfolding hdr using len copy_at_pieces [of "p @ q @ r @ s @ t @ u @ v" 96 w "put32 (of_nat n)" "x @ rest"] by simp
  have 2: "copy_at 80 (put64 g) \<dots> = (p @ q @ r @ s @ t) @ put64 g @ v @ put32 (of_nat n) @ x @ rest"
    using len copy_at_pieces [of "p @ q @ r @ s @ t" 80 u "put64 g" "v @ put32 (of_nat n) @ x @ rest"] by simp
  have 3: "copy_at 48 (put64 l) \<dots> = p @ (q @ r @ put64 l @ t @ put64 g @ v @ put32 (of_nat n) @ x @ rest)"
    using len copy_at_pieces [of "p @ q @ r" 48 s "put64 l" "t @ put64 g @ v @ put32 (of_nat n) @ x @ rest"] by simp
  have 4: "drop 32 \<dots> = r @ put64 l @ t @ put64 g @ v @ put32 (of_nat n) @ x @ rest"
    using len by simp
  show ?thesis
    unfolding seal_node_def Let_def 1 2 3 4
    using len by (simp add: copy_at_def sealed_header_def Let_def flip: defs)
qed

lemma length_sealed_header [simp]: "length hdr = 101 \<Longrightarrow> length (sealed_header n g l hdr rest) = 101"
  by (simp add: sealed_header_def Let_def)

lemma sealed_header_fields:
  assumes "length hdr = 101"
  shows "get32 96 (sealed_header n g l hdr rest @ r) = of_nat n"
    and "get64 80 (sealed_header n g l hdr rest @ r) = g"
    and "get64 48 (sealed_header n g l hdr rest @ r) = l"
    and "(sealed_header n g l hdr rest @ r) ! 100 = hdr ! 100"
    and "get32 0 (sealed_header n g l hdr rest @ r) = calcCrc32c (drop 32 (sealed_header n g l hdr rest @ rest))"
proof -
  show "get32 96 (sealed_header n g l hdr rest @ r) = of_nat n"
    "get64 80 (sealed_header n g l hdr rest @ r) = g"
    "get64 48 (sealed_header n g l hdr rest @ r) = l"
    "(sealed_header n g l hdr rest @ r) ! 100 = hdr ! 100"
    using assms by (simp_all add: sealed_header_def Let_def bytes_simps nth_append)
  show "get32 0 (sealed_header n g l hdr rest @ r) = calcCrc32c (drop 32 (sealed_header n g l hdr rest @ rest))"
    using assms by (simp add: sealed_header_def Let_def get_hit)
qed

lemma leaf_image_eq:
  assumes "leaf_needed items \<le> length buf"
  shows "leaf_image buf g l items =
    Ok (sealed_header (length items) g l (take 101 buf) (leaf_layout buf items) @ leaf_layout buf items)"
  using assms seal_node_eq [of "take 101 buf"] by (simp add: leaf_image_raw leaf_needed_def min_def)

lemma length_leaf_layout: "leaf_needed items \<le> length buf \<Longrightarrow> length (leaf_layout buf items) = length buf - 101"
  by (simp add: leaf_layout_def leaf_needed_def)

section \<open>Reading back what was laid out\<close>

lemma unat_of_nat_u32: "n < 2 ^ 32 \<Longrightarrow> unat (of_nat n :: u32) = n"
  by (simp add: unat_of_nat take_bit_nat_eq_self)

lemma item_header_at:
  assumes "length pre = off"
  shows "item_at off (pre @ item_header k cur n @ rest) =
    \<lparr>LI_key = k, LI_offset = of_nat cur - 101, LI_size = of_nat n\<rparr>"
  using assms by (simp add: item_at_def key_at_def item_header_def encodeKey_def bytes_simps)

lemma unat_rel_off:
  assumes "101 \<le> cur" and "cur < 2 ^ 32"
  shows "unat (of_nat cur - 101 :: u32) = cur - 101"
proof -
  from assms(1) obtain k where k: "cur = 101 + k" by (metis le_iff_add)
  have "of_nat cur - 101 = (of_nat k :: u32)" by (simp add: k)
  moreover have "unat (of_nat k :: u32) = k" using assms(2) k by (intro unat_of_nat_u32) simp
  ultimately show ?thesis by (simp add: k)
qed

lemma parse_layout:
  assumes "length pre = 101 + i * 25" and "101 \<le> cur" and "length buf < 2 ^ 32"
    and "buf = pre @ item_headers cur its @ mid" and "cur + total_data its \<le> length buf"
    and "bslice cur (cur + total_data its) buf = concat (map IE_data its)"
  shows "parse_leaf msg buf i (length its) = Ok its"
  using assms
proof (induction its arbitrary: pre i cur)
  case (Cons it its)
  let ?h = "item_header (IE_k it) cur (length (IE_data it))"
  let ?n = "length (IE_data it)"
  have buf: "buf = pre @ ?h @ item_headers (cur + ?n) its @ mid" using Cons.prems(4) by simp
  have at: "item_at (101 + i * 25) buf = \<lparr>LI_key = IE_k it, LI_offset = of_nat cur - 101, LI_size = of_nat ?n\<rparr>"
    unfolding buf by (rule item_header_at) (rule Cons.prems(1))
  have off: "101 + unat (of_nat cur - 101 :: u32) = cur"
    using Cons.prems(2,3,5) by (subst unat_rel_off) simp_all
  have n: "unat (of_nat ?n :: u32) = ?n"
    using Cons.prems(3,5) by (intro unat_of_nat_u32) simp
  have room: "101 + i * 25 + 25 \<le> length buf" using Cons.prems(1) by (simp add: buf)
  have all: "bslice cur (cur + ?n + total_data its) buf = IE_data it @ concat (map IE_data its)"
    using Cons.prems(6) by (simp add: add.assoc)
  have data: "bslice cur (cur + ?n) buf = IE_data it"
    using arg_cong [OF all, of "take ?n"] by (simp add: bslice_def)
  have rest: "bslice (cur + ?n) (cur + ?n + total_data its) buf = concat (map IE_data its)"
    using arg_cong [OF all, of "drop ?n"] by (simp add: bslice_def drop_take add.commute)
  have "parse_leaf msg buf (Suc i) (length its) = Ok its"
    by (rule Cons.IH [of "pre @ ?h" "Suc i" "cur + ?n"]) (use Cons.prems rest buf in \<open>simp_all add: add.assoc\<close>)
  with at off n room data Cons.prems(5) show ?case
    by (simp add: Let_def)
qed simp

text \<open>What the writer parses is what the walk sees.\<close>

definition tree_entry :: "tree_item \<Rightarrow> itemEntry" where
  "tree_entry x = entry (LI_key (fst x)) (snd x)"

lemma parse_leaf_node_items:
  "parse_leaf msg buf i n = Ok es \<Longrightarrow> length es = n \<Longrightarrow> length buf < 2 ^ 32 \<Longrightarrow>
   \<exists>its. node_items buf n (101 + i * 25) = Some its \<and> map tree_entry its = es"
proof (induction n arbitrary: i es)
  case (Suc n)
  define off where "off = 101 + i * 25"
  let ?item = "item_at off buf"
  let ?di = "101 + unat (LI_offset ?item)" and ?n = "unat (LI_size ?item)"
  have room: "off + 25 \<le> length buf"
    using Suc.prems(1,2) by (auto simp: Let_def off_def split: if_splits)
  have bound: "?di + ?n \<le> length buf"
    using Suc.prems(1) room by (auto simp: Let_def off_def split: if_splits)
  obtain es' where es': "parse_leaf msg buf (Suc i) n = Ok es'"
      and es: "es = entry (LI_key ?item) (bslice ?di (?di + ?n) buf) # es'"
    using Suc.prems(1) room bound by (auto simp: Let_def off_def split: res.splits)
  obtain its where its: "node_items buf n (off + 25) = Some its" "map tree_entry its = es'"
    using Suc.IH [OF es'] Suc.prems(2,3) es by (auto simp: off_def algebra_simps)
  have s: "unat (101 + LI_offset ?item) = ?di"
    using bound Suc.prems(3) by (subst unat_add_lem [THEN iffD1]) simp_all
  have e: "unat (101 + LI_offset ?item + LI_size ?item) = ?di + ?n"
    using bound Suc.prems(3) s by (subst unat_add_lem [THEN iffD1]) simp_all
  have "item_data buf ?item = Ok (bslice ?di (?di + ?n) buf)"
    using bound Suc.prems(3) s e
    by (simp add: item_data_def Let_def word_less_nat_alt unat_of_nat_u32 goslice_def)
  with room its es show ?case
    by (auto simp: off_def [symmetric] tree_entry_def)
qed simp

lemma leaf_image_parse:
  assumes "leaf_needed items \<le> length buf" and "length buf < 2 ^ 32"
  obtains img where "leaf_image buf g l items = Ok img" and "length img = length buf"
    and "parse_items msg img = Ok items" and "unat (get32 96 img) = length items"
    and "img ! 100 = buf ! 100" and "get64 48 img = l" and "get64 80 img = g"
    and "get32 0 img = calcCrc32c (drop 32 img)"
proof
  let ?hdr = "sealed_header (length items) g l (take 101 buf) (leaf_layout buf items)"
  let ?img = "?hdr @ leaf_layout buf items"
  have fit: "101 + length items * 25 + total_data items \<le> length buf"
    using assms(1) by (simp add: leaf_needed_def)
  have h: "length (take 101 buf) = 101" using fit by simp
  show "leaf_image buf g l items = Ok ?img" by (rule leaf_image_eq [OF assms(1)])
  show len: "length ?img = length buf"
    using h fit by (simp add: length_leaf_layout [OF assms(1)])
  show n: "unat (get32 96 ?img) = length items"
    using fit assms(2) by (simp only: sealed_header_fields [OF h]) (rule unat_of_nat_u32, simp)
  show "?img ! 100 = buf ! 100" using sealed_header_fields(4) [OF h] fit by simp
  show "get64 48 ?img = l" "get64 80 ?img = g" "get32 0 ?img = calcCrc32c (drop 32 ?img)"
    by (simp_all only: sealed_header_fields [OF h])
  define cur where "cur = length buf - total_data items"
  have img: "?img = ?hdr @ item_headers cur items @ zeros (length buf - leaf_needed items) @ concat (map IE_data items)"
    by (simp add: leaf_layout_def cur_def)
  have cur: "cur + total_data items = length buf" using fit by (simp add: cur_def)
  have at: "drop cur ?img = concat (map IE_data items)"
    unfolding img using fit h by (simp add: cur_def leaf_needed_def)
  have "parse_leaf msg ?img 0 (length items) = Ok items"
  proof (rule parse_layout)
    show "length ?hdr = 101 + 0 * 25" using h by simp
    show "?img = ?hdr @ item_headers cur items @ zeros (length buf - leaf_needed items) @ concat (map IE_data items)"
      by (rule img)
    show "bslice cur (cur + total_data items) ?img = concat (map IE_data items)"
      unfolding bslice_def at by simp
    show "101 \<le> cur" "length ?img < 2 ^ 32" "cur + total_data items \<le> length ?img"
      using fit cur len assms(2) by linarith+
  qed
  then show "parse_items msg ?img = Ok items"
    using n len fit by (simp add: parse_items_def r_u32_def)
qed

end
