(* ===== verification/Btrfs_Update.thy ===== *)
theory Btrfs_Update
  imports Btrfs_Leaf
begin

text \<open>
  The mounted file system and the tree updates of \<open>btrfs/writer.go\<close>: descent to a leaf, insertion
  with leaf, node and root splits, deletion and update in place, and the allocation of space by
  the gaps between the extents in use.

  Splitting a node registers the new block in the extent tree by an insertion of its own, so the
  insertion is recursive: \<open>insert_within\<close> takes the number of nested calls, the functions it calls
  take the registration as an argument, and \<open>insertIntoLeaf\<close> ties the knot. \<open>stack_depth\<close> bounds
  the nesting of every recursion over the trees; a tree whose level bytes decrease has at most
  256 levels.
\<close>

section \<open>State\<close>

record BtrfsFS =
  B_dev :: dev
  B_sb :: BtrfsSuper
  B_tc :: treeContext
  B_fsRoot :: u64
  B_fsRootLvl :: u8
  B_extentRoot :: u64
  B_extentRootLvl :: u8
  B_rootInode :: u64
  B_pathCache :: "bytes \<rightharpoonup> u64"

definition stack_depth :: nat where "stack_depth = 1000000"

definition onBdev :: "(dev, 'a) op \<Rightarrow> (BtrfsFS, 'a) op" where
  "onBdev m b = (case m (B_dev b) of (r, d) \<Rightarrow> (r, b\<lparr>B_dev := d\<rparr>))"

definition nodeSize :: "BtrfsFS \<Rightarrow> nat" where
  "nodeSize b = unat (Sb_NodeSize (B_sb b))"

definition resolveB :: "u64 \<Rightarrow> (BtrfsFS, u64) op" where
  "resolveB addr b = (resolve (B_tc b) addr, b)"

text \<open>A walk whose error is handed to the caller, next to the captured variables.\<close>

definition walk_with ::
    "u64 \<Rightarrow> (leafItem \<Rightarrow> bytes \<Rightarrow> ('a, unit) op) \<Rightarrow> 'a \<Rightarrow> (BtrfsFS, goerr option \<times> 'a) op" where
  "walk_with root f a b =
     (case walkTree stack_depth (collecting f) root (B_dev b, B_tc b, a) of (r, (d, tc, a')) \<Rightarrow>
        (case r of Ok _ \<Rightarrow> Ok (None, a') | Err e \<Rightarrow> Ok (Some e, a') | Panic \<Rightarrow> Panic,
         b\<lparr>B_dev := d, B_tc := tc\<rparr>))"

definition walkFSTree :: "(leafItem \<Rightarrow> bytes \<Rightarrow> ('a, unit) op) \<Rightarrow> 'a \<Rightarrow> (BtrfsFS, goerr option \<times> 'a) op" where
  "walkFSTree f a b = walk_with (B_fsRoot b) f a b"

definition walkExtentTree :: "(leafItem \<Rightarrow> bytes \<Rightarrow> ('a, unit) op) \<Rightarrow> 'a \<Rightarrow> (BtrfsFS, goerr option \<times> 'a) op" where
  "walkExtentTree f a b =
     (if B_extentRoot b = 0 then (Ok (Some (Errorf ''btrfs: extent tree not loaded''), a), b)
      else walk_with (B_extentRoot b) f a b)"

section \<open>Descent\<close>

text \<open>The last pointer whose key is not above \<open>k\<close>, or the first one.\<close>

fun best_ptr :: "key \<Rightarrow> bytes \<Rightarrow> nat \<Rightarrow> nat \<Rightarrow> nat \<Rightarrow> u64 \<times> nat \<Rightarrow> (u64 \<times> nat) res" where
  "best_ptr k buf i 0 off best = Ok best"
| "best_ptr k buf i (Suc n) off best =
     bindR (fst (decodeInternalPtr buf off)) (\<lambda>p.
       best_ptr k buf (Suc i) n (off + 33)
         (if i = 0 \<or> \<not> key_less k (IP_key p) then (IP_blockptr p, i) else best))"

primrec findLeaf_within :: "nat \<Rightarrow> u64 \<Rightarrow> u8 \<Rightarrow> key \<Rightarrow> (BtrfsFS, u64) op" where
  "findLeaf_within 0 root lvl k = panic"
| "findLeaf_within (Suc depth) root lvl k =
     (if lvl = 0 then ret root
      else
        andThen (resolveB root) (\<lambda>phys.
        andThen (getS (\<lambda>b. Sb_NodeSize (B_sb b))) (\<lambda>ns.
        andThen (onBdev (readNode phys ns)) (\<lambda>buf.
        andThen (liftR (fst (decodeNodeHeader buf 0))) (\<lambda>h.
        if NH_level h = 0 then ret root
        else
          andThen (liftR (best_ptr k buf 0 (unat (NH_nritems h)) nodeHeaderSize (0, 0))) (\<lambda>(bestPtr, _).
          if bestPtr = 0 then ret root
          else findLeaf_within depth bestPtr (NH_level h - 1) k))))))"

definition findLeaf :: "u64 \<Rightarrow> u8 \<Rightarrow> key \<Rightarrow> (BtrfsFS, u64) op" where
  "findLeaf = findLeaf_within stack_depth"

definition resolveLeaf :: "u64 \<Rightarrow> key \<Rightarrow> (BtrfsFS, u64) op" where
  "resolveLeaf logicalAddr k b =
     (if logicalAddr = B_fsRoot b then findLeaf logicalAddr (B_fsRootLvl b) k b
      else if logicalAddr = B_extentRoot b then findLeaf logicalAddr (B_extentRootLvl b) k b
      else if logicalAddr = Sb_ChunkRoot (B_sb b) then findLeaf logicalAddr (Sb_ChunkRootLevel (B_sb b)) k b
      else ret logicalAddr b)"

record pathElement =
  PE_logical :: u64
  PE_phys :: u64
  PE_level :: u8
  PE_index :: int

definition path_leaf :: "u64 \<Rightarrow> pathElement list \<Rightarrow> (BtrfsFS, pathElement list) op" where
  "path_leaf node path =
     andThen (resolveB node) (\<lambda>physLeaf.
     ret (path @ [\<lparr>PE_logical = node, PE_phys = physLeaf, PE_level = 0, PE_index = -1\<rparr>]))"

primrec path_loop :: "nat \<Rightarrow> u64 \<Rightarrow> key \<Rightarrow> pathElement list \<Rightarrow> (BtrfsFS, pathElement list) op" where
  "path_loop 0 node k path = path_leaf node path"
| "path_loop (Suc l) node k path =
     andThen (resolveB node) (\<lambda>phys.
     andThen (getS (\<lambda>b. Sb_NodeSize (B_sb b))) (\<lambda>ns.
     andThen (onBdev (readNode phys ns)) (\<lambda>buf.
     andThen (liftR (fst (decodeNodeHeader buf 0))) (\<lambda>h.
     andThen (liftR (best_ptr k buf 0 (unat (NH_nritems h)) nodeHeaderSize (0, 0))) (\<lambda>(bestPtr, bestIdx).
     let path' = path @ [\<lparr>PE_logical = node, PE_phys = phys, PE_level = of_nat (Suc l), PE_index = int bestIdx\<rparr>] in
     if bestPtr = 0 then path_leaf node path' else path_loop l bestPtr k path')))))"

definition findLeafWithPath :: "u64 \<Rightarrow> u8 \<Rightarrow> key \<Rightarrow> (BtrfsFS, pathElement list) op" where
  "findLeafWithPath root lvl k = path_loop (unat lvl) root k []"

definition root_level :: "u64 \<Rightarrow> BtrfsFS \<Rightarrow> u8" where
  "root_level addr b =
     (if addr = B_fsRoot b then B_fsRootLvl b
      else if addr = B_extentRoot b then B_extentRootLvl b
      else if addr = Sb_ChunkRoot (B_sb b) then Sb_ChunkRootLevel (B_sb b)
      else 0)"

section \<open>Allocation\<close>

type_synonym extentRange = "u64 \<times> u64"

definition extent_callback :: "u32 \<Rightarrow> leafItem \<Rightarrow> bytes \<Rightarrow> (extentRange list, unit) op" where
  "extent_callback ns item data occupied =
     (Ok (),
      if K_typ (LI_key item) = BTRFS_EXTENT_ITEM_KEY
      then occupied @ [(K_objectid (LI_key item), K_offset (LI_key item))]
      else if K_typ (LI_key item) = 169
      then occupied @ [(K_objectid (LI_key item), ucast ns)]
      else occupied)"

definition file_extent_callback :: "leafItem \<Rightarrow> bytes \<Rightarrow> (extentRange list, unit) op" where
  "file_extent_callback item data occupied =
     (Ok (),
      if K_typ (LI_key item) = BTRFS_EXTENT_DATA_KEY \<and> 45 \<le> length data \<and>
         data ! 20 \<noteq> BTRFS_FILE_EXTENT_INLINE \<and> 0 < get64 21 data \<and> 0 < get64 29 data
      then occupied @ [(get64 21 data, get64 29 data)]
      else occupied)"

definition align_sector :: "u64 \<Rightarrow> u64 \<Rightarrow> u64" where
  "align_sector sectorSize n = ((n + sectorSize - 1) div sectorSize) * sectorSize"

fun find_gap :: "u64 \<Rightarrow> u64 \<Rightarrow> u64 \<Rightarrow> extentRange list \<Rightarrow> u64" where
  "find_gap sectorSize alignedSize candidate [] = candidate"
| "find_gap sectorSize alignedSize candidate ((logical, len) # occ) =
     (if logical + len \<le> candidate then find_gap sectorSize alignedSize candidate occ
      else if logical \<ge> candidate + alignedSize then candidate
      else find_gap sectorSize alignedSize (align_sector sectorSize (logical + len)) occ)"

definition sector_size :: "BtrfsFS \<Rightarrow> u64" where
  "sector_size b = (let s = ucast (Sb_SectorSize (B_sb b)) in if s = 0 then 4096 else s)"

definition target_chunk :: "u64 \<Rightarrow> chunkMapping list \<Rightarrow> chunkMapping option" where
  "target_chunk bgType cs =
     (case filter (\<lambda>c. CM_flags c AND bgType \<noteq> 0) cs of
        c # _ \<Rightarrow> Some c
      | [] \<Rightarrow> (case cs of c # _ \<Rightarrow> Some c | [] \<Rightarrow> None))"

definition allocateSpace :: "u64 \<Rightarrow> u64 \<Rightarrow> (BtrfsFS, u64 \<times> u64) op" where
  "allocateSpace sz bgType =
     andThen (getS (\<lambda>b. target_chunk bgType (TC_chunks (B_tc b)))) (\<lambda>target.
     case target of
       None \<Rightarrow> failw (Errorf ''btrfs: no chunk mappings found for allocation'')
     | Some targetChunk \<Rightarrow>
         andThen (getS (\<lambda>b. Sb_NodeSize (B_sb b))) (\<lambda>ns.
         andThen (walkExtentTree (extent_callback ns) []) (\<lambda>(_, occ1).
         andThen (walkFSTree file_extent_callback occ1) (\<lambda>(_, occ2).
         andThen (getS sector_size) (\<lambda>sectorSize.
         let occupied = sort_key fst occ2;
             alignedSize = align_sector sectorSize sz;
             candidate = find_gap sectorSize alignedSize (CM_logical targetChunk) occupied
         in if candidate + alignedSize \<le> CM_logical targetChunk + CM_length targetChunk
            then ret (candidate, CM_physical targetChunk + (candidate - CM_logical targetChunk))
            else failw (Errorf ''btrfs: out of disk space in block group %d''))))))"

section \<open>Writing nodes\<close>

definition generation :: "BtrfsFS \<Rightarrow> u64" where
  "generation b = Sb_Generation (B_sb b)"

definition writeItemsToLeaf :: "u64 \<Rightarrow> itemEntry list \<Rightarrow> nat \<Rightarrow> (BtrfsFS, unit) op" where
  "writeItemsToLeaf leafLogical items bs =
     andThen (resolveB leafLogical) (\<lambda>physAddr.
     andThen (attempt (onBdev (readBuf bs (sint physAddr)))) (\<lambda>old.
     let buf = (case old of Some b \<Rightarrow> b | None \<Rightarrow> zeros bs) in
     andThen (getS generation) (\<lambda>g.
     andThen (liftR (leaf_image buf g leafLogical items)) (\<lambda>dst.
     onBdev (writeBuf dst (sint physAddr))))))"

definition ptr_bytes :: "key \<Rightarrow> u64 \<Rightarrow> u64 \<Rightarrow> bytes" where
  "ptr_bytes k blockptr g = encodeKey k @ put64 blockptr @ put64 g"

fun put_ptrs :: "nat \<Rightarrow> u64 \<Rightarrow> internalKeyPtr list \<Rightarrow> bytes \<Rightarrow> bytes res" where
  "put_ptrs i g [] dst = Ok dst"
| "put_ptrs i g (p # ps) dst =
     (let off = nodeHeaderSize + i * 33 in
      if off + 33 > length dst then Panic
      else put_ptrs (Suc i) g ps (copy_at off (ptr_bytes (IP_key p) (IP_blockptr p) g) dst))"

definition put_csum :: "bytes \<Rightarrow> bytes" where
  "put_csum dst = copy_at 0 (put32 (calcCrc32c (drop 32 dst))) dst"

definition node_image :: "bytes \<Rightarrow> u64 \<Rightarrow> u64 \<Rightarrow> u8 \<Rightarrow> internalKeyPtr list \<Rightarrow> bytes res" where
  "node_image dst0 g logical level ptrs =
     (if length dst0 < nodeHeaderSize then Panic
      else
        let dst1 = copy_at 96 (put32 (of_nat (length ptrs))) dst0;
            dst2 = copy_at 100 [level] dst1;
            dst3 = copy_at 80 (put64 g) dst2;
            dst4 = copy_at 48 (put64 logical) dst3
        in mapR put_csum (put_ptrs 0 g ptrs dst4))"

definition writePointersToNode :: "u64 \<Rightarrow> internalKeyPtr list \<Rightarrow> u8 \<Rightarrow> nat \<Rightarrow> (BtrfsFS, unit) op" where
  "writePointersToNode logical ptrs level bs =
     andThen (resolveB logical) (\<lambda>phys.
     andThen (attempt (onBdev (readNode phys (of_nat bs)))) (\<lambda>old.
     let dst0 = (case old of Some buf \<Rightarrow> copy_at 0 (take nodeHeaderSize buf) (zeros bs) | None \<Rightarrow> zeros bs) in
     andThen (getS generation) (\<lambda>g.
     andThen (liftR (node_image dst0 g logical level ptrs)) (\<lambda>dst.
     onBdev (writeBuf dst (sint phys))))))"

definition getNodeFirstKey :: "u64 \<Rightarrow> nat \<Rightarrow> (BtrfsFS, key) op" where
  "getNodeFirstKey logical bs =
     andThen (resolveB logical) (\<lambda>phys.
     andThen (onBdev (readNode phys (of_nat bs))) (\<lambda>buf.
     andThen (liftR (fst (decodeNodeHeader buf 0))) (\<lambda>h.
     if NH_nritems h = 0 then ret (Key 0 0 0)
     else if NH_level h = 0
     then andThen (liftR (fst (decodeLeafItem buf nodeHeaderSize))) (\<lambda>item. ret (LI_key item))
     else andThen (liftR (fst (decodeInternalPtr buf nodeHeaderSize))) (\<lambda>ptr. ret (IP_key ptr)))))"

section \<open>Splits\<close>

definition root_image :: "nat \<Rightarrow> u8 \<Rightarrow> u64 \<Rightarrow> u64 \<Rightarrow> key \<Rightarrow> u64 \<Rightarrow> internalKeyPtr \<Rightarrow> bytes res" where
  "root_image bs level g newRootLogical leftKey rootAddr splitPtr =
     (if bs < nodeHeaderSize + 66 then Panic
      else
        let dst1 = copy_at 96 (put32 2) (zeros bs);
            dst2 = copy_at 100 [level] dst1;
            dst3 = copy_at 80 (put64 g) dst2;
            dst4 = copy_at 48 (put64 newRootLogical) dst3;
            dst5 = copy_at 112 (put64 5) dst4;
            dst6 = copy_at nodeHeaderSize (ptr_bytes leftKey rootAddr g) dst5;
            dst7 = copy_at (nodeHeaderSize + 33) (ptr_bytes (IP_key splitPtr) (IP_blockptr splitPtr) g) dst6
        in Ok (put_csum dst7))"

definition new_root_level :: "u64 \<Rightarrow> BtrfsFS \<Rightarrow> u8" where
  "new_root_level rootAddr b =
     (if rootAddr = B_fsRoot b then B_fsRootLvl b + 1
      else if rootAddr = B_extentRoot b then B_extentRootLvl b + 1
      else if rootAddr = Sb_ChunkRoot (B_sb b) then Sb_ChunkRootLevel (B_sb b) + 1
      else 1)"

definition set_root :: "u64 \<Rightarrow> u64 \<Rightarrow> BtrfsFS \<Rightarrow> BtrfsFS" where
  "set_root rootAddr newRoot b =
     (if rootAddr = B_fsRoot b
      then b\<lparr>B_fsRoot := newRoot, B_fsRootLvl := B_fsRootLvl b + 1\<rparr>
      else if rootAddr = B_extentRoot b
      then b\<lparr>B_extentRoot := newRoot, B_extentRootLvl := B_extentRootLvl b + 1\<rparr>
      else if rootAddr = Sb_ChunkRoot (B_sb b)
      then b\<lparr>B_sb := (B_sb b)\<lparr>Sb_ChunkRoot := newRoot, Sb_ChunkRootLevel := Sb_ChunkRootLevel (B_sb b) + 1\<rparr>\<rparr>
      else b)"

definition newRoot_op ::
    "(u64 \<Rightarrow> u64 \<Rightarrow> (BtrfsFS, unit) op) \<Rightarrow> u64 \<Rightarrow> internalKeyPtr \<Rightarrow> nat \<Rightarrow> (BtrfsFS, unit) op" where
  "newRoot_op reg rootAddr splitPtr bs =
     andThen (allocateSpace (of_nat bs) BTRFS_BLOCK_GROUP_METADATA) (\<lambda>(newRootLogical, newRootPhys).
     andThen (getS (new_root_level rootAddr)) (\<lambda>level.
     andThen (attempt (getNodeFirstKey rootAddr bs)) (\<lambda>leftKey.
     andThen (getS generation) (\<lambda>g.
     andThen (liftR (root_image bs level g newRootLogical
        (case leftKey of Some k \<Rightarrow> k | None \<Rightarrow> Key 0 0 0) rootAddr splitPtr)) (\<lambda>dst.
     andThen (onBdev (writeBuf dst (sint newRootPhys))) (\<lambda>_.
     andThen (attempt (reg newRootLogical (of_nat bs))) (\<lambda>_.
     modS (set_root rootAddr newRootLogical))))))))"

primrec ptrs_loop :: "bytes \<Rightarrow> nat \<Rightarrow> nat \<Rightarrow> internalKeyPtr list res" where
  "ptrs_loop buf 0 off = Ok []"
| "ptrs_loop buf (Suc n) off =
     bindR (fst (decodeInternalPtr buf off)) (\<lambda>p. bindR (ptrs_loop buf n (off + 33)) (\<lambda>ps. Ok (p # ps)))"

definition insert_ptr :: "internalKeyPtr \<Rightarrow> internalKeyPtr list \<Rightarrow> internalKeyPtr list" where
  "insert_ptr p ptrs =
     (let insertIdx = length (takeWhile (\<lambda>q. key_less (IP_key q) (IP_key p)) ptrs)
      in take insertIdx ptrs @ [p] @ drop insertIdx ptrs)"

text \<open>\<open>insertPtrIntoParent\<close>: the path comes leaf end first, so that \<open>path[:len(path)-1]\<close> is the tail.\<close>

primrec insertPtrIntoParent ::
    "(u64 \<Rightarrow> u64 \<Rightarrow> (BtrfsFS, unit) op) \<Rightarrow> u64 \<Rightarrow> nat \<Rightarrow> pathElement list \<Rightarrow> internalKeyPtr \<Rightarrow> (BtrfsFS, unit) op" where
  "insertPtrIntoParent reg rootAddr bs [] splitPtr = newRoot_op reg rootAddr splitPtr bs"
| "insertPtrIntoParent reg rootAddr bs (parent # rest) splitPtr =
     andThen (resolveB (PE_logical parent)) (\<lambda>phys.
     andThen (onBdev (readNode phys (of_nat bs))) (\<lambda>buf.
     andThen (liftR (fst (decodeNodeHeader buf 0))) (\<lambda>h.
     andThen (liftR (ptrs_loop buf (unat (NH_nritems h)) nodeHeaderSize)) (\<lambda>ptrs.
     let newPtrs = insert_ptr splitPtr ptrs in
     if nodeHeaderSize + length newPtrs * 33 > bs then
       andThen (allocateSpace (of_nat bs) BTRFS_BLOCK_GROUP_METADATA) (\<lambda>(newParentLogical, _).
       let mid = length newPtrs div 2; leftPointers = take mid newPtrs; rightPointers = drop mid newPtrs in
       andThen (writePointersToNode (PE_logical parent) leftPointers (PE_level parent) bs) (\<lambda>_.
       andThen (writePointersToNode newParentLogical rightPointers (PE_level parent) bs) (\<lambda>_.
       andThen (attempt (reg newParentLogical (of_nat bs))) (\<lambda>_.
       insertPtrIntoParent reg rootAddr bs rest
         \<lparr>IP_key = IP_key (hd rightPointers), IP_blockptr = newParentLogical, IP_generation = 0\<rparr>))))
     else writePointersToNode (PE_logical parent) newPtrs (PE_level parent) bs))))"

definition splitLeafWithPath ::
    "(u64 \<Rightarrow> u64 \<Rightarrow> (BtrfsFS, unit) op) \<Rightarrow> pathElement list \<Rightarrow> u64 \<Rightarrow> itemEntry list \<Rightarrow> nat \<Rightarrow> (BtrfsFS, unit) op" where
  "splitLeafWithPath reg path rootAddr all bs =
     andThen (wrapErr ''btrfs: split leaf: fail to allocate node: %w''
        (allocateSpace (of_nat bs) BTRFS_BLOCK_GROUP_METADATA)) (\<lambda>(newLeafLogical, _).
     let mid = length all div 2; leftItems = take mid all; rightItems = drop mid all in
     andThen (writeItemsToLeaf (PE_logical (last path)) leftItems bs) (\<lambda>_.
     andThen (writeItemsToLeaf newLeafLogical rightItems bs) (\<lambda>_.
     andThen (attempt (reg newLeafLogical (of_nat bs))) (\<lambda>_.
     insertPtrIntoParent reg rootAddr bs (rev (butlast path))
       \<lparr>IP_key = IE_k (hd rightItems), IP_blockptr = newLeafLogical, IP_generation = 0\<rparr>))))"

section \<open>Insertion, deletion, update\<close>

definition insert_entry :: "key \<Rightarrow> bytes \<Rightarrow> itemEntry list \<Rightarrow> itemEntry list" where
  "insert_entry k data items =
     (let insertIdx = length (takeWhile (\<lambda>it. key_less (IE_k it) k) items)
      in take insertIdx items @ [entry k data] @ drop insertIdx items)"

definition registerExtent_with ::
    "(u64 \<Rightarrow> key \<Rightarrow> bytes \<Rightarrow> (BtrfsFS, unit) op) \<Rightarrow> u64 \<Rightarrow> u64 \<Rightarrow> (BtrfsFS, unit) op" where
  "registerExtent_with ins logicalAddr len b =
     (if B_extentRoot b = 0 then ret () b
      else ins (B_extentRoot b) (Key logicalAddr BTRFS_EXTENT_ITEM_KEY len)
        (put64 1 @ put64 (generation b) @ put64 1) b)"

primrec insert_within :: "nat \<Rightarrow> u64 \<Rightarrow> key \<Rightarrow> bytes \<Rightarrow> (BtrfsFS, unit) op" where
  "insert_within 0 logicalAddr k itemData = panic"
| "insert_within (Suc depth) logicalAddr k itemData =
     andThen (getS (root_level logicalAddr)) (\<lambda>lvl.
     andThen (findLeafWithPath logicalAddr lvl k) (\<lambda>path.
     andThen (getS nodeSize) (\<lambda>bs.
     andThen (wrapErr ''btrfs: read leaf: %w'' (onBdev (readBuf bs (sint (PE_phys (last path)))))) (\<lambda>buf.
     andThen (liftR (parse_items ''btrfs: item %d data at %d+%d out of bounds'' buf)) (\<lambda>items.
     if length items \<ge> 0xFFF0 then failw (Errorf ''btrfs: leaf full'')
     else
       let all = insert_entry k itemData items in
       if leaf_needed all > bs
       then splitLeafWithPath (registerExtent_with (insert_within depth)) path logicalAddr all bs
       else
         andThen (getS generation) (\<lambda>g.
         andThen (liftR (leaf_image buf g (PE_logical (last path)) all)) (\<lambda>dst.
         wrapErr ''btrfs: write leaf: %w'' (onBdev (writeBuf dst (sint (PE_phys (last path)))))))))))) "

definition insertIntoLeaf :: "u64 \<Rightarrow> key \<Rightarrow> bytes \<Rightarrow> (BtrfsFS, unit) op" where
  "insertIntoLeaf = insert_within stack_depth"

definition registerExtent :: "u64 \<Rightarrow> u64 \<Rightarrow> (BtrfsFS, unit) op" where
  "registerExtent = registerExtent_with insertIntoLeaf"

text \<open>The part that deletion and update share: find the leaf, parse it, change the list, write it back.\<close>

definition rewrite_leaf :: "u64 \<Rightarrow> key \<Rightarrow> (nat \<Rightarrow> itemEntry list \<Rightarrow> itemEntry list res) \<Rightarrow> (BtrfsFS, unit) op" where
  "rewrite_leaf logicalAddr k change =
     andThen (resolveLeaf logicalAddr k) (\<lambda>leafLogical.
     andThen (resolveB leafLogical) (\<lambda>physAddr.
     andThen (getS nodeSize) (\<lambda>bs.
     andThen (wrapErr ''btrfs: read leaf: %w'' (onBdev (readBuf bs (sint physAddr)))) (\<lambda>buf.
     andThen (liftR (parse_items ''btrfs: item %d data out of bounds'' buf)) (\<lambda>items.
     andThen (liftR (change bs items)) (\<lambda>all.
     andThen (getS generation) (\<lambda>g.
     andThen (liftR (leaf_image buf g leafLogical all)) (\<lambda>dst.
     wrapErr ''btrfs: write leaf: %w'' (onBdev (writeBuf dst (sint physAddr)))))))))))"

text \<open>The index of the last item with the key, as the scans of the two functions leave it.\<close>

primrec last_index :: "key \<Rightarrow> itemEntry list \<Rightarrow> nat option" where
  "last_index k [] = None"
| "last_index k (it # its) =
     (case last_index k its of Some i \<Rightarrow> Some (Suc i) | None \<Rightarrow> if IE_k it = k then Some 0 else None)"

definition delete_entry :: "key \<Rightarrow> itemEntry list \<Rightarrow> itemEntry list res" where
  "delete_entry k items =
     (case last_index k items of
        None \<Rightarrow> Err (Errorf ''btrfs: key not found for deletion: %+v'')
      | Some i \<Rightarrow> Ok (take i items @ drop (Suc i) items))"

definition update_entry :: "key \<Rightarrow> bytes \<Rightarrow> nat \<Rightarrow> itemEntry list \<Rightarrow> itemEntry list res" where
  "update_entry k itemData bs items =
     (case last_index k items of
        None \<Rightarrow> Err (Errorf ''btrfs: key not found for update: %+v'')
      | Some i \<Rightarrow>
          (let items' = items[i := (items ! i)\<lparr>IE_data := itemData\<rparr>] in
           if leaf_needed items' > bs
           then Err (Errorf ''btrfs: leaf has no space for update (need %d, have %d)'')
           else Ok items'))"

definition deleteFromLeaf :: "u64 \<Rightarrow> key \<Rightarrow> (BtrfsFS, unit) op" where
  "deleteFromLeaf logicalAddr k = rewrite_leaf logicalAddr k (\<lambda>bs. delete_entry k)"

definition updateInLeaf :: "u64 \<Rightarrow> key \<Rightarrow> bytes \<Rightarrow> (BtrfsFS, unit) op" where
  "updateInLeaf logicalAddr k itemData = rewrite_leaf logicalAddr k (update_entry k itemData)"

definition btrfs_writeSuperBlock :: "(BtrfsFS, unit) op" where
  "btrfs_writeSuperBlock = andThen (getS B_sb) (\<lambda>sb. onBdev (write_super sb))"

end
