(* ===== verification/Btrfs_Fs.thy ===== *)
theory Btrfs_Fs
  imports Btrfs_Update Btrfs_Compress Fs_Api
begin

text \<open>
  The btrfs driver: \<open>btrfs/fs.go\<close> and the file makers of \<open>btrfs/writer.go\<close>. Paths and names are
  byte strings. An operation takes the codecs and the time of its call where the code uses them.

  Each lookup is a walk over the whole tree with a callback that ends it by an error value
  (\<open>stop\<close>, \<open>found\<close>); the callbacks are definitions of their own, the captured variables their
  state. The mutex, \<open>nextInode\<close>, which nothing uses, and the state before \<open>ReadSuperBlock\<close> are left
  out: \<open>mount_btrfs\<close> makes the first state from the device.
\<close>

section \<open>Buffers\<close>

text \<open>\<open>dev.ReadAt\<close> into a buffer with contents; and a read whose error is dropped.\<close>

definition readInto :: "bytes \<Rightarrow> int \<Rightarrow> (dev, bytes) op" where
  "readInto old off d =
     (case dev_ReadAt d (length old) off of ((b, err), d') \<Rightarrow>
        (case err of Some e \<Rightarrow> io_err e | None \<Rightarrow> Ok (b @ drop (length b) old), d'))"

definition readQuiet :: "nat \<Rightarrow> int \<Rightarrow> (dev, bytes) op" where
  "readQuiet n off d =
     (case dev_ReadAt d n off of ((b, err), d') \<Rightarrow>
        (case err of
           Some e \<Rightarrow> (case (io_err e :: unit res) of Panic \<Rightarrow> Panic | _ \<Rightarrow> Ok (b @ zeros (n - length b)))
         | None \<Rightarrow> Ok (b @ zeros (n - length b)), d'))"

definition put_at :: "nat \<Rightarrow> bytes \<Rightarrow> bytes \<Rightarrow> bytes res" where
  "put_at off src dst = (if off + length src \<le> length dst then Ok (copy_at off src dst) else Panic)"

definition stop :: goerr where "stop = Errorf ''stop''"

section \<open>Mounting\<close>

definition root_callback :: "u64 \<Rightarrow> leafItem \<Rightarrow> bytes \<Rightarrow> (u64 \<times> u8 \<times> u64, unit) op" where
  "root_callback tree item data captured =
     (if K_typ (LI_key item) = BTRFS_ROOT_ITEM_KEY \<and> K_objectid (LI_key item) = tree
      then if length data < 240 then (Ok (), captured)
           else (Err stop, (get64 176 data, data ! 238, get64 168 data))
      else (Ok (), captured))"

definition find_root :: "string \<Rightarrow> u64 \<Rightarrow> (BtrfsFS, u64 \<times> u8 \<times> u64) op" where
  "find_root msg tree =
     andThen (getS (\<lambda>b. Sb_Root (B_sb b))) (\<lambda>root.
     andThen (walk_with root (root_callback tree) (0, 0, 0)) (\<lambda>(err, (rootAddr, rootLvl, rootDirID)).
     let err' = (if rootAddr = 0 then Some (Errorf msg) else err) in
     case err' of
       None \<Rightarrow> ret (rootAddr, rootLvl, rootDirID)
     | Some e \<Rightarrow> if e = stop then ret (rootAddr, rootLvl, rootDirID) else failw e))"

definition findFSTreeRoot :: "(BtrfsFS, u64 \<times> u8 \<times> u64) op" where
  "findFSTreeRoot = find_root ''btrfs: default FS tree not found'' 5"

definition findExtentTreeRoot :: "(BtrfsFS, u64 \<times> u8) op" where
  "findExtentTreeRoot =
     andThen (find_root ''btrfs: extent tree root not found'' 2) (\<lambda>(addr, lvl, _). ret (addr, lvl))"

definition load_roots :: "(BtrfsFS, unit) op" where
  "load_roots =
     andThen findFSTreeRoot (\<lambda>(fsRoot, fsLvl, rootDirID).
     andThen (modS (\<lambda>b. b\<lparr>B_fsRoot := fsRoot, B_fsRootLvl := fsLvl, B_rootInode := rootDirID\<rparr>)) (\<lambda>_.
     andThen (attempt findExtentTreeRoot) (\<lambda>ext.
     case ext of
       Some (extRoot, extLvl) \<Rightarrow> modS (\<lambda>b. b\<lparr>B_extentRoot := extRoot, B_extentRootLvl := extLvl\<rparr>)
     | None \<Rightarrow> ret ())))"

definition load_chunks :: "BtrfsSuper \<Rightarrow> (dev, treeContext) op" where
  "load_chunks sb d =
     (case parseSysChunks sb \<lparr>TC_nodeSize = Sb_NodeSize sb, TC_chunks = []\<rparr> of
        Ok tc \<Rightarrow>
          if TC_chunks tc \<noteq> [] then
            (case resolveChunkTree stack_depth (Sb_ChunkRoot sb) (d, tc) of (r, (d', tc')) \<Rightarrow>
               (mapR (\<lambda>_. tc') r, d'))
          else (Ok tc, d)
      | Err e \<Rightarrow> (Err e, d)
      | Panic \<Rightarrow> (Panic, d))"

definition mount_btrfs :: "(dev, BtrfsFS) op" where
  "mount_btrfs =
     andThen btrfs_ReadSuper (\<lambda>sb.
     andThen (load_chunks sb) (\<lambda>tc d.
     case load_roots \<lparr>B_dev = d, B_sb = sb, B_tc = tc, B_fsRoot = 0, B_fsRootLvl = 0, B_extentRoot = 0,
         B_extentRootLvl = 0, B_rootInode = 0, B_pathCache = (\<lambda>_. None)\<rparr> of
       (r, b) \<Rightarrow> (mapR (\<lambda>_. b) r, B_dev b)))"

definition btrfs_BlockSize :: "BtrfsFS \<Rightarrow> u64" where
  "btrfs_BlockSize b = ucast (Sb_SectorSize (B_sb b))"

definition btrfs_Destroy :: "BtrfsFS \<Rightarrow> BtrfsFS" where
  "btrfs_Destroy b = b"

definition btrfs_Statfs :: "BtrfsFS \<Rightarrow> Statfs_t res" where
  "btrfs_Statfs b =
     (let total = Sb_TotalBytes (B_sb b); used = Sb_BytesUsed (B_sb b); ss = ucast (Sb_SectorSize (B_sb b)) in
      if ss = 0 then Panic
      else Ok \<lparr>st_Bsize = ss, st_Frsize = ss, st_Blocks = total div ss, st_Bfree = (total - used) div ss,
        st_Bavail = (total - used) div ss, st_Files = 0, st_Ffree = 0, st_Favail = 0, st_Namemax = 255\<rparr>)"

section \<open>Directory lookup\<close>

definition name_matches :: "bytes \<Rightarrow> bytes \<Rightarrow> bool" where
  "name_matches name data =
     (let nameLen = get16 27 data in
      nameLen = of_nat (length name) \<and> 30 + unat nameLen \<le> length data \<and>
      bslice 30 (30 + unat nameLen) data = name)"

definition lookup_callback :: "u64 \<Rightarrow> bytes \<Rightarrow> leafItem \<Rightarrow> bytes \<Rightarrow> ((key \<times> u64) option, unit) op" where
  "lookup_callback dirInode name item data found =
     (let k = LI_key item in
      if K_objectid k \<noteq> dirInode then (Ok (), found)
      else if K_typ k \<noteq> BTRFS_DIR_INDEX_KEY \<and> K_typ k \<noteq> BTRFS_DIR_ITEM_KEY then (Ok (), found)
      else if length data < 30 then (Ok (), found)
      else if name_matches name data then (Err (Errorf ''found''), Some (k, get64 0 data))
      else (Ok (), found))"

definition lookupDirEntryKey :: "u64 \<Rightarrow> bytes \<Rightarrow> (BtrfsFS, key \<times> u64) op" where
  "lookupDirEntryKey dirInode name =
     andThen (walkFSTree (lookup_callback dirInode name) None) (\<lambda>(err, found).
     case found of
       Some kc \<Rightarrow> ret kc
     | None \<Rightarrow>
         (case err of
            Some e \<Rightarrow> if e \<noteq> Errorf ''found'' then failw e else failw Fs_ErrNotExist
          | None \<Rightarrow> failw Fs_ErrNotExist))"

definition lookupDirEntry :: "u64 \<Rightarrow> bytes \<Rightarrow> (BtrfsFS, u64) op" where
  "lookupDirEntry dirInode name = andThen (lookupDirEntryKey dirInode name) (\<lambda>(_, child). ret child)"

function resolve_loop :: "u64 \<Rightarrow> bytes \<Rightarrow> (BtrfsFS, u64) op" where
  "resolve_loop curInode clean =
     (if clean = [] then ret curInode
      else
        let name = takeWhile (\<lambda>c. c \<noteq> 47) clean; rest = drop (length name + 1) clean in
        if name = [] then resolve_loop curInode rest
        else andThen (lookupDirEntry curInode name) (\<lambda>found. resolve_loop found rest))"
  by pat_completeness auto
termination by (relation "measure (\<lambda>(c, clean). length clean)") auto

declare resolve_loop.simps [simp del]

definition resolvePath :: "bytes \<Rightarrow> (BtrfsFS, u64) op" where
  "resolvePath path b =
     (if path = [] \<or> path = [47] then ret (B_rootInode b) b
      else
        case B_pathCache b path of
          Some n \<Rightarrow> ret n b
        | None \<Rightarrow>
            andThen (resolve_loop (B_rootInode b) (if hd path = 47 then tl path else path)) (\<lambda>n.
            andThen (modS (\<lambda>b. b\<lparr>B_pathCache := (B_pathCache b)(path \<mapsto> n)\<rparr>)) (\<lambda>_.
            ret n)) b)"

definition uncache :: "bytes \<Rightarrow> (BtrfsFS, unit) op" where
  "uncache path = modS (\<lambda>b. b\<lparr>B_pathCache := (B_pathCache b)(path := None)\<rparr>)"

definition btrfs_splitPath :: "bytes \<Rightarrow> (bytes \<times> bytes) res" where
  "btrfs_splitPath path =
     (if path = [] \<or> path = [47] then Err (Errorf ''cannot split root path'')
      else
        let trimmed = rev (dropWhile (\<lambda>c. c = 47) (rev path)) in
        if trimmed = [] then Err (Errorf ''invalid path'')
        else
          let name = rev (takeWhile (\<lambda>c. c \<noteq> 47) (rev trimmed));
              idx = int (length trimmed) - int (length name) - 1;
              parent = (if idx \<le> 0 then [47] else take (nat idx) trimmed)
          in if name = [] then Err (Errorf ''empty leaf name'') else Ok (parent, name))"

section \<open>Inodes\<close>

definition decodeTime :: "bytes \<Rightarrow> nat \<Rightarrow> gotime" where
  "decodeTime data dataOff =
     (if dataOff + 12 > length data then (0, 0)
      else (sint (get64 dataOff data), int (unat (get32 (dataOff + 8) data))))"

definition node_info :: "NodeInfo \<Rightarrow> bytes \<Rightarrow> NodeInfo" where
  "node_info info data =
     (let mode = get32 52 data; size = get64 16 data in
      info\<lparr>n_Size := size, n_Nlink := ucast (get32 40 data), n_Uid := get32 44 data, n_Gid := get32 48 data,
        n_Mode := mode,
        n_IsDir := (if mode AND 0x4000 \<noteq> 0 then True else n_IsDir info),
        n_IsRegular := (if mode AND 0x4000 = 0 \<and> mode AND 0x8000 \<noteq> 0 then True else n_IsRegular info),
        n_IsSymlink := (if mode AND 0x4000 = 0 \<and> mode AND 0x8000 = 0 \<and> mode AND 0xA000 = 0xA000 then True
          else n_IsSymlink info),
        n_Blksize := 4096, n_Blocks := (size + 4095) div 4096,
        n_Atime := decodeTime data 108, n_Ctime := decodeTime data 120, n_Mtime := decodeTime data 132\<rparr>)"

definition info_callback :: "u64 \<Rightarrow> leafItem \<Rightarrow> bytes \<Rightarrow> (NodeInfo, unit) op" where
  "info_callback inodeNum item data info =
     (if K_objectid (LI_key item) \<noteq> inodeNum \<or> K_typ (LI_key item) \<noteq> BTRFS_INODE_ITEM_KEY then (Ok (), info)
      else if length data < 100 then (Ok (), info)
      else (Err stop, node_info info data))"

text \<open>\<open>fs.NodeInfo{Inode: n}\<close>: every other field is zero; the zero \<open>time.Time\<close> is the first
  second of year one.\<close>

definition zero_time :: gotime where "zero_time = (- 62135596800, 0)"

definition zero_info :: "u64 \<Rightarrow> NodeInfo" where
  "zero_info n = \<lparr>n_Inode = n, n_Mode = 0, n_Uid = 0, n_Gid = 0, n_Size = 0, n_Atime = zero_time,
     n_Mtime = zero_time, n_Ctime = zero_time, n_Nlink = 0, n_Blksize = 0, n_Blocks = 0, n_IsDir = False,
     n_IsRegular = False, n_IsSymlink = False\<rparr>"

definition readInodeInfo :: "u64 \<Rightarrow> (BtrfsFS, NodeInfo) op" where
  "readInodeInfo inodeNum =
     andThen (walkFSTree (info_callback inodeNum) (zero_info inodeNum)) (\<lambda>(err, info).
     case err of
       Some e \<Rightarrow> if e \<noteq> stop then failw e else ret info
     | None \<Rightarrow> ret info)"

text \<open>The raw inode item: the first one, ending the walk, or the last one.\<close>

definition inode_key :: "u64 \<Rightarrow> key" where "inode_key n = Key n BTRFS_INODE_ITEM_KEY 0"
definition extent_key :: "u64 \<Rightarrow> key" where "extent_key n = Key n BTRFS_EXTENT_DATA_KEY 0"

definition is_item :: "u64 \<Rightarrow> u8 \<Rightarrow> leafItem \<Rightarrow> bool" where
  "is_item n t item = (K_objectid (LI_key item) = n \<and> K_typ (LI_key item) = t)"

definition inode_stop_callback :: "u64 \<Rightarrow> leafItem \<Rightarrow> bytes \<Rightarrow> (bytes, unit) op" where
  "inode_stop_callback n item d data =
     (if is_item n BTRFS_INODE_ITEM_KEY item then (Err stop, d) else (Ok (), data))"

definition inode_last_callback :: "u64 \<Rightarrow> leafItem \<Rightarrow> bytes \<Rightarrow> (bytes, unit) op" where
  "inode_last_callback n item d data =
     (Ok (), if is_item n BTRFS_INODE_ITEM_KEY item then d else data)"

text \<open>The inode item as \<open>Chmod\<close>, \<open>Chown\<close> and \<open>Truncate\<close> fetch it.\<close>

definition fetch_inode :: "u64 \<Rightarrow> (BtrfsFS, bytes) op" where
  "fetch_inode n =
     andThen (walkFSTree (inode_stop_callback n) []) (\<lambda>(err, data).
     case err of
       Some e \<Rightarrow>
         if e \<noteq> stop then failw e
         else if length data < 100 then failw (Errorf ''btrfs: inode %d not found or invalid'') else ret data
     | None \<Rightarrow>
         if length data < 100 then failw (Errorf ''btrfs: inode %d not found or invalid'') else ret data)"

text \<open>The stricter form of \<open>Symlink\<close> and \<open>Link\<close>.\<close>

definition fetch_inode_strict :: "string \<Rightarrow> u64 \<Rightarrow> (BtrfsFS, bytes) op" where
  "fetch_inode_strict msg n =
     andThen (walkFSTree (inode_stop_callback n) []) (\<lambda>(err, data).
     if err \<noteq> Some stop \<or> length data < 100 then failw (Errorf msg) else ret data)"

definition touch_ctime :: "u64 \<Rightarrow> bytes \<Rightarrow> bytes res" where
  "touch_ctime now data = bindR (put_at 120 (put64 now) data) (put_at 128 (put32 0))"

definition touch_both :: "u64 \<Rightarrow> bytes \<Rightarrow> bytes res" where
  "touch_both now data =
     bindR (touch_ctime now data) (\<lambda>d. bindR (put_at 132 (put64 now) d) (put_at 140 (put32 0)))"

definition updateFs :: "key \<Rightarrow> bytes \<Rightarrow> (BtrfsFS, unit) op" where
  "updateFs k data b = updateInLeaf (B_fsRoot b) k data b"

definition insertFs :: "key \<Rightarrow> bytes \<Rightarrow> (BtrfsFS, unit) op" where
  "insertFs k data b = insertIntoLeaf (B_fsRoot b) k data b"

definition deleteFs :: "key \<Rightarrow> (BtrfsFS, unit) op" where
  "deleteFs k b = deleteFromLeaf (B_fsRoot b) k b"

definition extent_keys_callback :: "u64 \<Rightarrow> leafItem \<Rightarrow> bytes \<Rightarrow> (key list, unit) op" where
  "extent_keys_callback n item d ks =
     (Ok (), if is_item n BTRFS_EXTENT_DATA_KEY item then ks @ [LI_key item] else ks)"

primrec delete_quiet :: "key list \<Rightarrow> (BtrfsFS, unit) op" where
  "delete_quiet [] = ret ()"
| "delete_quiet (k # ks) = andThen (attempt (deleteFs k)) (\<lambda>_. delete_quiet ks)"

primrec delete_each :: "key list \<Rightarrow> (BtrfsFS, unit) op" where
  "delete_each [] = ret ()"
| "delete_each (k # ks) = andThen (deleteFs k) (\<lambda>_. delete_each ks)"

definition extent_keys :: "u64 \<Rightarrow> (BtrfsFS, key list) op" where
  "extent_keys n = andThen (walkFSTree (extent_keys_callback n) []) (\<lambda>(_, ks). ret ks)"

definition updateInodeTime :: "u64 \<Rightarrow> u64 \<Rightarrow> (BtrfsFS, unit) op" where
  "updateInodeTime inodeNum now =
     andThen (walkFSTree (inode_stop_callback inodeNum) []) (\<lambda>(err, data).
     if err \<noteq> Some stop then ret ()
     else andThen (liftR (bindR (put_at 120 (put64 now) data) (put_at 108 (put64 now)))) (\<lambda>data'.
       andThen (attempt (insertFs (inode_key inodeNum) data')) (\<lambda>_. ret ())))"

section \<open>Reading\<close>

definition dir_callback :: "u64 \<Rightarrow> leafItem \<Rightarrow> bytes \<Rightarrow> (DirEntry list, unit) op" where
  "dir_callback dirInode item data entries =
     (if K_objectid (LI_key item) \<noteq> dirInode \<or> K_typ (LI_key item) \<noteq> BTRFS_DIR_INDEX_KEY \<or> length data < 30
      then (Ok (), entries)
      else
        let nameLen = unat (get16 27 data); fileType = data ! 29 in
        if 0 < nameLen \<and> 30 + nameLen \<le> length data then
          let name = bslice 30 (30 + nameLen) data in
          if name \<in> set (map d_Name entries) then (Ok (), entries)
          else (Ok (), entries @ [\<lparr>d_Inode = get64 0 data, d_Name = name,
            d_FileType =
              (if fileType = BTRFS_FT_REG_FILE then DirFileTypeRegular
               else if fileType = BTRFS_FT_DIR then DirFileTypeDir
               else if fileType = BTRFS_FT_SYMLINK then DirFileTypeSymlink
               else DirFileTypeUnknown)\<rparr>])
        else (Ok (), entries))"

definition readDirEntries :: "u64 \<Rightarrow> (BtrfsFS, DirEntry list) op" where
  "readDirEntries dirInode =
     andThen (walkFSTree (dir_callback dirInode) []) (\<lambda>(err, entries).
     case err of Some e \<Rightarrow> if e \<noteq> EOF then failw e else ret entries | None \<Rightarrow> ret entries)"

definition symlink_callback :: "codecs \<Rightarrow> u64 \<Rightarrow> leafItem \<Rightarrow> bytes \<Rightarrow> (bytes, unit) op" where
  "symlink_callback cd n item data target =
     (if \<not> is_item n BTRFS_EXTENT_DATA_KEY item then (Ok (), target)
      else if length data < 22 then (Ok (), target)
      else
        let ctype = data ! 16; extType = data ! 20 in
        if extType = BTRFS_FILE_EXTENT_INLINE then
          let raw = drop 21 data in
          if ctype \<noteq> BTRFS_COMPRESS_NONE then
            (case decompressData cd ctype raw (of_nat (length raw) * 2) of
               Ok dec \<Rightarrow> (Err stop, dec) | Err e \<Rightarrow> (Err e, target) | Panic \<Rightarrow> (Panic, target))
          else (Err stop, raw)
        else (Ok (), target))"

definition readSymlink :: "codecs \<Rightarrow> u64 \<Rightarrow> (BtrfsFS, bytes) op" where
  "readSymlink cd n =
     andThen (walkFSTree (symlink_callback cd n) []) (\<lambda>(err, target).
     case err of Some e \<Rightarrow> if e \<noteq> stop then failw e else ret target | None \<Rightarrow> ret target)"

record extentInfo =
  XI_fileOffset :: u64
  XI_size :: u64
  XI_inline :: bool
  XI_inlineData :: bytes
  XI_diskBytenr :: u64
  XI_diskNumBytes :: u64
  XI_compress :: u8

definition add_extent :: "extentInfo \<Rightarrow> extentInfo list \<times> u64 \<Rightarrow> extentInfo list \<times> u64" where
  "add_extent x = (\<lambda>(extents, fileSize).
     (extents @ [x],
      if XI_fileOffset x + XI_size x > fileSize then XI_fileOffset x + XI_size x else fileSize))"

definition reg_fields :: "bytes \<Rightarrow> (nat, u64 \<times> u64 \<times> u64) op" where
  "reg_fields data =
     andThen (r_u64 data) (\<lambda>diskBytenr.
     andThen (r_u64 data) (\<lambda>_.
     andThen (r_u64 data) (\<lambda>extOff.
     andThen (r_u64 data) (\<lambda>numBytes.
     ret (diskBytenr, extOff, numBytes)))))"

definition read_callback :: "u64 \<Rightarrow> leafItem \<Rightarrow> bytes \<Rightarrow> (extentInfo list \<times> u64, unit) op" where
  "read_callback n item data captured =
     (if \<not> is_item n BTRFS_EXTENT_DATA_KEY item \<or> length data < 22 then (Ok (), captured)
      else
        let fileOffset = K_offset (LI_key item);
            ramBytes = get64 8 data; ctype = data ! 16; extType = data ! 20 in
        if extType = BTRFS_FILE_EXTENT_INLINE then
          (Ok (), add_extent \<lparr>XI_fileOffset = fileOffset, XI_size = ramBytes, XI_inline = True,
             XI_inlineData = drop 21 data, XI_diskBytenr = 0, XI_diskNumBytes = 0, XI_compress = ctype\<rparr> captured)
        else if extType = BTRFS_FILE_EXTENT_REG then
          (case fst (reg_fields data 21) of
             Ok (diskBytenr, extOff, numBytes) \<Rightarrow>
               (Ok (), add_extent \<lparr>XI_fileOffset = fileOffset,
                  XI_size = (if ctype \<noteq> BTRFS_COMPRESS_NONE then ramBytes else numBytes), XI_inline = False,
                  XI_inlineData = [], XI_diskBytenr = diskBytenr + extOff, XI_diskNumBytes = numBytes,
                  XI_compress = ctype\<rparr> captured)
           | Err e \<Rightarrow> (Err e, captured)
           | Panic \<Rightarrow> (Panic, captured))
        else (Ok (), captured))"

text \<open>\<open>copy(buf[at:at+n], src)\<close> with the bounds check of the slice.\<close>

definition copy_slice :: "u64 \<Rightarrow> nat \<Rightarrow> bytes \<Rightarrow> bytes \<Rightarrow> bytes res" where
  "copy_slice at n src buf =
     (if unat at + n \<le> length buf then Ok (copy_at (unat at) (take n src) buf) else Panic)"

text \<open>One extent, when it overlaps the wanted range: the buffer and the count of bytes read.\<close>

definition read_inline :: "codecs \<Rightarrow> extentInfo \<Rightarrow> u64 \<Rightarrow> u64 \<Rightarrow> int \<Rightarrow> bytes \<times> int \<Rightarrow> (bytes \<times> int) res" where
  "read_inline cd ext srcOff dstStart toRead0 = (\<lambda>(buf, totalRead).
     bindR (if XI_compress ext \<noteq> BTRFS_COMPRESS_NONE
            then decompressData cd (XI_compress ext) (XI_inlineData ext) (XI_size ext)
            else Ok (XI_inlineData ext)) (\<lambda>rawData.
     let inlineEnd = of_nat (length rawData) :: u64;
         toRead = (if srcOff + u64i toRead0 > inlineEnd then sint (inlineEnd - srcOff) else toRead0)
     in if toRead \<le> 0 then Ok (buf, totalRead)
        else if unat srcOff > length rawData then Panic
        else mapR (\<lambda>buf'. (buf', totalRead + toRead)) (copy_slice dstStart (nat toRead) (drop (unat srcOff) rawData) buf)))"

definition read_disk :: "codecs \<Rightarrow> extentInfo \<Rightarrow> u64 \<Rightarrow> u64 \<Rightarrow> int \<Rightarrow> bytes \<times> int \<Rightarrow> (BtrfsFS, bytes \<times> int) op" where
  "read_disk cd ext srcOff dstStart toRead0 = (\<lambda>(buf, totalRead).
     let rest = of_nat (length buf) - dstStart :: u64;
         toRead = (if srcOff + u64i toRead0 > rest then sint rest else toRead0)
     in if toRead \<le> 0 then ret (buf, totalRead)
        else if XI_compress ext \<noteq> BTRFS_COMPRESS_NONE then
          andThen (liftR (make_bytes (unat (XI_diskNumBytes ext)))) (\<lambda>blank.
          andThen (onBdev (readInto blank (sint (XI_diskBytenr ext)))) (\<lambda>blockBuf.
          andThen (liftR (decompressData cd (XI_compress ext) blockBuf (XI_size ext))) (\<lambda>dec.
          if unat srcOff < length dec then
            let toCopy = (if srcOff + u64i toRead > of_nat (length dec) then of_nat (length dec) - srcOff else u64i toRead)
            in andThen (liftR (goslice (unat srcOff) (unat (srcOff + toCopy)) dec)) (\<lambda>src.
               andThen (liftR (copy_slice dstStart (unat toCopy) src buf)) (\<lambda>buf'.
               ret (buf', totalRead + sint toCopy)))
          else ret (buf, totalRead))))
        else
          let toRead' = (if srcOff + u64i toRead > rest then sint rest else toRead) in
          if toRead' \<le> 0 then ret (buf, totalRead)
          else andThen (liftR (goslice (unat dstStart) (unat dstStart + nat toRead') buf)) (\<lambda>window.
            andThen (onBdev (readInto window (sint (XI_diskBytenr ext + srcOff)))) (\<lambda>got.
            ret (copy_at (unat dstStart) got buf, totalRead + toRead'))))"

fun readFromExtents :: "codecs \<Rightarrow> extentInfo list \<Rightarrow> u64 \<Rightarrow> bytes \<times> int \<Rightarrow> (BtrfsFS, bytes \<times> int) op" where
  "readFromExtents cd [] ofst st = ret st"
| "readFromExtents cd (ext # exts) ofst st =
     (let extStart = XI_fileOffset ext; extEnd = extStart + XI_size ext;
          bufEnd = ofst + of_nat (length (fst st)) in
      if extEnd \<le> ofst then readFromExtents cd exts ofst st
      else if extStart \<ge> bufEnd then ret st
      else
        let readStart = (if ofst < extStart then extStart else ofst);
            readEnd = (if bufEnd > extEnd then extEnd else bufEnd) in
        if readEnd \<le> readStart then readFromExtents cd exts ofst st
        else
          let dstStart = readStart - ofst; toRead = sint (readEnd - readStart); srcOff = readStart - extStart in
          andThen (if XI_inline ext then liftR (read_inline cd ext srcOff dstStart toRead st)
                   else read_disk cd ext srcOff dstStart toRead st) (\<lambda>st'.
          readFromExtents cd exts ofst st'))"

text \<open>The result of a read: the number of bytes and the buffer.\<close>

definition readFile :: "codecs \<Rightarrow> u64 \<Rightarrow> bytes \<Rightarrow> int \<Rightarrow> (BtrfsFS, int \<times> bytes) op" where
  "readFile cd inodeNum buf ofst =
     andThen (walkFSTree (read_callback inodeNum) ([], 0)) (\<lambda>(err, (extents, fileSize)).
     if err \<noteq> None \<and> err \<noteq> Some EOF then failw (the err)
     else if ofst < 0 \<or> fileSize = 0 \<or> u64i ofst \<ge> fileSize then ret (0, buf)
     else andThen (readFromExtents cd extents (u64i ofst) (buf, 0)) (\<lambda>(buf', n). ret (n, buf')))"

definition btrfs_Getattr :: "bytes \<Rightarrow> (BtrfsFS, NodeInfo) op" where
  "btrfs_Getattr path = andThen (resolvePath path) readInodeInfo"

definition btrfs_Readdir :: "bytes \<Rightarrow> (BtrfsFS, DirEntry list) op" where
  "btrfs_Readdir path = andThen (resolvePath path) readDirEntries"

definition btrfs_Readlink :: "codecs \<Rightarrow> bytes \<Rightarrow> (BtrfsFS, bytes) op" where
  "btrfs_Readlink cd path = andThen (resolvePath path) (readSymlink cd)"

definition btrfs_Open :: "bytes \<Rightarrow> (BtrfsFS, unit) op" where
  "btrfs_Open path = andThen (resolvePath path) (\<lambda>_. ret ())"

definition btrfs_Read :: "codecs \<Rightarrow> bytes \<Rightarrow> bytes \<Rightarrow> int \<Rightarrow> (BtrfsFS, int \<times> bytes) op" where
  "btrfs_Read cd path buf ofst = andThen (resolvePath path) (\<lambda>n. readFile cd n buf ofst)"

definition btrfs_Release :: "bytes \<Rightarrow> (BtrfsFS, unit) op" where
  "btrfs_Release path = ret ()"

end
