(* ===== verification/Btrfs_Ops.thy ===== *)
theory Btrfs_Ops
  imports Btrfs_Fs
begin

text \<open>
  The operations of the btrfs driver that change the volume: \<open>createFile\<close> and the makers of item
  payloads (\<open>btrfs/writer.go\<close>), and \<open>Create\<close>, \<open>Mkdir\<close>, \<open>Write\<close>, \<open>Unlink\<close>, \<open>Rmdir\<close>, \<open>Rename\<close>,
  \<open>Chmod\<close>, \<open>Chown\<close>, \<open>Truncate\<close>, \<open>Symlink\<close>, \<open>Link\<close> (\<open>btrfs/fs.go\<close>). There is no transaction:
  each leaf is rewritten in place as the operation goes, and an error leaves what was done.
\<close>

section \<open>Item payloads\<close>

definition makeDirItem :: "u64 \<Rightarrow> bytes \<Rightarrow> u8 \<Rightarrow> bytes" where
  "makeDirItem childInode name fileType =
     put64 childInode @ [BTRFS_INODE_ITEM_KEY] @ put64 0 @ put64 0 @ put16 0 @
     put16 (of_nat (length name)) @ [fileType] @ name"

definition makeExtentDataInline :: "bytes \<Rightarrow> bytes" where
  "makeExtentDataInline data =
     put64 0 @ put64 (of_nat (length data)) @ [0] @ [0] @ put16 0 @ [BTRFS_FILE_EXTENT_INLINE] @ data"

definition makeExtentDataRegularCompressed :: "u64 \<Rightarrow> u64 \<Rightarrow> u64 \<Rightarrow> u8 \<Rightarrow> BtrfsFS \<Rightarrow> bytes" where
  "makeExtentDataRegularCompressed logicalAddr diskSize ramSize compression b =
     put64 (generation b) @ put64 ramSize @ [compression] @ [0] @ put16 0 @ [BTRFS_FILE_EXTENT_REG] @
     put64 logicalAddr @ put64 diskSize @ put64 0 @ put64 ramSize"

definition makeExtentDataRegular :: "u64 \<Rightarrow> u64 \<Rightarrow> u64 \<Rightarrow> BtrfsFS \<Rightarrow> bytes" where
  "makeExtentDataRegular logicalAddr diskSize ramSize =
     makeExtentDataRegularCompressed logicalAddr diskSize ramSize BTRFS_COMPRESS_NONE"

definition inode_item :: "u64 \<Rightarrow> u64 \<Rightarrow> u32 \<Rightarrow> bytes" where
  "inode_item g now mode =
     put64 g @ put64 g @ zeros 8 @ put64 0 @ zeros 8 @ put32 1 @ put32 0 @ put32 0 @ put32 mode @ put32 0 @
     put64 0 @ zeros 28 @ put64 now @ put32 0 @ put64 now @ put32 0 @ put64 now @ put32 0 @ put64 now @
     put32 0 @ zeros 16"

definition insertInodeItem :: "u64 \<Rightarrow> u64 \<Rightarrow> u32 \<Rightarrow> (BtrfsFS, unit) op" where
  "insertInodeItem now inodeNum mode =
     andThen (getS generation) (\<lambda>g. insertFs (inode_key inodeNum) (inode_item g now mode))"

section \<open>Creating entries\<close>

definition max_inode_callback :: "leafItem \<Rightarrow> bytes \<Rightarrow> (u64, unit) op" where
  "max_inode_callback item data maxInode =
     (Ok (), if K_typ (LI_key item) = BTRFS_INODE_ITEM_KEY \<and> K_objectid (LI_key item) > maxInode
             then K_objectid (LI_key item) else maxInode)"

definition next_inode :: "(BtrfsFS, u64) op" where
  "next_inode = andThen (walkFSTree max_inode_callback 0) (\<lambda>(_, maxInode). ret (maxInode + 1))"

definition max_index_callback :: "u64 \<Rightarrow> leafItem \<Rightarrow> bytes \<Rightarrow> (u64, unit) op" where
  "max_index_callback dirInode item data maxIdx =
     (Ok (), if is_item dirInode BTRFS_DIR_INDEX_KEY item \<and> K_offset (LI_key item) > maxIdx
             then K_offset (LI_key item) else maxIdx)"

definition nextDirIndex :: "u64 \<Rightarrow> (BtrfsFS, u64) op" where
  "nextDirIndex dirInode = andThen (walkFSTree (max_index_callback dirInode) 0) (\<lambda>(_, maxIdx). ret (maxIdx + 1))"

text \<open>The tail that \<open>createFile\<close>, \<open>Symlink\<close>, \<open>Link\<close> and \<open>Rename\<close> share: the entry goes in under the
  next index of the directory.\<close>

definition add_entry :: "u64 \<Rightarrow> u64 \<Rightarrow> bytes \<Rightarrow> u8 \<Rightarrow> (BtrfsFS, unit) op" where
  "add_entry dirInode child name fileType =
     andThen (nextDirIndex dirInode) (\<lambda>nextOff.
     insertFs (Key dirInode BTRFS_DIR_INDEX_KEY nextOff) (makeDirItem child name fileType))"

definition refuse_existing :: "u64 \<Rightarrow> bytes \<Rightarrow> (BtrfsFS, unit) op" where
  "refuse_existing dirInode name =
     andThen (attempt (lookupDirEntry dirInode name)) (\<lambda>hit.
     if hit \<noteq> None then failw (Errorf ''btrfs: entry already exists: %s'') else ret ())"

definition createFile :: "u64 \<Rightarrow> bytes \<Rightarrow> u32 \<Rightarrow> u8 \<Rightarrow> (BtrfsFS, unit) op" where
  "createFile now path mode fileType =
     andThen (liftR (btrfs_splitPath path)) (\<lambda>(dir, name).
     andThen (resolvePath dir) (\<lambda>dirInode.
     andThen next_inode (\<lambda>newInode.
     andThen (insertInodeItem now newInode mode) (\<lambda>_.
     andThen (refuse_existing dirInode name) (\<lambda>_.
     andThen (add_entry dirInode newInode name fileType) (\<lambda>_.
     uncache dir))))))"

definition btrfs_Create :: "u64 \<Rightarrow> bytes \<Rightarrow> u32 \<Rightarrow> (BtrfsFS, unit) op" where
  "btrfs_Create now path mode = createFile now path (mode OR 0x8000) BTRFS_FT_REG_FILE"

definition btrfs_Mkdir :: "u64 \<Rightarrow> bytes \<Rightarrow> u32 \<Rightarrow> (BtrfsFS, unit) op" where
  "btrfs_Mkdir now path mode = createFile now path (mode OR 0x4000) BTRFS_FT_DIR"

definition btrfs_Symlink :: "u64 \<Rightarrow> bytes \<Rightarrow> bytes \<Rightarrow> (BtrfsFS, unit) op" where
  "btrfs_Symlink now target newpath =
     andThen (liftR (btrfs_splitPath newpath)) (\<lambda>(dir, name).
     andThen (resolvePath dir) (\<lambda>dirInode.
     andThen next_inode (\<lambda>newInode.
     andThen (insertInodeItem now newInode (0xA000 OR 0x1FF)) (\<lambda>_.
     andThen (fetch_inode_strict ''btrfs: symlink inode creation failed'' newInode) (\<lambda>inodeData.
     andThen (liftR (put_at 16 (put64 (of_nat (length target))) inodeData)) (\<lambda>inodeData'.
     andThen (updateFs (inode_key newInode) inodeData') (\<lambda>_.
     andThen (insertFs (extent_key newInode) (makeExtentDataInline target)) (\<lambda>_.
     andThen (refuse_existing dirInode name) (\<lambda>_.
     andThen (add_entry dirInode newInode name BTRFS_FT_SYMLINK) (\<lambda>_.
     uncache dir))))))))))"

definition btrfs_Link :: "u64 \<Rightarrow> bytes \<Rightarrow> bytes \<Rightarrow> (BtrfsFS, unit) op" where
  "btrfs_Link now oldpath newpath =
     andThen (resolvePath oldpath) (\<lambda>oldInodeNum.
     andThen (readInodeInfo oldInodeNum) (\<lambda>oldInfo.
     if n_IsDir oldInfo then failw (Errorf ''btrfs: cannot link a directory'')
     else
     andThen (liftR (btrfs_splitPath newpath)) (\<lambda>(dir, name).
     andThen (resolvePath dir) (\<lambda>dirInode.
     andThen (refuse_existing dirInode name) (\<lambda>_.
     andThen (fetch_inode_strict ''btrfs: old inode not found'' oldInodeNum) (\<lambda>inodeData.
     andThen (liftR (bindR (put_at 40 (put32 (get32 40 inodeData + 1)) inodeData) (touch_ctime now))) (\<lambda>inodeData'.
     andThen (updateFs (inode_key oldInodeNum) inodeData') (\<lambda>_.
     andThen (add_entry dirInode oldInodeNum name
        (if n_IsSymlink oldInfo then BTRFS_FT_SYMLINK else BTRFS_FT_REG_FILE)) (\<lambda>_.
     andThen (uncache dir) (\<lambda>_.
     uncache oldpath))))))))))"

section \<open>Removing entries\<close>

text \<open>The child loses a link. \<open>Rename\<close> drops the errors of this part, \<open>removeEntry\<close> does not.\<close>

definition unlink_inode :: "u64 \<Rightarrow> u64 \<Rightarrow> bytes \<Rightarrow> (BtrfsFS, unit) op" where
  "unlink_inode now child inodeData =
     (if length inodeData < 100 then ret ()
      else
        let n = get32 40 inodeData; nlink = (if n > 0 then n - 1 else n) in
        andThen (liftR (bindR (put_at 40 (put32 nlink) inodeData) (touch_ctime now))) (\<lambda>inodeData'.
        if nlink = 0 then
          andThen (deleteFs (inode_key child)) (\<lambda>_.
          andThen (extent_keys child) delete_quiet)
        else updateFs (inode_key child) inodeData'))"

definition refuse_wrong_kind :: "bool \<Rightarrow> u64 \<Rightarrow> NodeInfo \<Rightarrow> (BtrfsFS, unit) op" where
  "refuse_wrong_kind mustBeDir child childInfo =
     (if mustBeDir \<and> \<not> n_IsDir childInfo then failw (Errorf ''btrfs: not a directory'')
      else if \<not> mustBeDir \<and> n_IsDir childInfo then failw (Errorf ''btrfs: is a directory'')
      else if n_IsDir childInfo then
        andThen (readDirEntries child) (\<lambda>entries.
        if entries \<noteq> [] then failw (Errorf ''btrfs: directory not empty'') else ret ())
      else ret ())"

definition btrfs_removeEntry :: "u64 \<Rightarrow> bytes \<Rightarrow> bool \<Rightarrow> (BtrfsFS, unit) op" where
  "btrfs_removeEntry now path mustBeDir =
     andThen (liftR (btrfs_splitPath path)) (\<lambda>(dir, name).
     andThen (resolvePath dir) (\<lambda>dirInode.
     andThen (lookupDirEntryKey dirInode name) (\<lambda>(entryKey, child).
     andThen (readInodeInfo child) (\<lambda>childInfo.
     andThen (refuse_wrong_kind mustBeDir child childInfo) (\<lambda>_.
     andThen (deleteFs entryKey) (\<lambda>_.
     andThen (walkFSTree (inode_stop_callback child) []) (\<lambda>(err, inodeData).
     if err \<noteq> None \<and> err \<noteq> Some stop then failw (the err)
     else
     andThen (unlink_inode now child inodeData) (\<lambda>_.
     andThen (uncache path) (\<lambda>_.
     uncache dir)))))))))"

definition btrfs_Unlink :: "u64 \<Rightarrow> bytes \<Rightarrow> (BtrfsFS, unit) op" where
  "btrfs_Unlink now path = btrfs_removeEntry now path False"

definition btrfs_Rmdir :: "u64 \<Rightarrow> bytes \<Rightarrow> (BtrfsFS, unit) op" where
  "btrfs_Rmdir now path = btrfs_removeEntry now path True"

definition drop_target :: "u64 \<Rightarrow> key \<times> u64 \<Rightarrow> (BtrfsFS, unit) op" where
  "drop_target now = (\<lambda>(targetKey, targetInode).
     andThen (deleteFs targetKey) (\<lambda>_.
     andThen (walkFSTree (inode_last_callback targetInode) []) (\<lambda>(_, targetData).
     if length targetData < 100 then ret ()
     else
       let n = get32 40 targetData; nlink = (if n > 0 then n - 1 else n) in
       andThen (liftR (put_at 40 (put32 nlink) targetData)) (\<lambda>targetData'.
       if nlink = 0 then
         andThen (attempt (deleteFs (inode_key targetInode))) (\<lambda>_.
         andThen (extent_keys targetInode) delete_quiet)
       else andThen (attempt (updateFs (inode_key targetInode) targetData')) (\<lambda>_. ret ())))))"

definition touch_dir :: "u64 \<Rightarrow> u64 \<Rightarrow> (BtrfsFS, unit) op" where
  "touch_dir now dirNode =
     andThen (walkFSTree (inode_last_callback dirNode) []) (\<lambda>(_, dData).
     if length dData < 100 then ret ()
     else andThen (liftR (touch_both now dData)) (\<lambda>dData'.
       andThen (attempt (updateFs (inode_key dirNode) dData')) (\<lambda>_. ret ())))"

definition btrfs_Rename :: "u64 \<Rightarrow> bytes \<Rightarrow> bytes \<Rightarrow> (BtrfsFS, unit) op" where
  "btrfs_Rename now oldpath newpath =
     andThen (liftR (btrfs_splitPath oldpath)) (\<lambda>(oldDir, oldName).
     andThen (liftR (btrfs_splitPath newpath)) (\<lambda>(newDir, newName).
     andThen (resolvePath oldDir) (\<lambda>oldDirInode.
     andThen (resolvePath newDir) (\<lambda>newDirInode.
     andThen (lookupDirEntryKey oldDirInode oldName) (\<lambda>(entryKey, child).
     andThen (readInodeInfo child) (\<lambda>childInfo.
     andThen (attempt (lookupDirEntryKey newDirInode newName)) (\<lambda>target.
     andThen (case target of Some kc \<Rightarrow> drop_target now kc | None \<Rightarrow> ret ()) (\<lambda>_.
     andThen (deleteFs entryKey) (\<lambda>_.
     andThen (add_entry newDirInode child newName
        (if n_IsDir childInfo then BTRFS_FT_DIR
         else if n_IsSymlink childInfo then BTRFS_FT_SYMLINK else BTRFS_FT_REG_FILE)) (\<lambda>_.
     andThen (touch_dir now oldDirInode) (\<lambda>_.
     andThen (touch_dir now newDirInode) (\<lambda>_.
     andThen (uncache oldpath) (\<lambda>_.
     andThen (uncache newpath) (\<lambda>_.
     andThen (uncache oldDir) (\<lambda>_.
     uncache newDir)))))))))))))))"

section \<open>Attributes\<close>

definition btrfs_Chmod :: "u64 \<Rightarrow> bytes \<Rightarrow> u32 \<Rightarrow> (BtrfsFS, unit) op" where
  "btrfs_Chmod now path mode =
     andThen (resolvePath path) (\<lambda>inodeNum.
     andThen (fetch_inode inodeNum) (\<lambda>data.
     andThen (liftR (bindR (put_at 52 (put32 ((get32 52 data AND 0xFFFF0000) OR (mode AND 0x0FFF))) data)
        (touch_ctime now))) (\<lambda>data'.
     updateFs (inode_key inodeNum) data')))"

definition set_owner :: "u32 \<Rightarrow> u32 \<Rightarrow> bytes \<Rightarrow> bytes res" where
  "set_owner uid gid data =
     bindR (if uid \<noteq> 0xFFFFFFFF then put_at 44 (put32 uid) data else Ok data) (\<lambda>data1.
     if gid \<noteq> 0xFFFFFFFF then put_at 48 (put32 gid) data1 else Ok data1)"

definition btrfs_Chown :: "u64 \<Rightarrow> bytes \<Rightarrow> u32 \<Rightarrow> u32 \<Rightarrow> (BtrfsFS, unit) op" where
  "btrfs_Chown now path uid gid =
     andThen (resolvePath path) (\<lambda>inodeNum.
     andThen (fetch_inode inodeNum) (\<lambda>data.
     andThen (liftR (bindR (set_owner uid gid data) (touch_ctime now))) (\<lambda>data'.
     updateFs (inode_key inodeNum) data')))"

section \<open>File contents\<close>

definition first_extent_callback :: "u64 \<Rightarrow> leafItem \<Rightarrow> bytes \<Rightarrow> (key \<times> bytes, unit) op" where
  "first_extent_callback n item d found =
     (Ok (), if is_item n BTRFS_EXTENT_DATA_KEY item \<and> K_offset (LI_key item) = 0 then (LI_key item, d) else found)"

definition last_extent_callback :: "u64 \<Rightarrow> leafItem \<Rightarrow> bytes \<Rightarrow> (key \<times> bytes, unit) op" where
  "last_extent_callback n item d found =
     (Ok (), if is_item n BTRFS_EXTENT_DATA_KEY item then (LI_key item, d) else found)"

text \<open>\<open>diskBytenr\<close> and \<open>numBytes\<close> of a regular extent, with the contents they name: the bytes on
  disk, whatever the compression.\<close>

definition read_regular :: "bytes \<Rightarrow> (BtrfsFS, bytes) op" where
  "read_regular extData =
     andThen (liftR (fst (r_u64 extData 21))) (\<lambda>diskBytenr.
     andThen (liftR (fst (r_u64 extData 45))) (\<lambda>numBytes.
     if diskBytenr > 0 \<and> numBytes > 0 then
       andThen (attempt (resolveB diskBytenr)) (\<lambda>phys.
       case phys of
         None \<Rightarrow> ret []
       | Some p \<Rightarrow>
           andThen (liftR (make_bytes (unat numBytes))) (\<lambda>blank.
           onBdev (readQuiet (length blank) (sint p))))
     else ret []))"

definition current_content :: "codecs \<Rightarrow> bytes \<Rightarrow> (BtrfsFS, bytes) op" where
  "current_content cd extData =
     (if extData = [] then ret []
      else
        andThen (liftR (fst (r_u8 extData 20))) (\<lambda>extType.
        if extType = BTRFS_FILE_EXTENT_INLINE then
          let ramBytes = get64 8 extData; ctype = extData ! 16; raw = drop 21 extData in
          if ctype \<noteq> BTRFS_COMPRESS_NONE then
            andThen (attempt (liftR (decompressData cd ctype raw ramBytes))) (\<lambda>dec.
            ret (case dec of Some d \<Rightarrow> d | None \<Rightarrow> []))
          else ret raw
        else if extType = BTRFS_FILE_EXTENT_REG then read_regular extData
        else ret []))"

text \<open>Writing contents to fresh space: the extent's logical address, or an error.\<close>

definition store_extent :: "string option \<Rightarrow> u64 \<Rightarrow> u64 \<Rightarrow> bytes \<Rightarrow> (BtrfsFS, u64) op" where
  "store_extent msg wanted alignedSize payload =
     andThen (allocateSpace wanted BTRFS_BLOCK_GROUP_DATA) (\<lambda>(logicalAddr, physAddr).
     andThen (liftR (make_bytes (unat alignedSize))) (\<lambda>blank.
     let diskBuf = copy_at 0 payload blank; wr = onBdev (writeBuf diskBuf (sint physAddr)) in
     andThen (case msg of Some m \<Rightarrow> wrapErr m wr | None \<Rightarrow> wr) (\<lambda>_.
     andThen (attempt (registerExtent logicalAddr alignedSize)) (\<lambda>_.
     ret logicalAddr))))"

definition final_content :: "bytes \<Rightarrow> int \<Rightarrow> bytes \<Rightarrow> bytes res" where
  "final_content currentContent ofst buf =
     bindR (make_bytes (unat (u64i ofst + of_nat (length buf)))) (\<lambda>blank.
     if ofst < 0 \<or> nat ofst > length blank then Panic
     else Ok (copy_at (nat ofst) buf (copy_at 0 currentContent blank)))"

definition choose_payload :: "codecs \<Rightarrow> bytes \<Rightarrow> (bytes \<times> u8) res" where
  "choose_payload cd finalContent =
     (case compressZlib cd finalContent of
        Ok compressed \<Rightarrow>
          if length compressed < length finalContent then Ok (compressed, BTRFS_COMPRESS_ZLIB)
          else Ok (finalContent, BTRFS_COMPRESS_NONE)
      | Err e \<Rightarrow> Ok (finalContent, BTRFS_COMPRESS_NONE)
      | Panic \<Rightarrow> Panic)"

definition write_inline :: "u64 \<Rightarrow> key \<Rightarrow> bytes \<Rightarrow> bytes \<Rightarrow> (BtrfsFS, unit) op" where
  "write_inline inodeNum foundExtKey extData finalContent =
     (let newExtItem = makeExtentDataInline finalContent in
      if extData \<noteq> [] then updateFs foundExtKey newExtItem
      else insertFs (extent_key inodeNum) newExtItem)"

definition write_regular :: "codecs \<Rightarrow> u64 \<Rightarrow> bytes \<Rightarrow> (BtrfsFS, unit) op" where
  "write_regular cd inodeNum finalContent =
     andThen (liftR (choose_payload cd finalContent)) (\<lambda>(payload, compression).
     andThen (getS sector_size) (\<lambda>ss.
     let alignedSize = align_sector ss (of_nat (length payload)) in
     andThen (store_extent (Some ''btrfs: write regular extent: %w'') alignedSize alignedSize payload) (\<lambda>logicalAddr.
     andThen (extent_keys inodeNum) (\<lambda>keysToDelete.
     andThen (delete_quiet keysToDelete) (\<lambda>_.
     andThen (getS (makeExtentDataRegularCompressed logicalAddr alignedSize (of_nat (length finalContent)) compression)) (\<lambda>newExtItem.
     insertFs (extent_key inodeNum) newExtItem))))))"

definition grow_inode :: "u64 \<Rightarrow> u64 \<Rightarrow> u64 \<Rightarrow> (BtrfsFS, unit) op" where
  "grow_inode now inodeNum newSize =
     andThen (walkFSTree (inode_last_callback inodeNum) []) (\<lambda>(_, inodeData).
     if length inodeData < 100 then ret ()
     else
       andThen (liftR (bindR (if newSize > get64 16 inodeData then put_at 16 (put64 newSize) inodeData else Ok inodeData)
         (touch_both now))) (\<lambda>inodeData'.
       andThen (attempt (updateFs (inode_key inodeNum) inodeData')) (\<lambda>_. ret ())))"

definition btrfs_Write :: "codecs \<Rightarrow> u64 \<Rightarrow> bytes \<Rightarrow> bytes \<Rightarrow> int \<Rightarrow> (BtrfsFS, int) op" where
  "btrfs_Write cd now path buf ofst =
     (if buf = [] then ret 0
      else
        andThen (resolvePath path) (\<lambda>inodeNum.
        andThen (walkFSTree (first_extent_callback inodeNum) (Key 0 0 0, [])) (\<lambda>(_, (foundExtKey, extData)).
        andThen (current_content cd extData) (\<lambda>currentContent.
        andThen (liftR (final_content currentContent ofst buf)) (\<lambda>finalContent.
        andThen (if length finalContent \<le> 2048 then write_inline inodeNum foundExtKey extData finalContent
                 else write_regular cd inodeNum finalContent) (\<lambda>_.
        andThen (grow_inode now inodeNum (of_nat (length finalContent))) (\<lambda>_.
        andThen (uncache path) (\<lambda>_.
        ret (int (length buf))))))))))"

definition resized :: "int \<Rightarrow> bytes \<Rightarrow> bytes res" where
  "resized sz old = (if sz < 0 then Panic else bindR (make_bytes (nat sz)) (\<lambda>blank. Ok (copy_at 0 old blank)))"

definition replace_extent :: "u64 \<Rightarrow> key \<Rightarrow> int \<Rightarrow> bytes \<Rightarrow> (BtrfsFS, unit) op" where
  "replace_extent inodeNum extKey sz newContent =
     andThen (getS sector_size) (\<lambda>ss.
     let alignedSize = align_sector ss (u64i sz) in
     andThen (store_extent None (u64i sz) alignedSize newContent) (\<lambda>logicalAddr.
     andThen (attempt (deleteFs extKey)) (\<lambda>_.
     andThen (getS (makeExtentDataRegular logicalAddr alignedSize (u64i sz))) (\<lambda>newExtItem.
     insertFs (extent_key inodeNum) newExtItem))))"

definition resize_extent :: "u64 \<Rightarrow> int \<Rightarrow> key \<Rightarrow> bytes \<Rightarrow> (BtrfsFS, unit) op" where
  "resize_extent inodeNum sz extKey extData =
     (if extData = [] then ret ()
      else
        andThen (liftR (fst (r_u8 extData 20))) (\<lambda>extType.
        if extType = BTRFS_FILE_EXTENT_INLINE then
          if sz \<le> 2048 then
            andThen (liftR (resized sz (drop 21 extData))) (\<lambda>newInlineData.
            updateFs extKey (copy_at 8 (put64 (u64i sz)) (take 21 extData) @ newInlineData))
          else
            andThen (liftR (resized sz (drop 21 extData))) (\<lambda>newContent.
            replace_extent inodeNum extKey sz newContent)
        else if extType = BTRFS_FILE_EXTENT_REG then
          andThen (read_regular extData) (\<lambda>oldContent.
          andThen (liftR (resized sz oldContent)) (\<lambda>newContent.
          replace_extent inodeNum extKey sz newContent))
        else ret ()))"

definition btrfs_Truncate :: "u64 \<Rightarrow> bytes \<Rightarrow> int \<Rightarrow> (BtrfsFS, unit) op" where
  "btrfs_Truncate now path sz =
     andThen (resolvePath path) (\<lambda>inodeNum.
     andThen (fetch_inode inodeNum) (\<lambda>data.
     andThen (liftR (bindR (put_at 16 (put64 (u64i sz)) data) (touch_both now))) (\<lambda>data'.
     andThen (updateFs (inode_key inodeNum) data') (\<lambda>_.
     andThen (if sz = 0 then andThen (extent_keys inodeNum) delete_each
              else andThen (walkFSTree (last_extent_callback inodeNum) (Key 0 0 0, [])) (\<lambda>(_, (extKey, extData)).
                resize_extent inodeNum sz extKey extData)) (\<lambda>_.
     uncache path)))))"

section \<open>Extended attributes\<close>

definition btrfs_Getxattr :: "fuse_codes \<Rightarrow> bytes \<Rightarrow> bytes \<Rightarrow> (BtrfsFS, int \<times> bytes option) op" where
  "btrfs_Getxattr c path name = ret (- ENOSYS c, None)"

definition btrfs_Setxattr :: "fuse_codes \<Rightarrow> bytes \<Rightarrow> bytes \<Rightarrow> bytes \<Rightarrow> int \<Rightarrow> (BtrfsFS, int) op" where
  "btrfs_Setxattr c path name value flags = ret (- ENOSYS c)"

definition btrfs_Listxattr :: "fuse_codes \<Rightarrow> bytes \<Rightarrow> (bytes list \<Rightarrow> bytes \<Rightarrow> bool) \<Rightarrow> (BtrfsFS, int) op" where
  "btrfs_Listxattr c path fill = ret (- ENOSYS c)"

definition btrfs_Removexattr :: "fuse_codes \<Rightarrow> bytes \<Rightarrow> bytes \<Rightarrow> (BtrfsFS, int) op" where
  "btrfs_Removexattr c path name = ret (- ENOSYS c)"

end
