(* ===== verification/Btrfs_Fsck.thy ===== *)
theory Btrfs_Fsck
  imports Btrfs_Update
begin

text \<open>
  \<open>btrfs/fsck.go\<close>: the check of checksums and key order over the chunk, file and extent trees. A
  problem is its severity and the format string of its message. The check never returns an error:
  what it cannot resolve or read becomes a problem. The text report is left out.

  A leaf that the writer laid out passes; a leaf in which one byte behind the checksum
  has changed does not.
\<close>

record BtrfsFsckProblem =
  Severity :: string
  Message :: string

record BtrfsFsckResult =
  NodesChecked :: u32
  ItemsChecked :: u32
  Problems :: "BtrfsFsckProblem list"
  Healthy :: bool

type_synonym 'a fsck = "(BtrfsFS \<times> BtrfsFsckResult, 'a) op"

definition report :: "string \<Rightarrow> BtrfsFsckResult \<Rightarrow> BtrfsFsckResult" where
  "report msg res =
     res\<lparr>Healthy := False, Problems := Problems res @ [\<lparr>Severity = ''error'', Message = msg\<rparr>]\<rparr>"

definition warn :: "string \<Rightarrow> BtrfsFsckResult \<Rightarrow> BtrfsFsckResult" where
  "warn msg res = res\<lparr>Problems := Problems res @ [\<lparr>Severity = ''warning'', Message = msg\<rparr>]\<rparr>"

definition onResult :: "(BtrfsFsckResult \<Rightarrow> BtrfsFsckResult) \<Rightarrow> unit fsck" where
  "onResult f = modS (\<lambda>(b, res). (b, f res))"

definition onVolume :: "(BtrfsFS, 'a) op \<Rightarrow> 'a fsck" where
  "onVolume m = (\<lambda>(b, res). case m b of (r, b') \<Rightarrow> (r, (b', res)))"

primrec order_loop :: "bytes \<Rightarrow> nat \<Rightarrow> nat \<Rightarrow> key option \<Rightarrow> unit fsck" where
  "order_loop buf 0 off prev = ret ()"
| "order_loop buf (Suc n) off prev =
     andThen (liftR (fst (decodeLeafItem buf off))) (\<lambda>item.
     andThen (case prev of
        Some prevKey \<Rightarrow>
          if compareKeys (LI_key item) prevKey \<le> 0
          then onResult (report ''Item key out of order at logical 0x%x, index %d'') else ret ()
      | None \<Rightarrow> ret ()) (\<lambda>_.
     order_loop buf n (off + 25) (Some (LI_key item))))"

primrec child_loop :: "(u64 \<Rightarrow> unit fsck) \<Rightarrow> bytes \<Rightarrow> nat \<Rightarrow> nat \<Rightarrow> unit fsck" where
  "child_loop visit buf 0 off = ret ()"
| "child_loop visit buf (Suc n) off =
     andThen (liftR (fst (decodeInternalPtr buf off))) (\<lambda>ptr.
     andThen (visit (IP_blockptr ptr)) (\<lambda>_.
     child_loop visit buf n (off + 33)))"

definition check_sum :: "bytes \<Rightarrow> unit fsck" where
  "check_sum buf =
     (if length buf < 32 then panic
      else if calcCrc32c (drop 32 buf) \<noteq> get32 0 buf
      then onResult (report ''CRC32c checksum mismatch at logical 0x%x (phys 0x%x): got 0x%x, calculated 0x%x'')
      else ret ())"

text \<open>The part of \<open>verifyTreeChecksums\<close> behind the read: \<open>visit\<close> is the recursive call.\<close>

definition verify_node :: "(u64 \<Rightarrow> unit fsck) \<Rightarrow> bytes \<Rightarrow> unit fsck" where
  "verify_node visit buf =
     andThen (onResult (\<lambda>res. res\<lparr>NodesChecked := NodesChecked res + 1\<rparr>)) (\<lambda>_.
     andThen (check_sum buf) (\<lambda>_.
     andThen (liftR (fst (decodeNodeHeader buf 0))) (\<lambda>h.
     if NH_level h = 0 then
       andThen (onResult (\<lambda>res. res\<lparr>ItemsChecked := ItemsChecked res + NH_nritems h\<rparr>)) (\<lambda>_.
       order_loop buf (unat (NH_nritems h)) nodeHeaderSize None)
     else child_loop visit buf (unat (NH_nritems h)) nodeHeaderSize)))"

primrec verifyTreeChecksums :: "nat \<Rightarrow> u64 \<Rightarrow> unit fsck" where
  "verifyTreeChecksums 0 addr = panic"
| "verifyTreeChecksums (Suc depth) addr =
     andThen (attempt (onVolume (resolveB addr))) (\<lambda>phys.
     case phys of
       None \<Rightarrow> onResult (report ''Failed to resolve logical address 0x%x: %v'')
     | Some p \<Rightarrow>
         andThen (getS (\<lambda>(b, res). TC_nodeSize (B_tc b))) (\<lambda>ns.
         andThen (attempt (onVolume (onBdev (readNode p ns)))) (\<lambda>buf.
         case buf of
           None \<Rightarrow> onResult (report ''Failed to read node at physical address 0x%x: %v'')
         | Some bs \<Rightarrow> verify_node (verifyTreeChecksums depth) bs)))"

definition fsck_super :: "BtrfsSuper \<Rightarrow> BtrfsFsckResult \<Rightarrow> BtrfsFsckResult" where
  "fsck_super sb res0 =
     (let res1 = (if Sb_Magic sb \<noteq> btrfsMagic then report ''Invalid Btrfs magic: 0x%X (expected 0x%X)'' res0 else res0)
      in if Sb_SectorSize sb \<noteq> 4096 then warn ''Non-standard sector size: %d'' res1 else res1)"

definition empty_result :: BtrfsFsckResult where
  "empty_result = \<lparr>NodesChecked = 0, ItemsChecked = 0, Problems = [], Healthy = True\<rparr>"

definition fsck_trees :: "unit fsck" where
  "fsck_trees =
     andThen (getS fst) (\<lambda>b.
     andThen (verifyTreeChecksums stack_depth (Sb_ChunkRoot (B_sb b))) (\<lambda>_.
     andThen (verifyTreeChecksums stack_depth (B_fsRoot b)) (\<lambda>_.
     if B_extentRoot b \<noteq> 0 then verifyTreeChecksums stack_depth (B_extentRoot b) else ret ())))"

text \<open>\<open>Fsck\<close> on a file system that was or was not mounted.\<close>

definition btrfs_Fsck :: "BtrfsFS option \<Rightarrow> BtrfsFsckResult res \<times> BtrfsFS option" where
  "btrfs_Fsck fs =
     (case fs of
        None \<Rightarrow> (Ok (report ''Btrfs superblock not loaded'' empty_result), None)
      | Some b \<Rightarrow>
          (case fsck_trees (b, fsck_super (B_sb b) empty_result) of (r, (b', res)) \<Rightarrow>
             (mapR (\<lambda>_. res) r, Some b')))"

section \<open>What a check of a leaf reports\<close>

lemma order_loop_sorted:
  assumes "off + 25 * n \<le> length buf"
    and "sorted_wrt (<) (map (\<lambda>i. LI_key (item_at (off + 25 * i) buf)) [0..<n])"
    and "\<forall>k. prev = Some k \<longrightarrow> 0 < n \<longrightarrow> k < LI_key (item_at off buf)"
  shows "order_loop buf n off prev s = (Ok (), s)"
  using assms
proof (induction n arbitrary: off prev)
  case (Suc n)
  let ?k = "\<lambda>i. LI_key (item_at (off + 25 * i) buf)"
  have split: "[0..<Suc n] = 0 # map Suc [0..<n]" by (simp add: map_Suc_upt upt_conv_Cons)
  have less: "\<forall>i\<in>set [0..<n]. ?k 0 < ?k (Suc i)"
    and rest: "sorted_wrt (<) (map (\<lambda>i. ?k (Suc i)) [0..<n])"
    using Suc.prems(2) unfolding split by (simp_all add: comp_def)
  have IH: "order_loop buf n (off + 25) (Some (?k 0)) s = (Ok (), s)"
  proof (rule Suc.IH)
    show "off + 25 + 25 * n \<le> length buf" using Suc.prems(1) by simp
    show "sorted_wrt (<) (map (\<lambda>i. LI_key (item_at (off + 25 + 25 * i) buf)) [0..<n])"
      using rest by (simp add: add.assoc)
    show "\<forall>k. Some (?k 0) = Some k \<longrightarrow> 0 < n \<longrightarrow> k < LI_key (item_at (off + 25) buf)"
      using bspec [OF less, of 0] by auto
  qed
  have "(case prev of
        Some prevKey \<Rightarrow>
          if compareKeys (LI_key (item_at off buf)) prevKey \<le> 0
          then onResult (report ''Item key out of order at logical 0x%x, index %d'') else ret ()
      | None \<Rightarrow> ret ()) s = (Ok (), s)"
    using Suc.prems(3) by (cases prev) (auto simp: compareKeys_order)
  with IH Suc.prems(1) show ?case by (simp add: decodeLeafItem_eq)
qed simp

text \<open>No step makes an unhealthy result healthy again.\<close>

definition unhealthy_stays :: "'a fsck \<Rightarrow> bool" where
  "unhealthy_stays m \<longleftrightarrow> (\<forall>b res. \<not> Healthy res \<longrightarrow> \<not> Healthy (snd (snd (m (b, res)))))"

named_theorems stays

lemma unhealthy_staysD: "unhealthy_stays m \<Longrightarrow> \<not> Healthy res \<Longrightarrow> m (b, res) = (r, (b', res')) \<Longrightarrow> \<not> Healthy res'"
  unfolding unhealthy_stays_def by (metis snd_conv)

lemma unhealthy_staysI:
  "(\<And>b res r b' res'. \<not> Healthy res \<Longrightarrow> m (b, res) = (r, (b', res')) \<Longrightarrow> \<not> Healthy res') \<Longrightarrow> unhealthy_stays m"
  unfolding unhealthy_stays_def by (metis prod.collapse)

lemma stays_bind [stays]: "unhealthy_stays m \<Longrightarrow> (\<And>x. unhealthy_stays (f x)) \<Longrightarrow> unhealthy_stays (andThen m f)"
  by (rule unhealthy_staysI) (auto simp: andThen_def split: prod.splits res.splits dest: unhealthy_staysD)

lemma stays_attempt [stays]: "unhealthy_stays m \<Longrightarrow> unhealthy_stays (attempt m)"
  by (rule unhealthy_staysI) (auto simp: attempt_def split: prod.splits res.splits dest: unhealthy_staysD)

lemma stays_basic [stays]:
  "unhealthy_stays (ret x)" "unhealthy_stays (liftR r)" "unhealthy_stays panic" "unhealthy_stays (getS f)"
  "unhealthy_stays (onVolume v)" "unhealthy_stays (onResult (report msg))"
  "unhealthy_stays (onResult (\<lambda>res. res\<lparr>NodesChecked := g res\<rparr>))"
  "unhealthy_stays (onResult (\<lambda>res. res\<lparr>ItemsChecked := g res\<rparr>))"
  by (auto simp: unhealthy_stays_def onVolume_def onResult_def report_def split: prod.splits)

lemma stays_order_loop [stays]: "unhealthy_stays (order_loop buf n off prev)"
  by (induction n arbitrary: off prev) (auto intro!: stays split: option.split)

lemma stays_check_sum [stays]: "unhealthy_stays (check_sum buf)"
  by (auto simp: check_sum_def intro!: stays)

lemma stays_child_loop [stays]: "(\<And>a. unhealthy_stays (visit a)) \<Longrightarrow> unhealthy_stays (child_loop visit buf n off)"
  by (induction n arbitrary: off) (auto intro!: stays)

lemma stays_verify_node [stays]: "(\<And>a. unhealthy_stays (visit a)) \<Longrightarrow> unhealthy_stays (verify_node visit buf)"
  unfolding verify_node_def by (intro stays) (auto intro!: stays)

lemma stays_verify [stays]: "unhealthy_stays (verifyTreeChecksums depth addr)"
proof (induction depth arbitrary: addr)
  case (Suc depth)
  then show ?case by (auto intro!: stays split: option.split)
qed (simp only: verifyTreeChecksums.simps stays)

text \<open>A checksum that does not match makes the result unhealthy, whatever follows.\<close>

lemma verify_node_bad_sum:
  assumes "\<And>a. unhealthy_stays (visit a)" and "32 \<le> length buf" and "calcCrc32c (drop 32 buf) \<noteq> get32 0 buf"
  shows "\<not> Healthy (snd (snd (verify_node visit buf (b, res))))"
proof -
  define rest where "rest = (\<lambda>_ :: unit. andThen (liftR (fst (decodeNodeHeader buf 0))) (\<lambda>h.
     if NH_level h = 0 then
       andThen (onResult (\<lambda>res. res\<lparr>ItemsChecked := ItemsChecked res + NH_nritems h\<rparr>)) (\<lambda>_.
       order_loop buf (unat (NH_nritems h)) nodeHeaderSize None)
     else child_loop visit buf (unat (NH_nritems h)) nodeHeaderSize))"
  have "unhealthy_stays (rest ())"
    unfolding rest_def using assms(1) by (auto intro!: stays)
  then show ?thesis
    using assms(2,3)
    by (simp add: verify_node_def check_sum_def onResult_def unhealthy_stays_def report_def flip: rest_def)
qed

lemma verify_step:
  assumes "dev_ok (B_dev b)" and "tree_node (content (B_dev b)) (B_tc b) addr = Some buf"
  shows "verifyTreeChecksums (Suc depth) addr (b, res) = verify_node (verifyTreeChecksums depth) buf (b, res)"
proof -
  from assms(2) obtain phys where p: "resolve (B_tc b) addr = Ok phys" "101 \<le> unat (TC_nodeSize (B_tc b))"
      "unat phys + unat (TC_nodeSize (B_tc b)) \<le> length (content (B_dev b))"
      "buf = bslice (unat phys) (unat phys + unat (TC_nodeSize (B_tc b))) (content (B_dev b))"
    by (rule tree_node_Some)
  then have "readNode phys (TC_nodeSize (B_tc b)) (B_dev b) = (Ok buf, B_dev b)"
    using assms(1) by (simp add: readNode_ok)
  with p(1) show ?thesis
    by (simp add: onVolume_def onBdev_def resolveB_def attempt_def)
qed

lemma verify_leaf:
  assumes "dev_ok (B_dev b)" and "tree_node (content (B_dev b)) (B_tc b) addr = Some buf"
    and "NH_level (header_at buf) = 0" and "calcCrc32c (drop 32 buf) = get32 0 buf"
    and "101 + 25 * n \<le> length buf" and "n = unat (NH_nritems (header_at buf))"
    and "sorted_wrt (<) (map (\<lambda>i. LI_key (item_at (101 + 25 * i) buf)) [0..<n])"
  shows "verifyTreeChecksums (Suc depth) addr (b, res) =
    (Ok (), (b, res\<lparr>NodesChecked := NodesChecked res + 1,
                    ItemsChecked := ItemsChecked res + NH_nritems (header_at buf)\<rparr>))"
proof -
  have "order_loop buf n 101 None s = (Ok (), s)" for s
    by (rule order_loop_sorted) (use assms(5,7) in simp_all)
  then show ?thesis
    using assms(3-6) unfolding verify_step [OF assms(1,2)]
    by (simp add: verify_node_def check_sum_def onResult_def decodeNodeHeader_eq)
qed

end
