(* ===== verification/Btrfs_Small.thy ===== *)
theory Btrfs_Small
  imports Btrfs_Ops Btrfs_Fsck
begin

text \<open>
  A file tree that is one leaf, as a finite map from keys to payloads. \<open>small_fs b items\<close> says that
  the leaf at the root of the file tree holds \<open>items\<close> in strictly increasing key order;
  \<open>item_map items\<close> is the map. A walk is a fold over the items, and insertion, deletion and update
  are the map operations, as long as the leaf has room: every fact about an operation of
  the driver on such a volume follows from these.
\<close>

section \<open>Leaves as sorted lists\<close>

definition item_map :: "itemEntry list \<Rightarrow> key \<rightharpoonup> bytes" where
  "item_map items = map_of (map (\<lambda>it. (IE_k it, IE_data it)) items)"

definition keys_sorted :: "itemEntry list \<Rightarrow> bool" where
  "keys_sorted items \<longleftrightarrow> sorted_wrt (<) (map IE_k items)"

lemma item_map_simps [simp]:
  "item_map [] = Map.empty" "item_map (it # its) = (item_map its)(IE_k it \<mapsto> IE_data it)"
  by (simp_all add: item_map_def)

lemma item_map_dom: "item_map items k = None \<longleftrightarrow> k \<notin> IE_k ` set items"
  by (induction items) auto

lemma item_map_append: "item_map (xs @ ys) = item_map ys ++ item_map xs"
  by (simp add: item_map_def)

lemma keys_sorted_simps [simp]:
  "keys_sorted []"
  "keys_sorted (it # its) \<longleftrightarrow> (\<forall>x\<in>set its. IE_k it < IE_k x) \<and> keys_sorted its"
  "keys_sorted (xs @ ys) \<longleftrightarrow> keys_sorted xs \<and> keys_sorted ys \<and> (\<forall>x\<in>set xs. \<forall>y\<in>set ys. IE_k x < IE_k y)"
  by (auto simp: keys_sorted_def sorted_wrt_append)

lemma key_less_iff: "key_less k l \<longleftrightarrow> k < l"
  by (simp add: less_key_def)

lemma insert_entry_simps:
  "insert_entry k d [] = [entry k d]"
  "insert_entry k d (it # its) = (if IE_k it < k then it # insert_entry k d its else entry k d # it # its)"
  by (simp_all add: insert_entry_def Let_def key_less_iff)

lemma set_insert_entry: "set (insert_entry k d items) = insert (entry k d) (set items)"
  by (induction items) (auto simp: insert_entry_simps)

lemma insert_entry_map: "item_map items k = None \<Longrightarrow> item_map (insert_entry k d items) = (item_map items)(k \<mapsto> d)"
  by (induction items) (auto simp: insert_entry_simps fun_upd_twist split: if_splits)

lemma insert_entry_sorted:
  "keys_sorted items \<Longrightarrow> item_map items k = None \<Longrightarrow> keys_sorted (insert_entry k d items)"
proof (induction items)
  case (Cons it its)
  then have "k \<noteq> IE_k it" "item_map its k = None" by (auto split: if_splits)
  with Cons show ?case
    by (auto simp: insert_entry_simps set_insert_entry)
qed (simp add: insert_entry_simps)

lemma length_insert_entry [simp]: "length (insert_entry k d items) = Suc (length items)"
  by (induction items) (simp_all add: insert_entry_simps)

lemma total_insert_entry [simp]: "total_data (insert_entry k d items) = total_data items + length d"
  by (induction items) (simp_all add: insert_entry_simps)

lemma last_index_Some:
  "last_index k items = Some i \<Longrightarrow> i < length items \<and> IE_k (items ! i) = k"
  by (induction items arbitrary: i) (auto split: option.splits if_splits)

lemma last_index_None: "last_index k items = None \<longleftrightarrow> item_map items k = None"
  by (induction items) (auto split: option.splits)

lemma item_map_nth:
  assumes "keys_sorted items" and "i < length items"
  shows "item_map items (IE_k (items ! i)) = Some (IE_data (items ! i))"
  using assms
proof (induction items arbitrary: i)
  case (Cons it its)
  show ?case
  proof (cases i)
    case (Suc j)
    with Cons.prems have "its ! j \<in> set its" by simp
    with Cons.prems have "IE_k it \<noteq> IE_k (its ! j)" by auto
    with Cons Suc show ?thesis by auto
  qed simp
qed simp

lemma split_at: "i < length xs \<Longrightarrow> xs = take i xs @ xs ! i # drop (Suc i) xs"
  by (rule id_take_nth_drop)

lemma delete_entry_map:
  assumes "keys_sorted items" and "item_map items k = Some d"
  obtains items' where "delete_entry k items = Ok items'" and "keys_sorted items'"
    and "item_map items' = (item_map items)(k := None)"
    and "leaf_needed items' + 25 + length d = leaf_needed items" and "Suc (length items') = length items"
proof -
  obtain i where i: "last_index k items = Some i" using assms(2) last_index_None [of k items] by auto
  from last_index_Some [OF this] have len: "i < length items" and k: "IE_k (items ! i) = k" by simp_all
  define xs ys x where xy: "xs = take i items" "ys = drop (Suc i) items" "x = items ! i"
  have items: "items = xs @ x # ys" unfolding xy by (rule split_at [OF len])
  have d: "IE_data x = d" using item_map_nth [OF assms(1) len] assms(2) by (simp add: k xy)
  have k': "IE_k x = k" by (simp add: k xy)
  have srt: "keys_sorted (xs @ ys)" using assms(1) unfolding items by auto
  have "k \<notin> IE_k ` set xs" "k \<notin> IE_k ` set ys" using assms(1) k' unfolding items by auto
  then have "item_map xs k = None" "item_map ys k = None" by (simp_all add: item_map_dom)
  then have map: "item_map (xs @ ys) = (item_map items)(k := None)"
    by (auto simp: items item_map_append k' map_add_def fun_eq_iff split: option.splits)
  show ?thesis
  proof (rule that)
    show "delete_entry k items = Ok (xs @ ys)" by (simp add: delete_entry_def i xy)
    show "leaf_needed (xs @ ys) + 25 + length d = leaf_needed items"
      by (simp add: items leaf_needed_def d)
    show "Suc (length (xs @ ys)) = length items" by (simp add: items)
  qed (fact srt map)+
qed

lemma update_entry_map:
  assumes "keys_sorted items" and "item_map items k = Some d" and "leaf_needed items + length d' \<le> bs + length d"
  obtains items' where "update_entry k d' bs items = Ok items'" and "keys_sorted items'"
    and "item_map items' = (item_map items)(k \<mapsto> d')"
    and "leaf_needed items' + length d = leaf_needed items + length d'" and "length items' = length items"
proof -
  obtain i where i: "last_index k items = Some i" using assms(2) last_index_None [of k items] by auto
  from last_index_Some [OF this] have len: "i < length items" and k: "IE_k (items ! i) = k" by simp_all
  define xs ys x where xy: "xs = take i items" "ys = drop (Suc i) items" "x = items ! i"
  have items: "items = xs @ x # ys" unfolding xy by (rule split_at [OF len])
  have d: "IE_data x = d" using item_map_nth [OF assms(1) len] assms(2) by (simp add: k xy)
  have k': "IE_k x = k" by (simp add: k xy)
  define items' where "items' = xs @ x\<lparr>IE_data := d'\<rparr> # ys"
  have upd: "items[i := (items ! i)\<lparr>IE_data := d'\<rparr>] = items'"
    using len by (simp add: items'_def xy upd_conv_take_nth_drop)
  have srt: "keys_sorted items'" using assms(1) unfolding items items'_def by auto
  have "k \<notin> IE_k ` set xs" using assms(1) k' unfolding items by auto
  then have "item_map xs k = None" by (simp add: item_map_dom)
  then have map: "item_map items' = (item_map items)(k \<mapsto> d')"
    by (auto simp: items items'_def item_map_append k' map_add_def fun_eq_iff split: option.splits)
  have need: "leaf_needed items' + length d = leaf_needed items + length d'"
    by (simp add: items items'_def leaf_needed_def d)
  show ?thesis
  proof (rule that)
    show "update_entry k d' bs items = Ok items'"
      using need assms(3) by (simp add: update_entry_def i upd)
    show "length items' = length items" by (simp add: items items'_def)
  qed (fact srt map need)+
qed

section \<open>A file tree that is one leaf\<close>

definition max_node :: nat where "max_node = 65536"

definition leaf_buf :: "BtrfsFS \<Rightarrow> u64 \<Rightarrow> bytes" where
  "leaf_buf b phys = bslice (unat phys) (unat phys + nodeSize b) (content (B_dev b))"

definition leaf_at :: "BtrfsFS \<Rightarrow> u64 \<Rightarrow> u64 \<Rightarrow> itemEntry list \<Rightarrow> bool" where
  "leaf_at b addr phys items \<longleftrightarrow>
     dev_ok (B_dev b) \<and> TC_nodeSize (B_tc b) = Sb_NodeSize (B_sb b) \<and> resolve (B_tc b) addr = Ok phys \<and>
     101 \<le> nodeSize b \<and> nodeSize b \<le> max_node \<and> unat phys + nodeSize b \<le> length (content (B_dev b)) \<and>
     leaf_buf b phys ! 100 = 0 \<and> unat (get32 96 (leaf_buf b phys)) = length items \<and>
     parse_leaf '''' (leaf_buf b phys) 0 (length items) = Ok items"

definition small_fs :: "BtrfsFS \<Rightarrow> itemEntry list \<Rightarrow> bool" where
  "small_fs b items \<longleftrightarrow>
     B_fsRootLvl b = 0 \<and> keys_sorted items \<and> leaf_needed items \<le> nodeSize b \<and> (\<exists>phys. leaf_at b (B_fsRoot b) phys items)"

lemma parse_leaf_msg: "parse_leaf msg buf i n = Ok its \<Longrightarrow> parse_leaf msg' buf i n = Ok its"
  by (induction n arbitrary: i its) (auto simp: Let_def split: if_splits res.splits)

lemma leaf_atD:
  assumes "leaf_at b addr phys items"
  shows "dev_ok (B_dev b)" and "TC_nodeSize (B_tc b) = Sb_NodeSize (B_sb b)"
    and "resolve (B_tc b) addr = Ok phys" and "101 \<le> nodeSize b" and "nodeSize b \<le> max_node"
    and "unat phys + nodeSize b \<le> length (content (B_dev b))"
    and "length (leaf_buf b phys) = nodeSize b" and "parse_items msg (leaf_buf b phys) = Ok items"
    and "sint phys = int (unat phys)"
    and "readBuf (nodeSize b) (int (unat phys)) (B_dev b) = (Ok (leaf_buf b phys), B_dev b)"
proof -
  note a = assms [unfolded leaf_at_def]
  show "dev_ok (B_dev b)" "TC_nodeSize (B_tc b) = Sb_NodeSize (B_sb b)"
    "resolve (B_tc b) addr = Ok phys" "101 \<le> nodeSize b" "nodeSize b \<le> max_node"
    "unat phys + nodeSize b \<le> length (content (B_dev b))"
    using a by blast+
  then show len: "length (leaf_buf b phys) = nodeSize b" by (simp add: leaf_buf_def)
  show "parse_items msg (leaf_buf b phys) = Ok items"
    using a parse_leaf_msg [of "''''" _ 0 _ items msg] len by (simp add: parse_items_def r_u32_def)
  show "sint phys = int (unat phys)"
    using a dev_ok_size [of "B_dev b"] by (intro sint_u64_small) simp
  show "readBuf (nodeSize b) (int (unat phys)) (B_dev b) = (Ok (leaf_buf b phys), B_dev b)"
    unfolding leaf_buf_def using a by (intro readBuf_ok) simp_all
qed

lemma leaf_node_buf:
  assumes "leaf_at b addr phys items"
  shows "tree_node (content (B_dev b)) (B_tc b) addr = Some (leaf_buf b phys)"
  using leaf_atD [OF assms] by (simp add: tree_node_def leaf_buf_def nodeSize_def)

lemma leaf_btree:
  assumes "leaf_at b addr phys items"
  obtains its where "btree (content (B_dev b)) (B_tc b) h addr its" and "map tree_entry its = items"
proof -
  note a = assms [unfolded leaf_at_def] and D = leaf_atD [OF assms]
  have "length (leaf_buf b phys) < 2 ^ 32" using D(5,7) by (simp add: max_node_def)
  then obtain its where its: "node_items (leaf_buf b phys) (length items) (101 + 0 * 25) = Some its" "map tree_entry its = items"
    using parse_leaf_node_items [of "''''" "leaf_buf b phys" 0 "length items" items] a by blast
  have "btree (content (B_dev b)) (B_tc b) h addr its"
    by (rule btree_leaf [OF leaf_node_buf [OF assms]]) (use a its in \<open>simp_all add: header_at_def\<close>)
  then show ?thesis using its(2) by (rule that)
qed

section \<open>Walking it\<close>

definition item_of :: "itemEntry \<Rightarrow> leafItem" where
  "item_of e = \<lparr>LI_key = IE_k e, LI_offset = 0, LI_size = 0\<rparr>"

definition key_only :: "(leafItem \<Rightarrow> bytes \<Rightarrow> ('a, unit) op) \<Rightarrow> bool" where
  "key_only f \<longleftrightarrow> (\<forall>item item' d. LI_key item = LI_key item' \<longrightarrow> f item d = f item' d)"

primrec collect_entries :: "(leafItem \<Rightarrow> bytes \<Rightarrow> ('a, unit) op) \<Rightarrow> itemEntry list \<Rightarrow> ('a, unit) op" where
  "collect_entries f [] = ret ()"
| "collect_entries f (e # es) = andThen (f (item_of e) (IE_data e)) (\<lambda>_. collect_entries f es)"

lemma collect_items_entries:
  assumes "key_only f"
  shows "collect_items f its = collect_entries f (map tree_entry its)"
proof (induction its)
  case (Cons x its)
  have "f (fst x) (snd x) = f (item_of (tree_entry x)) (snd x)"
    using assms unfolding key_only_def by (metis tree_entry_def item_of_def itemEntry.select_convs(1) leafItem.select_convs(1))
  with Cons show ?case by (simp add: tree_entry_def)
qed simp

definition walk_result :: "unit res \<times> 'a \<Rightarrow> (goerr option \<times> 'a) res" where
  "walk_result p = (case fst p of Ok _ \<Rightarrow> Ok (None, snd p) | Err e \<Rightarrow> Ok (Some e, snd p) | Panic \<Rightarrow> Panic)"

lemma walk_leaf:
  assumes "leaf_at b addr phys items" and "key_only f"
  shows "walk_with addr f a b = (walk_result (collect_entries f items a), b)"
proof -
  obtain its where its: "btree (content (B_dev b)) (B_tc b) 0 addr its" "map tree_entry its = items"
    by (rule leaf_btree [OF assms(1)])
  have "walkTree stack_depth (collecting f) addr (B_dev b, B_tc b, a) =
      with_walk (B_dev b) (B_tc b) (collect_items f its a)"
    by (rule walk_collects [OF its(1) leaf_atD(1) [OF assms(1)] refl]) (simp add: stack_depth_def)
  then show ?thesis
    by (simp add: walk_with_def with_walk_def collect_items_entries [OF assms(2)] its(2) walk_result_def)
qed

lemma walk_small:
  "small_fs b items \<Longrightarrow> key_only f \<Longrightarrow> walkFSTree f a b = (walk_result (collect_entries f items a), b)"
  by (auto simp: small_fs_def walkFSTree_def walk_leaf)

section \<open>Changing it\<close>

lemma leaf_write:
  assumes "leaf_at b addr phys items" and "leaf_needed items' \<le> nodeSize b"
  obtains img d' where "leaf_image (leaf_buf b phys) g l items' = Ok img"
    and "writeBuf img (int (unat phys)) (B_dev b) = (Ok (), d')"
    and "leaf_at (b\<lparr>B_dev := d'\<rparr>) addr phys items'"
    and "leaf_buf (b\<lparr>B_dev := d'\<rparr>) phys = img" and "get32 0 img = calcCrc32c (drop 32 img)"
proof -
  note D = leaf_atD [OF assms(1)] and a = assms(1) [unfolded leaf_at_def]
  have fit: "leaf_needed items' \<le> length (leaf_buf b phys)" "length (leaf_buf b phys) < 2 ^ 32"
    using assms(2) D(5,7) by (simp_all add: max_node_def)
  obtain img where img: "leaf_image (leaf_buf b phys) g l items' = Ok img" "length img = nodeSize b"
      "parse_items '''' img = Ok items'" "unat (get32 96 img) = length items'" "img ! 100 = leaf_buf b phys ! 100"
      "get32 0 img = calcCrc32c (drop 32 img)"
    by (rule leaf_image_parse [OF fit, of g l "''''"]) (use D(7) that in simp)
  define d' where "d' = dev_put (B_dev b) (unat phys) img"
  have ne: "img \<noteq> []" using img(2) D(4) by auto
  have room: "unat phys + length img \<le> length (content (B_dev b))" using D(6) img(2) by simp
  note W = writeBuf_ok [OF D(1) ne room, folded d'_def]
  have buf: "leaf_buf (b\<lparr>B_dev := d'\<rparr>) phys = img"
    using slice_copy_at_same [OF room] img(2) by (simp add: leaf_buf_def W(3) nodeSize_def)
  have "parse_leaf '''' img 0 (length items') = Ok items'"
    using img(2,3,4) D(4) by (simp add: parse_items_def r_u32_def split: if_splits)
  then have "leaf_at (b\<lparr>B_dev := d'\<rparr>) addr phys items'"
    using a img(4,5) buf W(2,3) unfolding leaf_at_def by (simp add: nodeSize_def)
  with img W buf show ?thesis by (intro that [of img d']) simp_all
qed

text \<open>The checksum of the root leaf is right.\<close>

definition root_sealed :: "BtrfsFS \<Rightarrow> bool" where
  "root_sealed b \<longleftrightarrow> (\<forall>phys. resolve (B_tc b) (B_fsRoot b) = Ok phys \<longrightarrow>
     get32 0 (leaf_buf b phys) = calcCrc32c (drop 32 (leaf_buf b phys)))"

lemma small_fsE:
  assumes "small_fs b items"
  obtains phys where "leaf_at b (B_fsRoot b) phys items" and "B_fsRootLvl b = 0" and "keys_sorted items"
    and "leaf_needed items \<le> nodeSize b"
  using assms by (auto simp: small_fs_def)

lemma stack_Suc: obtains n where "stack_depth = Suc n"
  using that [of 999999] by (simp add: stack_depth_def)

lemma insertFs_small:
  assumes "small_fs b items" and "item_map items k = None" and "leaf_needed items + 25 + length d \<le> nodeSize b"
  obtains d' where "insertFs k d b = (Ok (), b\<lparr>B_dev := d'\<rparr>)"
    and "small_fs (b\<lparr>B_dev := d'\<rparr>) (insert_entry k d items)" and "root_sealed (b\<lparr>B_dev := d'\<rparr>)"
proof -
  obtain phys where L: "leaf_at b (B_fsRoot b) phys items" "B_fsRootLvl b = 0" "keys_sorted items"
    using assms(1) by (rule small_fsE)
  note D = leaf_atD [OF L(1)]
  have fit: "leaf_needed (insert_entry k d items) \<le> nodeSize b"
    using assms(3) by (simp add: leaf_needed_def)
  have few: "length items < 0xFFF0"
    using assms(3) D(5) by (simp add: leaf_needed_def max_node_def)
  obtain img d' where W: "leaf_image (leaf_buf b phys) (generation b) (B_fsRoot b) (insert_entry k d items) = Ok img"
      "writeBuf img (int (unat phys)) (B_dev b) = (Ok (), d')"
      "leaf_at (b\<lparr>B_dev := d'\<rparr>) (B_fsRoot b) phys (insert_entry k d items)"
      "leaf_buf (b\<lparr>B_dev := d'\<rparr>) phys = img" "get32 0 img = calcCrc32c (drop 32 img)"
    by (rule leaf_write [OF L(1) fit])
  obtain n where n: "stack_depth = Suc n" by (rule stack_Suc)
  have "insertFs k d b = (Ok (), b\<lparr>B_dev := d'\<rparr>)"
    using D(3,8-10) W(1,2) L(2) few fit
    by (simp add: insertFs_def insertIntoLeaf_def n root_level_def findLeafWithPath_def path_leaf_def
        resolveB_def onBdev_def)
  moreover have "small_fs (b\<lparr>B_dev := d'\<rparr>) (insert_entry k d items)"
    using W(3) L(2,3) insert_entry_sorted [OF L(3) assms(2)] fit by (auto simp: small_fs_def nodeSize_def)
  moreover have "root_sealed (b\<lparr>B_dev := d'\<rparr>)"
    using D(3) W(4,5) by (simp add: root_sealed_def)
  ultimately show ?thesis by (rule that)
qed

lemma rewrite_small:
  assumes "small_fs b items" and "change (nodeSize b) items = Ok items'"
    and "leaf_needed items' \<le> nodeSize b" and "keys_sorted items'"
  obtains d' where "rewrite_leaf (B_fsRoot b) k change b = (Ok (), b\<lparr>B_dev := d'\<rparr>)"
    and "small_fs (b\<lparr>B_dev := d'\<rparr>) items'" and "root_sealed (b\<lparr>B_dev := d'\<rparr>)"
proof -
  obtain phys where L: "leaf_at b (B_fsRoot b) phys items" "B_fsRootLvl b = 0" "keys_sorted items"
    using assms(1) by (rule small_fsE)
  note D = leaf_atD [OF L(1)]
  obtain img d' where W: "leaf_image (leaf_buf b phys) (generation b) (B_fsRoot b) items' = Ok img"
      "writeBuf img (int (unat phys)) (B_dev b) = (Ok (), d')"
      "leaf_at (b\<lparr>B_dev := d'\<rparr>) (B_fsRoot b) phys items'"
      "leaf_buf (b\<lparr>B_dev := d'\<rparr>) phys = img" "get32 0 img = calcCrc32c (drop 32 img)"
    by (rule leaf_write [OF L(1) assms(3)])
  obtain n where n: "stack_depth = Suc n" by (rule stack_Suc)
  have "rewrite_leaf (B_fsRoot b) k change b = (Ok (), b\<lparr>B_dev := d'\<rparr>)"
    using D(3,8-10) W(1,2) L(2) assms(2)
    by (simp add: rewrite_leaf_def resolveLeaf_def findLeaf_def n resolveB_def onBdev_def)
  moreover have "small_fs (b\<lparr>B_dev := d'\<rparr>) items'"
    using W(3) L(2) assms(3,4) by (auto simp: small_fs_def nodeSize_def)
  moreover have "root_sealed (b\<lparr>B_dev := d'\<rparr>)"
    using D(3) W(4,5) by (simp add: root_sealed_def)
  ultimately show ?thesis by (rule that)
qed

lemma updateFs_small:
  assumes "small_fs b items" and "item_map items k = Some d" and "leaf_needed items + length d' \<le> nodeSize b + length d"
  obtains dv items' where "updateFs k d' b = (Ok (), b\<lparr>B_dev := dv\<rparr>)" and "small_fs (b\<lparr>B_dev := dv\<rparr>) items'"
    and "item_map items' = (item_map items)(k \<mapsto> d')"
    and "leaf_needed items' + length d = leaf_needed items + length d'" and "root_sealed (b\<lparr>B_dev := dv\<rparr>)"
proof -
  have srt: "keys_sorted items" using assms(1) by (simp add: small_fs_def)
  obtain items' where i: "update_entry k d' (nodeSize b) items = Ok items'" "keys_sorted items'"
      "item_map items' = (item_map items)(k \<mapsto> d')" "leaf_needed items' + length d = leaf_needed items + length d'"
    by (rule update_entry_map [OF srt assms(2,3)])
  have "leaf_needed items' \<le> nodeSize b" using i(4) assms(3) by simp
  then obtain dv where "rewrite_leaf (B_fsRoot b) k (update_entry k d') b = (Ok (), b\<lparr>B_dev := dv\<rparr>)"
      "small_fs (b\<lparr>B_dev := dv\<rparr>) items'" "root_sealed (b\<lparr>B_dev := dv\<rparr>)"
    using rewrite_small [where change = "update_entry k d'" and k = k, OF assms(1) i(1) _ i(2)] by blast
  then show ?thesis using i by (intro that [of dv items']) (simp_all add: updateFs_def updateInLeaf_def)
qed

lemma deleteFs_small:
  assumes "small_fs b items" and "item_map items k = Some d"
  obtains dv items' where "deleteFs k b = (Ok (), b\<lparr>B_dev := dv\<rparr>)" and "small_fs (b\<lparr>B_dev := dv\<rparr>) items'"
    and "item_map items' = (item_map items)(k := None)"
    and "leaf_needed items' + 25 + length d = leaf_needed items" and "root_sealed (b\<lparr>B_dev := dv\<rparr>)"
proof -
  have srt: "keys_sorted items" using assms(1) by (simp add: small_fs_def)
  obtain items' where i: "delete_entry k items = Ok items'" "keys_sorted items'"
      "item_map items' = (item_map items)(k := None)" "leaf_needed items' + 25 + length d = leaf_needed items"
    by (rule delete_entry_map [OF srt assms(2)])
  have "leaf_needed items \<le> nodeSize b" using assms(1) by (simp add: small_fs_def)
  then have "leaf_needed items' \<le> nodeSize b" using i(4) by simp
  then obtain dv where "rewrite_leaf (B_fsRoot b) k (\<lambda>bs. delete_entry k) b = (Ok (), b\<lparr>B_dev := dv\<rparr>)"
      "small_fs (b\<lparr>B_dev := dv\<rparr>) items'" "root_sealed (b\<lparr>B_dev := dv\<rparr>)"
    using rewrite_small [where change = "\<lambda>bs. delete_entry k" and k = k, OF assms(1) i(1) _ i(2)] by blast
  then show ?thesis using i by (intro that [of dv items']) (simp_all add: deleteFs_def deleteFromLeaf_def)
qed

section \<open>What the lookups find\<close>

text \<open>Two shapes of callback: one that ends the walk at the first item that matches, one that
  folds over all of them.\<close>

lemma collect_stop:
  assumes "\<And>it a. f (item_of it) (IE_data it) a = (if P it then (Err e, g it a) else (Ok (), a))"
  shows "collect_entries f items a =
    (case filter P items of [] \<Rightarrow> (Ok (), a) | x # _ \<Rightarrow> (Err e, g x a))"
  by (induction items) (auto simp: assms andThen_def)

lemma collect_fold:
  assumes "\<And>it a. f (item_of it) (IE_data it) a = (Ok (), if P it then g it a else a)"
  shows "collect_entries f items a = (Ok (), fold g (filter P items) a)"
  by (induction items arbitrary: a) (auto simp: assms andThen_def)

definition is_entry :: "u64 \<Rightarrow> u8 \<Rightarrow> itemEntry \<Rightarrow> bool" where
  "is_entry n t it \<longleftrightarrow> K_objectid (IE_k it) = n \<and> K_typ (IE_k it) = t"

lemma is_item_of [simp]: "is_item n t (item_of it) = is_entry n t it"
  by (simp add: is_item_def is_entry_def item_of_def)

lemma item_of_key [simp]: "LI_key (item_of it) = IE_k it"
  by (simp add: item_of_def)

text \<open>At most one item of its type, at offset 0, as inodes and small files have.\<close>

definition single :: "u64 \<Rightarrow> u8 \<Rightarrow> (key \<rightharpoonup> bytes) \<Rightarrow> bool" where
  "single n t m \<longleftrightarrow> (\<forall>off. m (Key n t off) \<noteq> None \<longrightarrow> off = 0)"

lemma entry_eta: "entry (IE_k it) (IE_data it) = it"
  by simp

lemma in_item_map: "keys_sorted items \<Longrightarrow> it \<in> set items \<Longrightarrow> item_map items (IE_k it) = Some (IE_data it)"
  by (metis in_set_conv_nth item_map_nth)

lemma item_map_in: "item_map items k = Some d \<Longrightarrow> entry k d \<in> set items"
  by (induction items) (auto split: if_splits)

lemma sorted_filter: "keys_sorted items \<Longrightarrow> keys_sorted (filter P items)"
  by (induction items) auto

lemma filter_single:
  assumes "keys_sorted items" and "single n t (item_map items)"
  shows "filter (is_entry n t) items =
    (case item_map items (Key n t 0) of None \<Rightarrow> [] | Some d \<Rightarrow> [entry (Key n t 0) d])"
proof -
  let ?xs = "filter (is_entry n t) items"
  have all: "it = entry (Key n t 0) d" if "it \<in> set ?xs" "item_map items (Key n t 0) = Some d" for it d
  proof -
    have it: "it \<in> set items" "is_entry n t it" using that(1) by auto
    from in_item_map [OF assms(1) it(1)] it(2) assms(2)
    have "IE_k it = Key n t 0" by (cases "IE_k it") (auto simp: is_entry_def single_def)
    with in_item_map [OF assms(1) it(1)] that(2) entry_eta [of it] show ?thesis by simp
  qed
  have none: "it \<notin> set ?xs" if "item_map items (Key n t 0) = None" for it
  proof
    assume "it \<in> set ?xs"
    then have it: "it \<in> set items" "is_entry n t it" by auto
    from in_item_map [OF assms(1) it(1)] it(2) assms(2) have "IE_k it = Key n t 0"
      by (cases "IE_k it") (auto simp: is_entry_def single_def)
    with in_item_map [OF assms(1) it(1)] that show False by simp
  qed
  show ?thesis
  proof (cases "item_map items (Key n t 0)")
    case None
    then show ?thesis using none by (auto simp: filter_empty_conv)
  next
    case (Some d)
    have mem: "entry (Key n t 0) d \<in> set ?xs"
      using item_map_in [OF Some] by (simp add: is_entry_def)
    have "keys_sorted ?xs" by (rule sorted_filter [OF assms(1)])
    with mem all [OF _ Some] have "?xs = [entry (Key n t 0) d]"
    proof (cases ?xs)
      case (Cons x xs)
      have "xs = []"
      proof (rule ccontr)
        assume "xs \<noteq> []"
        then have "hd xs \<in> set ?xs" "x \<in> set ?xs" "IE_k x < IE_k (hd xs)"
          using Cons \<open>keys_sorted ?xs\<close> by auto
        with all [OF _ Some] show False by (metis less_irrefl)
      qed
      with Cons all [OF _ Some, of x] show ?thesis by simp
    qed simp
    with Some show ?thesis by simp
  qed
qed

lemma key_only_callbacks [simp]:
  "key_only (lookup_callback n name)" "key_only (inode_stop_callback n)" "key_only (inode_last_callback n)"
  "key_only (info_callback n)" "key_only (extent_keys_callback n)" "key_only (read_callback n)"
  "key_only (dir_callback n)" "key_only max_inode_callback" "key_only (max_index_callback n)"
  "key_only (first_extent_callback n)" "key_only (last_extent_callback n)" "key_only (symlink_callback cd n)"
  by (auto simp: key_only_def lookup_callback_def inode_stop_callback_def inode_last_callback_def
      info_callback_def extent_keys_callback_def read_callback_def dir_callback_def max_inode_callback_def
      max_index_callback_def first_extent_callback_def last_extent_callback_def symlink_callback_def
      is_item_def fun_eq_iff)

lemma fetch_stop_small:
  assumes "small_fs b items" and "single n BTRFS_INODE_ITEM_KEY (item_map items)"
  shows "walkFSTree (inode_stop_callback n) [] b =
    (Ok (case item_map items (inode_key n) of None \<Rightarrow> (None, []) | Some d \<Rightarrow> (Some stop, d)), b)"
proof -
  have srt: "keys_sorted items" using assms(1) by (simp add: small_fs_def)
  have "collect_entries (inode_stop_callback n) items [] =
      (case filter (is_entry n BTRFS_INODE_ITEM_KEY) items of [] \<Rightarrow> (Ok (), []) | x # _ \<Rightarrow> (Err stop, IE_data x))"
    by (rule collect_stop [where g = "\<lambda>it a. IE_data it"]) (simp add: inode_stop_callback_def)
  then show ?thesis
    unfolding walk_small [OF assms(1) key_only_callbacks(2)] filter_single [OF srt assms(2)]
    by (auto simp: walk_result_def inode_key_def split: option.splits)
qed

lemma fetch_inode_small:
  assumes "small_fs b items" and "single n BTRFS_INODE_ITEM_KEY (item_map items)"
    and "item_map items (inode_key n) = Some d" and "100 \<le> length d"
  shows "fetch_inode n b = (Ok d, b)"
  using fetch_stop_small [OF assms(1,2)] assms(3,4) by (simp add: fetch_inode_def)

lemma fetch_last_small:
  assumes "small_fs b items" and "single n BTRFS_INODE_ITEM_KEY (item_map items)"
  shows "walkFSTree (inode_last_callback n) [] b =
    (Ok (None, case item_map items (inode_key n) of None \<Rightarrow> [] | Some d \<Rightarrow> d), b)"
proof -
  have srt: "keys_sorted items" using assms(1) by (simp add: small_fs_def)
  have "collect_entries (inode_last_callback n) items [] =
      (Ok (), fold (\<lambda>it a. IE_data it) (filter (is_entry n BTRFS_INODE_ITEM_KEY) items) [])"
    by (rule collect_fold) (simp add: inode_last_callback_def)
  then show ?thesis
    unfolding walk_small [OF assms(1) key_only_callbacks(3)] filter_single [OF srt assms(2)]
    by (auto simp: walk_result_def inode_key_def split: option.splits)
qed

lemma readInodeInfo_small:
  assumes "small_fs b items" and "single n BTRFS_INODE_ITEM_KEY (item_map items)"
    and "item_map items (inode_key n) = Some d" and "100 \<le> length d"
  shows "readInodeInfo n b = (Ok (node_info (zero_info n) d), b)"
proof -
  have srt: "keys_sorted items" using assms(1) by (simp add: small_fs_def)
  have "collect_entries (info_callback n) items (zero_info n) =
      (case filter (\<lambda>it. is_entry n BTRFS_INODE_ITEM_KEY it \<and> 100 \<le> length (IE_data it)) items of
         [] \<Rightarrow> (Ok (), zero_info n) | x # _ \<Rightarrow> (Err stop, node_info (zero_info n) (IE_data x)))"
    by (rule collect_stop [where g = "\<lambda>it a. node_info a (IE_data it)"])
      (auto simp: info_callback_def is_entry_def)
  moreover have "filter (\<lambda>it. is_entry n BTRFS_INODE_ITEM_KEY it \<and> 100 \<le> length (IE_data it)) items =
      filter (\<lambda>it. 100 \<le> length (IE_data it)) (filter (is_entry n BTRFS_INODE_ITEM_KEY) items)"
    by simp
  ultimately show ?thesis
    using assms(3,4) unfolding readInodeInfo_def filter_single [OF srt assms(2)]
    by (simp add: walk_small [OF assms(1) key_only_callbacks(4)] walk_result_def inode_key_def)
qed

section \<open>Paths\<close>

definition dir_match :: "u64 \<Rightarrow> bytes \<Rightarrow> itemEntry \<Rightarrow> bool" where
  "dir_match dir name it \<longleftrightarrow>
     K_objectid (IE_k it) = dir \<and> K_typ (IE_k it) \<in> {BTRFS_DIR_INDEX_KEY, BTRFS_DIR_ITEM_KEY} \<and>
     30 \<le> length (IE_data it) \<and> name_matches name (IE_data it)"

lemma lookup_small:
  assumes "small_fs b items"
  shows "lookupDirEntryKey dir name b =
    (case filter (dir_match dir name) items of
       [] \<Rightarrow> Err Fs_ErrNotExist | x # _ \<Rightarrow> Ok (IE_k x, get64 0 (IE_data x)), b)"
proof -
  have "collect_entries (lookup_callback dir name) items None =
      (case filter (dir_match dir name) items of
         [] \<Rightarrow> (Ok (), None) | x # _ \<Rightarrow> (Err (Errorf ''found''), Some (IE_k x, get64 0 (IE_data x))))"
    by (rule collect_stop) (auto simp: lookup_callback_def dir_match_def Let_def)
  then show ?thesis
    by (auto simp: lookupDirEntryKey_def walk_small [OF assms key_only_callbacks(1)] walk_result_def split: list.splits)
qed

lemma lookupDirEntry_small:
  assumes "small_fs b items"
  shows "lookupDirEntry dir name b =
    (case filter (dir_match dir name) items of
       [] \<Rightarrow> Err Fs_ErrNotExist | x # _ \<Rightarrow> Ok (get64 0 (IE_data x)), b)"
  by (auto simp: lookupDirEntry_def lookup_small [OF assms] andThen_def split: list.splits)

text \<open>Only the directory items matter for a path.\<close>

definition dir_items :: "itemEntry list \<Rightarrow> itemEntry list" where
  "dir_items items = filter (\<lambda>it. K_typ (IE_k it) \<in> {BTRFS_DIR_INDEX_KEY, BTRFS_DIR_ITEM_KEY}) items"

lemma filter_dir_items: "filter (dir_match dir name) items = filter (dir_match dir name) (dir_items items)"
  unfolding dir_items_def filter_filter by (rule filter_cong) (auto simp: dir_match_def)

lemma resolve_loop_same:
  assumes "small_fs b items"
  shows "snd (resolve_loop n p b) = b"
  using assms
proof (induction n p rule: resolve_loop.induct)
  case (1 n p)
  show ?case
    using 1 lookupDirEntry_small [OF 1(3)]
    by (subst resolve_loop.simps) (auto simp: Let_def andThen_def split: prod.splits res.splits list.splits)
qed

lemma resolve_loop_cong:
  assumes "small_fs b items" and "small_fs b' items'" and "dir_items items = dir_items items'"
  shows "fst (resolve_loop n p b) = fst (resolve_loop n p b')"
  using assms
proof (induction n p rule: resolve_loop.induct)
  case (1 n p)
  let ?name = "takeWhile (\<lambda>c. c \<noteq> 47) p"
  have "fst (lookupDirEntry n ?name b) = fst (lookupDirEntry n ?name b')"
    "snd (lookupDirEntry n ?name b) = b" "snd (lookupDirEntry n ?name b') = b'"
    using lookupDirEntry_small [OF 1(3)] lookupDirEntry_small [OF 1(4)] 1(5) filter_dir_items
    by (metis fst_conv, simp_all)
  then obtain r where "lookupDirEntry n ?name b = (r, b)" "lookupDirEntry n ?name b' = (r, b')"
    by (metis prod.collapse)
  then show ?case
    using 1 unfolding resolve_loop.simps [of n p]
    by (auto simp: Let_def andThen_def split: res.splits)
qed

definition root_path :: "bytes \<Rightarrow> bool" where "root_path path \<longleftrightarrow> path = [] \<or> path = [47]"

definition strip_slash :: "bytes \<Rightarrow> bytes" where "strip_slash path = (if hd path = 47 then tl path else path)"

text \<open>\<open>path\<close> leads to inode \<open>n\<close>, and a cached answer for it is not stale.\<close>

definition path_to :: "BtrfsFS \<Rightarrow> bytes \<Rightarrow> u64 \<Rightarrow> bool" where
  "path_to b path n \<longleftrightarrow>
     (if root_path path then n = B_rootInode b
      else fst (resolve_loop (B_rootInode b) (strip_slash path) b) = Ok n \<and> B_pathCache b path \<in> {None, Some n})"

lemma resolvePath_to:
  assumes "small_fs b items" and "path_to b path n"
  shows "resolvePath path b = (Ok n, b\<lparr>B_pathCache := (if root_path path then B_pathCache b else (B_pathCache b)(path \<mapsto> n))\<rparr>)"
proof (cases "root_path path \<or> B_pathCache b path = Some n")
  case True
  then show ?thesis
    using assms(2) by (auto simp: resolvePath_def path_to_def root_path_def fun_upd_idem)
next
  case False
  then have "resolve_loop (B_rootInode b) (strip_slash path) b = (Ok n, b)"
    using assms(2) resolve_loop_same [OF assms(1), of "B_rootInode b" "strip_slash path"]
    by (metis path_to_def prod.collapse)
  with False assms(2) show ?thesis
    by (auto simp: resolvePath_def path_to_def root_path_def strip_slash_def)
qed

lemma small_fs_cache [simp]: "small_fs (b\<lparr>B_pathCache := c\<rparr>) items = small_fs b items"
  by (simp add: small_fs_def leaf_at_def leaf_buf_def nodeSize_def)

end
