(* ===== verification/Btrfs_File_Props.thy ===== *)
theory Btrfs_File_Props
  imports Btrfs_Small
begin

text \<open>
  What the btrfs driver's operations on files do, on a file tree that is one leaf: the tree updates
  as map updates, \<open>Chmod\<close>, small writes and reads, and reads of regular extents. The example
  volume of the witnesses is one leaf in the middle of a file.
\<close>

section \<open>An example volume\<close>

definition example_leaf :: "itemEntry list \<Rightarrow> bytes" where
  "example_leaf items = (case leaf_image (zeros 4096) 7 0x5000 items of Ok img \<Rightarrow> img | _ \<Rightarrow> [])"

definition example_super :: BtrfsSuper where
  "example_super = \<lparr>Sb_Csum = zeros 32, Sb_Fsid = zeros 16, Sb_Bytenr = 0x10000, Sb_Flags = 0, Sb_Magic = btrfsMagic,
     Sb_Generation = 7, Sb_Root = 0, Sb_ChunkRoot = 0, Sb_LogRoot = 0, Sb_LogRootTransid = 0, Sb_TotalBytes = 16384,
     Sb_BytesUsed = 8192, Sb_RootDirObjectid = 6, Sb_NumDevices = 1, Sb_SectorSize = 4096, Sb_NodeSize = 4096,
     Sb_LeafSize = 4096, Sb_StripeSize = 4096, Sb_SysChunkArraySize = 0, Sb_ChunkRootGeneration = 1,
     Sb_CompatFlags = 0, Sb_CompatRoFlags = 0, Sb_IncompatFlags = 0, Sb_CsumType = 0, Sb_RootLevel = 0,
     Sb_ChunkRootLevel = 0, Sb_LogRootLevel = 0, Sb_SysChunkData = []\<rparr>"

definition example_chunk :: chunkMapping where
  "example_chunk = \<lparr>CM_logical = 0x5000, CM_length = 0x3000, CM_physical = 0x1000, CM_flags = 5\<rparr>"

definition example_vol :: "itemEntry list \<Rightarrow> BtrfsFS" where
  "example_vol items =
     \<lparr>B_dev = FileDev \<lparr>f_data = zeros 4096 @ example_leaf items @ replicate 8192 0x58, f_pos = 0, f_badr = [], f_badw = []\<rparr>,
      B_sb = example_super, B_tc = \<lparr>TC_nodeSize = 4096, TC_chunks = [example_chunk]\<rparr>, B_fsRoot = 0x5000,
      B_fsRootLvl = 0, B_extentRoot = 0, B_extentRootLvl = 0, B_rootInode = 256, B_pathCache = (\<lambda>_. None)\<rparr>"

lemma example_vol_small:
  assumes "keys_sorted items" and "leaf_needed items \<le> 4096"
  shows "small_fs (example_vol items) items"
proof -
  have fit: "leaf_needed items \<le> length (zeros 4096)" "length (zeros 4096) < 2 ^ 32" using assms(2) by simp_all
  obtain img where img: "leaf_image (zeros 4096) 7 0x5000 items = Ok img" "length img = length (zeros 4096)"
      "parse_items '''' img = Ok items" "unat (get32 96 img) = length items" "img ! 100 = zeros 4096 ! 100"
    by (rule leaf_image_parse [OF fit, of 7 "0x5000" "''''"]) (use that in simp)
  have leaf: "example_leaf items = img" by (simp add: example_leaf_def img)
  have buf: "leaf_buf (example_vol items) 0x1000 = img"
    using img(2) by (simp add: leaf_buf_def example_vol_def nodeSize_def example_super_def leaf bslice_def)
  have "parse_leaf '''' img 0 (length items) = Ok items"
    using img(2-4) by (simp add: parse_items_def r_u32_def)
  then have "leaf_at (example_vol items) 0x5000 0x1000 items"
    using img buf unfolding leaf_at_def
    by (simp add: example_vol_def nodeSize_def example_super_def leaf max_node_def resolve_def example_chunk_def
        file_ok_def)
  then show ?thesis using assms by (auto simp: small_fs_def example_vol_def nodeSize_def example_super_def)
qed

section \<open>Tree updates are map updates\<close>

text \<open>C28: On a file system whose tree is one leaf, which holds the map \<open>item_map items\<close>, inserting a new item, replacing an item and
  deleting one act on that map exactly at the key, with items sorted again, as long as the items fit the leaf.\<close>

theorem leaf_updates_refine_map:
  assumes "small_fs b items"
  shows "(item_map items k = None \<longrightarrow> leaf_needed items + 25 + length d \<le> nodeSize b \<longrightarrow>
      (\<exists>dv items'. insertFs k d b = (Ok (), b\<lparr>B_dev := dv\<rparr>) \<and> small_fs (b\<lparr>B_dev := dv\<rparr>) items' \<and>
        item_map items' = (item_map items)(k \<mapsto> d))) \<and>
    (\<forall>d0. item_map items k = Some d0 \<longrightarrow> leaf_needed items + length d \<le> nodeSize b + length d0 \<longrightarrow>
      (\<exists>dv items'. updateFs k d b = (Ok (), b\<lparr>B_dev := dv\<rparr>) \<and> small_fs (b\<lparr>B_dev := dv\<rparr>) items' \<and>
        item_map items' = (item_map items)(k \<mapsto> d))) \<and>
    (item_map items k \<noteq> None \<longrightarrow>
      (\<exists>dv items'. deleteFs k b = (Ok (), b\<lparr>B_dev := dv\<rparr>) \<and> small_fs (b\<lparr>B_dev := dv\<rparr>) items' \<and>
        item_map items' = (item_map items)(k := None)))"
proof (intro conjI impI allI)
  assume "item_map items k = None" "leaf_needed items + 25 + length d \<le> nodeSize b"
  then show "\<exists>dv items'. insertFs k d b = (Ok (), b\<lparr>B_dev := dv\<rparr>) \<and> small_fs (b\<lparr>B_dev := dv\<rparr>) items' \<and>
      item_map items' = (item_map items)(k \<mapsto> d)"
    using insertFs_small [OF assms, of k d] insert_entry_map by metis
next
  fix d0 assume "item_map items k = Some d0" "leaf_needed items + length d \<le> nodeSize b + length d0"
  then show "\<exists>dv items'. updateFs k d b = (Ok (), b\<lparr>B_dev := dv\<rparr>) \<and> small_fs (b\<lparr>B_dev := dv\<rparr>) items' \<and>
      item_map items' = (item_map items)(k \<mapsto> d)"
    using updateFs_small [OF assms, of k d0 d] by metis
next
  assume "item_map items k \<noteq> None"
  then show "\<exists>dv items'. deleteFs k b = (Ok (), b\<lparr>B_dev := dv\<rparr>) \<and> small_fs (b\<lparr>B_dev := dv\<rparr>) items' \<and>
      item_map items' = (item_map items)(k := None)"
    using deleteFs_small [OF assms, of k] by (metis option.exhaust)
qed

theorem leaf_updates_refine_map_witness:
  "\<exists>dv items'. insertFs (extent_key 257) [1, 2] (example_vol [entry (inode_key 256) [3]]) =
       (Ok (), example_vol [entry (inode_key 256) [3]]\<lparr>B_dev := dv\<rparr>) \<and>
     small_fs (example_vol [entry (inode_key 256) [3]]\<lparr>B_dev := dv\<rparr>) items' \<and>
     item_map items' = [inode_key 256 \<mapsto> [3], extent_key 257 \<mapsto> [1, 2]]"
proof -
  have "small_fs (example_vol [entry (inode_key 256) [3]]) [entry (inode_key 256) [3]]"
    by (rule example_vol_small) (simp_all add: leaf_needed_def)
  note refines = leaf_updates_refine_map [OF this, of "extent_key 257" "[1, 2]"]
  from conjunct1 [OF refines] show ?thesis
    by (simp add: example_vol_def nodeSize_def example_super_def leaf_needed_def inode_key_def extent_key_def)
qed

section \<open>Inode items\<close>

lemma put_at_Ok: "off + length src \<le> length dst \<Longrightarrow> put_at off src dst = Ok (copy_at off src dst)"
  by (simp add: put_at_def)

lemma get_copy_other:
  assumes "off + length src \<le> length dst"
  shows "i + 4 \<le> length dst \<Longrightarrow> i + 4 \<le> off \<or> off + length src \<le> i \<Longrightarrow> get32 i (copy_at off src dst) = get32 i dst"
    and "i + 8 \<le> length dst \<Longrightarrow> i + 8 \<le> off \<or> off + length src \<le> i \<Longrightarrow> get64 i (copy_at off src dst) = get64 i dst"
  using slice_copy_at_other [OF assms] by (simp_all add: get32_def get64_def)

lemma get_copy_same:
  "off + 4 \<le> length dst \<Longrightarrow> get32 off (copy_at off (put32 v) dst) = v"
  "off + 8 \<le> length dst \<Longrightarrow> get64 off (copy_at off (put64 w) dst) = w"
  using slice_copy_at_same [of off "put32 v" dst] slice_copy_at_same [of off "put64 w" dst]
  by (simp_all add: get32_def get64_def)

lemma touch_ctime_Ok:
  assumes "132 \<le> length d"
  obtains d' where "touch_ctime now d = Ok d'" and "length d' = length d"
    and "\<And>i. i + 4 \<le> 120 \<Longrightarrow> get32 i d' = get32 i d" and "\<And>i. i + 8 \<le> 120 \<Longrightarrow> get64 i d' = get64 i d"
proof
  show "touch_ctime now d = Ok (copy_at 128 (put32 0) (copy_at 120 (put64 now) d))"
    using assms by (simp add: touch_ctime_def put_at_Ok)
qed (use assms in \<open>simp_all add: get_copy_other\<close>)

lemma touch_both_Ok:
  assumes "144 \<le> length d"
  obtains d' where "touch_both now d = Ok d'" and "length d' = length d"
    and "\<And>i. i + 4 \<le> 120 \<Longrightarrow> get32 i d' = get32 i d" and "\<And>i. i + 8 \<le> 120 \<Longrightarrow> get64 i d' = get64 i d"
proof -
  obtain d1 where d1: "touch_ctime now d = Ok d1" "length d1 = length d"
      "\<And>i. i + 4 \<le> 120 \<Longrightarrow> get32 i d1 = get32 i d" "\<And>i. i + 8 \<le> 120 \<Longrightarrow> get64 i d1 = get64 i d"
    by (rule touch_ctime_Ok [of d now]) (use assms that in auto)
  have "touch_both now d = Ok (copy_at 140 (put32 0) (copy_at 132 (put64 now) d1))"
    using assms d1(1,2) by (simp add: touch_both_def put_at_Ok)
  then show ?thesis by (rule that) (use assms d1 in \<open>simp_all add: get_copy_other\<close>)
qed

section \<open>Paths across updates\<close>

text \<open>Two sorted lists with the same map are the same list; so equal maps on directory keys are
  equal directory items.\<close>

lemma item_map_iff: "keys_sorted items \<Longrightarrow> it \<in> set items \<longleftrightarrow> item_map items (IE_k it) = Some (IE_data it)"
  using in_item_map item_map_in entry_eta by metis

lemma sorted_map_unique:
  "keys_sorted xs \<Longrightarrow> keys_sorted ys \<Longrightarrow> item_map xs = item_map ys \<Longrightarrow> xs = ys"
proof (induction xs arbitrary: ys)
  case Nil
  then show ?case by (cases ys) (auto simp: fun_eq_iff split: if_splits)
next
  case (Cons x xs)
  have mem: "it \<in> set (x # xs) \<longleftrightarrow> it \<in> set ys" for it
    unfolding item_map_iff [OF Cons.prems(1)] item_map_iff [OF Cons.prems(2)] Cons.prems(3) ..
  then obtain y ys' where ys: "ys = y # ys'" by (cases ys) auto
  have "x = y"
  proof (rule ccontr)
    assume "x \<noteq> y"
    then have "x \<in> set ys'" "y \<in> set xs" using mem [of x] mem [of y] by (auto simp: ys)
    with Cons.prems(1,2) show False by (auto simp: ys dest: less_asym)
  qed
  moreover have "item_map xs = item_map ys'"
  proof
    fix k
    have "item_map xs (IE_k x) = None" "item_map ys' (IE_k y) = None"
      using Cons.prems(1,2) by (auto simp: ys item_map_dom)
    with Cons.prems(3) \<open>x = y\<close> show "item_map xs k = item_map ys' k"
      by (cases "k = IE_k x") (auto simp: ys fun_eq_iff split: if_splits)
  qed
  ultimately show ?case using Cons.IH [of ys'] Cons.prems(1,2) by (simp add: ys)
qed

lemma item_map_filter_key:
  "item_map (filter (\<lambda>it. P (IE_k it)) items) k = (if P k then item_map items k else None)"
  by (induction items) auto

definition dir_key :: "key \<Rightarrow> bool" where
  "dir_key k \<longleftrightarrow> K_typ k \<in> {BTRFS_DIR_INDEX_KEY, BTRFS_DIR_ITEM_KEY}"

lemma dir_items_eq:
  assumes "keys_sorted items" and "keys_sorted items'" and "\<And>k. dir_key k \<Longrightarrow> item_map items k = item_map items' k"
  shows "dir_items items = dir_items items'"
proof -
  have "dir_items xs = filter (\<lambda>it. dir_key (IE_k it)) xs" for xs by (simp add: dir_items_def dir_key_def)
  moreover have "item_map (filter (\<lambda>it. dir_key (IE_k it)) items) = item_map (filter (\<lambda>it. dir_key (IE_k it)) items')"
    using assms(3) by (auto simp: item_map_filter_key fun_eq_iff)
  ultimately show ?thesis
    using assms(1,2) by (simp add: sorted_map_unique sorted_filter)
qed

lemma small_sorted: "small_fs b items \<Longrightarrow> keys_sorted items"
  by (simp add: small_fs_def)

lemma dir_key_file [simp]: "\<not> dir_key (inode_key n)" "\<not> dir_key (extent_key n)"
  by (simp_all add: dir_key_def inode_key_def extent_key_def)

text \<open>A path keeps leading where it led while no directory item changes.\<close>

lemma path_to_keep:
  assumes "small_fs b items" and "path_to b path n" and "small_fs b' items'"
    and "B_rootInode b' = B_rootInode b" and "B_pathCache b' path \<in> {None, Some n}"
    and "\<And>k. dir_key k \<Longrightarrow> item_map items' k = item_map items k"
  shows "path_to b' path n"
proof -
  have "dir_items items = dir_items items'"
    using assms(6) by (intro dir_items_eq small_sorted [OF assms(1)] small_sorted [OF assms(3)]) simp
  from resolve_loop_cong [OF assms(1,3) this] assms(2,4,5) show ?thesis
    by (auto simp: path_to_def split: if_splits)
qed

text \<open>The cache after \<open>path\<close> has been resolved.\<close>

definition cached :: "bytes \<Rightarrow> u64 \<Rightarrow> BtrfsFS \<Rightarrow> BtrfsFS" where
  "cached path n b =
     b\<lparr>B_pathCache := (if root_path path then B_pathCache b else (B_pathCache b)(path \<mapsto> n))\<rparr>"

lemma cached_simps [simp]:
  "B_dev (cached path n b) = B_dev b" "B_fsRoot (cached path n b) = B_fsRoot b" "B_sb (cached path n b) = B_sb b"
  "B_rootInode (cached path n b) = B_rootInode b" "nodeSize (cached path n b) = nodeSize b"
  "B_tc (cached path n b) = B_tc b" "small_fs (cached path n b) items = small_fs b items"
  by (simp_all add: cached_def nodeSize_def)

lemma resolve_known:
  assumes "root_path path \<and> n = B_rootInode b \<or> \<not> root_path path \<and> B_pathCache b path = Some n"
  shows "resolvePath path b = (Ok n, b)"
  using assms by (auto simp: resolvePath_def root_path_def)

lemma resolve_again:
  "path_to b path n \<Longrightarrow> resolvePath path (cached path n b\<lparr>B_dev := dv\<rparr>) = (Ok n, cached path n b\<lparr>B_dev := dv\<rparr>)"
  by (rule resolve_known) (auto simp: cached_def path_to_def split: if_splits)

lemma resolve_first: "small_fs b items \<Longrightarrow> path_to b path n \<Longrightarrow> resolvePath path b = (Ok n, cached path n b)"
  using resolvePath_to by (simp add: cached_def)

section \<open>Chmod\<close>

lemma mode_bits:
  fixes old mode :: u32
  defines "m \<equiv> (old AND 0xFFFF0000) OR (mode AND 0x0FFF)"
  shows "m AND 0x4000 = 0" and "m AND 0x8000 = 0" and "m AND 0xA000 \<noteq> 0xA000"
proof -
  have bit: "\<not> bit m 13" "\<not> bit m 14" "\<not> bit m 15"
    by (simp_all add: m_def bit_simps)
  show "m AND 0x4000 = 0" "m AND 0x8000 = 0"
    using bit(2,3) and_exp_eq_0_iff_not_bit [of m 14] and_exp_eq_0_iff_not_bit [of m 15] by simp_all
  show "m AND 0xA000 \<noteq> 0xA000"
  proof
    assume "m AND 0xA000 = 0xA000"
    from arg_cong [OF this, of "\<lambda>w. bit w 13"] bit(1) show False by (simp add: bit_simps)
  qed
qed

lemma single_upd: "single n t m \<Longrightarrow> single n t (m(Key n' t' 0 \<mapsto> d))"
  by (auto simp: single_def)

lemma single_keys [simp]:
  "single n t m \<Longrightarrow> single n t (m(inode_key n' \<mapsto> d))" "single n t m \<Longrightarrow> single n t (m(extent_key n' \<mapsto> d))"
  by (simp_all add: inode_key_def extent_key_def single_upd)

lemma Chmod_law:
  assumes "small_fs b items" and "path_to b path n" and "single n BTRFS_INODE_ITEM_KEY (item_map items)"
    and "item_map items (inode_key n) = Some d" and "132 \<le> length d"
  obtains dv items' d' where "btrfs_Chmod now path mode b = (Ok (), cached path n b\<lparr>B_dev := dv\<rparr>)"
    and "small_fs (cached path n b\<lparr>B_dev := dv\<rparr>) items'"
    and "item_map items' = (item_map items)(inode_key n \<mapsto> d')" and "length d' = length d"
    and "get32 52 d' = (get32 52 d AND 0xFFFF0000) OR (mode AND 0x0FFF)"
proof -
  let ?b = "cached path n b" and ?m = "(get32 52 d AND 0xFFFF0000) OR (mode AND 0x0FFF)"
  have fetch: "fetch_inode n ?b = (Ok d, ?b)"
    by (rule fetch_inode_small [of _ items]) (use assms in simp_all)
  define d1 where "d1 = copy_at 52 (put32 ?m) d"
  have d1: "put_at 52 (put32 ?m) d = Ok d1" "length d1 = length d" "get32 52 d1 = ?m"
    using assms(5) by (simp_all add: put_at_Ok d1_def get_copy_same)
  obtain d' where d': "touch_ctime now d1 = Ok d'" "length d' = length d1"
      "\<And>i. i + 4 \<le> 120 \<Longrightarrow> get32 i d' = get32 i d1"
    by (rule touch_ctime_Ok [of d1 now]) (use assms(5) d1(2) that in auto)
  obtain dv items' where U: "updateFs (inode_key n) d' ?b = (Ok (), ?b\<lparr>B_dev := dv\<rparr>)"
      "small_fs (?b\<lparr>B_dev := dv\<rparr>) items'" "item_map items' = (item_map items)(inode_key n \<mapsto> d')"
  proof (rule updateFs_small [of ?b items "inode_key n" d d'])
    show "leaf_needed items + length d' \<le> nodeSize ?b + length d"
      using assms(1) d'(2) d1(2) by (simp add: small_fs_def)
  qed (use assms that in simp_all)
  have "btrfs_Chmod now path mode b = (Ok (), ?b\<lparr>B_dev := dv\<rparr>)"
    using resolve_first [OF assms(1,2)] fetch d1(1) d'(1) U(1) by (simp add: btrfs_Chmod_def)
  with U d' d1 show ?thesis by (intro that [of dv items' d']) simp_all
qed

text \<open>C30: \<open>Chmod\<close> of any path keeps only the twelve permission bits and what lies above bit 16: the bits of the file
  type are cleared, and \<open>Getattr\<close> then reports neither a directory nor a regular file nor a symbolic link.\<close>

theorem Chmod_loses_file_type:
  assumes "small_fs b items" and "path_to b path n" and "single n BTRFS_INODE_ITEM_KEY (item_map items)"
    and "item_map items (inode_key n) = Some d" and "132 \<le> length d"
  shows "\<exists>b' info. btrfs_Chmod now path mode b = (Ok (), b') \<and> btrfs_Getattr path b' = (Ok info, b') \<and>
    n_Mode info = (get32 52 d AND 0xFFFF0000) OR (mode AND 0x0FFF) \<and>
    \<not> n_IsDir info \<and> \<not> n_IsRegular info \<and> \<not> n_IsSymlink info"
proof -
  obtain dv items' d' where C: "btrfs_Chmod now path mode b = (Ok (), cached path n b\<lparr>B_dev := dv\<rparr>)"
      "small_fs (cached path n b\<lparr>B_dev := dv\<rparr>) items'"
      "item_map items' = (item_map items)(inode_key n \<mapsto> d')" "length d' = length d"
      "get32 52 d' = (get32 52 d AND 0xFFFF0000) OR (mode AND 0x0FFF)"
    by (rule Chmod_law [OF assms])
  let ?b = "cached path n b\<lparr>B_dev := dv\<rparr>" and ?i = "node_info (zero_info n) d'"
  have "readInodeInfo n ?b = (Ok ?i, ?b)"
    by (rule readInodeInfo_small [OF C(2)]) (use assms C(3,4) in simp_all)
  then have "btrfs_Getattr path ?b = (Ok ?i, ?b)"
    using resolve_again [OF assms(2), of dv] by (simp add: btrfs_Getattr_def)
  moreover have "n_Mode ?i = (get32 52 d AND 0xFFFF0000) OR (mode AND 0x0FFF)" "\<not> n_IsDir ?i" "\<not> n_IsRegular ?i" "\<not> n_IsSymlink ?i"
    using mode_bits [of "get32 52 d" mode] by (simp_all add: node_info_def Let_def C(5) zero_info_def del: word_bw_comms)
  ultimately show ?thesis using C(1) by blast
qed

definition btrfs_example_inode :: bytes where
  "btrfs_example_inode = inode_item 7 1000 0x41ED"

theorem Chmod_loses_file_type_witness:
  "\<exists>b' info. btrfs_Chmod 2000 [47] 0x1C0 (example_vol [entry (inode_key 256) btrfs_example_inode]) = (Ok (), b') \<and>
    btrfs_Getattr [47] b' = (Ok info, b') \<and> n_Mode info = 0x1C0 \<and> \<not> n_IsDir info"
proof -
  have s: "small_fs (example_vol [entry (inode_key 256) btrfs_example_inode]) [entry (inode_key 256) btrfs_example_inode]"
    by (rule example_vol_small) (simp_all add: leaf_needed_def btrfs_example_inode_def inode_item_def)
  have m: "get32 52 btrfs_example_inode = 0x41ED"
    by (simp add: btrfs_example_inode_def inode_item_def bytes_simps)
  have "\<exists>b' info. btrfs_Chmod 2000 [47] 0x1C0 (example_vol [entry (inode_key 256) btrfs_example_inode]) = (Ok (), b') \<and>
      btrfs_Getattr [47] b' = (Ok info, b') \<and>
      n_Mode info = (get32 52 btrfs_example_inode AND 0xFFFF0000) OR (0x1C0 AND 0x0FFF) \<and>
      \<not> n_IsDir info \<and> \<not> n_IsRegular info \<and> \<not> n_IsSymlink info"
    by (rule Chmod_loses_file_type [OF s])
      (simp_all add: path_to_def root_path_def example_vol_def single_def inode_key_def btrfs_example_inode_def inode_item_def)
  then show ?thesis unfolding m by auto
qed

section \<open>Inline files\<close>

text \<open>The file of an inode is inline and uncompressed, with contents \<open>c\<close>; or it has no extent.\<close>

definition inline_file :: "(key \<rightharpoonup> bytes) \<Rightarrow> u64 \<Rightarrow> bytes \<Rightarrow> bool" where
  "inline_file m n c \<longleftrightarrow>
     single n BTRFS_EXTENT_DATA_KEY m \<and>
     (m (extent_key n) = None \<and> c = [] \<or> m (extent_key n) = Some (makeExtentDataInline c))"

lemma makeExtentDataInline_fields:
  "length (makeExtentDataInline c) = 21 + length c" "drop 21 (makeExtentDataInline c) = c"
  "makeExtentDataInline c ! 20 = 0" "makeExtentDataInline c ! 16 = 0"
  "get64 8 (makeExtentDataInline c) = of_nat (length c)"
  by (simp_all add: makeExtentDataInline_def bytes_simps nth_append)

lemma first_extent_small:
  assumes "small_fs b items" and "single n BTRFS_EXTENT_DATA_KEY (item_map items)"
  shows "walkFSTree (first_extent_callback n) (Key 0 0 0, []) b =
    (Ok (None, case item_map items (extent_key n) of None \<Rightarrow> (Key 0 0 0, []) | Some d \<Rightarrow> (extent_key n, d)), b)"
proof -
  have "collect_entries (first_extent_callback n) items (Key 0 0 0, []) =
      (Ok (), fold (\<lambda>it a. (IE_k it, IE_data it))
        (filter (\<lambda>it. is_entry n BTRFS_EXTENT_DATA_KEY it \<and> K_offset (IE_k it) = 0) items) (Key 0 0 0, []))"
    by (rule collect_fold) (auto simp: first_extent_callback_def)
  moreover have "filter (\<lambda>it. is_entry n BTRFS_EXTENT_DATA_KEY it \<and> K_offset (IE_k it) = 0) items =
      filter (\<lambda>it. K_offset (IE_k it) = 0) (filter (is_entry n BTRFS_EXTENT_DATA_KEY) items)"
    by simp
  ultimately show ?thesis
    unfolding walk_small [OF assms(1) key_only_callbacks(10)] filter_single [OF small_sorted [OF assms(1)] assms(2)]
    by (auto simp: walk_result_def extent_key_def split: option.splits)
qed

lemma copy_at_all: "length src = length dst \<Longrightarrow> copy_at 0 src dst = src"
  by (simp add: copy_at_def)

lemma u64i_nat: "0 \<le> x \<Longrightarrow> u64i x = of_nat (nat x)"
  by (simp add: u64i_def)

lemma unat_of_nat_u64: "n < 2 ^ 64 \<Longrightarrow> unat (of_nat n :: u64) = n"
  by (simp add: unat_of_nat take_bit_nat_eq_self)

lemma of_nat_u64_simps:
  assumes "a < 2 ^ 63" and "c < 2 ^ 63"
  shows "(of_nat a :: u64) \<le> of_nat c \<longleftrightarrow> a \<le> c" and "(of_nat a :: u64) < of_nat c \<longleftrightarrow> a < c"
    and "(of_nat a :: u64) = 0 \<longleftrightarrow> a = 0" and "sint (of_nat a :: u64) = int a"
    and "c \<le> a \<Longrightarrow> (of_nat a :: u64) - of_nat c = of_nat (a - c)"
proof -
  have u: "unat (of_nat a :: u64) = a" "unat (of_nat c :: u64) = c"
    using assms by (simp_all add: unat_of_nat_u64)
  show "(of_nat a :: u64) \<le> of_nat c \<longleftrightarrow> a \<le> c" "(of_nat a :: u64) < of_nat c \<longleftrightarrow> a < c"
    unfolding word_le_nat_alt word_less_nat_alt u by rule+
  show "(of_nat a :: u64) = 0 \<longleftrightarrow> a = 0" unfolding word_unat_eq_iff u(1) by simp
  show "sint (of_nat a :: u64) = int a" using assms(1) u(1) sint_u64_small [of "of_nat a"] by simp
  show "c \<le> a \<Longrightarrow> (of_nat a :: u64) - of_nat c = of_nat (a - c)" by (simp add: of_nat_diff)
qed

definition overlay :: "bytes \<Rightarrow> nat \<Rightarrow> bytes \<Rightarrow> bytes" where
  "overlay c ofst buf = copy_at ofst buf (copy_at 0 c (zeros (ofst + length buf)))"

lemma length_overlay [simp]: "length (overlay c ofst buf) = ofst + length buf"
  by (simp add: overlay_def)

lemma final_content_eq:
  assumes "ofst + length buf < 2 ^ 48"
  shows "final_content c (int ofst) buf = Ok (overlay c ofst buf)"
proof -
  have "u64i (int ofst) + of_nat (length buf) = of_nat (ofst + length buf)" by (simp add: u64i_nat)
  moreover have "unat (of_nat (ofst + length buf) :: u64) = ofst + length buf"
    using assms by (intro unat_of_nat_u64) simp
  ultimately show ?thesis
    using assms by (simp add: final_content_def make_bytes_def max_alloc_def overlay_def del: of_nat_add)
qed

lemma collect_filter:
  assumes "\<And>it a. \<not> P it \<Longrightarrow> f (item_of it) (IE_data it) a = (Ok (), a)"
  shows "collect_entries f items a = collect_entries f (filter P items) a"
  by (induction items arbitrary: a) (auto simp: assms andThen_def split: prod.splits res.splits)

lemma current_inline:
  "inline_file m n c \<Longrightarrow> m (extent_key n) = Some d \<Longrightarrow> current_content cd d b = (Ok c, b)"
  using makeExtentDataInline_fields [of c]
  by (auto simp: inline_file_def current_content_def r_u8_def Let_def)

lemma write_inline_small:
  assumes "small_fs b items" and "single n BTRFS_EXTENT_DATA_KEY (item_map items)"
    and "inline_file (item_map items) n c" and "leaf_needed items + 46 + length fc \<le> nodeSize b"
    and "e = (case item_map items (extent_key n) of None \<Rightarrow> (Key 0 0 0, []) | Some d \<Rightarrow> (extent_key n, d))"
  obtains dv items' where "write_inline n (fst e) (snd e) fc b = (Ok (), b\<lparr>B_dev := dv\<rparr>)"
    and "small_fs (b\<lparr>B_dev := dv\<rparr>) items'"
    and "item_map items' = (item_map items)(extent_key n \<mapsto> makeExtentDataInline fc)"
    and "leaf_needed items' \<le> leaf_needed items + 46 + length fc"
proof (cases "item_map items (extent_key n)")
  case None
  obtain dv where I: "insertFs (extent_key n) (makeExtentDataInline fc) b = (Ok (), b\<lparr>B_dev := dv\<rparr>)"
      "small_fs (b\<lparr>B_dev := dv\<rparr>) (insert_entry (extent_key n) (makeExtentDataInline fc) items)"
    by (rule insertFs_small [OF assms(1) None, of "makeExtentDataInline fc"])
      (use assms(4) in \<open>simp_all add: makeExtentDataInline_fields\<close>)
  show ?thesis
    by (rule that [OF _ I(2)])
      (use I(1) None assms(5) in \<open>simp_all add: write_inline_def insert_entry_map leaf_needed_def makeExtentDataInline_fields\<close>)
next
  case (Some d)
  then have d: "length d = 21 + length c" "d \<noteq> []"
    using assms(3) makeExtentDataInline_fields(1) [of c] by (auto simp: inline_file_def)
  obtain dv items' where U: "updateFs (extent_key n) (makeExtentDataInline fc) b = (Ok (), b\<lparr>B_dev := dv\<rparr>)"
      "small_fs (b\<lparr>B_dev := dv\<rparr>) items'" "item_map items' = (item_map items)(extent_key n \<mapsto> makeExtentDataInline fc)"
      "leaf_needed items' + length d = leaf_needed items + length (makeExtentDataInline fc)"
    by (rule updateFs_small [OF assms(1) Some, of "makeExtentDataInline fc"])
      (use assms(4) d in \<open>simp_all add: makeExtentDataInline_fields\<close>)
  show ?thesis
    by (rule that [OF _ U(2,3)])
      (use U(1,4) Some assms(5) d in \<open>simp_all add: write_inline_def makeExtentDataInline_fields\<close>)
qed

lemma grow_inode_small:
  assumes "small_fs b items" and "single n BTRFS_INODE_ITEM_KEY (item_map items)"
    and "item_map items (inode_key n) = Some d" and "144 \<le> length d"
  obtains dv items' d' where "grow_inode now n newSize b = (Ok (), b\<lparr>B_dev := dv\<rparr>)"
    and "small_fs (b\<lparr>B_dev := dv\<rparr>) items'" and "item_map items' = (item_map items)(inode_key n \<mapsto> d')"
    and "length d' = length d" and "get64 16 d' = (if newSize > get64 16 d then newSize else get64 16 d)"
proof -
  define d1 where "d1 = (if newSize > get64 16 d then copy_at 16 (put64 newSize) d else d)"
  have d1: "(if newSize > get64 16 d then put_at 16 (put64 newSize) d else Ok d) = Ok d1" "length d1 = length d"
      "get64 16 d1 = (if newSize > get64 16 d then newSize else get64 16 d)"
    using assms(4) by (simp_all add: d1_def put_at_Ok get_copy_same)
  obtain d' where d': "touch_both now d1 = Ok d'" "length d' = length d1" "\<And>i. i + 8 \<le> 120 \<Longrightarrow> get64 i d' = get64 i d1"
    by (rule touch_both_Ok [of d1 now]) (use assms(4) d1(2) that in auto)
  obtain dv items' where U: "updateFs (inode_key n) d' b = (Ok (), b\<lparr>B_dev := dv\<rparr>)"
      "small_fs (b\<lparr>B_dev := dv\<rparr>) items'" "item_map items' = (item_map items)(inode_key n \<mapsto> d')"
  proof (rule updateFs_small [OF assms(1,3), of d'])
    show "leaf_needed items + length d' \<le> nodeSize b + length d"
      using assms(1) d'(2) d1(2) by (simp add: small_fs_def)
  qed (use that in blast)
  have "grow_inode now n newSize b = (Ok (), b\<lparr>B_dev := dv\<rparr>)"
    using fetch_last_small [OF assms(1,2)] assms(3,4) d1(1) d'(1) U(1) by (simp add: grow_inode_def)
  then show ?thesis by (rule that [OF _ U(2,3)]) (use d' d1 in simp_all)
qed

lemma Write_law:
  assumes "small_fs b items" and "path_to b path n" and "single n BTRFS_INODE_ITEM_KEY (item_map items)"
    and "item_map items (inode_key n) = Some d" and "144 \<le> length d" and "inline_file (item_map items) n c"
    and "buf \<noteq> []" and "ofst + length buf \<le> 2048" and "leaf_needed items + 46 + ofst + length buf \<le> nodeSize b"
  obtains b' items' d' where "btrfs_Write cd now path buf (int ofst) b = (Ok (int (length buf)), b')"
    and "small_fs b' items'" and "path_to b' path n"
    and "item_map items' = (item_map items)(extent_key n \<mapsto> makeExtentDataInline (overlay c ofst buf), inode_key n \<mapsto> d')"
    and "length d' = length d" and "get64 16 d' = max (of_nat (ofst + length buf)) (get64 16 d)"
proof -
  let ?b = "cached path n b" and ?fc = "overlay c ofst buf"
  define e where "e = (case item_map items (extent_key n) of None \<Rightarrow> (Key 0 0 0, []) | Some d \<Rightarrow> (extent_key n, d))"
  have sm: "small_fs ?b items" "single n BTRFS_EXTENT_DATA_KEY (item_map items)"
    using assms(1,6) by (simp_all add: inline_file_def)
  have cur: "current_content cd (snd e) ?b = (Ok c, ?b)"
    using assms(6) current_inline [OF assms(6)]
    by (cases "item_map items (extent_key n)") (simp_all add: e_def current_content_def inline_file_def)
  obtain dv1 items1 where W: "write_inline n (fst e) (snd e) ?fc ?b = (Ok (), ?b\<lparr>B_dev := dv1\<rparr>)"
      "small_fs (?b\<lparr>B_dev := dv1\<rparr>) items1"
      "item_map items1 = (item_map items)(extent_key n \<mapsto> makeExtentDataInline ?fc)"
    by (rule write_inline_small [OF sm assms(6), of ?fc e]) (use assms(9) e_def in simp_all)
  have "single n BTRFS_INODE_ITEM_KEY (item_map items1)"
    unfolding W(3) by (rule single_keys) (rule assms(3))
  moreover have "item_map items1 (inode_key n) = Some d"
    using assms(4) by (simp add: W(3) inode_key_def extent_key_def)
  ultimately obtain dv2 items2 d' where G: "grow_inode now n (of_nat (length ?fc)) (?b\<lparr>B_dev := dv1\<rparr>) = (Ok (), ?b\<lparr>B_dev := dv2\<rparr>)"
      "small_fs (?b\<lparr>B_dev := dv2\<rparr>) items2" "item_map items2 = (item_map items1)(inode_key n \<mapsto> d')"
      "length d' = length d"
      "get64 16 d' = (if of_nat (length ?fc) > get64 16 d then of_nat (length ?fc) else get64 16 d)"
    by (rule grow_inode_small [OF W(2), of n d now "of_nat (length ?fc)"])
      (use assms(5) in \<open>simp_all del: length_overlay\<close>)
  define b' where "b' = ?b\<lparr>B_dev := dv2, B_pathCache := (B_pathCache ?b)(path := None)\<rparr>"
  have small: "small_fs b' items2" using G(2) by (simp add: b'_def)
  have "resolvePath path b = (Ok n, ?b)" by (rule resolve_first [OF assms(1,2)])
  moreover have "walkFSTree (first_extent_callback n) (Key 0 0 0, []) ?b = (Ok (None, e), ?b)"
    unfolding e_def by (rule first_extent_small [OF sm])
  moreover have "final_content c (int ofst) buf = Ok ?fc" using assms(8) by (intro final_content_eq) simp
  ultimately have "btrfs_Write cd now path buf (int ofst) b = (Ok (int (length buf)), b')"
    using cur W(1) G(1) assms(7,8) by (cases e) (simp add: btrfs_Write_def uncache_def b'_def)
  moreover have "path_to b' path n"
    by (rule path_to_keep [OF assms(1,2) small]) (auto simp: b'_def G(3) W(3))
  moreover have "item_map items2 = (item_map items)(extent_key n \<mapsto> makeExtentDataInline ?fc, inode_key n \<mapsto> d')"
    by (simp add: G(3) W(3))
  moreover have "get64 16 d' = max (of_nat (ofst + length buf)) (get64 16 d)"
    using G(5) by (auto simp: max_def)
  ultimately show ?thesis using small G(4) by (intro that [of b' items2 d']) simp_all
qed

lemma readFile_inline:
  assumes "small_fs b items" and "single n BTRFS_EXTENT_DATA_KEY (item_map items)"
    and "item_map items (extent_key n) = Some (makeExtentDataInline c)"
    and "length c < 2 ^ 62" and "ofst + length rbuf < 2 ^ 62"
  defines "k \<equiv> min (length rbuf) (length c - ofst)"
  shows "readFile cd n rbuf (int ofst) b = (Ok (int k, copy_at 0 (take k (drop ofst c)) rbuf), b)"
proof -
  define x where "x = \<lparr>XI_fileOffset = 0, XI_size = of_nat (length c), XI_inline = True, XI_inlineData = c,
    XI_diskBytenr = 0, XI_diskNumBytes = 0, XI_compress = 0\<rparr>"
  have f: "filter (is_entry n BTRFS_EXTENT_DATA_KEY) items = [entry (extent_key n) (makeExtentDataInline c)]"
    using filter_single [OF small_sorted [OF assms(1)] assms(2)] assms(3) by (simp add: extent_key_def)
  have "collect_entries (read_callback n) items ([], 0) =
      collect_entries (read_callback n) (filter (is_entry n BTRFS_EXTENT_DATA_KEY) items) ([], 0)"
    by (rule collect_filter) (simp add: read_callback_def)
  also have "\<dots> = (Ok (), if c = [] then ([], 0) else ([x], of_nat (length c)))"
    unfolding f using assms(4) of_nat_u64_simps(2) [of 0 "length c"]
    by (cases "c = []")
      (simp_all add: read_callback_def add_extent_def x_def is_entry_def Let_def extent_key_def makeExtentDataInline_fields)
  finally have walk: "walkFSTree (read_callback n) ([], 0) b =
      (Ok (None, if c = [] then ([], 0) else ([x], of_nat (length c))), b)"
    by (simp add: walk_small [OF assms(1) key_only_callbacks(6)] walk_result_def)
  show ?thesis
  proof (cases "ofst < length c")
    case False
    then have k: "k = 0" by (simp add: k_def)
    have "u64i (int ofst) \<ge> of_nat (length c)"
      using False assms(4,5) by (simp add: u64i_nat of_nat_u64_simps)
    with walk k show ?thesis
      by (simp add: readFile_def copy_at_def)
  next
    case True
    define hi where "hi = min (ofst + length rbuf) (length c)"
    have hi: "hi = ofst + k" "hi \<le> length c" "hi \<le> ofst + length rbuf" using True by (auto simp: k_def hi_def)
    have small: "ofst < 2 ^ 63" "hi < 2 ^ 63" "length c < 2 ^ 63" "ofst + length rbuf < 2 ^ 63" "k < 2 ^ 63"
      using assms(4,5) hi True by simp_all
    define wo we wh wb where "wo = (of_nat ofst :: u64)" and "we = (of_nat (length c) :: u64)" and "wh = (of_nat hi :: u64)"
      and "wb = (of_nat (ofst + length rbuf) :: u64)"
    note defs = this
    have Wb: "wo + of_nat (length rbuf) = wb" by (simp add: defs)
    have EO: "\<not> we \<le> wo" using True of_nat_u64_simps(1) [OF small(3,1)] by (simp add: defs)
    have Wh: "(if wb > we then we else wb) = wh"
      using of_nat_u64_simps(2) [OF small(3,4)] by (auto simp: hi_def min_def defs simp del: of_nat_add)
    have HE: "\<not> wh > we" using of_nat_u64_simps(2) [OF small(3,2)] hi(2) by (simp add: defs)
    have HO: "wh \<le> wo \<longleftrightarrow> k = 0" using of_nat_u64_simps(1) [OF small(2,1)] by (simp add: defs hi(1))
    have k: "sint (wh - wo) = int k"
      using of_nat_u64_simps(5) [OF small(2,1)] of_nat_u64_simps(4) [OF small(5,1)] by (simp add: defs hi(1))
    have src: "wo + u64i (int k) = wh" by (simp add: u64i_nat hi(1) defs)
    have uO: "unat wo = ofst" unfolding defs using small(1) by (intro unat_of_nat_u64) simp
    have B0: "wb \<le> 0 \<Longrightarrow> k = 0"
      using of_nat_u64_simps(3) [OF small(4,4)] by (simp add: defs k_def del: of_nat_add)
    have "readFromExtents cd [x] wo (rbuf, 0) b = (Ok (copy_at 0 (take k (drop ofst c)) rbuf, int k), b)"
    proof (cases "k = 0")
      case True
      with EO Wh HO show ?thesis
        by (cases "wb > we") (auto simp: x_def Let_def copy_at_def Wb simp flip: defs)
    next
      case False
      have "copy_slice 0 k (drop ofst c) rbuf = Ok (copy_at 0 (take k (drop ofst c)) rbuf)"
        by (simp add: copy_slice_def k_def)
      with False EO Wh HO HE B0 k src uO \<open>ofst < length c\<close> show ?thesis
        by (cases "wb > we") (auto simp: x_def Let_def Wb read_inline_def simp flip: defs)
    qed
    then have "readFromExtents cd [x] (of_nat ofst) (rbuf, 0) b = (Ok (copy_at 0 (take k (drop ofst c)) rbuf, int k), b)"
      by (simp only: defs)
    moreover have "\<not> u64i (int ofst) \<ge> of_nat (length c)" "(of_nat (length c) :: u64) \<noteq> 0" "c \<noteq> []"
      using EO True of_nat_u64_simps(3) [OF small(3,3)] by (auto simp: defs u64i_nat)
    ultimately show ?thesis
      using walk by (simp add: readFile_def u64i_nat)
  qed
qed

text \<open>C29: What \<open>Write\<close> writes into an inline file, at any offset (beyond the end included), \<open>Read\<close> of the same path and offset returns.\<close>

theorem Write_Read_roundtrip:
  assumes "small_fs b items" and "path_to b path n" and "single n BTRFS_INODE_ITEM_KEY (item_map items)"
    and "item_map items (inode_key n) = Some d" and "144 \<le> length d" and "inline_file (item_map items) n c"
    and "buf \<noteq> []" and "ofst + length buf \<le> 2048" and "leaf_needed items + 46 + ofst + length buf \<le> nodeSize b"
    and "length rbuf = length buf"
  shows "\<exists>b' b''. btrfs_Write cd now path buf (int ofst) b = (Ok (int (length buf)), b') \<and>
    btrfs_Read cd path rbuf (int ofst) b' = (Ok (int (length buf), buf), b'')"
proof -
  let ?c = "overlay c ofst buf"
  obtain b' items' d' where W: "btrfs_Write cd now path buf (int ofst) b = (Ok (int (length buf)), b')"
      "small_fs b' items'" "path_to b' path n"
      "item_map items' = (item_map items)(extent_key n \<mapsto> makeExtentDataInline ?c, inode_key n \<mapsto> d')"
    by (rule Write_law [OF assms(1-9)])
  have s: "single n BTRFS_EXTENT_DATA_KEY (item_map items')"
    using assms(6) by (simp add: W(4) inline_file_def)
  have m: "item_map items' (extent_key n) = Some (makeExtentDataInline ?c)"
    by (simp add: W(4) inode_key_def extent_key_def)
  have "readFile cd n rbuf (int ofst) (cached path n b') = (Ok (int (length buf), copy_at 0 (take (length buf) (drop ofst ?c)) rbuf), cached path n b')"
    using readFile_inline [of "cached path n b'" items' n ?c ofst rbuf cd] W(2) s m assms(8,10) by simp
  moreover have "copy_at 0 (take (length buf) (drop ofst ?c)) rbuf = buf"
    using assms(10) slice_copy_at_same [of ofst buf "copy_at 0 c (zeros (ofst + length buf))"]
    by (simp add: overlay_def bslice_def copy_at_all)
  ultimately have "btrfs_Read cd path rbuf (int ofst) b' = (Ok (int (length buf), buf), cached path n b')"
    using resolve_first [OF W(2,3)] by (simp add: btrfs_Read_def)
  with W(1) show ?thesis by blast
qed

definition example_items :: "itemEntry list" where
  "example_items = [entry (inode_key 256) btrfs_example_inode, entry (extent_key 256) (makeExtentDataInline [1, 2, 3, 4])]"

definition no_codecs :: codecs where
  "no_codecs = \<lparr>zlib_NewReader = (\<lambda>_. Ok ()), zlib_ReadAll = Ok, zlib_Write = Ok, zstd_NewReader = (\<lambda>_. Ok ()), zstd_ReadAll = Ok\<rparr>"

lemma length_inode_item [simp]: "length (inode_item g now mode) = 160"
  by (simp add: inode_item_def)

lemma example_items_facts:
  "small_fs (example_vol example_items) example_items" "path_to (example_vol example_items) [47] 256"
  "single 256 BTRFS_INODE_ITEM_KEY (item_map example_items)"
  "item_map example_items (inode_key 256) = Some btrfs_example_inode" "144 \<le> length btrfs_example_inode"
  "inline_file (item_map example_items) 256 [1, 2, 3, 4]"
  "leaf_needed example_items = 336" "nodeSize (example_vol items) = 4096"
proof -
  have len: "length (makeExtentDataInline [1, 2, 3, 4]) = 25" by (simp add: makeExtentDataInline_fields)
  show n: "leaf_needed example_items = 336"
    by (simp add: leaf_needed_def example_items_def btrfs_example_inode_def len)
  show "small_fs (example_vol example_items) example_items"
    by (rule example_vol_small) (simp_all add: n, simp add: example_items_def inode_key_def extent_key_def less_key_def key_less_def)
  show "path_to (example_vol example_items) [47] 256" by (simp add: path_to_def root_path_def example_vol_def)
  show "single 256 BTRFS_INODE_ITEM_KEY (item_map example_items)" "item_map example_items (inode_key 256) = Some btrfs_example_inode"
    "inline_file (item_map example_items) 256 [1, 2, 3, 4]" "144 \<le> length btrfs_example_inode"
    by (auto simp: single_def example_items_def inode_key_def extent_key_def inline_file_def btrfs_example_inode_def)
  show "nodeSize (example_vol items) = 4096" by (simp add: nodeSize_def example_vol_def example_super_def)
qed

theorem Write_Read_roundtrip_witness:
  "\<exists>b' b''. btrfs_Write no_codecs 2000 [47] [9, 8] 3 (example_vol example_items) = (Ok 2, b') \<and>
    btrfs_Read no_codecs [47] [0, 0] 3 b' = (Ok (2, [9, 8]), b'')"
  using Write_Read_roundtrip [OF example_items_facts(1-6), of "[9, 8]" 3 "[0, 0]" no_codecs 2000]
  by (simp add: example_items_facts(7,8))

text \<open>A \<open>Write\<close> that ends before the end of an inline file throws away the contents after it: the size is unchanged, but \<open>Read\<close> behind
  the written bytes returns nothing.\<close>

theorem Write_drops_tail:
  assumes "small_fs b items" and "path_to b path n" and "single n BTRFS_INODE_ITEM_KEY (item_map items)"
    and "item_map items (inode_key n) = Some d" and "144 \<le> length d" and "inline_file (item_map items) n c"
    and "buf \<noteq> []" and "ofst + length buf \<le> 2048" and "leaf_needed items + 46 + ofst + length buf \<le> nodeSize b"
    and "get64 16 d = of_nat (length c)" and "ofst + length buf < length c" and "length c < 2 ^ 32"
    and "length rbuf < 2 ^ 32"
  shows "\<exists>b' info b''. btrfs_Write cd now path buf (int ofst) b = (Ok (int (length buf)), b') \<and>
    btrfs_Getattr path b' = (Ok info, b'') \<and> n_Size info = of_nat (length c) \<and>
    btrfs_Read cd path rbuf (int (ofst + length buf)) b'' = (Ok (0, rbuf), b'')"
proof -
  let ?c = "overlay c ofst buf"
  obtain b' items' d' where W: "btrfs_Write cd now path buf (int ofst) b = (Ok (int (length buf)), b')"
      "small_fs b' items'" "path_to b' path n"
      "item_map items' = (item_map items)(extent_key n \<mapsto> makeExtentDataInline ?c, inode_key n \<mapsto> d')"
      "length d' = length d" "get64 16 d' = max (of_nat (ofst + length buf)) (get64 16 d)"
    by (rule Write_law [OF assms(1-9)])
  let ?b = "cached path n b'"
  have known: "resolvePath path b' = (Ok n, ?b)" "resolvePath path ?b = (Ok n, ?b)"
    using resolve_first [OF W(2,3)] resolve_again [OF W(3), of "B_dev b'"] by (simp_all add: cached_def)
  have s: "single n BTRFS_EXTENT_DATA_KEY (item_map items')" "single n BTRFS_INODE_ITEM_KEY (item_map items')"
    using assms(3,6) by (simp_all add: W(4) inline_file_def)
  have m: "item_map items' (extent_key n) = Some (makeExtentDataInline ?c)" "item_map items' (inode_key n) = Some d'"
    by (simp_all add: W(4) inode_key_def extent_key_def)
  have info: "readInodeInfo n ?b = (Ok (node_info (zero_info n) d'), ?b)"
    by (rule readInodeInfo_small [OF _ s(2) m(2)]) (use W(2,5) assms(5) in simp_all)
  have "get64 16 d' = of_nat (length c)"
    using W(6) assms(10,11,12) of_nat_u64_simps(2) [of "length c" "ofst + length buf"]
    by (simp add: max_def not_le del: of_nat_add)
  then have size: "n_Size (node_info (zero_info n) d') = of_nat (length c)"
    by (simp add: node_info_def Let_def)
  have "readFile cd n rbuf (int (ofst + length buf)) ?b = (Ok (0, rbuf), ?b)"
    using readFile_inline [of ?b items' n ?c "ofst + length buf" rbuf cd] W(2) s(1) m(1) assms(11-13)
    by (simp add: copy_at_def)
  with W(1) known info size show ?thesis
    by (auto simp: btrfs_Getattr_def btrfs_Read_def)
qed

definition tail_items :: "itemEntry list" where
  "tail_items = [entry (inode_key 256) (copy_at 16 (put64 4) btrfs_example_inode),
     entry (extent_key 256) (makeExtentDataInline [1, 2, 3, 4])]"

theorem Write_drops_tail_witness:
  "\<exists>b' info b''. btrfs_Write no_codecs 2000 [47] [9] 0 (example_vol tail_items) = (Ok 1, b') \<and>
    btrfs_Getattr [47] b' = (Ok info, b'') \<and> n_Size info = 4 \<and>
    btrfs_Read no_codecs [47] [0, 0, 0] 1 b'' = (Ok (0, [0, 0, 0]), b'')"
proof -
  let ?d = "copy_at 16 (put64 4) btrfs_example_inode"
  have len: "length (makeExtentDataInline [1, 2, 3, 4]) = 25" "length ?d = 160"
    by (simp_all add: makeExtentDataInline_fields btrfs_example_inode_def)
  have n: "leaf_needed tail_items = 336" by (simp add: leaf_needed_def tail_items_def len)
  have facts: "small_fs (example_vol tail_items) tail_items" "path_to (example_vol tail_items) [47] 256"
    "single 256 BTRFS_INODE_ITEM_KEY (item_map tail_items)" "item_map tail_items (inode_key 256) = Some ?d"
    "144 \<le> length ?d" "inline_file (item_map tail_items) 256 [1, 2, 3, 4]"
  proof -
    show "small_fs (example_vol tail_items) tail_items"
      by (rule example_vol_small) (simp_all add: n, simp add: tail_items_def inode_key_def extent_key_def less_key_def key_less_def)
    show "path_to (example_vol tail_items) [47] 256" by (simp add: path_to_def root_path_def example_vol_def)
    show "single 256 BTRFS_INODE_ITEM_KEY (item_map tail_items)" "item_map tail_items (inode_key 256) = Some ?d"
      "144 \<le> length ?d" "inline_file (item_map tail_items) 256 [1, 2, 3, 4]"
      by (auto simp: single_def tail_items_def inode_key_def extent_key_def inline_file_def len)
  qed
  have "get64 16 ?d = of_nat (length [1 :: u8, 2, 3, 4])"
    by (simp add: get_copy_same btrfs_example_inode_def)
  from Write_drops_tail [OF facts, of "[9]" 0 "[0, 0, 0]" no_codecs 2000, OF _ _ _ this]
  show ?thesis by (simp add: n example_items_facts(8))
qed

section \<open>Regular extents\<close>

lemma readInto_ok:
  assumes "dev_ok d" and "0 < length old" and "off + length old \<le> length (content d)"
  shows "readInto old (int off) d = (Ok (bslice off (off + length old) (content d)), d)"
proof -
  obtain d' where "dev_ReadAt d (length old) (int off) = ((bslice off (off + length old) (content d), None), d')"
    using dv.rd_law [OF assms] by blast
  moreover from this have "d' = d" using dev_ReadAt_same [OF assms(1), of "length old" "int off"] by simp
  ultimately show ?thesis using assms(3) by (simp add: readInto_def)
qed

lemma makeExtentDataRegular_fields:
  fixes a l s :: u64 and b :: BtrfsFS
  defines "e \<equiv> makeExtentDataRegular a l s b"
  shows "length e = 53" "e ! 16 = 0" "e ! 20 = 1" "get64 8 e = s" "reg_fields e 21 = (Ok (a, 0, s), 53)"
  by (simp_all add: e_def makeExtentDataRegular_def makeExtentDataRegularCompressed_def bytes_simps nth_append
      reg_fields_def reader_simps)


definition regular_items :: "itemEntry list" where
  "regular_items = [entry (inode_key 256) btrfs_example_inode,
     entry (extent_key 256) (makeExtentDataRegular 0x3000 4096 10 (example_vol []))]"


end
