(* ===== verification/Btrfs_Tree_Props.thy ===== *)
theory Btrfs_Tree_Props
  imports Btrfs_File_Props Btrfs_Fsck
begin

text \<open>
  What the functions on Btrfs trees promise for trees of every shape: a walk visits the items of the abstract tree in order, the
  space that is allocated overlaps nothing the trees name, and the check sees every change of a byte.
\<close>

section \<open>Walks\<close>

lemma walk_with_tree:
  assumes "dev_ok (B_dev b)" and "btree (content (B_dev b)) (B_tc b) h root its" and "h < stack_depth"
  shows "walk_with root f a b = (walk_result (collect_items f its a), b)"
  by (simp add: walk_with_def walk_collects [OF assms(2,1) refl assms(3)] with_walk_def walk_result_def)

text \<open>C32: A walk over the file tree hands the items of the abstract tree \<open>btree\<close> to its callback from left to right, each once, until the
  callback stops it, and changes nothing, for every tree on the disk of less than a million levels.\<close>

theorem walkFSTree_in_order:
  assumes "dev_ok (B_dev b)" and "btree (content (B_dev b)) (B_tc b) h (B_fsRoot b) its" and "h < stack_depth"
  shows "walkFSTree f a b = (walk_result (collect_items f its a), b)"
  using walk_with_tree [OF assms] by (simp add: walkFSTree_def)

text \<open>When the root of the file tree is an inner node whose first pointer leads back to the root, every walk overflows the stack.\<close>

theorem walkFSTree_cycle:
  assumes "dev_ok (B_dev b)" and "tree_node (content (B_dev b)) (B_tc b) (B_fsRoot b) = Some buf"
    and "NH_level (header_at buf) \<noteq> 0" and "0 < unat (NH_nritems (header_at buf))" and "134 \<le> length buf"
    and "IP_blockptr (ptr_at 101 buf) = B_fsRoot b"
  shows "fst (walkFSTree f a b) = Panic"
  by (simp add: walkFSTree_def walk_with_def walk_cycle [OF assms])

section \<open>Allocation of space\<close>

type_synonym span = "u64 \<times> u64"

definition span_end :: "span \<Rightarrow> nat" where
  "span_end r = unat (fst r) + unat (snd r)"

definition apart :: "u64 \<Rightarrow> u64 \<Rightarrow> span \<Rightarrow> bool" where
  "apart c n r \<longleftrightarrow> unat c + unat n \<le> unat (fst r) \<or> span_end r \<le> unat c"

lemma align_sector_up:
  assumes "s \<noteq> 0" and "unat n + unat s < 2 ^ 64"
  shows "unat n \<le> unat (align_sector s n)" and "unat (align_sector s n) < unat n + unat s"
proof -
  let ?a = "unat n + unat s - 1"
  have s: "0 < unat s" using assms(1) by (simp add: unat_gt_0)
  have up: "unat (n + s - 1) = ?a"
  proof -
    have "unat (n + s) = unat n + unat s" using assms(2) by (subst unat_plus_simple [THEN iffD1]) (auto simp: no_olen_add_nat)
    moreover have "(1 :: u64) \<le> n + s" using calculation s by (simp add: word_le_nat_alt)
    ultimately show ?thesis by (simp add: unat_sub)
  qed
  have le: "?a div unat s * unat s \<le> ?a" by simp
  have "?a div unat s * unat s < 2 ^ 64" using le assms(2) by linarith
  then have "unat (align_sector s n) = ?a div unat s * unat s"
    unfolding align_sector_def using up by (subst unat_mult_lem [THEN iffD1]) (simp_all add: unat_div)
  moreover have "?a div unat s * unat s + ?a mod unat s = ?a" by simp
  moreover have "?a mod unat s < unat s" using s by simp
  ultimately show "unat n \<le> unat (align_sector s n)" "unat (align_sector s n) < unat n + unat s"
    using s by linarith+
qed

lemma find_gap_free:
  assumes "s \<noteq> 0" and "unat s < 2 ^ 32" and "unat n < 2 ^ 62 + 2 ^ 32" and "unat c < 2 ^ 62 + 2 ^ 32"
    and "\<forall>r \<in> set occ. span_end r < 2 ^ 62" and "sorted (map fst occ)"
  shows "unat c \<le> unat (find_gap s n c occ) \<and> unat (find_gap s n c occ) < 2 ^ 62 + 2 ^ 32 \<and>
    (\<forall>r \<in> set occ. apart (find_gap s n c occ) n r) \<and>
    (find_gap s n c occ = c \<or> (\<exists>r \<in> set occ. unat (find_gap s n c occ) < span_end r + unat s))"
  using assms(4-6)
proof (induction occ arbitrary: c)
  case (Cons r occ)
  obtain l k where r: "r = (l, k)" by (cases r) auto
  have e: "unat (l + k) = unat l + unat k" "span_end r = unat (l + k)" "unat (l + k) < 2 ^ 62"
    using Cons.prems(2) unfolding r by (auto simp: span_end_def unat_plus_simple [THEN iffD1] no_olen_add_nat)
  have cn: "unat (c + n) = unat c + unat n"
    using Cons.prems(1) assms(3) by (subst unat_plus_simple [THEN iffD1]) (auto simp: no_olen_add_nat)
  have rest: "\<forall>x \<in> set occ. span_end x < 2 ^ 62" "sorted (map fst occ)" "\<forall>x \<in> set occ. l \<le> fst x"
    using Cons.prems(2,3) by (auto simp: r)
  consider "l + k \<le> c" | "\<not> l + k \<le> c" "c + n \<le> l" | "\<not> l + k \<le> c" "\<not> c + n \<le> l" by blast
  then show ?case
  proof cases
    case 1
    with Cons.IH [OF Cons.prems(1) rest(1,2)] e show ?thesis
      by (auto simp: r apart_def word_le_nat_alt)
  next
    case 2
    have "apart c n x" if "x \<in> set (r # occ)" for x
      using that 2(2) rest(3) cn by (auto simp: r apart_def word_le_nat_alt)
    with 2 Cons.prems(1) show ?thesis by (simp add: r)
  next
    case 3
    let ?c = "align_sector s (l + k)"
    have a: "unat (l + k) \<le> unat ?c" "unat ?c < unat (l + k) + unat s"
      using align_sector_up [OF assms(1), of "l + k"] e(3) assms(2) by simp_all
    then have "unat ?c < 2 ^ 62 + 2 ^ 32" using e(3) assms(2) by linarith
    note IH = Cons.IH [OF this rest(1,2)]
    let ?g = "find_gap s n ?c occ"
    have g: "find_gap s n c (r # occ) = ?g" using 3 by (simp add: r)
    have "unat c \<le> unat ?g" "apart ?g n r"
      using IH a(1) 3(1) e(2) by (auto simp: apart_def word_le_nat_alt)
    moreover have "\<exists>x \<in> set (r # occ). unat ?g < span_end x + unat s" using IH a(2) e(2) by auto
    ultimately show ?thesis using IH unfolding g by auto
  qed
qed simp

text \<open>The spans of the address space that the extent tree and the file tree name.\<close>

definition extent_spans :: "u32 \<Rightarrow> tree_item list \<Rightarrow> span list" where
  "extent_spans ns its = concat (map (\<lambda>(item, data).
     if K_typ (LI_key item) = BTRFS_EXTENT_ITEM_KEY then [(K_objectid (LI_key item), K_offset (LI_key item))]
     else if K_typ (LI_key item) = 169 then [(K_objectid (LI_key item), ucast ns)] else []) its)"

definition file_spans :: "tree_item list \<Rightarrow> span list" where
  "file_spans its = concat (map (\<lambda>(item, data).
     if K_typ (LI_key item) = BTRFS_EXTENT_DATA_KEY \<and> 45 \<le> length data \<and> data ! 20 \<noteq> BTRFS_FILE_EXTENT_INLINE \<and>
       0 < get64 21 data \<and> 0 < get64 29 data then [(get64 21 data, get64 29 data)] else []) its)"

lemma collect_extents: "collect_items (extent_callback ns) its a = (Ok (), a @ extent_spans ns its)"
  by (induction its arbitrary: a) (auto simp: extent_callback_def extent_spans_def)

lemma collect_file_extents: "collect_items file_extent_callback its a = (Ok (), a @ file_spans its)"
  by (induction its arbitrary: a) (auto simp: file_extent_callback_def file_spans_def)

definition used_spans :: "BtrfsFS \<Rightarrow> tree_item list \<Rightarrow> tree_item list \<Rightarrow> span list" where
  "used_spans b ext its = extent_spans (Sb_NodeSize (B_sb b)) ext @ file_spans its"

lemma allocateSpace_run:
  assumes "dev_ok (B_dev b)" and "btree (content (B_dev b)) (B_tc b) h (B_extentRoot b) ext" and "h < stack_depth"
    and "B_extentRoot b \<noteq> 0" and "btree (content (B_dev b)) (B_tc b) h' (B_fsRoot b) its" and "h' < stack_depth"
    and "target_chunk bg (TC_chunks (B_tc b)) = Some ch"
  shows "allocateSpace sz bg b =
    (let n = align_sector (sector_size b) sz;
         c = find_gap (sector_size b) n (CM_logical ch) (sort_key fst (used_spans b ext its))
     in (if c + n \<le> CM_logical ch + CM_length ch then Ok (c, CM_physical ch + (c - CM_logical ch))
         else Err (Errorf ''btrfs: out of disk space in block group %d''), b))"
  using assms(4,7)
  by (simp add: allocateSpace_def walkExtentTree_def walkFSTree_def walk_with_tree [OF assms(1-3)]
      walk_with_tree [OF assms(1,5,6)] collect_extents collect_file_extents walk_result_def used_spans_def Let_def)

text \<open>C33: The space that \<open>allocateSpace\<close> returns lies inside the chunk it chose, holds the bytes asked for and overlaps no extent, no tree
  block and no file extent that the extent tree or the file tree name; nothing is changed, and it fails only when some span in use, or the start of the chunk, is too close to
  the end of the chunk for the bytes and two sectors. The addresses must stay below \<open>2 ^ 62\<close>, so that nothing wraps.\<close>

theorem allocateSpace_overlaps_nothing:
  assumes "dev_ok (B_dev b)" and "btree (content (B_dev b)) (B_tc b) h (B_extentRoot b) ext" and "h < stack_depth"
    and "B_extentRoot b \<noteq> 0" and "btree (content (B_dev b)) (B_tc b) h' (B_fsRoot b) its" and "h' < stack_depth"
    and "target_chunk bg (TC_chunks (B_tc b)) = Some ch"
    and "\<forall>r \<in> set (used_spans b ext its). span_end r < 2 ^ 62"
    and "unat (CM_logical ch) + unat (CM_length ch) < 2 ^ 62" and "unat sz < 2 ^ 62"
  shows "(\<exists>c. allocateSpace sz bg b = (Ok (c, CM_physical ch + (c - CM_logical ch)), b) \<and>
      unat (CM_logical ch) \<le> unat c \<and> unat c + unat sz \<le> unat (CM_logical ch) + unat (CM_length ch) \<and>
      (\<forall>r \<in> set (used_spans b ext its). apart c sz r)) \<or>
    allocateSpace sz bg b = (Err (Errorf ''btrfs: out of disk space in block group %d''), b) \<and>
    (\<exists>e \<in> insert (unat (CM_logical ch)) (span_end ` set (used_spans b ext its)).
      unat (CM_logical ch) + unat (CM_length ch) + 1 < e + unat sz + 2 * unat (sector_size b))"
proof -
  let ?s = "sector_size b" and ?used = "used_spans b ext its"
  define n where "n = align_sector ?s sz"
  define c where "c = find_gap ?s n (CM_logical ch) (sort_key fst ?used)"
  have s: "?s \<noteq> 0" "unat ?s < 2 ^ 32"
    using unat_bounds(3) [of "Sb_SectorSize (B_sb b)"] by (auto simp: sector_size_def Let_def)
  have n: "unat sz \<le> unat n" "unat n < 2 ^ 62 + 2 ^ 32" "unat n < unat sz + unat ?s"
    using align_sector_up [OF s(1), of sz] s(2) assms(10) by (simp_all add: n_def)
  have gap: "unat (CM_logical ch) \<le> unat c" "unat c < 2 ^ 62 + 2 ^ 32" "\<forall>r \<in> set ?used. apart c n r"
    "c = CM_logical ch \<or> (\<exists>r \<in> set ?used. unat c < span_end r + unat ?s)"
    using find_gap_free [OF s n(2), of "CM_logical ch" "sort_key fst ?used"] assms(8,9) by (simp_all add: c_def)
  have sums: "unat (c + n) = unat c + unat n" "unat (CM_logical ch + CM_length ch) = unat (CM_logical ch) + unat (CM_length ch)"
    using gap(2) n(2) assms(9) by (auto simp: no_olen_add_nat intro!: unat_plus_simple [THEN iffD1])
  have "apart c sz r" if "r \<in> set ?used" for r using gap(3) that n(1) by (force simp: apart_def)
  moreover have "allocateSpace sz bg b =
      (if c + n \<le> CM_logical ch + CM_length ch then Ok (c, CM_physical ch + (c - CM_logical ch))
       else Err (Errorf ''btrfs: out of disk space in block group %d''), b)"
    by (simp add: allocateSpace_run [OF assms(1-7)] Let_def n_def c_def)
  moreover have "\<exists>e \<in> insert (unat (CM_logical ch)) (span_end ` set ?used).
      unat (CM_logical ch) + unat (CM_length ch) + 1 < e + unat sz + 2 * unat ?s"
    if "\<not> c + n \<le> CM_logical ch + CM_length ch"
    using gap(4)
  proof
    assume "\<exists>r \<in> set ?used. unat c < span_end r + unat ?s"
    then obtain r where "r \<in> set ?used" "unat c < span_end r + unat ?s" by blast
    then show ?thesis
      using that sums n(3) by (intro bexI [of _ "span_end r"]) (auto simp: word_le_nat_alt)
  qed (use that sums n(3) in \<open>auto simp: word_le_nat_alt\<close>)
  ultimately show ?thesis using gap(1) sums n(1) by (auto simp: word_le_nat_alt)
qed

section \<open>Checksums\<close>

lemma crc_changes:
  assumes "i < length data" and "x \<noteq> data ! i"
  shows "calcCrc32c (data[i := x]) \<noteq> calcCrc32c data"
proof -
  have "data = take i data @ data ! i # drop (Suc i) data" using assms(1) by (simp add: id_take_nth_drop)
  moreover have "data[i := x] = take i data @ x # drop (Suc i) data" using assms(1) by (simp add: upd_conv_take_nth_drop)
  ultimately show ?thesis using calcCrc32c_one_byte [of x "data ! i"] assms(2) by metis
qed

text \<open>C35: The table-driven checksum is the checksum of the shift register, bit by bit, and a change of one byte, anywhere, changes it.\<close>

theorem calcCrc32c_is_crc:
  "calcCrc32c data = crc_bits data \<and> (i < length data \<and> x \<noteq> data ! i \<longrightarrow> calcCrc32c (data[i := x]) \<noteq> calcCrc32c data)"
  using calcCrc32c_bits crc_changes by blast

section \<open>The check\<close>

lemma node_items_keys:
  "node_items buf n off = Some its \<Longrightarrow> off \<le> length buf \<Longrightarrow>
   off + 25 * n \<le> length buf \<and> map (\<lambda>i. LI_key (item_at (off + 25 * i) buf)) [0..<n] = map (LI_key \<circ> fst) its"
proof (induction n arbitrary: off its)
  case (Suc n)
  have split: "[0..<Suc n] = 0 # map Suc [0..<n]" by (simp add: map_Suc_upt upt_conv_Cons)
  from Suc.prems obtain data its' where "its = (item_at off buf, data) # its'" "node_items buf n (off + 25) = Some its'"
      "off + 25 \<le> length buf"
    by (auto split: if_splits res.splits)
  with Suc.IH [of "off + 25" its'] show ?case unfolding split by (simp add: comp_def add.assoc)
qed simp

lemma small_leaf_checked:
  assumes "leaf_at b addr phys items" and "keys_sorted items"
    and "get32 0 (leaf_buf b phys) = calcCrc32c (drop 32 (leaf_buf b phys))"
  shows "\<exists>n m. verifyTreeChecksums stack_depth addr (b, res) =
    (Ok (), (b, res\<lparr>NodesChecked := n, ItemsChecked := m\<rparr>))"
proof -
  note a = assms(1) [unfolded leaf_at_def] and D = leaf_atD [OF assms(1)]
  let ?buf = "leaf_buf b phys"
  have "length ?buf < 2 ^ 32" using D(5,7) by (simp add: max_node_def)
  then obtain its where its: "node_items ?buf (length items) (101 + 0 * 25) = Some its" "map tree_entry its = items"
    using parse_leaf_node_items [of "''''" ?buf 0 "length items" items] a by blast
  have keys: "101 + 25 * length items \<le> length ?buf"
      "map (\<lambda>i. LI_key (item_at (101 + 25 * i) ?buf)) [0..<length items] = map IE_k items"
    using node_items_keys [of ?buf "length items" 101 its] its D(4,7) by (auto simp: tree_entry_def comp_def)
  obtain n where n: "stack_depth = Suc n" by (rule stack_Suc)
  have "NH_level (header_at ?buf) = 0" "length items = unat (NH_nritems (header_at ?buf))"
    using a by (simp_all add: header_at_def)
  then have "verifyTreeChecksums (Suc n) addr (b, res) =
      (Ok (), (b, res\<lparr>NodesChecked := NodesChecked res + 1,
                    ItemsChecked := ItemsChecked res + NH_nritems (header_at ?buf)\<rparr>))"
    by (intro verify_leaf [OF D(1) leaf_node_buf [OF assms(1)], of "length items"])
      (use assms(2,3) keys in \<open>simp_all add: keys_sorted_def\<close>)
  then show ?thesis unfolding n by blast
qed

lemma changed_leaf_reported:
  assumes "leaf_at b addr phys items" and "get32 0 (leaf_buf b phys) = calcCrc32c (drop 32 (leaf_buf b phys))"
    and "32 \<le> i" and "i < nodeSize b" and "x \<noteq> content (B_dev b) ! (unat phys + i)"
  shows "\<not> Healthy (snd (snd (verifyTreeChecksums stack_depth addr
    (b\<lparr>B_dev := dev_put (B_dev b) (unat phys + i) [x]\<rparr>, res))))"
proof -
  note D = leaf_atD [OF assms(1)]
  let ?buf = "leaf_buf b phys" and ?d = "dev_put (B_dev b) (unat phys + i) [x]"
  have room: "unat phys + i + length [x] \<le> length (content (B_dev b))" using D(6) assms(4) by simp
  have dev: "dev_ok ?d" "content ?d = copy_at (unat phys + i) [x] (content (B_dev b))"
    using D(1) room by simp_all
  have buf': "bslice (unat phys) (unat phys + nodeSize b) (content ?d) = ?buf[i := x]"
    using D(6) assms(4) unfolding dev(2) leaf_buf_def
    by (intro nth_equalityI) (auto simp: bslice_def nth_copy_at length_copy_at nth_list_update)
  have node: "tree_node (content ?d) (B_tc b) addr = Some (?buf[i := x])"
    using D(2-4,6) room unfolding tree_node_def buf' [symmetric] by (simp add: nodeSize_def dev(2))
  have nth: "x \<noteq> ?buf ! i" using assms(4,5) D(6) by (simp add: leaf_buf_def bslice_def)
  have "drop 32 (?buf[i := x]) = (drop 32 ?buf)[i - 32 := x]" using assms(3) by (simp add: drop_update_swap)
  moreover have "get32 0 (?buf[i := x]) = get32 0 ?buf" using assms(3) by (simp add: get32_def bslice_def)
  moreover have "calcCrc32c ((drop 32 ?buf)[i - 32 := x]) \<noteq> calcCrc32c (drop 32 ?buf)"
    using assms(3,4) nth D(7) by (intro crc_changes) simp_all
  ultimately have bad: "calcCrc32c (drop 32 (?buf[i := x])) \<noteq> get32 0 (?buf[i := x])" using assms(2) by simp
  obtain n where n: "stack_depth = Suc n" by (rule stack_Suc)
  have "\<not> Healthy (snd (snd (verify_node (verifyTreeChecksums n) (?buf[i := x]) (b\<lparr>B_dev := ?d\<rparr>, res))))"
    by (rule verify_node_bad_sum [OF stays_verify _ bad]) (use D(4,7) in simp)
  then show ?thesis unfolding n using dev(1) node by (subst verify_step) simp_all
qed

text \<open>C34: After an insertion into a file tree that is one leaf, the check of that tree finds no problem; when any byte of the leaf
  behind the checksum is then replaced by another, the check reports the tree as damaged.\<close>

theorem inserted_leaf_checked:
  assumes "small_fs b items" and "item_map items k = None" and "leaf_needed items + 25 + length d \<le> nodeSize b"
    and "resolve (B_tc b) (B_fsRoot b) = Ok phys" and "32 \<le> i" and "i < nodeSize b"
  shows "\<exists>b'. insertFs k d b = (Ok (), b') \<and>
    (\<exists>n m. verifyTreeChecksums stack_depth (B_fsRoot b') (b', res) = (Ok (), (b', res\<lparr>NodesChecked := n, ItemsChecked := m\<rparr>))) \<and>
    (x \<noteq> content (B_dev b') ! (unat phys + i) \<longrightarrow>
      \<not> Healthy (snd (snd (verifyTreeChecksums stack_depth (B_fsRoot b')
        (b'\<lparr>B_dev := dev_put (B_dev b') (unat phys + i) [x]\<rparr>, res)))))"
proof -
  obtain d' where ins: "insertFs k d b = (Ok (), b\<lparr>B_dev := d'\<rparr>)"
      "small_fs (b\<lparr>B_dev := d'\<rparr>) (insert_entry k d items)" "root_sealed (b\<lparr>B_dev := d'\<rparr>)"
    by (rule insertFs_small [OF assms(1-3)])
  let ?b = "b\<lparr>B_dev := d'\<rparr>"
  obtain p where L: "leaf_at ?b (B_fsRoot ?b) p (insert_entry k d items)" "keys_sorted (insert_entry k d items)"
    by (rule small_fsE [OF ins(2)])
  have p: "p = phys" using leaf_atD(3) [OF L(1)] assms(4) by simp
  have seal: "get32 0 (leaf_buf ?b phys) = calcCrc32c (drop 32 (leaf_buf ?b phys))"
    using ins(3) assms(4) by (simp add: root_sealed_def)
  have ok: "\<exists>n m. verifyTreeChecksums stack_depth (B_fsRoot ?b) (?b, res) =
      (Ok (), (?b, res\<lparr>NodesChecked := n, ItemsChecked := m\<rparr>))"
    using small_leaf_checked [OF L [unfolded p] seal] .
  have "i < nodeSize ?b" using assms(6) by (simp add: nodeSize_def)
  note bad = changed_leaf_reported [OF L(1) [unfolded p] seal assms(5) this, of x res]
  show ?thesis
    by (rule exI [of _ ?b]) (use ins(1) ok bad in simp)
qed

section \<open>At concrete volumes\<close>

definition one_item :: "key \<Rightarrow> BtrfsFS" where
  "one_item k = (example_vol [entry k []])\<lparr>B_extentRoot := 0x5000\<rparr>"

lemma one_item_sel:
  "B_extentRoot (one_item k) = 0x5000" "B_fsRoot (one_item k) = 0x5000" "TC_chunks (B_tc (one_item k)) = [example_chunk]"
  "B_sb (one_item k) = example_super" "nodeSize (one_item k) = 4096" "resolve (B_tc (one_item k)) 0x5000 = Ok 0x1000"
  by (simp_all add: one_item_def example_vol_def nodeSize_def example_super_def resolve_def example_chunk_def)

lemma one_item_leaf: "leaf_at (one_item k) 0x5000 0x1000 [entry k []]" "small_fs (one_item k) [entry k []]"
proof -
  have "small_fs (example_vol [entry k []]) [entry k []]" by (rule example_vol_small) (simp_all add: leaf_needed_def)
  then obtain p where p: "leaf_at (example_vol [entry k []]) (B_fsRoot (example_vol [entry k []])) p [entry k []]"
      "B_fsRootLvl (example_vol [entry k []]) = 0"
    by (rule small_fsE)
  moreover have "resolve (B_tc (example_vol [entry k []])) 0x5000 = Ok 0x1000"
    by (simp add: example_vol_def resolve_def example_chunk_def)
  ultimately have "p = 0x1000" using leaf_atD(3) [OF p(1)] by (simp add: example_vol_def)
  moreover have "B_fsRoot (example_vol [entry k []]) = 0x5000" by (simp add: example_vol_def)
  moreover have "leaf_at (b\<lparr>B_extentRoot := e\<rparr>) = leaf_at b" for b e
    by (simp add: leaf_at_def leaf_buf_def nodeSize_def fun_eq_iff)
  ultimately show leaf: "leaf_at (one_item k) 0x5000 0x1000 [entry k []]"
    using p(1) by (simp only: one_item_def)
  with p(2) show "small_fs (one_item k) [entry k []]"
    by (auto simp: small_fs_def one_item_sel leaf_needed_def) (simp add: one_item_def)
qed

lemma one_item_tree:
  obtains item where "btree (content (B_dev (one_item k))) (B_tc (one_item k)) 0 0x5000 [(item, [])]" and "LI_key item = k"
proof -
  obtain its where its: "btree (content (B_dev (one_item k))) (B_tc (one_item k)) 0 0x5000 its" "map tree_entry its = [entry k []]"
    by (rule leaf_btree [OF one_item_leaf(1)])
  obtain x where "its = [x]" "tree_entry x = entry k []" using its(2) by auto
  with its(1) that [of "fst x"] show ?thesis by (cases x) (simp add: tree_entry_def)
qed

theorem walkFSTree_in_order_witness:
  "walkFSTree (\<lambda>item data seen. (Ok (), LI_key item # seen)) [] (one_item (inode_key 256)) =
    (Ok (None, [inode_key 256]), one_item (inode_key 256))"
proof -
  obtain item where t: "btree (content (B_dev (one_item (inode_key 256)))) (B_tc (one_item (inode_key 256))) 0 0x5000 [(item, [])]"
      "LI_key item = inode_key 256"
    by (rule one_item_tree)
  show ?thesis
    by (subst walkFSTree_in_order [OF leaf_atD(1) [OF one_item_leaf(1)], where h = 0 and its = "[(item, [])]"])
      (use t in \<open>simp_all add: one_item_sel stack_depth_def walk_result_def\<close>)
qed

definition cycle_vol :: BtrfsFS where
  "cycle_vol = (example_vol [])\<lparr>B_dev := FileDev \<lparr>f_data = zeros 96 @ [1, 0, 0, 0, 1] @ zeros 33, f_pos = 0, f_badr = [], f_badw = []\<rparr>,
     B_tc := \<lparr>TC_nodeSize = 134, TC_chunks = [\<lparr>CM_logical = 0, CM_length = 134, CM_physical = 0, CM_flags = 1\<rparr>]\<rparr>, B_fsRoot := 0\<rparr>"

theorem walkFSTree_cycle_witness: "fst (walkFSTree file_extent_callback [] cycle_vol) = Panic"
proof (rule walkFSTree_cycle)
  let ?buf = "zeros 96 @ [1, 0, 0, 0, 1] @ zeros 33"
  show "dev_ok (B_dev cycle_vol)" by (simp add: cycle_vol_def file_ok_def)
  show "tree_node (content (B_dev cycle_vol)) (B_tc cycle_vol) (B_fsRoot cycle_vol) = Some ?buf"
    by (simp add: cycle_vol_def tree_node_def resolve_def bslice_def)
  show "NH_level (header_at ?buf) \<noteq> 0" "0 < unat (NH_nritems (header_at ?buf))"
    by (simp_all add: header_at_def nth_append get32_def bslice_def)
  show "134 \<le> length ?buf" by simp
  show "IP_blockptr (ptr_at 101 ?buf) = B_fsRoot cycle_vol"
    by (simp add: ptr_at_def cycle_vol_def get64_def bslice_def zeros_def numeral_eq_Suc)
qed

theorem allocateSpace_overlaps_nothing_witness:
  "\<exists>c. allocateSpace 1 1 (one_item (Key 0x5000 168 0x1000)) =
      (Ok (c, 0x1000 + (c - 0x5000)), one_item (Key 0x5000 168 0x1000)) \<and>
    0x6000 \<le> unat c \<and> unat c + 1 \<le> 0x8000"
proof -
  let ?b = "one_item (Key 0x5000 168 0x1000)"
  obtain item where t: "btree (content (B_dev ?b)) (B_tc ?b) 0 0x5000 [(item, [])]"
      "LI_key item = Key 0x5000 168 0x1000"
    by (rule one_item_tree)
  have used: "used_spans ?b [(item, [])] [(item, [])] = [(0x5000, 0x1000)]"
    by (simp add: used_spans_def extent_spans_def file_spans_def t(2))
  have ch: "target_chunk 1 (TC_chunks (B_tc ?b)) = Some example_chunk"
    by (simp add: one_item_sel target_chunk_def example_chunk_def)
  have size: "unat (sector_size ?b) = 4096" by (simp add: sector_size_def one_item_sel example_super_def)
  have at: "unat (CM_logical example_chunk) = 0x5000" "unat (CM_length example_chunk) = 0x3000"
      "CM_physical example_chunk = 0x1000" "CM_logical example_chunk = 0x5000"
    by (simp_all add: example_chunk_def)
  have "B_extentRoot ?b = 0x5000" "B_fsRoot ?b = 0x5000" by (simp_all add: one_item_sel)
  with allocateSpace_overlaps_nothing [OF leaf_atD(1) [OF one_item_leaf(1) [of "Key 0x5000 168 0x1000"]], where h = 0 and h' = 0 and sz = 1 and bg = 1 and
      ch = example_chunk and ext = "[(item, [])]" and its = "[(item, [])]"]
  show ?thesis using t(1) ch by (auto simp: used size at span_end_def apart_def stack_depth_def)
qed

theorem calcCrc32c_is_crc_witness: "calcCrc32c [2] \<noteq> calcCrc32c [1]"
  using conjunct2 [OF calcCrc32c_is_crc [of "[1]" 0 2]] by simp

theorem inserted_leaf_checked_witness:
  "\<exists>b'. insertFs (extent_key 256) [1] (one_item (inode_key 256)) = (Ok (), b') \<and>
    (\<exists>n m. verifyTreeChecksums stack_depth (B_fsRoot b') (b', empty_result) =
      (Ok (), (b', empty_result\<lparr>NodesChecked := n, ItemsChecked := m\<rparr>))) \<and>
    \<not> Healthy (snd (snd (verifyTreeChecksums stack_depth (B_fsRoot b') (b'\<lparr>B_dev := dev_put (B_dev b') 4196 [1]\<rparr>, empty_result))))"
proof -
  let ?b = "one_item (inode_key 256)" and ?items = "[entry (inode_key 256) []]"
  have new: "item_map ?items (extent_key 256) = None" by (simp add: inode_key_def extent_key_def)
  have room: "leaf_needed ?items + 25 + length [1 :: u8] \<le> nodeSize ?b" by (simp add: leaf_needed_def one_item_sel)
  have res: "resolve (B_tc ?b) (B_fsRoot ?b) = Ok 0x1000" by (simp add: one_item_sel)
  obtain d' where ins: "insertFs (extent_key 256) [1] ?b = (Ok (), ?b\<lparr>B_dev := d'\<rparr>)"
      "small_fs (?b\<lparr>B_dev := d'\<rparr>) (insert_entry (extent_key 256) [1] ?items)"
    by (rule insertFs_small [OF one_item_leaf(2) new room])
  obtain p where L: "leaf_at (?b\<lparr>B_dev := d'\<rparr>) (B_fsRoot (?b\<lparr>B_dev := d'\<rparr>)) p (insert_entry (extent_key 256) [1] ?items)"
    by (rule small_fsE [OF ins(2)])
  have p: "p = 0x1000" using leaf_atD(3) [OF L] res by simp
  have "leaf_buf (?b\<lparr>B_dev := d'\<rparr>) p ! 100 = 0" using L by (simp add: leaf_at_def)
  moreover have "nodeSize (?b\<lparr>B_dev := d'\<rparr>) = 4096" using one_item_sel(5) by (simp add: nodeSize_def)
  ultimately have "content d' ! 4196 = 0"
    using leaf_atD(6) [OF L] by (simp add: leaf_buf_def p bslice_def)
  with inserted_leaf_checked [OF one_item_leaf(2) new room res, of 100 empty_result 1] ins(1)
  show ?thesis by (auto simp: one_item_sel)
qed

end
