(* ===== verification/Host.thy ===== *)
theory Host
  imports Ext4_Fs Btrfs_Ops
begin

text \<open>
  \<open>host/handles.go\<close> and \<open>host/bridge.go\<close>: the table of handles and the callbacks of the WinFsp binding, over the interface
  \<open>fs.FileSystem\<close> as a record of operations (\<open>driver\<close>), with the two values it takes in the program. A callback
  answers a number, negative for an error. The conversion of times by \<open>fuse.NewTimespec\<close> is left out: a \<open>Stat_t\<close> holds the
  time it is made from. \<open>fill\<close> sees the entries handed to it before.
\<close>

section \<open>Handles\<close>

record 'v HandleTable =
  ht_map :: "u64 \<rightharpoonup> 'v"
  ht_next :: u64

definition empty_table :: "'v HandleTable" where
  "empty_table = \<lparr>ht_map = Map.empty, ht_next = 0\<rparr>"

definition ht_Store :: "'v \<Rightarrow> 'v HandleTable \<Rightarrow> u64 \<times> 'v HandleTable" where
  "ht_Store v t = (let h = ht_next t + 1 in (h, t\<lparr>ht_next := h, ht_map := (ht_map t)(h \<mapsto> v)\<rparr>))"

definition ht_Replace :: "u64 \<Rightarrow> 'v \<Rightarrow> 'v HandleTable \<Rightarrow> 'v HandleTable" where
  "ht_Replace h v t = t\<lparr>ht_map := (ht_map t)(h \<mapsto> v)\<rparr>"

definition ht_Load :: "u64 \<Rightarrow> 'v HandleTable \<Rightarrow> 'v option" where
  "ht_Load h t = ht_map t h"

definition ht_Delete :: "u64 \<Rightarrow> 'v HandleTable \<Rightarrow> 'v HandleTable" where
  "ht_Delete h t = t\<lparr>ht_map := (ht_map t)(h := None)\<rparr>"

section \<open>The interface of the drivers\<close>

record 's driver =
  drv_Type :: string
  drv_Destroy :: "('s, unit) op"
  drv_Getattr :: "bytes \<Rightarrow> ('s, NodeInfo) op"
  drv_Readdir :: "bytes \<Rightarrow> ('s, DirEntry list) op"
  drv_Readlink :: "bytes \<Rightarrow> ('s, bytes) op"
  drv_Open :: "bytes \<Rightarrow> ('s, unit) op"
  drv_Read :: "bytes \<Rightarrow> bytes \<Rightarrow> int \<Rightarrow> ('s, int \<times> bytes) op"
  drv_Release :: "bytes \<Rightarrow> ('s, unit) op"
  drv_Create :: "bytes \<Rightarrow> u32 \<Rightarrow> ('s, unit) op"
  drv_Write :: "bytes \<Rightarrow> bytes \<Rightarrow> int \<Rightarrow> ('s, int) op"
  drv_Mkdir :: "bytes \<Rightarrow> u32 \<Rightarrow> ('s, unit) op"
  drv_Unlink :: "bytes \<Rightarrow> ('s, unit) op"
  drv_Rmdir :: "bytes \<Rightarrow> ('s, unit) op"
  drv_Rename :: "bytes \<Rightarrow> bytes \<Rightarrow> ('s, unit) op"
  drv_Chmod :: "bytes \<Rightarrow> u32 \<Rightarrow> ('s, unit) op"
  drv_Chown :: "bytes \<Rightarrow> u32 \<Rightarrow> u32 \<Rightarrow> ('s, unit) op"
  drv_Truncate :: "bytes \<Rightarrow> int \<Rightarrow> ('s, unit) op"
  drv_Symlink :: "bytes \<Rightarrow> bytes \<Rightarrow> ('s, unit) op"
  drv_Link :: "bytes \<Rightarrow> bytes \<Rightarrow> ('s, unit) op"
  drv_Getxattr :: "bytes \<Rightarrow> bytes \<Rightarrow> ('s, int \<times> bytes option) op"
  drv_Setxattr :: "bytes \<Rightarrow> bytes \<Rightarrow> bytes option \<Rightarrow> int \<Rightarrow> ('s, int) op"
  drv_Listxattr :: "bytes \<Rightarrow> (bytes list \<Rightarrow> bytes \<Rightarrow> bool) \<Rightarrow> ('s, int \<times> bytes list) op"
  drv_Removexattr :: "bytes \<Rightarrow> bytes \<Rightarrow> ('s, int) op"
  drv_Statfs :: "('s, Statfs_t) op"

text \<open>The clock, the order of maps, the error numbers and the decoders are fixed per call.\<close>

definition ext4_driver :: "env \<Rightarrow> fuse_codes \<Rightarrow> (bytes list \<Rightarrow> bytes list) \<Rightarrow> ext4 driver" where
  "ext4_driver ev c ord =
     \<lparr>drv_Type = ''ext4'', drv_Destroy = ext4_Destroy, drv_Getattr = ext4_Getattr, drv_Readdir = ext4_Readdir,
      drv_Readlink = ext4_Readlink, drv_Open = ext4_Open,
      drv_Read = (\<lambda>path buf ofst. andThen (ext4_Read path buf ofst) (\<lambda>(n, buf'). ret (int n, buf'))),
      drv_Release = ext4_Release, drv_Create = ext4_Create ev,
      drv_Write = (\<lambda>path buf ofst. andThen (ext4_Write ev path buf ofst) (\<lambda>n. ret (int n))),
      drv_Mkdir = ext4_Mkdir ev, drv_Unlink = ext4_Unlink ev, drv_Rmdir = ext4_Rmdir ev, drv_Rename = ext4_Rename ev,
      drv_Chmod = ext4_Chmod ev, drv_Chown = ext4_Chown ev, drv_Truncate = ext4_Truncate ev,
      drv_Symlink = ext4_Symlink ev, drv_Link = ext4_Link ev, drv_Getxattr = ext4_Getxattr c,
      drv_Setxattr = ext4_Setxattr ev c, drv_Listxattr = ext4_Listxattr c ord, drv_Removexattr = ext4_Removexattr ev c,
      drv_Statfs = ext4_Statfs\<rparr>"

definition btrfs_driver :: "codecs \<Rightarrow> u64 \<Rightarrow> fuse_codes \<Rightarrow> BtrfsFS driver" where
  "btrfs_driver cd now c =
     \<lparr>drv_Type = ''btrfs'', drv_Destroy = (\<lambda>b. (Ok (), btrfs_Destroy b)), drv_Getattr = btrfs_Getattr,
      drv_Readdir = btrfs_Readdir, drv_Readlink = btrfs_Readlink cd, drv_Open = btrfs_Open, drv_Read = btrfs_Read cd,
      drv_Release = btrfs_Release, drv_Create = btrfs_Create now, drv_Write = btrfs_Write cd now,
      drv_Mkdir = btrfs_Mkdir now, drv_Unlink = btrfs_Unlink now, drv_Rmdir = btrfs_Rmdir now,
      drv_Rename = btrfs_Rename now, drv_Chmod = btrfs_Chmod now, drv_Chown = btrfs_Chown now,
      drv_Truncate = btrfs_Truncate now, drv_Symlink = btrfs_Symlink now, drv_Link = btrfs_Link now,
      drv_Getxattr = btrfs_Getxattr c,
      drv_Setxattr = (\<lambda>path name val flags. btrfs_Setxattr c path name (case val of Some v \<Rightarrow> v | None \<Rightarrow> []) flags),
      drv_Listxattr = (\<lambda>path fill. andThen (btrfs_Listxattr c path fill) (\<lambda>k. ret (k, []))),
      drv_Removexattr = btrfs_Removexattr c, drv_Statfs = (\<lambda>b. (btrfs_Statfs b, b))\<rparr>"

section \<open>The bridge\<close>

record 's OrionFS =
  j_inner :: 's
  j_fileHandles :: "bytes HandleTable"
  j_dirHandles :: "bytes HandleTable"

type_synonym ('s, 'a) jop = "('s OrionFS, 'a) op"

definition NewOrionFS :: "'s \<Rightarrow> 's OrionFS" where
  "NewOrionFS s = \<lparr>j_inner = s, j_fileHandles = empty_table, j_dirHandles = empty_table\<rparr>"

definition inDriver :: "('s, 'a) op \<Rightarrow> ('s, 'a) jop" where
  "inDriver m j = (case m (j_inner j) of (r, s) \<Rightarrow> (r, j\<lparr>j_inner := s\<rparr>))"

definition store_file :: "bytes \<Rightarrow> ('s, u64) jop" where
  "store_file path j = (case ht_Store path (j_fileHandles j) of (h, t) \<Rightarrow> (Ok h, j\<lparr>j_fileHandles := t\<rparr>))"

definition store_dir :: "bytes \<Rightarrow> ('s, u64) jop" where
  "store_dir path j = (case ht_Store path (j_dirHandles j) of (h, t) \<Rightarrow> (Ok h, j\<lparr>j_dirHandles := t\<rparr>))"

record Stat_t =
  s_Mode :: u32
  s_Nlink :: u32
  s_Uid :: u32
  s_Gid :: u32
  s_Size :: int
  s_Atim :: gotime
  s_Ctim :: gotime
  s_Mtim :: gotime
  s_Blksize :: int
  s_Blocks :: int

definition zero_stat :: Stat_t where
  "zero_stat = \<lparr>s_Mode = 0, s_Nlink = 0, s_Uid = 0, s_Gid = 0, s_Size = 0, s_Atim = (0, 0), s_Ctim = (0, 0), s_Mtim = (0, 0),
     s_Blksize = 0, s_Blocks = 0\<rparr>"

definition nodeToStat :: "NodeInfo \<Rightarrow> Stat_t \<Rightarrow> Stat_t" where
  "nodeToStat node stat =
     (let mode = (if n_Mode node = 0 then (if n_IsDir node then 0x1B4 OR (0x49 OR 0x4000) else 0x1B4) else n_Mode node);
          stat1 = stat\<lparr>s_Mode := mode, s_Nlink := ucast (n_Nlink node), s_Size := sint (n_Size node),
            s_Atim := n_Atime node, s_Ctim := n_Ctime node, s_Mtim := n_Mtime node\<rparr>
      in if n_Blksize node > 0
         then stat1\<lparr>s_Blksize := sint (n_Blksize node), s_Blocks := sint (n_Blocks node * (n_Blksize node div 512))\<rparr>
         else stat1\<lparr>s_Blksize := 512, s_Blocks := sint (n_Blocks node)\<rparr>)"

text \<open>The two ways in which a callback turns an error into a number.\<close>

definition enoent_or_eio :: "fuse_codes \<Rightarrow> goerr \<Rightarrow> int" where
  "enoent_or_eio c er = (if errors_Is er Fs_ErrNotExist then - ENOENT c else - EIO c)"

definition only_eio :: "fuse_codes \<Rightarrow> goerr \<Rightarrow> int" where
  "only_eio c er = - EIO c"

definition coded :: "(goerr \<Rightarrow> int) \<Rightarrow> ('s, unit) op \<Rightarrow> ('s, int) jop" where
  "coded code m = catch (inDriver m) (\<lambda>er. ret (code er)) (\<lambda>_. ret 0)"

definition Orion_Destroy :: "'s driver \<Rightarrow> ('s, unit) jop" where
  "Orion_Destroy d = inDriver (drv_Destroy d)"

definition Orion_Statfs :: "'s driver \<Rightarrow> bytes \<Rightarrow> ('s, int \<times> Statfs_t) jop" where
  "Orion_Statfs d path = andThen (inDriver (drv_Statfs d)) (\<lambda>st. ret (0, st))"

definition Orion_Getattr :: "'s driver \<Rightarrow> fuse_codes \<Rightarrow> bytes \<Rightarrow> Stat_t \<Rightarrow> ('s, int \<times> Stat_t) jop" where
  "Orion_Getattr d c path stat =
     catch (inDriver (drv_Getattr d path)) (\<lambda>er. ret (enoent_or_eio c er, stat)) (\<lambda>node. ret (0, nodeToStat node stat))"

definition Orion_Opendir :: "bytes \<Rightarrow> ('s, int \<times> u64) jop" where
  "Orion_Opendir path = andThen (store_dir path) (\<lambda>fh. ret (0, fh))"

fun fill_entries :: "'s driver \<Rightarrow> bytes \<Rightarrow> ((bytes \<times> Stat_t) list \<Rightarrow> bytes \<times> Stat_t \<Rightarrow> bool) \<Rightarrow> (bytes \<times> Stat_t) list \<Rightarrow>
    DirEntry list \<Rightarrow> ('s, (bytes \<times> Stat_t) list) jop" where
  "fill_entries d dirPath fill seen [] = ret seen"
| "fill_entries d dirPath fill seen (e # es) =
     andThen (attempt (inDriver (drv_Getattr d (dirPath @ [47] @ d_Name e)))) (\<lambda>node.
       let s = (case node of Some n \<Rightarrow> nodeToStat n zero_stat | None \<Rightarrow> zero_stat)
       in if fill seen (d_Name e, s) then fill_entries d dirPath fill (seen @ [(d_Name e, s)]) es
          else ret (seen @ [(d_Name e, s)]))"

definition Orion_Readdir :: "'s driver \<Rightarrow> fuse_codes \<Rightarrow> bytes \<Rightarrow>
    ((bytes \<times> Stat_t) list \<Rightarrow> bytes \<times> Stat_t \<Rightarrow> bool) \<Rightarrow> u64 \<Rightarrow> ('s, int \<times> (bytes \<times> Stat_t) list) jop" where
  "Orion_Readdir d c path fill fh =
     andThen (getS (\<lambda>j. ht_Load fh (j_dirHandles j))) (\<lambda>dirPath.
       case dirPath of
         None \<Rightarrow> ret (- EBADF c, [])
       | Some dirPath \<Rightarrow>
           catch (inDriver (drv_Readdir d dirPath)) (\<lambda>er. ret (- EIO c, [])) (\<lambda>entries.
           andThen (fill_entries d dirPath fill [] entries) (\<lambda>seen. ret (0, seen))))"

definition Orion_Releasedir :: "bytes \<Rightarrow> u64 \<Rightarrow> ('s, int) jop" where
  "Orion_Releasedir path fh =
     andThen (modS (\<lambda>j. j\<lparr>j_dirHandles := ht_Delete fh (j_dirHandles j)\<rparr>)) (\<lambda>_. ret 0)"

definition Orion_Open :: "'s driver \<Rightarrow> fuse_codes \<Rightarrow> bytes \<Rightarrow> ('s, int \<times> u64) jop" where
  "Orion_Open d c path =
     catch (inDriver (drv_Open d path)) (\<lambda>er. ret (enoent_or_eio c er, 0)) (\<lambda>_.
     andThen (store_file path) (\<lambda>fh. ret (0, fh)))"

definition Orion_Read :: "'s driver \<Rightarrow> fuse_codes \<Rightarrow> bytes \<Rightarrow> bytes \<Rightarrow> int \<Rightarrow> u64 \<Rightarrow> ('s, int \<times> bytes) jop" where
  "Orion_Read d c path buff ofst fh =
     catch (inDriver (drv_Read d path buff ofst)) (\<lambda>er. ret (- EIO c, buff)) ret"

definition Orion_Release :: "'s driver \<Rightarrow> fuse_codes \<Rightarrow> bytes \<Rightarrow> u64 \<Rightarrow> ('s, int) jop" where
  "Orion_Release d c path fh =
     andThen (modS (\<lambda>j. j\<lparr>j_fileHandles := ht_Delete fh (j_fileHandles j)\<rparr>)) (\<lambda>_.
     coded (only_eio c) (drv_Release d path))"

definition Orion_Readlink :: "'s driver \<Rightarrow> fuse_codes \<Rightarrow> bytes \<Rightarrow> ('s, int \<times> bytes) jop" where
  "Orion_Readlink d c path =
     catch (inDriver (drv_Readlink d path)) (\<lambda>er. ret (enoent_or_eio c er, [])) (\<lambda>target. ret (0, target))"

definition Orion_Write :: "'s driver \<Rightarrow> fuse_codes \<Rightarrow> bytes \<Rightarrow> bytes \<Rightarrow> int \<Rightarrow> u64 \<Rightarrow> ('s, int) jop" where
  "Orion_Write d c path buff ofst fh = catch (inDriver (drv_Write d path buff ofst)) (\<lambda>er. ret (- EIO c)) ret"

definition Orion_Create :: "'s driver \<Rightarrow> fuse_codes \<Rightarrow> bytes \<Rightarrow> u32 \<Rightarrow> ('s, int \<times> u64) jop" where
  "Orion_Create d c path mode =
     catch (inDriver (drv_Create d path mode)) (\<lambda>er. ret (- EIO c, 0)) (\<lambda>_.
     andThen (store_file path) (\<lambda>fh. ret (0, fh)))"

definition Orion_Mkdir :: "'s driver \<Rightarrow> fuse_codes \<Rightarrow> bytes \<Rightarrow> u32 \<Rightarrow> ('s, int) jop" where
  "Orion_Mkdir d c path mode = coded (only_eio c) (drv_Mkdir d path mode)"

definition Orion_Unlink :: "'s driver \<Rightarrow> fuse_codes \<Rightarrow> bytes \<Rightarrow> ('s, int) jop" where
  "Orion_Unlink d c path = coded (enoent_or_eio c) (drv_Unlink d path)"

definition Orion_Rmdir :: "'s driver \<Rightarrow> fuse_codes \<Rightarrow> bytes \<Rightarrow> ('s, int) jop" where
  "Orion_Rmdir d c path = coded (enoent_or_eio c) (drv_Rmdir d path)"

definition Orion_Rename :: "'s driver \<Rightarrow> fuse_codes \<Rightarrow> bytes \<Rightarrow> bytes \<Rightarrow> ('s, int) jop" where
  "Orion_Rename d c oldpath newpath = coded (only_eio c) (drv_Rename d oldpath newpath)"

definition Orion_Chmod :: "'s driver \<Rightarrow> fuse_codes \<Rightarrow> bytes \<Rightarrow> u32 \<Rightarrow> ('s, int) jop" where
  "Orion_Chmod d c path mode = coded (enoent_or_eio c) (drv_Chmod d path mode)"

definition Orion_Chown :: "'s driver \<Rightarrow> fuse_codes \<Rightarrow> bytes \<Rightarrow> u32 \<Rightarrow> u32 \<Rightarrow> ('s, int) jop" where
  "Orion_Chown d c path uid gid = coded (enoent_or_eio c) (drv_Chown d path uid gid)"

definition Orion_Truncate :: "'s driver \<Rightarrow> fuse_codes \<Rightarrow> bytes \<Rightarrow> int \<Rightarrow> u64 \<Rightarrow> ('s, int) jop" where
  "Orion_Truncate d c path sz fh = coded (enoent_or_eio c) (drv_Truncate d path sz)"

definition Orion_Symlink :: "'s driver \<Rightarrow> fuse_codes \<Rightarrow> bytes \<Rightarrow> bytes \<Rightarrow> ('s, int) jop" where
  "Orion_Symlink d c target newpath = coded (only_eio c) (drv_Symlink d target newpath)"

definition Orion_Link :: "'s driver \<Rightarrow> fuse_codes \<Rightarrow> bytes \<Rightarrow> bytes \<Rightarrow> ('s, int) jop" where
  "Orion_Link d c oldpath newpath = coded (enoent_or_eio c) (drv_Link d oldpath newpath)"

definition Orion_Getxattr :: "'s driver \<Rightarrow> bytes \<Rightarrow> bytes \<Rightarrow> ('s, int \<times> bytes option) jop" where
  "Orion_Getxattr d path name = inDriver (drv_Getxattr d path name)"

definition Orion_Setxattr :: "'s driver \<Rightarrow> bytes \<Rightarrow> bytes \<Rightarrow> bytes option \<Rightarrow> int \<Rightarrow> ('s, int) jop" where
  "Orion_Setxattr d path name val flags = inDriver (drv_Setxattr d path name val flags)"

definition Orion_Listxattr :: "'s driver \<Rightarrow> bytes \<Rightarrow> (bytes list \<Rightarrow> bytes \<Rightarrow> bool) \<Rightarrow> ('s, int \<times> bytes list) jop" where
  "Orion_Listxattr d path fill = inDriver (drv_Listxattr d path fill)"

definition Orion_Removexattr :: "'s driver \<Rightarrow> bytes \<Rightarrow> bytes \<Rightarrow> ('s, int) jop" where
  "Orion_Removexattr d path name = inDriver (drv_Removexattr d path name)"

text \<open>\<open>splitPath\<close> of the bridge, which no callback uses; unlike that of the drivers it keeps trailing slashes. Without a slash
  the index is -1 and the slice panics.\<close>

definition bridge_splitPath :: "bytes \<Rightarrow> (bytes \<times> bytes) res" where
  "bridge_splitPath path =
     (if path = [] \<or> path = [47] then Err (Errorf ''cannot split root path'')
      else
        let idx = last_slash path
        in if idx < 0 then Panic
           else
             let parent = (if idx = 0 then [47] else take (nat idx) path); name = drop (nat (idx + 1)) path
             in if name = [] then Err (Errorf ''empty leaf name'') else Ok (parent, name))"

end
