(* ===== verification/Host_Props.thy ===== *)
theory Host_Props
  imports Host Ext4_Props Health_Props
begin

text \<open>
  The bridge over a driver. Locale \<open>handle_store\<close>: the contract of a table of handles, interpreted on \<open>HandleTable\<close>. One callback
  of the host is a step; over the ext4 driver a negative answer means that the device is as before. Then two
  places where the bridge and the ext4 driver do not fit together: open files are kept by path, and their errors
  are not those the bridge looks for.
\<close>

section \<open>Handles\<close>

locale handle_store =
  fixes store :: "'v \<Rightarrow> 't \<Rightarrow> 'h \<times> 't" and load :: "'h \<Rightarrow> 't \<Rightarrow> 'v option" and delete :: "'h \<Rightarrow> 't \<Rightarrow> 't"
    and room :: "nat \<Rightarrow> 't \<Rightarrow> bool"
  assumes store_fresh: "room (Suc n) t \<Longrightarrow> store v t = (h, t') \<Longrightarrow> load h t = None"
    and store_load: "room (Suc n) t \<Longrightarrow> store v t = (h, t') \<Longrightarrow> load k t' = (if k = h then Some v else load k t)"
    and store_room: "room (Suc n) t \<Longrightarrow> store v t = (h, t') \<Longrightarrow> room n t'"
    and delete_load: "load k (delete h t) = (if k = h then None else load k t)"
    and delete_room: "room n t \<Longrightarrow> room n (delete h t)"
begin

lemma two_handles:
  assumes "room (Suc (Suc n)) t" and "store v t = (h, t1)" and "store w t1 = (k, t2)"
  shows "h \<noteq> k" "load h t2 = Some v" "load k t2 = Some w" "load k (delete h t2) = Some w"
proof -
  have r: "room (Suc n) t1" by (rule store_room [OF assms(1,2)])
  have "load h t1 = Some v" using store_load [OF assms(1,2)] by simp
  with store_fresh [OF r assms(3)] show "h \<noteq> k" by auto
  then show "load h t2 = Some v" "load k t2 = Some w" "load k (delete h t2) = Some w"
    using store_load [OF r assms(3)] \<open>load h t1 = Some v\<close> delete_load by auto
qed

lemma store_delete: "room (Suc n) t \<Longrightarrow> store v t = (h, t') \<Longrightarrow> load k (delete h t') = load k t"
  using store_load [of n t v h t' k] store_fresh [of n t v h t'] delete_load [of k h t'] by auto

end

text \<open>Room for \<open>n\<close> more handles: the handles in use are below the counter, and the counter does not wrap.\<close>

definition ht_room :: "nat \<Rightarrow> 'v HandleTable \<Rightarrow> bool" where
  "ht_room n t \<longleftrightarrow> (\<forall>h \<in> dom (ht_map t). h \<le> ht_next t) \<and> unat (ht_next t) + n < 2 ^ 64"

lemma ht_next_step: "ht_room (Suc n) t \<Longrightarrow> ht_next t < ht_next t + 1 \<and> unat (ht_next t + 1) = unat (ht_next t) + 1"
  by (auto simp: ht_room_def word_less_nat_alt unat_word_ariths)

interpretation handles: handle_store ht_Store ht_Load ht_Delete ht_room
proof
  fix n t v h t' k
  assume r: "ht_room (Suc n) t" and s: "ht_Store v t = (h, t')"
  note nx = ht_next_step [OF r]
  show "ht_Load h t = None"
    using r s nx by (auto simp: ht_Store_def Let_def ht_Load_def ht_room_def dom_def)
  show "ht_Load k t' = (if k = h then Some v else ht_Load k t)"
    using s by (auto simp: ht_Store_def Let_def ht_Load_def)
  have "g \<le> ht_next t + 1" if "ht_map t g = Some y" for g y
  proof -
    have "g \<le> ht_next t" using that r by (auto simp: ht_room_def)
    also have "\<dots> \<le> ht_next t + 1" by (rule less_imp_le [OF conjunct1 [OF nx]])
    finally show ?thesis .
  qed
  then show "ht_room n t'"
    using r s nx by (auto simp: ht_Store_def Let_def ht_room_def split: if_splits)
qed (auto simp: ht_Load_def ht_Delete_def ht_room_def)

section \<open>One callback\<close>

inductive bridge_step :: "'s driver \<Rightarrow> fuse_codes \<Rightarrow> 's OrionFS \<Rightarrow> int \<Rightarrow> 's OrionFS \<Rightarrow> bool" for d c where
  "Orion_Getattr d c path stat j = (Ok (k, x1), j') \<Longrightarrow> bridge_step d c j k j'"
| "Orion_Statfs d path j = (Ok (k, x2), j') \<Longrightarrow> bridge_step d c j k j'"
| "Orion_Opendir path j = (Ok (k, x3), j') \<Longrightarrow> bridge_step d c j k j'"
| "Orion_Readdir d c path fill fh j = (Ok (k, x4), j') \<Longrightarrow> bridge_step d c j k j'"
| "Orion_Releasedir path fh j = (Ok k, j') \<Longrightarrow> bridge_step d c j k j'"
| "Orion_Open d c path j = (Ok (k, x3), j') \<Longrightarrow> bridge_step d c j k j'"
| "Orion_Read d c path buff ofst fh j = (Ok (k, x5), j') \<Longrightarrow> bridge_step d c j k j'"
| "Orion_Release d c path fh j = (Ok k, j') \<Longrightarrow> bridge_step d c j k j'"
| "Orion_Readlink d c path j = (Ok (k, x5), j') \<Longrightarrow> bridge_step d c j k j'"
| "Orion_Write d c path buff ofst fh j = (Ok k, j') \<Longrightarrow> bridge_step d c j k j'"
| "Orion_Create d c path mode j = (Ok (k, x3), j') \<Longrightarrow> bridge_step d c j k j'"
| "Orion_Mkdir d c path mode j = (Ok k, j') \<Longrightarrow> bridge_step d c j k j'"
| "Orion_Unlink d c path j = (Ok k, j') \<Longrightarrow> bridge_step d c j k j'"
| "Orion_Rmdir d c path j = (Ok k, j') \<Longrightarrow> bridge_step d c j k j'"
| "Orion_Rename d c oldpath path j = (Ok k, j') \<Longrightarrow> bridge_step d c j k j'"
| "Orion_Chmod d c path mode j = (Ok k, j') \<Longrightarrow> bridge_step d c j k j'"
| "Orion_Chown d c path uid gid j = (Ok k, j') \<Longrightarrow> bridge_step d c j k j'"
| "Orion_Truncate d c path sz fh j = (Ok k, j') \<Longrightarrow> bridge_step d c j k j'"
| "Orion_Symlink d c target path j = (Ok k, j') \<Longrightarrow> bridge_step d c j k j'"
| "Orion_Link d c oldpath path j = (Ok k, j') \<Longrightarrow> bridge_step d c j k j'"
| "Orion_Getxattr d path name j = (Ok (k, x6), j') \<Longrightarrow> bridge_step d c j k j'"
| "Orion_Setxattr d path name val flags j = (Ok k, j') \<Longrightarrow> bridge_step d c j k j'"
| "Orion_Listxattr d path lfill j = (Ok (k, x7), j') \<Longrightarrow> bridge_step d c j k j'"
| "Orion_Removexattr d path name j = (Ok k, j') \<Longrightarrow> bridge_step d c j k j'"

text \<open>Over the ext4 driver: what a negative answer says of the device.\<close>

definition inner_device :: "ext4 OrionFS \<Rightarrow> dev" where
  "inner_device j = device (j_inner j)"

definition answered :: "ext4 OrionFS \<Rightarrow> int \<Rightarrow> ext4 OrionFS \<Rightarrow> bool" where
  "answered j k j' \<longleftrightarrow> tx_effect (j_inner j) (if k < 0 then Err EOF else Ok ()) (j_inner j')"

lemma tx_effect_weaken: "tx_effect e r0 e' \<Longrightarrow> (\<And>er. r = Err er \<Longrightarrow> \<exists>er0. r0 = Err er0) \<Longrightarrow> tx_effect e r e'"
  unfolding tx_effect_def by blast

lemma inDriver_effect:
  assumes "transactional m" and "inDriver m j = (r, j')" and "\<not> is_tx (inner_device j)" and "dev_ok (inner_device j)"
  shows "tx_effect (j_inner j) r (j_inner j')"
proof -
  obtain s where "m (j_inner j) = (r, s)" "j' = j\<lparr>j_inner := s\<rparr>"
    using assms(2) by (auto simp: inDriver_def split: prod.splits)
  then show ?thesis using assms(1,3,4) by (auto simp: transactional_def inner_device_def)
qed

lemma caught_effect:
  assumes m: "transactional m" and run: "catch (inDriver m) (\<lambda>er. ret (h er)) f j = (Ok a, j')"
    and idle: "\<not> is_tx (inner_device j)" "dev_ok (inner_device j)"
    and neg: "\<And>er. a = h er \<Longrightarrow> code a < 0"
    and ok: "\<And>x j1. inDriver m j = (Ok x, j1) \<Longrightarrow> f x j1 = (Ok a, j') \<Longrightarrow> 0 \<le> code a \<and> j_inner j' = j_inner j1"
  shows "answered j (code a) j'"
proof -
  obtain r j1 where r: "inDriver m j = (r, j1)" by fastforce
  note e = inDriver_effect [OF m r idle]
  show ?thesis
  proof (cases r)
    case (Ok x)
    then have "f x j1 = (Ok a, j')" using run r by (simp add: catch_def)
    with ok [OF r [unfolded Ok] this] e Ok show ?thesis by (auto simp: answered_def tx_effect_def)
  next
    case (Err er)
    then have "a = h er" "j' = j1" using run r by (simp_all add: catch_def)
    with neg e Err show ?thesis by (auto simp: answered_def tx_effect_def)
  next
    case Panic
    with run r show ?thesis by (simp add: catch_def)
  qed
qed

lemma transactional_map: "transactional m \<Longrightarrow> transactional (andThen m (\<lambda>x. ret (f x)))"
  unfolding transactional_def
proof (intro allI impI)
  fix e r e'
  assume m: "\<forall>e r e'. m e = (r, e') \<longrightarrow> \<not> is_tx (device e) \<longrightarrow>
      shape_of (device e') = shape_of (device e) \<and> (dev_ok (device e) \<longrightarrow> tx_effect e r e')"
    and run: "andThen m (\<lambda>x. ret (f x)) e = (r, e')" and idle: "\<not> is_tx (device e)"
  obtain r0 where r0: "m e = (r0, e')" "\<And>er. r = Err er \<Longrightarrow> r0 = Err er"
    using run by (auto simp: andThen_def split: prod.splits res.splits)
  from m r0(1) idle have "shape_of (device e') = shape_of (device e) \<and> (dev_ok (device e) \<longrightarrow> tx_effect e r0 e')" by blast
  moreover have "tx_effect e r0 e' \<Longrightarrow> tx_effect e r e'"
    using r0(2) by (blast intro: tx_effect_weaken)
  ultimately show "shape_of (device e') = shape_of (device e) \<and> (dev_ok (device e) \<longrightarrow> tx_effect e r e')"
    by blast
qed

lemma driver_ops:
  "drv_Getattr (ext4_driver ev c ord) = ext4_Getattr" "drv_Readdir (ext4_driver ev c ord) = ext4_Readdir"
  "drv_Readlink (ext4_driver ev c ord) = ext4_Readlink" "drv_Open (ext4_driver ev c ord) = ext4_Open"
  "drv_Read (ext4_driver ev c ord) path buf ofst = andThen (ext4_Read path buf ofst) (\<lambda>x. ret (int (fst x), snd x))"
  "drv_Release (ext4_driver ev c ord) = ext4_Release" "drv_Create (ext4_driver ev c ord) = ext4_Create ev"
  "drv_Write (ext4_driver ev c ord) path buf ofst = andThen (ext4_Write ev path buf ofst) (\<lambda>n. ret (int n))"
  "drv_Mkdir (ext4_driver ev c ord) = ext4_Mkdir ev" "drv_Unlink (ext4_driver ev c ord) = ext4_Unlink ev"
  "drv_Rmdir (ext4_driver ev c ord) = ext4_Rmdir ev" "drv_Rename (ext4_driver ev c ord) = ext4_Rename ev"
  "drv_Chmod (ext4_driver ev c ord) = ext4_Chmod ev" "drv_Chown (ext4_driver ev c ord) = ext4_Chown ev"
  "drv_Truncate (ext4_driver ev c ord) = ext4_Truncate ev" "drv_Symlink (ext4_driver ev c ord) = ext4_Symlink ev"
  "drv_Link (ext4_driver ev c ord) = ext4_Link ev" "drv_Getxattr (ext4_driver ev c ord) = ext4_Getxattr c"
  "drv_Setxattr (ext4_driver ev c ord) = ext4_Setxattr ev c" "drv_Listxattr (ext4_driver ev c ord) = ext4_Listxattr c ord"
  "drv_Removexattr (ext4_driver ev c ord) = ext4_Removexattr ev c" "drv_Statfs (ext4_driver ev c ord) = ext4_Statfs"
  by (simp_all add: ext4_driver_def split_def)

lemma driver_transactional:
  fixes ev c ord defines "D \<equiv> ext4_driver ev c ord"
  shows "transactional (drv_Getattr D path)" "transactional (drv_Readdir D path)" "transactional (drv_Readlink D path)"
    "transactional (drv_Open D path)" "transactional (drv_Read D path buf ofst)" "transactional (drv_Release D path)"
    "transactional (drv_Statfs D)" "transactional (drv_Getxattr D path name)" "transactional (drv_Listxattr D path lfill)"
    "transactional (drv_Create D path mode)" "transactional (drv_Write D path buf ofst)" "transactional (drv_Mkdir D path mode)"
    "transactional (drv_Unlink D path)" "transactional (drv_Rmdir D path)" "transactional (drv_Rename D oldpath path)"
    "transactional (drv_Chmod D path mode)" "transactional (drv_Chown D path uid gid)" "transactional (drv_Truncate D path sz)"
    "transactional (drv_Symlink D target path)" "transactional (drv_Link D oldpath path)"
  unfolding D_def driver_ops ext4_Unlink_def ext4_Rmdir_def
  by (intro reads_transactional writes_transactional transactional_map)+

text \<open>Reading through the bridge never changes the device.\<close>

definition at_inner :: "(ext4 \<Rightarrow> bool) \<Rightarrow> ext4 OrionFS \<Rightarrow> bool" where
  "at_inner P j = P (j_inner j)"

lemma keeps_inDriver [keeps]: "keeps P m \<Longrightarrow> keeps (at_inner P) (inDriver m)"
  by (auto simp: keeps_def at_inner_def inDriver_def split: prod.splits)

definition still_dev :: "dev \<Rightarrow> ext4 \<Rightarrow> bool" where
  "still_dev d0 = on_ext4 (on_fs (\<lambda>d. d = d0 \<and> dev_ok d0))"

lemma keeps_reading_ext4:
  "keeps (still_dev d0) (ext4_Getattr path)" "keeps (still_dev d0) (ext4_Readdir path)"
  "keeps (still_dev d0) (ext4_Getxattr c path name)" "keeps (still_dev d0) (ext4_Listxattr c ord path lfill)"
  unfolding still_dev_def ext4_Getattr_def ext4_Readdir_def ext4_Getxattr_def ext4_Listxattr_def by (intro keeps; simp)+

lemma keeps_fill_entries: "keeps (at_inner (still_dev d0)) (fill_entries (ext4_driver ev c ord) dirPath fill seen es)"
proof (induction es arbitrary: seen)
  case Nil
  show ?case unfolding fill_entries.simps by (intro keeps)
next
  case (Cons e es)
  show ?case unfolding fill_entries.simps driver_ops by (intro keeps keeps_reading_ext4 Cons)
qed

lemma still_effect:
  assumes "keeps (at_inner (still_dev (inner_device j))) M" and "M j = (r, j')" and "dev_ok (inner_device j)"
  shows "answered j k j'"
proof -
  have "at_inner (still_dev (inner_device j)) (snd (M j))"
    by (rule keeps_at [OF assms(1)]) (use assms(3) in \<open>simp add: at_inner_def still_dev_def on_ext4_def on_fs_def inner_device_def\<close>)
  then show ?thesis
    by (simp add: assms(2) answered_def tx_effect_def at_inner_def still_dev_def on_ext4_def on_fs_def inner_device_def)
qed

lemma keeps_reading_bridge:
  "keeps (at_inner (still_dev d0)) (Orion_Readdir (ext4_driver ev c ord) c path fill fh)"
  "keeps (at_inner (still_dev d0)) (Orion_Getxattr (ext4_driver ev c ord) path name)"
  "keeps (at_inner (still_dev d0)) (Orion_Listxattr (ext4_driver ev c ord) path lfill)"
  unfolding Orion_Readdir_def Orion_Getxattr_def Orion_Listxattr_def driver_ops
  by (intro keeps keeps_reading_ext4 keeps_fill_entries)+

lemma coded_effect:
  assumes "transactional m" and "coded code m j = (Ok k, j')" and "\<And>er. code er < 0"
    and "\<not> is_tx (inner_device j)" and "dev_ok (inner_device j)"
  shows "answered j k j'"
  using caught_effect [where code = "\<lambda>k. k", OF assms(1) assms(2) [unfolded coded_def] assms(4,5)] assms(3) by auto

lemma number_effect:
  assumes "inDriver m j = (Ok k, j')" and "dev_ok (inner_device j)"
    and "\<And>s. m (j_inner j) = (Ok k, s) \<Longrightarrow> tx_effect (j_inner j) (code_res (Ok k)) s"
  shows "answered j k j'"
proof -
  obtain s where s: "m (j_inner j) = (Ok k, s)" "j' = j\<lparr>j_inner := s\<rparr>"
    using assms(1) by (auto simp: inDriver_def split: prod.splits)
  have "tx_effect (j_inner j) (if k < 0 then Err EOF else Ok ()) s"
    by (rule tx_effect_weaken [OF assms(3) [OF s(1)]]) (auto simp: code_res_def split: if_splits)
  with s(2) show ?thesis by (simp add: answered_def)
qed

definition codes_positive :: "fuse_codes \<Rightarrow> bool" where
  "codes_positive c \<longleftrightarrow> 0 < ENOENT c \<and> 0 < EIO c"

lemma codes_negative: "codes_positive c \<Longrightarrow> enoent_or_eio c er < 0" "codes_positive c \<Longrightarrow> only_eio c er < 0" "codes_positive c \<Longrightarrow> - EIO c < 0"
  by (simp_all add: codes_positive_def enoent_or_eio_def only_eio_def)

lemma idle_same: "answered j k (j\<lparr>j_fileHandles := t\<rparr>)" "answered j k (j\<lparr>j_dirHandles := t\<rparr>)"
  by (simp_all add: answered_def tx_effect_def)

lemma handle_store_effect:
  "store_file path j = (Ok fh, j') \<Longrightarrow> j_inner j' = j_inner j" "store_dir path j = (Ok fh, j') \<Longrightarrow> j_inner j' = j_inner j"
  by (auto simp: store_file_def store_dir_def split: prod.splits)

lemma store_then:
  "andThen (store_file path) (\<lambda>fh. ret (0, fh)) j1 = (Ok (k :: int, x), j') \<Longrightarrow> 0 \<le> k \<and> j_inner j' = j_inner j1"
  by (auto dest: handle_store_effect elim!: andThen_OkE)

lemma count_then:
  "inDriver (andThen m (\<lambda>x. ret (int (f x), g x))) j = (Ok (k, y), j1) \<Longrightarrow> 0 \<le> k"
  "inDriver (andThen m (\<lambda>x. ret (int (f x)))) j = (Ok k, j1) \<Longrightarrow> 0 \<le> k"
  by (auto simp: inDriver_def andThen_def split: prod.splits res.splits)


section \<open>Where the bridge and the driver do not fit\<close>

text \<open>C38: A path that leads nowhere: over ext4, \<open>Getattr\<close> answers \<open>ENOENT\<close>, but \<open>Open\<close> and \<open>Readlink\<close> answer \<open>EIO\<close>,
  because they hand out the error of \<open>vfs\<close>, and the bridge looks for that of \<open>fs\<close>.\<close>

theorem missing_file_codes:
  assumes "fst (WalkInode path (e_inner (j_inner j))) = Err er" and "errors_Is er ErrNotExist" and "\<not> errors_Is er Fs_ErrNotExist"
  shows "fst (Orion_Getattr (ext4_driver ev c ord) c path stat j) = Ok (- ENOENT c, stat) \<and>
    fst (Orion_Open (ext4_driver ev c ord) c path j) = Ok (- EIO c, 0) \<and> fst (Orion_Readlink (ext4_driver ev c ord) c path j) = Ok (- EIO c, [])"
proof -
  obtain s where w: "WalkInode path (e_inner (j_inner j)) = (Err er, s)"
    using assms(1) by (metis fst_conv prod.exhaust)
  then have w2: "Walk path (e_inner (j_inner j)) = (Err er, s)" by (simp add: Walk_def WalkInode_def)
  show ?thesis
    using w w2 assms(2,3)
    by (simp add: driver_ops Orion_Getattr_def Orion_Open_def Orion_Readlink_def catch_def inDriver_def ext4_Getattr_def
        ext4_Open_def ext4_Readlink_def onInner_def andThen_def enoent_or_eio_def)
qed

text \<open>C37: The ext4 driver keeps open files by path. When a path has been opened twice, releasing the first handle forgets
  the file: the second handle is still in the table, but reading with it answers \<open>EIO\<close>.\<close>

theorem release_breaks_other_handle:
  assumes "Orion_Open (ext4_driver ev c ord) c path j = (Ok (0, fh1), j1)"
    and "Orion_Open (ext4_driver ev c ord) c path j1 = (Ok (0, fh2), j2)"
    and "Orion_Release (ext4_driver ev c ord) c path fh1 j2 = (Ok k, j3)" and "ht_room 2 (j_fileHandles j)" and "0 < EIO c" and "0 < ENOENT c"
  shows "k = 0 \<and> fh1 \<noteq> fh2 \<and> ht_Load fh2 (j_fileHandles j3) = Some path \<and>
    fst (Orion_Read (ext4_driver ev c ord) c path buff ofst fh2 j3) = Ok (- EIO c, buff)"
proof -
  have opened: "\<exists>s. ht_Store path (j_fileHandles a) = (fh, j_fileHandles b)"
    if "Orion_Open (ext4_driver ev c ord) c path a = (Ok (0, fh), b)" for a b fh
  proof -
    have "enoent_or_eio c er \<noteq> 0" for er using assms(5,6) by (simp add: enoent_or_eio_def)
    moreover obtain r a1 where r: "inDriver (drv_Open (ext4_driver ev c ord) path) a = (r, a1)" by fastforce
    moreover have "j_fileHandles a1 = j_fileHandles a" using r by (auto simp: inDriver_def split: prod.splits)
    ultimately have "andThen (store_file path) (\<lambda>fh. ret (0 :: int, fh)) a1 = (Ok (0, fh), b)"
      using that by (cases r) (auto simp: Orion_Open_def catch_def)
    with \<open>j_fileHandles a1 = j_fileHandles a\<close>
    show ?thesis by (auto simp: store_file_def andThen_def split: prod.splits)
  qed
  have h: "fh1 \<noteq> fh2" "ht_Load fh2 (ht_Delete fh1 (j_fileHandles j2)) = Some path"
    using handles.two_handles [of 0 "j_fileHandles j" path fh1 "j_fileHandles j1" path fh2 "j_fileHandles j2"]
      opened [OF assms(1)] opened [OF assms(2)] assms(4) by (simp_all add: numeral_2_eq_2)
  have r: "k = 0" "j_fileHandles j3 = ht_Delete fh1 (j_fileHandles j2)" "e_files (j_inner j3) path = None"
    using assms(3) by (auto simp: Orion_Release_def coded_def catch_def inDriver_def driver_ops ext4_Release_def
        split: prod.splits)
  have "fst (Orion_Read (ext4_driver ev c ord) c path buff ofst fh2 j3) = Ok (- EIO c, buff)"
    using r(3) by (simp add: Orion_Read_def catch_def inDriver_def driver_ops ext4_Read_def andThen_def)
  with h r show ?thesis by simp
qed

section \<open>At a concrete file system\<close>

definition example_bridge :: "ext4 OrionFS" where
  "example_bridge = NewOrionFS example_ext4"

definition example_driver :: "ext4 driver" where
  "example_driver = ext4_driver example_env example_codes (\<lambda>l. l)"


text \<open>The root of \<open>sane_fs\<close> is a directory with no entries but \<open>.\<close> and \<open>..\<close>.\<close>

theorem missing_file_codes_witness:
  "\<exists>j :: ext4 OrionFS. fst (Orion_Getattr example_driver example_codes [47, 120] zero_stat j) = Ok (- 2, zero_stat) \<and>
    fst (Orion_Open example_driver example_codes [47, 120] j) = Ok (- 5, 0)"
proof -
  let ?j = "NewOrionFS \<lparr>e_inner = sane_fs, e_files = Map.empty, e_dirs = Map.empty\<rparr>"
  have d: "IsDir dir_inode" by (simp add: dir_inode_def IsDir_def S_IFDIR_def ifmt_def)
  have "fst (Lookup dir_inode [120] sane_fs) = Err ErrNotExist"
    by (simp add: Lookup_def ReadDirCached_def andThen_def wrapErr_def sane_fs_sel sane_fs_reads)
      (simp add: dot_records_def raw_entry_def)
  then have "fst (WalkInode [47, 120] (e_inner (j_inner ?j))) = Err ErrNotExist"
    using d by (auto simp: WalkInode_comps comps_def RootInodeNum_def sane_fs_reads NewOrionFS_def andThen_def split: prod.splits)
  then show ?thesis
    using missing_file_codes [of "[47, 120]" ?j ErrNotExist example_env example_codes "\<lambda>l. l" zero_stat]
    unfolding example_driver_def by (auto simp: example_codes_def)
qed

theorem release_breaks_other_handle_witness:
  "\<exists>fh2 j3. ht_Load fh2 (j_fileHandles j3) = Some [47] \<and> fst (Orion_Read example_driver example_codes [47] [0, 0] 0 fh2 j3) = Ok (- 5, [0, 0])"
proof -
  let ?j = "NewOrionFS \<lparr>e_inner = sane_fs, e_files = Map.empty, e_dirs = Map.empty\<rparr>"
  have w: "WalkInode [47] sane_fs = (Ok (2, dir_inode), sane_fs)"
    by (simp add: WalkInode_comps comps_def RootInodeNum_def sane_fs_reads)
  have nreg: "\<not> IsRegular dir_inode" by (simp add: dir_inode_def IsRegular_def S_IFDIR_def S_IFREG_def ifmt_def)
  have open1: "\<exists>j1 h. Orion_Open example_driver example_codes [47] j = (Ok (0, h), j1) \<and> e_inner (j_inner j1) = sane_fs"
    if "e_inner (j_inner j) = sane_fs" for j
    using that w nreg
    by (simp add: Orion_Open_def example_driver_def driver_ops catch_def inDriver_def ext4_Open_def onInner_def set_file_def
        store_file_def andThen_def split: prod.splits)
  obtain j1 h1 where 1: "Orion_Open example_driver example_codes [47] ?j = (Ok (0, h1), j1)" "e_inner (j_inner j1) = sane_fs"
    using open1 [of ?j] by (auto simp: NewOrionFS_def)
  obtain j2 h2 where 2: "Orion_Open example_driver example_codes [47] j1 = (Ok (0, h2), j2)"
    using open1 [OF 1(2)] by auto
  obtain k j3 where 3: "Orion_Release example_driver example_codes [47] h1 j2 = (Ok k, j3)"
    by (simp add: Orion_Release_def coded_def catch_def inDriver_def example_driver_def driver_ops ext4_Release_def)
  have "ht_room 2 (j_fileHandles ?j)" by (simp add: ht_room_def NewOrionFS_def empty_table_def)
  with release_breaks_other_handle [OF 1(1) [unfolded example_driver_def] 2 [unfolded example_driver_def] 3 [unfolded example_driver_def] this]
  show ?thesis unfolding example_driver_def by (auto simp: example_codes_def)
qed

end
