(* ===== verification/Cli.thy ===== *)
theory Cli
  imports Host Health Partitions Btrfs_Fsck
begin

text \<open>
  \<open>main.go\<close>: the choice of the command from the arguments, the choice of the partition and of the driver, the check of a
  device, the listings, and the names handed to WinFsp. Opening files and devices of the host, mounting and printing
  are left out: a function starts where the device is open and returns what is printed as a value. Names are
  lists of code points (\<open>[]rune\<close>).
\<close>

section \<open>Arguments\<close>

text \<open>\<open>strconv.Atoi\<close>: an optional sign, digits, and the range of \<open>int\<close>.\<close>

definition is_digit :: "char \<Rightarrow> bool" where
  "is_digit ch \<longleftrightarrow> 48 \<le> (of_char ch :: nat) \<and> (of_char ch :: nat) \<le> 57"

definition digits_value :: "string \<Rightarrow> nat" where
  "digits_value s = foldl (\<lambda>n ch. n * 10 + (of_char ch - 48)) 0 s"

definition Atoi :: "string \<Rightarrow> int option" where
  "Atoi s =
     (let neg = (s \<noteq> [] \<and> hd s = CHR ''-'');
          ds = (if s \<noteq> [] \<and> (hd s = CHR ''-'' \<or> hd s = CHR ''+'') then tl s else s);
          v = (if neg then - int (digits_value ds) else int (digits_value ds))
      in if ds = [] \<or> \<not> list_all is_digit ds then None
         else if v < - (2 ^ 63) \<or> v > 2 ^ 63 - 1 then None else Some v)"

datatype command =
    Help
  | Devices
  | Install
  | Mount
  | FsckImage string bool
  | FsckPartition string int bool
  | ImageMode
  | ListPartitions string
  | ReadPartition string int
  | Usage string

definition with_number :: "string \<Rightarrow> (int \<Rightarrow> command) \<Rightarrow> command" where
  "with_number s f = (case Atoi s of Some n \<Rightarrow> f n | None \<Rightarrow> Usage ''partition number must be an integer, got %q'')"

text \<open>\<open>run\<close> on \<open>os.Args\<close>, the name of the program first.\<close>

definition run_command :: "string list \<Rightarrow> command" where
  "run_command args =
     (let n = length args; arg = (\<lambda>i. args ! i)
      in if n \<ge> 2 \<and> arg 1 \<in> {''-h'', ''--help'', ''help'', ''/?''} then Help
         else if n \<ge> 2 \<and> arg 1 = ''devices'' then Devices
         else if n \<ge> 2 \<and> arg 1 = ''install'' then Install
         else if n \<ge> 2 \<and> arg 1 = ''mount'' then Mount
         else if n = 2 \<and> arg 1 = ''fsck'' then FsckImage ''testfs.img'' False
         else if n = 3 \<and> arg 1 = ''fsck''
         then (if arg 2 = ''--fix'' then Usage ''usage: werunos fsck [--fix] <device> [<partNum>]'' else FsckImage (arg 2) False)
         else if n = 4 \<and> arg 1 = ''fsck'' \<and> arg 2 = ''--fix'' then FsckImage (arg 3) True
         else if n = 4 \<and> arg 1 = ''fsck'' then with_number (arg 3) (\<lambda>k. FsckPartition (arg 2) k False)
         else if n = 5 \<and> arg 1 = ''fsck'' \<and> arg 2 = ''--fix'' then with_number (arg 4) (\<lambda>k. FsckPartition (arg 3) k True)
         else if n = 1 then ImageMode
         else if n = 2 then ListPartitions (arg 1)
         else if n = 3 then with_number (arg 2) (ReadPartition (arg 1))
         else Usage ''usage:'')"

datatype mount_target = MountImage string | MountDisk int int

definition is_letter :: "char \<Rightarrow> bool" where
  "is_letter ch \<longleftrightarrow> (let n = of_char ch :: nat in 65 \<le> n \<and> n \<le> 90 \<or> 97 \<le> n \<and> n \<le> 122)"

definition upper :: "char \<Rightarrow> char" where
  "upper ch = (let n = of_char ch :: nat in if 97 \<le> n \<and> n \<le> 122 then char_of (n - 32) else ch)"

definition mount_point :: "string \<Rightarrow> string" where
  "mount_point s = (if length s = 1 \<and> is_letter (hd s) then [upper (hd s)] @ '':'' else s)"

definition runMount_args :: "string list \<Rightarrow> (string \<times> mount_target) res" where
  "runMount_args args =
     (if length args < 4 \<or> length args > 5 then Err (Errorf ''usage: werunos mount <letter> <diskNum|imagePath> [<partNum>]'')
      else if length args = 4 then Ok (mount_point (args ! 2), MountImage (args ! 3))
      else
        case Atoi (args ! 3) of
          None \<Rightarrow> Ok (mount_point (args ! 2), MountImage (args ! 3))
        | Some diskNum \<Rightarrow>
            (case Atoi (args ! 4) of
               None \<Rightarrow> Err (Errorf ''partNum must be an integer, got %q'')
             | Some partNum \<Rightarrow> Ok (mount_point (args ! 2), MountDisk diskNum partNum)))"

section \<open>The driver of a device\<close>

datatype mounted = MExt4 ext4 | MBtrfs BtrfsFS

definition openFilesystem :: "dev \<Rightarrow> mounted res" where
  "openFilesystem d =
     (case ext4_ReadSuperBlock d of
        (Ok _, e) \<Rightarrow> Ok (MExt4 e)
      | (Panic, e) \<Rightarrow> Panic
      | (Err _, e) \<Rightarrow>
          (case mount_btrfs (fs_dev (e_inner e)) of
             (Ok b, _) \<Rightarrow> Ok (MBtrfs b)
           | (Panic, _) \<Rightarrow> Panic
           | (Err _, _) \<Rightarrow> Err (Errorf ''unknown filesystem (not ext4 or btrfs)'')))"

definition find_partition :: "int \<Rightarrow> Partition list \<Rightarrow> Partition option" where
  "find_partition partNum partitions = find (\<lambda>p. int (p_Number p) = partNum) partitions"

text \<open>What \<open>runReadPartition\<close> does with an open disk: the reader of a Linux partition.\<close>

definition linux_partition :: "int \<Rightarrow> dev \<Rightarrow> dev res" where
  "linux_partition partNum f =
     (case ProbePartitions f of
        (Ok (_, partitions), f') \<Rightarrow>
          (case find_partition partNum partitions of
             None \<Rightarrow> Err (Errorf ''partition %d not found on %q'')
           | Some target \<Rightarrow>
               if p_Type target \<noteq> TypeLinuxData then Err (Errorf ''partition %d is %q, not a Linux filesystem'')
               else Ok (NewPartitionReader f' target))
      | (Err e, _) \<Rightarrow> Err (Wrapf ''failed to probe partition table'' e)
      | (Panic, _) \<Rightarrow> Panic)"

text \<open>What is mounted sits on a device with a side log, whose pending entries are written back first. The log is the open
  file; finding it by the name of the device is left out.\<close>

definition mount_logged :: "safeLog \<Rightarrow> dev \<Rightarrow> mounted res" where
  "mount_logged l d =
     (case NewSafeDevice dev_WriteAt l d of
        (Err e, _) \<Rightarrow> Err (Wrapf ''failed to initialize safe device'' e)
      | (Panic, _) \<Rightarrow> Panic
      | (Ok (l', cache), d') \<Rightarrow> wrapR ''failed to detect filesystem'' (openFilesystem (SafeDev d' l' cache)))"

definition runMountImage :: "safeLog \<Rightarrow> dev \<Rightarrow> mounted res" where
  "runMountImage l f = mount_logged l f"

definition runMount :: "int \<Rightarrow> safeLog \<Rightarrow> dev \<Rightarrow> mounted res" where
  "runMount partNum l f =
     (case ProbePartitions f of
        (Ok (_, partitions), f') \<Rightarrow>
          (case find_partition partNum partitions of
             None \<Rightarrow> Err (Errorf ''partition %d not found on %s'')
           | Some target \<Rightarrow>
               if p_Type target \<noteq> TypeLinuxData then Err (Errorf ''partition %d is %q - expected Linux filesystem'')
               else mount_logged l (NewPartitionReader f' target))
      | (Err e, _) \<Rightarrow> Err (Wrapf ''failed to read partition table on %q'' e)
      | (Panic, _) \<Rightarrow> Panic)"

section \<open>Checking a device\<close>

definition fsck_ext4 :: "bool \<Rightarrow> FsckResult fsop" where
  "fsck_ext4 fix =
     andThen (wrapErr ''failed to read superblock'' ReadSuperBlock) (\<lambda>_.
     andThen (wrapErr ''superblock not available'' Superblock) (\<lambda>sb.
     andThen (wrapErr ''failed to read group descriptors'' ReadGroupDescriptors) (\<lambda>_.
       Fsck fix)))"

definition runFsckDevice :: "bool \<Rightarrow> dev \<Rightarrow> unit res \<times> dev" where
  "runFsckDevice fix d =
     (case openFilesystem d of
        Err e \<Rightarrow> (Err (Wrapf ''failed to detect filesystem for fsck'' e), d)
      | Panic \<Rightarrow> (Panic, d)
      | Ok (MExt4 e) \<Rightarrow>
          (case fsck_ext4 fix (NewFileSystem (fs_dev (e_inner e))) of
             (Ok res, s) \<Rightarrow> (if R_Healthy res then Ok () else Err (Errorf ''filesystem has errors''), fs_dev s)
           | (Err er, s) \<Rightarrow> (Err er, fs_dev s)
           | (Panic, s) \<Rightarrow> (Panic, fs_dev s))
      | Ok (MBtrfs b) \<Rightarrow>
          (case btrfs_Fsck (Some b) of
             (Ok res, b') \<Rightarrow> (if Healthy res then Ok () else Err (Errorf ''filesystem has errors''),
                             case b' of Some v \<Rightarrow> B_dev v | None \<Rightarrow> d)
           | (Err er, b') \<Rightarrow> (Err er, case b' of Some v \<Rightarrow> B_dev v | None \<Rightarrow> d)
           | (Panic, b') \<Rightarrow> (Panic, case b' of Some v \<Rightarrow> B_dev v | None \<Rightarrow> d)))"

definition runFsckPartition :: "int \<Rightarrow> bool \<Rightarrow> dev \<Rightarrow> unit res \<times> dev" where
  "runFsckPartition partNum fix f =
     (case ProbePartitions f of
        (Ok (_, partitions), f') \<Rightarrow>
          (case find_partition partNum partitions of
             None \<Rightarrow> (Err (Errorf ''partition %d not found''), f')
           | Some target \<Rightarrow> runFsckDevice fix (NewPartitionReader f' target))
      | (Err e, f') \<Rightarrow> (Err (Wrapf ''failed to read partition table'' e), f')
      | (Panic, f') \<Rightarrow> (Panic, f'))"

section \<open>Listings\<close>

definition ellipsis :: nat where "ellipsis = 0x2026"

definition cli_truncate :: "nat list \<Rightarrow> nat \<Rightarrow> nat list res" where
  "cli_truncate runes n =
     (if length runes \<le> n then Ok runes
      else if n < 1 then Panic
      else Ok (take (n - 1) runes @ [ellipsis]))"

definition size_MiB :: "Partition \<Rightarrow> int" where
  "size_MiB p = (if ByteSize p < 0 then - (- ByteSize p div (1024 * 1024)) else ByteSize p div (1024 * 1024))"

text \<open>A row of the listing: number, name, type and size.\<close>

fun list_rows :: "Partition list \<Rightarrow> (nat \<times> nat list \<times> string \<times> int) list res" where
  "list_rows [] = Ok []"
| "list_rows (p # ps) =
     bindR (cli_truncate (p_Name p) 24) (\<lambda>name.
     bindR (list_rows ps) (\<lambda>rows.
       Ok ((p_Number p, name, PartitionType_String (p_Type p), size_MiB p) # rows)))"

definition DirFileTypeName :: "u8 \<Rightarrow> string" where
  "DirFileTypeName t =
     (if t = 0 then ''?'' else if t = 1 then ''f'' else if t = 2 then ''d'' else if t = 3 then ''c''
      else if t = 4 then ''b'' else if t = 5 then ''p'' else if t = 6 then ''s'' else if t = 7 then ''l'' else '''')"

definition dir_rows :: "DirEntry list \<Rightarrow> (string \<times> u64 \<times> bytes) list" where
  "dir_rows entries = map (\<lambda>e. (DirFileTypeName (d_FileType e), d_Inode e, d_Name e)) entries"

definition readRootDir :: "mounted \<Rightarrow> (string \<times> u64 \<times> bytes) list res" where
  "readRootDir m =
     mapR dir_rows (wrapR ''failed to read root directory''
       (case m of MExt4 e \<Rightarrow> fst (ext4_Readdir [47] e) | MBtrfs b \<Rightarrow> fst (btrfs_Readdir [47] b)))"

definition runReadPartition :: "int \<Rightarrow> dev \<Rightarrow> (string \<times> u64 \<times> bytes) list res" where
  "runReadPartition partNum f =
     bindR (linux_partition partNum f) (\<lambda>pr.
     bindR (wrapR ''failed to detect filesystem'' (openFilesystem pr)) readRootDir)"

text \<open>The partitions, or when there is no table the root directory of the image.\<close>

definition runListPartitions :: "dev \<Rightarrow> ((nat \<times> nat list \<times> string \<times> int) list + (string \<times> u64 \<times> bytes) list) res" where
  "runListPartitions f =
     (case ProbePartitions f of
        (Ok (_, partitions), _) \<Rightarrow> mapR Inl (list_rows partitions)
      | (Err _, f') \<Rightarrow> mapR Inr (bindR (wrapR ''failed to detect filesystem'' (openFilesystem f')) readRootDir)
      | (Panic, _) \<Rightarrow> Panic)"

section \<open>The name of the volume\<close>

definition bad_rune :: "nat \<Rightarrow> bool" where
  "bad_rune r \<longleftrightarrow> r \<in> {0x3C, 0x3E, 0x22, 0x2C, 0x20, 0x09, 0x0A, 0x0D}"

definition ext4_runes :: "nat list" where "ext4_runes = map of_char ''ext4''"

definition sanitizeVolName :: "nat list \<Rightarrow> nat list" where
  "sanitizeVolName runes =
     (let result = map (\<lambda>r. if bad_rune r then 0x5F else r) runes
      in if result = [] then ext4_runes else result)"

definition mount_option :: "nat list \<Rightarrow> nat list \<Rightarrow> nat list" where
  "mount_option fsType volName =
     map of_char ''uid=-1,gid=-1,volname='' @ sanitizeVolName (if volName = [] then fsType else volName)"

end
