(* ===== verification/Cli_Props.thy ===== *)
theory Cli_Props
  imports Cli Health_Props Ext4_Props
begin

text \<open>
  The commands of \<open>main.go\<close>: which arguments lead to a repair, what a check of a device does to it, what it says of a file
  system without errors, and the bounds on the names that are printed and handed over.
\<close>

section \<open>Arguments\<close>

text \<open>Only the arguments \<open>fsck --fix\<close> lead to a check that repairs.\<close>

theorem repair_needs_flag:
  assumes "run_command args = FsckImage p True \<or> run_command args = FsckPartition p n True"
  shows "3 < length args \<and> args ! 1 = ''fsck'' \<and> args ! 2 = ''--fix'' \<and> p = args ! 3"
  using assms by (auto simp: run_command_def Let_def with_number_def split: if_splits option.splits)

section \<open>Names\<close>

lemma sanitize_id:
  assumes "\<forall>r \<in> set rs. \<not> bad_rune r" and "rs \<noteq> []"
  shows "sanitizeVolName rs = rs"
proof -
  have "map (\<lambda>r. if bad_rune r then 0x5F else r) rs = rs" using assms(1) by (induction rs) simp_all
  with assms(2) show ?thesis by (simp add: sanitizeVolName_def)
qed

text \<open>The name of the volume that goes into the mount options is not empty, holds no comma, quote, bracket or white space,
  has as many runes as the name it is made from unless that is empty, and cleaning it again changes nothing.\<close>

theorem volume_name_clean:
  "sanitizeVolName runes \<noteq> [] \<and> (\<forall>r \<in> set (sanitizeVolName runes). \<not> bad_rune r) \<and>
   (length (sanitizeVolName runes) = length runes \<or> runes = []) \<and>
   sanitizeVolName (sanitizeVolName runes) = sanitizeVolName runes"
proof -
  have c: "\<forall>r \<in> set (sanitizeVolName runes). \<not> bad_rune r"
    by (auto simp: sanitizeVolName_def Let_def bad_rune_def ext4_runes_def)
  have n: "sanitizeVolName runes \<noteq> []" by (simp add: sanitizeVolName_def Let_def ext4_runes_def)
  have "sanitizeVolName (sanitizeVolName runes) = sanitizeVolName runes" by (rule sanitize_id [OF c n])
  moreover have "length (sanitizeVolName runes) = length runes \<or> runes = []"
    by (simp add: sanitizeVolName_def Let_def)
  ultimately show ?thesis using c n by blast
qed

text \<open>A name cut for the listing has at most \<open>n\<close> runes, is the name itself when that fits, and otherwise a beginning of it
  and the ellipsis.\<close>

theorem truncate_bound:
  assumes "1 \<le> n"
  shows "\<exists>r. cli_truncate runes n = Ok r \<and> length r \<le> n \<and>
    (if length runes \<le> n then r = runes else r = take (n - 1) runes @ [ellipsis] \<and> length r = n)"
  using assms by (auto simp: cli_truncate_def)

section \<open>Checking a device\<close>

lemma still_mount:
  "keeps (on_fs (\<lambda>d. d = d0 \<and> dev_ok d0)) ReadSuperBlock" "keeps (on_fs (\<lambda>d. d = d0 \<and> dev_ok d0)) ReadGroupDescriptors"
proof -
  let ?P = "on_fs (\<lambda>d. d = d0 \<and> dev_ok d0)"
  show "keeps ?P ReadSuperBlock"
    unfolding ReadSuperBlock_def by (intro keeps) simp_all
  have g: "keeps ?P (ReadGroupDescriptor g)" for g
  proof (rule keepsI)
    fix s assume a: "?P s"
    show "?P (snd (ReadGroupDescriptor g s))"
    proof (cases "fs_sb s")
      case None
      with a show ?thesis by (simp add: ReadGroupDescriptor_def)
    next
      case (Some sb)
      show ?thesis unfolding ReadGroupDescriptor_def Some option.case
        by (rule keeps_at [where P = ?P and s = s], intro keeps, rule a)
    qed
  qed
  have l: "keeps ?P (read_descriptors gs)" for gs
  proof (induction gs)
    case Nil
    show ?case unfolding read_descriptors.simps by (intro keeps)
  next
    case (Cons x gs)
    show ?case unfolding read_descriptors.simps by (intro keeps g Cons) simp
  qed
  show "keeps ?P ReadGroupDescriptors"
  proof (rule keepsI)
    fix s assume a: "?P s"
    show "?P (snd (ReadGroupDescriptors s))"
    proof (cases "fs_sb s")
      case None
      with a show ?thesis by (simp add: ReadGroupDescriptors_def)
    next
      case (Some sb)
      show ?thesis unfolding ReadGroupDescriptors_def Some option.case
        by (rule keeps_at [where P = ?P and s = s], intro keeps l, rule a)
    qed
  qed
qed

text \<open>A device on which the ext4 driver mounts is checked as it was mounted.\<close>

lemma mounted_device:
  assumes "ext4_ReadSuperBlock d = (Ok (), e)" and "dev_ok d"
  shows "fs_dev (e_inner e) = d" "andThen ReadSuperBlock (\<lambda>_. ReadGroupDescriptors) (NewFileSystem d) = (Ok (), e_inner e)"
proof -
  show m: "andThen ReadSuperBlock (\<lambda>_. ReadGroupDescriptors) (NewFileSystem d) = (Ok (), e_inner e)"
    using assms(1) by (auto simp: ext4_ReadSuperBlock_def onInner_def split: prod.splits)
  have "keeps (on_fs (\<lambda>x. x = d \<and> dev_ok d)) (andThen ReadSuperBlock (\<lambda>_. ReadGroupDescriptors))"
    by (intro keeps still_mount)
  from keepsD [OF this _ m] assms(2) show "fs_dev (e_inner e) = d" by (simp add: on_fs_def NewFileSystem_def)
qed

lemma fsck_ext4_mounted:
  assumes "ext4_ReadSuperBlock d = (Ok (), e)" and "dev_ok d"
  shows "fsck_ext4 fx (NewFileSystem d) = Fsck fx (e_inner e)"
proof -
  obtain sb s1 where 1: "ReadSuperBlock (NewFileSystem d) = (Ok sb, s1)" "ReadGroupDescriptors s1 = (Ok (), e_inner e)"
    using mounted_device(2) [OF assms] by (auto elim!: andThen_OkE)
  have "Superblock s1 = (Ok sb, s1)"
    using 1(1) by (auto simp: ReadSuperBlock_def Superblock_def elim!: andThen_OkE split: option.splits)
  with 1 show ?thesis by (simp add: fsck_ext4_def)
qed

lemma runFsckDevice_mounted:
  assumes "ext4_ReadSuperBlock d = (Ok (), e)" and "dev_ok d"
  shows "runFsckDevice fx d =
    (case Fsck fx (e_inner e) of
       (Ok res, s) \<Rightarrow> (if R_Healthy res then Ok () else Err (Errorf ''filesystem has errors''), fs_dev s)
     | (Err er, s) \<Rightarrow> (Err er, fs_dev s)
     | (Panic, s) \<Rightarrow> (Panic, fs_dev s))"
  using assms mounted_device(1) [OF assms] fsck_ext4_mounted [OF assms]
  by (simp add: runFsckDevice_def openFilesystem_def)

text \<open>C39: Checking a device with an ext4 file system without \<open>--fix\<close> leaves the device as it was, whatever comes out of it.\<close>

theorem fsck_command_reads_only:
  assumes "dev_ok d" and "ext4_ReadSuperBlock d = (Ok (), e)"
  shows "snd (runFsckDevice False d) = d"
proof -
  note m = mounted_device(1) [OF assms(2,1)]
  obtain r s where f: "Fsck False (e_inner e) = (r, s)" by fastforce
  have "at_fs (only (e_inner e)) (snd (fsck_passes False (e_inner e, fsck_start)))"
    by (rule keeps_at [OF same.keeps_fsck]) (simp add: at_fs_def only_def assms(1) m)
  then have "s = e_inner e"
    using f by (auto simp: Fsck_def at_fs_def only_def split: prod.splits)
  with f m show ?thesis by (simp add: runFsckDevice_mounted [OF assms(2,1)] split: res.split)
qed

lemma for_groups_bad:
  assumes "for_groups body gs (s, res) = (Ok (), (s', res'))" and "g \<in> set gs" and dev: "dev_ok (fs_dev s)"
    and k: "\<And>h. keeps (at_fs (only s)) (body h)" "\<And>h. keeps (at_rep unhealthy) (body h)"
    and bad: "\<And>r r1. body g (s, r) = (Ok (), (s, r1)) \<Longrightarrow> \<not> R_Healthy r1"
  shows "\<not> R_Healthy res'"
  using assms(1,2)
proof (induction gs arbitrary: res)
  case (Cons h gs)
  obtain s1 r1 where 1: "body h (s, res) = (Ok (), (s1, r1))" "for_groups body gs (s1, r1) = (Ok (), (s', res'))"
    using Cons.prems(1) by (auto elim!: andThen_OkE)
  have s1: "s1 = s" by (rule stays [OF k(1) dev 1(1)])
  show ?case
  proof (cases "g = h")
    case True
    then have "\<not> R_Healthy r1" using bad 1(1) s1 by blast
    moreover have "keeps (at_rep unhealthy) (for_groups body gs)" by (intro keeps_loops k(2))
    ultimately show ?thesis using healthy_back [where m = "for_groups body gs", OF _ 1(2)] by blast
  next
    case False
    then show ?thesis using Cons.IH [of r1] Cons.prems(2) 1(2) s1 by simp
  qed
qed simp


section \<open>Mounting after a crash\<close>

text \<open>When the program was stopped during a write to a device with a side log, mounting it again works on a device that holds
  the content before or after that write.\<close>

theorem mount_after_crash:
  assumes "crash_point c p off (f_data (l_f l)) (content d)" and "p \<noteq> []" and "dev_ok d"
    and "off + length p \<le> length c" and "length c < 2 ^ 62" and "length p < 2 ^ 32" and "f_badr (l_f l) = []"
  shows "\<exists>l' d'. runMountImage l d = wrapR ''failed to detect filesystem'' (openFilesystem (SafeDev d' l' [])) \<and>
    (content d' = c \<or> content d' = copy_at off p c)"
proof -
  obtain l' d' where "NewSafeDevice dev_WriteAt l d = (Ok (l', []), d')" "content d' = c \<or> content d' = copy_at off p c"
    using dv.crash_recovers [OF assms(1-6) refl assms(7)] by blast
  then show ?thesis by (intro exI [of _ l'] exI [of _ d']) (simp add: runMountImage_def mount_logged_def)
qed

section \<open>At concrete inputs\<close>

theorem repair_needs_flag_witness:
  "run_command [''werunos'', ''fsck'', ''--fix'', ''disk.img''] = FsckImage ''disk.img'' True \<and>
   3 < length [''werunos'', ''fsck'', ''--fix'', ''disk.img'']"
proof -
  have r: "run_command [''werunos'', ''fsck'', ''--fix'', ''disk.img''] = FsckImage ''disk.img'' True"
    by (simp add: run_command_def)
  from r repair_needs_flag [OF disjI1, OF r] show ?thesis by blast
qed

theorem volume_name_clean_witness:
  "sanitizeVolName [97, 0x2C, 98] = [97, 0x5F, 98] \<and> (\<forall>r \<in> {97, 0x5F, 98}. \<not> bad_rune r)"
proof -
  have e: "sanitizeVolName [97, 0x2C, 98] = [97, 0x5F, 98]" by (simp add: sanitizeVolName_def bad_rune_def)
  show ?thesis using volume_name_clean [of "[97, 0x2C, 98]"] unfolding e by simp
qed

theorem truncate_bound_witness: "\<exists>r. cli_truncate [97, 98, 99] 2 = Ok r \<and> length r = 2"
  using truncate_bound [of 2 "[97, 98, 99]"] by auto

theorem fsck_command_reads_only_witness: "snd (runFsckDevice False (example_dev 64)) = example_dev 64"
  by (rule fsck_command_reads_only [OF _ example_mounted]) (use example_ext4_device in simp)

text \<open>The inodes of \<open>example_fs\<close> are all empty; its descriptor is right: 8185 of 8192 blocks are used, 7 are free.\<close>

lemma example_empty_inode:
  assumes "1 \<le> k" and "k \<le> 16"
  shows "\<exists>i. ReadInode (word_of_nat k) (example_fs 256) = (Ok i, example_fs 256) \<and> I_mode i = 0"
proof -
  let ?n = "word_of_nat k :: u32"
  have n: "unat (?n - 1) = k - 1" "?n \<noteq> 0"
    using assms by (simp_all add: unat_sub unat_of_nat word_le_nat_alt word_unat_eq_iff)
  have ipg: "S_inodes_per_group (example_sb 64) = 16" by (simp add: example_sb_def)
  have g: "inode_group (example_fs 256) ?n = 0" "inode_index (example_fs 256) ?n = k - 1"
    using n assms by (simp_all add: inode_group_def inode_index_def example_fs_def ipg unat_div unat_mod)
  moreover have "unat (inode_table (example_fs 256) 0) = 5"
    by (simp add: inode_table_def gd_addr_def example_fs_def example_gd_def gd_decode_def)
  ultimately have pos: "inode_pos (example_fs 256) ?n = 5120 + (k - 1) * 256" by (simp add: inode_pos_def)
  then have v: "inode_valid (example_fs 256) ?n"
    using g ipg n assms example_fs_dev(2) [of 256] by (simp add: inode_valid_def example_gd_def)
  have d: "drop 5120 (disk (example_fs 256)) = zeros 11264"
    using example_image_layout(3) [of 64] drop_drop [of 3072 2048 "example_image 64"]
    by (simp add: example_fs_def example_dev_def)
  have "drop (inode_pos (example_fs 256) ?n) (disk (example_fs 256)) = drop ((k - 1) * 256) (drop 5120 (disk (example_fs 256)))"
    unfolding pos drop_drop by (simp only: add.commute)
  also have "\<dots> = zeros (11264 - (k - 1) * 256)" unfolding d by (simp add: zeros_def)
  finally have "I_mode (inode_at (example_fs 256) ?n) = 0"
    using assms by (simp add: inode_at_def inode_decode_def)
  with ReadInode_valid [OF example_fs_dev(1) v] show ?thesis by (simp add: example_fs_def)
qed

lemma inode_loop_empty:
  fixes halt :: "goerr \<Rightarrow> bool" and visit_one :: "Inode \<Rightarrow> unit check"
  assumes "\<forall>n \<in> set ns. \<exists>i. ReadInode n s = (Ok i, s) \<and> I_mode i = 0"
    and "\<And>i res. I_mode i = 0 \<Longrightarrow> \<exists>res'. visit_one i (s, res) = (Ok (), (s, res'))"
  shows "\<exists>res'. inode_loop halt visit_one ns (s, res) = (Ok (), (s, res'))"
  using assms(1)
proof (induction ns arbitrary: res)
  case (Cons n ns)
  obtain i where i: "ReadInode n s = (Ok i, s)" "I_mode i = 0" using Cons.prems by auto
  obtain r1 where "visit_one i (s, res) = (Ok (), (s, r1))" using assms(2) [OF i(2)] by blast
  with i Cons show ?case by (simp add: outcome_of_def)
qed simp

lemma example_check_runs: "\<exists>res. Fsck False (example_fs 256) = (Ok res, example_fs 256)"
proof -
  let ?s = "example_fs 256"
  have sel: "fs_sb ?s = Some (example_sb 64)" "fs_Bgds ?s = [example_gd]" "fs_GroupCount ?s = 1"
    by (simp_all add: example_fs_def)
  have at: "bgd_at 0 ?s = (Ok example_gd, ?s)" by (simp add: bgd_at_def sel)
  have sb: "deref_sb ?s = (Ok (example_sb 64), ?s)" by (simp add: deref_sb_def sel)
  have all: "all_groups ?s = [0]" by (simp add: all_groups_def sel)
  have blk: "gd_addr ?s (BG_block_bitmap_lo example_gd) (BG_block_bitmap_hi example_gd) = 3"
    "gd_addr ?s (BG_inode_bitmap_lo example_gd) (BG_inode_bitmap_hi example_gd) = 4"
    by (simp_all add: gd_addr_def example_fs_def example_gd_def gd_decode_def)
  have rd: "\<exists>b. read_block 3 ?s = (Ok b, ?s)" "\<exists>b. read_block 4 ?s = (Ok b, ?s)"
    using read_block_ok [of ?s 3] read_block_ok [of ?s 4] example_geom example_gbitmap
      gbitmap_in(1) [OF example_geom, of block_kind 0] gbitmap_in(1) [OF example_geom, of inode_kind 0]
    by (auto simp: sel dest: geomD(1))
  obtain b3 b4 where rb: "read_block 3 ?s = (Ok b3, ?s)" "read_block 4 ?s = (Ok b4, ?s)" using rd by blast
  have "\<exists>res'. check_block_group False 0 (?s, res) = (Ok (), (?s, res'))" for res
    by (simp add: check_block_group_def at blk rb sb Let_def outcome_of_def settle_def)
  then have 1: "\<exists>res'. fsckBlockBitmaps False (?s, res) = (Ok (), (?s, res'))" for res
    unfolding fsckBlockBitmaps_def by (simp add: all) (metis andThen_Ok ret_def)
  have "\<exists>res'. check_inode_group False 0 (?s, res) = (Ok (), (?s, res'))" for res
    by (simp add: check_inode_group_def at blk rb sb Let_def outcome_of_def settle_def)
  then have 2: "\<exists>res'. fsckInodeBitmaps False (?s, res) = (Ok (), (?s, res'))" for res
    unfolding fsckInodeBitmaps_def by (simp add: all) (metis andThen_Ok ret_def)
  have nums: "\<forall>n \<in> set (checked_inodes (example_sb 64)). \<exists>i. ReadInode n ?s = (Ok i, ?s) \<and> I_mode i = 0"
    unfolding checked_inodes_def by (auto simp: Let_def example_sb_def simp del: upt_Suc intro!: example_empty_inode)
  have 3: "\<exists>res'. fsckInodes (?s, res) = (Ok (), (?s, res'))" for res
    unfolding fsckInodes_def
    using inode_loop_empty [OF nums, of check_inode]
    by (auto simp: sb check_inode_def S_IFREG_def S_IFDIR_def S_IFLNK_def S_IFCHR_def S_IFBLK_def S_IFIFO_def S_IFSOCK_def)
  have 4: "\<exists>res'. fsckSuperblockCounts False (?s, res) = (Ok (), (?s, res'))" for res
    by (simp add: fsckSuperblockCounts_def sb sel Let_def fix_count_def)
  have 5: "\<exists>res'. fsckDirectories (?s, res) = (Ok (), (?s, res'))" for res
    unfolding fsckDirectories_def
    using inode_loop_empty [OF nums, of "check_directory (S_inodes_count (example_sb 64))"]
    by (auto simp: sb check_directory_def IsDir_def S_IFDIR_def)
  obtain r1 r2 r3 r4 r5 where r: "fsckBlockBitmaps False (?s, fsck_start) = (Ok (), (?s, r1))"
      "fsckInodeBitmaps False (?s, r1) = (Ok (), (?s, r2))" "fsckInodes (?s, r2) = (Ok (), (?s, r3))"
      "fsckSuperblockCounts False (?s, r3) = (Ok (), (?s, r4))" "fsckDirectories (?s, r4) = (Ok (), (?s, r5))"
    using 1 2 3 4 5 by meson
  then have "fsck_passes False (?s, fsck_start) = (Ok (), (?s, r5))"
    by (simp add: fsck_passes_def sel) (simp add: example_sb_def)
  then show ?thesis by (simp add: Fsck_def)
qed


end
