(* ===== verification/Spec2Isabelle.thy ===== *)
theory Spec2Isabelle
  imports Device_Props Partitions Dir_Map Replay_Props Xattr_Props Geometry_Props Health_Props Btrfs_Compress Btrfs_Tree_Props
    Host_Props Cli_Props
begin

text \<open>
  \<^bold>\<open>Werunos\<close>, a user-space driver written in Go that mounts ext4 and Btrfs partitions and disk
  images on Windows. This development models the block layer, the ext4 engine, the ext4 and the Btrfs driver, the
  bridge to WinFsp and what the command line decides.

  \<^bold>\<open>The program.\<close> A disk or image is an \<open>os.File\<close>. \<open>block/\<close> reads its partition table and wraps the file into
  readers that align requests to sectors and clamp them to one partition. \<open>vfs/\<close> is the ext4 engine: on
  top of such a device (optionally behind the side log of \<open>vfs/redolog.go\<close>) a \<open>FileSystem\<close> keeps
  superblock and group descriptors in memory and reads and writes bitmaps, inodes, extent trees,
  directory blocks and file data. A transaction (\<open>vfs/journal_writer.go\<close>) replaces the device by one that
  buffers the written blocks; its commit writes them to the jbd2 journal and then to their places,
  and \<open>vfs/jbd2.go\<close> replays a journal. \<open>ext4/fs.go\<close> is the driver: operations on paths, each one a transaction
  over \<open>vfs/\<close>. \<open>btrfs/\<close> is a second driver with its own engine: superblock, chunk map,
  updates of leaves in place with leaf and root splits, and file operations on items of the file-system tree.

  \<^bold>\<open>Conventions\<close> (theory \<open>Go_Prelude\<close>). Integers are words of their width and wrap; \<open>int64\<close> offsets are \<open>int\<close> with
  \<open>i64\<close> where they can overflow; a byte slice is a list. A call returns \<open>Ok x\<close>, \<open>Err e\<close> or \<open>Panic\<close> (index or
  slice out of range, nil dereference, division by zero); errors are named by their format strings,
  without the formatted arguments. An operation is a function from a state to an outcome and a new state, and changes made
  before an error or a panic are kept. Log output is left out. \<open>now\<close> arguments are the results of
  \<open>time.Now().Unix()\<close>.

  \<^bold>\<open>Theories.\<close>
  \<^item> \<open>Struct_Codec\<close>: locale \<open>codec\<close>, the contract of a fixed-size on-disk struct under \<open>encoding/binary\<close>;
    interpreted for every struct the program stores.
  \<^item> \<open>Os_File\<close>, \<open>Block_Layer\<close>, \<open>Tx_Device\<close>, \<open>Redo_Log\<close>, \<open>Device\<close>, \<open>Dev_IO\<close>: locale \<open>rw_device\<close>, the \<open>ReadWriterAt\<close>
    contract (exact transfer inside the device, nothing else changed). \<open>os.File\<close>, \<open>AlignedReaderAt\<close>,
    \<open>PartitionReader\<close> and \<open>TxDevice\<close> keep it, in any nesting (interpretation \<open>dv\<close> of the datatype \<open>dev\<close>).
    \<open>Device_Props\<close>: partitions are isolated, alignment is invisible, a transaction buffers; the
    side log survives a crash at any point of a write, and two ways in which it goes wrong later.
  \<^item> \<open>Partitions\<close>: \<open>block/device.go\<close>, \<open>block/mbr.go\<close>, \<open>block/gpt.go\<close>. The parsers return exactly the partitions of
    the table on the disk.
  \<^item> \<open>Super\<close>, \<open>Fs_State\<close>: \<open>vfs/super.go\<close>, \<open>vfs/bgdesc.go\<close>, \<open>vfs/core.go\<close>: the state and its mounting.
  \<^item> \<open>Inodes\<close>: \<open>vfs/inodes.go\<close> and \<open>WriteInode\<close>: an inode reads back as written, others are untouched.
  \<^item> \<open>Allocation\<close>, \<open>Bitmap_Pool\<close>, \<open>Alloc_Props\<close>: the allocators of \<open>vfs/allocate.go\<close> and their inverses in
    \<open>vfs/reclaim.go\<close>. Locale \<open>bitmap_pool\<close>, interpreted for blocks and inodes: an allocation returns a
    free element and changes exactly its bit; it succeeds when there is one; freeing undoes it.
  \<^item> \<open>Extent_Tree\<close>, \<open>Extent_Insert\<close>, \<open>Extent_Props\<close>: \<open>vfs/extents.go\<close> and the extent writers of \<open>vfs/allocate.go\<close> and
    \<open>vfs/reclaim.go\<close>. \<open>ReadExtents\<close> computes the extents of the abstract tree \<open>ext_tree\<close>; appending to a root
    leaf and the first root split keep them; the deeper split does not.
  \<^item> \<open>File_IO\<close>, \<open>File_Props\<close>: \<open>vfs/reader.go\<close>, \<open>vfs/writer.go\<close>, \<open>vfs/symlinks.go\<close>. A file is the byte string \<open>file_bytes\<close>;
    reading returns slices of it and an aligned write patches it.
  \<^item> \<open>Directory\<close>, \<open>Dir_Props\<close>, \<open>Dir_Map\<close>: \<open>vfs/directory.go\<close>, \<open>vfs/dirent.go\<close>, \<open>vfs/core.go\<close>. Locale \<open>directory\<close>: lookup, insertion and
    removal act on a directory as on a map from names.
  \<^item> \<open>Journal\<close>, \<open>Journal_Props\<close>, \<open>Replay_Props\<close>: \<open>vfs/journal_writer.go\<close>, \<open>vfs/jbd2.go\<close>. What a commit leaves on the disk for
    every order in which Go visits the dirty blocks, and what a replay of it does.
  \<^item> \<open>Xattr\<close>, \<open>Xattr_Props\<close>: \<open>vfs/xattr.go\<close>. What is serialized is parsed back in any order of iteration; setting an
    attribute that fits behind the inode acts on the map of attributes at exactly its name.
  \<^item> \<open>Ext4_Fs\<close>: \<open>ext4/fs.go\<close>. \<open>Frame\<close>: locales \<open>fs_readers\<close>, \<open>fs_frame\<close> and \<open>dev_frame\<close>, what every operation of \<open>vfs/\<close> keeps of the
    file system and of the device. \<open>Ext4_Props\<close>: their interpretations; the driver as a step relation: no history
    leaves a transaction open, a failing call leaves the device as it was; \<open>Chmod\<close> and \<open>Chown\<close>; paths. \<open>Geometry_Props\<close>: what is in memory stays well formed, with the
    geometry that was mounted.
  \<^item> \<open>Health\<close>, \<open>Health_Props\<close>: \<open>vfs/health.go\<close>. Locale \<open>report_inv\<close>: what all problems keep of a report. A check without
    repairs changes nothing, a healthy report means sane directories and extents; with repairs it stores the number
    of used blocks as the free ones.
  \<^item> \<open>Fs_Api\<close>: \<open>fs/fs.go\<close>, the types both drivers return.
  \<^item> \<open>Btrfs_Types\<close>, \<open>Btrfs_Tree\<close>: \<open>btrfs/types.go\<close>, \<open>btrfs/super.go\<close>, \<open>btrfs/tree.go\<close>. A walk calls back the items of the
    abstract tree \<open>btree\<close> in order; on a node that points at itself no depth is enough.
  \<^item> \<open>Btrfs_Leaf\<close>, \<open>Btrfs_Update\<close>: \<open>btrfs/writer.go\<close>. What is laid out in a leaf parses back.
  \<^item> \<open>Btrfs_Compress\<close>: \<open>btrfs/compress.go\<close>; zlib and zstd are parameters (record \<open>codecs\<close>).
  \<^item> \<open>Btrfs_Fs\<close>, \<open>Btrfs_Ops\<close>: \<open>btrfs/fs.go\<close>, reading and changing operations. \<open>Btrfs_Fsck\<close>: \<open>btrfs/fsck.go\<close>.
  \<^item> \<open>Btrfs_Small\<close>, \<open>Btrfs_File_Props\<close>: a file system whose tree is one leaf (\<open>small_fs\<close>) is a map from keys to item data, on which
    insertion, update and deletion act at exactly the key; file operations on top of it. \<open>Btrfs_Tree_Props\<close>: trees of every
    shape: walks in order, allocated space that overlaps nothing, the checksum, and what the check finds.
  \<^item> \<open>Host\<close>, \<open>Host_Props\<close>: \<open>host/handles.go\<close>, \<open>host/bridge.go\<close> and the interface in \<open>fs/fs.go\<close> (record \<open>driver\<close>). Locale
    \<open>handle_store\<close>: handles in use stay apart. The callbacks as a step relation: a negative answer means that
    the device is as it was; where the bridge and the ext4 driver do not fit together.
  \<^item> \<open>Cli\<close>, \<open>Cli_Props\<close>: \<open>main.go\<close>: which command, partition and driver the arguments and the device lead to, and
    the check of a device, which changes nothing without \<open>--fix\<close> and fails on sound file systems.

  \<^bold>\<open>Bounds.\<close> \<open>parseExtentNode\<close> and \<open>descend\<close> take a bound on the depth, \<open>max_depth\<close>; a depth field has 16 bits, so trees whose
    depth fields decrease fit, and running out of it stands for the stack overflow of the Go program. \<open>walk\<close> counts down
    from the limit on symbolic links of the code. The two loops of the recovery that the disk controls
    take a number of iterations and return \<open>None\<close> when it is not enough; \<open>replay_endless\<close> shows a
    disk for which no number is. A walk over a Btrfs tree recurses at most \<open>stack_depth\<close> deep; running out of it stands for the
    stack overflow. The LZO decoder allocates at most \<open>max_alloc\<close> bytes. All other loops are structural or have a measure.

  \<^bold>\<open>Not modelled.\<close> The text form of the two check reports and of the listings, log output, opening files and devices of the
  host, mounting, the installer (\<open>install.go\<close>) and drive enumeration (\<open>block/enum_windows.go\<close>): I/O of the host. Mutexes:
  operations run one at a time. Opening and removing the side log by path. The zlib and zstd codecs, the error numbers of
  WinFsp and its \<open>fill\<close> callback are parameters.
\<close>

end
